(* ===== verification/Go_Base.thy ===== *)
theory Go_Base
  imports Main "HOL-Library.Sublist"
begin

text \<open>
  The prelude: the parts of Go's standard library that the modelled packages use, as
  executable functions, and the generic lemmas about them that the components share.

  Strings. A Go string is a byte string; here it is a \<open>char list\<close> whose characters are
  bytes. The functions of package \<open>strings\<close> that depend on Unicode tables
  (\<open>ToLower\<close>, \<open>EqualFold\<close>, \<open>TrimSpace\<close>, \<open>Fields\<close>) are modelled on the ASCII range
  and leave the other bytes alone; this is the bound of the model for host names, flags
  and paths, all of which the program restricts to ASCII or compares literally.

  Times. A \<open>time.Time\<close> is the number of nanoseconds since the zero time, so the zero
  value is \<open>0\<close> and \<open>Add\<close>, \<open>Sub\<close>, \<open>Before\<close>, \<open>After\<close> are \<open>+\<close>, \<open>-\<close>, \<open><\<close>, \<open>>\<close>.

  Errors. A call that returns \<open>(T, error)\<close> is a value of a sum type: \<open>Inl\<close> carries the
  error, \<open>Inr\<close> the value.
\<close>

section \<open>Results\<close>

type_synonym ('e, 'a) result = "'e + 'a"

definition res_bind :: "('e, 'a) result \<Rightarrow> ('a \<Rightarrow> ('e, 'b) result) \<Rightarrow> ('e, 'b) result" where
  "res_bind r f = (case r of Inl e \<Rightarrow> Inl e | Inr x \<Rightarrow> f x)"

lemma res_bind_simps [simp]:
  "res_bind (Inl e) f = Inl e"
  "res_bind (Inr x) f = f x"
  by (simp_all add: res_bind_def)

lemma res_bind_Inr_iff: "res_bind r f = Inr y \<longleftrightarrow> (\<exists>x. r = Inr x \<and> f x = Inr y)"
  by (cases r) simp_all

lemma res_bind_Inl_iff: "res_bind r f = Inl e \<longleftrightarrow> r = Inl e \<or> (\<exists>x. r = Inr x \<and> f x = Inl e)"
  by (cases r) simp_all

text \<open>A loop that maps a fallible function over a slice and stops at the first error.\<close>

fun res_map :: "('a \<Rightarrow> ('e, 'b) result) \<Rightarrow> 'a list \<Rightarrow> ('e, 'b list) result" where
  "res_map f [] = Inr []"
| "res_map f (x # xs) = res_bind (f x) (\<lambda>y. res_bind (res_map f xs) (\<lambda>ys. Inr (y # ys)))"

lemma res_map_Inr_list_all2:
  "res_map f xs = Inr ys \<Longrightarrow> list_all2 (\<lambda>x y. f x = Inr y) xs ys"
  by (induction xs arbitrary: ys) (auto simp: res_bind_Inr_iff)

lemma res_map_length: "res_map f xs = Inr ys \<Longrightarrow> length ys = length xs"
  by (drule res_map_Inr_list_all2) (auto dest: list_all2_lengthD)

lemma res_map_set:
  "res_map f xs = Inr ys \<Longrightarrow> y \<in> set ys \<Longrightarrow> \<exists>x \<in> set xs. f x = Inr y"
  by (induction xs arbitrary: ys) (auto simp: res_bind_Inr_iff)

text \<open>
  \<open>res_ok P r\<close>: whatever a call returns without error satisfies \<open>P\<close>. The rules split a
  guarded body into its branches, so that a proof about a handler is one goal per branch.
\<close>

definition res_ok :: "('a \<Rightarrow> bool) \<Rightarrow> ('e, 'a) result \<Rightarrow> bool" where
  "res_ok P r \<longleftrightarrow> (\<forall>x. r = Inr x \<longrightarrow> P x)"

lemma res_ok_simps [simp]:
  "res_ok P (Inl e)"
  "res_ok P (Inr x) \<longleftrightarrow> P x"
  by (simp_all add: res_ok_def)

lemma res_okD: "res_ok P r \<Longrightarrow> r = Inr x \<Longrightarrow> P x"
  by (simp add: res_ok_def)

lemma res_okI: "(\<And>x. r = Inr x \<Longrightarrow> P x) \<Longrightarrow> res_ok P r"
  by (simp add: res_ok_def)

lemma res_ok_if:
  "(c \<Longrightarrow> res_ok P a) \<Longrightarrow> (\<not> c \<Longrightarrow> res_ok P b) \<Longrightarrow> res_ok P (if c then a else b)"
  by simp

lemma res_ok_list:
  "(xs = [] \<Longrightarrow> res_ok P a) \<Longrightarrow> (\<And>y ys. xs = y # ys \<Longrightarrow> res_ok P (b y ys)) \<Longrightarrow>
   res_ok P (case xs of [] \<Rightarrow> a | y # ys \<Rightarrow> b y ys)"
  by (cases xs) simp_all

lemma res_ok_option:
  "(x = None \<Longrightarrow> res_ok P a) \<Longrightarrow> (\<And>y. x = Some y \<Longrightarrow> res_ok P (b y)) \<Longrightarrow>
   res_ok P (case x of None \<Rightarrow> a | Some y \<Rightarrow> b y)"
  by (cases x) simp_all

lemma res_ok_sum:
  "(\<And>y. x = Inr y \<Longrightarrow> res_ok P (b y)) \<Longrightarrow> (\<And>e. x = Inl e \<Longrightarrow> res_ok P (a e)) \<Longrightarrow>
   res_ok P (case x of Inl e \<Rightarrow> a e | Inr y \<Rightarrow> b y)"
  by (cases x) simp_all

lemma res_ok_bind:
  "(\<And>y. x = Inr y \<Longrightarrow> res_ok P (b y)) \<Longrightarrow> res_ok P (res_bind x b)"
  by (cases x) simp_all

lemmas res_ok_split = res_ok_if res_ok_list res_ok_option res_ok_sum res_ok_bind

section \<open>Times and durations\<close>

type_synonym time = int
type_synonym duration = int

abbreviation is_zero_time :: "time \<Rightarrow> bool" where "is_zero_time t \<equiv> t = 0"
abbreviation millisecond :: duration where "millisecond \<equiv> 1000000"
abbreviation second :: duration where "second \<equiv> 1000000000"
abbreviation minute :: duration where "minute \<equiv> 60000000000"

section \<open>Bytes\<close>

definition code :: "char \<Rightarrow> nat" where
  "code c = of_char c"

lemma code_inj: "code a = code b \<longleftrightarrow> a = b"
  by (simp add: code_def)

lemma code_less: "code c < 256"
  by (simp add: code_def)

definition is_upper :: "char \<Rightarrow> bool" where
  "is_upper c \<longleftrightarrow> 65 \<le> code c \<and> code c \<le> 90"

definition is_lower :: "char \<Rightarrow> bool" where
  "is_lower c \<longleftrightarrow> 97 \<le> code c \<and> code c \<le> 122"

definition is_digit :: "char \<Rightarrow> bool" where
  "is_digit c \<longleftrightarrow> 48 \<le> code c \<and> code c \<le> 57"

definition is_space :: "char \<Rightarrow> bool" where
  "is_space c \<longleftrightarrow> code c = 32 \<or> (9 \<le> code c \<and> code c \<le> 13)"

definition lower_char :: "char \<Rightarrow> char" where
  "lower_char c = (if is_upper c then char_of (code c + 32) else c)"

lemma code_lower_char: "code (lower_char c) = (if is_upper c then code c + 32 else code c)"
  by (auto simp: lower_char_def code_def is_upper_def)

lemma lower_char_not_upper [simp]: "\<not> is_upper (lower_char c)"
  by (auto simp: is_upper_def code_lower_char)

lemma lower_char_idem [simp]: "lower_char (lower_char c) = lower_char c"
  using lower_char_not_upper [of c] by (simp add: lower_char_def [of "lower_char c"])

lemma lower_char_id: "\<not> is_upper c \<Longrightarrow> lower_char c = c"
  by (simp add: lower_char_def)

lemma lower_char_space [simp]: "is_space (lower_char c) \<longleftrightarrow> is_space c"
  by (auto simp: is_space_def code_lower_char is_upper_def)

lemmas byte_defs = is_upper_def is_lower_def is_digit_def is_space_def code_def lower_char_def

section \<open>Package strings\<close>

definition to_lower :: "string \<Rightarrow> string" where
  "to_lower s = map lower_char s"

definition equal_fold :: "string \<Rightarrow> string \<Rightarrow> bool" where
  "equal_fold a b \<longleftrightarrow> to_lower a = to_lower b"

definition has_prefix :: "string \<Rightarrow> string \<Rightarrow> bool" where
  "has_prefix s p \<longleftrightarrow> prefix p s"

definition has_suffix :: "string \<Rightarrow> string \<Rightarrow> bool" where
  "has_suffix s p \<longleftrightarrow> prefix (rev p) (rev s)"

definition trim_prefix :: "string \<Rightarrow> string \<Rightarrow> string" where
  "trim_prefix s p = (if has_prefix s p then drop (length p) s else s)"

definition cut_suffix :: "string \<Rightarrow> string \<Rightarrow> string option" where
  "cut_suffix s p = (if has_suffix s p then Some (take (length s - length p) s) else None)"

definition trim_suffix :: "string \<Rightarrow> string \<Rightarrow> string" where
  "trim_suffix s p = (if has_suffix s p then take (length s - length p) s else s)"

definition trim_left :: "(char \<Rightarrow> bool) \<Rightarrow> string \<Rightarrow> string" where
  "trim_left p s = dropWhile p s"

definition trim_right :: "(char \<Rightarrow> bool) \<Rightarrow> string \<Rightarrow> string" where
  "trim_right p s = rev (dropWhile p (rev s))"

definition trim :: "(char \<Rightarrow> bool) \<Rightarrow> string \<Rightarrow> string" where
  "trim p s = trim_right p (trim_left p s)"

definition trim_space :: "string \<Rightarrow> string" where
  "trim_space s = trim is_space s"

fun contains :: "string \<Rightarrow> string \<Rightarrow> bool" where
  "contains [] p \<longleftrightarrow> p = []"
| "contains (c # s) p \<longleftrightarrow> prefix p (c # s) \<or> contains s p"

text \<open>\<open>strings.Cut(s, sep)\<close> and \<open>strings.Split(s, sep)\<close> for a separator of one byte.\<close>

definition cut :: "char \<Rightarrow> string \<Rightarrow> (string \<times> string) option" where
  "cut c s = (case dropWhile (\<lambda>x. x \<noteq> c) s of
     [] \<Rightarrow> None
   | _ # after \<Rightarrow> Some (takeWhile (\<lambda>x. x \<noteq> c) s, after))"

fun split_on :: "char \<Rightarrow> string \<Rightarrow> string list" where
  "split_on c [] = [[]]"
| "split_on c (x # xs) =
     (if x = c then [] # split_on c xs
      else (case split_on c xs of [] \<Rightarrow> [[x]] | p # ps \<Rightarrow> (x # p) # ps))"

fun join :: "string \<Rightarrow> string list \<Rightarrow> string" where
  "join sep [] = []"
| "join sep [x] = x"
| "join sep (x # y # ys) = x @ sep @ join sep (y # ys)"

text \<open>\<open>strings.LastIndexByte\<close>, \<open>None\<close> for \<open>-1\<close>.\<close>

fun last_index_byte :: "char \<Rightarrow> string \<Rightarrow> nat option" where
  "last_index_byte c [] = None"
| "last_index_byte c (x # xs) =
     (case last_index_byte c xs of
        Some i \<Rightarrow> Some (Suc i)
      | None \<Rightarrow> if x = c then Some 0 else None)"

text \<open>\<open>strings.Fields\<close>: the maximal runs of non-space bytes.\<close>

fun fields_acc :: "string \<Rightarrow> string \<Rightarrow> string list" where
  "fields_acc cur [] = (if cur = [] then [] else [rev cur])"
| "fields_acc cur (c # cs) =
     (if is_space c then (if cur = [] then fields_acc [] cs else rev cur # fields_acc [] cs)
      else fields_acc (c # cur) cs)"

definition fields :: "string \<Rightarrow> string list" where
  "fields s = fields_acc [] s"

subsection \<open>Lemmas\<close>

lemma to_lower_Nil [simp]: "to_lower [] = []"
  by (simp add: to_lower_def)

lemma to_lower_append [simp]: "to_lower (a @ b) = to_lower a @ to_lower b"
  by (simp add: to_lower_def)

lemma length_to_lower [simp]: "length (to_lower s) = length s"
  by (simp add: to_lower_def)

lemma to_lower_eq_Nil [simp]: "to_lower s = [] \<longleftrightarrow> s = []"
  by (simp add: to_lower_def)

lemma to_lower_idem [simp]: "to_lower (to_lower s) = to_lower s"
  by (simp add: to_lower_def)

lemma to_lower_id: "\<forall>c \<in> set s. \<not> is_upper c \<Longrightarrow> to_lower s = s"
  by (simp add: to_lower_def lower_char_id map_idI)

lemma to_lower_no_upper: "c \<in> set (to_lower s) \<Longrightarrow> \<not> is_upper c"
  by (auto simp: to_lower_def)

lemma equal_fold_refl [simp]: "equal_fold a a"
  by (simp add: equal_fold_def)

lemma equal_fold_sym: "equal_fold a b \<longleftrightarrow> equal_fold b a"
  by (auto simp: equal_fold_def)

lemma has_suffix_iff: "has_suffix s p \<longleftrightarrow> (\<exists>q. s = q @ p)"
  by (auto simp: has_suffix_def prefix_def) (metis rev_append rev_rev_ident)+

lemma has_suffix_append [simp]: "has_suffix (q @ p) p"
  by (auto simp: has_suffix_iff)

lemma trim_suffix_append [simp]: "trim_suffix (q @ p) p = q"
  by (simp add: trim_suffix_def)

lemma cut_suffix_append [simp]: "cut_suffix (q @ p) p = Some q"
  by (simp add: cut_suffix_def)

lemma cut_suffix_Some: "cut_suffix s p = Some q \<longleftrightarrow> s = q @ p"
  by (auto simp: cut_suffix_def has_suffix_iff split: if_splits)

lemma set_trim_right: "set (trim_right p s) \<subseteq> set s"
  using set_dropWhileD by (fastforce simp: trim_right_def)

lemma set_trim_left: "set (trim_left p s) \<subseteq> set s"
  using set_dropWhileD by (fastforce simp: trim_left_def)

lemma set_trim: "set (trim p s) \<subseteq> set s"
  using set_trim_right set_trim_left by (fastforce simp: trim_def)

lemma length_trim_right: "length (trim_right p s) \<le> length s"
  by (simp add: trim_right_def length_dropWhile_le [of p "rev s", simplified])

lemma trim_right_last: "trim_right p s \<noteq> [] \<Longrightarrow> \<not> p (last (trim_right p s))"
  unfolding trim_right_def by (simp add: last_rev hd_dropWhile)

lemma trim_left_hd: "trim_left p s \<noteq> [] \<Longrightarrow> \<not> p (hd (trim_left p s))"
  unfolding trim_left_def by (rule hd_dropWhile)

lemma trim_right_prefix: "prefix (trim_right p s) s"
proof -
  have "suffix (dropWhile p (rev s)) (rev s)" by (rule suffix_dropWhile)
  then show ?thesis by (simp add: trim_right_def suffix_to_prefix)
qed

lemma trim_hd: "trim p s \<noteq> [] \<Longrightarrow> \<not> p (hd (trim p s))"
proof -
  assume ne: "trim p s \<noteq> []"
  have pre: "prefix (trim p s) (trim_left p s)"
    by (simp add: trim_def trim_right_prefix)
  then have "hd (trim p s) = hd (trim_left p s)" and "trim_left p s \<noteq> []"
    using ne by (auto simp: prefix_def)
  then show ?thesis using trim_left_hd by metis
qed

lemma trim_last: "trim p s \<noteq> [] \<Longrightarrow> \<not> p (last (trim p s))"
  by (simp add: trim_def trim_right_last)

lemma dropWhile_id: "(s \<noteq> [] \<Longrightarrow> \<not> p (hd s)) \<Longrightarrow> dropWhile p s = s"
  by (cases s) auto

lemma trim_right_id: "(s \<noteq> [] \<Longrightarrow> \<not> p (last s)) \<Longrightarrow> trim_right p s = s"
  using dropWhile_id [of "rev s" p] by (auto simp: trim_right_def hd_rev)

lemma trim_id: "(s \<noteq> [] \<Longrightarrow> \<not> p (hd s) \<and> \<not> p (last s)) \<Longrightarrow> trim p s = s"
  by (simp add: trim_def trim_left_def dropWhile_id trim_right_id)

lemma trim_idem [simp]: "trim p (trim p s) = trim p s"
  by (rule trim_id) (simp add: trim_hd trim_last)

lemma trim_none: "\<forall>c \<in> set s. \<not> p c \<Longrightarrow> trim p s = s"
  by (rule trim_id) auto

lemma contains_iff: "contains s p \<longleftrightarrow> (\<exists>a b. s = a @ p @ b)"
proof (induction s)
  case Nil
  then show ?case by simp
next
  case (Cons c s)
  have "(\<exists>a b. c # s = a @ p @ b) \<longleftrightarrow> prefix p (c # s) \<or> (\<exists>a b. s = a @ p @ b)"
    unfolding prefix_def
    by (metis Cons_eq_append_conv append_Cons append_self_conv2)
  with Cons show ?case by simp
qed

lemma contains_single: "contains s [c] \<longleftrightarrow> c \<in> set s"
  by (simp add: contains_iff) (metis in_set_conv_decomp)

lemma split_on_not_Nil [simp]: "split_on c s \<noteq> []"
  by (induction s) (auto split: list.splits)

lemma split_on_none: "c \<notin> set s \<Longrightarrow> split_on c s = [s]"
  by (induction s) auto

lemma split_on_join: "join [c] (split_on c s) = s"
proof (induction s)
  case Nil
  then show ?case by simp
next
  case (Cons x s)
  obtain p ps where "split_on c s = p # ps" by (cases "split_on c s") auto
  with Cons show ?case by (cases ps) auto
qed

lemma set_split_on: "p \<in> set (split_on c s) \<Longrightarrow> c \<notin> set p \<and> set p \<subseteq> set s"
  by (induction s arbitrary: p) (fastforce split: if_splits list.splits)+

section \<open>Package strconv\<close>

definition digit_val :: "char \<Rightarrow> int" where
  "digit_val c = int (code c) - 48"

definition digits_val :: "string \<Rightarrow> int" where
  "digits_val s = foldl (\<lambda>n c. 10 * n + digit_val c) 0 s"

text \<open>
  \<open>strconv.Atoi\<close>: an optional sign, at least one digit, only digits, and a value that
  fits a 64-bit \<open>int\<close>; \<open>None\<close> stands for its error.
\<close>

definition atoi :: "string \<Rightarrow> int option" where
  "atoi s =
     (let neg = (case s of c # _ \<Rightarrow> c = CHR ''-'' | [] \<Rightarrow> False);
          ds = (case s of c # cs \<Rightarrow> (if c = CHR ''-'' \<or> c = CHR ''+'' then cs else s) | [] \<Rightarrow> []);
          n = (if neg then - digits_val ds else digits_val ds)
      in if ds \<noteq> [] \<and> list_all is_digit ds \<and> - (2 ^ 63) \<le> n \<and> n < 2 ^ 63 then Some n else None)"

definition digit_char :: "nat \<Rightarrow> char" where
  "digit_char n = char_of (48 + n)"

fun nat_digits :: "nat \<Rightarrow> string" where
  "nat_digits n = (if n < 10 then [digit_char n] else nat_digits (n div 10) @ [digit_char (n mod 10)])"

declare nat_digits.simps [simp del]

definition itoa :: "int \<Rightarrow> string" where
  "itoa i = (if i < 0 then CHR ''-'' # nat_digits (nat (- i)) else nat_digits (nat i))"

lemma nat_digits_ne [simp]: "nat_digits n \<noteq> []"
  by (subst nat_digits.simps) simp

lemma code_digit_char: "n < 10 \<Longrightarrow> code (digit_char n) = 48 + n"
  by (simp add: digit_char_def code_def)

lemma nat_digits_digit: "c \<in> set (nat_digits n) \<Longrightarrow> is_digit c"
proof (induction n rule: nat_digits.induct)
  case (1 n)
  show ?case
  proof (cases "n < 10")
    case True
    with "1.prems" show ?thesis
      by (simp add: nat_digits.simps [of n] is_digit_def code_digit_char)
  next
    case False
    then have "n mod 10 < 10" by simp
    with False "1.prems" "1.IH" show ?thesis
      by (auto simp: nat_digits.simps [of n] is_digit_def code_digit_char)
  qed
qed

lemma digits_val_snoc: "digits_val (s @ [c]) = 10 * digits_val s + digit_val c"
  by (simp add: digits_val_def)

lemma digits_val_nat_digits [simp]: "digits_val (nat_digits n) = int n"
proof (induction n rule: nat_digits.induct)
  case (1 n)
  show ?case
  proof (cases "n < 10")
    case True
    then show ?thesis
      by (simp add: nat_digits.simps [of n] digits_val_def digit_val_def code_digit_char)
  next
    case False
    have "digits_val (nat_digits n) = 10 * int (n div 10) + int (n mod 10)"
      using False "1.IH" by (simp add: nat_digits.simps [of n] digits_val_snoc digit_val_def code_digit_char)
    then show ?thesis by presburger
  qed
qed

lemma nat_digits_inj: "nat_digits m = nat_digits n \<longleftrightarrow> m = n"
  by (metis digits_val_nat_digits of_nat_eq_iff)

lemma nat_digits_length: "n < 10 ^ k \<Longrightarrow> 0 < k \<Longrightarrow> length (nat_digits n) \<le> k"
proof (induction n arbitrary: k rule: nat_digits.induct)
  case (1 n)
  show ?case
  proof (cases "n < 10")
    case True
    with "1.prems" show ?thesis by (simp add: nat_digits.simps [of n])
  next
    case False
    obtain k' where k: "k = Suc k'"
      using "1.prems" by (cases k) auto
    have "0 < k'"
      using False "1.prems" k by (cases k') auto
    from "1.prems" k have "n div 10 < 10 ^ k'" by auto
    with False "1.IH" \<open>0 < k'\<close> have "length (nat_digits (n div 10)) \<le> k'" by blast
    with False k show ?thesis by (simp add: nat_digits.simps [of n])
  qed
qed

text \<open>Parsing what was printed: \<open>Atoi\<close> inverts \<open>Itoa\<close> on every 64-bit \<open>int\<close>.\<close>

lemma nat_digits_hd_digit: "is_digit (hd (nat_digits n))"
  by (rule nat_digits_digit [OF hd_in_set]) simp

lemma atoi_itoa: "- (2 ^ 63) \<le> i \<Longrightarrow> i < 2 ^ 63 \<Longrightarrow> atoi (itoa i) = Some i"
proof -
  assume b: "- (2 ^ 63) \<le> i" "i < 2 ^ 63"
  have all: "list_all is_digit (nat_digits m)" for m
    using nat_digits_digit by (auto simp: list_all_iff)
  obtain c cs where d: "nat_digits (nat i) = c # cs" by (cases "nat_digits (nat i)") auto
  have "is_digit c" using nat_digits_hd_digit [of "nat i"] d by simp
  then have "c \<noteq> CHR ''-''" and "c \<noteq> CHR ''+''" by (auto simp: byte_defs)
  with d all [of "nat i"] all [of "nat (- i)"] b digits_val_nat_digits [of "nat i"] show ?thesis
    by (auto simp: atoi_def itoa_def Let_def)
qed

section \<open>Package encoding/hex\<close>

definition hex_char :: "nat \<Rightarrow> char" where
  "hex_char n = (if n < 10 then char_of (48 + n) else char_of (87 + n))"

definition hex_byte :: "nat \<Rightarrow> string" where
  "hex_byte b = [hex_char (b div 16), hex_char (b mod 16)]"

definition hex_encode :: "nat list \<Rightarrow> string" where
  "hex_encode bs = concat (map hex_byte bs)"

definition is_hex :: "char \<Rightarrow> bool" where
  "is_hex c \<longleftrightarrow> is_digit c \<or> (97 \<le> code c \<and> code c \<le> 102)"

lemma hex_char_is_hex: "n < 16 \<Longrightarrow> is_hex (hex_char n)"
  by (auto simp: hex_char_def is_hex_def is_digit_def code_def)

lemma length_hex_encode [simp]: "length (hex_encode bs) = 2 * length bs"
  by (induction bs) (simp_all add: hex_encode_def hex_byte_def)

lemma hex_encode_is_hex: "\<forall>b \<in> set bs. b < 256 \<Longrightarrow> c \<in> set (hex_encode bs) \<Longrightarrow> is_hex c"
  by (fastforce simp: hex_encode_def hex_byte_def intro!: hex_char_is_hex)

lemmas str_defs = to_lower_def equal_fold_def has_prefix_def has_suffix_def trim_prefix_def
  trim_suffix_def cut_suffix_def trim_left_def trim_right_def trim_def trim_space_def cut_def

end
