(* ===== verification/Routes.thy ===== *)
theory Routes
  imports Go_Base "HOL-Library.Multiset" "HOL-Library.Char_ord" "HOL-Library.List_Lexorder" "HOL-Library.Product_Lexorder"
begin

text \<open>
  The route table of the router: the data of \<open>internal/router/router.go\<close> and
  \<open>internal/router/lan.go\<close> (\<open>Route\<close>, \<open>RouteRef\<close>, \<open>LANShare\<close>), the predicates on a route,
  \<open>sortRoutes\<close>, \<open>upsertRoute\<close>, \<open>UpdateStore\<close> and the two stores.

  A record field holds what the struct field holds; the pointer \<open>*LANShare\<close> is an
  \<open>option\<close>, which is what the file store gives (each load decodes fresh shares). A state
  string read from \<open>routes.json\<close> may be any string, hence the \<open>Other\<close> constructors.
  Generations are compared and set to 1 only, so they are \<open>nat\<close>.

  The router draws route IDs from \<open>crypto/rand\<close>: the random source is the list of the
  16-byte blocks the next reads return, and a read past its end is the read error. The
  results of \<open>url.Parse\<close> and \<open>net.ParseIP\<close> are the parameters of the record \<open>net_env\<close>.
\<close>

section \<open>Data\<close>

datatype route_state = StateUnset | RouteStatePending | RouteStateActive | StateOther string

datatype lan_share_state = LANShareRequested | LANShareActive | LANShareSuspended
  | LANShareRemoving | LANShareOther string

record route_ref =
  ref_id :: string
  ref_generation :: nat

record lan_share =
  ls_state :: lan_share_state
  ls_requested_hostname :: string
  ls_hostname :: string
  ls_interface_index :: int
  ls_interface_name :: string
  ls_address :: string
  ls_prefix :: string
  ls_created_at :: time
  ls_last_connected_at :: time
  ls_suspended_reason :: string

record route =
  rt_id :: string
  rt_generation :: nat
  rt_run_id :: string
  rt_state :: route_state
  rt_lan_share :: "lan_share option"
  rt_service :: string
  rt_preferred_scheme :: string
  rt_url_path :: string
  rt_pending_target :: string
  rt_reservation_expires_at :: time
  rt_host :: string
  rt_target :: string
  rt_pid :: int
  rt_cwd :: string
  rt_name :: string
  rt_mode :: string
  rt_project_root :: string
  rt_project_name :: string
  rt_source :: string
  rt_owner_cwd :: string
  rt_owner_env :: string
  rt_owner_instance :: string
  rt_distro :: string
  rt_linux_user :: string
  rt_runner_id :: string
  rt_listen_target :: string
  rt_lease_expires_at :: time
  rt_started_at :: time
  rt_process_identity :: string

text \<open>The zero value \<open>Route{}\<close>.\<close>

definition zero_route :: route where
  "zero_route =
     \<lparr>rt_id = [], rt_generation = 0, rt_run_id = [], rt_state = StateUnset, rt_lan_share = None,
      rt_service = [], rt_preferred_scheme = [], rt_url_path = [], rt_pending_target = [],
      rt_reservation_expires_at = 0, rt_host = [], rt_target = [], rt_pid = 0, rt_cwd = [],
      rt_name = [], rt_mode = [], rt_project_root = [], rt_project_name = [], rt_source = [],
      rt_owner_cwd = [], rt_owner_env = [], rt_owner_instance = [], rt_distro = [],
      rt_linux_user = [], rt_runner_id = [], rt_listen_target = [], rt_lease_expires_at = 0,
      rt_started_at = 0, rt_process_identity = []\<rparr>"

datatype router_error =
    ErrReservationConflict string
  | ErrRouteRefMismatch
  | ErrInvalidRouteHost
  | ErrRouteConflict string
  | RouteSchemeConflict string string string
  | ErrLANTimestampFresh
  | ErrInvalidTransition lan_share_state lan_share_state
  | ErrRandom
  | ErrStore
  | ErrMessage string

section \<open>Predicates on a route\<close>

definition EffectiveState :: "route \<Rightarrow> route_state" where
  "EffectiveState r = (if rt_state r = StateUnset then RouteStateActive else rt_state r)"

definition EffectiveTarget :: "route \<Rightarrow> string" where
  "EffectiveTarget r = (if EffectiveState r = RouteStatePending then rt_pending_target r else rt_target r)"

definition Ref :: "route \<Rightarrow> route_ref" where
  "Ref r = \<lparr>ref_id = rt_id r, ref_generation = rt_generation r\<rparr>"

definition RouteLeaseExpired :: "route \<Rightarrow> time \<Rightarrow> bool" where
  "RouteLeaseExpired r now \<longleftrightarrow>
     EffectiveState r = RouteStateActive \<and> \<not> is_zero_time (rt_lease_expires_at r)
       \<and> \<not> now < rt_lease_expires_at r"

definition RouteReservationExpired :: "route \<Rightarrow> time \<Rightarrow> bool" where
  "RouteReservationExpired r now \<longleftrightarrow>
     EffectiveState r = RouteStatePending \<and> \<not> is_zero_time (rt_reservation_expires_at r)
       \<and> \<not> rt_reservation_expires_at r > now"

definition removeExpiredRoutes :: "route list \<Rightarrow> time \<Rightarrow> route list" where
  "removeExpiredRoutes routes now =
     filter (\<lambda>r. \<not> (RouteReservationExpired r now \<or>
        (EffectiveState r = RouteStateActive \<and> \<not> is_zero_time (rt_lease_expires_at r) \<and> RouteLeaseExpired r now)))
       routes"

definition sameOwnerCWD :: "route \<Rightarrow> route \<Rightarrow> bool" where
  "sameOwnerCWD left right =
     (let leftCWD = (if rt_owner_cwd left = '''' then rt_cwd left else rt_owner_cwd left);
          rightCWD = (if rt_owner_cwd right = '''' then rt_cwd right else rt_owner_cwd right)
      in leftCWD \<noteq> '''' \<and> leftCWD = rightCWD)"

definition sameRouteOwner :: "time \<Rightarrow> route \<Rightarrow> route \<Rightarrow> bool" where
  "sameRouteOwner now existing replacement =
     (if rt_owner_env existing = '''' \<and> rt_owner_env replacement = '''' \<and>
         rt_owner_instance existing = '''' \<and> rt_owner_instance replacement = '''' \<and>
         rt_owner_cwd existing = '''' \<and> rt_owner_cwd replacement = '''' \<and>
         rt_cwd existing = '''' \<and> rt_cwd replacement = ''''
      then True
      else if rt_owner_instance existing \<noteq> '''' \<or> rt_owner_instance replacement \<noteq> '''' then
        (let sameOwner = (rt_owner_env existing = rt_owner_env replacement \<and>
               rt_owner_instance existing \<noteq> '''' \<and>
               rt_owner_instance existing = rt_owner_instance replacement \<and>
               rt_distro existing = rt_distro replacement \<and>
               rt_linux_user existing = rt_linux_user replacement \<and>
               sameOwnerCWD existing replacement)
         in if \<not> sameOwner then False
            else if rt_owner_env existing = ''wsl'' \<and> rt_runner_id existing \<noteq> rt_runner_id replacement
            then RouteLeaseExpired existing now
            else True)
      else rt_owner_env existing = rt_owner_env replacement \<and> sameOwnerCWD existing replacement)"

fun upsertRoute :: "time \<Rightarrow> route list \<Rightarrow> route \<Rightarrow> (router_error, route list) result" where
  "upsertRoute now [] route = Inr [route]"
| "upsertRoute now (r # routes) route =
     (if equal_fold (rt_host r) (rt_host route) then
        (if \<not> sameRouteOwner now r route then Inl (ErrRouteConflict (rt_host route))
         else Inr (route # routes))
      else res_bind (upsertRoute now routes route) (\<lambda>rs. Inr (r # rs)))"

text \<open>
  \<open>sort.Slice\<close> with the comparison of \<open>sortRoutes\<close>: by lower-case host, then by host.
  Go leaves the order of routes with the same host open; the model keeps it.
\<close>

definition route_key :: "route \<Rightarrow> string \<times> string" where
  "route_key r = (to_lower (rt_host r), rt_host r)"

definition sortRoutes :: "route list \<Rightarrow> route list" where
  "sortRoutes routes = sort_key route_key routes"

fun ref_index_from :: "nat \<Rightarrow> route list \<Rightarrow> route_ref \<Rightarrow> nat option" where
  "ref_index_from i [] ref = None"
| "ref_index_from i (r # routes) ref =
     (if rt_id r = ref_id ref \<and> rt_generation r = ref_generation ref then Some i
      else ref_index_from (Suc i) routes ref)"

definition routeRefIndex :: "route list \<Rightarrow> route_ref \<Rightarrow> nat option" where
  "routeRefIndex routes ref =
     (if ref_id ref = '''' \<or> ref_generation ref = 0 then None else ref_index_from 0 routes ref)"

definition routeByRef :: "route list \<Rightarrow> route_ref \<Rightarrow> route option" where
  "routeByRef routes ref =
     (case routeRefIndex routes ref of None \<Rightarrow> None | Some i \<Rightarrow> Some (routes ! i))"

section \<open>Random route IDs and identities\<close>

type_synonym rng = "nat list list"

fun newRouteID :: "rng \<Rightarrow> (router_error, string \<times> rng) result" where
  "newRouteID [] = Inl ErrRandom"
| "newRouteID (bytes # rng) = Inr (hex_encode bytes, rng)"

definition has_identity :: "route \<Rightarrow> bool" where
  "has_identity r \<longleftrightarrow> rt_id r \<noteq> '''' \<and> rt_generation r \<noteq> 0"

text \<open>The loop of \<open>withIdentities\<close> in \<open>UpdateStore\<close>.\<close>

fun withIdentities :: "rng \<Rightarrow> route list \<Rightarrow> (router_error, route list \<times> rng) result" where
  "withIdentities rng [] = Inr ([], rng)"
| "withIdentities rng (r # routes) =
     (if has_identity r
      then res_bind (withIdentities rng routes) (\<lambda>(rs, rng'). Inr (r # rs, rng'))
      else res_bind (newRouteID rng) (\<lambda>(id, rng').
             res_bind (withIdentities rng' routes) (\<lambda>(rs, rng'').
               Inr (r\<lparr>rt_id := id, rt_generation := 1\<rparr> # rs, rng''))))"

section \<open>Stores\<close>

text \<open>
  An update function gets the routes the store holds and returns the next routes with the
  values it assigns to captured variables, or an error. A store's \<open>Update\<close> method runs one
  such function under its lock; the model of a method returns the result and the new state.
\<close>

type_synonym 'a update = "route list \<Rightarrow> (router_error, route list \<times> 'a) result"
type_synonym ('s, 'a) store_op = "'s \<Rightarrow> 'a update \<Rightarrow> (router_error, 'a) result \<times> 's"

type_synonym memory_store = "route list"

definition memory_load :: "memory_store \<Rightarrow> (router_error, route list) result" where
  "memory_load s = Inr (sortRoutes s)"

definition memory_update :: "(memory_store, 'a) store_op" where
  "memory_update s u =
     (case u (sortRoutes s) of
        Inl e \<Rightarrow> (Inl e, s)
      | Inr (next, a) \<Rightarrow> (Inr a, sortRoutes next))"

text \<open>
  The file store: what \<open>routes.json\<close> holds, and whether the next lock and the next write
  (temporary file, sync, rename) succeed. A failed write leaves the old file, because the
  new contents reach the path by a rename only.
\<close>

datatype routes_file = NoFile | BadFile | RoutesFile "route list"

record file_store =
  fs_file :: routes_file
  fs_lock_ok :: bool
  fs_write_ok :: bool

definition file_load :: "file_store \<Rightarrow> (router_error, route list) result" where
  "file_load s =
     (case fs_file s of NoFile \<Rightarrow> Inr [] | BadFile \<Rightarrow> Inl ErrStore | RoutesFile routes \<Rightarrow> Inr (sortRoutes routes))"

text \<open>\<open>RouteStore.Load\<close> reads again under the lock when there was no file.\<close>

definition RouteStore_Load :: "file_store \<Rightarrow> (router_error, route list) result" where
  "RouteStore_Load s =
     (if fs_file s = NoFile then (if fs_lock_ok s then file_load s else Inl ErrStore) else file_load s)"

definition file_update :: "(file_store, 'a) store_op" where
  "file_update s u =
     (if \<not> fs_lock_ok s then (Inl ErrStore, s)
      else (case file_load s of
              Inl e \<Rightarrow> (Inl e, s)
            | Inr routes \<Rightarrow>
                (case u routes of
                   Inl e \<Rightarrow> (Inl e, s)
                 | Inr (next, a) \<Rightarrow>
                     if fs_write_ok s then (Inr a, s\<lparr>fs_file := RoutesFile (sortRoutes next)\<rparr>)
                     else (Inl ErrStore, s))))"

definition UpdateStore ::
  "('s, 'a) store_op \<Rightarrow> rng \<Rightarrow> 's \<Rightarrow> (rng \<Rightarrow> 'a update) \<Rightarrow> (router_error, 'a) result \<times> 's" where
  "UpdateStore update rng s u =
     update s (\<lambda>routes. res_bind (withIdentities rng routes) (\<lambda>(rs, rng'). u rng' rs))"

section \<open>Targets\<close>

datatype ip = IPv4 nat nat nat nat | IPv6 "nat list"

text \<open>The fields of \<open>url.URL\<close> that the router reads.\<close>

record url =
  url_scheme :: string
  url_host :: string
  url_hostname :: string
  url_port :: string
  url_path :: string
  url_raw_query :: string

record net_env =
  net_parse_url :: "string \<Rightarrow> url option"
  net_parse_ip :: "string \<Rightarrow> ip option"

fun ip_is_loopback :: "ip \<Rightarrow> bool" where
  "ip_is_loopback (IPv4 a b c d) \<longleftrightarrow> a = 127"
| "ip_is_loopback (IPv6 bs) \<longleftrightarrow> bs = replicate 15 0 @ [1]"

fun ip_is_private :: "ip \<Rightarrow> bool" where
  "ip_is_private (IPv4 a b c d) \<longleftrightarrow> a = 10 \<or> (a = 172 \<and> b div 16 = 1) \<or> (a = 192 \<and> b = 168)"
| "ip_is_private (IPv6 bs) \<longleftrightarrow> length bs = 16 \<and> hd bs div 2 = 126"

fun ip_is_link_local_unicast :: "ip \<Rightarrow> bool" where
  "ip_is_link_local_unicast (IPv4 a b c d) \<longleftrightarrow> a = 169 \<and> b = 254"
| "ip_is_link_local_unicast (IPv6 bs) \<longleftrightarrow> length bs = 16 \<and> hd bs = 254 \<and> bs ! 1 div 64 = 2"

definition allowedProbeTarget :: "net_env \<Rightarrow> url \<Rightarrow> bool" where
  "allowedProbeTarget net target =
     (if equal_fold (url_hostname target) ''localhost'' then True
      else (case net_parse_ip net (url_hostname target) of
              None \<Rightarrow> False
            | Some ip \<Rightarrow> ip_is_loopback ip \<or> ip_is_private ip \<or> ip_is_link_local_unicast ip))"

definition validateRouteTarget :: "net_env \<Rightarrow> url \<Rightarrow> router_error option" where
  "validateRouteTarget net target =
     (if url_scheme target = '''' \<or> url_host target = '''' then Some (ErrMessage ''target must be an absolute URL'')
      else if url_scheme target \<noteq> ''http'' \<and> url_scheme target \<noteq> ''https''
      then Some (ErrMessage ''target must use http or https'')
      else if \<not> allowedProbeTarget net target then Some (ErrMessage ''target must be local'')
      else None)"

section \<open>Host names of routes\<close>

definition bracket :: "char \<Rightarrow> bool" where
  "bracket c \<longleftrightarrow> c = CHR ''['' \<or> c = CHR '']''"

text \<open>
  \<open>net.SplitHostPort\<close>: the last colon separates the port; a host with a colon must be in
  brackets, and brackets may stand nowhere else. \<open>None\<close> is its error.
\<close>

definition splitHostPort :: "string \<Rightarrow> (string \<times> string) option" where
  "splitHostPort hostport =
     (case last_index_byte CHR '':'' hostport of
        None \<Rightarrow> None
      | Some i \<Rightarrow>
          (let port = drop (Suc i) hostport in
           if has_prefix hostport ''['' then
             (case cut CHR '']'' hostport of
                None \<Rightarrow> None
              | Some (pre, post) \<Rightarrow>
                  if Suc (length pre) = i \<and> \<not> list_ex bracket (tl pre) \<and> \<not> list_ex bracket port
                  then Some (tl pre, port) else None)
           else if CHR '':'' \<in> set (take i hostport) \<or> list_ex bracket hostport then None
           else Some (take i hostport, port)))"

definition normalizeRouteHost :: "string \<Rightarrow> (router_error, string) result" where
  "normalizeRouteHost raw =
     (let host = trim_space raw in
      if host = '''' then Inl ErrInvalidRouteHost
      else
        res_bind
          (case splitHostPort host of
             Some (parsed, port) \<Rightarrow>
               if port = '''' \<or> atoi port = None then Inl ErrInvalidRouteHost
               else Inr (trim bracket parsed)
           | None \<Rightarrow>
               if has_prefix host ''['' \<and> has_suffix host '']'' then Inr (trim bracket host)
               else if count_list host CHR '':'' = 1 then
                 (case cut CHR '':'' host of
                    Some (pre, post) \<Rightarrow>
                      if pre = [] \<or> post = [] \<or> atoi post = None then Inl ErrInvalidRouteHost
                      else Inr pre
                  | None \<Rightarrow> Inl ErrInvalidRouteHost)
               else if contains host '':'' then Inl ErrInvalidRouteHost
               else Inr host)
          (\<lambda>h. let h' = trim_space (trim bracket h)
                in if h' = '''' then Inl ErrInvalidRouteHost else Inr (to_lower h')))"

definition hostWithoutPort :: "string \<Rightarrow> string" where
  "hostWithoutPort host = (case normalizeRouteHost host of Inl _ \<Rightarrow> '''' | Inr h \<Rightarrow> h)"

section \<open>Lemmas\<close>

lemma mset_sortRoutes [simp]: "mset (sortRoutes routes) = mset routes"
  by (simp add: sortRoutes_def)

lemma set_sortRoutes [simp]: "set (sortRoutes routes) = set routes"
  by (simp add: sortRoutes_def)

lemma length_sortRoutes [simp]: "length (sortRoutes routes) = length routes"
  by (simp add: sortRoutes_def)

lemma sorted_sortRoutes: "sorted (map route_key (sortRoutes routes))"
  by (simp add: sortRoutes_def)

lemma sort_key_sorted_id: "sorted (map f xs) \<Longrightarrow> sort_key f xs = xs"
  by (induction xs) (simp_all add: insort_is_Cons)

lemma sortRoutes_idem [simp]: "sortRoutes (sortRoutes routes) = sortRoutes routes"
  unfolding sortRoutes_def by (rule sort_key_sorted_id) simp

lemma mset_map_sortRoutes: "mset (map f (sortRoutes routes)) = mset (map f routes)"
  by simp

lemma distinct_map_sortRoutes [simp]: "distinct (map f (sortRoutes routes)) \<longleftrightarrow> distinct (map f routes)"
  by (metis mset_eq_imp_distinct_iff mset_map_sortRoutes)

text \<open>A property of the routes that does not depend on their order is kept by sorting.\<close>

lemma list_all_sortRoutes [simp]: "list_all P (sortRoutes routes) \<longleftrightarrow> list_all P routes"
  by (simp add: list_all_iff)

lemma zero_route_simps [simp]:
  "rt_id zero_route = []" "rt_generation zero_route = 0" "rt_state zero_route = StateUnset"
  "rt_lan_share zero_route = None" "rt_host zero_route = []" "rt_target zero_route = []"
  "rt_cwd zero_route = []" "rt_owner_cwd zero_route = []"
  by (simp_all add: zero_route_def)

subsection \<open>References\<close>

lemma ref_index_from_Some:
  "ref_index_from k routes ref = Some i \<Longrightarrow>
     k \<le> i \<and> i < k + length routes \<and> rt_id (routes ! (i - k)) = ref_id ref
       \<and> rt_generation (routes ! (i - k)) = ref_generation ref"
proof (induction routes arbitrary: k)
  case Nil
  then show ?case by simp
next
  case (Cons r routes)
  then show ?case
    by (fastforce split: if_splits simp: nth_Cons' Suc_diff_le)
qed

lemma routeRefIndex_Some:
  assumes "routeRefIndex routes ref = Some i"
  shows "i < length routes" and "Ref (routes ! i) = ref" and "ref_id ref \<noteq> []" and "ref_generation ref \<noteq> 0"
  using assms ref_index_from_Some [of 0 routes ref i]
  by (auto simp: routeRefIndex_def Ref_def split: if_splits)

lemma routeByRef_Some: "routeByRef routes ref = Some r \<Longrightarrow> r \<in> set routes \<and> Ref r = ref"
  using routeRefIndex_Some [of routes ref] by (auto simp: routeByRef_def split: option.splits)

lemma ref_index_from_complete:
  "r \<in> set routes \<Longrightarrow> Ref r = ref \<Longrightarrow> \<exists>i. ref_index_from k routes ref = Some i"
  by (induction routes arbitrary: k) (auto simp: Ref_def)

lemma routeRefIndex_complete:
  "r \<in> set routes \<Longrightarrow> Ref r = ref \<Longrightarrow> has_identity r \<Longrightarrow> \<exists>i. routeRefIndex routes ref = Some i"
  using ref_index_from_complete [of r routes ref 0]
  by (auto simp: routeRefIndex_def has_identity_def Ref_def)

subsection \<open>Identities\<close>

text \<open>A random source whose blocks are 16 bytes, as \<open>newRouteID\<close> reads them.\<close>

definition rng_ok :: "rng \<Rightarrow> bool" where
  "rng_ok rng \<longleftrightarrow> list_all (\<lambda>b. length b = 16) rng"

lemma withIdentities_id: "list_all has_identity routes \<Longrightarrow> withIdentities rng routes = Inr (routes, rng)"
  by (induction routes) simp_all

lemma newRouteID_ok: "newRouteID rng = Inr (i, rng') \<Longrightarrow> rng_ok rng \<Longrightarrow> length i = 32 \<and> rng_ok rng'"
  by (cases rng) (auto simp: rng_ok_def)

lemma withIdentities_ok:
  "withIdentities rng routes = Inr (rs, rng') \<Longrightarrow> rng_ok rng \<Longrightarrow>
     list_all has_identity rs \<and> rng_ok rng' \<and>
     list_all2 (\<lambda>r r'. r' = r\<lparr>rt_id := rt_id r', rt_generation := rt_generation r'\<rparr>) routes rs"
proof (induction routes arbitrary: rng rs rng')
  case Nil
  then show ?case by simp
next
  case (Cons r routes)
  show ?case
  proof (cases "has_identity r")
    case True
    with Cons show ?thesis by (fastforce simp: res_bind_Inr_iff)
  next
    case False
    with Cons.prems obtain i rng1 rs1 where i: "newRouteID rng = Inr (i, rng1)"
      and rs: "withIdentities rng1 routes = Inr (rs1, rng')"
      and eq: "rs = r\<lparr>rt_id := i, rt_generation := 1\<rparr> # rs1"
      by (auto simp: res_bind_Inr_iff)
    have "length i = 32" "rng_ok rng1" using newRouteID_ok [OF i Cons.prems(2)] by simp_all
    with Cons.IH [OF rs] eq show ?thesis by (auto simp: has_identity_def)
  qed
qed

lemma withIdentities_hosts:
  "withIdentities rng routes = Inr (rs, rng') \<Longrightarrow> map rt_host rs = map rt_host routes"
  by (induction routes arbitrary: rng rs rng') (auto simp: res_bind_Inr_iff split: if_splits)

subsection \<open>The stores as an interface\<close>

text \<open>
  What \<open>reservations.go\<close>, \<open>lan.go\<close> and the handlers rely on: a failed update leaves the
  stored routes as they were, and a successful one ran its function once on the routes that
  a load would have returned and stored its result, sorted.
\<close>

locale route_store =
  fixes load :: "'s \<Rightarrow> (router_error, route list) result"
    and update :: "('s, 'a) store_op"
  assumes update_error: "update s u = (Inl e, s') \<Longrightarrow> s' = s"
    and update_ok: "update s u = (Inr a, s') \<Longrightarrow>
      \<exists>routes next. load s = Inr routes \<and> u routes = Inr (next, a) \<and> load s' = Inr (sortRoutes next)"
    and load_sorted: "load s = Inr routes \<Longrightarrow> sorted (map route_key routes)"
begin

lemma error_unchanged: "fst (update s u) = Inl e \<Longrightarrow> snd (update s u) = s"
  using update_error [of s u e "snd (update s u)"] by (cases "update s u") simp

lemma invariant:
  assumes "\<And>routes next a. P routes \<Longrightarrow> u routes = Inr (next, a) \<Longrightarrow> P (sortRoutes next)"
    and "load s = Inr routes" and "P routes" and "update s u = (r, s')"
  shows "\<exists>routes'. load s' = Inr routes' \<and> P routes'"
  using assms update_error [of s u _ s'] update_ok [of s u _ s'] by (cases r) fastforce+

lemma ok_obtains:
  assumes "UpdateStore update rng s u = (Inr a, s')"
  obtains stored routes rng' "next" where "load s = Inr stored" "withIdentities rng stored = Inr (routes, rng')"
    "u rng' routes = Inr (next, a)" "load s' = Inr (sortRoutes next)" "sorted (map route_key stored)"
  using update_ok [OF assms [unfolded UpdateStore_def]] load_sorted [of s]
  by (auto simp: res_bind_Inr_iff split: prod.splits)

lemma Update_error_unchanged:
  "fst (UpdateStore update rng s u) = Inl e \<Longrightarrow> snd (UpdateStore update rng s u) = s"
  unfolding UpdateStore_def by (rule error_unchanged)

end

interpretation memstore: route_store memory_load memory_update
proof unfold_locales
  fix s s' :: memory_store and u :: "'a update" and e a and routes
  show "memory_update s u = (Inl e, s') \<Longrightarrow> s' = s"
    by (auto simp: memory_update_def split: sum.splits prod.splits)
  show "memory_update s u = (Inr a, s') \<Longrightarrow>
      \<exists>routes next. memory_load s = Inr routes \<and> u routes = Inr (next, a) \<and> memory_load s' = Inr (sortRoutes next)"
    by (auto simp: memory_update_def memory_load_def split: sum.splits prod.splits)
  show "memory_load s = Inr routes \<Longrightarrow> sorted (map route_key routes)"
    using sorted_sortRoutes by (auto simp: memory_load_def)
qed

interpretation filestore: route_store file_load file_update
proof unfold_locales
  fix s s' :: file_store and u :: "'a update" and e a and routes
  show "file_update s u = (Inl e, s') \<Longrightarrow> s' = s"
    by (auto simp: file_update_def split: sum.splits prod.splits if_splits)
  show "file_update s u = (Inr a, s') \<Longrightarrow>
      \<exists>routes next. file_load s = Inr routes \<and> u routes = Inr (next, a) \<and> file_load s' = Inr (sortRoutes next)"
    by (auto simp: file_update_def file_load_def split: sum.splits prod.splits if_splits)
  show "file_load s = Inr routes \<Longrightarrow> sorted (map route_key routes)"
    using sorted_sortRoutes by (auto simp: file_load_def split: routes_file.splits)
qed

end
