(* ===== verification/Lan_Share.thy ===== *)
theory Lan_Share
  imports Routes
begin

text \<open>
  The LAN share of a route, \<open>internal/router/lan.go\<close>, with \<open>normalizeLANHostname\<close> of
  \<open>lan_handler.go\<close>. Each operation is an update of the store; the abstract machine of a share
  (\<open>share_step\<close>) says what an operation may do to the share of a route, and every operation is
  shown to be one of its steps on the route it names and nothing on the others.

  \<open>netip.ParseAddr\<close> and \<open>netip.ParsePrefix\<close> are the parameters of the record \<open>netip_env\<close>.
\<close>

section \<open>Host names and addresses\<close>

definition lan_label_char :: "char \<Rightarrow> bool" where
  "lan_label_char c \<longleftrightarrow> is_lower c \<or> is_digit c \<or> c = CHR ''-''"

definition normalizeLANHostname :: "string \<Rightarrow> (router_error, string) result" where
  "normalizeLANHostname raw =
     (let host = trim_space (to_lower raw);
          host = (case splitHostPort host of Some (parsed, _) \<Rightarrow> parsed | None \<Rightarrow> host);
          host = trim_suffix host ''.''
      in (case cut_suffix host ''.local'' of
            None \<Rightarrow> Inl (ErrMessage ''invalid LAN hostname'')
          | Some label \<Rightarrow>
              if label = '''' \<or> length label > 63 \<or> contains label ''.'' \<or> hd label = CHR ''-'' \<or> last label = CHR ''-''
              then Inl (ErrMessage ''invalid LAN hostname'')
              else if \<not> list_all lan_label_char label then Inl (ErrMessage ''invalid LAN hostname'')
              else Inr (label @ ''.local.'')))"

record netip_env =
  np_addr :: "string \<Rightarrow> ip option"
  np_prefix :: "string \<Rightarrow> (ip \<times> nat) option"

definition ip4_bits :: "nat \<times> nat \<times> nat \<times> nat \<Rightarrow> nat" where
  "ip4_bits = (\<lambda>(a, b, c, d). ((a * 256 + b) * 256 + c) * 256 + d)"

text \<open>\<open>Prefix.Contains\<close> for an IPv4 prefix and address: the same leading bits.\<close>

definition prefix4_contains :: "(nat \<times> nat \<times> nat \<times> nat) \<times> nat \<Rightarrow> nat \<times> nat \<times> nat \<times> nat \<Rightarrow> bool" where
  "prefix4_contains p address \<longleftrightarrow>
     ip4_bits (fst p) div 2 ^ (32 - snd p) = ip4_bits address div 2 ^ (32 - snd p)"

text \<open>\<open>String\<close> of an IPv4 address and of an IPv4 prefix.\<close>

definition ip4_string :: "nat \<times> nat \<times> nat \<times> nat \<Rightarrow> string" where
  "ip4_string = (\<lambda>(a, b, c, d). nat_digits a @ ''.'' @ nat_digits b @ ''.'' @ nat_digits c @ ''.'' @ nat_digits d)"

definition prefix4_string :: "(nat \<times> nat \<times> nat \<times> nat) \<times> nat \<Rightarrow> string" where
  "prefix4_string p = ip4_string (fst p) @ ''/'' @ nat_digits (snd p)"

section \<open>Operations\<close>

definition requestedLANShare :: "string \<Rightarrow> string \<Rightarrow> time \<Rightarrow> lan_share option" where
  "requestedLANShare mode routeHost now =
     (if mode \<noteq> ''lan'' then None
      else (case cut_suffix (to_lower routeHost) ''.localhost'' of
              None \<Rightarrow> None
            | Some label \<Rightarrow>
                if label = '''' then None
                else Some \<lparr>ls_state = LANShareRequested, ls_requested_hostname = label @ ''.local.'',
                           ls_hostname = '''', ls_interface_index = 0, ls_interface_name = '''',
                           ls_address = '''', ls_prefix = '''', ls_created_at = now,
                           ls_last_connected_at = 0, ls_suspended_reason = ''''\<rparr>))"

definition validLANShareTransition :: "lan_share_state \<Rightarrow> lan_share_state \<Rightarrow> bool" where
  "validLANShareTransition current next =
     (case current of
        LANShareRequested \<Rightarrow> next = LANShareActive \<or> next = LANShareSuspended \<or> next = LANShareRemoving
      | LANShareActive \<Rightarrow> next = LANShareSuspended \<or> next = LANShareRemoving
      | LANShareSuspended \<Rightarrow> next = LANShareActive \<or> next = LANShareRemoving
      | _ \<Rightarrow> False)"

definition request_share_update :: "route_ref \<Rightarrow> time \<Rightarrow> route update" where
  "request_share_update ref now routes =
     (case routeRefIndex routes ref of
        None \<Rightarrow> Inl ErrRouteRefMismatch
      | Some index \<Rightarrow>
          (let route = routes ! index in
           if EffectiveState route \<noteq> RouteStateActive then Inl (ErrMessage ''LAN sharing requires an active route'')
           else (case rt_lan_share route of
                   Some _ \<Rightarrow> Inr (routes, route)
                 | None \<Rightarrow>
                     (case requestedLANShare ''lan'' (rt_host route) now of
                        None \<Rightarrow> Inl (ErrMessage ''route host cannot be shared on LAN'')
                      | Some share \<Rightarrow>
                          (let route = route\<lparr>rt_lan_share := Some share\<rparr>
                           in Inr (routes[index := route], route))))))"

definition RequestLANShare ::
  "('s, route) store_op \<Rightarrow> rng \<Rightarrow> 's \<Rightarrow> route_ref \<Rightarrow> time \<Rightarrow> (router_error, route) result \<times> 's" where
  "RequestLANShare update rng s ref now = UpdateStore update rng s (\<lambda>_. request_share_update ref now)"

definition set_share_update :: "route_ref \<Rightarrow> lan_share_state \<Rightarrow> unit update" where
  "set_share_update ref next routes =
     (case routeRefIndex routes ref of
        None \<Rightarrow> Inl ErrRouteRefMismatch
      | Some index \<Rightarrow>
          (case rt_lan_share (routes ! index) of
             None \<Rightarrow> Inl (ErrMessage ''route has no LAN share'')
           | Some share \<Rightarrow>
               if ls_state share = next then Inr (routes, ())
               else if \<not> validLANShareTransition (ls_state share) next
               then Inl (ErrInvalidTransition (ls_state share) next)
               else Inr (routes[index := (routes ! index)\<lparr>rt_lan_share := Some (share\<lparr>ls_state := next\<rparr>)\<rparr>], ())))"

definition SetLANShareState ::
  "('s, unit) store_op \<Rightarrow> rng \<Rightarrow> 's \<Rightarrow> route_ref \<Rightarrow> lan_share_state \<Rightarrow> (router_error, unit) result \<times> 's" where
  "SetLANShareState update rng s ref next = UpdateStore update rng s (\<lambda>_. set_share_update ref next)"

record lan_activation =
  la_hostname :: string
  la_interface_index :: int
  la_interface_name :: string
  la_address :: string
  la_prefix :: string

definition activate_share :: "string \<Rightarrow> lan_activation \<Rightarrow> string \<Rightarrow> string \<Rightarrow> lan_share \<Rightarrow> lan_share" where
  "activate_share hostname activation address pfx share =
     share\<lparr>ls_state := LANShareActive, ls_hostname := hostname,
       ls_interface_index := la_interface_index activation, ls_interface_name := la_interface_name activation,
       ls_address := address, ls_prefix := pfx, ls_suspended_reason := ''''\<rparr>"

definition activate_share_update ::
  "route_ref \<Rightarrow> string \<Rightarrow> lan_activation \<Rightarrow> string \<Rightarrow> string \<Rightarrow> unit update" where
  "activate_share_update ref hostname activation address pfx routes =
     (case routeRefIndex routes ref of
        None \<Rightarrow> Inl ErrRouteRefMismatch
      | Some index \<Rightarrow>
          (case rt_lan_share (routes ! index) of
             None \<Rightarrow> Inl (ErrMessage ''route has no LAN share'')
           | Some share \<Rightarrow>
               if ls_state share \<noteq> LANShareActive \<and> \<not> validLANShareTransition (ls_state share) LANShareActive
               then Inl (ErrInvalidTransition (ls_state share) LANShareActive)
               else Inr (routes[index := (routes ! index)\<lparr>rt_lan_share :=
                           Some (activate_share hostname activation address pfx share)\<rparr>], ())))"

text \<open>The guards of \<open>ActivateLANShare\<close>: the normalized host name, the address and the prefix as printed.\<close>

definition check_activation ::
  "netip_env \<Rightarrow> lan_activation \<Rightarrow> (router_error, string \<times> string \<times> string) result" where
  "check_activation np activation =
     res_bind (normalizeLANHostname (la_hostname activation)) (\<lambda>hostname.
       case np_addr np (la_address activation) of
         Some (IPv4 a b c d) \<Rightarrow>
           if \<not> ip_is_private (IPv4 a b c d) then Inl (ErrMessage ''LAN activation requires a private IPv4 address'')
           else (case np_prefix np (la_prefix activation) of
                   Some (IPv4 pa pb pc pd, bits) \<Rightarrow>
                     if \<not> prefix4_contains ((pa, pb, pc, pd), bits) (a, b, c, d)
                     then Inl (ErrMessage ''LAN activation prefix does not contain its address'')
                     else if la_interface_index activation \<le> 0 \<or> trim_space (la_interface_name activation) = ''''
                     then Inl (ErrMessage ''LAN activation requires a network interface'')
                     else Inr (hostname, ip4_string (a, b, c, d), prefix4_string ((pa, pb, pc, pd), bits))
                 | _ \<Rightarrow> Inl (ErrMessage ''LAN activation prefix does not contain its address''))
       | _ \<Rightarrow> Inl (ErrMessage ''LAN activation requires a private IPv4 address''))"

definition ActivateLANShare ::
  "('s, unit) store_op \<Rightarrow> netip_env \<Rightarrow> rng \<Rightarrow> 's \<Rightarrow> route_ref \<Rightarrow> lan_activation \<Rightarrow> (router_error, unit) result \<times> 's" where
  "ActivateLANShare update np rng s ref activation =
     (case check_activation np activation of
        Inl e \<Rightarrow> (Inl e, s)
      | Inr (hostname, address, pfx) \<Rightarrow>
          UpdateStore update rng s (\<lambda>_. activate_share_update ref hostname activation address pfx))"

definition mark_connected_update :: "route_ref \<Rightarrow> time \<Rightarrow> unit update" where
  "mark_connected_update ref now routes =
     (case routeRefIndex routes ref of
        None \<Rightarrow> Inl ErrRouteRefMismatch
      | Some index \<Rightarrow>
          (case rt_lan_share (routes ! index) of
             None \<Rightarrow> Inl ErrLANTimestampFresh
           | Some share \<Rightarrow>
               if ls_state share \<noteq> LANShareActive then Inl ErrLANTimestampFresh
               else if \<not> is_zero_time (ls_last_connected_at share) \<and> now - ls_last_connected_at share < minute
               then Inl ErrLANTimestampFresh
               else Inr (routes[index := (routes ! index)\<lparr>rt_lan_share :=
                           Some (share\<lparr>ls_last_connected_at := now\<rparr>)\<rparr>], ())))"

definition MarkLANShareConnected ::
  "('s, unit) store_op \<Rightarrow> rng \<Rightarrow> 's \<Rightarrow> route_ref \<Rightarrow> time \<Rightarrow> (router_error, unit) result \<times> 's" where
  "MarkLANShareConnected update rng s ref now =
     (case UpdateStore update rng s (\<lambda>_. mark_connected_update ref now) of
        (r, s') \<Rightarrow> (if r = Inl ErrLANTimestampFresh then Inr () else r, s'))"

definition suspend_share_update :: "route_ref \<Rightarrow> string \<Rightarrow> unit update" where
  "suspend_share_update ref reason routes =
     (case routeRefIndex routes ref of
        None \<Rightarrow> Inl ErrRouteRefMismatch
      | Some index \<Rightarrow>
          (case rt_lan_share (routes ! index) of
             None \<Rightarrow> Inr (routes, ())
           | Some share \<Rightarrow>
               if ls_state share \<noteq> LANShareSuspended \<and> \<not> validLANShareTransition (ls_state share) LANShareSuspended
               then Inl (ErrInvalidTransition (ls_state share) LANShareSuspended)
               else Inr (routes[index := (routes ! index)\<lparr>rt_lan_share :=
                           Some (share\<lparr>ls_state := LANShareSuspended, ls_suspended_reason := reason\<rparr>)\<rparr>], ())))"

definition SuspendLANShare ::
  "('s, unit) store_op \<Rightarrow> rng \<Rightarrow> 's \<Rightarrow> route_ref \<Rightarrow> string \<Rightarrow> (router_error, unit) result \<times> 's" where
  "SuspendLANShare update rng s ref reason = UpdateStore update rng s (\<lambda>_. suspend_share_update ref reason)"

definition remove_share_update :: "route_ref \<Rightarrow> unit update" where
  "remove_share_update ref routes =
     (case routeRefIndex routes ref of
        None \<Rightarrow> Inl ErrRouteRefMismatch
      | Some index \<Rightarrow> Inr (routes[index := (routes ! index)\<lparr>rt_lan_share := None\<rparr>], ()))"

definition RemoveLANShare ::
  "('s, unit) store_op \<Rightarrow> rng \<Rightarrow> 's \<Rightarrow> route_ref \<Rightarrow> (router_error, unit) result \<times> 's" where
  "RemoveLANShare update rng s ref = UpdateStore update rng s (\<lambda>_. remove_share_update ref)"

section \<open>Host names are normal forms\<close>

lemma last_index_byte_None: "c \<notin> set s \<Longrightarrow> last_index_byte c s = None"
  by (induction s) (auto split: option.splits)

lemma splitHostPort_no_colon: "CHR '':'' \<notin> set s \<Longrightarrow> splitHostPort s = None"
  by (simp add: splitHostPort_def last_index_byte_None)

lemma lan_label_char_facts:
  assumes "lan_label_char c"
  shows "\<not> is_upper c" "\<not> is_space c" "c \<noteq> CHR '':''" "c \<noteq> CHR ''.''"
  using assms by (auto simp: lan_label_char_def byte_defs)

definition lan_label :: "string \<Rightarrow> bool" where
  "lan_label label \<longleftrightarrow> label \<noteq> [] \<and> length label \<le> 63 \<and> hd label \<noteq> CHR ''-'' \<and> last label \<noteq> CHR ''-''
     \<and> list_all lan_label_char label"

lemma normalizeLANHostname_ok:
  "normalizeLANHostname raw = Inr h \<Longrightarrow> \<exists>label. lan_label label \<and> h = label @ ''.local.''"
  by (auto simp: normalizeLANHostname_def lan_label_def Let_def split: option.splits if_splits)

lemma normalizeLANHostname_label:
  assumes "lan_label label"
  shows "normalizeLANHostname (label @ ''.local.'') = Inr (label @ ''.local.'')"
proof -
  let ?h = "label @ ''.local.''"
  have c: "lan_label_char c" if "c \<in> set label" for c using assms that by (auto simp: lan_label_def list_all_iff)
  have up: "\<forall>c \<in> set ?h. \<not> is_upper c"
    using lan_label_char_facts(1) [OF c] by (auto simp: byte_defs)
  have "\<not> is_space (hd ?h)" using c [of "hd label"] assms lan_label_char_facts(2) by (auto simp: lan_label_def)
  moreover have "\<not> is_space (last ?h)" by (simp add: byte_defs)
  ultimately have t: "trim_space ?h = ?h" unfolding trim_space_def by (intro trim_id) simp
  have "CHR '':'' \<notin> set ?h" using lan_label_char_facts(3) [OF c] by auto
  then have s: "splitHostPort ?h = None" by (rule splitHostPort_no_colon)
  have ts: "trim_suffix ?h ''.'' = label @ ''.local''"
    using trim_suffix_append [of "label @ ''.local''" "''.''"] by simp
  have dots: "\<not> contains label ''.''"
    using lan_label_char_facts(4) [OF c] by (auto simp: contains_single)
  show ?thesis
    unfolding normalizeLANHostname_def to_lower_id [OF up] t s ts Let_def option.case
    using assms dots by (simp add: cut_suffix_Some lan_label_def)
qed

section \<open>The machine of one share\<close>

text \<open>An active share carries what a LAN client needs, checked: this is what activation establishes.\<close>

definition active_share_ok :: "lan_share \<Rightarrow> bool" where
  "active_share_ok share \<longleftrightarrow>
     (ls_state share = LANShareActive \<longrightarrow>
       normalizeLANHostname (ls_hostname share) = Inr (ls_hostname share) \<and>
       ls_interface_index share > 0 \<and> ls_suspended_reason share = '''' \<and>
       (\<exists>a b c d p. ip_is_private (IPv4 a b c d) \<and> ls_address share = ip4_string (a, b, c, d) \<and>
          prefix4_contains p (a, b, c, d) \<and> ls_prefix share = prefix4_string p))"

text \<open>
  What an operation may do to the share of the route it names. \<open>SetLANShareState\<close> takes any
  next state; the program passes \<open>LANShareSuspended\<close> only, and the rule leaves out
  \<open>LANShareActive\<close>, which would skip the checks of the activation.
\<close>

inductive share_step :: "lan_share option \<Rightarrow> lan_share option \<Rightarrow> bool" where
  share_same: "share_step x x"
| share_request: "ls_state share = LANShareRequested \<Longrightarrow> share_step None (Some share)"
| share_activate: "ls_state share = LANShareActive \<or> validLANShareTransition (ls_state share) LANShareActive \<Longrightarrow>
    check_activation np activation = Inr (hostname, address, pfx) \<Longrightarrow>
    share_step (Some share) (Some (activate_share hostname activation address pfx share))"
| share_connect: "ls_state share = LANShareActive \<Longrightarrow>
    ls_last_connected_at share = 0 \<or> now - ls_last_connected_at share \<ge> minute \<Longrightarrow>
    share_step (Some share) (Some (share\<lparr>ls_last_connected_at := now\<rparr>))"
| share_suspend: "ls_state share = LANShareSuspended \<or> validLANShareTransition (ls_state share) LANShareSuspended \<Longrightarrow>
    share_step (Some share) (Some (share\<lparr>ls_state := LANShareSuspended, ls_suspended_reason := reason\<rparr>))"
| share_set: "validLANShareTransition (ls_state share) next \<Longrightarrow> next \<noteq> LANShareActive \<Longrightarrow>
    share_step (Some share) (Some (share\<lparr>ls_state := next\<rparr>))"
| share_remove: "share_step x None"

inductive_simps share_step_None: "share_step None x"

lemma res_ok_ip:
  "(\<And>a b c d. x = IPv4 a b c d \<Longrightarrow> res_ok P (f a b c d)) \<Longrightarrow> (\<And>bs. x = IPv6 bs \<Longrightarrow> res_ok P (g bs)) \<Longrightarrow>
   res_ok P (case x of IPv4 a b c d \<Rightarrow> f a b c d | IPv6 bs \<Rightarrow> g bs)"
  by (cases x) simp_all

lemma res_ok_prod: "(\<And>a b. x = (a, b) \<Longrightarrow> res_ok P (f a b)) \<Longrightarrow> res_ok P (case x of (a, b) \<Rightarrow> f a b)"
  by (cases x) simp

lemma check_activation_shape:
  "res_ok (\<lambda>(hostname, address, pfx).
     normalizeLANHostname (la_hostname activation) = Inr hostname \<and> la_interface_index activation > 0 \<and>
     (\<exists>a b c d p. ip_is_private (IPv4 a b c d) \<and> address = ip4_string (a, b, c, d) \<and>
        prefix4_contains p (a, b, c, d) \<and> pfx = prefix4_string p)) (check_activation np activation)"
  unfolding check_activation_def
  by (intro res_ok_split res_ok_ip res_ok_prod)
    (simp_all del: ip_is_private.simps split_paired_Ex, blast)

lemma check_activation_ok:
  assumes "check_activation np activation = Inr (hostname, address, pfx)"
  shows "active_share_ok (activate_share hostname activation address pfx share)"
proof -
  note shape = res_okD [OF check_activation_shape assms, unfolded prod.case]
  then obtain label where "lan_label label" "hostname = label @ ''.local.''"
    using normalizeLANHostname_ok by blast
  then have "normalizeLANHostname hostname = Inr hostname" using normalizeLANHostname_label by simp
  with shape show ?thesis by (simp add: active_share_ok_def activate_share_def del: ip_is_private.simps)
qed

lemma share_step_active_ok:
  assumes "share_step x y" "\<And>share. x = Some share \<Longrightarrow> active_share_ok share" "y = Some share'"
  shows "active_share_ok share'"
  using assms(1)
proof (cases rule: share_step.cases)
  case (share_activate share np activation hostname address pfx)
  then show ?thesis using check_activation_ok assms(3) by blast
qed (use assms(2,3) in \<open>simp_all add: active_share_ok_def del: ip_is_private.simps\<close>)

text \<open>Every operation is a step of the machine on the share of the route it names.\<close>

definition share_effect :: "route_ref \<Rightarrow> route list \<Rightarrow> route list \<Rightarrow> bool" where
  "share_effect ref routes next \<longleftrightarrow>
     (\<exists>i share'. routeRefIndex routes ref = Some i \<and> share_step (rt_lan_share (routes ! i)) share' \<and>
        next = routes[i := (routes ! i)\<lparr>rt_lan_share := share'\<rparr>])"

lemma share_effect_same: "routeRefIndex routes ref = Some i \<Longrightarrow> share_effect ref routes routes"
  unfolding share_effect_def
  by (intro exI [of _ i] exI [of _ "rt_lan_share (routes ! i)"]) (simp add: share_same)

lemma share_effectI:
  "routeRefIndex routes ref = Some i \<Longrightarrow> share_step (rt_lan_share (routes ! i)) share' \<Longrightarrow>
     share_effect ref routes (routes[i := (routes ! i)\<lparr>rt_lan_share := share'\<rparr>])"
  unfolding share_effect_def by blast

lemma requestedLANShare_state: "requestedLANShare mode host now = Some share \<Longrightarrow> ls_state share = LANShareRequested"
  by (auto simp: requestedLANShare_def split: option.splits if_splits)

lemma request_share_effect: "request_share_update ref now routes = Inr (next, r) \<Longrightarrow> share_effect ref routes next"
  by (auto simp: request_share_update_def Let_def split: option.splits if_splits
      intro!: share_effect_same share_effectI simp: share_step_None dest: requestedLANShare_state)

lemma set_share_effect:
  "set_share_update ref st routes = Inr (next, u) \<Longrightarrow> st \<noteq> LANShareActive \<Longrightarrow> share_effect ref routes next"
  by (auto simp: set_share_update_def split: option.splits if_splits
      intro!: share_effect_same share_effectI intro: share_set)

lemma activate_share_effect:
  "check_activation np activation = Inr (hostname, address, pfx) \<Longrightarrow>
     activate_share_update ref hostname activation address pfx routes = Inr (next, u) \<Longrightarrow> share_effect ref routes next"
  by (auto simp: activate_share_update_def split: option.splits if_splits intro!: share_effectI share_activate)

lemma mark_connected_effect: "mark_connected_update ref now routes = Inr (next, u) \<Longrightarrow> share_effect ref routes next"
  by (auto simp: mark_connected_update_def split: option.splits if_splits intro!: share_effectI share_connect)

lemma suspend_share_effect: "suspend_share_update ref reason routes = Inr (next, u) \<Longrightarrow> share_effect ref routes next"
  by (auto simp: suspend_share_update_def split: option.splits if_splits
      intro!: share_effect_same share_effectI share_suspend)

lemma remove_share_effect: "remove_share_update ref routes = Inr (next, u) \<Longrightarrow> share_effect ref routes next"
  by (auto simp: remove_share_update_def split: option.splits intro!: share_effectI share_remove)

section \<open>Properties\<close>

text \<open>
  \<open>normalizeLANHostname\<close> accepts only one valid label under \<open>.local\<close> and answers with its
  normal form \<open>label.local.\<close>; normalizing the answer again changes nothing. Registration, TLS
  selection and request handling can therefore compare the host names they normalize.
\<close>

theorem normalizeLANHostname_normal:
  "case normalizeLANHostname raw of
     Inl _ \<Rightarrow> True
   | Inr h \<Rightarrow> (\<exists>label. lan_label label \<and> h = label @ ''.local.'') \<and> normalizeLANHostname h = Inr h"
proof (cases "normalizeLANHostname raw")
  case (Inr h)
  with normalizeLANHostname_ok normalizeLANHostname_label show ?thesis by auto
qed simp

text \<open>How a call on the file store changed the share of a route, if it succeeded.\<close>

definition file_share_effect :: "rng \<Rightarrow> file_store \<Rightarrow> route_ref \<Rightarrow> file_store \<Rightarrow> bool" where
  "file_share_effect rng s ref s' \<longleftrightarrow>
     (\<exists>stored routes rng' next. file_load s = Inr stored \<and> withIdentities rng stored = Inr (routes, rng') \<and>
        share_effect ref routes next \<and> file_load s' = Inr (sortRoutes next))"

lemma file_share_effectI:
  assumes "UpdateStore file_update rng s (\<lambda>_. u) = (Inr a, s')"
    and "\<And>routes next a. u routes = Inr (next, a) \<Longrightarrow> share_effect ref routes next"
  shows "file_share_effect rng s ref s'"
  using assms(1)
  by (rule filestore.ok_obtains) (use assms(2) in \<open>auto simp: file_share_effect_def\<close>)

lemma MarkLANShareConnected_effect:
  assumes "MarkLANShareConnected file_update rng s ref now = (Inr u, s')"
  shows "s' = s \<or> file_share_effect rng s ref s'"
proof (cases "UpdateStore file_update rng s (\<lambda>_. mark_connected_update ref now)")
  case (Pair r s'')
  with assms show ?thesis
    using filestore.Update_error_unchanged [of rng s "\<lambda>_. mark_connected_update ref now"]
      file_share_effectI [of rng s "mark_connected_update ref now"] mark_connected_effect
    by (cases r) (fastforce simp: MarkLANShareConnected_def split: if_splits)+
qed


definition sample_shared :: route where
  "sample_shared = zero_route\<lparr>rt_id := ''a'', rt_generation := 1, rt_state := RouteStateActive,
     rt_host := ''p.localhost'', rt_target := ''u'', rt_lan_share := requestedLANShare ''lan'' ''p.localhost'' 3\<rparr>"

definition sample_share_store :: file_store where
  "sample_share_store = \<lparr>fs_file = RoutesFile [sample_shared], fs_lock_ok = True, fs_write_ok = True\<rparr>"


end
