(* ===== verification/Go_Path.thy ===== *)
theory Go_Path
  imports Go_Base
begin

text \<open>
  The lexical path functions of Go's \<open>path\<close> and (on Unix) \<open>path/filepath\<close> packages that
  the modelled code calls: \<open>Clean\<close>, \<open>Dir\<close>, \<open>Base\<close> and \<open>Join\<close>, with the lemmas on the
  elements of a cleaned path.
\<close>

abbreviation slash :: char where "slash \<equiv> CHR ''/''"

section \<open>Clean\<close>

text \<open>
  The elements kept so far, innermost first. An empty element or \<open>.\<close> is dropped, \<open>..\<close>
  removes the element before it, is dropped at the root and is kept where a relative path
  climbs above its start.
\<close>

definition clean_elem :: "bool \<Rightarrow> string list \<Rightarrow> string \<Rightarrow> string list" where
  "clean_elem rooted stack e =
     (if e = '''' \<or> e = ''.'' then stack
      else if e = ''..'' then
        (if stack \<noteq> [] \<and> hd stack \<noteq> ''..'' then tl stack
         else if rooted then stack else e # stack)
      else e # stack)"

definition clean_elems :: "string \<Rightarrow> string list" where
  "clean_elems p = rev (foldl (clean_elem (has_prefix p ''/'')) [] (split_on slash p))"

definition path_clean :: "string \<Rightarrow> string" where
  "path_clean p =
     (if p = '''' then ''.''
      else if has_prefix p ''/'' then slash # join ''/'' (clean_elems p)
      else if clean_elems p = [] then ''.''
      else join ''/'' (clean_elems p))"

section \<open>Dir, Base, Join\<close>

definition path_dir :: "string \<Rightarrow> string" where
  "path_dir p = path_clean (case last_index_byte slash p of None \<Rightarrow> '''' | Some i \<Rightarrow> take (Suc i) p)"

definition path_base :: "string \<Rightarrow> string" where
  "path_base p =
     (if p = '''' then ''.''
      else (let q = trim_right (\<lambda>c. c = slash) p
            in if q = '''' then ''/''
               else (case last_index_byte slash q of None \<Rightarrow> q | Some i \<Rightarrow> drop (Suc i) q)))"

definition path_join :: "string \<Rightarrow> string \<Rightarrow> string" where
  "path_join a b =
     (if a = '''' then (if b = '''' then '''' else path_clean b)
      else path_clean (if b = '''' then a else a @ ''/'' @ b))"

section \<open>Elements of a cleaned rooted path\<close>

definition plain_elem :: "string \<Rightarrow> bool" where
  "plain_elem e \<longleftrightarrow> e \<noteq> '''' \<and> e \<noteq> ''.'' \<and> e \<noteq> ''..'' \<and> slash \<notin> set e"

lemma clean_elem_rooted_plain:
  "list_all plain_elem stack \<Longrightarrow> slash \<notin> set e \<Longrightarrow> list_all plain_elem (clean_elem True stack e)"
  by (cases stack) (auto simp: clean_elem_def plain_elem_def)

lemma foldl_clean_rooted_plain:
  "list_all plain_elem stack \<Longrightarrow> \<forall>e \<in> set es. slash \<notin> set e \<Longrightarrow>
   list_all plain_elem (foldl (clean_elem True) stack es)"
  by (induction es arbitrary: stack) (simp_all add: clean_elem_rooted_plain)

lemma clean_elems_rooted_plain:
  "has_prefix p ''/'' \<Longrightarrow> list_all plain_elem (clean_elems p)"
  using foldl_clean_rooted_plain [of "[]" "split_on slash p"] set_split_on
  by (auto simp: clean_elems_def list_all_iff)

lemma foldl_clean_plain_append:
  "list_all plain_elem es \<Longrightarrow> foldl (clean_elem r) stack es = rev es @ stack"
  by (induction es arbitrary: stack) (auto simp: clean_elem_def plain_elem_def)

lemma split_on_append_sep:
  "c \<notin> set a \<Longrightarrow> split_on c (a @ c # b) = a # split_on c b"
  by (induction a) (auto split: list.splits)

lemma split_on_join_plain:
  "es \<noteq> [] \<Longrightarrow> \<forall>e \<in> set es. c \<notin> set e \<Longrightarrow> split_on c (join [c] es) = es"
  by (induction "[c]" es rule: join.induct)
    (auto simp: split_on_none split_on_append_sep)

text \<open>Cleaning a rooted path twice is cleaning it once.\<close>

lemma path_clean_rooted_idem:
  assumes "has_prefix p ''/''"
  shows "path_clean (path_clean p) = path_clean p"
proof -
  let ?es = "clean_elems p"
  have plain: "list_all plain_elem ?es" by (rule clean_elems_rooted_plain [OF assms])
  have c: "path_clean p = slash # join ''/'' ?es"
    using assms by (auto simp: path_clean_def has_prefix_def)
  have "clean_elems (slash # join ''/'' ?es) = ?es"
  proof (cases "?es = []")
    case True
    then show ?thesis by (simp add: clean_elems_def clean_elem_def)
  next
    case False
    then have "split_on slash (slash # join ''/'' ?es) = [] # ?es"
      using plain split_on_join_plain [of ?es slash] by (auto simp: list_all_iff plain_elem_def)
    then have "foldl (clean_elem True) [] (split_on slash (slash # join ''/'' ?es)) = rev ?es"
      using foldl_clean_plain_append [OF plain, of True "[]"] by (simp add: clean_elem_def)
    then show ?thesis by (simp add: clean_elems_def [of "slash # join ''/'' ?es"] has_prefix_def)
  qed
  then show ?thesis by (simp add: c) (simp add: path_clean_def has_prefix_def)
qed

end
