(* ===== verification/Hostname.thy ===== *)
theory Hostname
  imports Go_Path "HOL-Library.Word"
begin

text \<open>
  Project host names: the naming half of \<open>internal/project/project.go\<close>, that is
  \<open>NormalizeHostnameName\<close> and its helpers, and \<open>ResolveHostnameConflict\<close> with the
  candidates it tries. \<open>crypto/sha1\<close>, which \<open>shortHash\<close> calls, is modelled in full.
  \<open>filepath.Abs\<close> and \<open>filepath.EvalSymlinks\<close> depend on the file system and are fields
  of the parameter \<open>os_paths\<close>; \<open>None\<close> is their error.
\<close>

unbundle bit_operations_syntax

section \<open>SHA-1\<close>

type_synonym u32 = "32 word"

definition be_bytes :: "nat \<Rightarrow> nat \<Rightarrow> nat list" where
  "be_bytes k n = map (\<lambda>i. n div 256 ^ (k - 1 - i) mod 256) [0..<k]"

definition sha1_pad :: "nat list \<Rightarrow> nat list" where
  "sha1_pad bs = bs @ [128] @ replicate ((119 - length bs mod 64) mod 64) 0 @ be_bytes 8 (8 * length bs)"

fun sha1_words :: "nat list \<Rightarrow> u32 list" where
  "sha1_words (a # b # c # d # bs) =
     of_nat (16777216 * a + 65536 * b + 256 * c + d) # sha1_words bs"
| "sha1_words _ = []"

text \<open>The message schedule, newest word first.\<close>

fun sha1_schedule :: "nat \<Rightarrow> u32 list \<Rightarrow> u32 list" where
  "sha1_schedule 0 ws = ws"
| "sha1_schedule (Suc n) ws =
     sha1_schedule n (word_rotl 1 (ws ! 2 XOR ws ! 7 XOR ws ! 13 XOR ws ! 15) # ws)"

type_synonym sha1_state = "u32 \<times> u32 \<times> u32 \<times> u32 \<times> u32"

definition sha1_round :: "nat \<Rightarrow> u32 \<Rightarrow> sha1_state \<Rightarrow> sha1_state" where
  "sha1_round t w = (\<lambda>(a, b, c, d, e).
     let (f, k) = (if t < 20 then ((b AND c) OR (NOT b AND d), 0x5A827999)
                   else if t < 40 then (b XOR c XOR d, 0x6ED9EBA1)
                   else if t < 60 then ((b AND c) OR (b AND d) OR (c AND d), 0x8F1BBCDC)
                   else (b XOR c XOR d, 0xCA62C1D6))
     in (word_rotl 5 a + f + e + k + w, a, word_rotl 30 b, c, d))"

fun sha1_rounds :: "nat \<Rightarrow> u32 list \<Rightarrow> sha1_state \<Rightarrow> sha1_state" where
  "sha1_rounds t [] s = s"
| "sha1_rounds t (w # ws) s = sha1_rounds (Suc t) ws (sha1_round t w s)"

definition sha1_block :: "sha1_state \<Rightarrow> u32 list \<Rightarrow> sha1_state" where
  "sha1_block = (\<lambda>(a, b, c, d, e) ws.
     let (a', b', c', d', e') = sha1_rounds 0 (rev (sha1_schedule 64 (rev ws))) (a, b, c, d, e)
     in (a + a', b + b', c + c', d + d', e + e'))"

fun sha1_blocks :: "nat \<Rightarrow> sha1_state \<Rightarrow> u32 list \<Rightarrow> sha1_state" where
  "sha1_blocks 0 s ws = s"
| "sha1_blocks (Suc n) s ws = sha1_blocks n (sha1_block s (take 16 ws)) (drop 16 ws)"

definition sha1_sum :: "nat list \<Rightarrow> nat list" where
  "sha1_sum bs =
     (let ws = sha1_words (sha1_pad bs);
          (a, b, c, d, e) = sha1_blocks (length ws div 16)
            (0x67452301, 0xEFCDAB89, 0x98BADCFE, 0x10325476, 0xC3D2E1F0) ws
      in concat (map (\<lambda>w. be_bytes 4 (unat w)) [a, b, c, d, e]))"

lemma length_be_bytes [simp]: "length (be_bytes k n) = k"
  by (simp add: be_bytes_def)

lemma length_sha1_sum [simp]: "length (sha1_sum bs) = 20"
  by (simp add: sha1_sum_def Let_def split_beta)

lemma sha1_sum_byte: "b \<in> set (sha1_sum bs) \<Longrightarrow> b < 256"
  by (auto simp: sha1_sum_def be_bytes_def Let_def split_beta)

section \<open>Names\<close>

datatype package_manager = NoPackageManager | NPM | PNPM | Yarn | Bun

definition packageManagerFromField :: "string \<Rightarrow> package_manager" where
  "packageManagerFromField value =
     (let name = (case cut CHR ''@'' value of Some (n, _) \<Rightarrow> n | None \<Rightarrow> value)
      in if name = ''pnpm'' then PNPM
         else if name = ''npm'' then NPM
         else if name = ''yarn'' then Yarn
         else if name = ''bun'' then Bun
         else NoPackageManager)"

abbreviation hyphen :: char where "hyphen \<equiv> CHR ''-''"

text \<open>The loop of \<open>normalizeHostnameName\<close>; the flag is \<open>lastHyphen\<close>.\<close>

fun normalize_loop :: "string \<Rightarrow> bool \<Rightarrow> string" where
  "normalize_loop [] h = []"
| "normalize_loop (r # rs) h =
     (if r = CHR '' '' \<or> r = CHR ''_'' \<or> r = CHR ''.'' then
        (if \<not> h then hyphen # normalize_loop rs True else normalize_loop rs h)
      else if is_lower r \<or> is_digit r \<or> r = hyphen then
        (if r = hyphen then (if h then normalize_loop rs h else r # normalize_loop rs True)
         else r # normalize_loop rs False)
      else normalize_loop rs h)"

definition normalizeHostnameName :: "string \<Rightarrow> string" where
  "normalizeHostnameName name =
     (let normalized = trim (\<lambda>c. c = hyphen) (normalize_loop (to_lower name) False)
      in if length normalized > 63
         then trim_right (\<lambda>c. c = hyphen) (take 63 normalized)
         else normalized)"

definition NormalizeHostnameName :: "string \<Rightarrow> string" where
  "NormalizeHostnameName name =
     (let normalized = normalizeHostnameName name in if normalized = '''' then ''app'' else normalized)"

definition NormalizeHostnameAlias :: "string \<Rightarrow> string \<times> bool" where
  "NormalizeHostnameAlias name = (let normalized = normalizeHostnameName name in (normalized, normalized \<noteq> ''''))"

definition packageNameOrFolder :: "string \<Rightarrow> string \<Rightarrow> string" where
  "packageNameOrFolder name dir =
     (if name = '''' then path_base dir
      else if has_prefix name ''@'' then (case cut slash name of Some (_, after) \<Rightarrow> after | None \<Rightarrow> name)
      else name)"

section \<open>Conflicts\<close>

record os_paths =
  os_abs :: "string \<Rightarrow> string option"
  os_eval_symlinks :: "string \<Rightarrow> string option"

definition canonicalPath :: "os_paths \<Rightarrow> string \<Rightarrow> string option" where
  "canonicalPath os path =
     (case os_abs os path of
        None \<Rightarrow> None
      | Some a \<Rightarrow> (case os_eval_symlinks os a of Some resolved \<Rightarrow> Some resolved | None \<Rightarrow> Some a))"

definition samePath :: "os_paths \<Rightarrow> string \<Rightarrow> string \<Rightarrow> bool" where
  "samePath os a b = (canonicalPath os a \<noteq> None \<and> canonicalPath os a = canonicalPath os b)"

text \<open>The map is listed in the order the range loop meets its entries.\<close>

fun activeHostCWD :: "(string \<times> string) list \<Rightarrow> string \<Rightarrow> string option" where
  "activeHostCWD [] host = None"
| "activeHostCWD ((activeHost, cwd) # active) host =
     (if equal_fold activeHost host then Some cwd else activeHostCWD active host)"

definition conflictHost :: "string \<Rightarrow> string \<Rightarrow> nat \<Rightarrow> string" where
  "conflictHost parent base suf =
     (let label = parent @ ''-'' @ base
      in if suf > 0 then
           (let suffixPart = ''-'' @ itoa (int suf);
                label = NormalizeHostnameName label;
                label = (if length label + length suffixPart > 63
                         then trim_right (\<lambda>c. c = hyphen) (take (63 - length suffixPart) label)
                         else label);
                label = (if label = '''' then ''app'' else label)
            in label @ suffixPart @ ''.localhost'')
         else NormalizeHostnameName label @ ''.localhost'')"

definition shortHash :: "string \<Rightarrow> string" where
  "shortHash value = take 8 (hex_encode (sha1_sum (map code value)))"

definition fallbackConflictHost :: "string \<Rightarrow> string \<Rightarrow> string \<Rightarrow> nat \<Rightarrow> string" where
  "fallbackConflictHost parent base cwd attempt =
     (let suffixPart = ''-'' @ shortHash (parent @ ''|'' @ base @ ''|'' @ cwd @ ''|'' @ itoa (int attempt));
          label = NormalizeHostnameName (parent @ ''-'' @ base);
          label = (if length label + length suffixPart > 63
                   then trim_right (\<lambda>c. c = hyphen) (take (63 - length suffixPart) label)
                   else label);
          label = (if label = '''' then ''app'' else label)
      in label @ suffixPart @ ''.localhost'')"

definition maxHostnameConflictAttempts :: nat where
  "maxHostnameConflictAttempts = 100"

text \<open>Free, or held by the same directory.\<close>

definition host_available :: "os_paths \<Rightarrow> (string \<times> string) list \<Rightarrow> string \<Rightarrow> string \<Rightarrow> bool" where
  "host_available os active cwd host =
     (case activeHostCWD active host of None \<Rightarrow> True | Some existingCWD \<Rightarrow> samePath os existingCWD cwd)"

definition conflict_candidates :: "string \<Rightarrow> string \<Rightarrow> string list" where
  "conflict_candidates desiredHost cwd =
     (let base = trim_suffix desiredHost ''.localhost'';
          parent = NormalizeHostnameName (path_base (path_dir cwd))
      in conflictHost parent base 0
         # map (conflictHost parent base) [2..<Suc maxHostnameConflictAttempts]
         @ map (fallbackConflictHost parent base cwd) [0..<Suc maxHostnameConflictAttempts])"

definition ResolveHostnameConflict :: "os_paths \<Rightarrow> string \<Rightarrow> string \<Rightarrow> (string \<times> string) list \<Rightarrow> string" where
  "ResolveHostnameConflict os desiredHost cwd active =
     (if host_available os active cwd desiredHost then desiredHost
      else (case find (host_available os active cwd) (conflict_candidates desiredHost cwd) of
              Some candidate \<Rightarrow> candidate
            | None \<Rightarrow> fallbackConflictHost (NormalizeHostnameName (path_base (path_dir cwd)))
                        (trim_suffix desiredHost ''.localhost'') cwd (maxHostnameConflictAttempts + 1)))"

section \<open>Labels\<close>

definition label_char :: "char \<Rightarrow> bool" where
  "label_char c \<longleftrightarrow> is_lower c \<or> is_digit c \<or> c = hyphen"

text \<open>A DNS label in the form \<open>gohere\<close> generates.\<close>

definition valid_label :: "string \<Rightarrow> bool" where
  "valid_label l \<longleftrightarrow> l \<noteq> '''' \<and> length l \<le> 63 \<and> list_all label_char l \<and> hd l \<noteq> hyphen \<and> last l \<noteq> hyphen"

text \<open>
  Only label characters and no two hyphens in a row; the flag says whether a hyphen comes
  right before the string.
\<close>

fun hyphen_ok :: "string \<Rightarrow> bool \<Rightarrow> bool" where
  "hyphen_ok [] h \<longleftrightarrow> True"
| "hyphen_ok (c # s) h \<longleftrightarrow> label_char c \<and> (c = hyphen \<longrightarrow> \<not> h) \<and> hyphen_ok s (c = hyphen)"

lemma hyphen_ok_False: "hyphen_ok s h \<Longrightarrow> hyphen_ok s False"
  by (cases s) auto

lemma hyphen_ok_take: "hyphen_ok s h \<Longrightarrow> hyphen_ok (take n s) h"
proof (induction s arbitrary: n h)
  case Nil
  then show ?case by simp
next
  case (Cons c s)
  then show ?case by (cases n) auto
qed

lemma hyphen_ok_prefix: "hyphen_ok s h \<Longrightarrow> prefix t s \<Longrightarrow> hyphen_ok t h"
  using hyphen_ok_take [of s h "length t"] by (auto simp: prefix_def)

lemma hyphen_ok_dropWhile: "hyphen_ok s h \<Longrightarrow> hyphen_ok (dropWhile p s) False"
  by (induction s arbitrary: h) (auto dest: hyphen_ok_False)

lemma hyphen_ok_trim: "hyphen_ok s h \<Longrightarrow> hyphen_ok (trim p s) False"
  using hyphen_ok_dropWhile [of s h p] hyphen_ok_prefix trim_right_prefix
  unfolding trim_def trim_left_def by blast

lemma hyphen_ok_chars: "hyphen_ok s h \<Longrightarrow> list_all label_char s"
  by (induction s arbitrary: h) auto

lemma normalize_loop_ok: "hyphen_ok (normalize_loop s h) h"
  by (induction s h rule: normalize_loop.induct) (auto simp: label_char_def byte_defs)

lemma label_char_not_mapped:
  "label_char c \<Longrightarrow> c \<noteq> CHR '' '' \<and> c \<noteq> CHR ''_'' \<and> c \<noteq> CHR ''.'' \<and> \<not> is_upper c"
  by (auto simp: label_char_def byte_defs)

lemma normalize_loop_id: "hyphen_ok s h \<Longrightarrow> normalize_loop s h = s"
  by (induction s arbitrary: h) (auto simp: label_char_not_mapped label_char_def [symmetric])

lemma label_chars_lower: "list_all label_char s \<Longrightarrow> to_lower s = s"
  by (rule to_lower_id) (auto simp: list_all_iff label_char_not_mapped)

abbreviation is_hyphen :: "char \<Rightarrow> bool" where "is_hyphen \<equiv> (\<lambda>c. c = hyphen)"

text \<open>What \<open>normalizeHostnameName\<close> returns: a label, or nothing.\<close>

definition normal_form :: "string \<Rightarrow> bool" where
  "normal_form s \<longleftrightarrow> hyphen_ok s False \<and> length s \<le> 63 \<and> (s \<noteq> '''' \<longrightarrow> hd s \<noteq> hyphen \<and> last s \<noteq> hyphen)"

lemma normal_form_fixed:
  assumes "normal_form s"
  shows "normalizeHostnameName s = s"
proof -
  have chars: "list_all label_char s"
    using assms hyphen_ok_chars by (auto simp: normal_form_def)
  have "trim is_hyphen s = s"
    using assms by (intro trim_id) (simp add: normal_form_def)
  then show ?thesis
    using assms by (simp add: normalizeHostnameName_def Let_def normal_form_def
        label_chars_lower [OF chars] normalize_loop_id)
qed

lemma normal_form_trim_right:
  assumes "hyphen_ok s False" "length s \<le> 63" "s \<noteq> '''' \<longrightarrow> hd s \<noteq> hyphen"
  shows "normal_form (trim_right is_hyphen s)"
proof -
  have pre: "prefix (trim_right is_hyphen s) s" by (rule trim_right_prefix)
  have "hd (trim_right is_hyphen s) = hd s" "s \<noteq> ''''" if "trim_right is_hyphen s \<noteq> ''''"
    using that pre by (metis hd_append2 prefixE) (use that pre in auto)
  with assms show ?thesis
    using hyphen_ok_prefix [OF assms(1) pre] length_trim_right [of is_hyphen s]
      trim_right_last [of is_hyphen s]
    by (auto simp: normal_form_def)
qed

lemma normalizeHostnameName_normal: "normal_form (normalizeHostnameName name)"
proof -
  let ?t = "trim is_hyphen (normalize_loop (to_lower name) False)"
  have ok: "hyphen_ok ?t False" by (rule hyphen_ok_trim [OF normalize_loop_ok])
  have hd: "?t \<noteq> '''' \<longrightarrow> hd ?t \<noteq> hyphen" using trim_hd [of is_hyphen] by blast
  have last: "?t \<noteq> '''' \<longrightarrow> last ?t \<noteq> hyphen" using trim_last [of is_hyphen] by blast
  show ?thesis
  proof (cases "length ?t > 63")
    case True
    have "hd (take 63 ?t) \<noteq> hyphen"
      using True hd by (cases ?t) auto
    with True show ?thesis
      by (simp add: normalizeHostnameName_def Let_def normal_form_trim_right hyphen_ok_take ok)
  next
    case False
    with ok hd last show ?thesis
      by (simp add: normalizeHostnameName_def Let_def normal_form_def)
  qed
qed

lemma normal_form_valid: "normal_form s \<Longrightarrow> s \<noteq> '''' \<Longrightarrow> valid_label s"
  using hyphen_ok_chars by (auto simp: normal_form_def valid_label_def)

lemma app_normal: "normal_form ''app''"
  by (simp add: normal_form_def label_char_def byte_defs)

lemma NormalizeHostnameName_normal: "normal_form (NormalizeHostnameName name)"
  using normalizeHostnameName_normal app_normal by (simp add: NormalizeHostnameName_def Let_def)

lemma NormalizeHostnameName_ne [simp]: "NormalizeHostnameName name \<noteq> ''''"
  by (simp add: NormalizeHostnameName_def Let_def)

lemma NormalizeHostnameName_fixed: "normal_form s \<Longrightarrow> s \<noteq> '''' \<Longrightarrow> NormalizeHostnameName s = s"
  by (simp add: NormalizeHostnameName_def normal_form_fixed)

section \<open>Conflict hosts\<close>

text \<open>
  Both conflict host functions cut a label so that a suffix fits, and never leave it empty:
  the shared shape of their last three statements.
\<close>

definition fit_label :: "string \<Rightarrow> string \<Rightarrow> string" where
  "fit_label label part =
     (let l = (if length label + length part > 63
               then trim_right is_hyphen (take (63 - length part) label) else label)
      in if l = '''' then ''app'' else l)"

lemma conflictHost_suffix:
  "suf > 0 \<Longrightarrow> conflictHost parent base suf =
     fit_label (NormalizeHostnameName (parent @ ''-'' @ base)) (''-'' @ itoa (int suf))
       @ ''-'' @ itoa (int suf) @ ''.localhost''"
  by (simp add: conflictHost_def fit_label_def Let_def)

lemma fallbackConflictHost_shape:
  "fallbackConflictHost parent base cwd n =
     (let part = ''-'' @ shortHash (parent @ ''|'' @ base @ ''|'' @ cwd @ ''|'' @ itoa (int n))
      in fit_label (NormalizeHostnameName (parent @ ''-'' @ base)) part @ part @ ''.localhost'')"
  by (simp add: fallbackConflictHost_def fit_label_def Let_def)

lemma fit_label_props:
  assumes "normal_form label" "label \<noteq> ''''" "length part \<le> 60"
  shows "list_all label_char (fit_label label part)" "fit_label label part \<noteq> ''''"
    "hd (fit_label label part) \<noteq> hyphen" "length (fit_label label part) + length part \<le> 63"
proof -
  let ?l = "if length label + length part > 63
               then trim_right is_hyphen (take (63 - length part) label) else label"
  have tk: "hyphen_ok (take (63 - length part) label) False"
    using assms(1) by (simp add: normal_form_def hyphen_ok_take)
  have hd: "take (63 - length part) label \<noteq> '''' \<longrightarrow> hd (take (63 - length part) label) \<noteq> hyphen"
    using assms(1,2) by (cases label) (auto simp: normal_form_def take_Cons')
  have nf: "normal_form ?l"
    using assms(1) normal_form_trim_right [OF tk _ hd] by simp
  have len: "length ?l + length part \<le> 63"
    using assms(3) length_trim_right [of is_hyphen "take (63 - length part) label"] by auto
  have v: "valid_label (if ?l = '''' then ''app'' else ?l)"
    using normal_form_valid [OF nf] normal_form_valid [OF app_normal] by auto
  show "list_all label_char (fit_label label part)" "fit_label label part \<noteq> ''''"
    "hd (fit_label label part) \<noteq> hyphen"
    using v by (auto simp: fit_label_def Let_def valid_label_def)
  show "length (fit_label label part) + length part \<le> 63"
    using len assms(3) by (auto simp: fit_label_def Let_def)
qed

lemma fit_label_valid:
  assumes "normal_form label" "label \<noteq> ''''" "length part \<le> 60" "list_all label_char part"
    "part \<noteq> ''''" "last part \<noteq> hyphen"
  shows "valid_label (fit_label label part @ part)"
  using fit_label_props [OF assms(1-3)] assms(4-6) by (simp add: valid_label_def)

lemma digit_label_char: "is_digit c \<Longrightarrow> label_char c \<and> c \<noteq> hyphen"
  by (auto simp: label_char_def byte_defs)

lemma nat_digits_label: "list_all label_char (nat_digits n)" "hyphen \<notin> set (nat_digits n)"
  using nat_digits_digit digit_label_char by (auto simp: list_all_iff)

lemma is_hex_label_char: "is_hex c \<Longrightarrow> label_char c \<and> c \<noteq> hyphen"
  by (auto simp: is_hex_def label_char_def byte_defs)

lemma length_shortHash [simp]: "length (shortHash v) = 8"
  by (simp add: shortHash_def)

lemma shortHash_ne [simp]: "shortHash v \<noteq> []"
  using length_shortHash [of v] by fastforce

lemma shortHash_hex: "c \<in> set (shortHash v) \<Longrightarrow> is_hex c"
  using hex_encode_is_hex [of "sha1_sum (map code v)" c] sha1_sum_byte [of _ "map code v"]
  by (auto simp: shortHash_def dest: in_set_takeD)

lemma shortHash_last: "last (shortHash v) \<noteq> hyphen"
  using shortHash_hex [of _ v] is_hex_label_char last_in_set [OF shortHash_ne, of v] by blast

lemma conflictHost_valid:
  assumes "suf \<le> 100"
  shows "\<exists>l. valid_label l \<and> conflictHost parent base suf = l @ ''.localhost''"
proof (cases "suf = 0")
  case True
  then show ?thesis
    using normal_form_valid [OF NormalizeHostnameName_normal] by (auto simp: conflictHost_def Let_def)
next
  case False
  have "length (nat_digits suf) \<le> 3" using assms by (intro nat_digits_length) auto
  moreover have "last (nat_digits suf) \<noteq> hyphen"
    using nat_digits_label(2) last_in_set [OF nat_digits_ne] by metis
  ultimately have "valid_label (fit_label (NormalizeHostnameName (parent @ ''-'' @ base)) (''-'' @ nat_digits suf)
      @ ''-'' @ nat_digits suf)"
    using nat_digits_label(1) [of suf]
    by (intro fit_label_valid) (auto simp: NormalizeHostnameName_normal label_char_def)
  with False show ?thesis by (auto simp: conflictHost_suffix itoa_def)
qed

lemma fallbackConflictHost_valid:
  "\<exists>l. valid_label l \<and> fallbackConflictHost parent base cwd n = l @ ''.localhost''"
proof -
  let ?h = "shortHash (parent @ ''|'' @ base @ ''|'' @ cwd @ ''|'' @ itoa (int n))"
  have "valid_label (fit_label (NormalizeHostnameName (parent @ ''-'' @ base)) (''-'' @ ?h) @ ''-'' @ ?h)"
    using shortHash_hex shortHash_last is_hex_label_char
    by (intro fit_label_valid) (auto simp: NormalizeHostnameName_normal list_all_iff label_char_def)
  then show ?thesis by (auto simp: fallbackConflictHost_shape Let_def)
qed

section \<open>The search for a host\<close>

lemma hyphen_suffix_inj:
  assumes "a @ hyphen # x = b @ hyphen # y" "hyphen \<notin> set x" "hyphen \<notin> set y"
  shows "x = y"
proof -
  have *: "takeWhile (\<lambda>c. c \<noteq> hyphen) (rev (l @ hyphen # z)) = rev z" if "hyphen \<notin> set z" for l z
  proof -
    have "takeWhile (\<lambda>c. c \<noteq> hyphen) (rev z @ hyphen # rev l) = rev z"
      using that by (subst takeWhile_append2) auto
    then show ?thesis by simp
  qed
  from * [OF assms(2), of a] * [OF assms(3), of b] assms(1) show ?thesis by simp
qed

lemma conflictHost_inj:
  "m > 0 \<Longrightarrow> n > 0 \<Longrightarrow> conflictHost p b m = conflictHost p b n \<Longrightarrow> m = n"
  using hyphen_suffix_inj [of _ "nat_digits m" _ "nat_digits n"] nat_digits_label(2) nat_digits_inj
  by (force simp: conflictHost_suffix itoa_def)

lemma conflictHost_lower:
  assumes "suf \<le> 100"
  shows "to_lower (conflictHost parent base suf) = conflictHost parent base suf"
proof -
  obtain l where "valid_label l" "conflictHost parent base suf = l @ ''.localhost''"
    using conflictHost_valid [OF assms] by blast
  moreover have "to_lower ''.localhost'' = ''.localhost''"
    by (simp add: to_lower_def byte_defs)
  ultimately show ?thesis by (simp add: valid_label_def label_chars_lower)
qed

lemma activeHostCWD_Some:
  "activeHostCWD active host = Some cwd \<Longrightarrow> \<exists>k. (k, cwd) \<in> set active \<and> to_lower k = to_lower host"
  by (induction active host rule: activeHostCWD.induct) (auto simp: equal_fold_def split: if_splits)

lemma not_available_in:
  "\<not> host_available os active cwd host \<Longrightarrow> to_lower host \<in> set (map (to_lower \<circ> fst) active)"
  using activeHostCWD_Some [of active host]
  by (force simp: host_available_def split: option.splits)

lemma numbered_candidate_available:
  assumes "length active < 99"
  shows "\<exists>n \<in> {2..100}. host_available os active cwd (conflictHost p b n)"
proof (rule ccontr)
  assume "\<not> ?thesis"
  then have "conflictHost p b ` {2..100} \<subseteq> set (map (to_lower \<circ> fst) active)"
    using not_available_in [of os active cwd] conflictHost_lower [of _ p b] by force
  then have "card (conflictHost p b ` {2..100}) \<le> card (set (map (to_lower \<circ> fst) active))"
    by (intro card_mono) auto
  also have "\<dots> \<le> length active" using card_length [of "map (to_lower \<circ> fst) active"] by simp
  also have "card (conflictHost p b ` {2..100}) = card {2..100::nat}"
  proof (rule card_image, rule inj_onI)
    fix m n :: nat
    assume "m \<in> {2..100}" "n \<in> {2..100}" "conflictHost p b m = conflictHost p b n"
    then show "m = n" by (intro conflictHost_inj [of m n p b]) auto
  qed
  finally show False using assms by simp
qed

lemma candidates_available:
  assumes "length active < 99"
  shows "\<exists>h \<in> set (conflict_candidates d cwd). host_available os active cwd h"
proof -
  obtain n where n: "n \<in> {2..100}" "host_available os active cwd
      (conflictHost (NormalizeHostnameName (path_base (path_dir cwd))) (trim_suffix d ''.localhost'') n)"
    using numbered_candidate_available [OF assms] by blast
  then have "n \<in> set [2..<Suc maxHostnameConflictAttempts]"
    by (auto simp: maxHostnameConflictAttempts_def simp del: upt_rec_numeral)
  with n(2) show ?thesis by (auto simp: conflict_candidates_def Let_def)
qed

lemma candidates_valid:
  "h \<in> set (conflict_candidates d cwd) \<Longrightarrow> \<exists>l. valid_label l \<and> h = l @ ''.localhost''"
  using conflictHost_valid fallbackConflictHost_valid
  by (auto simp: conflict_candidates_def Let_def maxHostnameConflictAttempts_def simp del: upt_rec_numeral)

lemma resolve_cases:
  obtains "ResolveHostnameConflict os d cwd active = d" "host_available os active cwd d"
  | c where "ResolveHostnameConflict os d cwd active = c" "c \<in> set (conflict_candidates d cwd)"
      "host_available os active cwd c" "\<not> host_available os active cwd d"
  | p b where "ResolveHostnameConflict os d cwd active = fallbackConflictHost p b cwd 101"
      "\<forall>c \<in> set (conflict_candidates d cwd). \<not> host_available os active cwd c"
      "\<not> host_available os active cwd d"
proof (cases "host_available os active cwd d")
  case True
  then show thesis by (intro that(1)) (simp_all add: ResolveHostnameConflict_def)
next
  case False
  show thesis
  proof (cases "find (host_available os active cwd) (conflict_candidates d cwd)")
    case None
    then have "\<forall>c \<in> set (conflict_candidates d cwd). \<not> host_available os active cwd c"
      by (auto simp: find_None_iff)
    with None False show thesis
      by (intro that(3) [where b = "trim_suffix d ''.localhost''"])
        (simp_all add: ResolveHostnameConflict_def maxHostnameConflictAttempts_def)
  next
    case (Some c)
    have "c \<in> set (conflict_candidates d cwd)" "host_available os active cwd c"
      using Some by (auto simp: find_Some_iff)
    with False Some show thesis by (intro that(2)) (simp_all add: ResolveHostnameConflict_def)
  qed
qed

text \<open>
  The interface the router relies on when it picks the host of a route: the resolver keeps
  a desired host that is free, and as long as the table is not full it answers with a host
  that no other entry holds.
\<close>

locale host_resolver =
  fixes resolve :: "string \<Rightarrow> string \<Rightarrow> (string \<times> string) list \<Rightarrow> string"
    and available :: "(string \<times> string) list \<Rightarrow> string \<Rightarrow> string \<Rightarrow> bool"
    and limit :: nat
  assumes resolve_keeps: "available active cwd d \<Longrightarrow> resolve d cwd active = d"
    and resolve_available: "length active < limit \<Longrightarrow> available active cwd (resolve d cwd active)"
    and available_empty: "available [] cwd d"
begin

lemma resolve_first: "resolve d cwd [] = d"
  by (rule resolve_keeps) (rule available_empty)

lemma resolve_idem:
  "length active < limit \<Longrightarrow> resolve (resolve d cwd active) cwd active = resolve d cwd active"
  by (rule resolve_keeps) (rule resolve_available)

end

interpretation resolver: host_resolver "ResolveHostnameConflict os" "host_available os" 99
proof unfold_locales
  fix active cwd d
  show "host_available os active cwd d \<Longrightarrow> ResolveHostnameConflict os d cwd active = d"
    by (simp add: ResolveHostnameConflict_def)
next
  fix active :: "(string \<times> string) list" and cwd d
  assume len: "length active < 99"
  show "host_available os active cwd (ResolveHostnameConflict os d cwd active)"
    using candidates_available [OF len, of d cwd os]
    by (rule_tac resolve_cases [of os d cwd active]) auto
next
  fix cwd d show "host_available os [] cwd d" by (simp add: host_available_def)
qed

section \<open>Properties\<close>

text \<open>
  \<open>NormalizeHostnameName\<close> always yields a DNS label (1 to 63 characters of
  \<open>a-z\<close>, \<open>0-9\<close> and \<open>-\<close>, no hyphen at either end), whatever the package name, and
  normalizing its result again changes nothing.
\<close>

theorem NormalizeHostnameName_label:
  "valid_label (NormalizeHostnameName name) \<and>
   NormalizeHostnameName (NormalizeHostnameName name) = NormalizeHostnameName name"
  using normal_form_valid NormalizeHostnameName_fixed NormalizeHostnameName_normal by simp

text \<open>
  \<open>ResolveHostnameConflict\<close> answers with the desired host or with a valid label under
  \<open>.localhost\<close>: cutting the label so that \<open>-2\<close> to \<open>-100\<close> or the hash suffix fits never
  breaks the 63-byte bound, never leaves a label that ends in a hyphen or is empty.
\<close>

theorem ResolveHostnameConflict_label:
  "ResolveHostnameConflict os desiredHost cwd active = desiredHost \<or>
   (\<exists>l. valid_label l \<and> ResolveHostnameConflict os desiredHost cwd active = l @ ''.localhost'')"
proof (rule resolve_cases [of os desiredHost cwd active])
  fix p b
  assume "ResolveHostnameConflict os desiredHost cwd active = fallbackConflictHost p b cwd 101"
  then show ?thesis using fallbackConflictHost_valid by simp
qed (use candidates_valid in blast)+

text \<open>
  C40. With fewer than 99 active hosts the search cannot fail: the host it answers with is
  free, or belongs to the same directory already.
\<close>

theorem ResolveHostnameConflict_available:
  "length active < 99 \<Longrightarrow> host_available os active cwd (ResolveHostnameConflict os desiredHost cwd active)"
  by (rule resolver.resolve_available)

theorem ResolveHostnameConflict_available_witness:
  "host_available \<lparr>os_abs = Some, os_eval_symlinks = Some\<rparr> [(''web.localhost'', ''/srv/a'')] ''/home/b''
     (ResolveHostnameConflict \<lparr>os_abs = Some, os_eval_symlinks = Some\<rparr> ''web.localhost'' ''/home/b''
        [(''web.localhost'', ''/srv/a'')])"
  by (rule ResolveHostnameConflict_available) simp

end
