(* ===== verification/Reservations.thy ===== *)
theory Reservations
  imports Lan_Share Hostname
begin

text \<open>
  Route reservations, \<open>internal/router/reservations.go\<close>: a run reserves the routes of all its
  services in one update of the store, activates them once they listen, renews them and
  releases them. The closures the code passes to \<open>UpdateStore\<close> are the update functions here;
  the loops inside them are recursions with the state of the loop as arguments.

  A store is always given, so the \<open>store == nil\<close> test has no branch in the model. \<open>net\<close>
  holds the results of \<open>url.Parse\<close> and \<open>net.ParseIP\<close>, \<open>os\<close> those of \<open>filepath.Abs\<close> and
  \<open>filepath.EvalSymlinks\<close>, and \<open>rng\<close> the random blocks.
\<close>

section \<open>Data\<close>

record route_reservation =
  rs_desired_host :: string
  rs_service :: string
  rs_preferred_scheme :: string
  rs_url_path :: string
  rs_target :: string
  rs_cwd :: string
  rs_project_root :: string
  rs_project_name :: string
  rs_source :: string
  rs_owner_cwd :: string
  rs_owner_env :: string
  rs_owner_instance :: string
  rs_distro :: string
  rs_linux_user :: string
  rs_listen_target :: string
  rs_pid :: int
  rs_mode :: string
  rs_share_mode :: string
  rs_process_identity :: string
  rs_runner_id :: string
  rs_reuse :: "route_ref option"

record reservation_request =
  rq_run_id :: string
  rq_ttl :: duration
  rq_routes :: "route_reservation list"

record reserved_route =
  rr_route :: route
  rr_reused :: bool

record reservation_result =
  rz_run_id :: string
  rz_routes :: "reserved_route list"

definition PendingRefs :: "reservation_result \<Rightarrow> route_ref list" where
  "PendingRefs result =
     map (\<lambda>r. Ref (rr_route r))
       (filter (\<lambda>r. \<not> rr_reused r \<and> EffectiveState (rr_route r) = RouteStatePending) (rz_routes result))"

section \<open>Validation\<close>

definition validPreferredScheme :: "string \<Rightarrow> bool" where
  "validPreferredScheme scheme \<longleftrightarrow> scheme = ''http'' \<or> scheme = ''https''"

definition reservationTargetKey :: "net_env \<Rightarrow> string \<Rightarrow> (router_error, string) result" where
  "reservationTargetKey net target =
     (case net_parse_url net target of
        None \<Rightarrow> Inl (ErrMessage ''parse target'')
      | Some parsed \<Rightarrow>
          (case validateRouteTarget net parsed of
             Some err \<Rightarrow> Inl err
           | None \<Rightarrow> Inr (to_lower (url_host parsed))))"

definition validateReservation ::
  "net_env \<Rightarrow> route_reservation \<Rightarrow> (router_error, route_reservation) result" where
  "validateReservation net candidate =
     res_bind (normalizeRouteHost (rs_desired_host candidate)) (\<lambda>host.
       let candidate = candidate\<lparr>rs_desired_host := host\<rparr>
       in if trim_space (rs_cwd candidate) = '''' then Inl (ErrMessage ''route CWD is required'')
          else res_bind (reservationTargetKey net (rs_target candidate)) (\<lambda>_.
            if \<not> validPreferredScheme (rs_preferred_scheme candidate)
            then Inl (ErrMessage ''preferred scheme must be http or https'')
            else if rs_share_mode candidate \<noteq> '''' \<and> rs_share_mode candidate \<noteq> ''lan''
            then Inl (ErrMessage ''unsupported share mode'')
            else Inr candidate))"

definition reservationOwnerMatches :: "route \<Rightarrow> route_reservation \<Rightarrow> bool" where
  "reservationOwnerMatches route candidate =
     (if \<not> sameOwnerCWD route (zero_route\<lparr>rt_cwd := rs_cwd candidate, rt_owner_cwd := rs_owner_cwd candidate\<rparr>)
      then False
      else if rs_project_root candidate \<noteq> '''' \<and> rt_project_root route \<noteq> rs_project_root candidate then False
      else if rs_project_name candidate \<noteq> '''' \<and> rt_project_name route \<noteq> rs_project_name candidate then False
      else True)"

definition schemeConflictForRoute :: "route \<Rightarrow> route_reservation \<Rightarrow> router_error option" where
  "schemeConflictForRoute route candidate =
     (if rt_preferred_scheme route = rs_preferred_scheme candidate then None
      else Some (RouteSchemeConflict (rt_host route) (rt_preferred_scheme route) (rs_preferred_scheme candidate)))"

fun routeSchemeConflict :: "route list \<Rightarrow> route_reservation \<Rightarrow> router_error option" where
  "routeSchemeConflict [] candidate = None"
| "routeSchemeConflict (route # routes) candidate =
     (if rt_host route \<noteq> rs_desired_host candidate \<or> \<not> reservationOwnerMatches route candidate
      then routeSchemeConflict routes candidate
      else (case schemeConflictForRoute route candidate of
              Some err \<Rightarrow> Some err
            | None \<Rightarrow> routeSchemeConflict routes candidate))"

text \<open>The two loops of \<open>enforceSingleWSLOwner\<close>.\<close>

fun candidates_wsl_owner :: "string \<Rightarrow> route_reservation list \<Rightarrow> (router_error, string) result" where
  "candidates_wsl_owner owner [] = Inr owner"
| "candidates_wsl_owner owner (candidate # candidates) =
     (if rs_owner_env candidate \<noteq> ''wsl'' \<or> rs_owner_instance candidate = ''''
      then candidates_wsl_owner owner candidates
      else if owner \<noteq> '''' \<and> owner \<noteq> rs_owner_instance candidate then Inl (ErrReservationConflict owner)
      else candidates_wsl_owner (rs_owner_instance candidate) candidates)"

definition foreign_wsl :: "string \<Rightarrow> route \<Rightarrow> bool" where
  "foreign_wsl owner route \<longleftrightarrow>
     rt_owner_env route = ''wsl'' \<and> rt_owner_instance route \<noteq> '''' \<and> rt_owner_instance route \<noteq> owner"

definition enforceSingleWSLOwner :: "route list \<Rightarrow> route_reservation list \<Rightarrow> (router_error, unit) result" where
  "enforceSingleWSLOwner routes candidates =
     res_bind (candidates_wsl_owner '''' candidates) (\<lambda>owner.
       if owner = '''' then Inr ()
       else (case find (foreign_wsl owner) routes of
               Some route \<Rightarrow> Inl (ErrReservationConflict (rt_owner_instance route))
             | None \<Rightarrow> Inr ()))"

section \<open>ReserveRoutes\<close>

definition logical_route :: "route_reservation \<Rightarrow> route" where
  "logical_route candidate =
     zero_route\<lparr>rt_host := rs_desired_host candidate, rt_preferred_scheme := rs_preferred_scheme candidate,
       rt_cwd := rs_cwd candidate, rt_owner_cwd := rs_owner_cwd candidate,
       rt_project_root := rs_project_root candidate, rt_project_name := rs_project_name candidate\<rparr>"

text \<open>
  The reuse of one candidate: the existing route, after a LAN share has been requested for
  it, and the routes with that change written back.
\<close>

definition reuse_route ::
  "time \<Rightarrow> route list \<Rightarrow> route_reservation \<Rightarrow> (router_error, route list \<times> route option) result" where
  "reuse_route now routes candidate =
     (case rs_reuse candidate of
        None \<Rightarrow> Inr (routes, None)
      | Some ref \<Rightarrow>
          (case routeRefIndex routes ref of
             None \<Rightarrow> Inl ErrRouteRefMismatch
           | Some i \<Rightarrow>
               (let existing = routes ! i in
                if EffectiveState existing \<noteq> RouteStateActive \<or> \<not> reservationOwnerMatches existing candidate
                then Inl ErrRouteRefMismatch
                else (case schemeConflictForRoute existing candidate of
                        Some err \<Rightarrow> Inl err
                      | None \<Rightarrow>
                          if rs_share_mode candidate = ''lan'' \<and> rt_lan_share existing = None then
                            (let existing = existing\<lparr>rt_lan_share :=
                                   requestedLANShare (rs_share_mode candidate) (rt_host existing) now\<rparr>
                             in Inr (routes[i := existing], Some existing))
                          else Inr (routes, Some existing)))))"

fun reuse_routes ::
  "time \<Rightarrow> route list \<Rightarrow> route list \<Rightarrow> route_reservation list
     \<Rightarrow> (router_error, route list \<times> route option list) result" where
  "reuse_routes now routes logical [] = Inr (routes, [])"
| "reuse_routes now routes logical (candidate # candidates) =
     res_bind (reuse_route now routes candidate) (\<lambda>(routes, reused).
       case routeSchemeConflict logical candidate of
         Some err \<Rightarrow> Inl err
       | None \<Rightarrow>
           res_bind (reuse_routes now routes (logical @ [logical_route candidate]) candidates)
             (\<lambda>(routes, rest). Inr (routes, reused # rest)))"

definition occupied_mark :: string where
  "occupied_mark = CHR 0x00 # ''occupied''"

text \<open>\<open>occupiedHosts[host] = "\x00occupied"\<close> and \<open>occupiedTargets[key] = true\<close>.\<close>

definition occupy :: "(string \<times> string) list \<Rightarrow> string \<Rightarrow> (string \<times> string) list" where
  "occupy hosts host = (if host \<in> fst ` set hosts then hosts else hosts @ [(host, occupied_mark)])"

definition occupied_targets :: "net_env \<Rightarrow> route list \<Rightarrow> string list" where
  "occupied_targets net routes =
     concat (map (\<lambda>route. case reservationTargetKey net (EffectiveTarget route) of
                            Inr key \<Rightarrow> if key \<noteq> '''' then [key] else []
                          | Inl _ \<Rightarrow> []) routes)"

fun claim_targets ::
  "net_env \<Rightarrow> string list \<Rightarrow> (route_reservation \<times> route option) list \<Rightarrow> (router_error, unit) result" where
  "claim_targets net occupied [] = Inr ()"
| "claim_targets net occupied ((candidate, reused) # rest) =
     (case reused of
        Some _ \<Rightarrow> claim_targets net occupied rest
      | None \<Rightarrow>
          res_bind (reservationTargetKey net (rs_target candidate)) (\<lambda>key.
            if key \<in> set occupied then Inl (ErrReservationConflict (rs_target candidate))
            else claim_targets net (key # occupied) rest))"

definition reserved_route_of ::
  "reservation_request \<Rightarrow> time \<Rightarrow> route_reservation \<Rightarrow> string \<Rightarrow> string \<Rightarrow> route" where
  "reserved_route_of request now candidate finalHost rid =
     \<lparr>rt_id = rid, rt_generation = 1, rt_run_id = rq_run_id request, rt_state = RouteStatePending,
      rt_lan_share = requestedLANShare (rs_share_mode candidate) finalHost now,
      rt_service = rs_service candidate, rt_preferred_scheme = rs_preferred_scheme candidate,
      rt_url_path = rs_url_path candidate, rt_pending_target = rs_target candidate,
      rt_reservation_expires_at = now + rq_ttl request, rt_host = finalHost, rt_target = '''',
      rt_pid = rs_pid candidate, rt_cwd = rs_cwd candidate,
      rt_name = trim_suffix finalHost ''.localhost'', rt_mode = rs_mode candidate,
      rt_project_root = rs_project_root candidate, rt_project_name = rs_project_name candidate,
      rt_source = rs_source candidate,
      rt_owner_cwd = (if rs_owner_cwd candidate = '''' then rs_cwd candidate else rs_owner_cwd candidate),
      rt_owner_env = rs_owner_env candidate, rt_owner_instance = rs_owner_instance candidate,
      rt_distro = rs_distro candidate, rt_linux_user = rs_linux_user candidate,
      rt_runner_id = (if rs_runner_id candidate = '''' then rq_run_id request else rs_runner_id candidate),
      rt_listen_target = rs_listen_target candidate, rt_lease_expires_at = 0, rt_started_at = now,
      rt_process_identity = rs_process_identity candidate\<rparr>"

fun allocate_routes ::
  "os_paths \<Rightarrow> reservation_request \<Rightarrow> time \<Rightarrow> rng \<Rightarrow> (string \<times> string) list \<Rightarrow> route list
     \<Rightarrow> (route_reservation \<times> route option) list
     \<Rightarrow> (router_error, route list \<times> reserved_route list) result" where
  "allocate_routes os request now rng hosts routes [] = Inr (routes, [])"
| "allocate_routes os request now rng hosts routes ((candidate, reused) # rest) =
     (case reused of
        Some existing \<Rightarrow>
          res_bind (allocate_routes os request now rng hosts routes rest) (\<lambda>(routes, reserved).
            Inr (routes, \<lparr>rr_route = existing, rr_reused = True\<rparr> # reserved))
      | None \<Rightarrow>
          (let finalHost = ResolveHostnameConflict os (rs_desired_host candidate) (rs_cwd candidate) hosts in
           res_bind (newRouteID rng) (\<lambda>(rid, rng).
             let route = reserved_route_of request now candidate finalHost rid in
             res_bind (allocate_routes os request now rng (occupy hosts finalHost) (routes @ [route]) rest)
               (\<lambda>(routes, reserved). Inr (routes, \<lparr>rr_route = route, rr_reused = False\<rparr> # reserved)))))"

definition reserve_update ::
  "os_paths \<Rightarrow> net_env \<Rightarrow> reservation_request \<Rightarrow> time \<Rightarrow> rng \<Rightarrow> reserved_route list update" where
  "reserve_update os net request now rng stored =
     (let routes = removeExpiredRoutes stored now in
      res_bind (res_map (validateReservation net) (rq_routes request)) (\<lambda>candidates.
      res_bind (enforceSingleWSLOwner routes candidates) (\<lambda>_.
      res_bind (reuse_routes now routes routes candidates) (\<lambda>(routes, reused).
        let occupiedHosts = foldl occupy [] (map rt_host routes);
            pairs = zip candidates reused
        in res_bind (claim_targets net (occupied_targets net routes) pairs) (\<lambda>_.
           res_bind (allocate_routes os request now rng occupiedHosts routes pairs) (\<lambda>(routes, reserved).
             Inr (sortRoutes routes, reserved)))))))"

definition ReserveRoutes ::
  "('s, reserved_route list) store_op \<Rightarrow> os_paths \<Rightarrow> net_env \<Rightarrow> rng \<Rightarrow> 's \<Rightarrow> reservation_request \<Rightarrow> time
     \<Rightarrow> (router_error, reservation_result) result \<times> 's" where
  "ReserveRoutes update os net rng s request now =
     (if trim_space (rq_run_id request) = '''' then (Inl (ErrMessage ''run ID is required''), s)
      else if rq_ttl request \<le> 0 then (Inl (ErrMessage ''reservation TTL must be positive''), s)
      else if rq_routes request = [] then (Inl (ErrMessage ''at least one route is required''), s)
      else (case UpdateStore update rng s (reserve_update os net request now) of
              (Inl e, s') \<Rightarrow> (Inl e, s')
            | (Inr reserved, s') \<Rightarrow> (Inr \<lparr>rz_run_id = rq_run_id request, rz_routes = reserved\<rparr>, s')))"

section \<open>Runs\<close>

text \<open>
  The loop of \<open>matchingRunIndexes\<close>: \<open>seen\<close> is the map of the indexes met so far,
  \<open>StateUnset\<close> the empty \<open>requiredState\<close>.
\<close>

fun matching_indexes ::
  "route list \<Rightarrow> string \<Rightarrow> route_state \<Rightarrow> time \<Rightarrow> nat list \<Rightarrow> route_ref list
     \<Rightarrow> (router_error, nat list) result" where
  "matching_indexes routes runID requiredState now seen [] = Inr []"
| "matching_indexes routes runID requiredState now seen (ref # refs) =
     (case routeRefIndex routes ref of
        None \<Rightarrow> Inl ErrRouteRefMismatch
      | Some index \<Rightarrow>
          if index \<in> set seen \<or> rt_run_id (routes ! index) \<noteq> runID then Inl ErrRouteRefMismatch
          else (let state = EffectiveState (routes ! index) in
                if requiredState \<noteq> StateUnset \<and> state \<noteq> requiredState then Inl ErrRouteRefMismatch
                else if state = RouteStatePending \<and> \<not> is_zero_time now
                        \<and> \<not> is_zero_time (rt_reservation_expires_at (routes ! index))
                        \<and> \<not> rt_reservation_expires_at (routes ! index) > now
                then Inl ErrRouteRefMismatch
                else res_bind (matching_indexes routes runID requiredState now (index # seen) refs)
                       (\<lambda>indexes. Inr (index # indexes))))"

definition matchingRunIndexes ::
  "route list \<Rightarrow> string \<Rightarrow> route_ref list \<Rightarrow> route_state \<Rightarrow> time \<Rightarrow> (router_error, nat list) result" where
  "matchingRunIndexes routes runID refs requiredState now =
     (if runID = '''' \<or> refs = [] then Inl ErrRouteRefMismatch
      else matching_indexes routes runID requiredState now [] refs)"

definition completeRunIndexes ::
  "route list \<Rightarrow> string \<Rightarrow> route_ref list \<Rightarrow> route_state \<Rightarrow> time \<Rightarrow> (router_error, nat list) result" where
  "completeRunIndexes routes runID refs requiredState now =
     res_bind (matchingRunIndexes routes runID refs requiredState now) (\<lambda>indexes.
       let expected = length (filter (\<lambda>route. rt_run_id route = runID
             \<and> (requiredState = StateUnset \<or> EffectiveState route = requiredState)) routes)
       in if expected \<noteq> length indexes then Inl ErrRouteRefMismatch else Inr indexes)"

definition activated_route :: "time \<Rightarrow> duration \<Rightarrow> route \<Rightarrow> route" where
  "activated_route now leaseTTL route =
     route\<lparr>rt_state := RouteStateActive, rt_target := rt_pending_target route, rt_pending_target := '''',
       rt_reservation_expires_at := 0, rt_lease_expires_at := now + leaseTTL\<rparr>"

definition update_at :: "(route \<Rightarrow> route) \<Rightarrow> nat list \<Rightarrow> route list \<Rightarrow> route list" where
  "update_at f indexes routes = foldl (\<lambda>routes i. routes[i := f (routes ! i)]) routes indexes"

definition activate_update ::
  "string \<Rightarrow> route_ref list \<Rightarrow> time \<Rightarrow> duration \<Rightarrow> route list update" where
  "activate_update runID refs now leaseTTL routes =
     res_bind (completeRunIndexes routes runID refs RouteStatePending now) (\<lambda>indexes.
       let next = update_at (activated_route now leaseTTL) indexes routes
       in Inr (sortRoutes next, map ((!) next) indexes))"

text \<open>On an error the code also returns what the closure had put into \<open>activated\<close>; no caller reads it.\<close>

definition ActivateRoutes ::
  "('s, route list) store_op \<Rightarrow> rng \<Rightarrow> 's \<Rightarrow> string \<Rightarrow> route_ref list \<Rightarrow> time \<Rightarrow> duration
     \<Rightarrow> (router_error, route list) result \<times> 's" where
  "ActivateRoutes update rng s runID refs now leaseTTL =
     (if leaseTTL \<le> 0 then (Inl (ErrMessage ''lease TTL must be positive''), s)
      else UpdateStore update rng s (\<lambda>_. activate_update runID refs now leaseTTL))"

definition remove_at :: "nat list \<Rightarrow> route list \<Rightarrow> route list" where
  "remove_at indexes routes = map snd (filter (\<lambda>(i, _). i \<notin> set indexes) (enumerate 0 routes))"

definition release_update :: "string \<Rightarrow> route_ref list \<Rightarrow> unit update" where
  "release_update runID refs routes =
     res_bind (completeRunIndexes routes runID refs StateUnset 0) (\<lambda>indexes.
       Inr (remove_at indexes routes, ()))"

definition ReleaseRoutes ::
  "('s, unit) store_op \<Rightarrow> rng \<Rightarrow> 's \<Rightarrow> string \<Rightarrow> route_ref list \<Rightarrow> (router_error, unit) result \<times> 's" where
  "ReleaseRoutes update rng s runID refs = UpdateStore update rng s (\<lambda>_. release_update runID refs)"

text \<open>The first loop of \<open>RenewRoutes\<close>; here \<open>seen\<close> is keyed by the reference.\<close>

fun renew_indexes ::
  "route list \<Rightarrow> string \<Rightarrow> time \<Rightarrow> route_ref list \<Rightarrow> route_ref list \<Rightarrow> (router_error, nat list) result" where
  "renew_indexes routes runID now seen [] = Inr []"
| "renew_indexes routes runID now seen (ref # refs) =
     (if ref \<in> set seen then Inl ErrRouteRefMismatch
      else (case routeRefIndex routes ref of
              None \<Rightarrow> Inl ErrRouteRefMismatch
            | Some index \<Rightarrow>
                if rt_run_id (routes ! index) \<noteq> runID then Inl ErrRouteRefMismatch
                else if EffectiveState (routes ! index) = RouteStatePending
                        \<and> RouteReservationExpired (routes ! index) now
                then Inl ErrRouteRefMismatch
                else res_bind (renew_indexes routes runID now (ref # seen) refs)
                       (\<lambda>indexes. Inr (index # indexes))))"

definition renewed_route :: "time \<Rightarrow> duration \<Rightarrow> route \<Rightarrow> route" where
  "renewed_route now ttl route =
     (if EffectiveState route = RouteStatePending then route\<lparr>rt_reservation_expires_at := now + ttl\<rparr>
      else route\<lparr>rt_lease_expires_at := now + ttl\<rparr>)"

definition renew_update :: "string \<Rightarrow> route_ref list \<Rightarrow> time \<Rightarrow> duration \<Rightarrow> unit update" where
  "renew_update runID refs now ttl routes =
     (if trim_space runID = '''' \<or> refs = [] then Inl ErrRouteRefMismatch
      else res_bind (renew_indexes routes runID now [] refs) (\<lambda>indexes.
             Inr (update_at (renewed_route now ttl) indexes routes, ())))"

definition RenewRoutes ::
  "('s, unit) store_op \<Rightarrow> rng \<Rightarrow> 's \<Rightarrow> string \<Rightarrow> route_ref list \<Rightarrow> time \<Rightarrow> duration
     \<Rightarrow> (router_error, unit) result \<times> 's" where
  "RenewRoutes update rng s runID refs now ttl =
     (if ttl \<le> 0 then (Inl (ErrMessage ''route TTL must be positive''), s)
      else UpdateStore update rng s (\<lambda>_. renew_update runID refs now ttl))"

definition delete_update :: "route_ref \<Rightarrow> unit update" where
  "delete_update ref routes =
     (case routeRefIndex routes ref of
        None \<Rightarrow> Inl ErrRouteRefMismatch
      | Some index \<Rightarrow> Inr (take index routes @ drop (Suc index) routes, ()))"

definition DeleteRouteRef ::
  "('s, unit) store_op \<Rightarrow> rng \<Rightarrow> 's \<Rightarrow> route_ref \<Rightarrow> (router_error, unit) result \<times> 's" where
  "DeleteRouteRef update rng s ref = UpdateStore update rng s (\<lambda>_. delete_update ref)"

section \<open>Lemmas on runs\<close>

text \<open>The routes that a call on a run means: those of the run, in the required state if there is one.\<close>

definition of_run :: "string \<Rightarrow> route_state \<Rightarrow> route \<Rightarrow> bool" where
  "of_run runID requiredState r \<longleftrightarrow>
     rt_run_id r = runID \<and> (requiredState = StateUnset \<or> EffectiveState r = requiredState)"

definition expired_at :: "time \<Rightarrow> route \<Rightarrow> bool" where
  "expired_at now r \<longleftrightarrow> now \<noteq> 0 \<and> RouteReservationExpired r now"

lemma matching_indexes_ok:
  "matching_indexes routes runID st now seen refs = Inr indexes \<Longrightarrow>
     distinct indexes \<and> set indexes \<inter> set seen = {} \<and> map (\<lambda>i. Ref (routes ! i)) indexes = refs \<and>
     (\<forall>i \<in> set indexes. i < length routes \<and> of_run runID st (routes ! i) \<and> \<not> expired_at now (routes ! i))"
proof (induction refs arbitrary: seen indexes)
  case Nil
  then show ?case by simp
next
  case (Cons ref refs)
  from Cons.prems obtain i rest where i: "routeRefIndex routes ref = Some i"
    and rest: "matching_indexes routes runID st now (i # seen) refs = Inr rest"
    and ix: "indexes = i # rest" "i \<notin> set seen" "of_run runID st (routes ! i)" "\<not> expired_at now (routes ! i)"
    by (auto simp: Let_def res_bind_Inr_iff of_run_def expired_at_def RouteReservationExpired_def
        split: option.splits if_splits)
  from Cons.IH [OF rest] ix routeRefIndex_Some [OF i] show ?case by auto
qed

lemma length_filter_card: "length (filter P xs) = card {i. i < length xs \<and> P (xs ! i)}"
  by (rule length_filter_conv_card)

lemma completeRunIndexes_ok:
  assumes "completeRunIndexes routes runID refs st now = Inr indexes"
  shows "distinct indexes" and "set indexes = {i. i < length routes \<and> of_run runID st (routes ! i)}"
    and "map (\<lambda>i. Ref (routes ! i)) indexes = refs" and "\<forall>i \<in> set indexes. \<not> expired_at now (routes ! i)"
    and "runID \<noteq> []"
proof -
  from assms have m: "matching_indexes routes runID st now [] refs = Inr indexes" and ne: "runID \<noteq> []"
    and n: "length (filter (of_run runID st) routes) = length indexes"
    by (auto simp: completeRunIndexes_def matchingRunIndexes_def res_bind_Inr_iff Let_def of_run_def [abs_def]
        split: if_splits)
  note ok = matching_indexes_ok [OF m]
  have sub: "set indexes \<subseteq> {i. i < length routes \<and> of_run runID st (routes ! i)}" using ok by auto
  have "card (set indexes) = card {i. i < length routes \<and> of_run runID st (routes ! i)}"
    using ok n by (simp add: distinct_card length_filter_card)
  with sub show "set indexes = {i. i < length routes \<and> of_run runID st (routes ! i)}"
    by (intro card_subset_eq) auto
  show "distinct indexes" and "map (\<lambda>i. Ref (routes ! i)) indexes = refs"
    and "\<forall>i \<in> set indexes. \<not> expired_at now (routes ! i)" using ok by simp_all
  show "runID \<noteq> []" by (rule ne)
qed

lemma length_update_at [simp]: "length (update_at f indexes routes) = length routes"
  unfolding update_at_def by (induction indexes arbitrary: routes) simp_all

lemma update_at_nth:
  "distinct indexes \<Longrightarrow> i < length routes \<Longrightarrow>
     update_at f indexes routes ! i = (if i \<in> set indexes then f (routes ! i) else routes ! i)"
proof (induction indexes arbitrary: routes)
  case Nil
  then show ?case by (simp add: update_at_def)
next
  case (Cons a indexes)
  then show ?case
    using Cons.IH [of "routes[a := f (routes ! a)]"] by (cases "i = a") (auto simp: update_at_def)
qed

lemma update_at_map:
  assumes "distinct indexes" and "set indexes = {i. i < length routes \<and> P (routes ! i)}"
  shows "update_at f indexes routes = map (\<lambda>r. if P r then f r else r) routes"
  by (rule nth_equalityI) (use assms in \<open>simp_all add: update_at_nth\<close>)

lemma filter_enumerate:
  "\<forall>i < length xs. P (k + i) = Q (xs ! i) \<Longrightarrow>
     map snd (filter (\<lambda>(i, _). P i) (enumerate k xs)) = filter Q xs"
proof (induction xs arbitrary: k)
  case Nil
  then show ?case by simp
next
  case (Cons x xs)
  have "\<forall>i < length xs. P (Suc k + i) = Q (xs ! i)"
    using Cons.prems by (auto dest: spec [of _ "Suc _"])
  moreover have "P k = Q x" using Cons.prems by (auto dest: spec [of _ 0])
  ultimately show ?case using Cons.IH [of "Suc k"] by simp
qed

lemma remove_at_filter:
  assumes "set indexes = {i. i < length routes \<and> P (routes ! i)}"
  shows "remove_at indexes routes = filter (\<lambda>r. \<not> P r) routes"
  unfolding remove_at_def by (rule filter_enumerate) (use assms in auto)

lemma activate_update_ok:
  assumes "activate_update runID refs now leaseTTL routes = Inr (next, activated)"
  shows "next = sortRoutes (map (\<lambda>r. if of_run runID RouteStatePending r then activated_route now leaseTTL r else r) routes)"
    and "list_all2 (\<lambda>ref a. \<exists>r \<in> set routes. Ref r = ref \<and> of_run runID RouteStatePending r \<and>
           \<not> expired_at now r \<and> a = activated_route now leaseTTL r) refs activated"
    and "\<forall>r \<in> set routes. of_run runID RouteStatePending r \<longrightarrow> Ref r \<in> set refs \<and> \<not> expired_at now r"
proof -
  from assms obtain indexes where ix: "completeRunIndexes routes runID refs RouteStatePending now = Inr indexes"
    and nx: "next = sortRoutes (update_at (activated_route now leaseTTL) indexes routes)"
    and act: "activated = map ((!) (update_at (activated_route now leaseTTL) indexes routes)) indexes"
    by (auto simp: activate_update_def res_bind_Inr_iff Let_def)
  note ok = completeRunIndexes_ok [OF ix]
  show "next = sortRoutes (map (\<lambda>r. if of_run runID RouteStatePending r then activated_route now leaseTTL r else r) routes)"
    unfolding nx by (simp add: update_at_map [OF ok(1,2)])
  have "i < length routes \<and> of_run runID RouteStatePending (routes ! i) \<and> \<not> expired_at now (routes ! i)"
    if "i \<in> set indexes" for i using ok(2,4) that by blast
  then show "list_all2 (\<lambda>ref a. \<exists>r \<in> set routes. Ref r = ref \<and> of_run runID RouteStatePending r \<and>
           \<not> expired_at now r \<and> a = activated_route now leaseTTL r) refs activated"
    unfolding act ok(3) [symmetric] using ok(1)
    by (fastforce simp: list_all2_map1 list_all2_map2 update_at_nth intro!: list.rel_refl_strong)
  show "\<forall>r \<in> set routes. of_run runID RouteStatePending r \<longrightarrow> Ref r \<in> set refs \<and> \<not> expired_at now r"
  proof (intro ballI impI)
    fix r assume "r \<in> set routes" "of_run runID RouteStatePending r"
    then obtain i where "i < length routes" "routes ! i = r" by (auto simp: in_set_conv_nth)
    then have "i \<in> set indexes" using ok(2) \<open>of_run runID RouteStatePending r\<close> by auto
    then have "Ref (routes ! i) \<in> set refs" using ok(3) by (metis (mono_tags, lifting) image_eqI list.set_map)
    then show "Ref r \<in> set refs \<and> \<not> expired_at now r"
      using ok(4) \<open>i \<in> set indexes\<close> \<open>routes ! i = r\<close> by auto
  qed
qed

lemma release_update_ok:
  "release_update runID refs routes = Inr (next, u) \<Longrightarrow>
     next = filter (\<lambda>r. rt_run_id r \<noteq> runID) routes \<and> runID \<noteq> ''''"
  using remove_at_filter [of _ routes "of_run runID StateUnset"]
  by (fastforce simp: release_update_def res_bind_Inr_iff of_run_def dest: completeRunIndexes_ok(2,5))

section \<open>Lemmas on reservations\<close>

subsection \<open>Reuse\<close>

text \<open>The same route, for which at most a LAN share has been requested.\<close>

definition same_but_share :: "route \<Rightarrow> route \<Rightarrow> bool" where
  "same_but_share r r' \<longleftrightarrow> r' = r\<lparr>rt_lan_share := rt_lan_share r'\<rparr> \<and>
     (rt_lan_share r' = rt_lan_share r \<or>
      rt_lan_share r = None \<and> (\<forall>share. rt_lan_share r' = Some share \<longrightarrow> ls_state share = LANShareRequested))"

lemma same_but_share_refl [simp]: "same_but_share r r"
  by (simp add: same_but_share_def)

lemma same_but_share_trans: "same_but_share a b \<Longrightarrow> same_but_share b c \<Longrightarrow> same_but_share a c"
  by (cases a; cases b; cases c) (auto simp: same_but_share_def)

lemma same_but_share_fields:
  "same_but_share r r' \<Longrightarrow>
     rt_host r' = rt_host r \<and> Ref r' = Ref r \<and> EffectiveTarget r' = EffectiveTarget r \<and>
     EffectiveState r' = EffectiveState r \<and> rt_run_id r' = rt_run_id r \<and> has_identity r' = has_identity r \<and>
     rt_owner_env r' = rt_owner_env r \<and> rt_owner_instance r' = rt_owner_instance r \<and> rt_id r' = rt_id r"
  by (cases r; cases r')
    (simp add: same_but_share_def Ref_def EffectiveTarget_def EffectiveState_def has_identity_def)

definition reusable :: "route list \<Rightarrow> route_reservation \<Rightarrow> route option \<Rightarrow> bool" where
  "reusable routes candidate reused \<longleftrightarrow>
     (case (rs_reuse candidate, reused) of
        (None, None) \<Rightarrow> True
      | (Some ref, Some e) \<Rightarrow> \<exists>r \<in> set routes. same_but_share r e \<and> Ref r = ref \<and>
          EffectiveState r = RouteStateActive \<and> rt_preferred_scheme r = rs_preferred_scheme candidate
      | _ \<Rightarrow> False)"

lemma reuse_route_ok:
  assumes "reuse_route now routes candidate = Inr (routes', reused)"
  shows "list_all2 same_but_share routes routes'" and "reusable routes candidate reused"
proof -
  have "list_all2 same_but_share routes routes' \<and> reusable routes candidate reused"
  proof (cases "rs_reuse candidate")
    case None
    with assms show ?thesis by (auto simp: reuse_route_def reusable_def list_all2_refl)
  next
    case (Some ref)
    then obtain i where i: "routeRefIndex routes ref = Some i"
      using assms by (auto simp: reuse_route_def split: option.splits)
    note ix = routeRefIndex_Some [OF i]
    define shared where "shared = (routes ! i)\<lparr>rt_lan_share := requestedLANShare (rs_share_mode candidate) (rt_host (routes ! i)) now\<rparr>"
    have refl: "list_all2 same_but_share routes routes" by (simp add: list_all2_refl)
    have act: "EffectiveState (routes ! i) = RouteStateActive"
        "rt_preferred_scheme (routes ! i) = rs_preferred_scheme candidate"
      using assms Some i by (auto simp: reuse_route_def Let_def schemeConflictForRoute_def split: if_splits option.splits)
    have "reused = Some (routes ! i) \<and> routes' = routes \<or>
        rt_lan_share (routes ! i) = None \<and> reused = Some shared \<and> routes' = routes[i := shared]"
      using assms Some i by (auto simp: reuse_route_def Let_def shared_def split: if_splits option.splits)
    moreover have "same_but_share (routes ! i) shared" if "rt_lan_share (routes ! i) = None"
      using that requestedLANShare_state by (auto simp: same_but_share_def shared_def)
    moreover have "list_all2 same_but_share routes (routes[i := shared])" if "same_but_share (routes ! i) shared"
      using list_all2_update_cong [OF refl that, of i] by simp
    moreover have "\<exists>r \<in> set routes. same_but_share r e \<and> Ref r = ref \<and> EffectiveState r = RouteStateActive
        \<and> rt_preferred_scheme r = rs_preferred_scheme candidate" if "same_but_share (routes ! i) e" for e
      by (rule bexI [of _ "routes ! i"]) (use that act ix(1,2) in simp_all)
    ultimately show ?thesis
      using Some refl same_but_share_refl by (elim disjE) (simp_all add: reusable_def)
  qed
  then show "list_all2 same_but_share routes routes'" and "reusable routes candidate reused" by simp_all
qed

lemma same_but_share_list_trans:
  "list_all2 same_but_share a b \<Longrightarrow> list_all2 same_but_share b c \<Longrightarrow> list_all2 same_but_share a c"
  by (rule list_all2_trans) (rule same_but_share_trans)

lemma reusable_back:
  "list_all2 same_but_share routes routes' \<Longrightarrow> reusable routes' candidate reused \<Longrightarrow> reusable routes candidate reused"
proof -
  assume rel: "list_all2 same_but_share routes routes'" and r: "reusable routes' candidate reused"
  have origin: "\<exists>r \<in> set routes. same_but_share r r'" if "r' \<in> set routes'" for r'
    using that rel by (fastforce simp: list_all2_conv_all_nth in_set_conv_nth)
  have "\<exists>r \<in> set routes. same_but_share r e \<and> Ref r = ref \<and> EffectiveState r = RouteStateActive \<and> rt_preferred_scheme r = s"
    if "r' \<in> set routes'" "same_but_share r' e" "Ref r' = ref" "EffectiveState r' = RouteStateActive" "rt_preferred_scheme r' = s"
    for r' e ref s
  proof -
    note prem = that
    obtain r where "r \<in> set routes" and sb: "same_but_share r r'" using origin [OF prem(1)] by blast
    moreover have "rt_preferred_scheme r' = rt_preferred_scheme r" using sb by (cases r; cases r') (simp add: same_but_share_def)
    ultimately show ?thesis using prem same_but_share_trans [OF sb] same_but_share_fields [OF sb] by metis
  qed
  with r show "reusable routes candidate reused" by (auto simp: reusable_def split: option.splits)
qed

lemma reuse_routes_ok:
  "reuse_routes now routes logical candidates = Inr (routes', reused) \<Longrightarrow>
     list_all2 same_but_share routes routes' \<and> list_all2 (reusable routes) candidates reused"
proof (induction candidates arbitrary: routes logical reused)
  case Nil
  then show ?case by (simp add: list_all2_refl)
next
  case (Cons candidate candidates)
  from Cons.prems obtain routes1 r rest where one: "reuse_route now routes candidate = Inr (routes1, r)"
    and rest: "reuse_routes now routes1 (logical @ [logical_route candidate]) candidates = Inr (routes', rest)"
    and eq: "reused = r # rest"
    by (auto simp: res_bind_Inr_iff split: option.splits)
  note o = reuse_route_ok [OF one]
  from Cons.IH [OF rest] have "list_all2 same_but_share routes1 routes'" "list_all2 (reusable routes1) candidates rest" by simp_all
  then show ?case
    using o eq same_but_share_list_trans [OF o(1)] reusable_back [OF o(1)] by (auto elim: list_all2_mono)
qed

lemma same_but_share_map:
  assumes "list_all2 same_but_share routes routes'"
  shows "map rt_host routes' = map rt_host routes" and "map Ref routes' = map Ref routes"
    and "map EffectiveTarget routes' = map EffectiveTarget routes" and "map rt_id routes' = map rt_id routes"
    and "list_all has_identity routes' = list_all has_identity routes"
    and "map rt_run_id routes' = map rt_run_id routes"
  using assms by (induction rule: list_all2_induct) (simp_all add: same_but_share_fields)

subsection \<open>Allocation\<close>

definition new_routes :: "reserved_route list \<Rightarrow> route list" where
  "new_routes reserved = map rr_route (filter (\<lambda>r. \<not> rr_reused r) reserved)"

fun pair_result ::
  "reservation_request \<Rightarrow> time \<Rightarrow> route_reservation \<times> route option \<Rightarrow> reserved_route \<Rightarrow> bool" where
  "pair_result request now (candidate, Some e) rr \<longleftrightarrow> rr = \<lparr>rr_route = e, rr_reused = True\<rparr>"
| "pair_result request now (candidate, None) rr \<longleftrightarrow>
     (\<exists>h rid. rr = \<lparr>rr_route = reserved_route_of request now candidate h rid, rr_reused = False\<rparr>)"

lemma new_routes_simps [simp]:
  "new_routes [] = []"
  "new_routes (\<lparr>rr_route = r, rr_reused = True\<rparr> # rs) = new_routes rs"
  "new_routes (\<lparr>rr_route = r, rr_reused = False\<rparr> # rs) = r # new_routes rs"
  by (simp_all add: new_routes_def)

lemma allocate_cases:
  assumes "allocate_routes os request now rng hosts routes ((candidate, reused) # rest) = Inr (routes', reserved)"
  obtains (reuse) e rs where "reused = Some e" "reserved = \<lparr>rr_route = e, rr_reused = True\<rparr> # rs"
      "allocate_routes os request now rng hosts routes rest = Inr (routes', rs)"
  | (fresh) h bytes rng' r rs where "reused = None" "rng = bytes # rng'"
      "h = ResolveHostnameConflict os (rs_desired_host candidate) (rs_cwd candidate) hosts"
      "r = reserved_route_of request now candidate h (hex_encode bytes)"
      "reserved = \<lparr>rr_route = r, rr_reused = False\<rparr> # rs"
      "allocate_routes os request now rng' (occupy hosts h) (routes @ [r]) rest = Inr (routes', rs)"
proof (cases reused)
  case None
  with assms show thesis
    by (cases rng) (auto simp: res_bind_Inr_iff Let_def intro!: fresh)
next
  case (Some e)
  with assms show thesis by (auto simp: res_bind_Inr_iff intro!: reuse)
qed

lemma allocate_ok:
  "allocate_routes os request now rng hosts routes pairs = Inr (routes', reserved) \<Longrightarrow>
     routes' = routes @ new_routes reserved \<and> list_all2 (pair_result request now) pairs reserved"
proof (induction pairs arbitrary: rng hosts routes reserved)
  case Nil
  then show ?case by simp
next
  case (Cons pair rest)
  obtain candidate reused where p: "pair = (candidate, reused)" by (cases pair)
  from Cons.prems [unfolded p] show ?case
    by (cases rule: allocate_cases) (auto simp: p dest!: Cons.IH)
qed

lemma allocate_ids:
  "allocate_routes os request now rng hosts routes pairs = Inr (routes', reserved) \<Longrightarrow>
     set (map rt_id (new_routes reserved)) \<subseteq> hex_encode ` set rng \<and>
     (distinct (map hex_encode rng) \<longrightarrow> distinct (map rt_id (new_routes reserved)))"
proof (induction pairs arbitrary: rng hosts routes reserved)
  case Nil
  then show ?case by simp
next
  case (Cons pair rest)
  obtain candidate reused where p: "pair = (candidate, reused)" by (cases pair)
  have rid: "rt_id (reserved_route_of request now candidate h i) = i" for h i
    by (simp add: reserved_route_of_def)
  from Cons.prems [unfolded p] show ?case
  proof (cases rule: allocate_cases)
    case (reuse e rs)
    with Cons.IH [OF reuse(3)] show ?thesis by simp
  next
    case (fresh h bytes rng' r rs)
    have "rt_id r = hex_encode bytes" using fresh(4) by (simp add: rid)
    with Cons.IH [OF fresh(6)] fresh(2,5) show ?thesis by auto
  qed
qed

subsection \<open>Hosts\<close>

abbreviation fold_host :: "route \<Rightarrow> string" where "fold_host r \<equiv> to_lower (rt_host r)"

definition marked :: "(string \<times> string) list \<Rightarrow> bool" where
  "marked hosts \<longleftrightarrow> (\<forall>p \<in> set hosts. snd p = occupied_mark)"

lemma occupy_keys [simp]: "fst ` set (occupy hosts h) = insert h (fst ` set hosts)"
  by (auto simp: occupy_def)

lemma occupy_marked [simp]: "marked hosts \<Longrightarrow> marked (occupy hosts h)"
  by (auto simp: occupy_def marked_def)

lemma occupy_length: "length (occupy hosts h) \<le> Suc (length hosts)"
  by (simp add: occupy_def)

lemma occupy_all:
  "marked hosts \<Longrightarrow> marked (foldl occupy hosts hs) \<and> fst ` set (foldl occupy hosts hs) = fst ` set hosts \<union> set hs
     \<and> length (foldl occupy hosts hs) \<le> length hosts + length hs"
proof (induction hs arbitrary: hosts)
  case Nil
  then show ?case by simp
next
  case (Cons h hs)
  from Cons.IH [OF occupy_marked [OF Cons.prems], of h] occupy_length [of hosts h] show ?case by auto
qed

lemma activeHostCWD_Some_iff:
  "activeHostCWD active host \<noteq> None \<longleftrightarrow> (\<exists>h \<in> fst ` set active. equal_fold h host)"
  by (induction active host rule: activeHostCWD.induct) auto

lemma activeHostCWD_marked: "marked active \<Longrightarrow> activeHostCWD active host = Some cwd \<Longrightarrow> cwd = occupied_mark"
  by (induction active host rule: activeHostCWD.induct) (auto simp: marked_def split: if_splits)

text \<open>The host the resolver answers with is held by no entry, because no directory is the mark.\<close>

lemma resolved_host_free:
  assumes "marked hosts" "length hosts < 99" "\<not> samePath os occupied_mark cwd"
    "h = ResolveHostnameConflict os desired cwd hosts"
  shows "to_lower h \<notin> to_lower ` fst ` set hosts"
proof -
  have "host_available os hosts cwd h" using resolver.resolve_available [of hosts os cwd desired] assms by simp
  then have "activeHostCWD hosts h = None"
    using activeHostCWD_marked [OF assms(1)] assms(3)
    by (auto simp: host_available_def split: option.splits)
  then have "\<not> (\<exists>x \<in> fst ` set hosts. equal_fold x h)" using activeHostCWD_Some_iff [of hosts h] by simp
  then show ?thesis by (auto simp: equal_fold_def)
qed

lemma allocate_hosts:
  "allocate_routes os request now rng hosts routes pairs = Inr (routes', reserved) \<Longrightarrow>
     marked hosts \<Longrightarrow> fst ` set hosts = rt_host ` set routes \<Longrightarrow> length hosts + length pairs \<le> 99 \<Longrightarrow>
     \<forall>p \<in> set pairs. \<not> samePath os occupied_mark (rs_cwd (fst p)) \<Longrightarrow>
     distinct (map fold_host routes) \<Longrightarrow> distinct (map fold_host routes')"
proof (induction pairs arbitrary: rng hosts routes reserved)
  case Nil
  then show ?case by simp
next
  case (Cons pair rest)
  obtain candidate reused where p: "pair = (candidate, reused)" by (cases pair)
  from Cons.prems(1) [unfolded p] show ?case
  proof (cases rule: allocate_cases)
    case (reuse e rs)
    from Cons.IH [OF reuse(3)] Cons.prems(2-) show ?thesis by simp
  next
    case (fresh h bytes rng' r rs)
    have rh: "rt_host r = h" using fresh(4) by (simp add: reserved_route_of_def)
    have "to_lower h \<notin> to_lower ` fst ` set hosts"
      by (rule resolved_host_free [OF Cons.prems(2) _ _ fresh(3)]) (use Cons.prems(4,5) p in auto)
    then have "distinct (map fold_host (routes @ [r]))"
      using Cons.prems(3,6) rh by (auto simp: image_image)
    moreover have "length (occupy hosts h) + length rest \<le> 99"
      using Cons.prems(4) occupy_length [of hosts h] by simp
    ultimately show ?thesis
      using Cons.IH [OF fresh(6)] Cons.prems(2,3,5) rh by simp
  qed
qed

subsection \<open>Targets\<close>

definition key_list :: "net_env \<Rightarrow> string \<Rightarrow> string list" where
  "key_list net target =
     (case reservationTargetKey net target of Inr key \<Rightarrow> if key \<noteq> '''' then [key] else [] | Inl _ \<Rightarrow> [])"

lemma occupied_targets_alt: "occupied_targets net routes = concat (map (key_list net) (map EffectiveTarget routes))"
  by (simp add: occupied_targets_def key_list_def comp_def)

lemma occupied_targets_append [simp]:
  "occupied_targets net (a @ b) = occupied_targets net a @ occupied_targets net b"
  by (simp add: occupied_targets_def)

lemma reservationTargetKey_ne: "reservationTargetKey net t = Inr key \<Longrightarrow> key \<noteq> []"
  by (auto simp: reservationTargetKey_def validateRouteTarget_def split: option.splits if_splits)

lemma key_list_Inr: "reservationTargetKey net t = Inr key \<Longrightarrow> key_list net t = [key]"
  using reservationTargetKey_ne by (simp add: key_list_def)

lemma distinct_concat_filter: "distinct (concat (map f xs)) \<Longrightarrow> distinct (concat (map f (filter P xs)))"
  by (induction xs) auto

lemma distinct_occupied_sort [simp]:
  "distinct (occupied_targets net (sortRoutes routes)) = distinct (occupied_targets net routes)"
proof -
  define f where "f r = mset (key_list net (EffectiveTarget r))" for r
  have "mset (occupied_targets net rs) = sum_mset (image_mset f (mset rs))" for rs
    unfolding occupied_targets_alt f_def by (induction rs) simp_all
  then have "mset (occupied_targets net (sortRoutes routes)) = mset (occupied_targets net routes)" by simp
  then show ?thesis by (rule mset_eq_imp_distinct_iff)
qed

fun claimed_keys :: "net_env \<Rightarrow> (route_reservation \<times> route option) list \<Rightarrow> string list" where
  "claimed_keys net [] = []"
| "claimed_keys net ((c, Some e) # rest) = claimed_keys net rest"
| "claimed_keys net ((c, None) # rest) = key_list net (rs_target c) @ claimed_keys net rest"

lemma claim_targets_ok:
  "claim_targets net occupied pairs = Inr () \<Longrightarrow>
     distinct (claimed_keys net pairs) \<and> set (claimed_keys net pairs) \<inter> set occupied = {}"
proof (induction pairs arbitrary: occupied)
  case Nil
  then show ?case by simp
next
  case (Cons pair rest)
  obtain c reused where p: "pair = (c, reused)" by (cases pair)
  show ?case
  proof (cases reused)
    case None
    with Cons.prems p obtain key where key: "reservationTargetKey net (rs_target c) = Inr key" "key \<notin> set occupied"
      and rest: "claim_targets net (key # occupied) rest = Inr ()"
      by (auto simp: res_bind_Inr_iff split: if_splits)
    with Cons.IH [OF rest] None p show ?thesis by (simp add: key_list_Inr [OF key(1)])
  next
    case (Some e)
    with Cons p show ?thesis by simp
  qed
qed

lemma new_routes_targets:
  "list_all2 (pair_result request now) pairs reserved \<Longrightarrow>
     occupied_targets net (new_routes reserved) = claimed_keys net pairs"
proof (induction rule: list_all2_induct)
  case Nil
  then show ?case by (simp add: occupied_targets_def)
next
  case (Cons p ps r rs)
  have pend: "EffectiveTarget (reserved_route_of request now c h rid) = rs_target c" for c h rid
    by (simp add: reserved_route_of_def EffectiveTarget_def EffectiveState_def)
  obtain c reused where "p = (c, reused)" by (cases p)
  with Cons show ?case
    by (cases reused) (auto simp: occupied_targets_alt pend)
qed

subsection \<open>The update\<close>

lemma reserve_update_ok:
  assumes "reserve_update os net request now rng stored = Inr (next, reserved)"
  obtains kept candidates reused where
    "list_all2 same_but_share (removeExpiredRoutes stored now) kept"
    "res_map (validateReservation net) (rq_routes request) = Inr candidates"
    "enforceSingleWSLOwner (removeExpiredRoutes stored now) candidates = Inr ()"
    "list_all2 (reusable (removeExpiredRoutes stored now)) candidates reused"
    "claim_targets net (occupied_targets net kept) (zip candidates reused) = Inr ()"
    "allocate_routes os request now rng (foldl occupy [] (map rt_host kept)) kept (zip candidates reused)
       = Inr (kept @ new_routes reserved, reserved)"
    "next = sortRoutes (kept @ new_routes reserved)"
    "list_all2 (pair_result request now) (zip candidates reused) reserved"
proof -
  from assms obtain candidates kept reused routes where
    v: "res_map (validateReservation net) (rq_routes request) = Inr candidates"
    and e: "enforceSingleWSLOwner (removeExpiredRoutes stored now) candidates = Inr ()"
    and u: "reuse_routes now (removeExpiredRoutes stored now) (removeExpiredRoutes stored now) candidates = Inr (kept, reused)"
    and c: "claim_targets net (occupied_targets net kept) (zip candidates reused) = Inr ()"
    and a: "allocate_routes os request now rng (foldl occupy [] (map rt_host kept)) kept (zip candidates reused)
       = Inr (routes, reserved)"
    and n: "next = sortRoutes routes"
    by (auto simp: reserve_update_def Let_def res_bind_Inr_iff)
  from allocate_ok [OF a] have r: "routes = kept @ new_routes reserved"
    and p: "list_all2 (pair_result request now) (zip candidates reused) reserved" by simp_all
  from reuse_routes_ok [OF u] show thesis
    by (intro that [OF _ v e _ c a [unfolded r] n [unfolded r] p]) simp_all
qed

text \<open>The invariant of the route table: no two routes share a host or a target.\<close>

definition table_ok :: "net_env \<Rightarrow> route list \<Rightarrow> bool" where
  "table_ok net routes \<longleftrightarrow> distinct (map fold_host routes) \<and> distinct (occupied_targets net routes)"

lemma table_ok_sort [simp]: "table_ok net (sortRoutes routes) = table_ok net routes"
  by (simp add: table_ok_def)

lemma table_ok_filter: "table_ok net routes \<Longrightarrow> table_ok net (filter P routes)"
  by (simp add: table_ok_def occupied_targets_def distinct_map_filter distinct_concat_filter)

lemma table_ok_cong:
  assumes h: "map rt_host routes = map rt_host routes'" and t: "map EffectiveTarget routes = map EffectiveTarget routes'"
  shows "table_ok net routes = table_ok net routes'"
proof -
  have "map fold_host routes = map fold_host routes'" using arg_cong [OF h, of "map to_lower"] by (simp add: comp_def)
  then show ?thesis by (simp only: table_ok_def occupied_targets_alt t)
qed

lemma validateReservation_ok:
  "validateReservation net raw = Inr c \<Longrightarrow>
     \<exists>h. c = raw\<lparr>rs_desired_host := h\<rparr> \<and> normalizeRouteHost (rs_desired_host raw) = Inr h"
  by (auto simp: validateReservation_def res_bind_Inr_iff Let_def split: if_splits)

lemma reserve_update_hosts:
  assumes ok: "distinct (map fold_host stored)"
    and u: "reserve_update os net request now rng stored = Inr (next, reserved)"
    and len: "length stored + length (rq_routes request) \<le> 99"
    and cwd: "\<forall>c \<in> set (rq_routes request). \<not> samePath os occupied_mark (rs_cwd c)"
  shows "distinct (map fold_host next)"
  using u
proof (rule reserve_update_ok)
  fix kept candidates reused
  assume k: "list_all2 same_but_share (removeExpiredRoutes stored now) kept"
    and v: "res_map (validateReservation net) (rq_routes request) = Inr candidates"
    and a: "allocate_routes os request now rng (foldl occupy [] (map rt_host kept)) kept (zip candidates reused)
       = Inr (kept @ new_routes reserved, reserved)"
    and n: "next = sortRoutes (kept @ new_routes reserved)"
  have "map fold_host kept = map fold_host (removeExpiredRoutes stored now)"
    using arg_cong [OF same_but_share_map(1) [OF k], of "map to_lower"] by (simp add: comp_def)
  then have kept: "distinct (map fold_host kept)"
    using ok by (simp add: removeExpiredRoutes_def distinct_map_filter)
  have lk: "length kept \<le> length stored"
    using list_all2_lengthD [OF k] by (simp add: removeExpiredRoutes_def flip: list_all2_lengthD [OF k])
  have lc: "length candidates = length (rq_routes request)" by (rule res_map_length [OF v])
  have "\<forall>q \<in> set (zip candidates reused). \<not> samePath os occupied_mark (rs_cwd (fst q))"
  proof
    fix q assume "q \<in> set (zip candidates reused)"
    then have "fst q \<in> set candidates" by (metis set_zip_leftD prod.collapse)
    then obtain raw where raw: "raw \<in> set (rq_routes request)" "validateReservation net raw = Inr (fst q)"
      using res_map_set [OF v] by blast
    then have "rs_cwd (fst q) = rs_cwd raw" using validateReservation_ok [OF raw(2)] by auto
    then show "\<not> samePath os occupied_mark (rs_cwd (fst q))" using cwd raw(1) by simp
  qed
  moreover have "marked (foldl occupy [] (map rt_host kept))
      \<and> fst ` set (foldl occupy [] (map rt_host kept)) = rt_host ` set kept
      \<and> length (foldl occupy [] (map rt_host kept)) \<le> length kept"
    using occupy_all [of "[]" "map rt_host kept"] by (simp add: marked_def)
  ultimately have "distinct (map fold_host (kept @ new_routes reserved))"
    using kept lk lc len by (intro allocate_hosts [OF a]) auto
  then show ?thesis unfolding n distinct_map_sortRoutes .
qed

lemma reserve_update_targets:
  assumes ok: "distinct (occupied_targets net stored)"
    and u: "reserve_update os net request now rng stored = Inr (next, reserved)"
  shows "distinct (occupied_targets net next)"
  using u
proof (rule reserve_update_ok)
  fix kept candidates reused
  assume k: "list_all2 same_but_share (removeExpiredRoutes stored now) kept"
    and c: "claim_targets net (occupied_targets net kept) (zip candidates reused) = Inr ()"
    and n: "next = sortRoutes (kept @ new_routes reserved)"
    and p: "list_all2 (pair_result request now) (zip candidates reused) reserved"
  have "occupied_targets net kept = occupied_targets net (removeExpiredRoutes stored now)"
    by (simp only: occupied_targets_alt same_but_share_map(3) [OF k])
  then have "distinct (occupied_targets net kept)"
    using distinct_concat_filter [OF ok [unfolded occupied_targets_def]]
    by (simp add: occupied_targets_def removeExpiredRoutes_def)
  then show ?thesis
    using claim_targets_ok [OF c] unfolding n distinct_occupied_sort
    by (auto simp: new_routes_targets [OF p])
qed

lemma reserve_update_table_ok:
  assumes "table_ok net stored" "reserve_update os net request now rng stored = Inr (next, reserved)"
    "length stored + length (rq_routes request) \<le> 99"
    "\<forall>c \<in> set (rq_routes request). \<not> samePath os occupied_mark (rs_cwd c)"
  shows "table_ok net next"
  using reserve_update_hosts [OF _ assms(2-4)] reserve_update_targets [OF _ assms(2)] assms(1)
  by (simp add: table_ok_def)

subsection \<open>The other updates keep the invariant\<close>

lemma table_ok_remove_nth: "i < length routes \<Longrightarrow> table_ok net routes \<Longrightarrow> table_ok net (take i routes @ drop (Suc i) routes)"
proof -
  assume i: "i < length routes" and ok: "table_ok net routes"
  have "table_ok net (take i routes @ routes ! i # drop (Suc i) routes)"
    using ok id_take_nth_drop [OF i] by simp
  then show ?thesis by (auto simp: table_ok_def occupied_targets_def)
qed

lemma delete_update_table_ok: "delete_update ref routes = Inr (next, u) \<Longrightarrow> table_ok net routes \<Longrightarrow> table_ok net next"
  using table_ok_remove_nth routeRefIndex_Some(1) by (auto simp: delete_update_def split: option.splits)

lemma release_update_table_ok: "release_update runID refs routes = Inr (next, u) \<Longrightarrow> table_ok net routes \<Longrightarrow> table_ok net next"
  using release_update_ok table_ok_filter by blast

lemma map_update_at: "(\<And>r. g (f r) = g r) \<Longrightarrow> map g (update_at f indexes routes) = map g routes"
proof (induction indexes arbitrary: routes)
  case Nil
  then show ?case by (simp add: update_at_def)
next
  case (Cons i indexes)
  have "map g (routes[i := f (routes ! i)]) = map g routes"
    by (cases "i < length routes") (simp_all add: map_update Cons.prems list_update_same_conv list_update_beyond)
  with Cons.IH [OF Cons.prems, of "routes[i := f (routes ! i)]"] show ?case by (simp add: update_at_def)
qed

lemma renewed_route_simps [simp]:
  "rt_host (renewed_route now ttl r) = rt_host r" "EffectiveTarget (renewed_route now ttl r) = EffectiveTarget r"
  "Ref (renewed_route now ttl r) = Ref r" "rt_owner_env (renewed_route now ttl r) = rt_owner_env r"
  "rt_owner_instance (renewed_route now ttl r) = rt_owner_instance r"
  by (simp_all add: renewed_route_def EffectiveTarget_def EffectiveState_def Ref_def)

lemma renew_update_table_ok:
  "renew_update runID refs now ttl routes = Inr (next, u) \<Longrightarrow> table_ok net next = table_ok net routes"
  by (rule table_ok_cong) (auto simp: renew_update_def res_bind_Inr_iff map_update_at split: if_splits)

lemma activated_route_simps [simp]:
  "rt_host (activated_route now ttl r) = rt_host r" "Ref (activated_route now ttl r) = Ref r"
  "rt_owner_env (activated_route now ttl r) = rt_owner_env r"
  "rt_owner_instance (activated_route now ttl r) = rt_owner_instance r"
  "EffectiveState (activated_route now ttl r) = RouteStateActive"
  "EffectiveTarget (activated_route now ttl r) = rt_pending_target r"
  by (simp_all add: activated_route_def EffectiveTarget_def EffectiveState_def Ref_def)

lemma activate_update_table_ok:
  assumes "activate_update runID refs now ttl routes = Inr (next, a)" and "table_ok net routes"
  shows "table_ok net next"
proof -
  let ?g = "\<lambda>r. if of_run runID RouteStatePending r then activated_route now ttl r else r"
  have "map rt_host (map ?g routes) = map rt_host routes" by simp
  moreover have "map EffectiveTarget (map ?g routes) = map EffectiveTarget routes"
  proof (rule map_cong [OF refl, THEN trans [OF map_map]])
    fix r
    have "rt_pending_target r = EffectiveTarget r" if "of_run runID RouteStatePending r"
      using that by (simp add: of_run_def EffectiveTarget_def)
    then show "(EffectiveTarget \<circ> ?g) r = EffectiveTarget r" by simp
  qed
  ultimately show ?thesis
    using activate_update_ok(1) [OF assms(1)] assms(2) table_ok_cong [of "map ?g routes" routes net] by simp
qed

subsection \<open>Calls on a store\<close>

locale reserve_store = route_store load update
  for load :: "'s \<Rightarrow> (router_error, route list) result" and update :: "('s, reserved_route list) store_op"
begin

lemma reserve_obtains:
  assumes "ReserveRoutes update os net rng s request now = (Inr rz, s')"
  obtains stored routes rng' "next" where "load s = Inr stored" "withIdentities rng stored = Inr (routes, rng')"
    "reserve_update os net request now rng' routes = Inr (next, rz_routes rz)" "load s' = Inr (sortRoutes next)"
    "sorted (map route_key stored)" "rq_ttl request > 0" "rz_run_id rz = rq_run_id request"
    "rq_routes request \<noteq> []" "rq_run_id request \<noteq> []"
proof -
  from assms obtain reserved where u: "UpdateStore update rng s (reserve_update os net request now) = (Inr reserved, s')"
    and rz: "rz = \<lparr>rz_run_id = rq_run_id request, rz_routes = reserved\<rparr>"
    and g: "rq_ttl request > 0" "rq_routes request \<noteq> []" "rq_run_id request \<noteq> []"
    by (cases "rq_run_id request = []")
      (auto simp: ReserveRoutes_def trim_space_def trim_def trim_left_def trim_right_def
        split: if_splits prod.splits sum.splits)
  from u show thesis by (rule ok_obtains) (use that rz g in simp)
qed

lemma reserve_error: "ReserveRoutes update os net rng s request now = (Inl e, s') \<Longrightarrow> s' = s"
  using Update_error_unchanged [of rng s "reserve_update os net request now"]
  by (auto simp: ReserveRoutes_def split: if_splits prod.splits sum.splits)

end

interpretation reserve_mem: reserve_store memory_load memory_update by unfold_locales

interpretation reserve_file: reserve_store file_load file_update by unfold_locales

subsection \<open>Releasing what was reserved\<close>

lemma distinct_ids_refs: "distinct (map rt_id routes) \<Longrightarrow> distinct (map Ref routes)"
  by (auto simp: distinct_map Ref_def inj_on_def)

lemma matching_indexes_complete:
  assumes "list_all has_identity T" "distinct (map Ref T)"
  shows "distinct refs \<Longrightarrow> \<forall>ref \<in> set refs. \<exists>r \<in> set T. Ref r = ref \<and> rt_run_id r = runID \<Longrightarrow>
     \<forall>i \<in> set seen. Ref (T ! i) \<notin> set refs \<Longrightarrow>
     \<exists>indexes. matching_indexes T runID StateUnset 0 seen refs = Inr indexes \<and> length indexes = length refs"
proof (induction refs arbitrary: seen)
  case Nil
  then show ?case by simp
next
  case (Cons ref refs)
  then obtain r where r: "r \<in> set T" "Ref r = ref" "rt_run_id r = runID" by auto
  then obtain i where i: "routeRefIndex T ref = Some i"
    using routeRefIndex_complete [OF r(1,2)] assms(1) by (auto simp: list_all_iff)
  note ix = routeRefIndex_Some [OF i]
  have "T ! i = r"
    using assms(2) ix(1,2) r by (auto simp: distinct_map inj_on_def)
  moreover have "i \<notin> set seen" using Cons.prems(3) ix(2) by auto
  moreover have "\<exists>indexes. matching_indexes T runID StateUnset 0 (i # seen) refs = Inr indexes \<and> length indexes = length refs"
    by (rule Cons.IH) (use Cons.prems ix(2) in auto)
  ultimately show ?case using i r(3) by (auto simp: Let_def)
qed

lemma completeRunIndexes_complete:
  assumes "list_all has_identity T" "distinct (map rt_id T)" "runID \<noteq> []" "refs \<noteq> []"
    and "mset refs = mset (map Ref (filter (\<lambda>r. rt_run_id r = runID) T))"
  shows "\<exists>indexes. completeRunIndexes T runID refs StateUnset 0 = Inr indexes"
proof -
  have d: "distinct (map Ref T)" by (rule distinct_ids_refs) (rule assms(2))
  then have "distinct refs"
    using assms(5) by (metis distinct_map_filter mset_eq_imp_distinct_iff)
  moreover have "\<forall>ref \<in> set refs. \<exists>r \<in> set T. Ref r = ref \<and> rt_run_id r = runID"
    using mset_eq_setD [OF assms(5)] by auto
  ultimately obtain indexes where "matching_indexes T runID StateUnset 0 [] refs = Inr indexes" "length indexes = length refs"
    using matching_indexes_complete [OF assms(1) d, of refs runID "[]"] by auto
  moreover have "length refs = length (filter (\<lambda>r. rt_run_id r = runID) T)"
    using mset_eq_length [OF assms(5)] by simp
  ultimately show ?thesis
    using assms(3,4) by (simp add: completeRunIndexes_def matchingRunIndexes_def Let_def)
qed

lemma new_route_fields:
  "list_all2 (pair_result request now) pairs reserved \<Longrightarrow> r \<in> set (new_routes reserved) \<Longrightarrow>
     rt_run_id r = rq_run_id request \<and> EffectiveState r = RouteStatePending \<and> rt_generation r = 1"
proof (induction rule: list_all2_induct)
  case Nil
  then show ?case by simp
next
  case (Cons p ps rr rs)
  obtain c reused where "p = (c, reused)" by (cases p)
  with Cons show ?case by (cases reused) (auto simp: reserved_route_of_def EffectiveState_def)
qed

lemma PendingRefs_new:
  assumes "list_all2 (pair_result request now) pairs (rz_routes rz)"
  shows "PendingRefs rz = map Ref (new_routes (rz_routes rz))"
proof -
  have "filter (\<lambda>r. \<not> rr_reused r \<and> EffectiveState (rr_route r) = RouteStatePending) (rz_routes rz)
      = filter (\<lambda>r. \<not> rr_reused r) (rz_routes rz)"
  proof (rule filter_cong [OF refl])
    fix x assume "x \<in> set (rz_routes rz)"
    then have "\<not> rr_reused x \<Longrightarrow> rr_route x \<in> set (new_routes (rz_routes rz))" by (simp add: new_routes_def)
    then show "(\<not> rr_reused x \<and> EffectiveState (rr_route x) = RouteStatePending) = (\<not> rr_reused x)"
      using new_route_fields [OF assms] by blast
  qed
  then show ?thesis by (simp add: PendingRefs_def new_routes_def)
qed

lemma filter_sortRoutes: "filter P (sortRoutes routes) = sortRoutes (filter P routes)"
  by (simp add: sortRoutes_def filter_sort)

lemma sorted_map_filter_key: "sorted (map f xs) \<Longrightarrow> sorted (map f (filter P xs))"
  by (rule sorted_filter)

lemma kept_sorted:
  assumes "sorted (map route_key routes)" "list_all2 same_but_share (removeExpiredRoutes routes now) kept"
  shows "sortRoutes kept = kept"
proof -
  have alt: "route_key = (\<lambda>h. (to_lower h, h)) \<circ> rt_host" by (rule ext) (simp add: route_key_def)
  have "map route_key kept = map route_key (removeExpiredRoutes routes now)"
    unfolding alt by (simp only: list.map_comp [symmetric] same_but_share_map(1) [OF assms(2)])
  then have "sorted (map route_key kept)"
    using sorted_map_filter_key [OF assms(1)] by (simp add: removeExpiredRoutes_def)
  then show ?thesis unfolding sortRoutes_def by (rule sort_key_sorted_id)
qed

text \<open>The table after a reservation: the routes kept, and new ones with identities of their own.\<close>

lemma reserved_table:
  assumes u: "reserve_update os net request now rng routes = Inr (next, reserved)"
    and ids: "list_all has_identity routes" "distinct (map rt_id routes)" "rng_ok rng" "distinct (map hex_encode rng)"
      "hex_encode ` set rng \<inter> rt_id ` set routes = {}"
  obtains kept pairs where "list_all2 same_but_share (removeExpiredRoutes routes now) kept"
    "next = sortRoutes (kept @ new_routes reserved)" "list_all2 (pair_result request now) pairs reserved"
    "list_all has_identity (kept @ new_routes reserved)" "distinct (map rt_id (kept @ new_routes reserved))"
  using u
proof (rule reserve_update_ok)
  fix kept candidates reused
  assume k: "list_all2 same_but_share (removeExpiredRoutes routes now) kept"
    and a: "allocate_routes os request now rng (foldl occupy [] (map rt_host kept)) kept (zip candidates reused)
       = Inr (kept @ new_routes reserved, reserved)"
    and n: "next = sortRoutes (kept @ new_routes reserved)"
    and p: "list_all2 (pair_result request now) (zip candidates reused) reserved"
  note fresh = allocate_ids [OF a]
  have len: "\<forall>i \<in> hex_encode ` set rng. length i = 32"
    using ids(3) by (auto simp: rng_ok_def list_all_iff)
  have "has_identity r" if r: "r \<in> set (new_routes reserved)" for r
  proof -
    have "rt_id r \<in> hex_encode ` set rng" using fresh r by auto
    then have "length (rt_id r) = 32" using len by blast
    with new_route_fields [OF p r] show ?thesis by (auto simp: has_identity_def)
  qed
  then have "list_all has_identity (new_routes reserved)" by (simp add: list_all_iff)
  moreover have "list_all has_identity kept"
    using same_but_share_map(5) [OF k] ids(1) by (simp add: removeExpiredRoutes_def list_all_iff)
  moreover have dk: "distinct (map rt_id kept)"
    unfolding same_but_share_map(4) [OF k] removeExpiredRoutes_def by (rule distinct_map_filter) (rule ids(2))
  moreover have "set (map rt_id kept) \<subseteq> set (map rt_id routes)"
    unfolding same_but_share_map(4) [OF k] by (auto simp: removeExpiredRoutes_def)
  then have "set (map rt_id kept) \<inter> set (map rt_id (new_routes reserved)) = {}"
    using conjunct1 [OF fresh] ids(5) unfolding set_map by blast
  with dk fresh ids(4) have "distinct (map rt_id (kept @ new_routes reserved))" by simp
  ultimately show thesis by (intro that [OF k n p]) simp_all
qed

subsection \<open>One WSL owner\<close>

definition wsl_owned :: "route \<Rightarrow> bool" where
  "wsl_owned r \<longleftrightarrow> rt_owner_env r = ''wsl'' \<and> rt_owner_instance r \<noteq> ''''"

definition single_wsl :: "route list \<Rightarrow> bool" where
  "single_wsl routes \<longleftrightarrow>
     (\<forall>r \<in> set routes. \<forall>r' \<in> set routes. wsl_owned r \<longrightarrow> wsl_owned r' \<longrightarrow> rt_owner_instance r = rt_owner_instance r')"

lemma single_wsl_sort [simp]: "single_wsl (sortRoutes routes) = single_wsl routes"
  by (simp add: single_wsl_def)

lemma single_wsl_owners:
  assumes "\<forall>r' \<in> set routes'. \<exists>r \<in> set routes. rt_owner_env r' = rt_owner_env r \<and> rt_owner_instance r' = rt_owner_instance r"
    and "single_wsl routes"
  shows "single_wsl routes'"
  using assms unfolding single_wsl_def wsl_owned_def by metis

lemma single_wsl_map:
  "(\<And>r. rt_owner_env (f r) = rt_owner_env r) \<Longrightarrow> (\<And>r. rt_owner_instance (f r) = rt_owner_instance r) \<Longrightarrow>
     single_wsl routes \<Longrightarrow> single_wsl (map f routes)"
  by (rule single_wsl_owners) auto

lemma candidates_wsl_owner_ok:
  "candidates_wsl_owner owner candidates = Inr result \<Longrightarrow>
     (owner \<noteq> [] \<longrightarrow> result = owner) \<and>
     (\<forall>c \<in> set candidates. rs_owner_env c = ''wsl'' \<and> rs_owner_instance c \<noteq> [] \<longrightarrow> rs_owner_instance c = result)"
  by (induction owner candidates rule: candidates_wsl_owner.induct) (auto split: if_splits)

lemma new_routes_owner:
  "list_all2 (pair_result request now) pairs reserved \<Longrightarrow> r \<in> set (new_routes reserved) \<Longrightarrow>
     \<exists>p \<in> set pairs. rt_owner_env r = rs_owner_env (fst p) \<and> rt_owner_instance r = rs_owner_instance (fst p)"
proof (induction rule: list_all2_induct)
  case Nil
  then show ?case by simp
next
  case (Cons p ps rr rs)
  obtain c reused where p: "p = (c, reused)" by (cases p)
  with Cons show ?case by (cases reused) (auto simp: reserved_route_of_def)
qed

lemma enforceSingleWSLOwner_ok:
  assumes "enforceSingleWSLOwner routes candidates = Inr ()"
  obtains owner where
    "\<forall>c \<in> set candidates. rs_owner_env c = ''wsl'' \<and> rs_owner_instance c \<noteq> [] \<longrightarrow> rs_owner_instance c = owner"
    "owner \<noteq> [] \<longrightarrow> (\<forall>r \<in> set routes. wsl_owned r \<longrightarrow> rt_owner_instance r = owner)"
proof -
  from assms obtain owner where o: "candidates_wsl_owner [] candidates = Inr owner"
    and f: "owner \<noteq> [] \<Longrightarrow> find (foreign_wsl owner) routes = None"
    by (auto simp: enforceSingleWSLOwner_def res_bind_Inr_iff split: if_splits option.splits)
  have "\<forall>r \<in> set routes. wsl_owned r \<longrightarrow> rt_owner_instance r = owner" if "owner \<noteq> []"
  proof -
    have "\<forall>r \<in> set routes. \<not> foreign_wsl owner r" using f [OF that] by (simp add: find_None_iff)
    then show ?thesis by (auto simp: foreign_wsl_def wsl_owned_def)
  qed
  then have "owner \<noteq> [] \<longrightarrow> (\<forall>r \<in> set routes. wsl_owned r \<longrightarrow> rt_owner_instance r = owner)" by blast
  with conjunct2 [OF candidates_wsl_owner_ok [OF o]] show thesis by (rule that)
qed

lemma same_but_share_set:
  "list_all2 same_but_share routes routes' \<Longrightarrow> r' \<in> set routes' \<Longrightarrow> \<exists>r \<in> set routes. same_but_share r r'"
  by (fastforce simp: list_all2_conv_all_nth in_set_conv_nth)

lemma reserve_update_single_wsl:
  assumes ok: "single_wsl stored"
    and u: "reserve_update os net request now rng stored = Inr (next, reserved)"
  shows "single_wsl next"
  using u
proof (rule reserve_update_ok)
  fix kept candidates reused
  assume k: "list_all2 same_but_share (removeExpiredRoutes stored now) kept"
    and e: "enforceSingleWSLOwner (removeExpiredRoutes stored now) candidates = Inr ()"
    and n: "next = sortRoutes (kept @ new_routes reserved)"
    and p: "list_all2 (pair_result request now) (zip candidates reused) reserved"
  from e obtain owner where c: "\<forall>c \<in> set candidates. rs_owner_env c = ''wsl'' \<and> rs_owner_instance c \<noteq> [] \<longrightarrow> rs_owner_instance c = owner"
    and o: "owner \<noteq> [] \<longrightarrow> (\<forall>r \<in> set (removeExpiredRoutes stored now). wsl_owned r \<longrightarrow> rt_owner_instance r = owner)"
    by (rule enforceSingleWSLOwner_ok)
  have old: "\<exists>s \<in> set (removeExpiredRoutes stored now). rt_owner_env r = rt_owner_env s \<and> rt_owner_instance r = rt_owner_instance s"
    if "r \<in> set kept" for r using same_but_share_set [OF k that] same_but_share_fields by metis
  have new: "rt_owner_instance r = owner" if r: "r \<in> set (new_routes reserved)" "wsl_owned r" for r
  proof -
    obtain q where "q \<in> set (zip candidates reused)" "rt_owner_env r = rs_owner_env (fst q)"
        "rt_owner_instance r = rs_owner_instance (fst q)"
      using new_routes_owner [OF p r(1)] by blast
    moreover have "fst q \<in> set candidates" using calculation(1) by (metis set_zip_leftD prod.collapse)
    ultimately show ?thesis using c r(2) by (auto simp: wsl_owned_def)
  qed
  have kept_owner: "rt_owner_instance r = owner" if "r \<in> set kept" "wsl_owned r" "owner \<noteq> []" for r
  proof -
    note prem = that
    obtain s where s: "s \<in> set (removeExpiredRoutes stored now)" "rt_owner_env r = rt_owner_env s"
        "rt_owner_instance r = rt_owner_instance s" using old [OF prem(1)] by blast
    then have "wsl_owned s" using prem(2) by (simp add: wsl_owned_def)
    then show ?thesis using o s prem(3) by simp
  qed
  have "single_wsl kept"
    by (rule single_wsl_owners [OF _ ok]) (use old in \<open>fastforce simp: removeExpiredRoutes_def\<close>)
  then have "single_wsl (kept @ new_routes reserved)"
    unfolding single_wsl_def using new kept_owner by (metis Un_iff set_append wsl_owned_def)
  then show "single_wsl next" by (simp add: n)
qed

section \<open>A sample request\<close>

definition sample_net :: net_env where
  "sample_net = \<lparr>net_parse_url = (\<lambda>t. Some \<lparr>url_scheme = ''http'', url_host = t,
       url_hostname = ''localhost'', url_port = '''', url_path = '''', url_raw_query = ''''\<rparr>),
     net_parse_ip = (\<lambda>_. None)\<rparr>"

definition sample_os :: os_paths where
  "sample_os = \<lparr>os_abs = Some, os_eval_symlinks = Some\<rparr>"

definition sample_reservation :: route_reservation where
  "sample_reservation = \<lparr>rs_desired_host = ''W'', rs_service = '''', rs_preferred_scheme = ''http'',
     rs_url_path = '''', rs_target = ''t'', rs_cwd = ''w'', rs_project_root = '''',
     rs_project_name = '''', rs_source = '''', rs_owner_cwd = '''', rs_owner_env = ''wsl'',
     rs_owner_instance = ''b'', rs_distro = '''', rs_linux_user = '''', rs_listen_target = '''', rs_pid = 7,
     rs_mode = '''', rs_share_mode = '''', rs_process_identity = '''', rs_runner_id = '''', rs_reuse = None\<rparr>"

definition sample_request :: reservation_request where
  "sample_request = \<lparr>rq_run_id = ''r'', rq_ttl = 30, rq_routes = [sample_reservation]\<rparr>"

definition sample_active :: route where
  "sample_active = zero_route\<lparr>rt_id := ''a'', rt_generation := 1, rt_run_id := ''o'', rt_state := RouteStateActive,
     rt_host := ''p'', rt_target := ''u'', rt_cwd := ''p''\<rparr>"

definition sample_pending :: route where
  "sample_pending = zero_route\<lparr>rt_id := ''b'', rt_generation := 1, rt_run_id := ''r'', rt_state := RouteStatePending,
     rt_host := ''q'', rt_pending_target := ''v'', rt_cwd := ''q'', rt_reservation_expires_at := 9\<rparr>"

definition sample_store :: file_store where
  "sample_store = \<lparr>fs_file = RoutesFile [sample_active], fs_lock_ok = True, fs_write_ok = True\<rparr>"

definition sample_pending_store :: file_store where
  "sample_pending_store = \<lparr>fs_file = RoutesFile [sample_active, sample_pending], fs_lock_ok = True, fs_write_ok = True\<rparr>"

definition sample_rng :: rng where
  "sample_rng = [replicate 16 1]"

definition sample_reserve :: "(router_error, reservation_result) result \<times> file_store" where
  "sample_reserve = ReserveRoutes file_update sample_os sample_net sample_rng sample_store sample_request 5"

section \<open>Properties\<close>

text \<open>What the caller of \<open>ReserveRoutes\<close> gets for one requested route.\<close>

definition reserved_as :: "reservation_request \<Rightarrow> time \<Rightarrow> route_reservation \<Rightarrow> reserved_route \<Rightarrow> bool" where
  "reserved_as request now c rr =
     (case rs_reuse c of
        Some ref \<Rightarrow> rr_reused rr \<and> Ref (rr_route rr) = ref \<and> EffectiveState (rr_route rr) = RouteStateActive
      | None \<Rightarrow> \<not> rr_reused rr \<and> EffectiveState (rr_route rr) = RouteStatePending
          \<and> rt_run_id (rr_route rr) = rq_run_id request \<and> rt_pending_target (rr_route rr) = rs_target c
          \<and> rt_cwd (rr_route rr) = rs_cwd c \<and> rt_preferred_scheme (rr_route rr) = rs_preferred_scheme c
          \<and> rt_reservation_expires_at (rr_route rr) = now + rq_ttl request)"

lemma reserved_as_pairs:
  assumes v: "res_map (validateReservation net) raws = Inr candidates"
    and r: "list_all2 (reusable routes) candidates reused"
    and p: "list_all2 (pair_result request now) (zip candidates reused) reserved"
  shows "list_all2 (reserved_as request now) raws reserved"
proof -
  note v' = res_map_Inr_list_all2 [OF v]
  have len: "length raws = length candidates" "length candidates = length reused" "length reused = length reserved"
    using list_all2_lengthD [OF v'] list_all2_lengthD [OF r] list_all2_lengthD [OF p] by simp_all
  have "reserved_as request now (raws ! i) (reserved ! i)" if i: "i < length raws" for i
  proof -
    have pr: "pair_result request now (candidates ! i, reused ! i) (reserved ! i)"
      using list_all2_nthD [OF p, of i] i len by simp
    have re: "reusable routes (candidates ! i) (reused ! i)" using list_all2_nthD [OF r] i len by simp
    obtain h where c: "candidates ! i = (raws ! i)\<lparr>rs_desired_host := h\<rparr>"
      using validateReservation_ok list_all2_nthD [OF v' i] by blast
    show ?thesis
    proof (cases "reused ! i")
      case None
      with pr re c show ?thesis
        by (auto simp: reserved_as_def reusable_def reserved_route_of_def EffectiveState_def split: option.splits)
    next
      case (Some e)
      with pr re c show ?thesis
        by (auto simp: reserved_as_def reusable_def dest!: same_but_share_fields split: option.splits)
    qed
  qed
  with len show ?thesis by (simp add: list_all2_conv_all_nth)
qed

text \<open>
  C28. When \<open>ReserveRoutes\<close> succeeds, it returns one route per requested route, in order: the
  active route of the given reference, or a pending route of this run for the requested target,
  directory and scheme that expires after the TTL. The file then holds exactly the unexpired
  routes it held, of which at most the LAN shares of reused ones changed, and the new routes.
\<close>

theorem ReserveRoutes_ok:
  assumes "ReserveRoutes file_update os net rng s request now = (Inr rz, s')"
  shows "list_all2 (reserved_as request now) (rq_routes request) (rz_routes rz) \<and>
    (\<exists>stored routes rng' kept. file_load s = Inr stored \<and> withIdentities rng stored = Inr (routes, rng') \<and>
       list_all2 same_but_share (removeExpiredRoutes routes now) kept \<and>
       file_load s' = Inr (sortRoutes (kept @ new_routes (rz_routes rz))))"
proof (rule reserve_file.reserve_obtains [OF assms])
  fix stored routes rng' "next"
  assume l: "file_load s = Inr stored" "withIdentities rng stored = Inr (routes, rng')"
    and u: "reserve_update os net request now rng' routes = Inr (next, rz_routes rz)"
    and s': "file_load s' = Inr (sortRoutes next)"
  from u show ?thesis
  proof (rule reserve_update_ok)
    fix kept candidates reused
    assume "list_all2 same_but_share (removeExpiredRoutes routes now) kept"
      and "res_map (validateReservation net) (rq_routes request) = Inr candidates"
      and "list_all2 (reusable (removeExpiredRoutes routes now)) candidates reused"
      and "next = sortRoutes (kept @ new_routes (rz_routes rz))"
      and "list_all2 (pair_result request now) (zip candidates reused) (rz_routes rz)"
    with l s' reserved_as_pairs show ?thesis by auto
  qed
qed

text \<open>
  A run that reserves routes and then releases them leaves no trace: \<open>ReleaseRoutes\<close> with
  the pending references of the result succeeds, and the file holds the routes it held before,
  less those that had expired at the reservation (the LAN shares it requested for reused routes
  stay). The random identities must be new, and the run must own no route yet.
\<close>

theorem ReserveRoutes_ReleaseRoutes:
  assumes r: "ReserveRoutes file_update os net rng s request now = (Inr rz, s1)"
    and routes: "file_load s = Inr routes" "list_all has_identity routes" "distinct (map rt_id routes)"
      "\<forall>r \<in> set routes. rt_run_id r \<noteq> rq_run_id request"
    and rng: "rng_ok rng" "distinct (map hex_encode rng)" "hex_encode ` set rng \<inter> rt_id ` set routes = {}"
    and some_new: "PendingRefs rz \<noteq> []"
  shows "\<exists>s2 kept. ReleaseRoutes file_update rng' s1 (rq_run_id request) (PendingRefs rz) = (Inr (), s2) \<and>
     file_load s2 = Inr kept \<and> list_all2 same_but_share (removeExpiredRoutes routes now) kept"
proof (rule reserve_file.reserve_obtains [OF r])
  fix stored routes' rng1 "next"
  assume "file_load s = Inr stored" "withIdentities rng stored = Inr (routes', rng1)"
    and u0: "reserve_update os net request now rng1 routes' = Inr (next, rz_routes rz)"
    and s1: "file_load s1 = Inr (sortRoutes next)" and st: "sorted (map route_key stored)"
    and run: "rq_run_id request \<noteq> []"
  then have eq: "stored = routes" "routes' = routes" "rng1 = rng" using routes withIdentities_id by auto
  have flags: "fs_lock_ok s1" "fs_write_ok s1"
    using r by (auto simp: ReserveRoutes_def UpdateStore_def file_update_def split: if_splits sum.splits prod.splits)
  from u0 [unfolded eq] show ?thesis
  proof (rule reserved_table [OF _ routes(2,3) rng])
    fix kept pairs
    define T where "T = sortRoutes (kept @ new_routes (rz_routes rz))"
    assume k: "list_all2 same_but_share (removeExpiredRoutes routes now) kept"
      and n: "next = sortRoutes (kept @ new_routes (rz_routes rz))"
      and p: "list_all2 (pair_result request now) pairs (rz_routes rz)"
      and ids: "list_all has_identity (kept @ new_routes (rz_routes rz))" "distinct (map rt_id (kept @ new_routes (rz_routes rz)))"
    have kr: "r \<in> set kept \<Longrightarrow> rt_run_id r \<noteq> rq_run_id request" for r
      using same_but_share_set [OF k] same_but_share_fields routes(4) by (fastforce simp: removeExpiredRoutes_def)
    have nr: "r \<in> set (new_routes (rz_routes rz)) \<Longrightarrow> rt_run_id r = rq_run_id request" for r
      using new_route_fields [OF p] by blast
    have fk: "filter (\<lambda>r. rt_run_id r \<noteq> rq_run_id request) T = kept"
      unfolding T_def filter_sortRoutes using kr nr kept_sorted [OF st [unfolded eq] k]
      by (simp add: filter_id_conv filter_empty_conv)
    have "mset (PendingRefs rz) = mset (map Ref (filter (\<lambda>r. rt_run_id r = rq_run_id request) T))"
      unfolding T_def filter_sortRoutes mset_map_sortRoutes PendingRefs_new [OF p] using kr nr
      by (simp add: filter_id_conv filter_empty_conv)
    then obtain indexes where ix: "completeRunIndexes T (rq_run_id request) (PendingRefs rz) StateUnset 0 = Inr indexes"
      using completeRunIndexes_complete [of T "rq_run_id request" "PendingRefs rz"] ids run some_new
      by (auto simp: T_def simp del: map_append)
    then obtain out where out: "release_update (rq_run_id request) (PendingRefs rz) T = Inr (out, ())"
      by (auto simp: release_update_def)
    with release_update_ok fk have "out = kept" by blast
    moreover have "file_load s1 = Inr T" "withIdentities rng' T = Inr (T, rng')"
      using s1 n ids(1) by (auto simp: T_def intro!: withIdentities_id)
    ultimately show ?thesis
      using out flags k kept_sorted [OF st [unfolded eq] k]
      by (simp add: ReleaseRoutes_def UpdateStore_def file_update_def file_load_def)
  qed
qed

lemma sample_reserve_ok:
  "ReserveRoutes file_update sample_os sample_net sample_rng sample_store sample_request 5
     = (Inr (projr (fst sample_reserve)), snd sample_reserve)"
proof -
  have "\<not> isl (fst sample_reserve)" by code_simp
  then have "sample_reserve = (Inr (projr (fst sample_reserve)), snd sample_reserve)" by (simp add: prod_eq_iff)
  then show ?thesis by (simp only: sample_reserve_def [symmetric])
qed

theorem ReserveRoutes_ok_witness:
  "list_all2 (reserved_as sample_request 5) (rq_routes sample_request) (rz_routes (projr (fst sample_reserve)))"
  using ReserveRoutes_ok [OF sample_reserve_ok] by (rule conjunct1)

theorem ReserveRoutes_ReleaseRoutes_witness:
  "\<exists>s2 kept. ReleaseRoutes file_update [] (snd sample_reserve) ''r'' (PendingRefs (projr (fst sample_reserve))) = (Inr (), s2) \<and>
     file_load s2 = Inr kept \<and> list_all2 same_but_share (removeExpiredRoutes [sample_active] 5) kept"
proof -
  have run: "rq_run_id sample_request = ''r''" by (simp add: sample_request_def)
  have load: "file_load sample_store = Inr [sample_active]" by code_simp
  have ids: "list_all has_identity [sample_active]" "distinct (map rt_id [sample_active])" by code_simp+
  have own: "\<forall>r \<in> set [sample_active]. rt_run_id r \<noteq> rq_run_id sample_request" by code_simp
  have rng: "rng_ok sample_rng" "distinct (map hex_encode sample_rng)"
    "hex_encode ` set sample_rng \<inter> rt_id ` set [sample_active] = {}" by code_simp+
  have ne: "PendingRefs (projr (fst sample_reserve)) \<noteq> []" by code_simp
  show ?thesis
    using ReserveRoutes_ReleaseRoutes [OF sample_reserve_ok load ids own rng ne, of "[]"] by (simp only: run)
qed

text \<open>
  C29. \<open>ActivateRoutes\<close> is all or nothing for a run: when it succeeds, the references given are
  exactly those of the pending routes of the run, none of them had expired, each of them is now
  active with the target it had announced and a lease of the given length, and every other
  route of the file is untouched.
\<close>

theorem ActivateRoutes_ok:
  assumes "ActivateRoutes file_update rng s runID refs now leaseTTL = (Inr activated, s')"
  shows "\<exists>stored routes rng'. file_load s = Inr stored \<and> withIdentities rng stored = Inr (routes, rng') \<and>
    file_load s' = Inr (sortRoutes (map (\<lambda>r. if of_run runID RouteStatePending r then activated_route now leaseTTL r else r) routes)) \<and>
    (\<forall>r \<in> set routes. of_run runID RouteStatePending r \<longrightarrow> Ref r \<in> set refs \<and> \<not> expired_at now r) \<and>
    list_all2 (\<lambda>ref a. \<exists>r \<in> set routes. Ref r = ref \<and> of_run runID RouteStatePending r \<and>
      a = activated_route now leaseTTL r) refs activated"
proof -
  have "UpdateStore file_update rng s (\<lambda>_. activate_update runID refs now leaseTTL) = (Inr activated, s')"
    using assms by (auto simp: ActivateRoutes_def split: if_splits)
  then show ?thesis
  proof (rule filestore.ok_obtains)
    fix stored routes rng' "next"
    assume "file_load s = Inr stored" "withIdentities rng stored = Inr (routes, rng')" "file_load s' = Inr (sortRoutes next)"
      and u: "activate_update runID refs now leaseTTL routes = Inr (next, activated)"
    with activate_update_ok [OF u] show ?thesis by (auto elim: list_all2_mono)
  qed
qed

definition sample_activate :: "(router_error, route list) result \<times> file_store" where
  "sample_activate = ActivateRoutes file_update [] sample_pending_store ''r'' [Ref sample_pending] 6 60"

theorem ActivateRoutes_ok_witness:
  "file_load (snd sample_activate) = Inr (sortRoutes (map (\<lambda>r. if of_run ''r'' RouteStatePending r
       then activated_route 6 60 r else r) [sample_active, sample_pending]))"
proof -
  have "\<not> isl (fst sample_activate)" by code_simp
  then have ok: "sample_activate = (Inr (projr (fst sample_activate)), snd sample_activate)" by (simp add: prod_eq_iff)
  have l: "file_load sample_pending_store = Inr [sample_active, sample_pending]" by code_simp
  have i: "list_all has_identity [sample_active, sample_pending]" by code_simp
  from ActivateRoutes_ok [OF ok [unfolded sample_activate_def]] obtain stored routes rng' where
    "file_load sample_pending_store = Inr stored" "withIdentities [] stored = Inr (routes, rng')"
    "file_load (snd sample_activate) = Inr (sortRoutes (map (\<lambda>r. if of_run ''r'' RouteStatePending r
       then activated_route 6 60 r else r) routes))"
    unfolding sample_activate_def by blast
  moreover have "routes = [sample_active, sample_pending]" using calculation(1,2) withIdentities_id [OF i] l by simp
  ultimately show ?thesis by blast
qed

text \<open>
  A call that fails changes nothing: after an error of \<open>ReserveRoutes\<close>, \<open>ActivateRoutes\<close>,
  \<open>ReleaseRoutes\<close>, \<open>RenewRoutes\<close> or \<open>DeleteRouteRef\<close> (a failed lock, read, validation,
  random read or write) the file is the one before the call.
\<close>

theorem failed_call_unchanged:
  "(\<forall>e. fst (ReserveRoutes file_update os net rng s request now) = Inl e
       \<longrightarrow> snd (ReserveRoutes file_update os net rng s request now) = s) \<and>
   (\<forall>e. fst (ActivateRoutes file_update rng s runID refs now ttl) = Inl e
       \<longrightarrow> snd (ActivateRoutes file_update rng s runID refs now ttl) = s) \<and>
   (\<forall>e. fst (ReleaseRoutes file_update rng s runID refs) = Inl e
       \<longrightarrow> snd (ReleaseRoutes file_update rng s runID refs) = s) \<and>
   (\<forall>e. fst (RenewRoutes file_update rng s runID refs now ttl) = Inl e
       \<longrightarrow> snd (RenewRoutes file_update rng s runID refs now ttl) = s) \<and>
   (\<forall>e. fst (DeleteRouteRef file_update rng s ref) = Inl e \<longrightarrow> snd (DeleteRouteRef file_update rng s ref) = s)"
proof (intro conjI allI impI)
  fix e
  show "fst (ReserveRoutes file_update os net rng s request now) = Inl e \<Longrightarrow>
      snd (ReserveRoutes file_update os net rng s request now) = s"
    using reserve_file.reserve_error by (metis prod.collapse)
qed (auto simp: ActivateRoutes_def ReleaseRoutes_def RenewRoutes_def DeleteRouteRef_def
    intro: filestore.Update_error_unchanged)

theorem failed_call_unchanged_witness:
  "snd (ActivateRoutes file_update [] sample_store ''run'' [] 6 0) = sample_store"
proof -
  have "fst (ActivateRoutes file_update [] sample_store ''run'' [] 6 0) = Inl (ErrMessage ''lease TTL must be positive'')"
    by code_simp
  with failed_call_unchanged [of sample_os sample_net "[]" sample_store sample_request 6 "''run''" "[]" 0]
  show ?thesis by blast
qed

end
