(* ===== verification/Router_Http.thy ===== *)
theory Router_Http
  imports Reservations
begin

text \<open>
  The HTTP side of the router: \<open>HTTPHandler\<close>, the handlers of \<open>/routes\<close>, \<open>/route-statuses\<close>,
  \<open>/probe-target\<close> and \<open>/shutdown\<close> in \<open>internal/router/router.go\<close>, and
  \<open>internal/router/canonicalization.go\<close>.

  A request is a record of the parts of \<open>http.Request\<close> the handlers read; its header is the list
  of its fields with canonical names. A handler returns the reply it writes, or \<open>Proxied\<close> with the
  target it hands the request to; \<open>rewriteProxyRequest\<close> is the header of the request that
  \<open>httputil.ReverseProxy\<close> then sends. A decoded JSON body is an argument, \<open>None\<close> a decoding error.
  The results of \<open>mime.ParseMediaType\<close>, \<open>url.URL.String\<close> (of a route URL, and of a parsed
  location whose host was replaced), \<open>url.PathUnescape\<close> and the probes are the parameters of \<open>http_env\<close>. The server's store is the file store.
\<close>

section \<open>Requests and replies\<close>

type_synonym header = "(string \<times> string) list"

text \<open>\<open>lanProxyInfo\<close> in the request context: LAN host and route host.\<close>

record http_request =
  hr_method :: string
  hr_host :: string
  hr_url_host :: string
  hr_path :: string
  hr_raw_path :: string
  hr_escaped_path :: string
  hr_raw_query :: string
  hr_force_query :: bool
  hr_tls :: bool
  hr_remote_addr :: string
  hr_header :: header
  hr_lan :: "(string \<times> string) option"

record proxy_error =
  pe_error :: string
  pe_message :: string
  pe_host :: string
  pe_target :: string

datatype body = NoBody | TextBody string | MissingPage string | LoopPage string | ErrorBody proxy_error
  | RoutesBody "route list" | StatusBody "(route \<times> string) list" | ReachableBody bool | IdentityBody string
  | ResultBody reservation_result | RedirectBody string

datatype reply = Reply nat header body | Proxied url string

record http_env =
  he_net :: net_env
  he_media_type :: "string \<Rightarrow> (string \<times> (string \<times> string) list) option"
  he_url_string :: "string \<Rightarrow> string \<Rightarrow> string \<Rightarrow> string \<Rightarrow> string \<Rightarrow> bool \<Rightarrow> string"
  he_path_unescape :: "string \<Rightarrow> string option"
  he_with_host :: "string \<Rightarrow> string \<Rightarrow> string"
  he_target_status :: "string \<Rightarrow> string"
  he_reachable :: "url \<Rightarrow> bool"

definition header_values :: "header \<Rightarrow> string \<Rightarrow> string list" where
  "header_values h name = map snd (filter (\<lambda>(k, _). k = name) h)"

definition header_get :: "header \<Rightarrow> string \<Rightarrow> string" where
  "header_get h name = (case header_values h name of [] \<Rightarrow> '''' | v # _ \<Rightarrow> v)"

definition header_del :: "header \<Rightarrow> string \<Rightarrow> header" where
  "header_del h name = filter (\<lambda>(k, _). k \<noteq> name) h"

definition header_set :: "header \<Rightarrow> string \<Rightarrow> string \<Rightarrow> header" where
  "header_set h name v = header_del h name @ [(name, v)]"

definition header_add :: "header \<Rightarrow> string \<Rightarrow> string \<Rightarrow> header" where
  "header_add h name v = h @ [(name, v)]"

text \<open>\<open>http.Error\<close>.\<close>

definition http_error :: "nat \<Rightarrow> string \<Rightarrow> reply" where
  "http_error status message = Reply status [(''Content-Type'', ''text/plain; charset=utf-8''), (''X-Content-Type-Options'', ''nosniff'')] (TextBody message)"

fun reply_status :: "reply \<Rightarrow> nat option" where
  "reply_status (Reply status h b) = Some status"
| "reply_status (Proxied u host) = None"

section \<open>Accept and proxy errors\<close>

definition accepts_item :: "http_env \<Rightarrow> (string \<Rightarrow> bool) \<Rightarrow> string \<Rightarrow> bool" where
  "accepts_item env matches item =
     (case he_media_type env (trim_space item) of
        None \<Rightarrow> False
      | Some (mediaType, params) \<Rightarrow> map_of params ''q'' \<noteq> Some ''0'' \<and> matches (to_lower mediaType))"

definition requestAcceptMatches :: "http_env \<Rightarrow> http_request \<Rightarrow> (string \<Rightarrow> bool) \<Rightarrow> bool" where
  "requestAcceptMatches env r matches =
     list_ex (\<lambda>v. list_ex (accepts_item env matches) (split_on CHR '','' v)) (header_values (hr_header r) ''Accept'')"

definition requestAcceptsHTML :: "http_env \<Rightarrow> http_request \<Rightarrow> bool" where
  "requestAcceptsHTML env r = requestAcceptMatches env r (\<lambda>t. t = ''text/html'')"

definition requestAcceptsJSON :: "http_env \<Rightarrow> http_request \<Rightarrow> bool" where
  "requestAcceptsJSON env r =
     requestAcceptMatches env r (\<lambda>t. t = ''application/json'' \<or> has_suffix t ''+json'')"

definition writeProxyError :: "http_env \<Rightarrow> http_request \<Rightarrow> header \<Rightarrow> nat \<Rightarrow> proxy_error \<Rightarrow> reply" where
  "writeProxyError env r h status payload =
     (if requestAcceptsJSON env r then Reply status (header_set h ''Content-Type'' ''application/json'') (ErrorBody payload)
      else Reply status (header_set h ''Content-Type'' ''text/plain; charset=utf-8'') (TextBody (pe_message payload @ [CHR 0x0A])))"

section \<open>Loops and upgrades\<close>

definition gohereRouteHeader :: string where
  "gohereRouteHeader = ''X-Gohere-Route''"

definition canonicalRouteHop :: "string \<Rightarrow> string" where
  "canonicalRouteHop host = to_lower (hostWithoutPort (trim_space host))"

definition routeLoopDetected :: "header \<Rightarrow> string \<Rightarrow> bool" where
  "routeLoopDetected h raw =
     (let host = canonicalRouteHop raw in
      if host = '''' then False
      else list_ex (\<lambda>v. list_ex (\<lambda>hop. canonicalRouteHop hop = host) (split_on CHR '','' v))
             (header_values h gohereRouteHeader))"

definition appendRouteHop :: "header \<Rightarrow> string \<Rightarrow> header" where
  "appendRouteHop h raw =
     (let host = canonicalRouteHop raw in if host = '''' then h else header_add h gohereRouteHeader host)"

definition isUpgradeRequest :: "http_request \<Rightarrow> bool" where
  "isUpgradeRequest r \<longleftrightarrow> equal_fold (header_get (hr_header r) ''Upgrade'') ''websocket'' \<or>
     contains (to_lower (header_get (hr_header r) ''Connection'')) ''upgrade''"

definition routeLoopResponse :: "http_env \<Rightarrow> http_request \<Rightarrow> string \<Rightarrow> reply" where
  "routeLoopResponse env r raw =
     (let host = hostWithoutPort raw;
          payload = \<lparr>pe_error = ''proxy_loop_detected'', pe_message = ''gohere proxy loop detected for '' @ host,
            pe_host = host, pe_target = ''''\<rparr>
      in if requestAcceptsJSON env r then writeProxyError env r [] 508 payload
         else Reply 508 [(''Content-Type'', ''text/plain; charset=utf-8'')] (LoopPage (hostWithoutPort host)))"

definition missingRouteResponse :: "http_env \<Rightarrow> http_request \<Rightarrow> reply" where
  "missingRouteResponse env r =
     (let host = hostWithoutPort (hr_host r) in
      if requestAcceptsHTML env r \<and> \<not> requestAcceptsJSON env r
      then Reply 502 [(''Content-Type'', ''text/html; charset=utf-8'')] (MissingPage (hostWithoutPort host))
      else writeProxyError env r [] 502
        \<lparr>pe_error = ''route_missing'', pe_message = ''No gohere route is running for '' @ host,
         pe_host = host, pe_target = ''''\<rparr>)"

section \<open>Canonicalization\<close>

definition headerListContainsToken :: "string list \<Rightarrow> string \<Rightarrow> bool" where
  "headerListContainsToken values token =
     list_ex (\<lambda>v. list_ex (\<lambda>item. equal_fold (trim_space item) token) (split_on CHR '','' v)) values"

definition isCORSPreflight :: "http_request \<Rightarrow> bool" where
  "isCORSPreflight r \<longleftrightarrow> hr_method r = ''OPTIONS'' \<and> trim_space (header_get (hr_header r) ''Origin'') \<noteq> '''' \<and>
     trim_space (header_get (hr_header r) ''Access-Control-Request-Method'') \<noteq> ''''"

definition isWebSocketUpgradeAttempt :: "http_request \<Rightarrow> bool" where
  "isWebSocketUpgradeAttempt r \<longleftrightarrow> hr_method r = ''GET'' \<and>
     headerListContainsToken (header_values (hr_header r) ''Upgrade'') ''websocket'' \<and>
     headerListContainsToken (header_values (hr_header r) ''Connection'') ''upgrade''"

definition secureRouteURL :: "http_env \<Rightarrow> string \<Rightarrow> string \<Rightarrow> http_request \<Rightarrow> bool \<Rightarrow> string" where
  "secureRouteURL env scheme host r includeQuery =
     he_url_string env scheme host (hr_path r) (hr_raw_path r)
       (if includeQuery then hr_raw_query r else '''') (if includeQuery then hr_force_query r else False)"

definition handleRouteCanonicalization :: "http_env \<Rightarrow> http_request \<Rightarrow> route \<Rightarrow> reply option" where
  "handleRouteCanonicalization env r route =
     (if normalizeRouteHost (rt_host route) \<noteq> Inr (rt_host route) then
        Some (writeProxyError env r [] 502
          \<lparr>pe_error = ''invalid_route_host'', pe_message = ''invalid gohere route host'', pe_host = '''', pe_target = ''''\<rparr>)
      else if \<not> validPreferredScheme (rt_preferred_scheme route) then
        Some (writeProxyError env r [] 502
          \<lparr>pe_error = ''invalid_route_scheme'', pe_message = ''invalid gohere route scheme'',
           pe_host = rt_host route, pe_target = ''''\<rparr>)
      else if rt_preferred_scheme route = ''http'' \<or> hr_tls r then None
      else if isCORSPreflight r then
        Some (writeProxyError env r [(''Cache-Control'', ''no-store'')] 400
          \<lparr>pe_error = ''secure_transport_required'',
           pe_message = ''gohere route requires secure transport; use '' @ secureRouteURL env ''https'' (rt_host route) r False,
           pe_host = rt_host route, pe_target = ''''\<rparr>)
      else if isWebSocketUpgradeAttempt r then
        Some (writeProxyError env r [(''Cache-Control'', ''no-store'')] 400
          \<lparr>pe_error = ''secure_websocket_required'',
           pe_message = ''gohere route requires secure WebSocket; connect to '' @ secureRouteURL env ''wss'' (rt_host route) r False,
           pe_host = rt_host route, pe_target = ''''\<rparr>)
      else Some (Reply 307 [(''Location'', secureRouteURL env ''https'' (rt_host route) r True),
                            (''Cache-Control'', ''no-store''), (''Content-Length'', ''0'')] NoBody))"

section \<open>Host lookup\<close>

text \<open>The loop of \<open>routeForHost\<close>; \<open>normalizedMatch\<close> is the first route whose host normalizes to the host.\<close>

fun find_route :: "string \<Rightarrow> route option \<Rightarrow> route list \<Rightarrow> route option" where
  "find_route host normalizedMatch [] = normalizedMatch"
| "find_route host normalizedMatch (route # routes) =
     (if rt_host route = host then Some route
      else if normalizeRouteHost (rt_host route) = Inr host \<and> normalizedMatch = None
      then find_route host (Some route) routes
      else find_route host normalizedMatch routes)"

definition routeForHost :: "file_store \<Rightarrow> string \<Rightarrow> (router_error, route option) result" where
  "routeForHost store raw =
     res_bind (normalizeRouteHost raw) (\<lambda>host.
     res_bind (RouteStore_Load store) (\<lambda>routes. Inr (find_route host None routes)))"

section \<open>The proxy handler\<close>

definition RouterIdentityPath :: string where
  "RouterIdentityPath = ''/.well-known/gohere/router''"

definition handleRouterIdentity :: "string \<Rightarrow> http_request \<Rightarrow> reply" where
  "handleRouterIdentity instanceID r =
     (if hr_method r \<noteq> ''GET'' \<and> hr_method r \<noteq> ''HEAD'' then http_error 405 ''method not allowed''
      else if instanceID = '''' then http_error 404 ''404 page not found''
      else Reply 200 [(''Cache-Control'', ''no-store''), (''Content-Type'', ''application/json'')]
             (if hr_method r = ''HEAD'' then NoBody else IdentityBody instanceID))"

definition serve_route :: "http_env \<Rightarrow> time \<Rightarrow> http_request \<Rightarrow> route \<Rightarrow> reply" where
  "serve_route env now r route =
     (if EffectiveState route = RouteStatePending then
        writeProxyError env r [] 503
          \<lparr>pe_error = ''route_starting'', pe_message = ''gohere route is starting'', pe_host = rt_host route,
           pe_target = rt_pending_target route\<rparr>
      else if RouteLeaseExpired route now then
        writeProxyError env r [] 503
          \<lparr>pe_error = ''route_owner_offline'', pe_message = ''gohere route owner is offline'', pe_host = rt_host route,
           pe_target = rt_target route\<rparr>
      else if routeLoopDetected (hr_header r) (rt_host route) then routeLoopResponse env r (rt_host route)
      else (case handleRouteCanonicalization env r route of
              Some reply \<Rightarrow> reply
            | None \<Rightarrow>
                (let invalid = writeProxyError env r [] 502
                       \<lparr>pe_error = ''invalid_route_target'', pe_message = ''invalid gohere route target'',
                        pe_host = rt_host route, pe_target = rt_target route\<rparr>
                 in case net_parse_url (he_net env) (rt_target route) of
                      None \<Rightarrow> invalid
                    | Some target \<Rightarrow>
                        if validateRouteTarget (he_net env) target \<noteq> None then invalid
                        else Proxied target (rt_host route))))"

definition HTTPHandler :: "http_env \<Rightarrow> string \<Rightarrow> file_store \<Rightarrow> time \<Rightarrow> http_request \<Rightarrow> reply" where
  "HTTPHandler env instanceID store now r =
     (if hr_path r = RouterIdentityPath then handleRouterIdentity instanceID r
      else (case routeForHost store (hr_host r) of
              Inl ErrInvalidRouteHost \<Rightarrow> http_error 400 ''invalid route host''
            | Inl _ \<Rightarrow> http_error 500 ''route store''
            | Inr None \<Rightarrow>
                if isUpgradeRequest r then http_error 502 ''gohere websocket route missing''
                else missingRouteResponse env r
            | Inr (Some route) \<Rightarrow> serve_route env now r route))"

text \<open>The error handler of the reverse proxy.\<close>

definition proxyErrorHandler :: "http_env \<Rightarrow> http_request \<Rightarrow> route \<Rightarrow> reply" where
  "proxyErrorHandler env r route =
     (if isUpgradeRequest r then http_error 502 ''gohere websocket upstream unavailable''
      else writeProxyError env r [] 502
        \<lparr>pe_error = ''upstream_unavailable'', pe_message = ''gohere upstream unavailable'', pe_host = rt_host route,
         pe_target = rt_target route\<rparr>)"

section \<open>What the proxy sends\<close>

definition lanProxyInfoFromContext :: "http_request \<Rightarrow> (string \<times> string) option" where
  "lanProxyInfoFromContext r =
     (case hr_lan r of
        None \<Rightarrow> None
      | Some (lanHost, routeHost) \<Rightarrow> if lanHost \<noteq> '''' \<and> routeHost \<noteq> '''' then Some (lanHost, routeHost) else None)"

definition withLANProxyContext :: "http_request \<Rightarrow> string \<Rightarrow> string \<Rightarrow> http_request" where
  "withLANProxyContext r lanHost routeHost =
     r\<lparr>hr_lan := Some (trim_suffix lanHost ''.'', trim_suffix routeHost ''.'')\<rparr>"

definition rewriteLANRequest :: "header \<Rightarrow> http_request \<Rightarrow> header" where
  "rewriteLANRequest h r =
     (case lanProxyInfoFromContext r of
        None \<Rightarrow> h
      | Some (lanHost, routeHost) \<Rightarrow>
          if header_get h ''Origin'' = ''https://'' @ lanHost then header_set h ''Origin'' (''https://'' @ routeHost)
          else h)"

definition forwardedHost :: "http_request \<Rightarrow> string" where
  "forwardedHost r = (if hr_host r \<noteq> '''' then hr_host r else hr_url_host r)"

definition forwardedProto :: "http_request \<Rightarrow> string" where
  "forwardedProto r = (if hr_tls r then ''https'' else ''http'')"

definition forwarded_name :: "string \<Rightarrow> bool" where
  "forwarded_name name \<longleftrightarrow> to_lower name = ''forwarded'' \<or> has_prefix (to_lower name) ''x-forwarded-''"

definition setForwardedHeaders :: "header \<Rightarrow> http_request \<Rightarrow> header" where
  "setForwardedHeaders out r =
     (let out = filter (\<lambda>(name, _). \<not> forwarded_name name) out;
          out = (case splitHostPort (hr_remote_addr r) of
                   Some (clientIP, _) \<Rightarrow> header_set out ''X-Forwarded-For'' clientIP
                 | None \<Rightarrow> out);
          host = forwardedHost r;
          proto = forwardedProto r;
          (host, proto) = (case lanProxyInfoFromContext r of
                             Some (lanHost, _) \<Rightarrow> (lanHost, ''https'')
                           | None \<Rightarrow> (host, proto))
      in header_set (header_set out ''X-Forwarded-Host'' host) ''X-Forwarded-Proto'' proto)"

text \<open>\<open>proxy.Rewrite\<close> after the director of \<open>NewSingleHostReverseProxy\<close>, which left the header \<open>out\<close>.\<close>

definition rewriteProxyRequest :: "header \<Rightarrow> http_request \<Rightarrow> string \<Rightarrow> header" where
  "rewriteProxyRequest out r host =
     appendRouteHop (setForwardedHeaders (rewriteLANRequest out r) r) host"

text \<open>
  \<open>rewriteLANCookieDomain\<close>. The loop assigns to its parameter \<open>lanHost\<close> when a domain has a
  leading dot, so the assignment is still in force for the attributes that follow.
\<close>

fun cookie_attributes :: "string \<Rightarrow> string \<Rightarrow> string list \<Rightarrow> string list" where
  "cookie_attributes routeHost lanHost [] = []"
| "cookie_attributes routeHost lanHost (part # parts) =
     (case cut CHR ''='' (trim_space part) of
        None \<Rightarrow> part # cookie_attributes routeHost lanHost parts
      | Some (name, value) \<Rightarrow>
          if \<not> equal_fold name ''Domain'' \<or> \<not> equal_fold (trim_prefix value ''.'') routeHost
          then part # cookie_attributes routeHost lanHost parts
          else (let lanHost = (if has_prefix value ''.'' then ''.'' @ lanHost else lanHost)
                in ('' Domain='' @ lanHost) # cookie_attributes routeHost lanHost parts))"

definition rewriteLANCookieDomain :: "string \<Rightarrow> string \<Rightarrow> string \<Rightarrow> string" where
  "rewriteLANCookieDomain cookie routeHost lanHost =
     (case split_on CHR '';'' cookie of
        [] \<Rightarrow> ''''
      | first # rest \<Rightarrow> join '';'' (first # cookie_attributes routeHost lanHost rest))"

definition rewriteLANResponse :: "http_env \<Rightarrow> http_request \<Rightarrow> header \<Rightarrow> header" where
  "rewriteLANResponse env r h =
     (case lanProxyInfoFromContext r of
        None \<Rightarrow> h
      | Some (lanHost, routeHost) \<Rightarrow>
          (let lanOrigin = ''https://'' @ lanHost;
               routeOrigin = ''https://'' @ routeHost;
               h = (if header_get h ''Access-Control-Allow-Origin'' = routeOrigin
                    then header_set h ''Access-Control-Allow-Origin'' lanOrigin else h);
               location = header_get h ''Location'';
               h = (if location = '''' then h
                    else (case net_parse_url (he_net env) location of
                            None \<Rightarrow> h
                          | Some parsed \<Rightarrow>
                              if url_scheme parsed = ''https'' \<and> equal_fold (url_host parsed) routeHost
                              then header_set h ''Location'' (he_with_host env location lanHost) else h));
               cookies = header_values h ''Set-Cookie''
           in if cookies = [] then h
              else header_del h ''Set-Cookie''
                     @ map (\<lambda>cookie. (''Set-Cookie'', rewriteLANCookieDomain cookie routeHost lanHost)) cookies))"

section \<open>Administration\<close>

definition authorized :: "string \<Rightarrow> http_request \<Rightarrow> bool" where
  "authorized token r \<longleftrightarrow> token \<noteq> '''' \<and> header_get (hr_header r) ''X-Gohere-Token'' = token"

text \<open>A handler of the administration interface: the reply and the store after it.\<close>

type_synonym outcome = "reply \<times> file_store"

text \<open>
  The guard of \<open>POST /routes\<close>: the checked route or the reply that refuses it.
\<close>

definition check_route :: "http_env \<Rightarrow> route option \<Rightarrow> (reply, route) result" where
  "check_route env decoded =
     (case decoded of
        None \<Rightarrow> Inl (http_error 400 ''decode'')
      | Some route \<Rightarrow>
          if rt_host route = '''' \<or> rt_target route = '''' then Inl (http_error 400 ''host and target are required'')
          else (case normalizeRouteHost (rt_host route) of
                  Inl _ \<Rightarrow> Inl (http_error 400 ''invalid route host'')
                | Inr routeHost \<Rightarrow>
                    (let route = route\<lparr>rt_host := routeHost\<rparr> in
                     if \<not> validPreferredScheme (rt_preferred_scheme route)
                     then Inl (http_error 400 ''preferred scheme must be http or https'')
                     else (case net_parse_url (he_net env) (rt_target route) of
                             None \<Rightarrow> Inl (http_error 400 ''target must be an absolute URL'')
                           | Some target \<Rightarrow>
                               (case validateRouteTarget (he_net env) target of
                                  Some (ErrMessage m) \<Rightarrow> Inl (http_error 400 m)
                                | Some _ \<Rightarrow> Inl (http_error 400 ''invalid target'')
                                | None \<Rightarrow> Inr route)))))"

definition upsert_update :: "time \<Rightarrow> route \<Rightarrow> unit update" where
  "upsert_update now route routes = res_bind (upsertRoute now routes route) (\<lambda>next. Inr (next, ()))"

definition handleRoutes ::
  "http_env \<Rightarrow> string \<Rightarrow> rng \<Rightarrow> time \<Rightarrow> file_store \<Rightarrow> http_request \<Rightarrow> route option \<Rightarrow> outcome" where
  "handleRoutes env token rng now s r decoded =
     (if \<not> authorized token r then (http_error 401 ''unauthorized'', s)
      else if hr_method r = ''GET'' then
        (case RouteStore_Load s of
           Inl _ \<Rightarrow> (http_error 500 ''route store'', s)
         | Inr routes \<Rightarrow> (Reply 200 [(''Content-Type'', ''application/json'')] (RoutesBody routes), s))
      else if hr_method r = ''POST'' then
        (case check_route env decoded of
           Inl reply \<Rightarrow> (reply, s)
         | Inr route \<Rightarrow>
             (case UpdateStore file_update rng s (\<lambda>_. upsert_update now route) of
                (Inl (ErrRouteConflict host), s') \<Rightarrow> (http_error 409 (''route host is owned by another runner: '' @ host), s')
              | (Inl _, s') \<Rightarrow> (http_error 500 ''route store'', s')
              | (Inr _, s') \<Rightarrow> (Reply 204 [] NoBody, s')))
      else (http_error 405 ''method not allowed'', s))"

definition route_status :: "http_env \<Rightarrow> time \<Rightarrow> route \<Rightarrow> string" where
  "route_status env now route =
     (if EffectiveState route = RouteStatePending then ''starting''
      else (let status = he_target_status env (rt_target route) in
            if RouteLeaseExpired route now \<and> status \<noteq> ''dead'' then ''unknown'' else status))"

definition handleRouteStatuses :: "http_env \<Rightarrow> string \<Rightarrow> time \<Rightarrow> file_store \<Rightarrow> http_request \<Rightarrow> outcome" where
  "handleRouteStatuses env token now s r =
     (if \<not> authorized token r then (http_error 401 ''unauthorized'', s)
      else if hr_method r \<noteq> ''GET'' then (http_error 405 ''method not allowed'', s)
      else (case RouteStore_Load s of
              Inl _ \<Rightarrow> (http_error 500 ''route store'', s)
            | Inr routes \<Rightarrow>
                (Reply 200 [(''Content-Type'', ''application/json'')]
                   (StatusBody (map (\<lambda>route. (route, route_status env now route)) routes)), s)))"

definition delete_host_update :: "string \<Rightarrow> unit update" where
  "delete_host_update host routes = Inr (filter (\<lambda>route. to_lower (rt_host route) \<noteq> host) routes, ())"

definition handleRoute :: "http_env \<Rightarrow> string \<Rightarrow> rng \<Rightarrow> file_store \<Rightarrow> http_request \<Rightarrow> outcome" where
  "handleRoute env token rng s r =
     (if \<not> authorized token r then (http_error 401 ''unauthorized'', s)
      else if hr_method r \<noteq> ''DELETE'' then (http_error 405 ''method not allowed'', s)
      else (case he_path_unescape env (trim_prefix (hr_escaped_path r) ''/routes/'') of
              None \<Rightarrow> (http_error 400 ''invalid route host'', s)
            | Some raw \<Rightarrow>
                (case normalizeRouteHost raw of
                   Inl _ \<Rightarrow> (http_error 400 ''invalid route host'', s)
                 | Inr host \<Rightarrow>
                     (case UpdateStore file_update rng s (\<lambda>_. delete_host_update host) of
                        (Inl _, s') \<Rightarrow> (http_error 500 ''route store'', s')
                      | (Inr _, s') \<Rightarrow> (Reply 204 [] NoBody, s')))))"

definition handleProbeTarget :: "http_env \<Rightarrow> string \<Rightarrow> file_store \<Rightarrow> http_request \<Rightarrow> string option \<Rightarrow> outcome" where
  "handleProbeTarget env token s r decoded =
     (if \<not> authorized token r then (http_error 401 ''unauthorized'', s)
      else if hr_method r \<noteq> ''POST'' then (http_error 405 ''method not allowed'', s)
      else (case decoded of
              None \<Rightarrow> (http_error 400 ''decode'', s)
            | Some raw \<Rightarrow>
                (case net_parse_url (he_net env) raw of
                   None \<Rightarrow> (http_error 400 ''target must be an absolute URL'', s)
                 | Some target \<Rightarrow>
                     if url_scheme target = '''' \<or> url_host target = ''''
                     then (http_error 400 ''target must be an absolute URL'', s)
                     else if url_scheme target \<noteq> ''http'' \<and> url_scheme target \<noteq> ''https''
                     then (http_error 400 ''target must use http or https'', s)
                     else if \<not> allowedProbeTarget (he_net env) target
                     then (http_error 400 ''target must be local'', s)
                     else (Reply 200 [(''Content-Type'', ''application/json'')] (ReachableBody (he_reachable env target)), s))))"

text \<open>
  \<open>handleShutdown\<close>: \<open>fired\<close> is the state of \<open>shutdownOnce\<close>, the second component of the result
  its state afterwards; the shutdown function runs when it turns true.
\<close>

definition handleShutdown :: "string \<Rightarrow> bool \<Rightarrow> bool \<Rightarrow> http_request \<Rightarrow> reply \<times> bool" where
  "handleShutdown token configured fired r =
     (if \<not> authorized token r then (http_error 401 ''unauthorized'', fired)
      else if hr_method r \<noteq> ''POST'' then (http_error 405 ''method not allowed'', fired)
      else (Reply 204 [] NoBody, fired \<or> configured))"

section \<open>Lemmas\<close>

lemma http_error_not_proxied [simp]: "http_error n m \<noteq> Proxied u host"
  by (simp add: http_error_def)

lemma writeProxyError_not_proxied [simp]: "writeProxyError env r h n p \<noteq> Proxied u host"
  by (simp add: writeProxyError_def)

lemma replies_not_proxied [simp]:
  "handleRouterIdentity inst r \<noteq> Proxied u host" "routeLoopResponse env r raw \<noteq> Proxied u host"
  "missingRouteResponse env r \<noteq> Proxied u host"
  by (simp_all add: handleRouterIdentity_def routeLoopResponse_def missingRouteResponse_def Let_def)

lemma canonicalization_None:
  "handleRouteCanonicalization env r route = None \<Longrightarrow>
     normalizeRouteHost (rt_host route) = Inr (rt_host route) \<and>
     (rt_preferred_scheme route = ''http'' \<or> rt_preferred_scheme route = ''https'' \<and> hr_tls r)"
  by (auto simp: handleRouteCanonicalization_def validPreferredScheme_def split: if_splits)

lemma canonicalization_Some_reply:
  "handleRouteCanonicalization env r route = Some reply \<Longrightarrow> reply \<noteq> Proxied u host"
  by (auto simp: handleRouteCanonicalization_def split: if_splits)

lemma find_route_ok:
  "find_route host m routes = Some route \<Longrightarrow>
     m = Some route \<or> (route \<in> set routes \<and> (rt_host route = host \<or> normalizeRouteHost (rt_host route) = Inr host))"
  by (induction host m routes rule: find_route.induct) (auto split: if_splits)

lemma find_route_exact: "r \<in> set routes \<Longrightarrow> rt_host r = host \<Longrightarrow> \<exists>r'. find_route host m routes = Some r' \<and> rt_host r' = host"
  by (induction host m routes rule: find_route.induct) auto

lemma validateRouteTarget_None:
  "validateRouteTarget net target = None \<Longrightarrow>
     (url_scheme target = ''http'' \<or> url_scheme target = ''https'') \<and> url_host target \<noteq> '''' \<and> allowedProbeTarget net target"
  by (auto simp: validateRouteTarget_def split: if_splits)

text \<open>What holds of a route that \<open>serve_route\<close> proxies to.\<close>

definition proxied_route :: "http_env \<Rightarrow> time \<Rightarrow> http_request \<Rightarrow> route \<Rightarrow> url \<Rightarrow> bool" where
  "proxied_route env now r route target \<longleftrightarrow>
     EffectiveState route \<noteq> RouteStatePending \<and> \<not> RouteLeaseExpired route now \<and>
     \<not> routeLoopDetected (hr_header r) (rt_host route) \<and>
     normalizeRouteHost (rt_host route) = Inr (rt_host route) \<and>
     (rt_preferred_scheme route = ''http'' \<or> rt_preferred_scheme route = ''https'' \<and> hr_tls r) \<and>
     net_parse_url (he_net env) (rt_target route) = Some target \<and>
     (url_scheme target = ''http'' \<or> url_scheme target = ''https'') \<and> allowedProbeTarget (he_net env) target"

lemma serve_route_proxied:
  assumes "serve_route env now r route = Proxied target host"
  shows "host = rt_host route" and "proxied_route env now r route target"
proof -
  from assms have c: "handleRouteCanonicalization env r route = None"
    by (cases "handleRouteCanonicalization env r route")
      (auto simp: serve_route_def dest: canonicalization_Some_reply split: if_splits)
  with assms show "host = rt_host route" and "proxied_route env now r route target"
    using canonicalization_None [OF c] validateRouteTarget_None
    by (auto simp: serve_route_def proxied_route_def Let_def split: if_splits option.splits)
qed

lemma HTTPHandler_proxied:
  assumes "HTTPHandler env inst s now r = Proxied target host"
  shows "\<exists>routes route. RouteStore_Load s = Inr routes \<and> route \<in> set routes \<and> rt_host route = host \<and>
    normalizeRouteHost (hr_host r) = Inr host \<and> proxied_route env now r route target"
proof -
  from assms obtain route where f: "routeForHost s (hr_host r) = Inr (Some route)"
    and sr: "serve_route env now r route = Proxied target host"
    by (auto simp: HTTPHandler_def split: if_splits sum.splits option.splits router_error.splits)
  from f obtain h routes where h: "normalizeRouteHost (hr_host r) = Inr h" and l: "RouteStore_Load s = Inr routes"
    and fr: "find_route h None routes = Some route"
    by (auto simp: routeForHost_def res_bind_Inr_iff)
  note p = serve_route_proxied [OF sr]
  have "route \<in> set routes" "rt_host route = h"
    using find_route_ok [OF fr] p(2) by (auto simp: proxied_route_def)
  with h l p show ?thesis by auto
qed

text \<open>A normalized host is its own hop.\<close>

lemma normalizeRouteHost_lower: "normalizeRouteHost raw = Inr h \<Longrightarrow> to_lower h = h"
  by (auto simp: normalizeRouteHost_def Let_def res_bind_Inr_iff split: if_splits)

lemma normalizeRouteHost_trim: "normalizeRouteHost (trim_space raw) = normalizeRouteHost raw"
  by (simp add: normalizeRouteHost_def trim_space_def)

lemma canonicalRouteHop_normal: "normalizeRouteHost host = Inr host \<Longrightarrow> canonicalRouteHop host = host"
  using normalizeRouteHost_lower [of host host]
  by (simp add: canonicalRouteHop_def hostWithoutPort_def normalizeRouteHost_trim)

lemma normalizeRouteHost_nonempty: "normalizeRouteHost raw = Inr h \<Longrightarrow> h \<noteq> []"
  by (auto simp: normalizeRouteHost_def Let_def res_bind_Inr_iff split: if_splits)

lemma hop_detected:
  assumes "normalizeRouteHost host = Inr host" "CHR '','' \<notin> set host" "host \<in> set (header_values h gohereRouteHeader)"
  shows "routeLoopDetected h host"
proof -
  have "canonicalRouteHop host = host" "host \<noteq> []"
    using assms(1) canonicalRouteHop_normal normalizeRouteHost_nonempty by auto
  with assms(2,3) show ?thesis
    by (auto simp: routeLoopDetected_def list_ex_iff split_on_none intro!: bexI [of _ host])
qed

lemma appendRouteHop_values:
  "normalizeRouteHost host = Inr host \<Longrightarrow> host \<in> set (header_values (appendRouteHop h host) gohereRouteHeader)"
  using canonicalRouteHop_normal normalizeRouteHost_nonempty [of host host]
  by (auto simp: appendRouteHop_def Let_def header_add_def header_values_def)

subsection \<open>Upserts\<close>

lemma upsertRoute_cases:
  "case upsertRoute now routes route of
     Inr next \<Rightarrow>
       (\<exists>xs r ys. routes = xs @ r # ys \<and> equal_fold (rt_host r) (rt_host route) \<and> sameRouteOwner now r route \<and>
          next = xs @ route # ys \<and> (\<forall>x \<in> set xs. \<not> equal_fold (rt_host x) (rt_host route))) \<or>
       (next = routes @ [route] \<and> (\<forall>x \<in> set routes. \<not> equal_fold (rt_host x) (rt_host route)))
   | Inl e \<Rightarrow> e = ErrRouteConflict (rt_host route) \<and>
       (\<exists>r \<in> set routes. equal_fold (rt_host r) (rt_host route) \<and> \<not> sameRouteOwner now r route)"
proof (induction routes)
  case Nil
  then show ?case by simp
next
  case (Cons r routes)
  show ?case
  proof (cases "equal_fold (rt_host r) (rt_host route)")
    case True
    then show ?thesis by (auto intro: exI [of _ "[]"])
  next
    case False
    show ?thesis
    proof (cases "upsertRoute now routes route")
      case (Inl e)
      with Cons False show ?thesis by simp
    next
      case (Inr rs)
      with Cons False show ?thesis
        by simp (metis append_Cons set_ConsD)
    qed
  qed
qed

lemma upsertRoute_hosts:
  assumes "upsertRoute now routes route = Inr next" "distinct (map fold_host routes)"
  shows "distinct (map fold_host next)"
proof -
  from assms(1) upsertRoute_cases [where now = now and routes = routes and route = route] have
    "(\<exists>xs r ys. routes = xs @ r # ys \<and> fold_host r = fold_host route \<and> next = xs @ route # ys) \<or>
     next = routes @ [route] \<and> (\<forall>x \<in> set routes. fold_host x \<noteq> fold_host route)"
    by (auto simp: equal_fold_def)
  then show ?thesis
  proof (elim disjE)
    assume "\<exists>xs r ys. routes = xs @ r # ys \<and> fold_host r = fold_host route \<and> next = xs @ route # ys"
    with assms(2) show ?thesis by auto
  next
    assume new: "next = routes @ [route] \<and> (\<forall>x \<in> set routes. fold_host x \<noteq> fold_host route)"
    then have "fold_host route \<notin> fold_host ` set routes" by force
    with new assms(2) show ?thesis by simp
  qed
qed

lemma upsert_update_hosts:
  "upsert_update now route routes = Inr (next, u) \<Longrightarrow> distinct (map fold_host routes) \<Longrightarrow> distinct (map fold_host next)"
  using upsertRoute_hosts by (auto simp: upsert_update_def res_bind_Inr_iff)

lemma delete_host_update_hosts:
  "delete_host_update host routes = Inr (next, u) \<Longrightarrow> distinct (map fold_host routes) \<Longrightarrow> distinct (map fold_host next)"
  by (auto simp: delete_host_update_def distinct_map_filter)

section \<open>Properties\<close>

text \<open>
  C3. The router forwards a request only to a route of its table that was registered for the
  request's host, is active with an unexpired lease, has not handled the request already, and whose
  target is an http or https URL on this machine or a private network. A route that asks for https
  is never reached over plain http.
\<close>

theorem HTTPHandler_proxies_only:
  "case HTTPHandler env instanceID s now r of
     Reply n h b \<Rightarrow> True
   | Proxied target host \<Rightarrow>
       (\<exists>routes route. RouteStore_Load s = Inr routes \<and> route \<in> set routes \<and> rt_host route = host \<and>
          normalizeRouteHost (hr_host r) = Inr host \<and> proxied_route env now r route target)"
  using HTTPHandler_proxied [of env instanceID s now r] by (cases "HTTPHandler env instanceID s now r") auto

text \<open>
  C30. A forwarded request that comes back to a router, through whatever other hops, with the
  route header it was sent with, is not forwarded to the same route again, whatever the tables hold
  then. The host must not contain a comma, which separates the hops of one header value.
\<close>

theorem no_proxy_loop:
  assumes "HTTPHandler env instanceID s now r = Proxied target host"
    and "CHR '','' \<notin> set host"
    and "set (header_values (rewriteProxyRequest out r host) gohereRouteHeader)
           \<subseteq> set (header_values (hr_header r') gohereRouteHeader)"
  shows "HTTPHandler env' instanceID' s' now' r' \<noteq> Proxied target' host"
proof
  assume "HTTPHandler env' instanceID' s' now' r' = Proxied target' host"
  then have "\<not> routeLoopDetected (hr_header r') host" using HTTPHandler_proxied by (fastforce simp: proxied_route_def)
  moreover have n: "normalizeRouteHost host = Inr host"
    using HTTPHandler_proxied [OF assms(1)] by (auto simp: proxied_route_def)
  moreover have "host \<in> set (header_values (hr_header r') gohereRouteHeader)"
    using appendRouteHop_values [OF n] assms(3) by (auto simp: rewriteProxyRequest_def)
  ultimately show False using hop_detected assms(2) by blast
qed

definition sample_http :: http_env where
  "sample_http = \<lparr>he_net = sample_net, he_media_type = (\<lambda>_. None), he_url_string = (\<lambda>_ _ _ _ _ _. []),
     he_path_unescape = Some, he_with_host = (\<lambda>l _. l), he_target_status = (\<lambda>_. ''alive''), he_reachable = (\<lambda>_. True)\<rparr>"

definition sample_get :: http_request where
  "sample_get = \<lparr>hr_method = ''GET'', hr_host = ''p:1'', hr_url_host = [], hr_path = ''/'', hr_raw_path = [],
     hr_escaped_path = ''/'', hr_raw_query = [], hr_force_query = False, hr_tls = False, hr_remote_addr = ''c:2'',
     hr_header = [], hr_lan = None\<rparr>"

definition sample_back :: http_request where
  "sample_back = sample_get\<lparr>hr_header := rewriteProxyRequest [] sample_get ''p''\<rparr>"

definition sample_http_store :: file_store where
  "sample_http_store = \<lparr>fs_file = RoutesFile [sample_active\<lparr>rt_preferred_scheme := ''http''\<rparr>],
     fs_lock_ok = True, fs_write_ok = True\<rparr>"

definition sample_target :: url where
  "sample_target = the (net_parse_url sample_net ''u'')"

theorem no_proxy_loop_witness:
  "HTTPHandler sample_http [] sample_http_store 2 sample_back \<noteq> Proxied sample_target ''p''"
proof (rule no_proxy_loop)
  show "HTTPHandler sample_http [] sample_http_store 1 sample_get = Proxied sample_target ''p''" by code_simp
  show "CHR '','' \<notin> set ''p''" by simp
  show "set (header_values (rewriteProxyRequest [] sample_get ''p'') gohereRouteHeader)
      \<subseteq> set (header_values (hr_header sample_back) gohereRouteHeader)" by (simp add: sample_back_def)
qed

text \<open>
  Without the token, the administration handlers answer 401 and leave the store and the
  shutdown state alone; with an empty configured token no request is authorized.
\<close>

theorem unauthorized_refused:
  assumes "token = '''' \<or> header_get (hr_header r) ''X-Gohere-Token'' \<noteq> token"
  shows "handleRoutes env token rng now s r decoded = (http_error 401 ''unauthorized'', s) \<and>
    handleRouteStatuses env token now s r = (http_error 401 ''unauthorized'', s) \<and>
    handleRoute env token rng s r = (http_error 401 ''unauthorized'', s) \<and>
    handleProbeTarget env token s r target = (http_error 401 ''unauthorized'', s) \<and>
    handleShutdown token configured fired r = (http_error 401 ''unauthorized'', fired)"
  using assms
  by (auto simp: handleRoutes_def handleRouteStatuses_def handleRoute_def handleProbeTarget_def handleShutdown_def
      authorized_def)

theorem unauthorized_refused_witness:
  "handleRoute sample_http ''t'' [] sample_http_store sample_get = (http_error 401 ''unauthorized'', sample_http_store)"
proof -
  have "''t'' = '''' \<or> header_get (hr_header sample_get) ''X-Gohere-Token'' \<noteq> ''t''" by code_simp
  from unauthorized_refused [OF this] show ?thesis by blast
qed

text \<open>
  \<open>upsertRoute\<close> either appends a route whose host is new, or replaces, in place, the first
  route of that host, which the same owner must hold (a WSL runner takes over from another runner
  only once the lease has expired); otherwise it reports a conflict. Every other route stays as it is.
\<close>

theorem upsertRoute_owner:
  "case upsertRoute now routes route of
     Inr next \<Rightarrow>
       (\<exists>xs r ys. routes = xs @ r # ys \<and> equal_fold (rt_host r) (rt_host route) \<and> sameRouteOwner now r route \<and>
          next = xs @ route # ys \<and> list_all (\<lambda>x. \<not> equal_fold (rt_host x) (rt_host route)) xs) \<or>
       (next = routes @ [route] \<and> list_all (\<lambda>x. \<not> equal_fold (rt_host x) (rt_host route)) routes)
   | Inl e \<Rightarrow> e = ErrRouteConflict (rt_host route) \<and>
       (\<exists>r \<in> set routes. equal_fold (rt_host r) (rt_host route) \<and> \<not> sameRouteOwner now r route)"
  unfolding list_all_iff by (rule upsertRoute_cases)

text \<open>
  \<open>rewriteLANCookieDomain\<close> writes two leading dots when a cookie has a second \<open>Domain\<close>
  attribute with a leading dot: the dot put before the LAN host for the first one is still there.
\<close>

theorem rewriteLANCookieDomain_double_dot:
  "rewriteLANCookieDomain ''s=1; Domain=.a; Domain=.a'' ''a'' ''b'' = ''s=1; Domain=.b; Domain=..b''"
  by code_simp

end
