(* ===== verification/Lan_Handler.thy ===== *)
theory Lan_Handler
  imports Router_Http
begin

text \<open>
  The LAN side of the router, \<open>internal/router/lan_handler.go\<close> and \<open>lan_trust.go\<close>: the bindings of
  LAN host names, the checks of a TLS handshake, the two LAN handlers and the pages that hand out the
  root certificate.

  \<open>lanRoutes\<close>, \<open>lanTrustSessions\<close> and \<open>lanTrustAttempts\<close> are maps. A check that takes a lock twice
  gets the two maps it saw, so other goroutines may act in between. \<open>currentCAFingerprint\<close> is what
  the configured function returns: no function, an error or a fingerprint. The hash of a certificate
  and its bytes are parameters; the two text documents the trust pages print are constructors.
\<close>

section \<open>Bindings\<close>

text \<open>The chain of a certificate in DER, and \<open>NotAfter\<close> of its parsed leaf if it has one.\<close>

record certificate =
  ce_chain :: "string list"
  ce_leaf :: "time option"

record lan_binding =
  lb_ref :: route_ref
  lb_certificate :: certificate
  lb_ca_fingerprint :: string

type_synonym lan_routes = "string \<Rightarrow> lan_binding option"

record lan_authorization =
  au_hostname :: string
  au_ref :: route_ref
  au_ca_fingerprint :: string

datatype ca_source = NoSource | SourceError | SourceFingerprint string

definition lanCertificateAuthorityFingerprint :: "(string \<Rightarrow> string) \<Rightarrow> certificate \<Rightarrow> string" where
  "lanCertificateAuthorityFingerprint sha certificate =
     (if length (ce_chain certificate) < 2 then '''' else sha (last (ce_chain certificate)))"

definition RegisterLANRoute ::
  "(string \<Rightarrow> string) \<Rightarrow> lan_routes \<Rightarrow> route_ref \<Rightarrow> string \<Rightarrow> certificate
     \<Rightarrow> (router_error, lan_routes) result" where
  "RegisterLANRoute sha m ref raw certificate =
     res_bind (normalizeLANHostname raw) (\<lambda>hostname.
       if ref_id ref = '''' \<or> ref_generation ref = 0 then Inl (ErrMessage ''LAN route identity is required'')
       else if (case m hostname of None \<Rightarrow> False | Some existing \<Rightarrow> lb_ref existing \<noteq> ref)
       then Inl (ErrMessage ''LAN hostname is already registered'')
       else Inr (m(hostname \<mapsto> \<lparr>lb_ref = ref, lb_certificate = certificate,
              lb_ca_fingerprint = lanCertificateAuthorityFingerprint sha certificate\<rparr>)))"

definition replaceLANCertificate ::
  "(string \<Rightarrow> string) \<Rightarrow> lan_routes \<Rightarrow> route_ref \<Rightarrow> string \<Rightarrow> certificate \<Rightarrow> bool \<times> lan_routes" where
  "replaceLANCertificate sha m ref raw certificate =
     (case normalizeLANHostname raw of
        Inl _ \<Rightarrow> (False, m)
      | Inr hostname \<Rightarrow>
          (case m hostname of
             None \<Rightarrow> (False, m)
           | Some binding \<Rightarrow>
               if lb_ref binding \<noteq> ref then (False, m)
               else (True, m(hostname \<mapsto> binding\<lparr>lb_certificate := certificate,
                       lb_ca_fingerprint := lanCertificateAuthorityFingerprint sha certificate\<rparr>))))"

definition RemoveLANRoute :: "lan_routes \<Rightarrow> route_ref \<Rightarrow> lan_routes" where
  "RemoveLANRoute m ref hostname =
     (case m hostname of None \<Rightarrow> None | Some binding \<Rightarrow> if lb_ref binding = ref then None else Some binding)"

definition RemoveLANHostname :: "lan_routes \<Rightarrow> route_ref \<Rightarrow> string \<Rightarrow> lan_routes" where
  "RemoveLANHostname m ref raw =
     (case normalizeLANHostname raw of
        Inl _ \<Rightarrow> m
      | Inr hostname \<Rightarrow>
          (case m hostname of
             None \<Rightarrow> m
           | Some binding \<Rightarrow> if lb_ref binding = ref then m(hostname := None) else m))"

section \<open>Active LAN routes\<close>

definition activeLANShare :: "route \<Rightarrow> string \<Rightarrow> bool" where
  "activeLANShare route hostname =
     (case rt_lan_share route of
        None \<Rightarrow> False
      | Some share \<Rightarrow> ls_state share = LANShareActive \<and> normalizeLANHostname (ls_hostname share) = Inr hostname)"

definition activeLANRoute :: "lan_routes \<Rightarrow> file_store \<Rightarrow> string \<Rightarrow> (router_error, route option) result" where
  "activeLANRoute m store hostname =
     (case m hostname of
        None \<Rightarrow> Inr None
      | Some binding \<Rightarrow>
          res_bind (RouteStore_Load store) (\<lambda>routes.
            case routeRefIndex routes (lb_ref binding) of
              None \<Rightarrow> Inr None
            | Some index \<Rightarrow> if \<not> activeLANShare (routes ! index) hostname then Inr None else Inr (Some (routes ! index))))"

text \<open>
  \<open>revalidateLANTLS\<close>: \<open>m\<close> is the map at the first check, \<open>ca\<close> the source of the fingerprint then,
  \<open>m1\<close> the map \<open>activeLANRoute\<close> reads and \<open>m2\<close> the map at the last check.
\<close>

definition binding_matches :: "lan_routes \<Rightarrow> lan_authorization \<Rightarrow> bool" where
  "binding_matches m authorization =
     (case m (au_hostname authorization) of
        None \<Rightarrow> False
      | Some binding \<Rightarrow> lb_ref binding = au_ref authorization
          \<and> lb_ca_fingerprint binding = au_ca_fingerprint authorization)"

definition revalidateLANTLS ::
  "lan_routes \<Rightarrow> ca_source \<Rightarrow> lan_routes \<Rightarrow> file_store \<Rightarrow> lan_routes \<Rightarrow> lan_authorization
     \<Rightarrow> (router_error, certificate) result" where
  "revalidateLANTLS m ca m1 store m2 authorization =
     (if \<not> binding_matches m authorization then Inl (ErrMessage ''LAN TLS authorization changed'')
      else if ca = SourceError then Inl (ErrMessage ''load current LAN certificate authority'')
      else if (case ca of SourceFingerprint current \<Rightarrow>
                 au_ca_fingerprint authorization = '''' \<or> au_ca_fingerprint authorization \<noteq> current | _ \<Rightarrow> False)
      then Inl (ErrMessage ''stale LAN TLS certificate'')
      else res_bind (activeLANRoute m1 store (au_hostname authorization)) (\<lambda>active.
             case active of
               None \<Rightarrow> Inl (ErrMessage ''inactive LAN TLS hostname'')
             | Some route \<Rightarrow>
                 if Ref route \<noteq> au_ref authorization then Inl (ErrMessage ''inactive LAN TLS hostname'')
                 else if \<not> binding_matches m2 authorization then Inl (ErrMessage ''LAN TLS authorization changed'')
                 else Inr (lb_certificate (the (m2 (au_hostname authorization))))))"

definition authorizeLANTLS ::
  "lan_routes \<Rightarrow> lan_routes \<Rightarrow> ca_source \<Rightarrow> lan_routes \<Rightarrow> file_store \<Rightarrow> lan_routes \<Rightarrow> string
     \<Rightarrow> (router_error, lan_authorization) result" where
  "authorizeLANTLS m0 m ca m1 store m2 rawHostname =
     (if rawHostname = '''' then Inl (ErrMessage ''LAN TLS requires SNI'')
      else res_bind (normalizeLANHostname rawHostname) (\<lambda>hostname.
        case m0 hostname of
          None \<Rightarrow> Inl (ErrMessage ''unknown LAN TLS hostname'')
        | Some binding \<Rightarrow>
            (let authorization = \<lparr>au_hostname = hostname, au_ref = lb_ref binding,
                   au_ca_fingerprint = lb_ca_fingerprint binding\<rparr>
             in res_bind (revalidateLANTLS m ca m1 store m2 authorization) (\<lambda>_. Inr authorization))))"

text \<open>\<open>GetCertificate\<close> of the configuration \<open>LANTLSConfig\<close> selects for an authorized client.\<close>

definition lan_get_certificate ::
  "lan_routes \<Rightarrow> ca_source \<Rightarrow> lan_routes \<Rightarrow> file_store \<Rightarrow> lan_routes \<Rightarrow> lan_authorization \<Rightarrow> string
     \<Rightarrow> (router_error, certificate) result" where
  "lan_get_certificate m ca m1 store m2 authorization serverName =
     res_bind (normalizeLANHostname serverName) (\<lambda>hostname.
       if hostname \<noteq> au_hostname authorization
       then Inl (ErrMessage ''LAN TLS server name no longer matches authorization'')
       else revalidateLANTLS m ca m1 store m2 authorization)"

definition lan_verify_connection ::
  "lan_routes \<Rightarrow> ca_source \<Rightarrow> lan_routes \<Rightarrow> file_store \<Rightarrow> lan_routes \<Rightarrow> lan_authorization \<Rightarrow> string
     \<Rightarrow> (router_error, unit) result" where
  "lan_verify_connection m ca m1 store m2 authorization serverName =
     (if normalizeLANHostname serverName \<noteq> Inr (au_hostname authorization)
      then Inl (ErrMessage ''LAN TLS server name no longer matches authorization'')
      else res_bind (revalidateLANTLS m ca m1 store m2 authorization) (\<lambda>_. Inr ()))"

section \<open>Handlers\<close>

definition not_found :: reply where
  "not_found = http_error 404 ''404 page not found''"

text \<open>A LAN request is answered, or handed to the loopback handler as another request.\<close>

datatype lan_result = Answer reply | Forward http_request

definition LANHandler ::
  "lan_routes \<Rightarrow> rng \<Rightarrow> time \<Rightarrow> file_store \<Rightarrow> http_request \<Rightarrow> string option \<Rightarrow> lan_result \<times> file_store" where
  "LANHandler m rng now s r sni =
     (if hr_path r = RouterIdentityPath \<or> \<not> hr_tls r \<or> sni = None \<or> sni = Some ''''
      then (Answer (http_error 421 ''LAN request requires matching Host and SNI''), s)
      else (case (normalizeLANHostname (hr_host r), normalizeLANHostname (the sni)) of
              (Inr hostname, Inr serverName) \<Rightarrow>
                if hostname \<noteq> serverName then (Answer (http_error 421 ''LAN Host and SNI do not match''), s)
                else (case activeLANRoute m s hostname of
                        Inl _ \<Rightarrow> (Answer (http_error 503 ''LAN route unavailable''), s)
                      | Inr None \<Rightarrow> (Answer not_found, s)
                      | Inr (Some route) \<Rightarrow>
                          (Forward ((withLANProxyContext r hostname (rt_host route))\<lparr>hr_host := rt_host route\<rparr>),
                           snd (MarkLANShareConnected file_update rng s (Ref route) now)))
            | _ \<Rightarrow> (Answer not_found, s)))"

section \<open>Certificate hand-out\<close>

record trust_session =
  ts_address :: string
  ts_token :: string
  ts_hostname :: string
  ts_fingerprint :: string
  ts_ca_fingerprint :: string
  ts_ca_pem :: string

record trust_attempt =
  ta_window :: time
  ta_count :: nat

record trust_state =
  tr_sessions :: "string \<Rightarrow> trust_session option"
  tr_attempts :: "string \<Rightarrow> trust_attempt option"

definition lanTrustRateLimit :: nat where "lanTrustRateLimit = 20"
definition lanTrustRateWindow :: duration where "lanTrustRateWindow = minute"
definition lanTrustPathPrefix :: string where "lanTrustPathPrefix = ''/g/''"
definition legacyLANTrustPathPrefix :: string where "legacyLANTrustPathPrefix = ''/__gohere/trust/''"

definition ConfigureLANTrust :: "trust_state \<Rightarrow> trust_session \<Rightarrow> trust_state" where
  "ConfigureLANTrust t session = t\<lparr>tr_sessions := (tr_sessions t)(ts_token session \<mapsto> session)\<rparr>"

definition ClearLANTrust :: "trust_state \<Rightarrow> string list \<Rightarrow> trust_state" where
  "ClearLANTrust t tokens =
     (if tokens = [] then \<lparr>tr_sessions = \<lambda>_. None, tr_attempts = \<lambda>_. None\<rparr>
      else t\<lparr>tr_sessions := (\<lambda>token. if token \<in> set tokens then None else tr_sessions t token)\<rparr>)"

definition currentLANTrustSession :: "ca_source \<Rightarrow> trust_session \<Rightarrow> bool" where
  "currentLANTrustSession ca session =
     (case ca of
        NoSource \<Rightarrow> True
      | SourceError \<Rightarrow> False
      | SourceFingerprint current \<Rightarrow> ts_ca_fingerprint session \<noteq> '''' \<and> ts_ca_fingerprint session = current)"

definition rateLimitedLANTrust :: "trust_state \<Rightarrow> string \<Rightarrow> time \<Rightarrow> bool \<times> trust_state" where
  "rateLimitedLANTrust t client now =
     (let attempt = (case tr_attempts t client of Some a \<Rightarrow> a | None \<Rightarrow> \<lparr>ta_window = 0, ta_count = 0\<rparr>);
          attempt = (if is_zero_time (ta_window attempt) \<or> now - ta_window attempt \<ge> lanTrustRateWindow
                     then \<lparr>ta_window = now, ta_count = 0\<rparr> else attempt)
      in if ta_count attempt \<ge> lanTrustRateLimit then (True, t)
         else (False, t\<lparr>tr_attempts := (tr_attempts t)(client \<mapsto> attempt\<lparr>ta_count := Suc (ta_count attempt)\<rparr>)\<rparr>))"

datatype trust_reply = TrustError reply | TrustPage trust_session | TrustPEM string | TrustProfile trust_session

definition trust_document :: "trust_session \<Rightarrow> string list \<Rightarrow> trust_reply" where
  "trust_document session parts =
     (case parts of
        [token] \<Rightarrow> if token \<noteq> '''' then TrustPage session else TrustError not_found
      | [token, file] \<Rightarrow>
          if file = ''gohere-root.pem'' then TrustPEM (ts_ca_pem session)
          else if file = ''gohere.mobileconfig'' then TrustProfile session
          else TrustError not_found
      | _ \<Rightarrow> TrustError not_found)"

definition trust_prefix :: "string \<Rightarrow> string option" where
  "trust_prefix path =
     (if has_prefix path lanTrustPathPrefix then Some lanTrustPathPrefix
      else if has_prefix path legacyLANTrustPathPrefix then Some legacyLANTrustPathPrefix
      else None)"

text \<open>\<open>serveLANTrust\<close>; the first component is \<open>None\<close> when it returns false.\<close>

definition serveLANTrust ::
  "ca_source \<Rightarrow> time \<Rightarrow> trust_state \<Rightarrow> http_request \<Rightarrow> trust_reply option \<times> trust_state" where
  "serveLANTrust ca now t r =
     (case trust_prefix (hr_path r) of
        None \<Rightarrow> (None, t)
      | Some pathPrefix \<Rightarrow>
          if hr_method r \<noteq> ''GET'' then (Some (TrustError (http_error 405 ''method not allowed'')), t)
          else
            (let host = (case splitHostPort (hr_host r) of Some (parsed, _) \<Rightarrow> parsed | None \<Rightarrow> hr_host r);
                 parts = split_on CHR ''/'' (trim_prefix (hr_path r) pathPrefix);
                 client = (case splitHostPort (hr_remote_addr r) of Some (c, _) \<Rightarrow> c | None \<Rightarrow> '''');
                 client = (if client = '''' then hr_remote_addr r else client)
             in case tr_sessions t (hd parts) of
                  Some session \<Rightarrow>
                    if host = ts_address session then
                      (if \<not> currentLANTrustSession ca session
                       then (Some (TrustError not_found), ClearLANTrust t [ts_token session])
                       else (Some (trust_document session parts), t))
                    else (case rateLimitedLANTrust t client now of
                            (True, t') \<Rightarrow> (Some (TrustError (http_error 429 ''too many setup attempts'')), t')
                          | (False, t') \<Rightarrow> (Some (TrustError not_found), t'))
                | None \<Rightarrow>
                    (case rateLimitedLANTrust t client now of
                       (True, t') \<Rightarrow> (Some (TrustError (http_error 429 ''too many setup attempts'')), t')
                     | (False, t') \<Rightarrow> (Some (TrustError not_found), t'))))"

text \<open>\<open>LANHTTPHandler\<close>: the trust pages, or a permanent redirect of an active host to https.\<close>

definition LANHTTPHandler ::
  "(http_request \<Rightarrow> string) \<Rightarrow> ca_source \<Rightarrow> time \<Rightarrow> lan_routes \<Rightarrow> file_store \<Rightarrow> trust_state \<Rightarrow> http_request
     \<Rightarrow> trust_reply \<times> trust_state" where
  "LANHTTPHandler request_uri ca now m s t r =
     (case serveLANTrust ca now t r of
        (Some reply, t') \<Rightarrow> (reply, t')
      | (None, t') \<Rightarrow>
          (case normalizeLANHostname (hr_host r) of
             Inl _ \<Rightarrow> (TrustError not_found, t')
           | Inr hostname \<Rightarrow>
               (case activeLANRoute m s hostname of
                  Inl _ \<Rightarrow> (TrustError (http_error 503 ''LAN route unavailable''), t')
                | Inr None \<Rightarrow> (TrustError not_found, t')
                | Inr (Some _) \<Rightarrow>
                    (let location = ''https://'' @ trim_suffix hostname ''.'' @ request_uri r
                     in (TrustError (Reply 308 [(''Location'', location)] (RedirectBody location)), t')))))"

section \<open>Lemmas\<close>

lemma activeLANRoute_Some:
  assumes "activeLANRoute m store hostname = Inr (Some route)"
  shows "\<exists>binding routes. m hostname = Some binding \<and> RouteStore_Load store = Inr routes \<and> route \<in> set routes \<and>
    Ref route = lb_ref binding \<and> activeLANShare route hostname"
proof -
  from assms obtain binding routes i where b: "m hostname = Some binding" and l: "RouteStore_Load store = Inr routes"
    and i: "routeRefIndex routes (lb_ref binding) = Some i" and r: "route = routes ! i" "activeLANShare route hostname"
    by (auto simp: activeLANRoute_def res_bind_Inr_iff split: option.splits if_splits)
  with routeRefIndex_Some [OF i] show ?thesis by auto
qed

lemma revalidateLANTLS_ok:
  assumes "revalidateLANTLS m ca m1 store m2 authorization = Inr cert"
  shows "(\<exists>binding. m2 (au_hostname authorization) = Some binding \<and> cert = lb_certificate binding \<and>
      lb_ref binding = au_ref authorization \<and> lb_ca_fingerprint binding = au_ca_fingerprint authorization) \<and>
    (ca = NoSource \<or> ca = SourceFingerprint (au_ca_fingerprint authorization)) \<and>
    (\<exists>routes route. RouteStore_Load store = Inr routes \<and> route \<in> set routes \<and> Ref route = au_ref authorization \<and>
      activeLANShare route (au_hostname authorization))"
proof -
  from assms obtain route where a: "activeLANRoute m1 store (au_hostname authorization) = Inr (Some route)"
    and r: "Ref route = au_ref authorization" "binding_matches m2 authorization"
      "cert = lb_certificate (the (m2 (au_hostname authorization)))"
    and ca: "ca = NoSource \<or> ca = SourceFingerprint (au_ca_fingerprint authorization)"
    by (cases ca) (auto simp: revalidateLANTLS_def res_bind_Inr_iff split: if_splits option.splits)
  from activeLANRoute_Some [OF a] r ca show ?thesis
    by (auto simp: binding_matches_def split: option.splits)
qed

lemma RegisterLANRoute_ok:
  assumes "RegisterLANRoute sha m ref raw certificate = Inr m'"
  obtains hostname where "normalizeLANHostname raw = Inr hostname"
    "m' = m(hostname \<mapsto> \<lparr>lb_ref = ref, lb_certificate = certificate,
       lb_ca_fingerprint = lanCertificateAuthorityFingerprint sha certificate\<rparr>)"
    "\<And>b. m hostname = Some b \<Longrightarrow> lb_ref b = ref"
  using assms by (auto simp: RegisterLANRoute_def res_bind_Inr_iff split: if_splits option.splits)

subsection \<open>The rate limit\<close>

fun trust_attempts :: "trust_state \<Rightarrow> (string \<times> time) list \<Rightarrow> bool list" where
  "trust_attempts t [] = []"
| "trust_attempts t ((client, now) # rest) =
     (case rateLimitedLANTrust t client now of (limited, t') \<Rightarrow> limited # trust_attempts t' rest)"

text \<open>How many attempts of a client were answered, not limited.\<close>

fun answered :: "string \<Rightarrow> (string \<times> time) list \<Rightarrow> bool list \<Rightarrow> nat" where
  "answered c ((client, now) # rest) (limited # flags) =
     (if client = c \<and> \<not> limited then 1 else 0) + answered c rest flags"
| "answered c _ _ = 0"

definition used :: "trust_state \<Rightarrow> string \<Rightarrow> nat" where
  "used t c = (case tr_attempts t c of None \<Rightarrow> 0 | Some a \<Rightarrow> ta_count a)"

definition in_window :: "time \<Rightarrow> trust_state \<Rightarrow> string \<Rightarrow> bool" where
  "in_window t0 t c \<longleftrightarrow> (\<forall>a. tr_attempts t c = Some a \<longrightarrow> t0 \<le> ta_window a \<and> ta_count a \<le> lanTrustRateLimit)"

lemma rateLimited_other:
  "rateLimitedLANTrust t client now = (limited, t') \<Longrightarrow> client \<noteq> c \<Longrightarrow> tr_attempts t' c = tr_attempts t c"
  by (auto simp: rateLimitedLANTrust_def Let_def split: if_splits)

lemma rateLimited_same:
  assumes "rateLimitedLANTrust t c now = (limited, t')" "in_window t0 t c" "0 < t0" "t0 \<le> now" "now < t0 + lanTrustRateWindow"
  shows "in_window t0 t' c" and "used t' c = used t c + (if limited then 0 else 1)" and "\<not> limited \<Longrightarrow> used t c < lanTrustRateLimit"
  using assms
  by (cases "tr_attempts t c";
      auto simp: rateLimitedLANTrust_def Let_def in_window_def used_def lanTrustRateWindow_def lanTrustRateLimit_def
        split: if_splits)+

lemma answered_bound:
  "in_window t0 t c \<Longrightarrow> 0 < t0 \<Longrightarrow>
     \<forall>(client, now) \<in> set reqs. client = c \<longrightarrow> t0 \<le> now \<and> now < t0 + lanTrustRateWindow \<Longrightarrow>
     used t c + answered c reqs (trust_attempts t reqs) \<le> lanTrustRateLimit"
proof (induction reqs arbitrary: t)
  case Nil
  then show ?case by (auto simp: used_def in_window_def split: option.splits)
next
  case (Cons req reqs)
  obtain client now where req: "req = (client, now)" by (cases req)
  obtain limited t' where step: "rateLimitedLANTrust t client now = (limited, t')" by (cases "rateLimitedLANTrust t client now")
  show ?case
  proof (cases "client = c")
    case True
    note s = rateLimited_same [OF step [unfolded True] Cons.prems(1,2)]
    have "t0 \<le> now" "now < t0 + lanTrustRateWindow" using Cons.prems(3) req True by auto
    with Cons.IH [of t'] s Cons.prems(2,3) step req True show ?thesis by auto
  next
    case False
    then have "tr_attempts t' c = tr_attempts t c" by (rule rateLimited_other [OF step])
    with Cons.IH [of t'] Cons.prems step req False show ?thesis by (auto simp: in_window_def used_def)
  qed
qed

section \<open>Properties\<close>

text \<open>
  A certificate leaves the LAN TLS listener only for a server name that normalizes to the
  authorized host name, whose binding is still the authorized one, under the current certificate
  authority, and while the route of the binding has an active LAN share of that name.
\<close>

theorem lan_get_certificate_safe:
  "case lan_get_certificate m ca m1 store m2 authorization serverName of
     Inl _ \<Rightarrow> True
   | Inr cert \<Rightarrow>
       normalizeLANHostname serverName = Inr (au_hostname authorization) \<and>
       (\<exists>binding. m2 (au_hostname authorization) = Some binding \<and> cert = lb_certificate binding \<and>
          lb_ref binding = au_ref authorization \<and> lb_ca_fingerprint binding = au_ca_fingerprint authorization) \<and>
       (ca = NoSource \<or> ca = SourceFingerprint (au_ca_fingerprint authorization)) \<and>
       (\<exists>routes route. RouteStore_Load store = Inr routes \<and> route \<in> set routes \<and> Ref route = au_ref authorization \<and>
          activeLANShare route (au_hostname authorization))"
proof (cases "lan_get_certificate m ca m1 store m2 authorization serverName")
  case (Inr cert)
  then have "normalizeLANHostname serverName = Inr (au_hostname authorization)"
    and "revalidateLANTLS m ca m1 store m2 authorization = Inr cert"
    by (auto simp: lan_get_certificate_def res_bind_Inr_iff split: if_splits)
  with revalidateLANTLS_ok Inr show ?thesis by simp
qed simp

text \<open>
  \<open>LANHandler\<close> forwards a request only when its Host and its TLS server name normalize to
  the same LAN host name and that name is bound to a route of the table with an active LAN share
  of the name. The forwarded request carries the host of that route, and the store changed at most
  by \<open>MarkLANShareConnected\<close> for it; a refused request leaves the store alone.
\<close>

theorem LANHandler_forwards_only:
  "case LANHandler m rng now s r sni of
     (Answer reply, s') \<Rightarrow> s' = s
   | (Forward r', s') \<Rightarrow>
       (\<exists>hostname serverName route routes binding. sni = Some serverName \<and> hr_tls r \<and>
          normalizeLANHostname (hr_host r) = Inr hostname \<and> normalizeLANHostname serverName = Inr hostname \<and>
          m hostname = Some binding \<and> RouteStore_Load s = Inr routes \<and> route \<in> set routes \<and>
          Ref route = lb_ref binding \<and> activeLANShare route hostname \<and> hr_host r' = rt_host route \<and>
          s' = snd (MarkLANShareConnected file_update rng s (Ref route) now))"
proof (cases "LANHandler m rng now s r sni")
  case (Pair result s')
  show ?thesis
  proof (cases result)
    case (Answer reply)
    with Pair show ?thesis by (auto simp: LANHandler_def split: if_splits sum.splits option.splits)
  next
    case (Forward r')
    with Pair obtain hostname serverName route where sni: "sni = Some serverName" "hr_tls r"
      and n: "normalizeLANHostname (hr_host r) = Inr hostname" "normalizeLANHostname serverName = Inr hostname"
      and a: "activeLANRoute m s hostname = Inr (Some route)"
      and r': "hr_host r' = rt_host route" "s' = snd (MarkLANShareConnected file_update rng s (Ref route) now)"
      by (auto simp: LANHandler_def split: if_splits sum.splits option.splits)
    with activeLANRoute_Some [OF a] Pair Forward show ?thesis by auto
  qed
qed

text \<open>
  A bound LAN host name is never taken over by another route: \<open>RegisterLANRoute\<close> and
  \<open>replaceLANCertificate\<close> keep the reference of every binding there is, and bind under normalized
  names only.
\<close>

theorem bindings_kept:
  "(case RegisterLANRoute sha m ref raw certificate of
      Inl _ \<Rightarrow> True
    | Inr m' \<Rightarrow> (\<exists>hostname. normalizeLANHostname raw = Inr hostname \<and> (\<forall>h. h = hostname \<or> m' h = m h)) \<and>
        (\<forall>h. m h = None \<or> map_option lb_ref (m' h) = map_option lb_ref (m h))) \<and>
   (\<forall>h. map_option lb_ref (snd (replaceLANCertificate sha m ref raw certificate) h) = map_option lb_ref (m h))"
proof
  show "case RegisterLANRoute sha m ref raw certificate of
      Inl _ \<Rightarrow> True
    | Inr m' \<Rightarrow> (\<exists>hostname. normalizeLANHostname raw = Inr hostname \<and> (\<forall>h. h = hostname \<or> m' h = m h)) \<and>
        (\<forall>h. m h = None \<or> map_option lb_ref (m' h) = map_option lb_ref (m h))"
  proof (cases "RegisterLANRoute sha m ref raw certificate")
    case (Inr m')
    then show ?thesis by (rule RegisterLANRoute_ok, cases "m (projr (normalizeLANHostname raw))") (use Inr in auto)
  qed simp
  show "\<forall>h. map_option lb_ref (snd (replaceLANCertificate sha m ref raw certificate) h) = map_option lb_ref (m h)"
    by (auto simp: replaceLANCertificate_def split: sum.splits option.splits)
qed



end
