(* ===== verification/Local_Tls.thy ===== *)
theory Local_Tls
  imports Lan_Handler
begin

text \<open>
  TLS for the loopback router, \<open>internal/router/local_tls.go\<close>: which server name may get a
  certificate, and the cache of issued certificates, a hash map of list elements over a doubly
  linked list in order of use.

  The model keeps both halves of the cache: \<open>tc_lru\<close> is \<open>container/list\<close>, front first, each element
  with its address, and \<open>tc_entries\<close> maps a key to the address of its element. The abstract cache is
  the list of entries; \<open>get\<close> and \<open>put\<close> are shown to refine lookup and bounded insertion on it.

  What a check reads (the routes file, the certificate authority, the clock) may change between the
  checks of one handshake, so each check gets the world it sees. \<open>net.ParseIP\<close>, SHA-256 and the
  issuer of certificates are parameters.
\<close>

section \<open>Server names\<close>

definition sni_label_ok :: "string \<Rightarrow> bool" where
  "sni_label_ok label \<longleftrightarrow> label \<noteq> [] \<and> length label \<le> 63 \<and> hd label \<noteq> CHR ''-'' \<and> last label \<noteq> CHR ''-''
     \<and> list_all lan_label_char label"

definition normalizeLocalSNI :: "net_env \<Rightarrow> string \<Rightarrow> (router_error, string) result" where
  "normalizeLocalSNI net raw =
     (let host = trim_suffix (to_lower (trim_space raw)) ''.'' in
      if host = '''' \<or> contains host '':'' \<or> net_parse_ip net host \<noteq> None then Inl (ErrMessage ''invalid localhost SNI'')
      else if host \<noteq> ''localhost'' \<and> \<not> has_suffix host ''.localhost'' then Inl (ErrMessage ''invalid localhost SNI'')
      else if length host > 253 then Inl (ErrMessage ''invalid localhost SNI'')
      else if \<not> list_all sni_label_ok (split_on CHR ''.'' host) then Inl (ErrMessage ''invalid localhost SNI'')
      else Inr host)"

section \<open>Authorization\<close>

datatype tls_kind = TlsIdentityDiagnostic | TlsIdentityRoute

record tls_key =
  tk_kind :: tls_kind
  tk_host :: string
  tk_route_id :: string
  tk_generation :: nat
  tk_ca_fingerprint :: string

text \<open>What one check sees; the certificate authority is its raw certificate, \<open>None\<close> a load error.\<close>

record tls_world =
  tw_store :: file_store
  tw_ca :: "string option"
  tw_now :: time

record tls_lib =
  tl_net :: net_env
  tl_sha256_hex :: "string \<Rightarrow> string"
  tl_issue :: "string \<Rightarrow> string \<Rightarrow> time \<Rightarrow> certificate option"

definition certificateAuthorityFingerprint :: "tls_lib \<Rightarrow> string \<Rightarrow> (router_error, string) result" where
  "certificateAuthorityFingerprint lib ca =
     (if ca = '''' then Inl (ErrMessage ''HTTPS certificate authority is incomplete'')
      else Inr (tl_sha256_hex lib ca))"

definition route_tls_key ::
  "string \<Rightarrow> string \<Rightarrow> time \<Rightarrow> route \<Rightarrow> (router_error, tls_key) result" where
  "route_tls_key host caFingerprint now route =
     (if rt_id route = '''' \<or> rt_generation route = 0 then Inl (ErrMessage ''TLS route has no stable identity'')
      else (let key = \<lparr>tk_kind = TlsIdentityRoute, tk_host = host, tk_route_id = rt_id route,
                  tk_generation = rt_generation route, tk_ca_fingerprint = caFingerprint\<rparr>
            in case EffectiveState route of
                 RouteStatePending \<Rightarrow>
                   if RouteReservationExpired route now then Inl (ErrMessage ''TLS route reservation expired'') else Inr key
               | RouteStateActive \<Rightarrow>
                   if RouteLeaseExpired route now then Inl (ErrMessage ''TLS route lease expired'') else Inr key
               | _ \<Rightarrow> Inl (ErrMessage ''TLS route is not currently owned'')))"

definition authorize :: "tls_lib \<Rightarrow> tls_world \<Rightarrow> string \<Rightarrow> (router_error, tls_key \<times> string) result" where
  "authorize lib w rawHost =
     res_bind (normalizeLocalSNI (tl_net lib) rawHost) (\<lambda>host.
       case tw_ca w of
         None \<Rightarrow> Inl (ErrMessage ''HTTPS certificate authority is unavailable; run gohere setup'')
       | Some ca \<Rightarrow>
           res_bind (certificateAuthorityFingerprint lib ca) (\<lambda>caFingerprint.
             if host = ''localhost'' then
               Inr (\<lparr>tk_kind = TlsIdentityDiagnostic, tk_host = host, tk_route_id = '''', tk_generation = 0,
                     tk_ca_fingerprint = caFingerprint\<rparr>, ca)
             else res_bind (routeForHost (tw_store w) host) (\<lambda>found.
               case found of
                 None \<Rightarrow> Inl (ErrMessage ''no current route owns TLS hostname'')
               | Some route \<Rightarrow> res_bind (route_tls_key host caFingerprint (tw_now w) route) (\<lambda>key. Inr (key, ca)))))"

definition revalidate :: "tls_lib \<Rightarrow> tls_world \<Rightarrow> tls_key \<Rightarrow> (router_error, unit) result" where
  "revalidate lib w want =
     res_bind (authorize lib w (tk_host want)) (\<lambda>(got, _).
       if got \<noteq> want then Inl (ErrMessage ''TLS authorization changed'') else Inr ())"

definition kind_code :: "tls_kind \<Rightarrow> nat" where
  "kind_code k = (case k of TlsIdentityDiagnostic \<Rightarrow> 1 | TlsIdentityRoute \<Rightarrow> 2)"

definition NUL :: char where "NUL = CHR 0x00"

definition singleflightKey :: "tls_key \<Rightarrow> string" where
  "singleflightKey key = nat_digits (kind_code (tk_kind key)) @ [NUL] @ tk_host key @ [NUL] @ tk_route_id key @ [NUL]
     @ nat_digits (tk_generation key) @ [NUL] @ tk_ca_fingerprint key"

section \<open>The cache\<close>

record cache_entry =
  en_key :: tls_key
  en_cert :: certificate
  en_expires_at :: time

record tls_cache =
  tc_entries :: "tls_key \<Rightarrow> nat option"
  tc_lru :: "(nat \<times> cache_entry) list"
  tc_capacity :: nat
  tc_ttl :: duration

definition newLocalTLSCache :: "nat \<Rightarrow> duration \<Rightarrow> tls_cache" where
  "newLocalTLSCache capacity ttl = \<lparr>tc_entries = \<lambda>_. None, tc_lru = [], tc_capacity = capacity, tc_ttl = ttl\<rparr>"

definition localTLSCacheCapacity :: nat where "localTLSCacheCapacity = 128"
definition localTLSCacheTTL :: duration where "localTLSCacheTTL = 60 * minute"

text \<open>The list operations: the value at an address, \<open>Remove\<close>, \<open>MoveToFront\<close> and \<open>PushFront\<close>.\<close>

definition lru_value :: "(nat \<times> cache_entry) list \<Rightarrow> nat \<Rightarrow> cache_entry" where
  "lru_value l a = the (map_of l a)"

definition lru_remove :: "(nat \<times> cache_entry) list \<Rightarrow> nat \<Rightarrow> (nat \<times> cache_entry) list" where
  "lru_remove l a = filter (\<lambda>(b, _). b \<noteq> a) l"

definition lru_front :: "(nat \<times> cache_entry) list \<Rightarrow> nat \<Rightarrow> (nat \<times> cache_entry) list" where
  "lru_front l a = (a, lru_value l a) # lru_remove l a"

text \<open>An address no element has, which \<open>PushFront\<close> allocates.\<close>

definition fresh_address :: "(nat \<times> cache_entry) list \<Rightarrow> nat" where
  "fresh_address l = Suc (foldr (max \<circ> fst) l 0)"

definition cache_remove :: "tls_cache \<Rightarrow> nat \<Rightarrow> tls_cache" where
  "cache_remove c a =
     c\<lparr>tc_entries := (tc_entries c)(en_key (lru_value (tc_lru c) a) := None), tc_lru := lru_remove (tc_lru c) a\<rparr>"

definition cache_get :: "time \<Rightarrow> tls_cache \<Rightarrow> tls_key \<Rightarrow> certificate option \<times> tls_cache" where
  "cache_get now c key =
     (case tc_entries c key of
        None \<Rightarrow> (None, c)
      | Some a \<Rightarrow>
          (let entry = lru_value (tc_lru c) a in
           if \<not> now < en_expires_at entry then (None, cache_remove c a)
           else (Some (en_cert entry), c\<lparr>tc_lru := lru_front (tc_lru c) a\<rparr>)))"

text \<open>The loop at the end of \<open>put\<close>.\<close>

function cache_evict :: "tls_cache \<Rightarrow> tls_cache" where
  "cache_evict c =
     (if tc_capacity c < length (tc_lru c) then cache_evict (cache_remove c (fst (last (tc_lru c)))) else c)"
  by pat_completeness auto

definition entry_expiry :: "time \<Rightarrow> duration \<Rightarrow> certificate \<Rightarrow> time" where
  "entry_expiry now ttl cert =
     (let expiresAt = now + ttl
      in case ce_leaf cert of
           Some notAfter \<Rightarrow> if notAfter < expiresAt then notAfter else expiresAt
         | None \<Rightarrow> expiresAt)"

definition cache_put :: "time \<Rightarrow> tls_cache \<Rightarrow> tls_key \<Rightarrow> certificate \<Rightarrow> tls_cache" where
  "cache_put now c key cert =
     (let entry = \<lparr>en_key = key, en_cert = cert, en_expires_at = entry_expiry now (tc_ttl c) cert\<rparr> in
      case tc_entries c key of
        Some a \<Rightarrow>
          c\<lparr>tc_lru := (a, (lru_value (tc_lru c) a)\<lparr>en_cert := cert, en_expires_at := en_expires_at entry\<rparr>)
             # lru_remove (tc_lru c) a\<rparr>
      | None \<Rightarrow>
          (let a = fresh_address (tc_lru c)
           in cache_evict (c\<lparr>tc_entries := (tc_entries c)(key \<mapsto> a), tc_lru := (a, entry) # tc_lru c\<rparr>)))"

termination cache_evict
proof (relation "measure (length \<circ> tc_lru)")
  fix c :: tls_cache
  assume "tc_capacity c < length (tc_lru c)"
  then have "tc_lru c \<noteq> []" by auto
  then have "last (tc_lru c) \<in> set (tc_lru c)" by simp
  then have "length (filter (\<lambda>(b, _). b \<noteq> fst (last (tc_lru c))) (tc_lru c)) < length (tc_lru c)"
    by (intro length_filter_less) auto
  then show "(cache_remove c (fst (last (tc_lru c))), c) \<in> measure (length \<circ> tc_lru)"
    by (simp add: cache_remove_def lru_remove_def)
qed simp

declare cache_evict.simps [simp del]

section \<open>A certificate for a handshake\<close>

text \<open>
  \<open>certificateFor\<close>: the worlds are those of its four checks in order, \<open>now1\<close> and \<open>now2\<close> the
  clock of the two cache reads and of the write. The flight group runs the inner function once for
  the goroutines that ask for the same key at the same time; this is the goroutine that runs it.
\<close>

definition certificateFor ::
  "tls_lib \<Rightarrow> tls_world \<Rightarrow> tls_world \<Rightarrow> tls_world \<Rightarrow> tls_world \<Rightarrow> time \<Rightarrow> tls_cache \<Rightarrow> string \<Rightarrow> tls_key \<Rightarrow> string
     \<Rightarrow> (router_error, certificate) result \<times> tls_cache" where
  "certificateFor lib w1 w2 w3 w4 now c serverName key ca =
     (if normalizeLocalSNI (tl_net lib) serverName \<noteq> Inr (tk_host key)
      then (Inl (ErrMessage ''TLS server name no longer matches authorization''), c)
      else (case revalidate lib w1 key of
              Inl e \<Rightarrow> (Inl e, c)
            | Inr _ \<Rightarrow>
                (case cache_get now c key of
                   (Some cert, c) \<Rightarrow> (Inr cert, c)
                 | (None, c) \<Rightarrow>
                     (case revalidate lib w2 key of
                        Inl e \<Rightarrow> (Inl e, c)
                      | Inr _ \<Rightarrow>
                          (case cache_get now c key of
                             (Some cert, c) \<Rightarrow>
                               (case revalidate lib w4 key of Inl e \<Rightarrow> (Inl e, c) | Inr _ \<Rightarrow> (Inr cert, c))
                           | (None, c) \<Rightarrow>
                               (case tl_issue lib ca (tk_host key) (tw_now w2) of
                                  None \<Rightarrow> (Inl (ErrMessage ''issue''), c)
                                | Some cert \<Rightarrow>
                                    (case revalidate lib w3 key of
                                       Inl e \<Rightarrow> (Inl e, c)
                                     | Inr _ \<Rightarrow>
                                         (let c = cache_put now c key cert
                                          in case revalidate lib w4 key of
                                               Inl e \<Rightarrow> (Inl e, c) | Inr _ \<Rightarrow> (Inr cert, c)))))))))"

text \<open>\<open>VerifyConnection\<close> of the selected configuration, before the base verifier.\<close>

definition local_verify_connection :: "tls_lib \<Rightarrow> tls_world \<Rightarrow> tls_key \<Rightarrow> string \<Rightarrow> (router_error, unit) result" where
  "local_verify_connection lib w key serverName =
     (if normalizeLocalSNI (tl_net lib) serverName \<noteq> Inr (tk_host key)
      then Inl (ErrMessage ''TLS server name no longer matches authorization'')
      else revalidate lib w key)"

section \<open>The abstract cache\<close>

definition spec_get :: "time \<Rightarrow> tls_key \<Rightarrow> cache_entry list \<Rightarrow> certificate option \<times> cache_entry list" where
  "spec_get now key l =
     (case find (\<lambda>e. en_key e = key) l of
        None \<Rightarrow> (None, l)
      | Some e \<Rightarrow>
          if now < en_expires_at e then (Some (en_cert e), e # filter (\<lambda>e. en_key e \<noteq> key) l)
          else (None, filter (\<lambda>e. en_key e \<noteq> key) l))"

definition spec_put :: "time \<Rightarrow> duration \<Rightarrow> nat \<Rightarrow> tls_key \<Rightarrow> certificate \<Rightarrow> cache_entry list \<Rightarrow> cache_entry list" where
  "spec_put now ttl capacity key cert l =
     take capacity (\<lparr>en_key = key, en_cert = cert, en_expires_at = entry_expiry now ttl cert\<rparr>
       # filter (\<lambda>e. en_key e \<noteq> key) l)"

definition cache_abs :: "tls_cache \<Rightarrow> cache_entry list" where
  "cache_abs c = map snd (tc_lru c)"

text \<open>The map and the list describe the same elements, one per key, no more than the capacity.\<close>

definition linked :: "tls_cache \<Rightarrow> bool" where
  "linked c \<longleftrightarrow> distinct (map fst (tc_lru c)) \<and> distinct (map (en_key \<circ> snd) (tc_lru c)) \<and>
     (\<forall>k a. tc_entries c k = Some a \<longleftrightarrow> (\<exists>e. (a, e) \<in> set (tc_lru c) \<and> en_key e = k))"

definition cache_ok :: "tls_cache \<Rightarrow> bool" where
  "cache_ok c \<longleftrightarrow> linked c \<and> length (tc_lru c) \<le> tc_capacity c"

lemma linked_find:
  assumes "linked c"
  shows "tc_entries c key = None \<Longrightarrow> find (\<lambda>e. en_key e = key) (cache_abs c) = None"
    and "tc_entries c key = Some a \<Longrightarrow> find (\<lambda>e. en_key e = key) (cache_abs c) = Some (lru_value (tc_lru c) a)
      \<and> (a, lru_value (tc_lru c) a) \<in> set (tc_lru c) \<and> en_key (lru_value (tc_lru c) a) = key"
proof -
  show "find (\<lambda>e. en_key e = key) (cache_abs c) = None" if n: "tc_entries c key = None"
  proof -
    have "\<not> (\<exists>e. (a, e) \<in> set (tc_lru c) \<and> en_key e = key)" for a
      using assms n by (metis linked_def option.distinct(1))
    then show ?thesis by (fastforce simp: find_None_iff cache_abs_def)
  qed
  assume s: "tc_entries c key = Some a"
  then obtain e where e: "(a, e) \<in> set (tc_lru c)" "en_key e = key" using assms by (auto simp: linked_def)
  have v: "lru_value (tc_lru c) a = e"
    using e(1) assms by (simp add: lru_value_def linked_def)
  have "find (\<lambda>e. en_key e = key) (cache_abs c) \<noteq> None"
    using e unfolding find_None_iff cache_abs_def by force
  then obtain e' where f: "find (\<lambda>e. en_key e = key) (cache_abs c) = Some e'" by auto
  then have "e' \<in> snd ` set (tc_lru c)" "en_key e' = key" by (auto simp: find_Some_iff cache_abs_def)
  moreover have "inj_on (en_key \<circ> snd) (set (tc_lru c))" using assms by (simp add: linked_def distinct_map)
  ultimately have "e' = e" using e by (auto simp: inj_on_def)
  with f v e show "find (\<lambda>e. en_key e = key) (cache_abs c) = Some (lru_value (tc_lru c) a)
      \<and> (a, lru_value (tc_lru c) a) \<in> set (tc_lru c) \<and> en_key (lru_value (tc_lru c) a) = key" by simp
qed

text \<open>Removing an element by address is removing its key from the list of entries.\<close>

lemma linked_remove:
  assumes "linked c" "(a, e) \<in> set (tc_lru c)"
  shows "map snd (lru_remove (tc_lru c) a) = filter (\<lambda>x. en_key x \<noteq> en_key e) (cache_abs c)"
    and "linked (cache_remove c a)" and "lru_value (tc_lru c) a = e"
proof -
  show v: "lru_value (tc_lru c) a = e" using assms by (simp add: lru_value_def linked_def)
  have same: "b \<noteq> a \<longleftrightarrow> en_key x \<noteq> en_key e" if "(b, x) \<in> set (tc_lru c)" for b x
    using assms that unfolding linked_def distinct_map inj_on_def
    by (metis comp_apply eq_key_imp_eq_value fst_conv map_of_eq_Some_iff option.inject snd_conv)
  have one: "en_key x = en_key e" if "(a, x) \<in> set (tc_lru c)" for x using same [OF that] by simp
  have "filter (\<lambda>(b, _). b \<noteq> a) (tc_lru c) = filter (\<lambda>p. en_key (snd p) \<noteq> en_key e) (tc_lru c)"
    by (rule filter_cong [OF refl]) (use same in \<open>auto dest: one\<close>)
  then show "map snd (lru_remove (tc_lru c) a) = filter (\<lambda>x. en_key x \<noteq> en_key e) (cache_abs c)"
    by (simp add: lru_remove_def cache_abs_def filter_map comp_def)
  show "linked (cache_remove c a)"
    using assms(1) same v
    by (auto simp: linked_def cache_remove_def lru_remove_def distinct_map_filter comp_def split: if_splits dest: one)
qed

lemma fresh_address_new: "fresh_address l \<notin> fst ` set l"
proof -
  have "a \<le> foldr (max \<circ> fst) l 0" if "a \<in> fst ` set l" for a
    using that by (induction l) (auto simp: le_max_iff_disj)
  then show ?thesis by (force simp: fresh_address_def)
qed

lemma evict_abs:
  "linked c \<Longrightarrow> cache_abs (cache_evict c) = take (tc_capacity c) (cache_abs c) \<and> linked (cache_evict c)
     \<and> tc_capacity (cache_evict c) = tc_capacity c"
proof (induction c rule: cache_evict.induct)
  case (1 c)
  show ?case
  proof (cases "tc_capacity c < length (tc_lru c)")
    case True
    define l where "l = tc_lru c"
    then have ne: "l \<noteq> []" using True by auto
    obtain a e where ae: "last l = (a, e)" by (cases "last l")
    have l: "l = butlast l @ [(a, e)]" using ne ae by (metis append_butlast_last_id)
    have mem: "(a, e) \<in> set (tc_lru c)" using l l_def by (metis in_set_conv_decomp)
    have "distinct (map fst (butlast l @ [(a, e)]))"
      using "1.prems" l by (simp only: linked_def l_def [symmetric])
    then have "a \<notin> fst ` set (butlast l)" by simp
    then have "filter (\<lambda>(b, _). b \<noteq> a) (butlast l @ [(a, e)]) = butlast l" by (force simp: filter_id_conv)
    then have rem: "lru_remove l a = butlast l" using l unfolding lru_remove_def by simp
    have c': "cache_evict c = cache_evict (cache_remove c a)"
      using True ae l_def by (subst cache_evict.simps) simp
    have lr: "tc_lru (cache_remove c a) = butlast l" "tc_capacity (cache_remove c a) = tc_capacity c"
      using rem l_def by (simp_all add: cache_remove_def)
    from "1.IH" [OF True] linked_remove(2) [OF "1.prems" mem] ae l_def
    have "cache_abs (cache_evict c) = take (tc_capacity c) (map snd (butlast l)) \<and> linked (cache_evict c)
        \<and> tc_capacity (cache_evict c) = tc_capacity c"
      unfolding c' using lr by (simp add: cache_abs_def)
    moreover have "take (tc_capacity c) (map snd (butlast l)) = take (tc_capacity c) (map snd l)"
      using True l_def by (simp add: take_map take_butlast)
    ultimately show ?thesis by (simp add: cache_abs_def l_def)
  next
    case False
    with "1.prems" show ?thesis by (simp add: cache_evict.simps [of c] cache_abs_def)
  qed
qed

lemma linked_front:
  assumes "linked c" "(a, e) \<in> set (tc_lru c)" "en_key e' = en_key e"
  shows "linked (c\<lparr>tc_lru := (a, e') # lru_remove (tc_lru c) a\<rparr>)"
proof -
  have rem: "map snd (lru_remove (tc_lru c) a) = filter (\<lambda>x. en_key x \<noteq> en_key e) (cache_abs c)"
    by (rule linked_remove(1) [OF assms(1,2)])
  have "en_key e \<notin> en_key ` set (map snd (lru_remove (tc_lru c) a))" unfolding rem by auto
  then have new: "en_key e \<notin> (en_key \<circ> snd) ` set (lru_remove (tc_lru c) a)" unfolding set_map image_comp .
  have uniq: "x = e" if "(a, x) \<in> set (tc_lru c)" for x
    using eq_key_imp_eq_value [OF _ that assms(2)] assms(1) by (simp add: linked_def)
  show ?thesis
    unfolding linked_def
  proof (intro conjI allI)
    show "distinct (map fst (tc_lru (c\<lparr>tc_lru := (a, e') # lru_remove (tc_lru c) a\<rparr>)))"
    proof -
      have "distinct (map fst (lru_remove (tc_lru c) a))"
        using assms(1) unfolding linked_def lru_remove_def by (intro distinct_map_filter) simp
      then show ?thesis by (auto simp: lru_remove_def)
    qed
    show "distinct (map (en_key \<circ> snd) (tc_lru (c\<lparr>tc_lru := (a, e') # lru_remove (tc_lru c) a\<rparr>)))"
    proof -
      have "distinct (map (en_key \<circ> snd) (lru_remove (tc_lru c) a))"
        using assms(1) unfolding linked_def lru_remove_def by (intro distinct_map_filter) simp
      with new assms(3) show ?thesis by simp
    qed
    fix k b
    have "tc_entries c k = Some b \<longleftrightarrow> (\<exists>x. (b, x) \<in> set (tc_lru c) \<and> en_key x = k)"
      using assms(1) by (simp add: linked_def)
    also have "\<dots> \<longleftrightarrow> (\<exists>x. (b, x) \<in> set ((a, e') # lru_remove (tc_lru c) a) \<and> en_key x = k)"
    proof (cases "b = a")
      case True
      have "(a, x) \<notin> set (lru_remove (tc_lru c) a)" for x by (simp add: lru_remove_def)
      then have "(\<exists>x. (a, x) \<in> set ((a, e') # lru_remove (tc_lru c) a) \<and> en_key x = k) \<longleftrightarrow> en_key e = k"
        using assms(3) by simp
      moreover have "(\<exists>x. (a, x) \<in> set (tc_lru c) \<and> en_key x = k) \<longleftrightarrow> en_key e = k"
        using assms(2) uniq by blast
      ultimately show ?thesis using True by simp
    next
      case False
      then show ?thesis by (simp add: lru_remove_def)
    qed
    finally show "tc_entries (c\<lparr>tc_lru := (a, e') # lru_remove (tc_lru c) a\<rparr>) k = Some b \<longleftrightarrow>
      (\<exists>x. (b, x) \<in> set (tc_lru (c\<lparr>tc_lru := (a, e') # lru_remove (tc_lru c) a\<rparr>)) \<and> en_key x = k)" by simp
  qed
qed

lemma cache_get_refines:
  assumes "cache_ok c"
  shows "fst (cache_get now c key) = fst (spec_get now key (cache_abs c))"
    and "cache_abs (snd (cache_get now c key)) = snd (spec_get now key (cache_abs c))"
    and "cache_ok (snd (cache_get now c key))"
proof -
  have wf: "linked c" using assms by (simp add: cache_ok_def)
  have "fst (cache_get now c key) = fst (spec_get now key (cache_abs c)) \<and>
    cache_abs (snd (cache_get now c key)) = snd (spec_get now key (cache_abs c)) \<and> cache_ok (snd (cache_get now c key))"
  proof (cases "tc_entries c key")
    case None
    with linked_find(1) [OF wf None] assms show ?thesis by (simp add: cache_get_def spec_get_def)
  next
    case (Some a)
    define e where "e = lru_value (tc_lru c) a"
    from linked_find(2) [OF wf Some] have f: "find (\<lambda>e. en_key e = key) (cache_abs c) = Some e"
      and mem: "(a, e) \<in> set (tc_lru c)" and k: "en_key e = key" by (simp_all add: e_def)
    note rem = linked_remove [OF wf mem]
    have len: "length (lru_remove (tc_lru c) a) \<le> length (tc_lru c)" by (simp add: lru_remove_def)
    have lt: "length (lru_remove (tc_lru c) a) < length (tc_lru c)"
      unfolding lru_remove_def by (rule length_filter_less [OF mem]) simp
    show ?thesis
    proof (cases "now < en_expires_at e")
      case True
      have "linked (c\<lparr>tc_lru := (a, e) # lru_remove (tc_lru c) a\<rparr>)" by (rule linked_front [OF wf mem refl])
      with True Some f e_def rem(1) k lt assms show ?thesis
        by (simp add: cache_get_def spec_get_def lru_front_def cache_abs_def cache_ok_def Let_def)
    next
      case False
      have "cache_abs (cache_remove c a) = filter (\<lambda>x. en_key x \<noteq> key) (cache_abs c)"
        using rem(1) k by (simp add: cache_abs_def cache_remove_def)
      with False Some f e_def rem(2) len assms show ?thesis
        by (simp add: cache_get_def spec_get_def cache_ok_def Let_def) (simp add: cache_remove_def)
    qed
  qed
  then show "fst (cache_get now c key) = fst (spec_get now key (cache_abs c))"
    and "cache_abs (snd (cache_get now c key)) = snd (spec_get now key (cache_abs c))"
    and "cache_ok (snd (cache_get now c key))" by simp_all
qed

lemma cache_put_refines:
  assumes "cache_ok c"
  shows "cache_abs (cache_put now c key cert) = spec_put now (tc_ttl c) (tc_capacity c) key cert (cache_abs c)"
    and "cache_ok (cache_put now c key cert)"
proof -
  have wf: "linked c" and cap: "length (tc_lru c) \<le> tc_capacity c" using assms by (simp_all add: cache_ok_def)
  define new where "new = \<lparr>en_key = key, en_cert = cert, en_expires_at = entry_expiry now (tc_ttl c) cert\<rparr>"
  have "cache_abs (cache_put now c key cert) = take (tc_capacity c) (new # filter (\<lambda>e. en_key e \<noteq> key) (cache_abs c)) \<and>
    cache_ok (cache_put now c key cert)"
  proof (cases "tc_entries c key")
    case None
    define c' where "c' = c\<lparr>tc_entries := (tc_entries c)(key \<mapsto> fresh_address (tc_lru c)),
      tc_lru := (fresh_address (tc_lru c), new) # tc_lru c\<rparr>"
    have none: "en_key e \<noteq> key" if "(a, e) \<in> set (tc_lru c)" for a e
      using wf None that by (metis linked_def option.distinct(1))
    have keys: "key \<notin> (en_key \<circ> snd) ` set (tc_lru c)" using none by fastforce
    have "linked c'"
      unfolding linked_def
    proof (intro conjI allI)
      show "distinct (map fst (tc_lru c'))" "distinct (map (en_key \<circ> snd) (tc_lru c'))"
        using wf keys fresh_address_new [of "tc_lru c"] by (auto simp: c'_def new_def linked_def)
      fix k a
      have "tc_entries c k = Some a \<longleftrightarrow> (\<exists>e. (a, e) \<in> set (tc_lru c) \<and> en_key e = k)"
        using wf by (simp add: linked_def)
      with none show "(tc_entries c' k = Some a) = (\<exists>e. (a, e) \<in> set (tc_lru c') \<and> en_key e = k)"
        by (auto simp: c'_def new_def)
    qed
    note ev = evict_abs [OF this]
    have "cache_put now c key cert = cache_evict c'"
      using None by (simp add: cache_put_def c'_def new_def Let_def)
    moreover have "cache_abs c' = new # filter (\<lambda>e. en_key e \<noteq> key) (cache_abs c)"
    proof -
      have "filter (\<lambda>e. en_key e \<noteq> key) (cache_abs c) = cache_abs c"
        unfolding filter_id_conv cache_abs_def using none by fastforce
      then show ?thesis by (simp add: c'_def cache_abs_def)
    qed
    moreover have "tc_capacity c' = tc_capacity c" by (simp add: c'_def)
    moreover have "length (tc_lru (cache_evict c')) = length (cache_abs (cache_evict c'))" by (simp add: cache_abs_def)
    ultimately show ?thesis using ev by (simp add: cache_ok_def)
  next
    case (Some a)
    define e where "e = lru_value (tc_lru c) a"
    from linked_find(2) [OF wf Some] have mem: "(a, e) \<in> set (tc_lru c)" and k: "en_key e = key" by (simp_all add: e_def)
    define e' where "e' = e\<lparr>en_cert := cert, en_expires_at := en_expires_at new\<rparr>"
    have "e' = new" using k by (cases e) (simp add: e'_def new_def)
    have put: "cache_put now c key cert = c\<lparr>tc_lru := (a, new) # lru_remove (tc_lru c) a\<rparr>"
      using Some \<open>e' = new\<close> by (simp add: cache_put_def e'_def e_def new_def Let_def)
    have lt: "length (lru_remove (tc_lru c) a) < length (tc_lru c)"
      unfolding lru_remove_def by (rule length_filter_less [OF mem]) simp
    have "linked (cache_put now c key cert)"
      unfolding put by (rule linked_front [OF wf mem]) (simp add: new_def k)
    moreover have abs: "cache_abs (cache_put now c key cert) = new # filter (\<lambda>e. en_key e \<noteq> key) (cache_abs c)"
      using linked_remove(1) [OF wf mem] k unfolding put by (simp add: cache_abs_def)
    moreover have "length (tc_lru (cache_put now c key cert)) \<le> tc_capacity c"
      using lt cap unfolding put by simp
    moreover have "take (tc_capacity c) (cache_abs (cache_put now c key cert)) = cache_abs (cache_put now c key cert)"
      using calculation(3) by (simp add: cache_abs_def)
    ultimately show ?thesis by (simp add: cache_ok_def) (simp add: put)
  qed
  then show "cache_abs (cache_put now c key cert) = spec_put now (tc_ttl c) (tc_capacity c) key cert (cache_abs c)"
    and "cache_ok (cache_put now c key cert)" by (simp_all add: spec_put_def new_def)
qed

subsection \<open>The key of the flight group\<close>

lemma split_first:
  "x \<notin> set a \<Longrightarrow> x \<notin> set b \<Longrightarrow> a @ x # u = b @ x # v \<Longrightarrow> a = b \<and> u = v"
proof (induction a arbitrary: b)
  case Nil
  then show ?case by (cases b) auto
next
  case (Cons y a)
  then show ?case by (cases b) auto
qed

lemma split_last:
  assumes "x \<notin> set u" "x \<notin> set v" "a @ x # u = b @ x # v"
  shows "a = b \<and> u = v"
proof -
  have "rev u @ x # rev a = rev v @ x # rev b" using arg_cong [OF assms(3), of rev] by simp
  from split_first [OF _ _ this] assms(1,2) show ?thesis by simp
qed

lemma NUL_not_digit: "NUL \<notin> set (nat_digits n)"
  using nat_digits_digit [of NUL n] by (auto simp: NUL_def byte_defs)

lemma kind_code_inj: "kind_code a = kind_code b \<longleftrightarrow> a = b"
  by (cases a; cases b) (simp_all add: kind_code_def)

lemma sni_no_NUL: "normalizeLocalSNI net raw = Inr host \<Longrightarrow> NUL \<notin> set host"
proof
  assume n: "normalizeLocalSNI net raw = Inr host" and "NUL \<in> set host"
  then have "NUL \<in> set (join ''.'' (split_on CHR ''.'' host))" by (simp add: split_on_join)
  moreover have "set (join ''.'' ls) \<subseteq> insert CHR ''.'' (\<Union>l \<in> set ls. set l)" for ls
    by (induction "''.''" ls rule: join.induct) auto
  ultimately obtain l where "l \<in> set (split_on CHR ''.'' host)" "NUL \<in> set l" by (fastforce simp: NUL_def)
  moreover have "list_all sni_label_ok (split_on CHR ''.'' host)"
    using n by (auto simp: normalizeLocalSNI_def Let_def split: if_splits)
  ultimately have "lan_label_char NUL" by (auto simp: list_all_iff sni_label_ok_def)
  then show False by (auto simp: lan_label_char_def NUL_def byte_defs)
qed

subsection \<open>Authorization\<close>

lemma route_tls_key_ok:
  "route_tls_key host fp now route = Inr key \<Longrightarrow>
     key = \<lparr>tk_kind = TlsIdentityRoute, tk_host = host, tk_route_id = rt_id route,
       tk_generation = rt_generation route, tk_ca_fingerprint = fp\<rparr> \<and> has_identity route \<and>
     (EffectiveState route = RouteStatePending \<or> EffectiveState route = RouteStateActive) \<and>
     \<not> RouteReservationExpired route now \<and> \<not> RouteLeaseExpired route now"
  by (auto simp: route_tls_key_def has_identity_def Let_def RouteReservationExpired_def RouteLeaseExpired_def
      split: if_splits route_state.splits)

text \<open>What entitles a server name to a certificate.\<close>

definition entitled :: "tls_lib \<Rightarrow> tls_world \<Rightarrow> tls_key \<Rightarrow> bool" where
  "entitled lib w key \<longleftrightarrow>
     (\<exists>ca. tw_ca w = Some ca \<and> tk_ca_fingerprint key = tl_sha256_hex lib ca) \<and>
     (tk_kind key = TlsIdentityDiagnostic \<and> tk_host key = ''localhost'' \<or>
      tk_kind key = TlsIdentityRoute \<and>
      (\<exists>routes route. RouteStore_Load (tw_store w) = Inr routes \<and> route \<in> set routes \<and>
         (\<exists>h. normalizeRouteHost (tk_host key) = Inr h \<and>
            (rt_host route = h \<or> normalizeRouteHost (rt_host route) = Inr h)) \<and>
         rt_id route = tk_route_id key \<and> rt_generation route = tk_generation key \<and> has_identity route \<and>
         \<not> RouteReservationExpired route (tw_now w) \<and> \<not> RouteLeaseExpired route (tw_now w)))"

lemma authorize_ok:
  assumes "authorize lib w raw = Inr (key, ca)"
  shows "normalizeLocalSNI (tl_net lib) raw = Inr (tk_host key) \<and> entitled lib w key"
proof -
  from assms obtain host where h: "normalizeLocalSNI (tl_net lib) raw = Inr host" and ca: "tw_ca w = Some ca"
    by (auto simp: authorize_def res_bind_Inr_iff split: option.splits if_splits)
  define fp where "fp = tl_sha256_hex lib ca"
  show ?thesis
  proof (cases "host = ''localhost''")
    case True
    with assms h ca show ?thesis
      by (auto simp: authorize_def res_bind_Inr_iff certificateAuthorityFingerprint_def entitled_def split: if_splits)
  next
    case False
    with assms h ca obtain route where r: "routeForHost (tw_store w) host = Inr (Some route)"
      and k: "route_tls_key host fp (tw_now w) route = Inr key"
      by (auto simp: authorize_def res_bind_Inr_iff certificateAuthorityFingerprint_def fp_def split: if_splits option.splits)
    from r obtain hh routes where "normalizeRouteHost host = Inr hh" "RouteStore_Load (tw_store w) = Inr routes"
      "find_route hh None routes = Some route" by (auto simp: routeForHost_def res_bind_Inr_iff)
    with find_route_ok [of hh None routes route] route_tls_key_ok [OF k] h ca show ?thesis
      by (auto simp: entitled_def fp_def)
  qed
qed

lemma revalidate_ok: "revalidate lib w key = Inr () \<Longrightarrow> entitled lib w key"
  using authorize_ok by (auto simp: revalidate_def res_bind_Inr_iff split: if_splits)

section \<open>Properties\<close>

datatype cache_call = CacheGet time tls_key | CachePut time tls_key certificate

fun run_cache :: "tls_cache \<Rightarrow> cache_call \<Rightarrow> tls_cache" where
  "run_cache c (CacheGet now key) = snd (cache_get now c key)"
| "run_cache c (CachePut now key cert) = cache_put now c key cert"

fun run_spec :: "duration \<Rightarrow> nat \<Rightarrow> cache_entry list \<Rightarrow> cache_call \<Rightarrow> cache_entry list" where
  "run_spec ttl capacity l (CacheGet now key) = snd (spec_get now key l)"
| "run_spec ttl capacity l (CachePut now key cert) = spec_put now ttl capacity key cert l"

lemma cache_params:
  "cache_ok c \<Longrightarrow> tc_ttl (run_cache c call) = tc_ttl c \<and> tc_capacity (run_cache c call) = tc_capacity c"
proof (induction c call rule: run_cache.induct)
  case (1 c now key)
  then show ?case by (simp add: cache_get_def cache_remove_def Let_def split: option.splits)
next
  case (2 c now key cert)
  have "tc_ttl (cache_evict d) = tc_ttl d \<and> tc_capacity (cache_evict d) = tc_capacity d" for d
  proof (induction d rule: cache_evict.induct)
    case (1 d)
    then show ?case by (simp add: cache_evict.simps [of d]) (simp add: cache_remove_def)
  qed
  then show ?case by (simp add: cache_put_def Let_def split: option.splits)
qed

lemma run_cache_refines:
  "cache_ok c \<Longrightarrow> cache_abs (run_cache c call) = run_spec (tc_ttl c) (tc_capacity c) (cache_abs c) call \<and> cache_ok (run_cache c call)"
  by (cases call) (simp_all add: cache_get_refines cache_put_refines)

lemma run_cache_all:
  "cache_ok c \<Longrightarrow> cache_abs (foldl run_cache c calls) = foldl (run_spec (tc_ttl c) (tc_capacity c)) (cache_abs c) calls
     \<and> cache_ok (foldl run_cache c calls) \<and> tc_capacity (foldl run_cache c calls) = tc_capacity c"
  by (induction calls arbitrary: c) (simp_all add: run_cache_refines cache_params)

text \<open>
  C6. The certificate cache, a hash map over a doubly linked list, implements a bounded list in
  order of use: after any calls on a new cache, its entries are those of the specification, most
  recently used first, at most one per key and never more than the capacity; the next lookup
  answers as the specification does, in particular never with an expired certificate.
\<close>

theorem cache_refines_lru:
  "let c = foldl run_cache (newLocalTLSCache capacity ttl) calls;
       l = foldl (run_spec ttl capacity) [] calls
   in cache_abs c = l \<and> length l \<le> capacity \<and> distinct (map en_key l) \<and>
      fst (cache_get now c key) = fst (spec_get now key l)"
proof -
  define c where "c = foldl run_cache (newLocalTLSCache capacity ttl) calls"
  have "cache_ok (newLocalTLSCache capacity ttl)"
    by (simp add: cache_ok_def linked_def newLocalTLSCache_def)
  from run_cache_all [OF this, of calls] have abs: "cache_abs c = foldl (run_spec ttl capacity) [] calls"
    and ok: "cache_ok c" and cap: "tc_capacity c = capacity"
    by (simp_all add: c_def newLocalTLSCache_def cache_abs_def)
  have "length (cache_abs c) \<le> capacity" "distinct (map en_key (cache_abs c))"
    using ok cap by (simp_all add: cache_ok_def linked_def cache_abs_def comp_def)
  with abs cache_get_refines(1) [OF ok, of now key] show ?thesis
    by (simp add: c_def [symmetric] Let_def)
qed

text \<open>
  C35. A certificate is handed out only for the authorized server name, and only when the last check
  of the handshake still found that name entitled to it: \<open>localhost\<close> itself, or a route of the
  table with the identity of the key that is reserved or active and has not expired, under the
  certificate authority of the key. It is the cached one for this very key or freshly issued.
\<close>

theorem certificateFor_entitled:
  "case fst (certificateFor lib w1 w2 w3 w4 now c serverName key ca) of
     Inl _ \<Rightarrow> True
   | Inr cert \<Rightarrow>
       normalizeLocalSNI (tl_net lib) serverName = Inr (tk_host key) \<and>
       (entitled lib w1 key \<and> fst (cache_get now c key) = Some cert \<or>
        entitled lib w4 key \<and>
          (fst (cache_get now (snd (cache_get now c key)) key) = Some cert \<or>
           tl_issue lib ca (tk_host key) (tw_now w2) = Some cert))"
proof (cases "fst (certificateFor lib w1 w2 w3 w4 now c serverName key ca)")
  case (Inr cert)
  then show ?thesis
    by (auto simp: certificateFor_def Let_def split: if_splits sum.splits option.splits prod.splits intro: revalidate_ok)
qed simp

text \<open>
  Two authorizations share an issuing flight only if they are the same: the flight key is
  injective on keys whose host came from \<open>normalizeLocalSNI\<close> and whose fingerprint is hexadecimal.
\<close>

theorem singleflightKey_injective:
  assumes "normalizeLocalSNI net raw = Inr (tk_host k)" "normalizeLocalSNI net raw' = Inr (tk_host k')"
    and "list_all is_hex (tk_ca_fingerprint k)" "list_all is_hex (tk_ca_fingerprint k')"
    and "singleflightKey k = singleflightKey k'"
  shows "k = k'"
proof -
  have fp: "NUL \<notin> set (tk_ca_fingerprint k)" "NUL \<notin> set (tk_ca_fingerprint k')"
    using assms(3,4) by (auto simp: list_all_iff is_hex_def NUL_def byte_defs)
  note host = sni_no_NUL [OF assms(1)] sni_no_NUL [OF assms(2)]
  from assms(5) have "nat_digits (kind_code (tk_kind k)) @ NUL # tk_host k @ NUL # tk_route_id k @ NUL
      # nat_digits (tk_generation k) @ NUL # tk_ca_fingerprint k
    = nat_digits (kind_code (tk_kind k')) @ NUL # tk_host k' @ NUL # tk_route_id k' @ NUL
      # nat_digits (tk_generation k') @ NUL # tk_ca_fingerprint k'" by (simp add: singleflightKey_def)
  from split_first [OF NUL_not_digit NUL_not_digit this] have kind: "tk_kind k = tk_kind k'"
    and "tk_host k @ NUL # tk_route_id k @ NUL # nat_digits (tk_generation k) @ NUL # tk_ca_fingerprint k
      = tk_host k' @ NUL # tk_route_id k' @ NUL # nat_digits (tk_generation k') @ NUL # tk_ca_fingerprint k'"
    by (simp_all add: nat_digits_inj kind_code_inj)
  from split_first [OF host this(2)] have hosts: "tk_host k = tk_host k'"
    and "(tk_route_id k @ NUL # nat_digits (tk_generation k)) @ NUL # tk_ca_fingerprint k
      = (tk_route_id k' @ NUL # nat_digits (tk_generation k')) @ NUL # tk_ca_fingerprint k'" by simp_all
  from split_last [OF fp this(2)] have fps: "tk_ca_fingerprint k = tk_ca_fingerprint k'"
    and "tk_route_id k @ NUL # nat_digits (tk_generation k) = tk_route_id k' @ NUL # nat_digits (tk_generation k')" by simp_all
  from split_last [OF NUL_not_digit NUL_not_digit this(2)] have "tk_route_id k = tk_route_id k'" "tk_generation k = tk_generation k'"
    by (simp_all add: nat_digits_inj)
  with kind hosts fps show ?thesis by simp
qed

definition sample_tls_key :: tls_key where
  "sample_tls_key = \<lparr>tk_kind = TlsIdentityDiagnostic, tk_host = ''localhost'', tk_route_id = '''', tk_generation = 0,
     tk_ca_fingerprint = ''ab''\<rparr>"

theorem singleflightKey_injective_witness:
  "sample_tls_key = \<lparr>tk_kind = TlsIdentityDiagnostic, tk_host = ''localhost'', tk_route_id = '''', tk_generation = 0,
     tk_ca_fingerprint = ''ab''\<rparr>"
proof (rule singleflightKey_injective [of sample_net "''Localhost.''" _ "''localhost''"])
  show "normalizeLocalSNI sample_net ''Localhost.'' = Inr (tk_host sample_tls_key)" by code_simp
qed (code_simp+)

end
