(* ===== verification/Cli.thy ===== *)
theory Cli
  imports Go_Base
begin

text \<open>
  The command line of \<open>gohere\<close>: \<open>internal/cli/parse.go\<close>. \<open>Command\<close> is a record, the
  argument loop of \<open>Parse\<close> is \<open>parse_args\<close> (a recursion on the remaining arguments that
  carries the command built so far and \<open>sawScript\<close>), and every error the code builds is
  a constructor of \<open>cli_error\<close>.
\<close>

section \<open>Data\<close>

datatype command_kind = CommandRun | CommandRaw | CommandList | CommandStop | CommandPrune
  | CommandDoctor | CommandServiceRun | CommandServiceStop | CommandSetup | CommandUninstall
  | CommandHelp | CommandVersion

record command =
  cmd_kind :: command_kind
  cmd_script :: string
  cmd_scripts :: "string list"
  cmd_target_path :: string
  cmd_explicit_script :: bool
  cmd_raw :: "string list"
  cmd_verbose :: bool
  cmd_json :: bool
  cmd_open :: bool
  cmd_live :: bool
  cmd_http :: bool
  cmd_as :: string
  cmd_target_port :: int
  cmd_port_flag :: string
  cmd_url_scheme :: string
  cmd_share_mode :: string
  cmd_help_topic :: string
  cmd_stop_target :: string
  cmd_stop_all :: bool

text \<open>The zero value \<open>Command{}\<close> with its \<open>Kind\<close> set.\<close>

definition command_of_kind :: "command_kind \<Rightarrow> command" where
  "command_of_kind k =
     \<lparr>cmd_kind = k, cmd_script = '''', cmd_scripts = [], cmd_target_path = '''',
      cmd_explicit_script = False, cmd_raw = [], cmd_verbose = False, cmd_json = False,
      cmd_open = False, cmd_live = False, cmd_http = False, cmd_as = '''', cmd_target_port = 0,
      cmd_port_flag = '''', cmd_url_scheme = '''', cmd_share_mode = '''', cmd_help_topic = '''',
      cmd_stop_target = '''', cmd_stop_all = False\<rparr>"

datatype cli_error =
    RawCommandRequired
  | ShareRequiresMode
  | UnsupportedShareMode string
  | AsRequiresName
  | TargetRequiresPort
  | TargetInvalidPort
  | PortFlagRequiresFlag
  | PathTargetCombination
  | AsOneProject
  | TargetOneProject
  | ShareOneProject
  | StopOneTarget
  | ServiceRequiresCommand
  | UnknownServiceCommand string
  | JsonOnlyForList
  | OpenAfterFixedCommand
  | HttpAfterFixedCommand
  | UnexpectedArgument string
  | UnknownOption string "string option"

section \<open>Helpers\<close>

definition is_windows_drive_path :: "string \<Rightarrow> bool" where
  "is_windows_drive_path arg =
     (case arg of
        d # c # s # _ \<Rightarrow>
          (is_upper d \<or> is_lower d) \<and> c = CHR '':'' \<and> (s = CHR 0x5C \<or> s = CHR ''/'')
      | _ \<Rightarrow> False)"

text \<open>
  The two Windows prefixes are Go raw strings, in which a backslash is no escape: the
  code compares with a dot (or two dots) followed by \<open>two\<close> backslash bytes.
\<close>

definition is_explicit_path_arg :: "string \<Rightarrow> bool" where
  "is_explicit_path_arg arg =
     (if arg = ''.'' \<or> arg = ''..'' then True
      else has_prefix arg ''./'' \<or> has_prefix arg ''../'' \<or> has_prefix arg ''/''
        \<or> has_prefix arg [CHR ''.'', CHR 0x5C, CHR 0x5C]
        \<or> has_prefix arg [CHR ''.'', CHR ''.'', CHR 0x5C, CHR 0x5C]
        \<or> is_windows_drive_path arg)"

definition is_reserved_value_flag :: "string \<Rightarrow> bool" where
  "is_reserved_value_flag arg =
     (arg \<in> set [''--verbose'', ''--open'', ''-o'', ''--live'', ''--http'', ''--as'', ''--target'',
        ''--port-flag'', ''--help'', ''-h'', ''--version'', ''-v''])"

definition unknown_option_error :: "string \<Rightarrow> cli_error" where
  "unknown_option_error arg =
     UnknownOption arg (map_of [(''--doctor'', ''doctor''), (''--list'', ''list''),
       (''--prune'', ''prune''), (''--setup'', ''setup''), (''--stop'', ''stop''),
       (''--uninstall'', ''uninstall'')] arg)"

definition help_requested :: "string list \<Rightarrow> bool" where
  "help_requested args = (args = [''--help''] \<or> args = [''-h''])"

definition verbose_requested :: "string list \<Rightarrow> bool" where
  "verbose_requested args = (args = [''--verbose''])"

definition open_requested :: "string list \<Rightarrow> bool" where
  "open_requested args = (args = [''--open''] \<or> args = [''-o''])"

definition help_command :: "string \<Rightarrow> command" where
  "help_command topic = (command_of_kind CommandHelp)\<lparr>cmd_help_topic := topic\<rparr>"

section \<open>Sub-commands\<close>

fun parse_stop :: "string list \<Rightarrow> command \<Rightarrow> (cli_error, command) result" where
  "parse_stop [] cmd = Inr cmd"
| "parse_stop (arg # args) cmd =
     (if arg = ''--help'' \<or> arg = ''-h'' then Inr (help_command ''stop'')
      else if arg = ''--all'' then
        (if cmd_stop_target cmd \<noteq> '''' then Inl StopOneTarget
         else parse_stop args (cmd\<lparr>cmd_stop_all := True\<rparr>))
      else if has_prefix arg ''-'' then Inl (unknown_option_error arg)
      else if cmd_stop_all cmd \<or> cmd_stop_target cmd \<noteq> '''' then Inl StopOneTarget
      else parse_stop args (cmd\<lparr>cmd_stop_target := arg\<rparr>))"

definition parse_service :: "string list \<Rightarrow> (cli_error, command) result" where
  "parse_service args =
     (case args of
        [] \<Rightarrow> Inl ServiceRequiresCommand
      | subcommand # rest \<Rightarrow>
          if help_requested args then Inr (help_command ''service'')
          else if help_requested rest then Inr (help_command (''service '' @ subcommand))
          else if verbose_requested rest \<or> open_requested rest \<or> rest \<noteq> []
          then Inl (UnknownServiceCommand subcommand)
          else if subcommand = ''stop'' then Inr (command_of_kind CommandServiceStop)
          else if subcommand = ''run'' then Inr (command_of_kind CommandServiceRun)
          else Inl (UnknownServiceCommand subcommand))"

fun fixed_command :: "string \<Rightarrow> string list \<Rightarrow> command \<Rightarrow> (cli_error, command) result" where
  "fixed_command topic [] cmd = Inr cmd"
| "fixed_command topic (arg # args) cmd =
     (if arg = ''--help'' \<or> arg = ''-h'' then Inr (help_command topic)
      else if arg = ''--verbose'' then fixed_command topic args (cmd\<lparr>cmd_verbose := True\<rparr>)
      else if arg = ''--json'' then
        (if cmd_kind cmd \<noteq> CommandList then Inl JsonOnlyForList
         else fixed_command topic args (cmd\<lparr>cmd_json := True\<rparr>))
      else if arg = ''--open'' \<or> arg = ''-o'' then Inl OpenAfterFixedCommand
      else if arg = ''--http'' then Inl HttpAfterFixedCommand
      else if has_prefix arg ''-'' then Inl (unknown_option_error arg)
      else Inl (UnexpectedArgument arg))"

text \<open>
  The seven reserved words of the switch in \<open>Parse\<close>: the sub-command each starts when no
  script was named before it.
\<close>

definition reserved_word :: "string \<Rightarrow> string list \<Rightarrow> (cli_error, command) result option" where
  "reserved_word arg rest =
     (if arg = ''list'' then Some (fixed_command arg rest (command_of_kind CommandList))
      else if arg = ''stop'' then Some (parse_stop rest (command_of_kind CommandStop))
      else if arg = ''prune'' then Some (fixed_command arg rest (command_of_kind CommandPrune))
      else if arg = ''doctor'' then Some (fixed_command arg rest (command_of_kind CommandDoctor))
      else if arg = ''service'' then Some (parse_service rest)
      else if arg = ''setup'' then Some (fixed_command arg rest (command_of_kind CommandSetup))
      else if arg = ''uninstall'' then Some (fixed_command arg rest (command_of_kind CommandUninstall))
      else None)"

section \<open>Parse\<close>

definition validate_multi_run :: "command \<Rightarrow> cli_error option" where
  "validate_multi_run cmd =
     (if cmd_target_path cmd \<noteq> '''' \<and> cmd_scripts cmd \<noteq> [] then Some PathTargetCombination
      else if cmd_kind cmd \<noteq> CommandRun \<or> length (cmd_scripts cmd) \<le> 1 then None
      else if cmd_as cmd \<noteq> '''' then Some AsOneProject
      else if cmd_target_port cmd \<noteq> 0 then Some TargetOneProject
      else if cmd_share_mode cmd \<noteq> '''' then Some ShareOneProject
      else None)"

text \<open>A reserved word after a script name is one more script.\<close>

definition add_word_script :: "string \<Rightarrow> command \<Rightarrow> command" where
  "add_word_script arg cmd =
     cmd\<lparr>cmd_kind := CommandRun,
         cmd_script := (if cmd_script cmd = '''' then arg else cmd_script cmd),
         cmd_scripts := cmd_scripts cmd @ [arg]\<rparr>"

definition add_script :: "string \<Rightarrow> command \<Rightarrow> command" where
  "add_script arg cmd =
     cmd\<lparr>cmd_kind := CommandRun, cmd_explicit_script := True,
         cmd_script := (if cmd_script cmd = ''dev'' \<and> cmd_scripts cmd = [] then arg else cmd_script cmd),
         cmd_scripts := cmd_scripts cmd @ [arg]\<rparr>"

text \<open>
  One round of the loop of \<open>Parse\<close> over \<open>arg\<close> and the arguments after it: either the
  function returns, or the loop goes on with the arguments left, the command and \<open>sawScript\<close>.
\<close>

datatype parse_step = Return "(cli_error, command) result" | Continue "string list" command bool

definition parse_positional :: "string \<Rightarrow> string list \<Rightarrow> command \<Rightarrow> bool \<Rightarrow> parse_step" where
  "parse_positional arg rest cmd saw =
     (if has_prefix arg ''--share='' then
        (let mode = trim_prefix arg ''--share=''
         in if mode = '''' then Return (Inl ShareRequiresMode)
            else if mode \<noteq> ''lan'' then Return (Inl (UnsupportedShareMode mode))
            else Continue rest (cmd\<lparr>cmd_share_mode := mode\<rparr>) saw)
      else if has_prefix arg ''-'' then Return (Inl (unknown_option_error arg))
      else if is_explicit_path_arg arg then
        (if saw \<or> cmd_scripts cmd \<noteq> [] \<or> cmd_target_path cmd \<noteq> ''''
         then Return (Inl PathTargetCombination)
         else Continue rest (cmd\<lparr>cmd_kind := CommandRun, cmd_script := '''', cmd_target_path := arg\<rparr>) saw)
      else Continue rest (add_script arg cmd) True)"

definition parse_valued :: "string \<Rightarrow> string list \<Rightarrow> command \<Rightarrow> bool \<Rightarrow> parse_step" where
  "parse_valued arg rest cmd saw =
     (if arg = ''--as'' then
        (case rest of
           [] \<Rightarrow> Return (Inl AsRequiresName)
         | v # rest' \<Rightarrow> if has_prefix v ''-'' then Return (Inl AsRequiresName)
                       else Continue rest' (cmd\<lparr>cmd_as := v\<rparr>) saw)
      else if arg = ''--target'' then
        (case rest of
           [] \<Rightarrow> Return (Inl TargetRequiresPort)
         | v # rest' \<Rightarrow>
             (case atoi v of
                None \<Rightarrow> Return (Inl TargetInvalidPort)
              | Some port \<Rightarrow> if port \<le> 0 \<or> port > 65535 then Return (Inl TargetInvalidPort)
                             else Continue rest' (cmd\<lparr>cmd_target_port := port\<rparr>) saw))
      else
        (case rest of
           [] \<Rightarrow> Return (Inl PortFlagRequiresFlag)
         | v # rest' \<Rightarrow> if is_reserved_value_flag v then Return (Inl PortFlagRequiresFlag)
                       else Continue rest' (cmd\<lparr>cmd_port_flag := v\<rparr>) saw))"

definition parse_arg :: "string \<Rightarrow> string list \<Rightarrow> command \<Rightarrow> bool \<Rightarrow> parse_step" where
  "parse_arg arg rest cmd saw =
     (if cmd_target_path cmd \<noteq> '''' \<and> arg \<noteq> ''--'' \<and> \<not> has_prefix arg ''-''
      then Return (Inl PathTargetCombination)
      else if arg = ''--'' then
        (if cmd_target_path cmd \<noteq> '''' then Return (Inl PathTargetCombination)
         else if rest = [] then Return (Inl RawCommandRequired)
         else Return (Inr (cmd\<lparr>cmd_kind := CommandRaw, cmd_script := '''', cmd_raw := rest\<rparr>)))
      else if arg = ''--verbose'' then Continue rest (cmd\<lparr>cmd_verbose := True\<rparr>) saw
      else if arg = ''--open'' \<or> arg = ''-o'' then Continue rest (cmd\<lparr>cmd_open := True\<rparr>) saw
      else if arg = ''--live'' then Continue rest (cmd\<lparr>cmd_live := True\<rparr>) saw
      else if arg = ''--http'' then Continue rest (cmd\<lparr>cmd_http := True\<rparr>) saw
      else if arg = ''--share'' then Return (Inl ShareRequiresMode)
      else if arg \<in> {''--as'', ''--target'', ''--port-flag''} then parse_valued arg rest cmd saw
      else if arg = ''--help'' \<or> arg = ''-h'' \<or> arg = ''help'' then
        Return (Inr (cmd\<lparr>cmd_kind := CommandHelp, cmd_script := ''''\<rparr>))
      else if arg = ''--version'' \<or> arg = ''-v'' then
        Return (Inr (cmd\<lparr>cmd_kind := CommandVersion, cmd_script := ''''\<rparr>))
      else (case reserved_word arg rest of
          Some r \<Rightarrow> if saw then Continue rest (add_word_script arg cmd) saw else Return r
        | None \<Rightarrow> parse_positional arg rest cmd saw))"

lemma parse_arg_shorter:
  "parse_arg arg rest cmd saw = Continue rest' cmd' saw' \<Longrightarrow> length rest' \<le> length rest"
  unfolding parse_arg_def parse_valued_def parse_positional_def Let_def
  by (auto split: if_splits list.splits option.splits)

function parse_args :: "string list \<Rightarrow> command \<Rightarrow> bool \<Rightarrow> (cli_error, command) result" where
  "parse_args [] cmd saw =
     (case validate_multi_run cmd of Some e \<Rightarrow> Inl e | None \<Rightarrow> Inr cmd)"
| "parse_args (arg # rest) cmd saw =
     (case parse_arg arg rest cmd saw of
        Return r \<Rightarrow> r
      | Continue rest' cmd' saw' \<Rightarrow> parse_args rest' cmd' saw')"
  by pat_completeness auto
termination
  by (relation "measure (\<lambda>(args, _, _). length args)") (auto dest: parse_arg_shorter)

definition initial_command :: command where
  "initial_command = (command_of_kind CommandRun)\<lparr>cmd_script := ''dev''\<rparr>"

definition Parse :: "string list \<Rightarrow> (cli_error, command) result" where
  "Parse args = (if length args \<le> 1 then Inr initial_command
                 else parse_args (tl args) initial_command False)"

section \<open>Well-formed commands\<close>

text \<open>What every command returned by \<open>Parse\<close> satisfies.\<close>

definition command_wf :: "command \<Rightarrow> bool" where
  "command_wf cmd \<longleftrightarrow>
     (cmd_target_path cmd \<noteq> '''' \<longrightarrow> cmd_scripts cmd = []) \<and>
     0 \<le> cmd_target_port cmd \<and> cmd_target_port cmd \<le> 65535 \<and>
     (cmd_share_mode cmd = '''' \<or> cmd_share_mode cmd = ''lan'') \<and>
     (cmd_stop_all cmd \<longrightarrow> cmd_stop_target cmd = '''') \<and>
     (cmd_kind cmd = CommandRaw \<longleftrightarrow> cmd_raw cmd \<noteq> []) \<and>
     (cmd_json cmd \<longrightarrow> cmd_kind cmd = CommandList) \<and>
     (cmd_kind cmd = CommandRun \<and> 1 < length (cmd_scripts cmd) \<longrightarrow>
        cmd_as cmd = '''' \<and> cmd_target_port cmd = 0 \<and> cmd_share_mode cmd = '''')"

text \<open>What holds of the command and of \<open>sawScript\<close> each time round the loop of \<open>Parse\<close>.\<close>

definition loop_inv :: "command \<Rightarrow> bool \<Rightarrow> bool" where
  "loop_inv cmd saw \<longleftrightarrow>
     cmd_kind cmd = CommandRun \<and> cmd_raw cmd = [] \<and> \<not> cmd_json cmd \<and>
     (saw \<longleftrightarrow> cmd_scripts cmd \<noteq> []) \<and>
     (cmd_target_path cmd \<noteq> '''' \<longrightarrow> cmd_scripts cmd = []) \<and>
     0 \<le> cmd_target_port cmd \<and> cmd_target_port cmd \<le> 65535 \<and>
     (cmd_share_mode cmd = '''' \<or> cmd_share_mode cmd = ''lan'') \<and>
     \<not> cmd_stop_all cmd \<and> cmd_stop_target cmd = ''''"

lemma loop_inv_initial: "loop_inv initial_command False"
  by (simp add: loop_inv_def initial_command_def command_of_kind_def)

lemma loop_inv_setters [simp]:
  "loop_inv (cmd\<lparr>cmd_verbose := b\<rparr>) saw = loop_inv cmd saw"
  "loop_inv (cmd\<lparr>cmd_open := b\<rparr>) saw = loop_inv cmd saw"
  "loop_inv (cmd\<lparr>cmd_live := b\<rparr>) saw = loop_inv cmd saw"
  "loop_inv (cmd\<lparr>cmd_http := b\<rparr>) saw = loop_inv cmd saw"
  "loop_inv (cmd\<lparr>cmd_as := v\<rparr>) saw = loop_inv cmd saw"
  "loop_inv (cmd\<lparr>cmd_port_flag := v\<rparr>) saw = loop_inv cmd saw"
  by (simp_all add: loop_inv_def)

lemma loop_inv_port:
  "loop_inv cmd saw \<Longrightarrow> 0 < p \<Longrightarrow> p \<le> 65535 \<Longrightarrow> loop_inv (cmd\<lparr>cmd_target_port := p\<rparr>) saw"
  by (simp add: loop_inv_def)

lemma loop_inv_share: "loop_inv cmd saw \<Longrightarrow> loop_inv (cmd\<lparr>cmd_share_mode := ''lan''\<rparr>) saw"
  by (simp add: loop_inv_def)

lemma loop_inv_add_word:
  "loop_inv cmd saw \<Longrightarrow> saw \<Longrightarrow> cmd_target_path cmd = '''' \<Longrightarrow> loop_inv (add_word_script arg cmd) saw"
  by (simp add: loop_inv_def add_word_script_def)

lemma loop_inv_add_script:
  "loop_inv cmd saw \<Longrightarrow> cmd_target_path cmd = '''' \<Longrightarrow> loop_inv (add_script arg cmd) True"
  by (simp add: loop_inv_def add_script_def)

lemma loop_inv_path:
  "loop_inv cmd saw \<Longrightarrow> cmd_scripts cmd = [] \<Longrightarrow>
   loop_inv (cmd\<lparr>cmd_kind := CommandRun, cmd_script := v, cmd_target_path := arg\<rparr>) saw"
  by (simp add: loop_inv_def)

lemmas loop_inv_intros = loop_inv_port loop_inv_share loop_inv_add_word loop_inv_add_script
  loop_inv_path

lemma validate_multi_run_wf:
  "loop_inv cmd saw \<Longrightarrow> validate_multi_run cmd = None \<Longrightarrow> command_wf cmd"
  by (auto simp: loop_inv_def command_wf_def validate_multi_run_def split: if_splits)

lemma loop_inv_final:
  assumes "loop_inv cmd saw"
  shows "ws \<noteq> [] \<Longrightarrow> command_wf (cmd\<lparr>cmd_kind := CommandRaw, cmd_script := '''', cmd_raw := ws\<rparr>)"
    and "command_wf (cmd\<lparr>cmd_kind := CommandHelp, cmd_script := ''''\<rparr>)"
    and "command_wf (cmd\<lparr>cmd_kind := CommandVersion, cmd_script := ''''\<rparr>)"
  using assms by (auto simp: loop_inv_def command_wf_def)

lemma help_command_wf [simp]: "command_wf (help_command t)"
  by (simp add: help_command_def command_wf_def command_of_kind_def)

lemma fixed_command_wf: "command_wf cmd \<Longrightarrow> res_ok command_wf (fixed_command topic args cmd)"
proof (induction topic args cmd rule: fixed_command.induct)
  case (1 topic cmd)
  then show ?case by simp
next
  case (2 topic arg args cmd)
  have v: "command_wf (cmd\<lparr>cmd_verbose := True\<rparr>)"
    using "2.prems" by (simp add: command_wf_def)
  have j: "cmd_kind cmd = CommandList \<Longrightarrow> command_wf (cmd\<lparr>cmd_json := True\<rparr>)"
    using "2.prems" by (simp add: command_wf_def)
  show ?case
    unfolding fixed_command.simps(2)
    by (intro res_ok_if) (simp_all add: "2.IH" v j)
qed

lemma parse_stop_wf: "command_wf cmd \<Longrightarrow> res_ok command_wf (parse_stop args cmd)"
proof (induction args cmd rule: parse_stop.induct)
  case (1 cmd)
  then show ?case by simp
next
  case (2 arg args cmd)
  have a: "cmd_stop_target cmd = [] \<Longrightarrow> command_wf (cmd\<lparr>cmd_stop_all := True\<rparr>)"
    using "2.prems" by (simp add: command_wf_def)
  have t: "\<not> cmd_stop_all cmd \<Longrightarrow> command_wf (cmd\<lparr>cmd_stop_target := arg\<rparr>)"
    using "2.prems" by (simp add: command_wf_def)
  show ?case
    unfolding parse_stop.simps(2)
    by (intro res_ok_if) (simp_all add: "2.IH" a t)
qed

lemma command_of_kind_wf: "k \<noteq> CommandRaw \<Longrightarrow> command_wf (command_of_kind k)"
  by (simp add: command_wf_def command_of_kind_def)

lemma parse_service_wf: "res_ok command_wf (parse_service args)"
  unfolding parse_service_def
  by (intro res_ok_split) (simp_all add: command_of_kind_wf)

lemma reserved_word_wf: "reserved_word arg rest = Some r \<Longrightarrow> res_ok command_wf r"
  unfolding reserved_word_def
  by (auto simp: command_of_kind_wf parse_service_wf fixed_command_wf parse_stop_wf split: if_splits)

text \<open>One round keeps the invariant, or returns a well-formed command.\<close>

fun step_ok :: "parse_step \<Rightarrow> bool" where
  "step_ok (Return r) \<longleftrightarrow> res_ok command_wf r"
| "step_ok (Continue rest cmd saw) \<longleftrightarrow> loop_inv cmd saw"

lemma step_ok_if:
  "(c \<Longrightarrow> step_ok a) \<Longrightarrow> (\<not> c \<Longrightarrow> step_ok b) \<Longrightarrow> step_ok (if c then a else b)"
  by simp

lemma parse_positional_ok:
  assumes "loop_inv cmd saw" and "has_prefix arg ''-'' \<or> cmd_target_path cmd = []"
  shows "step_ok (parse_positional arg rest cmd saw)"
  using assms unfolding parse_positional_def Let_def
  by (intro step_ok_if) (simp_all add: loop_inv_intros)

lemma parse_valued_ok: "loop_inv cmd saw \<Longrightarrow> step_ok (parse_valued arg rest cmd saw)"
  unfolding parse_valued_def
  by (auto simp: loop_inv_port split: list.splits option.splits)

lemma reserved_word_no_dash: "reserved_word arg rest = Some r \<Longrightarrow> \<not> has_prefix arg ''-''"
  by (auto simp: reserved_word_def has_prefix_def split: if_splits)

lemma parse_arg_ok:
  assumes inv: "loop_inv cmd saw"
  shows "step_ok (parse_arg arg rest cmd saw)"
proof (cases "cmd_target_path cmd \<noteq> '''' \<and> arg \<noteq> ''--'' \<and> \<not> has_prefix arg ''-''")
  case True
  then show ?thesis by (simp add: parse_arg_def)
next
  case False
  have word: "step_ok (case reserved_word arg rest of
          Some r \<Rightarrow> if saw then Continue rest (add_word_script arg cmd) saw else Return r
        | None \<Rightarrow> parse_positional arg rest cmd saw)" if "arg \<noteq> ''--''"
    using that False inv
    by (auto simp: reserved_word_wf loop_inv_add_word parse_positional_ok
        split: option.splits dest: reserved_word_no_dash)
  show ?thesis
    unfolding parse_arg_def
    by (intro step_ok_if)
      (simp_all add: inv word parse_valued_ok loop_inv_final [OF inv] del: insert_iff)
qed

lemma parse_args_wf: "loop_inv cmd saw \<Longrightarrow> res_ok command_wf (parse_args args cmd saw)"
proof (induction args cmd saw rule: parse_args.induct)
  case (1 cmd saw)
  then show ?case
    by (auto simp: validate_multi_run_wf split: option.splits)
next
  case (2 arg rest cmd saw)
  from parse_arg_ok [OF "2.prems", of arg rest] "2.IH" show ?case
    by (cases "parse_arg arg rest cmd saw") auto
qed

section \<open>Script names and raw commands\<close>

definition is_reserved_word :: "string \<Rightarrow> bool" where
  "is_reserved_word w = (w \<in> set [''list'', ''stop'', ''prune'', ''doctor'', ''service'', ''setup'', ''uninstall''])"

lemma reserved_word_None: "reserved_word w rest = None \<longleftrightarrow> \<not> is_reserved_word w"
  by (simp add: reserved_word_def is_reserved_word_def)

text \<open>An argument that starts a run: not an option, not \<open>help\<close>, no reserved word, no path.\<close>

definition script_word :: "string \<Rightarrow> bool" where
  "script_word w \<longleftrightarrow> w \<noteq> '''' \<and> \<not> has_prefix w ''-'' \<and> w \<noteq> ''help'' \<and>
     \<not> is_reserved_word w \<and> \<not> is_explicit_path_arg w"

text \<open>An argument that names one more script once a script was seen.\<close>

definition later_word :: "string \<Rightarrow> bool" where
  "later_word w \<longleftrightarrow> script_word w \<or> is_reserved_word w"

lemma no_dash_not_option:
  "\<not> has_prefix w ''-'' \<Longrightarrow>
   w \<notin> {''--'', ''--verbose'', ''--open'', ''-o'', ''--live'', ''--http'', ''--share'', ''--as'',
        ''--target'', ''--port-flag'', ''--help'', ''-h'', ''--version'', ''-v''}"
  by (auto simp: has_prefix_def)

lemma no_dash_not_share: "\<not> has_prefix w ''-'' \<Longrightarrow> \<not> has_prefix w ''--share=''"
  by (cases w) (auto simp: has_prefix_def)

lemma parse_arg_word:
  assumes "\<not> has_prefix w ''-''" "w \<noteq> ''help''" "cmd_target_path cmd = ''''"
  shows "parse_arg w rest cmd saw =
     (case reserved_word w rest of
        Some r \<Rightarrow> if saw then Continue rest (add_word_script w cmd) saw else Return r
      | None \<Rightarrow> parse_positional w rest cmd saw)"
  using no_dash_not_option [OF assms(1)] assms(2,3) by (simp add: parse_arg_def)

lemma reserved_word_plain: "is_reserved_word w \<Longrightarrow> \<not> has_prefix w ''-'' \<and> w \<noteq> ''help''"
  by (auto simp: is_reserved_word_def has_prefix_def)

lemma parse_arg_script_word:
  assumes "script_word w" "cmd_target_path cmd = ''''"
  shows "parse_arg w rest cmd saw = Continue rest (add_script w cmd) True"
  using assms
  by (simp add: script_word_def parse_arg_word reserved_word_None [THEN iffD2]
      parse_positional_def no_dash_not_share)

lemma parse_arg_later_reserved:
  assumes "is_reserved_word w" "cmd_target_path cmd = ''''"
  shows "parse_arg w rest cmd True = Continue rest (add_word_script w cmd) True"
proof -
  obtain r where "reserved_word w rest = Some r"
    using assms(1) reserved_word_None [of w rest] by (cases "reserved_word w rest") auto
  then show ?thesis
    using reserved_word_plain [OF assms(1)] assms(2) by (simp add: parse_arg_word)
qed

lemma parse_args_later_words:
  assumes "list_all later_word ws" "cmd_script cmd \<noteq> ''''" "cmd_scripts cmd \<noteq> []"
    "cmd_kind cmd = CommandRun" "cmd_explicit_script cmd" "cmd_target_path cmd = ''''"
  shows "parse_args ws cmd True = parse_args [] (cmd\<lparr>cmd_scripts := cmd_scripts cmd @ ws\<rparr>) True"
  using assms
proof (induction ws arbitrary: cmd)
  case Nil
  then show ?case by simp
next
  case (Cons w ws)
  define cmd' where "cmd' = cmd\<lparr>cmd_scripts := cmd_scripts cmd @ [w]\<rparr>"
  have "add_script w cmd = cmd'" "add_word_script w cmd = cmd'"
    using Cons.prems by (simp_all add: add_script_def add_word_script_def cmd'_def)
  then have "parse_arg w ws cmd True = Continue ws cmd' True"
    using Cons.prems by (auto simp: later_word_def parse_arg_script_word parse_arg_later_reserved)
  then have "parse_args (w # ws) cmd True = parse_args ws cmd' True" by simp
  also have "\<dots> = parse_args [] (cmd'\<lparr>cmd_scripts := cmd_scripts cmd' @ ws\<rparr>) True"
    using Cons.prems by (intro Cons.IH) (simp_all add: cmd'_def)
  finally show ?case by (simp add: cmd'_def)
qed

lemma parse_args_scripts:
  assumes "script_word w" "list_all later_word ws"
  shows "parse_args (w # ws) initial_command False =
     Inr (initial_command\<lparr>cmd_explicit_script := True, cmd_script := w, cmd_scripts := w # ws\<rparr>)"
proof -
  let ?c = "add_script w initial_command"
  have c: "?c = initial_command\<lparr>cmd_explicit_script := True, cmd_script := w, cmd_scripts := [w]\<rparr>"
    by (simp add: add_script_def initial_command_def command_of_kind_def)
  have "parse_args (w # ws) initial_command False = parse_args ws ?c True"
    using assms(1) by (simp add: parse_arg_script_word initial_command_def command_of_kind_def)
  also have "\<dots> = parse_args [] (?c\<lparr>cmd_scripts := cmd_scripts ?c @ ws\<rparr>) True"
    using assms unfolding c by (intro parse_args_later_words)
      (simp_all add: initial_command_def command_of_kind_def script_word_def)
  finally show ?thesis
    unfolding c by (simp add: validate_multi_run_def initial_command_def command_of_kind_def)
qed

text \<open>Options that only set a flag, and the command they leave.\<close>

definition set_flag :: "string \<Rightarrow> command \<Rightarrow> command" where
  "set_flag f cmd =
     (if f = ''--verbose'' then cmd\<lparr>cmd_verbose := True\<rparr>
      else if f = ''--open'' \<or> f = ''-o'' then cmd\<lparr>cmd_open := True\<rparr>
      else if f = ''--live'' then cmd\<lparr>cmd_live := True\<rparr>
      else cmd\<lparr>cmd_http := True\<rparr>)"

definition is_flag :: "string \<Rightarrow> bool" where
  "is_flag f = (f \<in> set [''--verbose'', ''--open'', ''-o'', ''--live'', ''--http''])"

lemma parse_arg_flag:
  assumes "is_flag f"
  shows "parse_arg f rest cmd saw = Continue rest (set_flag f cmd) saw"
  using assms unfolding is_flag_def
  by (auto simp: parse_arg_def set_flag_def has_prefix_def)

lemma set_flag_path: "cmd_target_path (set_flag f cmd) = cmd_target_path cmd"
  by (simp add: set_flag_def)

lemma parse_args_raw:
  assumes "list_all is_flag fs" "ws \<noteq> []" "cmd_target_path cmd = ''''"
  shows "parse_args (fs @ ''--'' # ws) cmd saw =
     Inr ((fold set_flag fs cmd)\<lparr>cmd_kind := CommandRaw, cmd_script := '''', cmd_raw := ws\<rparr>)"
  using assms
proof (induction fs arbitrary: cmd)
  case Nil
  then show ?case by (simp add: parse_arg_def)
next
  case (Cons f fs)
  then show ?case by (simp add: parse_arg_flag set_flag_path)
qed

section \<open>Properties\<close>

text \<open>
  Whatever \<open>Parse\<close> accepts is consistent: a path target is never combined with
  scripts, a target port is 0 or a valid port, the share mode is empty or \<open>lan\<close>,
  \<open>stop\<close> never has both \<open>--all\<close> and a target, a raw command is present exactly for the
  raw kind, \<open>--json\<close> occurs for \<open>list\<close> only, and a run of several scripts has no
  single-project option.
\<close>

theorem Parse_wf: "Parse args = Inr cmd \<Longrightarrow> command_wf cmd"
  unfolding Parse_def
  using res_okD [OF parse_args_wf [OF loop_inv_initial, of "tl args"]]
  by (auto split: if_splits)
    (simp add: command_wf_def initial_command_def command_of_kind_def)

theorem Parse_wf_witness:
  "command_wf (initial_command\<lparr>cmd_target_port := 5173, cmd_kind := CommandRaw, cmd_script := '''',
      cmd_raw := [''npm'']\<rparr>)"
  by (rule Parse_wf [of "[''gohere'', ''--target'', ''5173'', ''--'', ''npm'']"])
    (simp add: Parse_def parse_arg_def parse_valued_def has_prefix_def atoi_def digits_val_def
      digit_val_def byte_defs initial_command_def command_of_kind_def)

text \<open>
  Once a script is named, every further word is one more script, in the order given,
  even when it is spelled like a sub-command (\<open>gohere dev list\<close> runs two scripts).
\<close>

theorem Parse_scripts:
  assumes "script_word w" and "list_all later_word ws"
  shows "Parse (prog # w # ws) =
     Inr (initial_command\<lparr>cmd_explicit_script := True, cmd_script := w, cmd_scripts := w # ws\<rparr>)"
  using parse_args_scripts [OF assms] by (simp add: Parse_def)

theorem Parse_scripts_witness:
  "Parse [''gohere'', ''dev'', ''list''] =
     Inr (initial_command\<lparr>cmd_explicit_script := True, cmd_script := ''dev'', cmd_scripts := [''dev'', ''list'']\<rparr>)"
  by (rule Parse_scripts [of "''dev''" "[''list'']"])
    (simp_all add: script_word_def later_word_def is_reserved_word_def is_explicit_path_arg_def
      is_windows_drive_path_def has_prefix_def byte_defs)

text \<open>
  After \<open>--\<close> nothing is interpreted: whatever flags come before it, the arguments
  after it are the raw command, word for word, options and sub-command names included.
\<close>

theorem Parse_raw:
  assumes "list_all is_flag fs" and "ws \<noteq> []"
  shows "Parse (prog # fs @ ''--'' # ws) =
     Inr ((fold set_flag fs initial_command)\<lparr>cmd_kind := CommandRaw, cmd_script := '''', cmd_raw := ws\<rparr>)"
  using parse_args_raw [OF assms, of initial_command False]
  by (simp add: Parse_def initial_command_def command_of_kind_def)

theorem Parse_raw_witness:
  "Parse [''gohere'', ''--live'', ''--'', ''--help'', ''stop''] =
     Inr (initial_command\<lparr>cmd_live := True, cmd_kind := CommandRaw, cmd_script := '''',
       cmd_raw := [''--help'', ''stop'']\<rparr>)"
  using Parse_raw [of "[''--live'']" "[''--help'', ''stop'']" "''gohere''"]
  by (simp add: is_flag_def set_flag_def)

text \<open>
  A relative Windows path with one backslash (\<open>.\dist\<close>, as a shell passes it) is not
  taken for a path target: it is parsed as the name of a package script.
\<close>

theorem Parse_backslash_path_is_script:
  "Parse [''gohere'', CHR ''.'' # CHR 0x5C # ''dist''] =
     Inr (initial_command\<lparr>cmd_explicit_script := True, cmd_script := CHR ''.'' # CHR 0x5C # ''dist'',
       cmd_scripts := [CHR ''.'' # CHR 0x5C # ''dist'']\<rparr>)"
  by (rule Parse_scripts [of "CHR ''.'' # CHR 0x5C # ''dist''" "[]"])
    (simp_all add: script_word_def is_reserved_word_def is_explicit_path_arg_def
      is_windows_drive_path_def has_prefix_def byte_defs)

end
