(* ===== verification/Mdns_Codec.thy ===== *)
theory Mdns_Codec
  imports Lan_Share "HOL-Library.Word"
begin

unbundle bit_operations_syntax

text \<open>
  Messages of the multicast DNS responder: \<open>internal/lanmdns/types.go\<close>, \<open>codec.go\<close>,
  \<open>probing.go\<close> and \<open>responding.go\<close>.

  A message is the part of \<open>dns.Msg\<close> that the code reads or fills in; packing and unpacking,
  \<open>dns.Fqdn\<close> and \<open>dns.IsDomainName\<close> belong to the library and are the parameters of \<open>dns_lib\<close>.
  Classes are 16-bit and times to live 32-bit words, as in the code. An address is the four bytes
  of an IPv4 \<open>netip.Addr\<close>; the bytes of an A record are a list, which \<open>To4\<close> reads.
\<close>

section \<open>Messages\<close>

type_synonym ip4 = "nat \<times> nat \<times> nat \<times> nat"

record rr_header =
  rh_name :: string
  rh_rrtype :: nat
  rh_class :: "16 word"
  rh_ttl :: "32 word"

datatype rr = RR_A rr_header "nat list" | RR_NSEC rr_header string "nat list" | RR_Other rr_header

fun rr_hdr :: "rr \<Rightarrow> rr_header" where
  "rr_hdr (RR_A h a) = h"
| "rr_hdr (RR_NSEC h n t) = h"
| "rr_hdr (RR_Other h) = h"

record dns_question =
  dq_name :: string
  dq_qtype :: nat
  dq_qclass :: "16 word"

record dns_msg =
  dm_id :: nat
  dm_response :: bool
  dm_authoritative :: bool
  dm_opcode :: nat
  dm_truncated :: bool
  dm_question :: "dns_question list"
  dm_answer :: "rr list"
  dm_ns :: "rr list"
  dm_extra :: "rr list"

record dns_lib =
  dl_fqdn :: "string \<Rightarrow> string"
  dl_is_domain_name :: "string \<Rightarrow> bool"
  dl_pack :: "dns_msg \<Rightarrow> nat list option"
  dl_unpack :: "nat list \<Rightarrow> dns_msg option"
  dl_set_reply :: "dns_msg \<Rightarrow> dns_msg \<Rightarrow> dns_msg"

definition TypeA :: nat where "TypeA = 1"
definition TypeNSEC :: nat where "TypeNSEC = 47"
definition TypeANY :: nat where "TypeANY = 255"
definition ClassINET :: "16 word" where "ClassINET = 1"
definition ClassANY :: "16 word" where "ClassANY = 255"
definition OpcodeQuery :: nat where "OpcodeQuery = 0"

definition recordTTL :: "32 word" where "recordTTL = 120"
definition legacyTTL :: "32 word" where "legacyTTL = 10"
definition cacheFlushBit :: "16 word" where "cacheFlushBit = push_bit 15 1"

definition empty_msg :: dns_msg where
  "empty_msg = \<lparr>dm_id = 0, dm_response = False, dm_authoritative = False, dm_opcode = 0, dm_truncated = False,
     dm_question = [], dm_answer = [], dm_ns = [], dm_extra = []\<rparr>"

datatype mdns_error = MdnsError string

definition decodePacket :: "dns_lib \<Rightarrow> nat list \<Rightarrow> (mdns_error, dns_msg) result" where
  "decodePacket lib payload =
     (case dl_unpack lib payload of
        None \<Rightarrow> Inl (MdnsError ''decode mDNS packet'')
      | Some msg \<Rightarrow> if dm_opcode msg \<noteq> OpcodeQuery then Inl (MdnsError ''unsupported mDNS opcode'') else Inr msg)"

definition packMessage :: "dns_lib \<Rightarrow> dns_msg \<Rightarrow> (mdns_error, nat list) result" where
  "packMessage lib msg =
     (case dl_pack lib msg of None \<Rightarrow> Inl (MdnsError ''encode mDNS packet'') | Some payload \<Rightarrow> Inr payload)"

definition canonicalHostname :: "dns_lib \<Rightarrow> string \<Rightarrow> (mdns_error, string) result" where
  "canonicalHostname lib raw =
     (let hostname = to_lower (dl_fqdn lib (trim_space raw)) in
      if \<not> has_suffix hostname ''.local.'' then Inl (MdnsError ''mDNS hostname must end in .local'')
      else (let label = trim_suffix hostname ''.local.'' in
            if label = '''' \<or> contains label ''.'' \<or> length label > 63
            then Inl (MdnsError ''mDNS hostname must contain one label of at most 63 bytes'')
            else if \<not> dl_is_domain_name lib hostname then Inl (MdnsError ''invalid mDNS hostname'')
            else Inr hostname))"

definition record_class :: "bool \<Rightarrow> 16 word" where
  "record_class flush = (if flush then ClassINET OR cacheFlushBit else ClassINET)"

definition ip4_bytes :: "ip4 \<Rightarrow> nat list" where
  "ip4_bytes = (\<lambda>(a, b, c, d). [a, b, c, d])"

definition aRecord :: "string \<Rightarrow> ip4 \<Rightarrow> 32 word \<Rightarrow> bool \<Rightarrow> rr" where
  "aRecord hostname addr ttl flush =
     RR_A \<lparr>rh_name = hostname, rh_rrtype = TypeA, rh_class = record_class flush, rh_ttl = ttl\<rparr> (ip4_bytes addr)"

definition nsecRecord :: "string \<Rightarrow> 32 word \<Rightarrow> bool \<Rightarrow> rr" where
  "nsecRecord hostname ttl flush =
     RR_NSEC \<lparr>rh_name = hostname, rh_rrtype = TypeNSEC, rh_class = record_class flush, rh_ttl = ttl\<rparr> hostname [TypeA]"

definition ownedRecords :: "string \<Rightarrow> ip4 \<Rightarrow> 32 word \<Rightarrow> bool \<Rightarrow> rr list" where
  "ownedRecords hostname addr ttl flush = [aRecord hostname addr ttl flush, nsecRecord hostname ttl flush]"

definition probeMessage :: "dns_lib \<Rightarrow> string \<Rightarrow> ip4 \<Rightarrow> (mdns_error, nat list) result" where
  "probeMessage lib raw addr =
     res_bind (canonicalHostname lib raw) (\<lambda>hostname.
       packMessage lib (empty_msg\<lparr>dm_question := [\<lparr>dq_name = hostname, dq_qtype = TypeANY, dq_qclass = ClassINET\<rparr>],
         dm_ns := [aRecord hostname addr recordTTL False]\<rparr>))"

definition announcementMessage :: "dns_lib \<Rightarrow> string \<Rightarrow> ip4 \<Rightarrow> 32 word \<Rightarrow> (mdns_error, nat list) result" where
  "announcementMessage lib raw addr ttl =
     res_bind (canonicalHostname lib raw) (\<lambda>hostname.
       packMessage lib (empty_msg\<lparr>dm_response := True, dm_authoritative := True,
         dm_answer := ownedRecords hostname addr ttl True\<rparr>))"

definition goodbyeMessage :: "dns_lib \<Rightarrow> string \<Rightarrow> ip4 \<Rightarrow> (mdns_error, nat list) result" where
  "goodbyeMessage lib hostname addr = announcementMessage lib hostname addr 0"

text \<open>The loop over the questions: whether one matched, and whether an A or an NSEC record is wanted.\<close>

fun wanted_records :: "dns_lib \<Rightarrow> string \<Rightarrow> dns_question list \<Rightarrow> bool \<times> bool \<times> bool \<Rightarrow> bool \<times> bool \<times> bool" where
  "wanted_records lib hostname [] w = w"
| "wanted_records lib hostname (q # qs) (matched, wantA, wantNSEC) =
     (if \<not> equal_fold (dl_fqdn lib (dq_name q)) hostname then wanted_records lib hostname qs (matched, wantA, wantNSEC)
      else (let class = dq_qclass q AND NOT cacheFlushBit in
            if class \<noteq> ClassINET \<and> class \<noteq> ClassANY then wanted_records lib hostname qs (matched, wantA, wantNSEC)
            else if dq_qtype q = TypeA then wanted_records lib hostname qs (True, True, wantNSEC)
            else if dq_qtype q = TypeANY then wanted_records lib hostname qs (True, True, True)
            else wanted_records lib hostname qs (True, wantA, True)))"

definition response_msg :: "dns_lib \<Rightarrow> dns_msg \<Rightarrow> string \<Rightarrow> ip4 \<Rightarrow> bool \<Rightarrow> bool \<Rightarrow> bool \<Rightarrow> dns_msg" where
  "response_msg lib query hostname addr legacy wantA wantNSEC =
     (let ttl = (if legacy then legacyTTL else recordTTL);
          flush = \<not> legacy;
          msg = empty_msg\<lparr>dm_response := True, dm_authoritative := True\<rparr>;
          msg = (if legacy then (dl_set_reply lib msg query)\<lparr>dm_authoritative := True\<rparr> else msg);
          msg = (if wantA then msg\<lparr>dm_answer := dm_answer msg @ [aRecord hostname addr ttl flush]\<rparr> else msg)
      in (if wantNSEC then msg\<lparr>dm_answer := dm_answer msg @ [nsecRecord hostname ttl flush]\<rparr> else msg))"

definition responseMessage :: "dns_lib \<Rightarrow> dns_msg \<Rightarrow> string \<Rightarrow> ip4 \<Rightarrow> bool \<Rightarrow> (mdns_error, nat list) result" where
  "responseMessage lib query raw addr legacy =
     (if dm_question query = [] then Inl (MdnsError ''mDNS response requires a question'')
      else res_bind (canonicalHostname lib raw) (\<lambda>hostname.
        case wanted_records lib hostname (dm_question query) (False, False, False) of
          (matched, wantA, wantNSEC) \<Rightarrow>
            if \<not> matched then Inl (MdnsError ''mDNS query does not ask for the name'')
            else packMessage lib (response_msg lib query hostname addr legacy wantA wantNSEC)))"

section \<open>Probing\<close>

definition conflictWindow :: duration where "conflictWindow = 10 * second"
definition conflictFloodBackoff :: duration where "conflictFloodBackoff = 5 * second"
definition probingFailureLimit :: duration where "probingFailureLimit = minute"

text \<open>A Go \<open>int\<close> addition: 64 bits, wrapping.\<close>

definition int64_add :: "int \<Rightarrow> int \<Rightarrow> int" where
  "int64_add a b = (a + b + 2 ^ 63) mod 2 ^ 64 - 2 ^ 63"

text \<open>The base and the number of the next name: a numeric suffix of at least 2 is counted up.\<close>

definition conflict_base :: "string \<Rightarrow> string \<times> int" where
  "conflict_base label =
     (case last_index_byte CHR ''-'' label of
        None \<Rightarrow> (label, 2)
      | Some dash \<Rightarrow>
          if 0 < dash \<and> Suc dash < length label then
            (case atoi (drop (Suc dash) label) of
               None \<Rightarrow> (label, 2)
             | Some parsed \<Rightarrow> if parsed \<ge> 2 then (take dash label, int64_add parsed 1) else (label, 2))
          else (label, 2))"

definition nextConflictHostname :: "dns_lib \<Rightarrow> string \<Rightarrow> (mdns_error, string) result" where
  "nextConflictHostname lib raw =
     res_bind (canonicalHostname lib raw) (\<lambda>hostname.
       case conflict_base (trim_suffix hostname ''.local.'') of
         (base, number) \<Rightarrow>
           (let suf = ''-'' @ itoa number;
                base = (if length base + length suf > 63 then take (63 - length suf) base else base)
            in if base = '''' then Inl (MdnsError ''mDNS hostname cannot be suffixed'')
               else Inr (base @ suf @ ''.local.'')))"

text \<open>\<open>bytes.Compare\<close> of the two addresses.\<close>

fun compare_bytes :: "nat list \<Rightarrow> nat list \<Rightarrow> int" where
  "compare_bytes [] [] = 0"
| "compare_bytes [] (y # ys) = -1"
| "compare_bytes (x # xs) [] = 1"
| "compare_bytes (x # xs) (y # ys) = (if x < y then -1 else if y < x then 1 else compare_bytes xs ys)"

definition compareProbeIPv4 :: "ip4 \<Rightarrow> ip4 \<Rightarrow> int" where
  "compareProbeIPv4 ours theirs = compare_bytes (ip4_bytes ours) (ip4_bytes theirs)"

definition conflictBackoff :: "time \<Rightarrow> time list \<Rightarrow> duration" where
  "conflictBackoff now conflicts =
     (let cutoff = now - conflictWindow;
          count = length (filter (\<lambda>conflict. \<not> conflict < cutoff \<and> \<not> now < conflict) conflicts)
      in if count \<ge> 15 then conflictFloodBackoff else 0)"

definition responseClaimsName :: "dns_msg \<Rightarrow> string \<Rightarrow> bool" where
  "responseClaimsName msg hostname \<longleftrightarrow>
     dm_response msg \<and>
     list_ex (\<lambda>r. equal_fold (rh_name (rr_hdr r)) hostname \<and> rh_rrtype (rr_hdr r) \<noteq> TypeNSEC)
       (dm_answer msg @ dm_ns msg @ dm_extra msg)"

text \<open>\<open>net.IP.To4\<close> followed by \<open>netip.AddrFromSlice\<close>.\<close>

definition to4 :: "nat list \<Rightarrow> ip4 option" where
  "to4 bs =
     (case bs of
        [a, b, c, d] \<Rightarrow> Some (a, b, c, d)
      | _ \<Rightarrow>
          if length bs = 16 \<and> take 12 bs = replicate 10 0 @ [255, 255]
          then Some (bs ! 12, bs ! 13, bs ! 14, bs ! 15) else None)"

fun first_a_record :: "string \<Rightarrow> rr list \<Rightarrow> ip4 option" where
  "first_a_record hostname [] = None"
| "first_a_record hostname (RR_A h a # rs) =
     (if equal_fold (rh_name h) hostname then to4 a else first_a_record hostname rs)"
| "first_a_record hostname (r # rs) = first_a_record hostname rs"

definition probeOpponentIPv4 :: "dns_msg \<Rightarrow> string \<Rightarrow> ip4 option" where
  "probeOpponentIPv4 msg hostname =
     (if dm_response msg then None
      else if \<not> list_ex (\<lambda>q. equal_fold (dq_name q) hostname \<and> dq_qtype q = TypeANY) (dm_question msg) then None
      else first_a_record hostname (dm_ns msg))"

section \<open>Responding\<close>

fun claims_other :: "string \<Rightarrow> ip4 \<Rightarrow> rr \<Rightarrow> bool" where
  "claims_other hostname addr (RR_A h a) \<longleftrightarrow> equal_fold (rh_name h) hostname \<and> to4 a \<noteq> None \<and> to4 a \<noteq> Some addr"
| "claims_other hostname addr r \<longleftrightarrow> False"

definition conflictingAResponse :: "dns_msg \<Rightarrow> string \<Rightarrow> ip4 \<Rightarrow> bool" where
  "conflictingAResponse msg hostname addr \<longleftrightarrow>
     dm_response msg \<and> list_ex (claims_other hostname addr) (dm_answer msg @ dm_ns msg @ dm_extra msg)"

definition queryResponseDelay :: "dns_msg \<Rightarrow> (duration \<Rightarrow> duration) \<Rightarrow> duration" where
  "queryResponseDelay msg random =
     (if dm_truncated msg then 400 * millisecond + random (100 * millisecond)
      else if length (dm_question msg) > 1 then 20 * millisecond + random (100 * millisecond)
      else 0)"

definition multicastDue :: "time \<Rightarrow> time \<Rightarrow> bool \<Rightarrow> time" where
  "multicastDue now lastMulticast probeDefense =
     (let due = lastMulticast + (if probeDefense then 250 * millisecond else second)
      in if due < now then now else due)"

fun known_answer :: "string \<Rightarrow> ip4 \<Rightarrow> rr \<Rightarrow> bool" where
  "known_answer hostname addr (RR_A h a) \<longleftrightarrow>
     equal_fold (rh_name h) hostname \<and> \<not> rh_ttl h < recordTTL div 2 \<and> to4 a = Some addr"
| "known_answer hostname addr r \<longleftrightarrow> False"

definition knownAnswerSuppresses :: "dns_msg \<Rightarrow> string \<Rightarrow> ip4 \<Rightarrow> bool" where
  "knownAnswerSuppresses msg hostname addr \<longleftrightarrow> list_ex (known_answer hostname addr) (dm_answer msg)"

text \<open>An address and a port; a packet as the transport delivers it.\<close>

type_synonym addr_port = "ip \<times> nat"

record mdns_packet =
  mp_payload :: "nat list"
  mp_source :: addr_port

definition mdnsIPv4AddrPort :: addr_port where
  "mdnsIPv4AddrPort = (IPv4 224 0 0 251, 5353)"

definition prefix_contains :: "ip4 \<times> nat \<Rightarrow> ip \<Rightarrow> bool" where
  "prefix_contains p address =
     (case address of IPv4 a b c d \<Rightarrow> prefix4_contains p (a, b, c, d) | IPv6 _ \<Rightarrow> False)"

definition responseDestination ::
  "mdns_packet \<Rightarrow> dns_question \<Rightarrow> time \<Rightarrow> time \<Rightarrow> ip4 \<times> nat \<Rightarrow> addr_port option" where
  "responseDestination inbound question lastMulticast now pfx =
     (if snd (mp_source inbound) \<noteq> 5353 then
        (if \<not> prefix_contains pfx (fst (mp_source inbound)) then None else Some (mp_source inbound))
      else if dq_qclass question AND cacheFlushBit \<noteq> 0 \<and> prefix_contains pfx (fst (mp_source inbound))
              \<and> now - lastMulticast < uint (recordTTL div 4) * second
      then Some (mp_source inbound)
      else Some mdnsIPv4AddrPort)"

section \<open>Lemmas\<close>

lemma compare_bytes_antisym: "compare_bytes ys xs = - compare_bytes xs ys"
  by (induction xs ys rule: compare_bytes.induct) auto

lemma compare_bytes_zero: "compare_bytes xs ys = 0 \<longleftrightarrow> xs = ys"
  by (induction xs ys rule: compare_bytes.induct) auto

lemma last_index_byte_app: "c \<notin> set b \<Longrightarrow> last_index_byte c (a @ c # b) = Some (length a)"
  by (induction a) (auto simp: last_index_byte_None)

lemma is_digit_lan_label_char: "is_digit c \<Longrightarrow> lan_label_char c"
  by (simp add: lan_label_char_def)

subsection \<open>Names after a conflict\<close>

text \<open>The label of a LAN name: what the program registers, and what a suffix makes of it.\<close>

definition mdns_label :: "string \<Rightarrow> bool" where
  "mdns_label l \<longleftrightarrow> l \<noteq> [] \<and> length l \<le> 63 \<and> list_all lan_label_char l"

text \<open>The library accepts such a name as fully qualified and as a domain name.\<close>

definition dns_lib_ok :: "dns_lib \<Rightarrow> bool" where
  "dns_lib_ok lib \<longleftrightarrow> (\<forall>l. mdns_label l \<longrightarrow>
     dl_fqdn lib (l @ ''.local.'') = l @ ''.local.'' \<and> dl_is_domain_name lib (l @ ''.local.''))"

lemma mdns_label_chars: "mdns_label l \<Longrightarrow> c \<in> set l \<Longrightarrow> lan_label_char c"
  by (auto simp: mdns_label_def list_all_iff)

lemma canonicalHostname_label:
  assumes "dns_lib_ok lib" "mdns_label l"
  shows "canonicalHostname lib (l @ ''.local.'') = Inr (l @ ''.local.'')"
proof -
  let ?h = "l @ ''.local.''"
  note c = mdns_label_chars [OF assms(2)]
  have up: "\<forall>c \<in> set ?h. \<not> is_upper c"
    using lan_label_char_facts(1) [OF c] by (auto simp: byte_defs)
  have "\<not> is_space (hd ?h)" using c [of "hd l"] assms(2) lan_label_char_facts(2) by (auto simp: mdns_label_def)
  moreover have "\<not> is_space (last ?h)" by (simp add: byte_defs)
  ultimately have t: "trim_space ?h = ?h" unfolding trim_space_def by (intro trim_id) simp
  have dots: "\<not> contains l ''.''" using lan_label_char_facts(4) [OF c] by (auto simp: contains_single)
  have lib: "dl_fqdn lib ?h = ?h" "dl_is_domain_name lib ?h"
    using assms by (simp_all add: dns_lib_ok_def)
  show ?thesis
    unfolding canonicalHostname_def t lib(1) to_lower_id [OF up] Let_def
    using assms(2) dots lib(2) by (simp add: mdns_label_def)
qed

lemma itoa_nonneg: "0 \<le> i \<Longrightarrow> itoa i = nat_digits (nat i)"
  by (simp add: itoa_def)

lemma itoa_digits: "0 \<le> i \<Longrightarrow> c \<in> set (itoa i) \<Longrightarrow> is_digit c"
  by (auto simp: itoa_nonneg dest: nat_digits_digit)

lemma itoa_length: "0 \<le> i \<Longrightarrow> i < 2 ^ 63 \<Longrightarrow> length (itoa i) \<le> 19"
  using nat_digits_length [of "nat i" 19] by (simp add: itoa_nonneg nat_less_iff)

lemma not_digit_dash: "is_digit c \<Longrightarrow> c \<noteq> CHR ''-''"
  by (auto simp: byte_defs)

lemma conflict_base_suffixed:
  assumes "b \<noteq> []" "2 \<le> n" "n < 2 ^ 63 - 1"
  shows "conflict_base (b @ ''-'' @ itoa n) = (b, n + 1)"
proof -
  have "CHR ''-'' \<notin> set (itoa n)" using itoa_digits [of n] not_digit_dash assms(2) by auto
  from last_index_byte_app [OF this, of b]
  have l: "last_index_byte CHR ''-'' (b @ ''-'' @ itoa n) = Some (length b)" by simp
  have ne: "itoa n \<noteq> []" using assms(2) by (simp add: itoa_nonneg)
  have "int64_add n 1 = n + 1" using assms(2,3) by (simp add: int64_add_def)
  with l ne assms atoi_itoa [of n] show ?thesis by (simp add: conflict_base_def)
qed

lemma conflict_base_facts:
  assumes "conflict_base l = (b, n)" "mdns_label l" "n > 0"
  shows "mdns_label b \<and> 2 \<le> n"
proof (cases "b = l \<and> n = 2")
  case True
  with assms show ?thesis by simp
next
  case False
  then obtain dash parsed where d: "last_index_byte CHR ''-'' l = Some dash" "0 < dash" "Suc dash < length l"
    and a: "atoi (drop (Suc dash) l) = Some parsed" "parsed \<ge> 2"
    using assms(1) unfolding conflict_base_def by (simp split: option.splits if_splits)
  then have "b = take dash l" "n = int64_add parsed 1" using assms(1) by (simp_all add: conflict_base_def)
  have p: "parsed < 2 ^ 63" using a(1) unfolding atoi_def Let_def by (simp split: if_splits)
  have "n \<ge> 3"
  proof (cases "parsed = 2 ^ 63 - 1")
    case True
    then have "n < 0" using \<open>n = int64_add parsed 1\<close> by (simp add: int64_add_def)
    with assms(3) show ?thesis by simp
  next
    case False
    with p have "parsed < 2 ^ 63 - 1" by simp
    then have "n = parsed + 1" using \<open>n = int64_add parsed 1\<close> a(2) by (simp add: int64_add_def)
    with a(2) show ?thesis by simp
  qed
  moreover have "mdns_label b"
    using assms(2) d \<open>b = take dash l\<close>
    by (auto simp: mdns_label_def list_all_iff dest: in_set_takeD)
  ultimately show ?thesis by simp
qed

lemma nextConflictHostname_step:
  assumes "dns_lib_ok lib" "mdns_label l" "conflict_base l = (b, n)" "2 \<le> n" "n < 2 ^ 63"
  obtains b' where "nextConflictHostname lib (l @ ''.local.'') = Inr ((b' @ ''-'' @ itoa n) @ ''.local.'')"
    "mdns_label (b' @ ''-'' @ itoa n)" "b' \<noteq> []"
proof
  let ?suf = "''-'' @ itoa n"
  let ?b = "if length b + length ?suf > 63 then take (63 - length ?suf) b else b"
  have b: "mdns_label b" using conflict_base_facts [OF assms(3,2)] assms(4) by simp
  have len: "length (itoa n) \<le> 19" using itoa_length [of n] assms(4,5) by simp
  then show ne: "?b \<noteq> []" using b by (auto simp: mdns_label_def)
  show "nextConflictHostname lib (l @ ''.local.'') = Inr ((?b @ ''-'' @ itoa n) @ ''.local.'')"
    unfolding nextConflictHostname_def canonicalHostname_label [OF assms(1,2)] res_bind_simps trim_suffix_append
      assms(3) prod.case Let_def
    using ne by simp
  have "list_all lan_label_char (?b @ ?suf)"
    using b itoa_digits [of n] assms(4) is_digit_lan_label_char
    by (auto simp: mdns_label_def list_all_iff dest: in_set_takeD) (simp_all add: lan_label_char_def)
  then show "mdns_label (?b @ ''-'' @ itoa n)" using len by (simp add: mdns_label_def)
qed

text \<open>The names a claim tries after repeated conflicts.\<close>

fun conflict_name :: "dns_lib \<Rightarrow> nat \<Rightarrow> string \<Rightarrow> (mdns_error, string) result" where
  "conflict_name lib 0 hostname = Inr hostname"
| "conflict_name lib (Suc k) hostname = res_bind (conflict_name lib k hostname) (nextConflictHostname lib)"

lemma conflict_name_form:
  assumes "dns_lib_ok lib" "mdns_label l" "snd (conflict_base l) = n" "2 \<le> n" "n + int k < 2 ^ 63"
  shows "\<exists>b. b \<noteq> [] \<and> mdns_label (b @ ''-'' @ itoa (n + int k)) \<and>
    conflict_name lib (Suc k) (l @ ''.local.'') = Inr ((b @ ''-'' @ itoa (n + int k)) @ ''.local.'')"
  using assms(5)
proof (induction k)
  case 0
  obtain b where "conflict_base l = (b, n)" using assms(3) by (cases "conflict_base l") simp
  from nextConflictHostname_step [OF assms(1,2) this assms(4)] 0 obtain b' where
    "nextConflictHostname lib (l @ ''.local.'') = Inr ((b' @ ''-'' @ itoa n) @ ''.local.'')"
    "mdns_label (b' @ ''-'' @ itoa n)" "b' \<noteq> []" by auto
  then show ?case by (intro exI [of _ b']) simp
next
  case (Suc k)
  then obtain b where b: "b \<noteq> []" "mdns_label (b @ ''-'' @ itoa (n + int k))"
      "conflict_name lib (Suc k) (l @ ''.local.'') = Inr ((b @ ''-'' @ itoa (n + int k)) @ ''.local.'')"
    by auto
  have "conflict_base (b @ ''-'' @ itoa (n + int k)) = (b, n + int k + 1)"
    by (rule conflict_base_suffixed [OF b(1)]) (use assms(4) Suc.prems in simp_all)
  from nextConflictHostname_step [OF assms(1) b(2) this] assms(4) Suc.prems obtain b' where
    n: "nextConflictHostname lib ((b @ ''-'' @ itoa (n + int k)) @ ''.local.'') =
       Inr ((b' @ ''-'' @ itoa (n + int k + 1)) @ ''.local.'')"
    "mdns_label (b' @ ''-'' @ itoa (n + int k + 1))" "b' \<noteq> []" by auto
  have k: "n + int (Suc k) = n + int k + 1" by simp
  from n b(3) show ?case unfolding k conflict_name.simps(2) [of lib "Suc k"] by (intro exI [of _ b']) simp
qed

lemma itoa_inj: "0 \<le> i \<Longrightarrow> 0 \<le> j \<Longrightarrow> itoa i = itoa j \<longleftrightarrow> i = j"
  by (simp add: itoa_nonneg nat_digits_inj eq_nat_nat_iff)

lemma conflict_name_number:
  assumes "dns_lib_ok lib" "mdns_label l" "conflict_base l = (b, n)" "2 \<le> n" "n + int i < 2 ^ 63"
  shows "\<exists>li. mdns_label li \<and> conflict_name lib i (l @ ''.local.'') = Inr (li @ ''.local.'') \<and>
    snd (conflict_base li) = n + int i"
proof (cases i)
  case 0
  with assms show ?thesis by (intro exI [of _ l]) simp
next
  case (Suc k)
  have "snd (conflict_base l) = n" using assms(3) by simp
  from conflict_name_form [OF assms(1,2) this assms(4), of k] assms(5) Suc obtain b' where
    b': "b' \<noteq> []" "mdns_label (b' @ ''-'' @ itoa (n + int k))"
      "conflict_name lib i (l @ ''.local.'') = Inr ((b' @ ''-'' @ itoa (n + int k)) @ ''.local.'')" by auto
  have "conflict_base (b' @ ''-'' @ itoa (n + int k)) = (b', n + int k + 1)"
    by (rule conflict_base_suffixed [OF b'(1)]) (use assms(4,5) Suc in simp_all)
  then show ?thesis using b' Suc by (intro exI [of _ "b' @ ''-'' @ itoa (n + int k)"]) simp
qed

subsection \<open>Responses\<close>

text \<open>A question the responder answers for \<open>hostname\<close>: the name, and the Internet or the any class.\<close>

definition asks :: "dns_lib \<Rightarrow> string \<Rightarrow> dns_question \<Rightarrow> bool" where
  "asks lib hostname q \<longleftrightarrow> equal_fold (dl_fqdn lib (dq_name q)) hostname \<and>
     dq_qclass q AND NOT cacheFlushBit \<in> {ClassINET, ClassANY}"

lemma wanted_records_spec:
  "wanted_records lib hostname qs (m, a, n) =
     (m \<or> (\<exists>q \<in> set qs. asks lib hostname q),
      a \<or> (\<exists>q \<in> set qs. asks lib hostname q \<and> dq_qtype q \<in> {TypeA, TypeANY}),
      n \<or> (\<exists>q \<in> set qs. asks lib hostname q \<and> dq_qtype q \<noteq> TypeA))"
proof (induction qs arbitrary: m a n)
  case Nil
  then show ?case by simp
next
  case (Cons q qs)
  have "TypeANY \<noteq> TypeA" by (simp add: TypeANY_def TypeA_def)
  with Cons show ?case by (auto simp: asks_def Let_def)
qed

lemma response_msg_answer:
  "dm_authoritative (response_msg lib query h addr legacy wantA wantNSEC)"
  "dm_answer (response_msg lib query h addr legacy wantA wantNSEC) =
     (if legacy then dm_answer (dl_set_reply lib (empty_msg\<lparr>dm_response := True, dm_authoritative := True\<rparr>) query) else []) @
     (if wantA then [aRecord h addr (if legacy then legacyTTL else recordTTL) (\<not> legacy)] else []) @
     (if wantNSEC then [nsecRecord h (if legacy then legacyTTL else recordTTL) (\<not> legacy)] else [])"
  by (simp_all add: response_msg_def Let_def empty_msg_def)

section \<open>Properties\<close>

text \<open>
  The names a claim tries after conflicts never repeat: starting from a label, all the names of
  the first \<open>k\<close> renamings are pairwise different valid labels of at most 63 bytes under \<open>.local\<close>,
  as long as the number in the suffix fits the 64-bit \<open>int\<close>, even where the label is cut to make room.
\<close>

theorem conflict_names_distinct:
  assumes "dns_lib_ok lib" "mdns_label l" "conflict_base l = (b, n)" "2 \<le> n" "n + int k < 2 ^ 63"
    and "i < j" "j \<le> k"
  shows "\<exists>li lj. conflict_name lib i (l @ ''.local.'') = Inr (li @ ''.local.'') \<and> mdns_label li \<and>
    conflict_name lib j (l @ ''.local.'') = Inr (lj @ ''.local.'') \<and> mdns_label lj \<and> li \<noteq> lj"
proof -
  from conflict_name_number [OF assms(1-4), of i] assms(5-7) obtain li where
    "mdns_label li" "conflict_name lib i (l @ ''.local.'') = Inr (li @ ''.local.'')" "snd (conflict_base li) = n + int i"
    by auto
  moreover from conflict_name_number [OF assms(1-4), of j] assms(5-7) obtain lj where
    "mdns_label lj" "conflict_name lib j (l @ ''.local.'') = Inr (lj @ ''.local.'')" "snd (conflict_base lj) = n + int j"
    by auto
  ultimately show ?thesis using assms(6) by fastforce
qed

text \<open>A library for the examples: names are fully qualified already, messages are packed as no bytes.\<close>

definition plain_dns :: dns_lib where
  "plain_dns = \<lparr>dl_fqdn = \<lambda>s. s, dl_is_domain_name = \<lambda>_. True, dl_pack = \<lambda>_. Some [], dl_unpack = \<lambda>_. Some empty_msg,
     dl_set_reply = \<lambda>msg query. msg\<lparr>dm_id := dm_id query, dm_question := dm_question query\<rparr>\<rparr>"

lemma plain_dns_ok: "dns_lib_ok plain_dns"
  by (simp add: dns_lib_ok_def plain_dns_def)

theorem conflict_names_distinct_witness:
  "\<exists>li lj. conflict_name plain_dns 0 (''app-7'' @ ''.local.'') = Inr (li @ ''.local.'') \<and> mdns_label li \<and>
    conflict_name plain_dns 2 (''app-7'' @ ''.local.'') = Inr (lj @ ''.local.'') \<and> mdns_label lj \<and> li \<noteq> lj"
proof -
  have "mdns_label ''app-7''" "conflict_base ''app-7'' = (''app'', 8)" by code_simp+
  from conflict_names_distinct [OF plain_dns_ok this, of 2 0 2] show ?thesis by simp
qed

text \<open>
  The probe tie-break is the numeric order of the addresses: of two hosts with different
  addresses that see each other's probes exactly one loses, so both never give up the same name.
\<close>

definition octets :: "ip4 \<Rightarrow> bool" where
  "octets = (\<lambda>(a, b, c, d). a < 256 \<and> b < 256 \<and> c < 256 \<and> d < 256)"

theorem compareProbeIPv4_numeric:
  assumes "octets a" "octets b"
  shows "compareProbeIPv4 a b = sgn (int (ip4_bits a) - int (ip4_bits b))"
proof -
  obtain a1 a2 a3 a4 where a: "a = (a1, a2, a3, a4)" by (cases a)
  obtain b1 b2 b3 b4 where b: "b = (b1, b2, b3, b4)" by (cases b)
  have "a1 < 256" "a2 < 256" "a3 < 256" "a4 < 256" "b1 < 256" "b2 < 256" "b3 < 256" "b4 < 256"
    using assms by (simp_all add: a b octets_def)
  then show ?thesis
    unfolding compareProbeIPv4_def ip4_bytes_def ip4_bits_def a b prod.case compare_bytes.simps
    by (auto simp: sgn_if)
qed

theorem compareProbeIPv4_numeric_witness:
  "compareProbeIPv4 (192, 168, 1, 9) (192, 168, 2, 1) =
     sgn (int (ip4_bits (192, 168, 1, 9)) - int (ip4_bits (192, 168, 2, 1)))"
  by (rule compareProbeIPv4_numeric) (simp_all add: octets_def)

text \<open>
  A response answers exactly what was asked: \<open>responseMessage\<close> refuses a query without a question
  for the name; otherwise the answer section is an A record of the host when an A or ANY question asked
  for it, then the NSEC record when anything but A was asked, with the time to live and the cache
  flush bit of a multicast or of a legacy unicast response.
\<close>

theorem responseMessage_answers:
  "case responseMessage lib query raw addr legacy of
     Inl _ \<Rightarrow> dm_question query = [] \<or> (\<exists>e. canonicalHostname lib raw = Inl e) \<or>
       (\<exists>h. canonicalHostname lib raw = Inr h \<and> list_ex (asks lib h) (dm_question query) = False) \<or>
       (\<exists>msg. dl_pack lib msg = None)
   | Inr payload \<Rightarrow>
       (\<exists>h msg. canonicalHostname lib raw = Inr h \<and> dl_pack lib msg = Some payload \<and> dm_authoritative msg \<and>
          (\<exists>q \<in> set (dm_question query). asks lib h q) \<and>
          dm_answer msg =
            (if legacy then dm_answer (dl_set_reply lib (empty_msg\<lparr>dm_response := True, dm_authoritative := True\<rparr>) query)
             else []) @
            (if \<exists>q \<in> set (dm_question query). asks lib h q \<and> dq_qtype q \<in> {TypeA, TypeANY}
             then [aRecord h addr (if legacy then legacyTTL else recordTTL) (\<not> legacy)] else []) @
            (if \<exists>q \<in> set (dm_question query). asks lib h q \<and> dq_qtype q \<noteq> TypeA
             then [nsecRecord h (if legacy then legacyTTL else recordTTL) (\<not> legacy)] else []))"
proof (cases "responseMessage lib query raw addr legacy")
  case (Inl e)
  then show ?thesis
    by (auto simp: responseMessage_def res_bind_Inl_iff wanted_records_spec packMessage_def list_ex_iff
        split: if_splits option.splits)
next
  case (Inr payload)
  then obtain h where h: "canonicalHostname lib raw = Inr h" and q: "\<exists>q \<in> set (dm_question query). asks lib h q"
    by (auto simp: responseMessage_def res_bind_Inr_iff wanted_records_spec split: if_splits)
  let ?msg = "response_msg lib query h addr legacy (\<exists>q \<in> set (dm_question query). asks lib h q \<and> dq_qtype q \<in> {TypeA, TypeANY})
    (\<exists>q \<in> set (dm_question query). asks lib h q \<and> dq_qtype q \<noteq> TypeA)"
  have "packMessage lib ?msg = Inr payload"
    using Inr h q unfolding responseMessage_def wanted_records_spec by (simp split: if_splits)
  then have "dl_pack lib ?msg = Some payload" by (simp add: packMessage_def split: option.splits)
  with Inr h q response_msg_answer [of lib query h addr legacy] show ?thesis unfolding Inr sum.case by blast
qed

end
