(* ===== verification/Mdns_Actor.thy ===== *)
theory Mdns_Actor
  imports Mdns_Codec "HOL-Library.Multiset"
begin

text \<open>
  The actor of the multicast DNS responder, \<open>internal/lanmdns/actor.go\<close>, with the queues of
  \<open>responder.go\<close>: the claims of host names, their probing, announcing and defence, the scheduled
  answers, and the commands of the clients.

  \<open>runActor\<close> is one goroutine that handles one event at a time; \<open>handle\<close> is its \<open>select\<close> and has one
  definition per case. The maps \<open>claims\<close> and \<open>registrations\<close> are local to it. Go ranges over a map in
  any order, so the claims are a list whose order the step relation may change at any time. What a
  case reads from outside is part of its event: the clock, the random delays, a new registration
  identifier, the key a \<open>range\<close> over \<open>refs\<close> yields first. A reply channel is a number, and what is
  sent on reply channels is the log \<open>io_replies\<close>. The timer is the instant it is armed for.
\<close>

section \<open>State\<close>

datatype claim_phase = PhaseProbeWait | PhaseProbing | PhaseObserving | PhaseAwaitingReadiness | PhaseAnnouncing | PhaseActive

record claim =
  cm_requested :: string
  cm_candidate :: string
  cm_current :: string
  cm_phase :: claim_phase
  cm_probe_count :: nat
  cm_deadline :: time
  cm_started_at :: time
  cm_last_multicast :: time
  cm_conflicts :: "time list"
  cm_generation :: "64 word"
  cm_refs :: "string list"
  cm_pending :: "(string \<times> nat) list"

record outbound_packet =
  op_payload :: "nat list"
  op_destination :: addr_port

record write_request =
  wr_packet :: outbound_packet
  wr_shutdown :: bool

record mdns_change =
  ch_registration :: string
  ch_requested :: string
  ch_previous :: string
  ch_proposed :: string

record coordinator_request =
  cr_requested :: string
  cr_generation :: "64 word"
  cr_change :: mdns_change

record scheduled_write =
  sw_requested :: string
  sw_packet :: outbound_packet
  sw_due :: time
  sw_multicast :: bool

datatype actor_reply = Registered string | RegisterFailed mdns_error | ReleaseDone | ShutdownDone "mdns_error option"

record actor_io =
  io_outbound :: "write_request list"
  io_scheduled :: "scheduled_write list"
  io_coordinator :: "coordinator_request list"
  io_replies :: "(nat \<times> actor_reply) list"

type_synonym claims = "(string \<times> claim) list"

text \<open>
  \<open>ac_registrations\<close> gives the requested name of a handle and \<open>ac_current\<close> what its
  \<open>CurrentHostname\<close> returns; \<open>ac_cancelled\<close> says that \<open>fail\<close> has cancelled the context.
\<close>

record actor =
  ac_claims :: claims
  ac_registrations :: "string \<Rightarrow> string option"
  ac_current :: "string \<Rightarrow> string"
  ac_io :: actor_io
  ac_timer :: "time option"
  ac_shutdown_reply :: "nat option"
  ac_shutdown_writes :: int
  ac_cancelled :: bool

record responder_env =
  re_lib :: dns_lib
  re_prefix :: "ip4 \<times> nat"
  re_bypass :: bool

definition outboundQueueCapacity :: nat where "outboundQueueCapacity = 64"
definition coordinatorQueueCapacity :: nat where "coordinatorQueueCapacity = 16"

abbreviation own_addr :: "responder_env \<Rightarrow> ip4" where "own_addr env \<equiv> fst (re_prefix env)"

definition announced :: "claim \<Rightarrow> bool" where
  "announced entry \<longleftrightarrow> cm_phase entry = PhaseAnnouncing \<or> cm_phase entry = PhaseActive"

section \<open>Queues, replies and the timer\<close>

definition enqueueWriteRequest :: "write_request \<Rightarrow> actor_io \<Rightarrow> bool \<times> actor_io" where
  "enqueueWriteRequest request io =
     (if length (io_outbound io) < outboundQueueCapacity
      then (True, io\<lparr>io_outbound := io_outbound io @ [request]\<rparr>) else (False, io))"

definition enqueueWrite :: "outbound_packet \<Rightarrow> actor_io \<Rightarrow> bool \<times> actor_io" where
  "enqueueWrite packet = enqueueWriteRequest \<lparr>wr_packet = packet, wr_shutdown = False\<rparr>"

definition enqueueShutdownWrite :: "outbound_packet \<Rightarrow> actor_io \<Rightarrow> bool \<times> actor_io" where
  "enqueueShutdownWrite packet = enqueueWriteRequest \<lparr>wr_packet = packet, wr_shutdown = True\<rparr>"

definition send_reply :: "nat \<Rightarrow> actor_reply \<Rightarrow> actor_io \<Rightarrow> actor_io" where
  "send_reply channel reply io = io\<lparr>io_replies := io_replies io @ [(channel, reply)]\<rparr>"

definition completeClaim :: "claim \<Rightarrow> mdns_error option \<Rightarrow> actor_io \<Rightarrow> claim \<times> actor_io" where
  "completeClaim entry err io =
     (entry\<lparr>cm_pending := []\<rparr>,
      fold (\<lambda>(rid, channel). send_reply channel (case err of None \<Rightarrow> Registered rid | Some e \<Rightarrow> RegisterFailed e))
        (cm_pending entry) io)"

definition fail_claim :: "claim \<Rightarrow> mdns_error \<Rightarrow> actor_io \<Rightarrow> claim option \<times> actor_io" where
  "fail_claim entry e io = (None, snd (completeClaim entry (Some e) io))"

fun nearest_deadline :: "time \<Rightarrow> claims \<Rightarrow> time" where
  "nearest_deadline nearest [] = nearest"
| "nearest_deadline nearest ((requested, entry) # rest) =
     (if is_zero_time (cm_deadline entry) then nearest_deadline nearest rest
      else nearest_deadline
        (if is_zero_time nearest \<or> cm_deadline entry < nearest then cm_deadline entry else nearest) rest)"

fun nearest_due :: "time \<Rightarrow> scheduled_write list \<Rightarrow> time" where
  "nearest_due nearest [] = nearest"
| "nearest_due nearest (w # rest) =
     nearest_due (if is_zero_time nearest \<or> sw_due w < nearest then sw_due w else nearest) rest"

definition reschedule :: "actor \<Rightarrow> actor" where
  "reschedule s =
     (let nearest = nearest_due (nearest_deadline 0 (ac_claims s)) (io_scheduled (ac_io s))
      in s\<lparr>ac_timer := (if is_zero_time nearest then None else Some nearest)\<rparr>)"

text \<open>The body of a loop over the claims may drop the claim (\<open>delete\<close>) and use the queues.\<close>

fun each_claim ::
  "(string \<Rightarrow> claim \<Rightarrow> actor_io \<Rightarrow> claim option \<times> actor_io) \<Rightarrow> claims \<Rightarrow> actor_io \<Rightarrow> claims \<times> actor_io" where
  "each_claim f [] io = ([], io)"
| "each_claim f ((requested, entry) # rest) io =
     (case f requested entry io of (entry', io') \<Rightarrow>
       (case each_claim f rest io' of (rest', io'') \<Rightarrow>
         (case entry' of None \<Rightarrow> rest' | Some e \<Rightarrow> (requested, e) # rest', io'')))"

definition over_claims :: "(string \<Rightarrow> claim \<Rightarrow> actor_io \<Rightarrow> claim option \<times> actor_io) \<Rightarrow> actor \<Rightarrow> actor" where
  "over_claims f s =
     (case each_claim f (ac_claims s) (ac_io s) of (claims, io) \<Rightarrow> s\<lparr>ac_claims := claims, ac_io := io\<rparr>)"

definition put_claim :: "string \<Rightarrow> claim \<Rightarrow> claims \<Rightarrow> claims" where
  "put_claim k entry = map (\<lambda>(k', e). if k' = k then (k', entry) else (k', e))"

definition drop_claim :: "string \<Rightarrow> claims \<Rightarrow> claims" where
  "drop_claim k = filter (\<lambda>(k', e). k' \<noteq> k)"

section \<open>Packets from the network\<close>

text \<open>A response that gives an announced name to another address sends the claim back to probing.\<close>

definition conflict_claim ::
  "responder_env \<Rightarrow> dns_msg \<Rightarrow> time \<Rightarrow> (duration \<Rightarrow> duration) \<Rightarrow> claim \<Rightarrow> claim" where
  "conflict_claim env message now random entry =
     (if conflictingAResponse message (cm_current entry) (own_addr env)
      then entry\<lparr>cm_candidate := cm_current entry, cm_phase := PhaseProbeWait, cm_probe_count := 0,
        cm_started_at := now, cm_conflicts := [], cm_generation := cm_generation entry + 1,
        cm_deadline := now + random (250 * millisecond)\<rparr>
      else entry)"

text \<open>The answer to a query for an announced name, when it is due, and whether it goes to the group.\<close>

definition planned_answer ::
  "responder_env \<Rightarrow> mdns_packet \<Rightarrow> dns_msg \<Rightarrow> time \<Rightarrow> (duration \<Rightarrow> duration) \<Rightarrow> claim
     \<Rightarrow> (outbound_packet \<times> time \<times> bool) option" where
  "planned_answer env inbound message now random entry =
     (if dm_question message = [] \<or> knownAnswerSuppresses message (cm_current entry) (own_addr env) then None
      else (case find (\<lambda>candidate. equal_fold (dq_name candidate) (cm_current entry)) (dm_question message) of
        None \<Rightarrow> None
      | Some question \<Rightarrow>
          (case responseDestination inbound question (cm_last_multicast entry) now (re_prefix env) of
             None \<Rightarrow> None
           | Some destination \<Rightarrow>
               (case responseMessage (re_lib env) message (cm_current entry) (own_addr env)
                       (snd (mp_source inbound) \<noteq> 5353) of
                  Inl _ \<Rightarrow> None
                | Inr payload \<Rightarrow>
                    (let due = now + queryResponseDelay message random;
                         multicast = (destination = mdnsIPv4AddrPort);
                         defense = (probeOpponentIPv4 message (cm_current entry) \<noteq> None);
                         rateDue = multicastDue now (cm_last_multicast entry) defense;
                         due = (if multicast \<and> rateDue > due then rateDue else due)
                     in Some (\<lparr>op_payload = payload, op_destination = destination\<rparr>, due, multicast))))))"

definition answer_query ::
  "responder_env \<Rightarrow> mdns_packet \<Rightarrow> dns_msg \<Rightarrow> time \<Rightarrow> (duration \<Rightarrow> duration) \<Rightarrow> string \<Rightarrow> claim \<Rightarrow> actor_io
     \<Rightarrow> claim \<times> actor_io" where
  "answer_query env inbound message now random requested entry io =
     (case planned_answer env inbound message now random entry of
        None \<Rightarrow> (entry, io)
      | Some (packet, due, multicast) \<Rightarrow>
          if \<not> due > now
          then (if multicast then entry\<lparr>cm_last_multicast := now\<rparr> else entry, snd (enqueueWrite packet io))
          else (entry, io\<lparr>io_scheduled := io_scheduled io @
                 [\<lparr>sw_requested = requested, sw_packet = packet, sw_due = due, sw_multicast = multicast\<rparr>]\<rparr>))"

text \<open>A packet that shows another host with the candidate name: try the next name, or give up.\<close>

definition probe_lost :: "responder_env \<Rightarrow> dns_msg \<Rightarrow> claim \<Rightarrow> bool" where
  "probe_lost env message entry =
     (case probeOpponentIPv4 message (cm_candidate entry) of
        Some opponent \<Rightarrow> compareProbeIPv4 (own_addr env) opponent < 0
      | None \<Rightarrow> responseClaimsName message (cm_candidate entry))"

definition next_candidate ::
  "responder_env \<Rightarrow> time \<Rightarrow> (duration \<Rightarrow> duration) \<Rightarrow> claim \<Rightarrow> actor_io \<Rightarrow> claim option \<times> actor_io" where
  "next_candidate env now random entry io =
     (let entry = entry\<lparr>cm_conflicts := cm_conflicts entry @ [now]\<rparr> in
      if now - cm_started_at entry \<ge> probingFailureLimit
      then fail_claim entry (MdnsError ''could not claim LAN hostname after one minute'') io
      else (case nextConflictHostname (re_lib env) (cm_candidate entry) of
              Inl suffixErr \<Rightarrow> fail_claim entry suffixErr io
            | Inr name \<Rightarrow>
                (let delay = random (250 * millisecond);
                     backoff = conflictBackoff now (cm_conflicts entry);
                     delay = (if backoff > delay then backoff else delay)
                 in (Some (entry\<lparr>cm_candidate := name, cm_phase := PhaseProbeWait, cm_probe_count := 0,
                       cm_generation := cm_generation entry + 1, cm_deadline := now + delay\<rparr>), io))))"

definition inbound_claim ::
  "responder_env \<Rightarrow> mdns_packet \<Rightarrow> dns_msg \<Rightarrow> time \<Rightarrow> (string \<Rightarrow> duration \<Rightarrow> duration) \<Rightarrow> string \<Rightarrow> claim \<Rightarrow> actor_io
     \<Rightarrow> claim option \<times> actor_io" where
  "inbound_claim env inbound message now random requested entry io =
     (if announced entry then
        (if dm_response message then (Some (conflict_claim env message now (random requested) entry), io)
         else (case answer_query env inbound message now (random requested) requested entry io of
                 (entry', io') \<Rightarrow> (Some entry', io')))
      else if cm_phase entry \<noteq> PhaseProbing \<and> cm_phase entry \<noteq> PhaseObserving \<and> cm_phase entry \<noteq> PhaseAwaitingReadiness
      then (Some entry, io)
      else if cm_probe_count entry = 0 then (Some entry, io)
      else if \<not> probe_lost env message entry then (Some entry, io)
      else next_candidate env now (random requested) entry io)"

definition handle_inbound ::
  "responder_env \<Rightarrow> mdns_packet \<Rightarrow> time \<Rightarrow> (string \<Rightarrow> duration \<Rightarrow> duration) \<Rightarrow> actor \<Rightarrow> actor" where
  "handle_inbound env inbound now random s =
     (case decodePacket (re_lib env) (mp_payload inbound) of
        Inl _ \<Rightarrow> s
      | Inr message \<Rightarrow> reschedule (over_claims (inbound_claim env inbound message now random) s))"

section \<open>Results of the pumps\<close>

definition handle_write_result :: "mdns_error option \<Rightarrow> bool \<Rightarrow> actor \<Rightarrow> actor" where
  "handle_write_result err shutdown s =
     (case (shutdown, ac_shutdown_reply s) of
        (True, Some channel) \<Rightarrow>
          (let s = s\<lparr>ac_shutdown_writes := ac_shutdown_writes s - 1\<rparr> in
           case err of
             Some e \<Rightarrow> s\<lparr>ac_io := send_reply channel (ShutdownDone (Some e)) (ac_io s), ac_shutdown_reply := None\<rparr>
           | None \<Rightarrow>
               if ac_shutdown_writes s = 0
               then s\<lparr>ac_io := send_reply channel (ShutdownDone None) (ac_io s), ac_shutdown_reply := None\<rparr>
               else s)
      | _ \<Rightarrow> if err \<noteq> None then s\<lparr>ac_cancelled := True\<rparr> else s)"

text \<open>The write of an announcement: an error of the message, or a full queue, ends the claim.\<close>

definition announce ::
  "responder_env \<Rightarrow> string \<Rightarrow> actor_io \<Rightarrow> (mdns_error, actor_io) result" where
  "announce env hostname io =
     (case announcementMessage (re_lib env) hostname (own_addr env) recordTTL of
        Inl e \<Rightarrow> Inl e
      | Inr payload \<Rightarrow>
          (case enqueueWrite \<lparr>op_payload = payload, op_destination = mdnsIPv4AddrPort\<rparr> io of
             (True, io') \<Rightarrow> Inr io'
           | (False, _) \<Rightarrow> Inl (MdnsError ''LAN mDNS write queue is full'')))"

definition handle_coordinator_result ::
  "responder_env \<Rightarrow> string \<Rightarrow> 64 word \<Rightarrow> mdns_error option \<Rightarrow> time \<Rightarrow> time \<Rightarrow> actor \<Rightarrow> actor" where
  "handle_coordinator_result env requested generation err now now' s =
     (case map_of (ac_claims s) requested of
        None \<Rightarrow> s
      | Some entry \<Rightarrow>
          if cm_generation entry \<noteq> generation \<or> cm_phase entry \<noteq> PhaseAwaitingReadiness then s
          else (case err of
            Some e \<Rightarrow> s\<lparr>ac_claims := drop_claim (cm_requested entry) (ac_claims s),
                ac_io := snd (completeClaim entry (Some e) (ac_io s))\<rparr>
          | None \<Rightarrow>
              (case announce env (cm_candidate entry) (ac_io s) of
                 Inl e \<Rightarrow> s\<lparr>ac_claims := drop_claim (cm_requested entry) (ac_claims s),
                    ac_io := snd (completeClaim entry (Some e) (ac_io s))\<rparr>
               | Inr io \<Rightarrow>
                   reschedule (s\<lparr>ac_io := io,
                     ac_current := (\<lambda>rid. if rid \<in> set (cm_refs entry) then cm_candidate entry else ac_current s rid),
                     ac_claims := put_claim requested
                       (entry\<lparr>cm_current := cm_candidate entry, cm_last_multicast := now, cm_phase := PhaseAnnouncing,
                          cm_deadline := now' + second\<rparr>) (ac_claims s)\<rparr>))))"

section \<open>The timer\<close>

definition set_last_multicast :: "string \<Rightarrow> time \<Rightarrow> claims \<Rightarrow> claims" where
  "set_last_multicast k now = map (\<lambda>(k', e). if k' = k then (k', e\<lparr>cm_last_multicast := now\<rparr>) else (k', e))"

text \<open>The answers that are due are sent; the rest stays scheduled.\<close>

fun send_due ::
  "time \<Rightarrow> scheduled_write list \<Rightarrow> claims \<Rightarrow> actor_io \<Rightarrow> scheduled_write list \<times> claims \<times> actor_io" where
  "send_due now [] claims io = ([], claims, io)"
| "send_due now (w # rest) claims io =
     (if sw_due w > now then
        (case send_due now rest claims io of (remaining, claims', io') \<Rightarrow> (w # remaining, claims', io'))
      else (case map_of claims (sw_requested w) of
              None \<Rightarrow> send_due now rest claims io
            | Some entry \<Rightarrow>
                if \<not> announced entry then send_due now rest claims io
                else send_due now rest
                  (if sw_multicast w then set_last_multicast (sw_requested w) now claims else claims)
                  (snd (enqueueWrite (sw_packet w) io))))"

definition send_probe :: "responder_env \<Rightarrow> time \<Rightarrow> claim \<Rightarrow> actor_io \<Rightarrow> claim option \<times> actor_io" where
  "send_probe env now entry io =
     (case probeMessage (re_lib env) (cm_candidate entry) (own_addr env) of
        Inl e \<Rightarrow> fail_claim entry e io
      | Inr payload \<Rightarrow>
          (case enqueueWrite \<lparr>op_payload = payload, op_destination = mdnsIPv4AddrPort\<rparr> io of
             (False, _) \<Rightarrow> fail_claim entry (MdnsError ''LAN mDNS write queue is full'') io
           | (True, io') \<Rightarrow>
               (let entry = entry\<lparr>cm_probe_count := cm_probe_count entry + 1, cm_deadline := now + 250 * millisecond\<rparr>
                in (Some (entry\<lparr>cm_phase := (if cm_probe_count entry = 3 then PhaseObserving else PhaseProbing)\<rparr>), io'))))"

definition ask_coordinator :: "(string list \<Rightarrow> string) \<Rightarrow> claim \<Rightarrow> actor_io \<Rightarrow> claim option \<times> actor_io" where
  "ask_coordinator pick entry io =
     (let entry = entry\<lparr>cm_phase := PhaseAwaitingReadiness, cm_deadline := 0\<rparr>;
          request = \<lparr>cr_requested = cm_requested entry, cr_generation = cm_generation entry,
            cr_change = \<lparr>ch_registration = pick (cm_refs entry), ch_requested = cm_requested entry,
              ch_previous = cm_current entry, ch_proposed = cm_candidate entry\<rparr>\<rparr>
      in if length (io_coordinator io) < coordinatorQueueCapacity
         then (Some entry, io\<lparr>io_coordinator := io_coordinator io @ [request]\<rparr>)
         else fail_claim entry (MdnsError ''LAN mDNS coordinator queue is full'') io)"

definition finish_announcing :: "responder_env \<Rightarrow> time \<Rightarrow> claim \<Rightarrow> actor_io \<Rightarrow> claim option \<times> actor_io" where
  "finish_announcing env now entry io =
     (case announce env (cm_candidate entry) io of
        Inl e \<Rightarrow> fail_claim entry e io
      | Inr io' \<Rightarrow>
          (case completeClaim (entry\<lparr>cm_last_multicast := now, cm_phase := PhaseActive, cm_deadline := 0\<rparr>) None io' of
             (entry', io'') \<Rightarrow> (Some entry', io'')))"

definition timer_claim ::
  "responder_env \<Rightarrow> time \<Rightarrow> (string list \<Rightarrow> string) \<Rightarrow> string \<Rightarrow> claim \<Rightarrow> actor_io \<Rightarrow> claim option \<times> actor_io" where
  "timer_claim env now pick requested entry io =
     (if is_zero_time (cm_deadline entry) \<or> cm_deadline entry > now then (Some entry, io)
      else (case cm_phase entry of
              PhaseProbeWait \<Rightarrow> send_probe env now entry io
            | PhaseProbing \<Rightarrow> send_probe env now entry io
            | PhaseObserving \<Rightarrow> ask_coordinator pick entry io
            | PhaseAnnouncing \<Rightarrow> finish_announcing env now entry io
            | _ \<Rightarrow> (Some entry, io)))"

definition handle_timer :: "responder_env \<Rightarrow> time \<Rightarrow> (string list \<Rightarrow> string) \<Rightarrow> actor \<Rightarrow> actor" where
  "handle_timer env now pick s =
     (case send_due now (io_scheduled (ac_io s)) (ac_claims s) (ac_io s) of
        (remaining, claims, io) \<Rightarrow>
          reschedule (over_claims (timer_claim env now pick)
            (s\<lparr>ac_claims := claims, ac_io := io\<lparr>io_scheduled := remaining\<rparr>\<rparr>)))"

section \<open>Commands\<close>

definition new_claim :: "string \<Rightarrow> time \<Rightarrow> (duration \<Rightarrow> duration) \<Rightarrow> claim" where
  "new_claim hostname now random =
     \<lparr>cm_requested = hostname, cm_candidate = hostname, cm_current = '''', cm_phase = PhaseProbeWait,
      cm_probe_count = 0, cm_deadline = now + random (250 * millisecond), cm_started_at = now,
      cm_last_multicast = 0, cm_conflicts = [], cm_generation = 1, cm_refs = [], cm_pending = []\<rparr>"

text \<open>\<open>rid\<close> is the new registration identifier, or \<open>None\<close> when the random source fails.\<close>

definition handle_register ::
  "responder_env \<Rightarrow> string \<Rightarrow> nat \<Rightarrow> string option \<Rightarrow> time \<Rightarrow> (duration \<Rightarrow> duration) \<Rightarrow> actor \<Rightarrow> actor" where
  "handle_register env raw channel new_id now random s =
     (case canonicalHostname (re_lib env) raw of
        Inl e \<Rightarrow> s\<lparr>ac_io := send_reply channel (RegisterFailed e) (ac_io s)\<rparr>
      | Inr hostname \<Rightarrow>
          (case new_id of
             None \<Rightarrow> s\<lparr>ac_io := send_reply channel (RegisterFailed (MdnsError ''generate LAN mDNS registration ID'')) (ac_io s)\<rparr>
           | Some rid \<Rightarrow>
               (let claims = (case map_of (ac_claims s) hostname of
                      None \<Rightarrow> (hostname, new_claim hostname now random) # ac_claims s
                    | Some _ \<Rightarrow> ac_claims s);
                    entry = the (map_of claims hostname);
                    entry = entry\<lparr>cm_refs := cm_refs entry @ [rid]\<rparr>;
                    s = s\<lparr>ac_registrations := (ac_registrations s)(rid \<mapsto> hostname), ac_current := (ac_current s)(rid := '''')\<rparr>
                in if re_bypass env \<or> cm_phase entry = PhaseActive then
                     (let entry = entry\<lparr>cm_current := (if cm_current entry = '''' then hostname else cm_current entry)\<rparr>
                      in reschedule (s\<lparr>ac_claims := put_claim hostname entry claims,
                           ac_current := (ac_current s)(rid := cm_current entry),
                           ac_io := send_reply channel (Registered rid) (ac_io s)\<rparr>))
                   else
                     (let entry = entry\<lparr>cm_pending := cm_pending entry @ [(rid, channel)]\<rparr>
                      in reschedule (s\<lparr>ac_claims := put_claim hostname entry claims\<rparr>)))))"

text \<open>The waiting registration of a reply channel is taken back, in every claim at its first place.\<close>

fun cancel_pending :: "nat \<Rightarrow> (string \<times> nat) list \<Rightarrow> (string \<times> (string \<times> nat) list) option" where
  "cancel_pending channel [] = None"
| "cancel_pending channel ((rid, reply) # rest) =
     (if reply = channel then Some (rid, rest)
      else map_option (\<lambda>(r, rest'). (r, (rid, reply) # rest')) (cancel_pending channel rest))"

fun cancel_claims :: "nat \<Rightarrow> claims \<Rightarrow> (string \<Rightarrow> string option) \<Rightarrow> claims \<times> (string \<Rightarrow> string option)" where
  "cancel_claims channel [] registrations = ([], registrations)"
| "cancel_claims channel ((requested, entry) # rest) registrations =
     (case cancel_pending channel (cm_pending entry) of
        None \<Rightarrow>
          (case cancel_claims channel rest registrations of (rest', regs) \<Rightarrow> ((requested, entry) # rest', regs))
      | Some (rid, pending) \<Rightarrow>
          (case cancel_claims channel rest (registrations(rid := None)) of
             (rest', regs) \<Rightarrow>
               (let entry = entry\<lparr>cm_refs := filter (\<lambda>r. r \<noteq> rid) (cm_refs entry), cm_pending := pending\<rparr>
                in (if cm_refs entry = [] then rest' else (requested, entry) # rest', regs))))"

definition handle_cancel :: "nat \<Rightarrow> actor \<Rightarrow> actor" where
  "handle_cancel channel s =
     (case cancel_claims channel (ac_claims s) (ac_registrations s) of
        (claims, regs) \<Rightarrow> reschedule (s\<lparr>ac_claims := claims, ac_registrations := regs\<rparr>))"

definition goodbye :: "responder_env \<Rightarrow> claim \<Rightarrow> actor_io \<Rightarrow> actor_io" where
  "goodbye env entry io =
     (if \<not> announced entry then io
      else (case goodbyeMessage (re_lib env) (cm_current entry) (own_addr env) of
              Inl _ \<Rightarrow> io
            | Inr payload \<Rightarrow> snd (enqueueWrite \<lparr>op_payload = payload, op_destination = mdnsIPv4AddrPort\<rparr> io)))"

definition release_ref :: "responder_env \<Rightarrow> string \<Rightarrow> string \<Rightarrow> actor \<Rightarrow> actor" where
  "release_ref env rid requested s =
     (case map_of (ac_claims s) requested of
        None \<Rightarrow> s
      | Some entry \<Rightarrow>
          (let entry = entry\<lparr>cm_refs := filter (\<lambda>r. r \<noteq> rid) (cm_refs entry)\<rparr> in
           if cm_refs entry = []
           then s\<lparr>ac_io := goodbye env entry (ac_io s), ac_claims := drop_claim requested (ac_claims s)\<rparr>
           else s\<lparr>ac_claims := put_claim requested entry (ac_claims s)\<rparr>))"

definition handle_release :: "responder_env \<Rightarrow> string \<Rightarrow> nat \<Rightarrow> actor \<Rightarrow> actor" where
  "handle_release env rid channel s =
     (let s = (case ac_registrations s rid of
                 None \<Rightarrow> s
               | Some requested \<Rightarrow>
                   release_ref env rid requested (s\<lparr>ac_registrations := (ac_registrations s)(rid := None)\<rparr>))
      in reschedule (s\<lparr>ac_io := send_reply channel ReleaseDone (ac_io s)\<rparr>))"

fun shutdown_claims :: "responder_env \<Rightarrow> claims \<Rightarrow> actor_io \<Rightarrow> int \<Rightarrow> actor_io \<times> int \<times> mdns_error option" where
  "shutdown_claims env [] io writes = (io, writes, None)"
| "shutdown_claims env ((requested, entry) # rest) io writes =
     (if \<not> announced entry then shutdown_claims env rest io writes
      else (case goodbyeMessage (re_lib env) (cm_current entry) (own_addr env) of
              Inl _ \<Rightarrow> (io, writes, Some (MdnsError ''build LAN mDNS goodbye''))
            | Inr payload \<Rightarrow>
                (case enqueueShutdownWrite \<lparr>op_payload = payload, op_destination = mdnsIPv4AddrPort\<rparr> io of
                   (False, _) \<Rightarrow> (io, writes, Some (MdnsError ''LAN mDNS goodbye queue is full''))
                 | (True, io') \<Rightarrow> shutdown_claims env rest io' (writes + 1))))"

definition handle_shutdown :: "responder_env \<Rightarrow> nat \<Rightarrow> actor \<Rightarrow> actor" where
  "handle_shutdown env channel s =
     (case shutdown_claims env (ac_claims s) (ac_io s) 0 of
        (io, writes, Some e) \<Rightarrow>
          s\<lparr>ac_io := send_reply channel (ShutdownDone (Some e)) io, ac_shutdown_reply := None, ac_shutdown_writes := writes\<rparr>
      | (io, writes, None) \<Rightarrow>
          if writes = 0
          then s\<lparr>ac_io := send_reply channel (ShutdownDone None) io, ac_shutdown_reply := None, ac_shutdown_writes := writes\<rparr>
          else s\<lparr>ac_io := io, ac_shutdown_reply := Some channel, ac_shutdown_writes := writes\<rparr>)"

section \<open>Events and steps\<close>

datatype actor_event =
    EvInbound mdns_packet time "string \<Rightarrow> duration \<Rightarrow> duration"
  | EvWriteResult "mdns_error option" bool
  | EvCoordinatorResult string "64 word" "mdns_error option" time time
  | EvTimer time "string list \<Rightarrow> string"
  | EvRegister string nat "string option" time "duration \<Rightarrow> duration"
  | EvCancelRegister nat
  | EvRelease string nat
  | EvShutdown nat

fun handle :: "responder_env \<Rightarrow> actor_event \<Rightarrow> actor \<Rightarrow> actor" where
  "handle env (EvInbound inbound now random) s = handle_inbound env inbound now random s"
| "handle env (EvWriteResult err shutdown) s = handle_write_result err shutdown s"
| "handle env (EvCoordinatorResult requested generation err now now') s =
     handle_coordinator_result env requested generation err now now' s"
| "handle env (EvTimer now pick) s = handle_timer env now pick s"
| "handle env (EvRegister hostname channel new_id now random) s =
     handle_register env hostname channel new_id now random s"
| "handle env (EvCancelRegister channel) s = handle_cancel channel s"
| "handle env (EvRelease rid channel) s = handle_release env rid channel s"
| "handle env (EvShutdown channel) s = handle_shutdown env channel s"

definition actor_init :: actor where
  "actor_init = \<lparr>ac_claims = [], ac_registrations = (\<lambda>_. None), ac_current = (\<lambda>_. ''''),
     ac_io = \<lparr>io_outbound = [], io_scheduled = [], io_coordinator = [], io_replies = []\<rparr>,
     ac_timer = None, ac_shutdown_reply = None, ac_shutdown_writes = 0, ac_cancelled = False\<rparr>"

text \<open>
  The reply channels the actor holds or has answered on. A command brings a channel of its own,
  a registration a new identifier, and only a registration the client has got is released.
\<close>

definition pending_channels :: "claims \<Rightarrow> nat list" where
  "pending_channels claims = concat (map (\<lambda>(k, entry). map snd (cm_pending entry)) claims)"

definition channels :: "actor \<Rightarrow> nat list" where
  "channels s = map fst (io_replies (ac_io s)) @ pending_channels (ac_claims s) @
     (case ac_shutdown_reply s of None \<Rightarrow> [] | Some channel \<Rightarrow> [channel])"

definition waiting_ids :: "claims \<Rightarrow> string set" where
  "waiting_ids claims = (\<Union>(k, entry) \<in> set claims. fst ` set (cm_pending entry))"

definition ref_ids :: "claims \<Rightarrow> string set" where
  "ref_ids claims = (\<Union>(k, entry) \<in> set claims. set (cm_refs entry))"

fun event_ok :: "actor \<Rightarrow> actor_event \<Rightarrow> bool" where
  "event_ok s (EvInbound inbound now random) \<longleftrightarrow> 0 < now \<and> (\<forall>k d. 0 \<le> random k d)"
| "event_ok s (EvWriteResult err shutdown) \<longleftrightarrow> True"
| "event_ok s (EvCoordinatorResult requested generation err now now') \<longleftrightarrow> 0 < now \<and> 0 < now'"
| "event_ok s (EvTimer now pick) \<longleftrightarrow> 0 < now"
| "event_ok s (EvRegister hostname channel new_id now random) \<longleftrightarrow>
     0 < now \<and> (\<forall>d. 0 \<le> random d) \<and> channel \<notin> set (channels s) \<and> (\<forall>rid. new_id = Some rid \<longrightarrow> rid \<notin> ref_ids (ac_claims s))"
| "event_ok s (EvCancelRegister channel) \<longleftrightarrow> True"
| "event_ok s (EvRelease rid channel) \<longleftrightarrow> channel \<notin> set (channels s) \<and> rid \<notin> waiting_ids (ac_claims s)"
| "event_ok s (EvShutdown channel) \<longleftrightarrow> channel \<notin> set (channels s) \<and> ac_shutdown_reply s = None"

text \<open>
  A step handles an event, or another goroutine takes from a queue, or the order in which the next
  range over the claims goes changes.
\<close>

inductive actor_step :: "responder_env \<Rightarrow> actor \<Rightarrow> actor \<Rightarrow> bool" for env where
  step_event: "event_ok s e \<Longrightarrow> actor_step env s (handle env e s)"
| step_write_pump: "io_outbound (ac_io s) = r # rest \<Longrightarrow>
    actor_step env s (s\<lparr>ac_io := (ac_io s)\<lparr>io_outbound := rest\<rparr>\<rparr>)"
| step_coordinator_pump: "io_coordinator (ac_io s) = r # rest \<Longrightarrow>
    actor_step env s (s\<lparr>ac_io := (ac_io s)\<lparr>io_coordinator := rest\<rparr>\<rparr>)"
| step_order: "mset claims = mset (ac_claims s) \<Longrightarrow> actor_step env s (s\<lparr>ac_claims := claims\<rparr>)"

inductive actor_reachable :: "responder_env \<Rightarrow> actor \<Rightarrow> bool" for env where
  reachable_init: "actor_reachable env actor_init"
| reachable_step: "actor_reachable env s \<Longrightarrow> actor_step env s s' \<Longrightarrow> actor_reachable env s'"

section \<open>The machine of one claim\<close>

text \<open>
  What happens to a claim, without its registrations, its deadline and the queues: three probes,
  the wait, the coordinator, the two announcements, and the two ways back to probing.
\<close>

datatype claim_move = Stay | Probe | Observe | Approve | Finish | Lose | Conflict

fun claim_step :: "claim_move \<Rightarrow> claim \<Rightarrow> claim \<Rightarrow> bool" where
  "claim_step Stay c c' \<longleftrightarrow> cm_phase c' = cm_phase c \<and> cm_probe_count c' = cm_probe_count c \<and>
     cm_candidate c' = cm_candidate c \<and> cm_generation c' = cm_generation c \<and> (announced c \<longrightarrow> cm_current c' = cm_current c)"
| "claim_step Probe c c' \<longleftrightarrow> cm_phase c \<in> {PhaseProbeWait, PhaseProbing} \<and> cm_probe_count c' = cm_probe_count c + 1 \<and>
     cm_phase c' = (if cm_probe_count c + 1 = 3 then PhaseObserving else PhaseProbing) \<and>
     cm_candidate c' = cm_candidate c \<and> cm_generation c' = cm_generation c"
| "claim_step Observe c c' \<longleftrightarrow> cm_phase c = PhaseObserving \<and> cm_phase c' = PhaseAwaitingReadiness \<and>
     cm_probe_count c' = cm_probe_count c \<and> cm_candidate c' = cm_candidate c \<and> cm_generation c' = cm_generation c"
| "claim_step Approve c c' \<longleftrightarrow> cm_phase c = PhaseAwaitingReadiness \<and> cm_phase c' = PhaseAnnouncing \<and>
     cm_probe_count c' = cm_probe_count c \<and> cm_candidate c' = cm_candidate c \<and> cm_current c' = cm_candidate c \<and>
     cm_generation c' = cm_generation c"
| "claim_step Finish c c' \<longleftrightarrow> cm_phase c = PhaseAnnouncing \<and> cm_phase c' = PhaseActive \<and> cm_pending c' = [] \<and>
     cm_probe_count c' = cm_probe_count c \<and> cm_candidate c' = cm_candidate c \<and> cm_current c' = cm_current c \<and>
     cm_generation c' = cm_generation c"
| "claim_step Lose c c' \<longleftrightarrow> cm_phase c \<in> {PhaseProbing, PhaseObserving, PhaseAwaitingReadiness} \<and>
     cm_phase c' = PhaseProbeWait \<and> cm_probe_count c' = 0 \<and> cm_generation c' = cm_generation c + 1"
| "claim_step Conflict c c' \<longleftrightarrow> announced c \<and> cm_phase c' = PhaseProbeWait \<and> cm_probe_count c' = 0 \<and>
     cm_candidate c' = cm_current c \<and> cm_generation c' = cm_generation c + 1"

inductive claim_path :: "claim \<Rightarrow> claim_move list \<Rightarrow> claim \<Rightarrow> bool" where
  path_refl: "claim_path c [] c"
| path_step: "claim_path c ms c' \<Longrightarrow> claim_step m c' c'' \<Longrightarrow> claim_path c (ms @ [m]) c''"

definition phase_ok :: "claim \<Rightarrow> bool" where
  "phase_ok c \<longleftrightarrow>
     (case cm_phase c of
        PhaseProbeWait \<Rightarrow> cm_probe_count c = 0 \<and> cm_deadline c \<noteq> 0
      | PhaseProbing \<Rightarrow> cm_probe_count c \<in> {1, 2} \<and> cm_deadline c \<noteq> 0
      | PhaseObserving \<Rightarrow> cm_probe_count c = 3 \<and> cm_deadline c \<noteq> 0
      | PhaseAwaitingReadiness \<Rightarrow> cm_probe_count c = 3 \<and> cm_deadline c = 0
      | PhaseAnnouncing \<Rightarrow> cm_current c = cm_candidate c \<and> cm_deadline c \<noteq> 0
      | PhaseActive \<Rightarrow> cm_current c = cm_candidate c \<and> cm_deadline c = 0 \<and> cm_pending c = [])"

definition claim_ok :: "string \<Rightarrow> claim \<Rightarrow> bool" where
  "claim_ok k c \<longleftrightarrow> cm_requested c = k \<and> cm_candidate c \<noteq> '''' \<and> cm_refs c \<noteq> [] \<and>
     distinct (map fst (cm_pending c)) \<and> fst ` set (cm_pending c) \<subseteq> set (cm_refs c) \<and> phase_ok c"

definition claims_ok :: "claims \<Rightarrow> bool" where
  "claims_ok claims \<longleftrightarrow> distinct (map fst claims) \<and> (\<forall>(k, c) \<in> set claims. claim_ok k c)"

text \<open>A packet goes to the multicast group or to a host of the prefix of the interface.\<close>

definition on_link :: "responder_env \<Rightarrow> outbound_packet \<Rightarrow> bool" where
  "on_link env packet \<longleftrightarrow>
     op_destination packet = mdnsIPv4AddrPort \<or> prefix_contains (re_prefix env) (fst (op_destination packet))"

definition io_ok :: "responder_env \<Rightarrow> actor_io \<Rightarrow> bool" where
  "io_ok env io \<longleftrightarrow> length (io_outbound io) \<le> outboundQueueCapacity \<and>
     length (io_coordinator io) \<le> coordinatorQueueCapacity \<and>
     (\<forall>w \<in> set (io_outbound io). on_link env (wr_packet w)) \<and>
     (\<forall>w \<in> set (io_scheduled io). on_link env (sw_packet w) \<and> 0 < sw_due w)"

text \<open>The timer is armed no later than any deadline and any scheduled answer.\<close>

definition timer_ok :: "actor \<Rightarrow> bool" where
  "timer_ok s \<longleftrightarrow>
     (\<forall>d. d \<noteq> 0 \<and> (d \<in> (cm_deadline \<circ> snd) ` set (ac_claims s) \<or> d \<in> sw_due ` set (io_scheduled (ac_io s)))
        \<longrightarrow> (\<exists>t. ac_timer s = Some t \<and> t \<le> d))"

definition actor_inv :: "responder_env \<Rightarrow> actor \<Rightarrow> bool" where
  "actor_inv env s \<longleftrightarrow> claims_ok (ac_claims s) \<and> io_ok env (ac_io s) \<and> timer_ok s"

section \<open>Lemmas\<close>

subsection \<open>Queues and replies\<close>

definition reply_channels :: "actor_io \<Rightarrow> nat list" where
  "reply_channels io = map fst (io_replies io)"

definition claim_channels :: "claim \<Rightarrow> nat list" where
  "claim_channels c = map snd (cm_pending c)"

lemma pending_channels_simps [simp]:
  "pending_channels [] = []"
  "pending_channels ((k, c) # cs) = claim_channels c @ pending_channels cs"
  by (simp_all add: pending_channels_def claim_channels_def)

lemma mset_pending_channels: "mset (pending_channels cs) = (\<Sum>(k, c) \<in># mset cs. mset (claim_channels c))"
  by (induction cs) auto

lemma reply_channels_simps [simp]:
  "reply_channels (io\<lparr>io_outbound := out\<rparr>) = reply_channels io"
  "reply_channels (io\<lparr>io_scheduled := sch\<rparr>) = reply_channels io"
  "reply_channels (io\<lparr>io_coordinator := coord\<rparr>) = reply_channels io"
  "reply_channels (send_reply channel reply io) = reply_channels io @ [channel]"
  by (simp_all add: reply_channels_def send_reply_def)

lemma send_reply_io [simp]:
  "io_outbound (send_reply channel reply io) = io_outbound io"
  "io_scheduled (send_reply channel reply io) = io_scheduled io"
  "io_coordinator (send_reply channel reply io) = io_coordinator io"
  by (simp_all add: send_reply_def)

lemma io_ok_send_reply [simp]: "io_ok env (send_reply channel reply io) \<longleftrightarrow> io_ok env io"
  by (simp add: io_ok_def)

lemma fold_send_reply:
  "io_ok env (fold (\<lambda>(rid, channel). send_reply channel (f rid)) ps io) \<longleftrightarrow> io_ok env io"
  "reply_channels (fold (\<lambda>(rid, channel). send_reply channel (f rid)) ps io) = reply_channels io @ map snd ps"
  "io_scheduled (fold (\<lambda>(rid, channel). send_reply channel (f rid)) ps io) = io_scheduled io"
  by (induction ps arbitrary: io) auto

lemma completeClaim_simps:
  "fst (completeClaim entry err io) = entry\<lparr>cm_pending := []\<rparr>"
  "io_ok env (snd (completeClaim entry err io)) \<longleftrightarrow> io_ok env io"
  "reply_channels (snd (completeClaim entry err io)) = reply_channels io @ claim_channels entry"
  "io_scheduled (snd (completeClaim entry err io)) = io_scheduled io"
  by (simp_all add: completeClaim_def fold_send_reply claim_channels_def)

lemma enqueue_ok:
  assumes "io_ok env io" "on_link env (wr_packet request)" "enqueueWriteRequest request io = (sent, io')"
  shows "io_ok env io' \<and> reply_channels io' = reply_channels io \<and> io_scheduled io' = io_scheduled io"
  using assms by (auto simp: enqueueWriteRequest_def io_ok_def reply_channels_def split: if_splits)

lemma enqueueWrite_ok:
  "io_ok env io \<Longrightarrow> on_link env p \<Longrightarrow> enqueueWrite p io = (sent, io') \<Longrightarrow>
     io_ok env io' \<and> reply_channels io' = reply_channels io \<and> io_scheduled io' = io_scheduled io"
  "io_ok env io \<Longrightarrow> on_link env p \<Longrightarrow> enqueueShutdownWrite p io = (sent, io') \<Longrightarrow>
     io_ok env io' \<and> reply_channels io' = reply_channels io \<and> io_scheduled io' = io_scheduled io"
  by (erule enqueue_ok; simp add: enqueueWrite_def enqueueShutdownWrite_def)+

lemma on_link_group [simp]: "on_link env \<lparr>op_payload = payload, op_destination = mdnsIPv4AddrPort\<rparr>"
  by (simp add: on_link_def)

subsection \<open>Loops over the claims\<close>

definition result_channels :: "claim option \<Rightarrow> nat list" where
  "result_channels c = (case c of None \<Rightarrow> [] | Some c \<Rightarrow> claim_channels c)"

definition result_ok :: "string \<Rightarrow> claim \<Rightarrow> claim option \<Rightarrow> bool" where
  "result_ok k c c' \<longleftrightarrow> (case c' of None \<Rightarrow> True | Some c' \<Rightarrow> claim_ok k c' \<and> (\<exists>m. claim_step m c c'))"

definition body_ok :: "responder_env \<Rightarrow> (string \<Rightarrow> claim \<Rightarrow> actor_io \<Rightarrow> claim option \<times> actor_io) \<Rightarrow> bool" where
  "body_ok env f \<longleftrightarrow> (\<forall>k c io c' io'. claim_ok k c \<longrightarrow> io_ok env io \<longrightarrow> f k c io = (c', io') \<longrightarrow>
     io_ok env io' \<and> result_ok k c c' \<and>
     mset (reply_channels io') + mset (result_channels c') = mset (reply_channels io) + mset (claim_channels c))"

lemma body_okI:
  "(\<And>k c io c' io'. claim_ok k c \<Longrightarrow> io_ok env io \<Longrightarrow> f k c io = (c', io') \<Longrightarrow>
     io_ok env io' \<and> result_ok k c c' \<and>
     mset (reply_channels io') + mset (result_channels c') = mset (reply_channels io) + mset (claim_channels c)) \<Longrightarrow>
   body_ok env f"
  by (auto simp: body_ok_def)

lemma each_claim_keys: "each_claim f cs io = (cs', io') \<Longrightarrow> fst ` set cs' \<subseteq> fst ` set cs"
proof (induction cs arbitrary: io cs' io')
  case (Cons x cs)
  obtain k c where x: "x = (k, c)" by (cases x)
  obtain c1 io1 where f: "f k c io = (c1, io1)" by (cases "f k c io")
  obtain cs1 io2 where r: "each_claim f cs io1 = (cs1, io2)" by (cases "each_claim f cs io1")
  from Cons.prems f r x have "cs' = (case c1 of None \<Rightarrow> cs1 | Some e \<Rightarrow> (k, e) # cs1)" by simp
  with Cons.IH [OF r] x show ?case by (cases c1) auto
qed simp

lemma each_claim_ok:
  assumes "body_ok env f" "claims_ok cs" "io_ok env io" "each_claim f cs io = (cs', io')"
  shows "claims_ok cs' \<and> io_ok env io' \<and>
    mset (reply_channels io') + mset (pending_channels cs') = mset (reply_channels io) + mset (pending_channels cs) \<and>
    (\<forall>k c c'. map_of cs k = Some c \<longrightarrow> map_of cs' k = Some c' \<longrightarrow> (\<exists>m. claim_step m c c'))"
  using assms(2-)
proof (induction cs arbitrary: io cs' io')
  case Nil
  then show ?case by simp
next
  case (Cons x rest)
  obtain k c where x: "x = (k, c)" by (cases x)
  obtain c1 io1 where f: "f k c io = (c1, io1)" by (cases "f k c io")
  obtain rest' io2 where r: "each_claim f rest io1 = (rest', io2)" by (cases "each_claim f rest io1")
  from Cons.prems x have ck: "claim_ok k c" and cr: "claims_ok rest" and k: "k \<notin> fst ` set rest"
    by (auto simp: claims_ok_def)
  from assms(1) ck Cons.prems(2) f have b: "io_ok env io1" "result_ok k c c1"
    "mset (reply_channels io1) + mset (result_channels c1) = mset (reply_channels io) + mset (claim_channels c)"
    unfolding body_ok_def by blast+
  note ih = Cons.IH [OF cr b(1) r]
  have k': "k \<notin> fst ` set rest'" using each_claim_keys [OF r] k by auto
  have res: "cs' = (case c1 of None \<Rightarrow> rest' | Some e \<Rightarrow> (k, e) # rest')" "io' = io2"
    using Cons.prems(3) x f r by auto
  have "map_of rest' k = None" using k' by (simp add: map_of_eq_None_iff)
  with ih b(2,3) res k' x k show ?case
    by (cases c1) (auto simp: claims_ok_def result_ok_def result_channels_def add.assoc add.commute add.left_commute)
qed

lemma nearest_due_start:
  "\<forall>w \<in> set ws. 0 < sw_due w \<Longrightarrow> n \<noteq> 0 \<Longrightarrow> nearest_due n ws \<noteq> 0 \<and> nearest_due n ws \<le> n"
proof (induction ws arbitrary: n)
  case (Cons w ws)
  let ?n = "if n = 0 \<or> sw_due w < n then sw_due w else n"
  have "?n \<noteq> 0" "?n \<le> n" using Cons.prems by auto
  with Cons.IH [of ?n] Cons.prems show ?case by auto
qed simp

lemma nearest_due_le:
  "\<forall>w \<in> set ws. 0 < sw_due w \<Longrightarrow> w \<in> set ws \<Longrightarrow> nearest_due n ws \<noteq> 0 \<and> nearest_due n ws \<le> sw_due w"
proof (induction ws arbitrary: n)
  case (Cons v ws)
  let ?n = "if n = 0 \<or> sw_due v < n then sw_due v else n"
  have "?n \<noteq> 0" "?n \<le> sw_due v" using Cons.prems(1) by auto
  with Cons.IH [of ?n] Cons.prems nearest_due_start [of ws ?n] show ?case by auto
qed simp

lemma nearest_deadline_start: "n \<noteq> 0 \<Longrightarrow> nearest_deadline n cs \<noteq> 0 \<and> nearest_deadline n cs \<le> n"
proof (induction cs arbitrary: n)
  case (Cons x cs)
  obtain k c where x: "x = (k, c)" by (cases x)
  let ?n = "if n = 0 \<or> cm_deadline c < n then cm_deadline c else n"
  show ?case
  proof (cases "cm_deadline c = 0")
    case False
    then have "?n \<noteq> 0" "?n \<le> n" using Cons.prems by auto
    with Cons.IH [of ?n] x False show ?thesis by auto
  qed (use Cons x in simp)
qed simp

lemma nearest_deadline_le:
  "(k, c) \<in> set cs \<Longrightarrow> cm_deadline c \<noteq> 0 \<Longrightarrow> nearest_deadline n cs \<noteq> 0 \<and> nearest_deadline n cs \<le> cm_deadline c"
proof (induction cs arbitrary: n)
  case (Cons x cs)
  obtain k' c' where x: "x = (k', c')" by (cases x)
  let ?n = "if n = 0 \<or> cm_deadline c' < n then cm_deadline c' else n"
  show ?case
  proof (cases "cm_deadline c' = 0")
    case True
    with Cons x show ?thesis by auto
  next
    case False
    then have "?n \<noteq> 0" "?n \<le> cm_deadline c'" by auto
    with nearest_deadline_start [of ?n cs] Cons.IH [of ?n] Cons.prems x False show ?thesis by auto
  qed
qed simp

subsection \<open>The cases\<close>

lemma result_ok_stay: "claim_ok k c \<Longrightarrow> result_ok k c (Some c)"
  by (auto simp: result_ok_def intro!: exI [of _ Stay])

lemma result_okI: "claim_ok k c' \<Longrightarrow> claim_step m c c' \<Longrightarrow> result_ok k c (Some c')"
  by (auto simp: result_ok_def)

lemma result_channels_simps [simp]:
  "result_channels None = []"
  "result_channels (Some c) = claim_channels c"
  by (simp_all add: result_channels_def)

lemma fail_claim_ok:
  assumes "io_ok env io" "fail_claim entry e io = (c', io')"
  shows "io_ok env io' \<and> result_ok k c c' \<and>
    mset (reply_channels io') + mset (result_channels c') = mset (reply_channels io) + mset (claim_channels entry)"
proof -
  have "c' = None" "io' = snd (completeClaim entry (Some e) io)" using assms(2) by (simp_all add: fail_claim_def)
  then show ?thesis using assms(1) by (simp add: completeClaim_simps result_ok_def)
qed

lemma responseDestination_on_link:
  "responseDestination inbound question t now (re_prefix env) = Some d \<Longrightarrow>
     op_destination p = d \<Longrightarrow> on_link env p"
  by (auto simp: responseDestination_def on_link_def split: if_splits)

lemma planned_answer_on_link:
  assumes "planned_answer env inbound message now random entry = Some (packet, due, multicast)"
  shows "on_link env packet"
proof -
  from assms obtain question where
    "responseDestination inbound question (cm_last_multicast entry) now (re_prefix env) = Some (op_destination packet)"
    unfolding planned_answer_def Let_def
    by (auto simp del: split_paired_Ex split: if_splits option.splits sum.splits)
  then show ?thesis by (rule responseDestination_on_link) simp
qed

lemma phase_ok_last_multicast [simp]: "phase_ok (c\<lparr>cm_last_multicast := t\<rparr>) \<longleftrightarrow> phase_ok c"
  by (cases "cm_phase c") (simp_all add: phase_ok_def)

lemma claim_ok_last_multicast [simp]: "claim_ok k (c\<lparr>cm_last_multicast := t\<rparr>) \<longleftrightarrow> claim_ok k c"
  by (simp add: claim_ok_def)

lemma claim_channels_simps [simp]:
  "claim_channels (c\<lparr>cm_last_multicast := t\<rparr>) = claim_channels c"
  "claim_channels (c\<lparr>cm_conflicts := ts\<rparr>) = claim_channels c"
  "claim_channels (c\<lparr>cm_pending := ps\<rparr>) = map snd ps"
  by (simp_all add: claim_channels_def)

lemma enqueueWrite_snd:
  "io_ok env io \<Longrightarrow> on_link env p \<Longrightarrow> io_ok env (snd (enqueueWrite p io)) \<and>
     reply_channels (snd (enqueueWrite p io)) = reply_channels io \<and>
     io_scheduled (snd (enqueueWrite p io)) = io_scheduled io"
  by (cases "enqueueWrite p io") (use enqueueWrite_ok(1) [of env io p] in auto)

lemma answer_query_ok:
  assumes "io_ok env io" "0 < now" "answer_query env inbound message now random k c io = (c', io')"
  shows "io_ok env io' \<and> reply_channels io' = reply_channels io \<and> (c' = c \<or> c' = c\<lparr>cm_last_multicast := now\<rparr>)"
proof (cases "planned_answer env inbound message now random c")
  case None
  then show ?thesis using assms by (simp add: answer_query_def)
next
  case (Some x)
  obtain packet due m where x: "x = (packet, due, m)" by (cases x)
  with Some have p: "on_link env packet" using planned_answer_on_link by simp
  show ?thesis
  proof (cases "due > now")
    case True
    then show ?thesis using assms Some x p by (auto simp: answer_query_def io_ok_def)
  next
    case False
    then show ?thesis using assms Some x enqueueWrite_snd [OF assms(1) p] by (auto simp: answer_query_def)
  qed
qed
lemma nextConflictHostname_ne: "nextConflictHostname lib raw = Inr name \<Longrightarrow> name \<noteq> ''''"
proof -
  assume n: "nextConflictHostname lib raw = Inr name"
  then obtain hostname where h: "canonicalHostname lib raw = Inr hostname" by (auto simp: nextConflictHostname_def res_bind_Inr_iff)
  obtain b i where "conflict_base (trim_suffix hostname ''.local.'') = (b, i)"
    by (cases "conflict_base (trim_suffix hostname ''.local.'')")
  with n h show ?thesis by (auto simp: nextConflictHostname_def Let_def split: if_splits)
qed

lemma next_candidate_ok:
  assumes "claim_ok k c" "io_ok env io" "0 < now" "\<forall>d. 0 \<le> random d"
    and phase: "cm_phase c \<in> {PhaseProbing, PhaseObserving, PhaseAwaitingReadiness}"
    and nc: "next_candidate env now random c io = (c', io')"
  shows "io_ok env io' \<and> result_ok k c c' \<and>
    mset (reply_channels io') + mset (result_channels c') = mset (reply_channels io) + mset (claim_channels c)"
proof -
  let ?c = "c\<lparr>cm_conflicts := cm_conflicts c @ [now]\<rparr>"
  have fail: ?thesis if "fail_claim ?c e io = (c', io')" for e
  proof -
    from that have "c' = None" by (simp add: fail_claim_def)
    with fail_claim_ok [OF assms(2) that, of k] show ?thesis by (simp add: result_ok_def)
  qed
  show ?thesis
  proof (cases "now - cm_started_at ?c \<ge> probingFailureLimit")
    case True
    with nc fail show ?thesis by (simp add: next_candidate_def Let_def)
  next
    case False
    show ?thesis
    proof (cases "nextConflictHostname (re_lib env) (cm_candidate c)")
      case (Inl e)
      with False nc fail show ?thesis by (simp add: next_candidate_def Let_def)
    next
      case (Inr name)
      define delay where "delay = (if conflictBackoff now (cm_conflicts ?c) > random (250 * millisecond)
        then conflictBackoff now (cm_conflicts ?c) else random (250 * millisecond))"
      have res: "c' = Some (?c\<lparr>cm_candidate := name, cm_phase := PhaseProbeWait, cm_probe_count := 0,
          cm_generation := cm_generation ?c + 1, cm_deadline := now + delay\<rparr>)" "io' = io"
        using False Inr nc unfolding next_candidate_def Let_def delay_def by simp_all
      have "0 \<le> random (250 * millisecond)" using assms(4) by blast
      then have "now + delay \<noteq> 0" using assms(3) by (simp add: delay_def)
      then have "result_ok k c c'"
        using assms(1) phase nextConflictHostname_ne [OF Inr] unfolding res
        by (intro result_okI [where m = Lose]) (simp_all add: claim_ok_def phase_ok_def)
      with res assms(2) show ?thesis by (simp add: claim_channels_def)
    qed
  qed
qed

lemma conflict_claim_ok:
  assumes "claim_ok k c" "announced c" "0 < now" "\<forall>d. 0 \<le> random d"
  shows "result_ok k c (Some (conflict_claim env message now random c)) \<and>
    claim_channels (conflict_claim env message now random c) = claim_channels c"
proof (cases "conflictingAResponse message (cm_current c) (own_addr env)")
  case True
  have "0 \<le> random (250 * millisecond)" using assms(4) by blast
  then have "now + random (250 * millisecond) \<noteq> 0" using assms(3) by simp
  with assms have "claim_ok k (conflict_claim env message now random c)"
    by (auto simp: conflict_claim_def True claim_ok_def phase_ok_def announced_def)
  then show ?thesis
    using assms(2) by (auto simp: conflict_claim_def True claim_channels_def intro!: result_okI [where m = Conflict])
next
  case False
  with assms(1) show ?thesis by (simp add: conflict_claim_def result_ok_stay)
qed

lemma inbound_body_ok:
  assumes "0 < now" "\<forall>k d. 0 \<le> random k d"
  shows "body_ok env (inbound_claim env inbound message now random)"
proof (rule body_okI)
  fix k c io c' io'
  assume ck: "claim_ok k c" and io: "io_ok env io"
    and f: "inbound_claim env inbound message now random k c io = (c', io')"
  note stay = result_ok_stay [OF ck]
  show "io_ok env io' \<and> result_ok k c c' \<and>
    mset (reply_channels io') + mset (result_channels c') = mset (reply_channels io) + mset (claim_channels c)"
  proof (cases "announced c")
    case True
    show ?thesis
    proof (cases "dm_response message")
      case r: True
      with f True have "c' = Some (conflict_claim env message now (random k) c)" "io' = io"
        by (simp_all add: inbound_claim_def)
      with conflict_claim_ok [OF ck True assms(1), of "random k"] assms(2) io show ?thesis by simp
    next
      case False
      obtain e io2 where a: "answer_query env inbound message now (random k) k c io = (e, io2)"
        by (cases "answer_query env inbound message now (random k) k c io")
      with f True False have "c' = Some e" "io' = io2" by (simp_all add: inbound_claim_def)
      moreover have "result_ok k c (Some (c\<lparr>cm_last_multicast := now\<rparr>))"
        using ck by (intro result_okI [where m = Stay]) simp_all
      ultimately show ?thesis using answer_query_ok [OF io assms(1) a] stay by auto
    qed
  next
    case False
    show ?thesis
    proof (cases "cm_phase c \<in> {PhaseProbing, PhaseObserving, PhaseAwaitingReadiness} \<and>
        cm_probe_count c \<noteq> 0 \<and> probe_lost env message c")
      case True
      with f False have "next_candidate env now (random k) c io = (c', io')" by (auto simp: inbound_claim_def)
      from next_candidate_ok [OF ck io assms(1) _ _ this] assms(2) True show ?thesis by blast
    next
      case no: False
      with f False have "c' = Some c" "io' = io" by (auto simp: inbound_claim_def split: if_splits)
      with io stay show ?thesis by simp
    qed
  qed
qed

lemma announce_ok:
  assumes "io_ok env io" "announce env hostname io = Inr io'"
  shows "io_ok env io' \<and> reply_channels io' = reply_channels io \<and> io_scheduled io' = io_scheduled io"
proof -
  from assms(2) obtain payload where
    "enqueueWrite \<lparr>op_payload = payload, op_destination = mdnsIPv4AddrPort\<rparr> io = (True, io')"
    by (auto simp: announce_def split: sum.splits prod.splits bool.splits)
  then show ?thesis by (rule enqueueWrite_ok(1) [OF assms(1) on_link_group])
qed

lemma send_probe_ok:
  assumes "claim_ok k c" "io_ok env io" "0 < now" "cm_phase c \<in> {PhaseProbeWait, PhaseProbing}"
    and sp: "send_probe env now c io = (c', io')"
  shows "io_ok env io' \<and> result_ok k c c' \<and>
    mset (reply_channels io') + mset (result_channels c') = mset (reply_channels io) + mset (claim_channels c)"
proof (cases "probeMessage (re_lib env) (cm_candidate c) (own_addr env)")
  case (Inl e)
  with sp show ?thesis using fail_claim_ok [OF assms(2)] by (simp add: send_probe_def)
next
  case (Inr payload)
  let ?p = "\<lparr>op_payload = payload, op_destination = mdnsIPv4AddrPort\<rparr>"
  obtain sent io1 where e: "enqueueWrite ?p io = (sent, io1)" by (cases "enqueueWrite ?p io")
  show ?thesis
  proof (cases sent)
    case False
    with sp Inr e show ?thesis using fail_claim_ok [OF assms(2)] by (simp add: send_probe_def)
  next
    case True
    let ?c = "c\<lparr>cm_probe_count := cm_probe_count c + 1, cm_deadline := now + 250 * millisecond\<rparr>"
    have res: "c' = Some (?c\<lparr>cm_phase := (if cm_probe_count c + 1 = 3 then PhaseObserving else PhaseProbing)\<rparr>)" "io' = io1"
      using sp Inr e True by (simp_all add: send_probe_def Let_def)
    have "cm_probe_count c \<in> {0, 1, 2}"
      using assms(1,4) by (auto simp: claim_ok_def phase_ok_def)
    then have "result_ok k c c'"
      using assms(1,3,4) unfolding res
      by (intro result_okI [where m = Probe]) (auto simp: claim_ok_def phase_ok_def)
    with res enqueueWrite_ok(1) [OF assms(2) on_link_group e] show ?thesis by (simp add: claim_channels_def)
  qed
qed

lemma ask_coordinator_ok:
  assumes "claim_ok k c" "io_ok env io" "cm_phase c = PhaseObserving" "ask_coordinator pick c io = (c', io')"
  shows "io_ok env io' \<and> result_ok k c c' \<and>
    mset (reply_channels io') + mset (result_channels c') = mset (reply_channels io) + mset (claim_channels c)"
proof (cases "length (io_coordinator io) < coordinatorQueueCapacity")
  case True
  then have res: "c' = Some (c\<lparr>cm_phase := PhaseAwaitingReadiness, cm_deadline := 0\<rparr>)"
    "\<exists>r. io' = io\<lparr>io_coordinator := io_coordinator io @ [r]\<rparr>"
    using assms(4) by (auto simp: ask_coordinator_def Let_def)
  have "result_ok k c c'"
    using assms(1,3) unfolding res by (intro result_okI [where m = Observe]) (auto simp: claim_ok_def phase_ok_def)
  with res assms(2) True show ?thesis by (auto simp: claim_channels_def io_ok_def)
next
  case False
  let ?c = "c\<lparr>cm_phase := PhaseAwaitingReadiness, cm_deadline := 0\<rparr>"
  from False assms(4) have f: "fail_claim ?c (MdnsError ''LAN mDNS coordinator queue is full'') io = (c', io')"
    by (simp add: ask_coordinator_def Let_def)
  then have "c' = None" by (simp add: fail_claim_def)
  with fail_claim_ok [OF assms(2) f, of k] show ?thesis by (simp add: result_ok_def claim_channels_def)
qed

lemma finish_announcing_ok:
  assumes "claim_ok k c" "io_ok env io" "cm_phase c = PhaseAnnouncing" "finish_announcing env now c io = (c', io')"
  shows "io_ok env io' \<and> result_ok k c c' \<and>
    mset (reply_channels io') + mset (result_channels c') = mset (reply_channels io) + mset (claim_channels c)"
proof (cases "announce env (cm_candidate c) io")
  case (Inl e)
  with assms(4) show ?thesis using fail_claim_ok [OF assms(2)] by (simp add: finish_announcing_def)
next
  case (Inr io1)
  let ?c = "c\<lparr>cm_last_multicast := now, cm_phase := PhaseActive, cm_deadline := 0\<rparr>"
  have res: "c' = Some (?c\<lparr>cm_pending := []\<rparr>)" "io' = snd (completeClaim ?c None io1)"
    using assms(4) Inr completeClaim_simps(1) [of ?c None io1]
    by (auto simp: finish_announcing_def split: prod.splits)
  have "result_ok k c c'"
    using assms(1,3) unfolding res by (intro result_okI [where m = Finish]) (auto simp: claim_ok_def phase_ok_def)
  with res announce_ok [OF assms(2) Inr] show ?thesis by (simp add: completeClaim_simps) (simp add: claim_channels_def)
qed

lemma timer_body_ok:
  assumes "0 < now"
  shows "body_ok env (timer_claim env now pick)"
proof (rule body_okI)
  fix k c io c' io'
  assume ck: "claim_ok k c" and io: "io_ok env io" and f: "timer_claim env now pick k c io = (c', io')"
  show "io_ok env io' \<and> result_ok k c c' \<and>
    mset (reply_channels io') + mset (result_channels c') = mset (reply_channels io) + mset (claim_channels c)"
  proof (cases "c' = Some c \<and> io' = io")
    case True
    with result_ok_stay [OF ck] io show ?thesis by simp
  next
    case False
    with f show ?thesis
      using send_probe_ok [OF ck io assms] ask_coordinator_ok [OF ck io] finish_announcing_ok [OF ck io]
      by (auto simp: timer_claim_def split: if_splits claim_phase.splits)
  qed
qed

lemma set_last_multicast_simps:
  "claims_ok (set_last_multicast k now cs) \<longleftrightarrow> claims_ok cs"
  "pending_channels (set_last_multicast k now cs) = pending_channels cs"
  "(cm_deadline \<circ> snd) ` set (set_last_multicast k now cs) = (cm_deadline \<circ> snd) ` set cs"
  "map_of (set_last_multicast k now cs) k' =
     (if k' = k then map_option (\<lambda>c. c\<lparr>cm_last_multicast := now\<rparr>) (map_of cs k) else map_of cs k')"
proof -
  have keys: "map fst (set_last_multicast k now cs) = map fst cs"
    by (induction cs) (auto simp: set_last_multicast_def)
  show "claims_ok (set_last_multicast k now cs) \<longleftrightarrow> claims_ok cs"
    unfolding claims_ok_def keys by (fastforce simp: set_last_multicast_def split: if_splits)
  show "pending_channels (set_last_multicast k now cs) = pending_channels cs"
    by (induction cs) (auto simp: set_last_multicast_def)
  show "(cm_deadline \<circ> snd) ` set (set_last_multicast k now cs) = (cm_deadline \<circ> snd) ` set cs"
    by (induction cs) (auto simp: set_last_multicast_def)
  show "map_of (set_last_multicast k now cs) k' =
     (if k' = k then map_option (\<lambda>c. c\<lparr>cm_last_multicast := now\<rparr>) (map_of cs k) else map_of cs k')"
    by (induction cs) (auto simp: set_last_multicast_def)
qed

lemma set_last_multicast_moves:
  "map_of cs k = Some c \<Longrightarrow> map_of (set_last_multicast j now cs) k = Some c' \<Longrightarrow> \<exists>t. c' = c\<lparr>cm_last_multicast := t\<rparr>"
  by (auto simp: set_last_multicast_simps split: if_splits intro: exI [of _ "cm_last_multicast c"])

lemma send_due_ok:
  assumes "send_due now ws cs io = (remaining, cs', io')" "io_ok env io" "claims_ok cs"
    and "\<forall>w \<in> set ws. on_link env (sw_packet w)"
  shows "set remaining \<subseteq> set ws \<and> io_ok env io' \<and> reply_channels io' = reply_channels io \<and>
    claims_ok cs' \<and> pending_channels cs' = pending_channels cs \<and>
    (\<forall>k c c'. map_of cs k = Some c \<longrightarrow> map_of cs' k = Some c' \<longrightarrow> (\<exists>t. c' = c\<lparr>cm_last_multicast := t\<rparr>)) \<and>
    dom (map_of cs') = dom (map_of cs)"
  using assms
proof (induction ws arbitrary: cs io remaining)
  case Nil
  have "\<exists>t. c = c\<lparr>cm_last_multicast := t\<rparr>" for c :: claim by (rule exI [of _ "cm_last_multicast c"]) simp
  with Nil show ?case by simp
next
  case (Cons w ws)
  consider (later) "sw_due w > now"
    | (skip) "send_due now ws cs io = (remaining, cs', io')" "\<not> sw_due w > now"
    | (send) cs1 where "send_due now ws cs1 (snd (enqueueWrite (sw_packet w) io)) = (remaining, cs', io')"
        "\<not> sw_due w > now" "cs1 = cs \<or> cs1 = set_last_multicast (sw_requested w) now cs"
    using Cons.prems(1) by (fastforce split: if_splits option.splits)
  then show ?case
  proof cases
    case later
    then obtain rem where r: "send_due now ws cs io = (rem, cs', io')" "remaining = w # rem"
      using Cons.prems(1) by (auto split: prod.splits)
    from Cons.IH [OF r(1)] Cons.prems r(2) show ?thesis by auto
  next
    case skip
    from Cons.IH [OF skip(1)] Cons.prems show ?thesis by auto
  next
    case send
    have e: "io_ok env (snd (enqueueWrite (sw_packet w) io)) \<and>
        reply_channels (snd (enqueueWrite (sw_packet w) io)) = reply_channels io"
      using enqueueWrite_snd [OF Cons.prems(2)] Cons.prems(4) by simp
    have c1: "claims_ok cs1" "pending_channels cs1 = pending_channels cs" "dom (map_of cs1) = dom (map_of cs)"
      using send(3) Cons.prems(3) by (auto simp: set_last_multicast_simps split: if_splits)
    have ih: "set remaining \<subseteq> set ws \<and> io_ok env io' \<and> reply_channels io' = reply_channels io \<and>
      claims_ok cs' \<and> pending_channels cs' = pending_channels cs \<and>
      (\<forall>k c c'. map_of cs1 k = Some c \<longrightarrow> map_of cs' k = Some c' \<longrightarrow> (\<exists>t. c' = c\<lparr>cm_last_multicast := t\<rparr>)) \<and>
      dom (map_of cs') = dom (map_of cs)"
      using Cons.IH [OF send(1)] e c1 Cons.prems(4) by auto
    have "\<exists>t. c' = c\<lparr>cm_last_multicast := t\<rparr>" if m: "map_of cs k = Some c" "map_of cs' k = Some c'" for k c c'
    proof -
      from c1(3) m(1) obtain c1 where c1: "map_of cs1 k = Some c1" by (metis domD domI)
      with send(3) m(1) obtain t where t: "c1 = c\<lparr>cm_last_multicast := t\<rparr>"
        using set_last_multicast_moves by (metis claim.surjective claim.update_convs(8) option.inject)
      from ih c1 m(2) obtain t' where "c' = c1\<lparr>cm_last_multicast := t'\<rparr>" by blast
      with t show ?thesis by auto
    qed
    with ih show ?thesis by auto
  qed
qed

lemma claim_step_last_multicast: "claim_step m (c\<lparr>cm_last_multicast := t\<rparr>) c' \<longleftrightarrow> claim_step m c c'"
  by (cases m) (simp_all add: announced_def)

subsection \<open>Single claims\<close>

lemma put_claim_simps [simp]:
  "put_claim k e [] = []"
  "put_claim k e ((k', c) # cs) = (k', if k' = k then e else c) # put_claim k e cs"
  by (simp_all add: put_claim_def)

lemma put_claim_map_of:
  "map_of (put_claim k e cs) k' = (if k' = k \<and> map_of cs k \<noteq> None then Some e else map_of cs k')"
proof (induction cs)
  case (Cons x cs)
  then show ?case by (cases x; cases "k' = k"; cases "map_of cs k") auto
qed simp

lemma drop_claim_map_of: "map_of (drop_claim k cs) k' = (if k' = k then None else map_of cs k')"
  by (induction cs) (auto simp: drop_claim_def)

lemma put_claim_ok:
  assumes "claims_ok cs" "claim_ok k e"
  shows "claims_ok (put_claim k e cs)"
proof -
  have "map fst (put_claim k e cs) = map fst cs" by (induction cs) (auto simp: put_claim_def)
  moreover have "claim_ok k' c'" if "(k', c') \<in> set (put_claim k e cs)" for k' c'
    using that assms by (auto simp: put_claim_def claims_ok_def split: if_splits)
  ultimately show ?thesis using assms(1) unfolding claims_ok_def by auto
qed

lemma drop_claim_ok: "claims_ok cs \<Longrightarrow> claims_ok (drop_claim k cs)"
  by (auto simp: claims_ok_def drop_claim_def distinct_map inj_on_def)

lemma put_claim_other: "k \<notin> fst ` set cs \<Longrightarrow> put_claim k e cs = cs"
  by (induction cs) (auto simp: put_claim_def)

lemma drop_claim_other: "k \<notin> fst ` set cs \<Longrightarrow> drop_claim k cs = cs"
  by (induction cs) (auto simp: drop_claim_def)

lemma put_claim_channels:
  "distinct (map fst cs) \<Longrightarrow> map_of cs k = Some c \<Longrightarrow>
     mset (pending_channels (put_claim k e cs)) + mset (claim_channels c) =
     mset (pending_channels cs) + mset (claim_channels e)"
proof (induction cs)
  case (Cons x cs)
  obtain k' c' where x: "x = (k', c')" by (cases x)
  show ?case
  proof (cases "k' = k")
    case True
    with Cons.prems x have "put_claim k e cs = cs" by (intro put_claim_other) auto
    with True Cons.prems x show ?thesis by (simp add: put_claim_def)
  next
    case False
    with Cons x show ?thesis by (simp add: put_claim_def ac_simps)
  qed
qed simp

lemma drop_claim_channels:
  "distinct (map fst cs) \<Longrightarrow> map_of cs k = Some c \<Longrightarrow>
     mset (pending_channels (drop_claim k cs)) + mset (claim_channels c) = mset (pending_channels cs)"
proof (induction cs)
  case (Cons x cs)
  obtain k' c' where x: "x = (k', c')" by (cases x)
  show ?case
  proof (cases "k' = k")
    case True
    with Cons.prems x have "drop_claim k cs = cs" by (intro drop_claim_other) auto
    with True Cons.prems x show ?thesis by (simp add: drop_claim_def)
  next
    case False
    with Cons x show ?thesis by (simp add: drop_claim_def ac_simps)
  qed
qed simp

subsection \<open>Every event\<close>

text \<open>What an event adds to the reply channels, and what may happen to the claims it finds.\<close>

fun new_channels :: "actor_event \<Rightarrow> nat list" where
  "new_channels (EvRegister hostname channel new_id now random) = [channel]"
| "new_channels (EvRelease rid channel) = [channel]"
| "new_channels (EvShutdown channel) = [channel]"
| "new_channels _ = []"

definition moves :: "actor \<Rightarrow> actor \<Rightarrow> bool" where
  "moves s s' \<longleftrightarrow> (\<forall>k c c'. map_of (ac_claims s) k = Some c \<longrightarrow> map_of (ac_claims s') k = Some c' \<longrightarrow>
     (\<exists>m. claim_step m c c'))"

definition parts_ok :: "responder_env \<Rightarrow> actor \<Rightarrow> bool" where
  "parts_ok env s \<longleftrightarrow> claims_ok (ac_claims s) \<and> io_ok env (ac_io s)"

lemma channels_alt:
  "channels s = reply_channels (ac_io s) @ pending_channels (ac_claims s) @
     (case ac_shutdown_reply s of None \<Rightarrow> [] | Some channel \<Rightarrow> [channel])"
  by (simp add: channels_def reply_channels_def)

lemma claim_step_Stay_refl [simp]: "claim_step Stay c c"
  by simp

lemma moves_same: "ac_claims s' = ac_claims s \<Longrightarrow> moves s s'"
  by (metis claim_step_Stay_refl moves_def option.inject)

lemma moves_drop: "ac_claims s' = drop_claim k (ac_claims s) \<Longrightarrow> moves s s'"
  unfolding moves_def by (auto simp: drop_claim_map_of split: if_splits intro!: exI [of _ Stay])

lemma moves_put:
  "ac_claims s' = put_claim k e (ac_claims s) \<Longrightarrow> (\<And>c. map_of (ac_claims s) k = Some c \<Longrightarrow> \<exists>m. claim_step m c e) \<Longrightarrow>
     moves s s'"
  unfolding moves_def by (auto simp: put_claim_map_of split: if_splits intro!: exI [of _ Stay])

lemma reschedule_simps [simp]:
  "ac_claims (reschedule s) = ac_claims s"
  "ac_io (reschedule s) = ac_io s"
  "ac_shutdown_reply (reschedule s) = ac_shutdown_reply s"
  "channels (reschedule s) = channels s"
  "moves s' (reschedule s) = moves s' s"
  "parts_ok env (reschedule s) = parts_ok env s"
  by (simp_all add: reschedule_def Let_def channels_def moves_def parts_ok_def)

lemma reschedule_timer:
  assumes "io_ok env (ac_io s)"
  shows "timer_ok (reschedule s)"
proof -
  let ?d = "nearest_deadline 0 (ac_claims s)"
  let ?n = "nearest_due ?d (io_scheduled (ac_io s))"
  have due: "\<forall>w \<in> set (io_scheduled (ac_io s)). 0 < sw_due w" using assms by (simp add: io_ok_def)
  have t: "ac_timer (reschedule s) = (if ?n = 0 then None else Some ?n)" by (simp add: reschedule_def Let_def)
  have "?n \<noteq> 0 \<and> ?n \<le> cm_deadline c" if "(k, c) \<in> set (ac_claims s)" "cm_deadline c \<noteq> 0" for k c
    using nearest_deadline_le [OF that, of 0] nearest_due_start [OF due, of ?d] by auto
  moreover have "?n \<noteq> 0 \<and> ?n \<le> sw_due w" if "w \<in> set (io_scheduled (ac_io s))" for w
    using nearest_due_le [OF due that] by blast
  ultimately show ?thesis unfolding timer_ok_def t by (auto simp: comp_def)
qed

lemma over_claims_ok:
  assumes "body_ok env f" "parts_ok env s"
  shows "parts_ok env (over_claims f s) \<and> moves s (over_claims f s) \<and>
    mset (channels (over_claims f s)) = mset (channels s) \<and>
    ac_shutdown_reply (over_claims f s) = ac_shutdown_reply s"
proof -
  obtain cs io where e: "each_claim f (ac_claims s) (ac_io s) = (cs, io)" by (cases "each_claim f (ac_claims s) (ac_io s)")
  from assms(2) have p: "claims_ok (ac_claims s)" "io_ok env (ac_io s)" by (simp_all add: parts_ok_def)
  from each_claim_ok [OF assms(1) p e] e show ?thesis
    by (auto simp: over_claims_def parts_ok_def moves_def channels_alt)
qed

definition effect_ok :: "responder_env \<Rightarrow> actor \<Rightarrow> actor_event \<Rightarrow> actor \<Rightarrow> bool" where
  "effect_ok env s e s' \<longleftrightarrow> parts_ok env s' \<and> timer_ok s' \<and> moves s s' \<and>
     mset (channels s') = mset (channels s) + mset (new_channels e)"

lemma actor_invD:
  assumes "actor_inv env s"
  shows "parts_ok env s" "timer_ok s" "claims_ok (ac_claims s)" "io_ok env (ac_io s)"
  using assms by (simp_all add: actor_inv_def parts_ok_def)

lemma parts_okD: "parts_ok env s \<Longrightarrow> claims_ok (ac_claims s)" "parts_ok env s \<Longrightarrow> io_ok env (ac_io s)"
  by (simp_all add: parts_ok_def)

lemma effect_reschedule:
  "parts_ok env s' \<Longrightarrow> moves s s' \<Longrightarrow> mset (channels s') = mset (channels s) + mset (new_channels e) \<Longrightarrow>
     effect_ok env s e (reschedule s')"
  by (simp add: effect_ok_def reschedule_timer [OF parts_okD(2)])

lemma effect_io:
  assumes "actor_inv env s" "io_ok env (ac_io s')" "io_scheduled (ac_io s') = io_scheduled (ac_io s)"
    and "ac_claims s' = ac_claims s" "ac_timer s' = ac_timer s"
    and "mset (channels s') = mset (channels s) + mset (new_channels e)"
  shows "effect_ok env s e s'"
  using assms by (auto simp: effect_ok_def actor_inv_def parts_ok_def timer_ok_def intro: moves_same)

lemma handle_inbound_ok:
  assumes "actor_inv env s" "event_ok s (EvInbound inbound now random)"
  shows "effect_ok env s (EvInbound inbound now random) (handle_inbound env inbound now random s)"
proof (cases "decodePacket (re_lib env) (mp_payload inbound)")
  case (Inl e)
  with assms(1) show ?thesis by (simp add: handle_inbound_def effect_ok_def actor_invD moves_same)
next
  case (Inr message)
  have "0 < now" "\<forall>k d. 0 \<le> random k d" using assms(2) by simp_all
  from over_claims_ok [OF inbound_body_ok [OF this] actor_invD(1) [OF assms(1)]] Inr show ?thesis
    by (simp add: handle_inbound_def effect_reschedule)
qed

lemma timer_ok_fewer:
  assumes "timer_ok s" "set (ac_claims s') \<subseteq> set (ac_claims s)" "io_scheduled (ac_io s') = io_scheduled (ac_io s)"
    "ac_timer s' = ac_timer s"
  shows "timer_ok s'"
proof -
  have "(cm_deadline \<circ> snd) ` set (ac_claims s') \<subseteq> (cm_deadline \<circ> snd) ` set (ac_claims s)"
    using assms(2) by (rule image_mono)
  with assms(1) show ?thesis unfolding timer_ok_def assms(3,4) by blast
qed

lemma channels_send [simp]:
  "channels (s\<lparr>ac_io := send_reply channel reply (ac_io s)\<rparr>) =
     reply_channels (ac_io s) @ channel # pending_channels (ac_claims s) @
     (case ac_shutdown_reply s of None \<Rightarrow> [] | Some channel \<Rightarrow> [channel])"
  by (simp add: channels_alt)

lemma handle_write_result_ok:
  assumes "actor_inv env s"
  shows "effect_ok env s (EvWriteResult err shutdown) (handle_write_result err shutdown s)"
proof (cases "shutdown \<and> ac_shutdown_reply s \<noteq> None")
  case True
  then obtain channel where "ac_shutdown_reply s = Some channel" by auto
  with True actor_invD(4) [OF assms] show ?thesis
    by (cases err) (auto simp: handle_write_result_def Let_def channels_alt intro!: effect_io [OF assms])
next
  case False
  then have "handle_write_result err shutdown s = (if err \<noteq> None then s\<lparr>ac_cancelled := True\<rparr> else s)"
    by (cases shutdown; cases "ac_shutdown_reply s") (auto simp: handle_write_result_def)
  with actor_invD(4) [OF assms] show ?thesis
    by (auto simp: channels_def intro!: effect_io [OF assms])
qed

lemma map_of_claim: "claims_ok cs \<Longrightarrow> map_of cs k = Some c \<Longrightarrow> claim_ok k c"
  by (auto simp: claims_ok_def dest: map_of_SomeD)

lemma coordinator_failed:
  assumes "actor_inv env s" "map_of (ac_claims s) requested = Some c"
    and s': "s' = s\<lparr>ac_claims := drop_claim (cm_requested c) (ac_claims s), ac_io := snd (completeClaim c (Some e) (ac_io s))\<rparr>"
  shows "effect_ok env s (EvCoordinatorResult requested generation err now now') s'"
proof -
  note inv = actor_invD [OF assms(1)]
  have "cm_requested c = requested" using map_of_claim [OF inv(3) assms(2)] by (simp add: claim_ok_def)
  with drop_claim_channels [OF _ assms(2)] inv(3)
  have ch: "mset (pending_channels (drop_claim (cm_requested c) (ac_claims s))) + mset (claim_channels c) =
      mset (pending_channels (ac_claims s))" by (simp add: claims_ok_def)
  have "parts_ok env s'" using inv drop_claim_ok by (simp add: s' parts_ok_def completeClaim_simps)
  moreover have "timer_ok s'"
    by (rule timer_ok_fewer [OF inv(2)]) (auto simp: s' drop_claim_def completeClaim_simps)
  moreover have "moves s s'" by (rule moves_drop [of _ "cm_requested c"]) (simp add: s')
  moreover have "mset (channels s') = mset (channels s)"
    unfolding channels_alt s' using ch by (simp add: completeClaim_simps ac_simps)
  ultimately show ?thesis by (simp add: effect_ok_def)
qed

lemma handle_coordinator_result_ok:
  assumes "actor_inv env s" "event_ok s (EvCoordinatorResult requested generation err now now')"
  shows "effect_ok env s (EvCoordinatorResult requested generation err now now')
    (handle_coordinator_result env requested generation err now now' s)"
proof (cases "\<exists>c. map_of (ac_claims s) requested = Some c \<and> cm_generation c = generation \<and> cm_phase c = PhaseAwaitingReadiness")
  case False
  then have "handle_coordinator_result env requested generation err now now' s = s"
    by (auto simp: handle_coordinator_result_def split: option.splits)
  with assms(1) show ?thesis by (simp add: effect_ok_def actor_invD moves_same)
next
  case True
  then obtain c where c: "map_of (ac_claims s) requested = Some c" "cm_generation c = generation"
    "cm_phase c = PhaseAwaitingReadiness" by blast
  note inv = actor_invD [OF assms(1)]
  show ?thesis
  proof (cases "\<exists>e. err = Some e \<or> announce env (cm_candidate c) (ac_io s) = Inl e")
    case True
    with c have "\<exists>e. handle_coordinator_result env requested generation err now now' s =
       s\<lparr>ac_claims := drop_claim (cm_requested c) (ac_claims s), ac_io := snd (completeClaim c (Some e) (ac_io s))\<rparr>"
      by (cases err) (auto simp: handle_coordinator_result_def)
    then show ?thesis using coordinator_failed [OF assms(1) c(1)] by blast
  next
    case False
    then obtain io where io: "announce env (cm_candidate c) (ac_io s) = Inr io" "err = None"
      by (cases "announce env (cm_candidate c) (ac_io s)") auto
    let ?c = "c\<lparr>cm_current := cm_candidate c, cm_last_multicast := now, cm_phase := PhaseAnnouncing, cm_deadline := now' + second\<rparr>"
    let ?s = "s\<lparr>ac_io := io,
      ac_current := (\<lambda>rid. if rid \<in> set (cm_refs c) then cm_candidate c else ac_current s rid),
      ac_claims := put_claim requested ?c (ac_claims s)\<rparr>"
    have h: "handle_coordinator_result env requested generation err now now' s = reschedule ?s"
      using c io by (simp add: handle_coordinator_result_def)
    have ck: "claim_ok requested ?c"
      using map_of_claim [OF inv(3) c(1)] c(3) assms(2) by (simp add: claim_ok_def phase_ok_def)
    have "moves s ?s" using c by (intro moves_put [of _ requested]) (auto intro!: exI [of _ Approve])
    moreover have "parts_ok env ?s"
      using put_claim_ok [OF inv(3) ck] announce_ok [OF inv(4) io(1)] by (simp add: parts_ok_def)
    moreover have "mset (channels ?s) = mset (channels s)"
      using put_claim_channels [OF _ c(1), of ?c] inv(3) announce_ok [OF inv(4) io(1)]
      by (simp add: channels_alt claims_ok_def claim_channels_def)
    ultimately show ?thesis unfolding h by (simp add: effect_reschedule)
  qed
qed

lemma handle_timer_ok:
  assumes "actor_inv env s" "event_ok s (EvTimer now pick)"
  shows "effect_ok env s (EvTimer now pick) (handle_timer env now pick s)"
proof -
  note inv = actor_invD [OF assms(1)]
  obtain remaining cs io where sd: "send_due now (io_scheduled (ac_io s)) (ac_claims s) (ac_io s) = (remaining, cs, io)"
    by (cases "send_due now (io_scheduled (ac_io s)) (ac_claims s) (ac_io s)")
  have sch: "\<forall>w \<in> set (io_scheduled (ac_io s)). on_link env (sw_packet w)" using inv(4) by (simp add: io_ok_def)
  note d = send_due_ok [OF sd inv(4,3) sch]
  let ?s = "s\<lparr>ac_claims := cs, ac_io := io\<lparr>io_scheduled := remaining\<rparr>\<rparr>"
  let ?t = "over_claims (timer_claim env now pick) ?s"
  have "io_ok env (io\<lparr>io_scheduled := remaining\<rparr>)"
    using d inv(4) unfolding io_ok_def by auto
  with d have p: "parts_ok env ?s" by (simp add: parts_ok_def)
  have "0 < now" using assms(2) by simp
  note t = over_claims_ok [OF timer_body_ok [OF this] p, of pick]
  have "moves s ?t"
    unfolding moves_def
  proof (intro allI impI)
    fix k c c'
    assume c: "map_of (ac_claims s) k = Some c" "map_of (ac_claims ?t) k = Some c'"
    from c(1) d obtain c1 where c1: "map_of cs k = Some c1" by (metis domD domI)
    with c(1) d obtain tm where tm: "c1 = c\<lparr>cm_last_multicast := tm\<rparr>" by blast
    have "\<exists>m. claim_step m c1 c'" using t c1 c(2) unfolding moves_def by simp
    then obtain m where "claim_step m c1 c'" by blast
    with tm show "\<exists>m. claim_step m c c'" using claim_step_last_multicast by blast
  qed
  moreover have "channels ?s = channels s" using d by (simp add: channels_alt)
  then have "mset (channels ?t) = mset (channels s)" using t by metis
  moreover have "handle_timer env now pick s = reschedule ?t" using sd by (simp add: handle_timer_def)
  ultimately show ?thesis using t by (simp add: effect_reschedule)
qed

lemma canonicalHostname_ne: "canonicalHostname lib raw = Inr h \<Longrightarrow> h \<noteq> ''''"
  by (auto simp: canonicalHostname_def Let_def has_suffix_iff split: if_splits)

lemma moves_cons:
  "ac_claims s' = (k, e) # ac_claims s \<Longrightarrow> map_of (ac_claims s) k = None \<Longrightarrow> moves s s'"
  unfolding moves_def by (auto split: if_splits intro!: exI [of _ Stay])

lemma register_claim:
  assumes "claims_ok cs" "entry = the (map_of cs' hostname)" "hostname \<noteq> ''''" "0 < now" "\<forall>d. 0 \<le> random d"
    and "cs' = (case map_of cs hostname of None \<Rightarrow> (hostname, new_claim hostname now random) # cs | Some _ \<Rightarrow> cs)"
    and "claim_ok hostname e"
    and "map_of cs hostname = None \<or> claim_step Stay entry e"
  shows "claims_ok (put_claim hostname e cs')"
    and "\<And>s s'. ac_claims s = cs \<Longrightarrow> ac_claims s' = put_claim hostname e cs' \<Longrightarrow> moves s s'"
    and "mset (pending_channels (put_claim hostname e cs')) + mset (claim_channels entry) =
      mset (pending_channels cs) + mset (claim_channels e)"
proof -
  consider (new) "map_of cs hostname = None" "cs' = (hostname, new_claim hostname now random) # cs"
    "entry = new_claim hostname now random" "put_claim hostname e cs' = (hostname, e) # cs"
    | (old) "map_of cs hostname = Some entry" "cs' = cs" "claim_step Stay entry e"
    using assms(2,6,8) by (cases "map_of cs hostname") (auto simp: map_of_eq_None_iff put_claim_other)
  note cases = this
  have dist: "distinct (map fst cs)" using assms(1) by (simp add: claims_ok_def)
  show "claims_ok (put_claim hostname e cs')"
    using cases
  proof cases
    case new
    with assms(1,7) show ?thesis by (auto simp: claims_ok_def map_of_eq_None_iff)
  qed (use put_claim_ok assms in auto)
  show "moves s s'" if "ac_claims s = cs" "ac_claims s' = put_claim hostname e cs'" for s s'
    using cases
  proof cases
    case new
    with that moves_cons [of s' hostname e s] show ?thesis by simp
  next
    case old
    with that show ?thesis by (intro moves_put [of s' hostname e s]) (auto intro: exI [of _ Stay])
  qed
  show "mset (pending_channels (put_claim hostname e cs')) + mset (claim_channels entry) =
      mset (pending_channels cs) + mset (claim_channels e)"
    using cases
  proof cases
    case new
    then show ?thesis by (simp add: claim_channels_def new_claim_def)
  next
    case old
    with put_claim_channels [OF dist] show ?thesis by simp
  qed
qed

lemma handle_register_ok:
  assumes "actor_inv env s" "event_ok s (EvRegister raw channel new_id now random)"
  shows "effect_ok env s (EvRegister raw channel new_id now random) (handle_register env raw channel new_id now random s)"
proof -
  note inv = actor_invD [OF assms(1)]
  from assms(2) have ev: "0 < now" "\<forall>d. 0 \<le> random d" by simp_all
  have refused: "effect_ok env s (EvRegister raw channel new_id now random)
      (s\<lparr>ac_io := send_reply channel (RegisterFailed e) (ac_io s)\<rparr>)" for e
    using inv(4) by (intro effect_io [OF assms(1)]) (simp_all add: channels_alt)
  show ?thesis
  proof (cases "\<exists>hostname rid. canonicalHostname (re_lib env) raw = Inr hostname \<and> new_id = Some rid")
    case False
    then have "\<exists>e. handle_register env raw channel new_id now random s =
        s\<lparr>ac_io := send_reply channel (RegisterFailed e) (ac_io s)\<rparr>"
      by (cases "canonicalHostname (re_lib env) raw"; cases new_id) (auto simp: handle_register_def)
    with refused show ?thesis by metis
  next
    case True
    then obtain hostname rid where h: "canonicalHostname (re_lib env) raw = Inr hostname" and rid: "new_id = Some rid" by blast
    note ne = canonicalHostname_ne [OF h]
    define cs where "cs = (case map_of (ac_claims s) hostname of
        None \<Rightarrow> (hostname, new_claim hostname now random) # ac_claims s | Some _ \<Rightarrow> ac_claims s)"
    define entry where "entry = the (map_of cs hostname)"
    define e1 where "e1 = entry\<lparr>cm_refs := cm_refs entry @ [rid]\<rparr>"
    define e2 where "e2 = (if re_bypass env \<or> cm_phase entry = PhaseActive
      then e1\<lparr>cm_current := (if cm_current entry = '''' then hostname else cm_current entry)\<rparr>
      else e1\<lparr>cm_pending := cm_pending entry @ [(rid, channel)]\<rparr>)"
    have now: "now + random (250 * millisecond) \<noteq> 0"
      using ev by (metis add_pos_nonneg less_numeral_extra(3))
    have entry: "cm_requested entry = hostname" "cm_candidate entry \<noteq> ''''" "phase_ok entry" "rid \<notin> set (cm_refs entry)"
        "distinct (map fst (cm_pending entry))" "fst ` set (cm_pending entry) \<subseteq> set (cm_refs entry)"
        "map_of (ac_claims s) hostname = None \<or> claim_ok hostname entry"
    proof -
      have "(map_of (ac_claims s) hostname = None \<and> entry = new_claim hostname now random) \<or>
          (map_of (ac_claims s) hostname = Some entry \<and> claim_ok hostname entry)"
        using map_of_claim [OF inv(3), of hostname] by (auto simp: entry_def cs_def split: option.splits)
      moreover have "rid \<notin> set (cm_refs c)" if "map_of (ac_claims s) hostname = Some c" for c
        using assms(2) rid that by (auto simp: ref_ids_def dest: map_of_SomeD)
      ultimately show "cm_requested entry = hostname" "cm_candidate entry \<noteq> ''''" "phase_ok entry" "rid \<notin> set (cm_refs entry)"
        "distinct (map fst (cm_pending entry))" "fst ` set (cm_pending entry) \<subseteq> set (cm_refs entry)"
        "map_of (ac_claims s) hostname = None \<or> claim_ok hostname entry"
        using ne now by (auto simp: claim_ok_def phase_ok_def new_claim_def)
    qed
    have same: "cm_phase e2 = cm_phase entry" "cm_candidate e2 = cm_candidate entry"
      "cm_probe_count e2 = cm_probe_count entry" "cm_generation e2 = cm_generation entry" "cm_deadline e2 = cm_deadline entry"
      "announced entry \<Longrightarrow> cm_current e2 = cm_current entry"
      using entry(2,3) by (auto simp: e2_def e1_def announced_def phase_ok_def)
    have "phase_ok e2"
      using entry(3) same by (cases "cm_phase entry") (auto simp: phase_ok_def announced_def e2_def e1_def)
    moreover have "rid \<notin> fst ` set (cm_pending entry)" using entry(4,6) by blast
    ultimately have ck: "claim_ok hostname e2"
      using entry by (auto simp: claim_ok_def e2_def e1_def)
    have st: "claim_step Stay entry e2" using same by simp
    note reg = register_claim [OF inv(3) entry_def ne ev cs_def ck disjI2 [OF st]]
    let ?s = "s\<lparr>ac_registrations := (ac_registrations s)(rid \<mapsto> hostname), ac_current := (ac_current s)(rid := '''')\<rparr>"
    show ?thesis
    proof (cases "re_bypass env \<or> cm_phase entry = PhaseActive")
      case True
      then have e2: "e2 = e1\<lparr>cm_current := (if cm_current entry = '''' then hostname else cm_current entry)\<rparr>"
        by (simp add: e2_def)
      let ?t = "?s\<lparr>ac_claims := put_claim hostname e2 cs, ac_current := (ac_current ?s)(rid := cm_current e2),
        ac_io := send_reply channel (Registered rid) (ac_io s)\<rparr>"
      have h': "handle_register env raw channel new_id now random s = reschedule ?t"
        using True h rid unfolding handle_register_def e2
        by (simp add: Let_def cs_def [symmetric] entry_def [symmetric]) (simp add: e1_def)
      have "claim_channels e2 = claim_channels entry" by (simp add: e2 e1_def claim_channels_def)
      with reg(1,3) reg(2) [of s ?t] inv(4) show ?thesis
        unfolding h' by (intro effect_reschedule) (simp_all add: parts_ok_def channels_alt)
    next
      case False
      then have e2: "e2 = e1\<lparr>cm_pending := cm_pending entry @ [(rid, channel)]\<rparr>" by (simp add: e2_def)
      let ?t = "?s\<lparr>ac_claims := put_claim hostname e2 cs\<rparr>"
      have h': "handle_register env raw channel new_id now random s = reschedule ?t"
        using False h rid unfolding handle_register_def e2
        by (simp add: Let_def cs_def [symmetric] entry_def [symmetric]) (simp add: e1_def)
      have "claim_channels e2 = claim_channels entry @ [channel]" by (simp add: e2 e1_def claim_channels_def)
      with reg(1,3) reg(2) [of s ?t] inv(4) show ?thesis
        unfolding h' by (intro effect_reschedule) (simp_all add: parts_ok_def channels_alt)
    qed
  qed
qed

lemma cancel_pending_Some:
  "cancel_pending channel ps = Some (rid, rest) \<Longrightarrow>
     \<exists>pre post. ps = pre @ (rid, channel) # post \<and> rest = pre @ post"
proof (induction ps arbitrary: rest)
  case (Cons p ps)
  obtain r ch where p: "p = (r, ch)" by (cases p)
  show ?case
  proof (cases "ch = channel")
    case True
    with Cons.prems p show ?thesis by (intro exI [of _ "[]"] exI [of _ ps]) auto
  next
    case False
    with Cons.prems p obtain rest' where r: "cancel_pending channel ps = Some (rid, rest')" "rest = p # rest'" by auto
    from Cons.IH [OF r(1)] obtain pre post where "ps = pre @ (rid, channel) # post" "rest' = pre @ post" by blast
    with r(2) show ?thesis by (intro exI [of _ "p # pre"] exI [of _ post]) simp
  qed
qed simp

lemma cancelled_claim_ok:
  assumes "claim_ok k c" "cancel_pending channel (cm_pending c) = Some (rid, rest)"
    and e: "e = c\<lparr>cm_refs := filter (\<lambda>r. r \<noteq> rid) (cm_refs c), cm_pending := rest\<rparr>"
  shows "(cm_refs e \<noteq> [] \<longrightarrow> claim_ok k e) \<and> (cm_refs e = [] \<longrightarrow> cm_pending e = []) \<and>
    claim_step Stay c e \<and> mset (claim_channels c) = mset (claim_channels e) + {#channel#}"
proof -
  from cancel_pending_Some [OF assms(2)] obtain pre post where
    ps: "cm_pending c = pre @ (rid, channel) # post" "rest = pre @ post" by blast
  have d: "distinct (map fst (pre @ (rid, channel) # post))" using assms(1) ps by (simp add: claim_ok_def)
  have sub: "fst ` set rest \<subseteq> {r \<in> set (cm_refs c). r \<noteq> rid}"
    using assms(1) d unfolding claim_ok_def ps by auto
  have "phase_ok c" "cm_phase c \<noteq> PhaseActive"
    using assms(1) ps(1) by (auto simp: claim_ok_def phase_ok_def)
  then have "phase_ok e" by (cases "cm_phase c") (simp_all add: phase_ok_def e)
  then have "cm_refs e \<noteq> [] \<longrightarrow> claim_ok k e" using assms(1) d sub ps by (simp add: claim_ok_def e)
  moreover have "cm_refs e = [] \<longrightarrow> cm_pending e = []"
  proof
    assume "cm_refs e = []"
    then have none: "{r \<in> set (cm_refs c). r \<noteq> rid} = {}" unfolding e by (auto simp: filter_empty_conv)
    have "fst ` set rest = {}" using sub unfolding none by simp
    then show "cm_pending e = []" by (simp add: e)
  qed
  ultimately show ?thesis using ps by (simp add: e claim_channels_def)
qed

lemma cancel_claims_ok:
  assumes "cancel_claims channel cs regs = (cs', regs')" "claims_ok cs"
  shows "claims_ok cs' \<and> fst ` set cs' \<subseteq> fst ` set cs \<and> 
    (\<exists>n. mset (pending_channels cs) = mset (pending_channels cs') + replicate_mset n channel) \<and>
    (\<forall>k c c'. map_of cs k = Some c \<longrightarrow> map_of cs' k = Some c' \<longrightarrow> (\<exists>m. claim_step m c c'))"
  using assms
proof (induction cs arbitrary: regs cs' regs')
  case Nil
  then show ?case by (auto intro: exI [of _ 0])
next
  case (Cons x cs)
  obtain k c where x: "x = (k, c)" by (cases x)
  from Cons.prems(2) x have ck: "claim_ok k c" and cs: "claims_ok cs" and k: "k \<notin> fst ` set cs"
    by (auto simp: claims_ok_def)
  show ?case
  proof (cases "cancel_pending channel (cm_pending c)")
    case None
    with Cons.prems(1) x obtain cs1 where r: "cancel_claims channel cs regs = (cs1, regs')" "cs' = (k, c) # cs1"
      by (auto split: prod.splits)
    from Cons.IH [OF r(1) cs] ck k r(2) x show ?thesis
      by (auto simp: claims_ok_def intro!: exI [of _ Stay])
  next
    case (Some p)
    obtain rid rest where p: "p = (rid, rest)" by (cases p)
    let ?e = "c\<lparr>cm_refs := filter (\<lambda>r. r \<noteq> rid) (cm_refs c), cm_pending := rest\<rparr>"
    from Cons.prems(1) x Some p obtain cs1 where r: "cancel_claims channel cs (regs(rid := None)) = (cs1, regs')"
        "cs' = (if cm_refs ?e = [] then cs1 else (k, ?e) # cs1)"
      by (auto simp: Let_def split: prod.splits)
    note ih = Cons.IH [OF r(1) cs]
    note c = cancelled_claim_ok [OF ck Some [unfolded p] refl]
    have k1: "k \<notin> fst ` set cs1" using ih k by blast
    have ch: "mset (claim_channels c) = mset (claim_channels ?e) + {#channel#}" using c by simp
    have mv: "\<exists>m. claim_step m c ?e" using c by blast
    from ih obtain n where n: "mset (pending_channels cs) = mset (pending_channels cs1) + replicate_mset n channel" by blast
    have none: "map_of cs1 k = None" using k1 by (simp add: map_of_eq_None_iff)
    show ?thesis
    proof (cases "cm_refs ?e = []")
      case True
      then have "mset (claim_channels c) = {#channel#}" using c by (simp add: claim_channels_def)
      then have "mset (pending_channels (x # cs)) = mset (pending_channels cs1) + replicate_mset (Suc n) channel"
        by (simp add: x n)
      then have "\<exists>n. mset (pending_channels (x # cs)) = mset (pending_channels cs1) + replicate_mset n channel" ..
      moreover have "cs' = cs1" using r(2) True by simp
      ultimately show ?thesis using ih none x by (simp del: pending_channels_simps) blast
    next
      case False
      have "mset (pending_channels (x # cs)) = mset (pending_channels ((k, ?e) # cs1)) + replicate_mset (Suc n) channel"
        by (simp add: x n ch)
      then have "\<exists>n. mset (pending_channels (x # cs)) = mset (pending_channels ((k, ?e) # cs1)) + replicate_mset n channel" ..
      moreover have "cs' = (k, ?e) # cs1" using r(2) False by simp
      moreover have "claims_ok ((k, ?e) # cs1)" using ih c False k1 by (simp add: claims_ok_def)
      ultimately show ?thesis using ih mv x by (simp del: pending_channels_simps) blast
    qed
  qed
qed

lemma handle_cancel_ok:
  assumes "actor_inv env s"
  shows "parts_ok env (handle_cancel channel s) \<and> timer_ok (handle_cancel channel s) \<and> moves s (handle_cancel channel s) \<and>
    (\<exists>n. mset (channels s) = mset (channels (handle_cancel channel s)) + replicate_mset n channel)"
proof -
  note inv = actor_invD [OF assms]
  obtain cs regs where c: "cancel_claims channel (ac_claims s) (ac_registrations s) = (cs, regs)"
    by (cases "cancel_claims channel (ac_claims s) (ac_registrations s)")
  note cc = cancel_claims_ok [OF c inv(3)]
  let ?s = "s\<lparr>ac_claims := cs, ac_registrations := regs\<rparr>"
  have "parts_ok env ?s" using cc inv(4) by (simp add: parts_ok_def)
  moreover have "moves s ?s" using cc by (simp add: moves_def)
  moreover have "\<exists>n. mset (channels s) = mset (channels ?s) + replicate_mset n channel"
    using cc by (auto simp: channels_alt)
  ultimately show ?thesis using c by (simp add: handle_cancel_def reschedule_timer [OF parts_okD(2)])
qed

lemma goodbye_ok:
  assumes "io_ok env io"
  shows "io_ok env (goodbye env entry io) \<and> reply_channels (goodbye env entry io) = reply_channels io"
  using enqueueWrite_snd [OF assms on_link_group] assms by (auto simp: goodbye_def split: sum.splits)

lemma release_ref_ok:
  assumes "parts_ok env s" "rid \<notin> waiting_ids (ac_claims s)"
  shows "parts_ok env (release_ref env rid requested s) \<and> moves s (release_ref env rid requested s) \<and>
    mset (channels (release_ref env rid requested s)) = mset (channels s)"
proof (cases "map_of (ac_claims s) requested")
  case None
  then show ?thesis using assms(1) by (simp add: release_ref_def moves_same)
next
  case (Some c)
  note inv = parts_okD [OF assms(1)]
  let ?e = "c\<lparr>cm_refs := filter (\<lambda>r. r \<noteq> rid) (cm_refs c)\<rparr>"
  have ck: "claim_ok requested c" using map_of_claim [OF inv(1) Some] .
  have dist: "distinct (map fst (ac_claims s))" using inv(1) by (simp add: claims_ok_def)
  have "rid \<notin> fst ` set (cm_pending c)"
    using assms(2) map_of_SomeD [OF Some] by (auto simp: waiting_ids_def)
  then have sub: "fst ` set (cm_pending c) \<subseteq> set (cm_refs ?e)" using ck by (auto simp: claim_ok_def)
  show ?thesis
  proof (cases "cm_refs ?e = []")
    case True
    with sub have "claim_channels c = []" by (simp add: claim_channels_def)
    with drop_claim_channels [OF dist Some] have "mset (pending_channels (drop_claim requested (ac_claims s))) = mset (pending_channels (ac_claims s))"
      by simp
    with True Some inv drop_claim_ok [OF inv(1)] goodbye_ok [OF inv(2)] show ?thesis
      by (simp add: release_ref_def Let_def parts_ok_def channels_alt moves_drop)
  next
    case False
    have "phase_ok ?e" using ck by (cases "cm_phase c") (simp_all add: claim_ok_def phase_ok_def)
    with False ck sub have "claim_ok requested ?e" by (simp add: claim_ok_def)
    note p = put_claim_ok [OF inv(1) this]
    have "release_ref env rid requested s = s\<lparr>ac_claims := put_claim requested ?e (ac_claims s)\<rparr>"
      using False Some by (simp add: release_ref_def Let_def)
    moreover have "moves s (s\<lparr>ac_claims := put_claim requested ?e (ac_claims s)\<rparr>)"
      using Some by (intro moves_put [of _ requested]) (auto intro!: exI [of _ Stay])
    moreover have "mset (pending_channels (put_claim requested ?e (ac_claims s))) = mset (pending_channels (ac_claims s))"
      using put_claim_channels [OF dist Some, of ?e] by (simp add: claim_channels_def)
    ultimately show ?thesis using p inv(2) by (simp add: parts_ok_def channels_alt)
  qed
qed

lemma handle_release_ok:
  assumes "actor_inv env s" "event_ok s (EvRelease rid channel)"
  shows "effect_ok env s (EvRelease rid channel) (handle_release env rid channel s)"
proof -
  note inv = actor_invD [OF assms(1)]
  define s1 where "s1 = (case ac_registrations s rid of None \<Rightarrow> s
    | Some requested \<Rightarrow> release_ref env rid requested (s\<lparr>ac_registrations := (ac_registrations s)(rid := None)\<rparr>))"
  have "parts_ok env s1 \<and> moves s s1 \<and> mset (channels s1) = mset (channels s)"
  proof (cases "ac_registrations s rid")
    case None
    with inv(1) show ?thesis by (simp add: s1_def moves_same)
  next
    case (Some requested)
    let ?s = "s\<lparr>ac_registrations := (ac_registrations s)(rid := None)\<rparr>"
    have "parts_ok env ?s" "rid \<notin> waiting_ids (ac_claims ?s)" "channels ?s = channels s"
      using inv(1) assms(2) by (simp_all add: parts_ok_def channels_alt)
    with release_ref_ok [of env ?s rid requested] Some show ?thesis by (simp add: s1_def moves_def)
  qed
  then have "effect_ok env s (EvRelease rid channel) (reschedule (s1\<lparr>ac_io := send_reply channel ReleaseDone (ac_io s1)\<rparr>))"
    by (intro effect_reschedule) (auto simp: parts_ok_def moves_def channels_alt)
  then show ?thesis by (simp add: handle_release_def s1_def Let_def)
qed

lemma shutdown_claims_ok:
  assumes "io_ok env io" "shutdown_claims env cs io n = (io', n', err)"
  shows "io_ok env io' \<and> reply_channels io' = reply_channels io \<and> io_scheduled io' = io_scheduled io"
  using assms
proof (induction cs arbitrary: io n)
  case (Cons x cs)
  obtain k c where x: "x = (k, c)" by (cases x)
  show ?case
  proof (cases "announced c \<and> (\<exists>payload. goodbyeMessage (re_lib env) (cm_current c) (own_addr env) = Inr payload)")
    case True
    then obtain payload where g: "goodbyeMessage (re_lib env) (cm_current c) (own_addr env) = Inr payload" by blast
    obtain sent io1 where e: "enqueueShutdownWrite \<lparr>op_payload = payload, op_destination = mdnsIPv4AddrPort\<rparr> io = (sent, io1)"
      by (cases "enqueueShutdownWrite \<lparr>op_payload = payload, op_destination = mdnsIPv4AddrPort\<rparr> io")
    note ok = enqueueWrite_ok(2) [OF Cons.prems(1) on_link_group e]
    show ?thesis
    proof (cases sent)
      case st: True
      with Cons.prems(2) x True g e have "shutdown_claims env cs io1 (n + 1) = (io', n', err)" by simp
      with Cons.IH [of io1 "n + 1"] ok show ?thesis by simp
    next
      case False
      with Cons.prems x True g e show ?thesis by simp
    qed
  next
    case False
    with Cons x show ?thesis by (auto split: if_splits sum.splits)
  qed
qed simp

lemma handle_shutdown_ok:
  assumes "actor_inv env s" "event_ok s (EvShutdown channel)"
  shows "effect_ok env s (EvShutdown channel) (handle_shutdown env channel s)"
proof -
  note inv = actor_invD [OF assms(1)]
  obtain io n err where sc: "shutdown_claims env (ac_claims s) (ac_io s) 0 = (io, n, err)"
    by (cases "shutdown_claims env (ac_claims s) (ac_io s) 0")
  note ok = shutdown_claims_ok [OF inv(4) sc]
  have "ac_shutdown_reply s = None" using assms(2) by simp
  with sc ok show ?thesis
    by (cases err) (auto simp: handle_shutdown_def channels_alt intro!: effect_io [OF assms(1)])
qed

lemma handle_ok:
  assumes "actor_inv env s" "event_ok s e"
  shows "parts_ok env (handle env e s) \<and> timer_ok (handle env e s) \<and> moves s (handle env e s) \<and>
    (case e of
       EvCancelRegister channel \<Rightarrow> \<exists>n. mset (channels s) = mset (channels (handle env e s)) + replicate_mset n channel
     | _ \<Rightarrow> mset (channels (handle env e s)) = mset (channels s) + mset (new_channels e))"
proof (cases e)
  case (EvInbound inbound now random)
  with handle_inbound_ok [of env s inbound now random] assms show ?thesis by (simp add: effect_ok_def)
next
  case (EvWriteResult err shutdown)
  with handle_write_result_ok [of env s err shutdown] assms show ?thesis by (simp add: effect_ok_def)
next
  case (EvCoordinatorResult requested generation err now now')
  with handle_coordinator_result_ok [of env s requested generation err now now'] assms show ?thesis
    by (simp add: effect_ok_def)
next
  case (EvTimer now pick)
  with handle_timer_ok [of env s now pick] assms show ?thesis by (simp add: effect_ok_def)
next
  case (EvRegister hostname channel new_id now random)
  with handle_register_ok [of env s hostname channel new_id now random] assms show ?thesis by (simp add: effect_ok_def)
next
  case (EvCancelRegister channel)
  with handle_cancel_ok [OF assms(1), of channel] show ?thesis by simp
next
  case (EvRelease rid channel)
  with handle_release_ok [of env s rid channel] assms show ?thesis by (simp add: effect_ok_def)
next
  case (EvShutdown channel)
  with handle_shutdown_ok [of env s channel] assms show ?thesis by (simp add: effect_ok_def)
qed

lemma reordered_claims:
  assumes "mset claims = mset (ac_claims s)" "claims_ok (ac_claims s)"
  shows "claims_ok claims" "set claims = set (ac_claims s)" "map_of claims = map_of (ac_claims s)"
    "mset (pending_channels claims) = mset (pending_channels (ac_claims s))"
proof -
  have d: "distinct (map fst claims)"
    using assms mset_eq_imp_distinct_iff [of "map fst claims" "map fst (ac_claims s)"] by (simp add: claims_ok_def)
  show set: "set claims = set (ac_claims s)" using assms(1) by (metis set_mset_mset)
  with d assms(2) show "claims_ok claims" by (simp add: claims_ok_def)
  show "map_of claims = map_of (ac_claims s)"
  proof
    fix k
    have "distinct (map fst (ac_claims s))" using assms(2) by (simp add: claims_ok_def)
    then have "map_of claims k = Some v \<longleftrightarrow> map_of (ac_claims s) k = Some v" for v
      using d set by simp
    then show "map_of claims k = map_of (ac_claims s) k" by (metis not_None_eq)
  qed
  show "mset (pending_channels claims) = mset (pending_channels (ac_claims s))"
    unfolding mset_pending_channels assms(1) ..
qed

lemma step_cases_ok:
  assumes "actor_step env s s'" "actor_inv env s"
  shows "actor_inv env s' \<and> moves s s' \<and> (distinct (channels s) \<longrightarrow> distinct (channels s'))"
  using assms(1)
proof cases
  case (step_event e)
  have new: "distinct (channels s) \<longrightarrow> distinct (channels s @ new_channels e)" using step_event(2) by (cases e) auto
  have "distinct (channels s) \<longrightarrow> distinct (channels (handle env e s))"
  proof (cases "\<exists>channel. e = EvCancelRegister channel")
    case True
    then obtain channel where e: "e = EvCancelRegister channel" by blast
    with handle_ok [OF assms(2) step_event(2)] obtain n where
      "mset (channels s) = mset (channels (handle env e s)) + replicate_mset n channel" by auto
    then have "mset (channels s) = mset (channels (handle env e s) @ replicate n channel)" by simp
    from mset_eq_imp_distinct_iff [OF this] show ?thesis by simp
  next
    case False
    with handle_ok [OF assms(2) step_event(2)]
    have "mset (channels (handle env e s)) = mset (channels s @ new_channels e)" by (cases e) auto
    with new show ?thesis by (metis mset_eq_imp_distinct_iff)
  qed
  with handle_ok [OF assms(2) step_event(2)] step_event(1) show ?thesis by (simp add: actor_inv_def parts_ok_def)
next
  case (step_write_pump r rest)
  with assms(2) show ?thesis
    by (auto simp: actor_inv_def io_ok_def timer_ok_def channels_def intro: moves_same)
next
  case (step_coordinator_pump r rest)
  with assms(2) show ?thesis
    by (auto simp: actor_inv_def io_ok_def timer_ok_def channels_def intro: moves_same)
next
  case (step_order claims)
  from assms(2) have "claims_ok (ac_claims s)" by (simp add: actor_inv_def)
  note r = reordered_claims [OF step_order(2) this]
  have "mset (channels s') = mset (channels s)" using r(4) step_order(1) by (simp add: channels_alt)
  then have "distinct (channels s) \<longrightarrow> distinct (channels s')" by (metis mset_eq_imp_distinct_iff)
  moreover have "moves s s'" unfolding moves_def using r(3) step_order(1) by (auto intro: exI [of _ Stay])
  ultimately show ?thesis using assms(2) r step_order(1) by (auto simp: actor_inv_def timer_ok_def)
qed

lemma actor_init_inv: "actor_inv env actor_init \<and> distinct (channels actor_init)"
  by (simp add: actor_inv_def actor_init_def claims_ok_def io_ok_def timer_ok_def channels_def)

lemma reachable_inv: "actor_reachable env s \<Longrightarrow> actor_inv env s \<and> distinct (channels s)"
proof (induction rule: actor_reachable.induct)
  case reachable_init
  show ?case by (rule actor_init_inv)
next
  case (reachable_step s s')
  with step_cases_ok [of env s s'] show ?case by blast
qed

subsection \<open>Paths of one claim\<close>

text \<open>The moves since the claim last went back to probing.\<close>

definition since_restart :: "claim_move list \<Rightarrow> claim_move list" where
  "since_restart ms = rev (takeWhile (\<lambda>m. m \<noteq> Lose \<and> m \<noteq> Conflict) (rev ms))"

lemma since_restart_simps:
  "since_restart [] = []"
  "since_restart (ms @ [m]) = (if m = Lose \<or> m = Conflict then [] else since_restart ms @ [m])"
  by (simp_all add: since_restart_def)

definition path_inv :: "claim \<Rightarrow> claim_move list \<Rightarrow> bool" where
  "path_inv c ms \<longleftrightarrow> cm_probe_count c = count_list (since_restart ms) Probe \<and>
     (case cm_phase c of
        PhaseProbeWait \<Rightarrow> cm_probe_count c = 0
      | PhaseProbing \<Rightarrow> cm_probe_count c < 3
      | PhaseObserving \<Rightarrow> cm_probe_count c = 3
      | PhaseAwaitingReadiness \<Rightarrow> cm_probe_count c = 3
      | _ \<Rightarrow> cm_probe_count c = 3 \<and> Approve \<in> set (since_restart ms))"

lemma path_inv_step: "path_inv c ms \<Longrightarrow> claim_step m c c' \<Longrightarrow> path_inv c' (ms @ [m])"
  by (cases m; cases "cm_phase c") (auto simp: path_inv_def since_restart_simps announced_def split: if_splits)

lemma claim_path_inv: "claim_path c ms c' \<Longrightarrow> path_inv c [] \<Longrightarrow> path_inv c' ms"
  by (induction rule: claim_path.induct) (auto intro: path_inv_step)

text \<open>A run of the actor through which the claim of \<open>k\<close> exists.\<close>

inductive claim_run :: "responder_env \<Rightarrow> string \<Rightarrow> actor \<Rightarrow> actor \<Rightarrow> bool" for env k where
  run_refl: "claim_run env k s s"
| run_step: "claim_run env k s s' \<Longrightarrow> actor_step env s' s'' \<Longrightarrow> map_of (ac_claims s'') k \<noteq> None \<Longrightarrow> claim_run env k s s''"

lemma claim_run_path:
  assumes "claim_run env k s s'" "actor_inv env s" "map_of (ac_claims s) k = Some c"
  shows "actor_inv env s' \<and> (\<exists>ms c'. map_of (ac_claims s') k = Some c' \<and> claim_path c ms c')"
  using assms
proof (induction rule: claim_run.induct)
  case (run_refl s)
  then show ?case using path_refl by blast
next
  case (run_step s s' s'')
  then obtain ms c' where p: "actor_inv env s'" "map_of (ac_claims s') k = Some c'" "claim_path c ms c'" by blast
  obtain c'' where c'': "map_of (ac_claims s'') k = Some c''" using run_step.hyps(3) by blast
  from step_cases_ok [OF run_step.hyps(2) p(1)] have "actor_inv env s''" "moves s' s''" by simp_all
  with p c'' obtain m where "claim_step m c' c''" unfolding moves_def by blast
  with p(3) have "claim_path c (ms @ [m]) c''" by (rule path_step)
  with c'' \<open>actor_inv env s''\<close> show ?case by blast
qed

section \<open>Properties\<close>

text \<open>
  C5. Every state the actor reaches is consistent: one claim per name with at least one registration,
  its probe count, deadline and names as its phase says (an announced claim serves the name it probed,
  an active one has no waiting registration and no deadline); the queues stay within their capacity;
  whatever is sent or scheduled goes to the multicast group or to a host on the link; and the timer
  is armed no later than the first deadline, so no claim is ever forgotten.
\<close>

theorem actor_invariant:
  assumes "actor_reachable env s"
  shows "claims_ok (ac_claims s) \<and> io_ok env (ac_io s) \<and> timer_ok s"
  using reachable_inv [OF assms] by (simp add: actor_inv_def)

definition sample_responder :: responder_env where
  "sample_responder = \<lparr>re_lib = plain_dns, re_prefix = ((192, 168, 7, 5), 24), re_bypass = False\<rparr>"

definition sample_register :: actor_event where
  "sample_register = EvRegister ''a.local.'' 0 (Some ''r1'') 1 (\<lambda>_. 0)"

lemma sample_reachable: "actor_reachable sample_responder (handle sample_responder sample_register actor_init)"
proof (rule reachable_step [OF reachable_init step_event])
  show "event_ok actor_init sample_register"
    by (simp add: sample_register_def channels_def ref_ids_def actor_init_def)
qed

theorem actor_invariant_witness:
  "claims_ok (ac_claims (handle sample_responder sample_register actor_init)) \<and>
   io_ok sample_responder (ac_io (handle sample_responder sample_register actor_init)) \<and>
   timer_ok (handle sample_responder sample_register actor_init)"
  by (rule actor_invariant [OF sample_reachable])

text \<open>
  No command is lost and none is answered twice: the channels the actor has answered on, holds in
  waiting registrations or keeps for the shutdown are pairwise different in every reachable state, and
  an event keeps all of them, adding the channel of its command; only the cancellation of a
  registration takes away that registration's channel.
\<close>

theorem replies_conserved:
  assumes "actor_reachable env s" "event_ok s e"
  shows "distinct (channels (handle env e s)) \<and>
    (case e of
       EvCancelRegister channel \<Rightarrow> \<exists>n. mset (channels s) = mset (channels (handle env e s)) + replicate_mset n channel
     | _ \<Rightarrow> mset (channels (handle env e s)) = mset (channels s) + mset (new_channels e))"
proof -
  from reachable_inv [OF reachable_step [OF assms(1) step_event [OF assms(2)]]]
  have "distinct (channels (handle env e s))" by blast
  with handle_ok [OF conjunct1 [OF reachable_inv [OF assms(1)]] assms(2)] show ?thesis by simp
qed

theorem replies_conserved_witness:
  "distinct (channels (handle sample_responder sample_register actor_init)) \<and>
   mset (channels (handle sample_responder sample_register actor_init)) = mset (channels actor_init) + {#0#}"
proof -
  have "event_ok actor_init sample_register"
    by (simp add: sample_register_def channels_def ref_ids_def actor_init_def)
  from replies_conserved [OF reachable_init this, of sample_responder] show ?thesis by (simp add: sample_register_def)
qed


lemma sample_messages:
  "canonicalHostname plain_dns ''a.local.'' = Inr ''a.local.''"
  "probeMessage plain_dns ''a.local.'' addr = Inr []"
  "announcementMessage plain_dns ''a.local.'' addr ttl = Inr []"
proof -
  show c: "canonicalHostname plain_dns ''a.local.'' = Inr ''a.local.''" by code_simp
  show "probeMessage plain_dns ''a.local.'' addr = Inr []" "announcementMessage plain_dns ''a.local.'' addr ttl = Inr []"
    by (simp_all add: probeMessage_def announcementMessage_def c packMessage_def) (simp_all add: plain_dns_def)
qed

lemmas actor_eval = sample_messages handle_timer_def handle_register_def handle_coordinator_result_def handle_cancel_def
  over_claims_def timer_claim_def send_probe_def ask_coordinator_def finish_announcing_def announce_def completeClaim_def
  fail_claim_def enqueueWrite_def enqueueWriteRequest_def send_reply_def reschedule_def new_claim_def put_claim_def drop_claim_def
  outboundQueueCapacity_def coordinatorQueueCapacity_def Let_def

definition group_write :: write_request where
  "group_write = \<lparr>wr_packet = \<lparr>op_payload = [], op_destination = mdnsIPv4AddrPort\<rparr>, wr_shutdown = False\<rparr>"

definition sample_request :: "string \<Rightarrow> coordinator_request" where
  "sample_request rid = \<lparr>cr_requested = ''a.local.'', cr_generation = 1, cr_change = \<lparr>ch_registration = rid,
     ch_requested = ''a.local.'', ch_previous = '''', ch_proposed = ''a.local.''\<rparr>\<rparr>"

text \<open>An actor with one claim of \<open>a.local.\<close> by the registration \<open>rid\<close> with the reply channel \<open>ch\<close>.\<close>

definition one_claim ::
  "string \<Rightarrow> nat \<Rightarrow> claim_phase \<Rightarrow> nat \<Rightarrow> time \<Rightarrow> time \<Rightarrow> string \<Rightarrow> nat \<Rightarrow> coordinator_request list \<Rightarrow> actor" where
  "one_claim rid ch phase probes deadline started current writes requests =
     \<lparr>ac_claims = [(''a.local.'', \<lparr>cm_requested = ''a.local.'', cm_candidate = ''a.local.'', cm_current = current,
         cm_phase = phase, cm_probe_count = probes, cm_deadline = deadline, cm_started_at = started,
         cm_last_multicast = 0, cm_conflicts = [], cm_generation = 1, cm_refs = [rid], cm_pending = [(rid, ch)]\<rparr>)],
      ac_registrations = [rid \<mapsto> ''a.local.''], ac_current = (\<lambda>_. ''''),
      ac_io = \<lparr>io_outbound = replicate writes group_write, io_scheduled = [], io_coordinator = requests, io_replies = []\<rparr>,
      ac_timer = (if deadline = 0 then None else Some deadline), ac_shutdown_reply = None, ac_shutdown_writes = 0,
      ac_cancelled = False\<rparr>"

lemmas sample_eval = one_claim_def actor_eval sample_responder_def group_write_def replicate_append_same

lemma one_claim_register:
  "0 < t \<Longrightarrow> handle sample_responder (EvRegister ''a.local.'' ch (Some rid) t (\<lambda>_. 0)) actor_init =
     one_claim rid ch PhaseProbeWait 0 t t '''' 0 []"
  by (simp add: sample_eval actor_init_def fun_eq_iff)

lemma one_claim_timer:
  assumes "0 < t"
  shows "writes < 64 \<Longrightarrow> handle sample_responder (EvTimer t hd) (one_claim rid ch PhaseProbeWait 0 t t '''' writes []) =
      one_claim rid ch PhaseProbing 1 (t + 250 * millisecond) t '''' (Suc writes) []"
    and "writes < 64 \<Longrightarrow> handle sample_responder (EvTimer (t + 250 * millisecond) hd)
        (one_claim rid ch PhaseProbing 1 (t + 250 * millisecond) t '''' writes []) =
      one_claim rid ch PhaseProbing 2 (t + 500 * millisecond) t '''' (Suc writes) []"
    and "writes < 64 \<Longrightarrow> handle sample_responder (EvTimer (t + 500 * millisecond) hd)
        (one_claim rid ch PhaseProbing 2 (t + 500 * millisecond) t '''' writes []) =
      one_claim rid ch PhaseObserving 3 (t + 750 * millisecond) t '''' (Suc writes) []"
    and "handle sample_responder (EvTimer (t + 750 * millisecond) hd)
        (one_claim rid ch PhaseObserving 3 (t + 750 * millisecond) t '''' writes []) =
      one_claim rid ch PhaseAwaitingReadiness 3 0 t '''' writes [sample_request rid]"
  using assms by (simp_all add: sample_eval sample_request_def)

definition probe_timers :: "time \<Rightarrow> actor_event list" where
  "probe_timers t = [EvTimer t hd, EvTimer (t + 250 * millisecond) hd, EvTimer (t + 500 * millisecond) hd,
     EvTimer (t + 750 * millisecond) hd]"

lemma one_claim_probes:
  assumes "0 < t" "writes + 3 \<le> 64"
  shows "fold (handle sample_responder) (probe_timers t) (one_claim rid ch PhaseProbeWait 0 t t '''' writes []) =
     one_claim rid ch PhaseAwaitingReadiness 3 0 t '''' (Suc (Suc (Suc writes))) [sample_request rid]"
proof -
  have "writes < 64" "Suc writes < 64" "Suc (Suc writes) < 64" using assms(2) by simp_all
  then show ?thesis unfolding probe_timers_def by (simp only: fold_simps one_claim_timer [OF assms(1)])
qed

lemma step_timer: "0 < now \<Longrightarrow> handle env (EvTimer now pick) s = s' \<Longrightarrow> actor_step env s s'"
  using step_event [of s "EvTimer now pick" env] by simp

lemma one_claim_run:
  assumes "0 < t"
  shows "claim_run sample_responder ''a.local.'' (one_claim rid ch PhaseProbeWait 0 t t '''' 0 [])
    (one_claim rid ch PhaseAwaitingReadiness 3 0 t '''' 3 [sample_request rid])"
proof -
  note tm = one_claim_timer [OF assms, where rid = rid and ch = ch]
  have mp: "map_of (ac_claims (one_claim rid ch ph n d t c w q)) ''a.local.'' \<noteq> None" for ph n d t c w q
    by (simp add: one_claim_def)
  have s: "0 < t + 250 * millisecond" "0 < t + 500 * millisecond" "0 < t + 750 * millisecond" using assms by simp_all
  have "claim_run sample_responder ''a.local.'' (one_claim rid ch PhaseProbeWait 0 t t '''' 0 [])
      (one_claim rid ch PhaseProbing 1 (t + 250 * millisecond) t '''' (Suc 0) [])"
    by (rule run_step [OF run_refl step_timer [OF assms tm(1)] mp]) simp
  from run_step [OF this step_timer [OF s(1) tm(2)] mp]
  have "claim_run sample_responder ''a.local.'' (one_claim rid ch PhaseProbeWait 0 t t '''' 0 [])
      (one_claim rid ch PhaseProbing 2 (t + 500 * millisecond) t '''' (Suc (Suc 0)) [])" by simp
  from run_step [OF this step_timer [OF s(2) tm(3)] mp]
  have "claim_run sample_responder ''a.local.'' (one_claim rid ch PhaseProbeWait 0 t t '''' 0 [])
      (one_claim rid ch PhaseObserving 3 (t + 750 * millisecond) t '''' (Suc (Suc (Suc 0))) [])" by simp
  from run_step [OF this step_timer [OF s(3) tm(4)] mp] show ?thesis by (simp add: eval_nat_numeral)
qed


text \<open>
  A registration that arrives between the two announcements of a name is answered without one:
  the coordinator's approval sets \<open>CurrentHostname\<close> of the registrations there are, the completion of
  the claim answers the waiting ones, and the late one is handed out with the empty name.
\<close>

theorem late_registration_without_name:
  "let s = fold (handle sample_responder)
       ([EvRegister ''a.local.'' 0 (Some ''r1'') 1 (\<lambda>_. 0)] @ probe_timers 1 @
        [EvCoordinatorResult ''a.local.'' 1 None 750000002 750000002,
         EvRegister ''a.local.'' 1 (Some ''r2'') 750000003 (\<lambda>_. 0), EvTimer 1750000002 hd]) actor_init
   in io_replies (ac_io s) = [(0, Registered ''r1''), (1, Registered ''r2'')] \<and>
      ac_current s ''r1'' = ''a.local.'' \<and> ac_current s ''r2'' = ''''"
  unfolding Let_def fold_append comp_def fold_simps one_claim_register [OF zero_less_one]
  using one_claim_probes [of 1 0 "''r1''" 0] by (simp add: sample_eval sample_request_def)

text \<open>
  The generation of a claim does not tell a claim from an earlier one of the same name: when the
  only registration is cancelled while the coordinator works and the name is registered again, the
  late result for the old registration is taken as the result of the new claim, whose own request is
  still in the queue; here its error ends the new claim.
\<close>

theorem stale_coordinator_result:
  "let s1 = fold (handle sample_responder) ([EvRegister ''a.local.'' 0 (Some ''r1'') 1 (\<lambda>_. 0)] @ probe_timers 1) actor_init;
       s2 = s1\<lparr>ac_io := (ac_io s1)\<lparr>io_coordinator := []\<rparr>\<rparr>;
       s3 = fold (handle sample_responder) ([EvCancelRegister 0, EvRegister ''a.local.'' 1 (Some ''r2'') 900000000 (\<lambda>_. 0)] @
         probe_timers 900000000) s2;
       old = hd (io_coordinator (ac_io s1));
       s4 = handle sample_responder (EvCoordinatorResult (cr_requested old) (cr_generation old) (Some e) 9 9) s3
   in io_coordinator (ac_io s1) = [sample_request ''r1''] \<and> io_coordinator (ac_io s3) = [sample_request ''r2''] \<and>
      io_replies (ac_io s3) = [] \<and> io_replies (ac_io s4) = [(1, RegisterFailed e)] \<and> ac_claims s4 = []"
proof -
  define s1 where "s1 = one_claim ''r1'' 0 PhaseAwaitingReadiness 3 0 1 '''' (Suc (Suc (Suc 0))) [sample_request ''r1'']"
  have 1: "fold (handle sample_responder) ([EvRegister ''a.local.'' 0 (Some ''r1'') 1 (\<lambda>_. 0)] @ probe_timers 1) actor_init = s1"
    unfolding fold_append comp_def fold_simps one_claim_register [OF zero_less_one] s1_def
    by (rule one_claim_probes) simp_all
  let ?s2 = "s1\<lparr>ac_io := (ac_io s1)\<lparr>io_coordinator := []\<rparr>\<rparr>"
  have 2: "handle sample_responder (EvRegister ''a.local.'' 1 (Some ''r2'') 900000000 (\<lambda>_. 0))
      (handle sample_responder (EvCancelRegister 0) ?s2) =
    one_claim ''r2'' 1 PhaseProbeWait 0 900000000 900000000 '''' (Suc (Suc (Suc 0))) []"
    by (simp add: s1_def sample_eval fun_eq_iff)
  have 3: "fold (handle sample_responder) ([EvCancelRegister 0, EvRegister ''a.local.'' 1 (Some ''r2'') 900000000 (\<lambda>_. 0)] @
       probe_timers 900000000) ?s2 =
    one_claim ''r2'' 1 PhaseAwaitingReadiness 3 0 900000000 '''' (Suc (Suc (Suc (Suc (Suc (Suc 0)))))) [sample_request ''r2'']"
    unfolding fold_append comp_def fold_simps 2 by (rule one_claim_probes) simp_all
  show ?thesis
    unfolding Let_def 1 3 by (simp add: s1_def sample_request_def sample_eval)
qed

text \<open>A query for the A record of \<open>a.local.\<close>, and a responder that decodes every packet as it.\<close>

definition query_a :: dns_msg where
  "query_a = empty_msg\<lparr>dm_question := [\<lparr>dq_name = ''a.local.'', dq_qtype = TypeA, dq_qclass = ClassINET\<rparr>]\<rparr>"

definition querying_responder :: responder_env where
  "querying_responder = sample_responder\<lparr>re_lib := plain_dns\<lparr>dl_unpack := \<lambda>_. Some query_a\<rparr>\<rparr>"

definition query_packet :: mdns_packet where
  "query_packet = \<lparr>mp_payload = [], mp_source = (IPv4 192 168 7 9, 5353)\<rparr>"

definition active_claim :: "time \<Rightarrow> claim" where
  "active_claim t = \<lparr>cm_requested = ''a.local.'', cm_candidate = ''a.local.'', cm_current = ''a.local.'',
     cm_phase = PhaseActive, cm_probe_count = 3, cm_deadline = 0, cm_started_at = 1, cm_last_multicast = t,
     cm_conflicts = [], cm_generation = 1, cm_refs = [''r1''], cm_pending = []\<rparr>"

lemma query_a_facts:
  "decodePacket (re_lib querying_responder) [] = Inr query_a"
  "responseMessage (re_lib querying_responder) query_a ''a.local.'' (192, 168, 7, 5) False = Inr []"
  "knownAnswerSuppresses query_a ''a.local.'' (192, 168, 7, 5) = False"
  "probeOpponentIPv4 query_a ''a.local.'' = None"
  "queryResponseDelay query_a random = 0"
  "find (\<lambda>q. equal_fold (dq_name q) ''a.local.'') (dm_question query_a) =
     Some \<lparr>dq_name = ''a.local.'', dq_qtype = TypeA, dq_qclass = ClassINET\<rparr>"
  "dm_response query_a = False" "dm_question query_a \<noteq> []"
  by code_simp+

lemma query_a_planned:
  "cm_current entry = ''a.local.'' \<Longrightarrow> cm_last_multicast entry < now \<Longrightarrow> now < cm_last_multicast entry + second \<Longrightarrow>
     planned_answer querying_responder query_packet query_a now random entry =
     Some (\<lparr>op_payload = [], op_destination = mdnsIPv4AddrPort\<rparr>, cm_last_multicast entry + second, True)"
proof -
  assume a: "cm_current entry = ''a.local.''" "cm_last_multicast entry < now" "now < cm_last_multicast entry + second"
  have d: "responseDestination query_packet \<lparr>dq_name = ''a.local.'', dq_qtype = TypeA, dq_qclass = ClassINET\<rparr>
      (cm_last_multicast entry) now (re_prefix querying_responder) = Some mdnsIPv4AddrPort"
  proof -
    have "ClassINET AND cacheFlushBit = 0" by code_simp
    then show ?thesis by (simp add: responseDestination_def query_packet_def)
  qed
  have p: "own_addr querying_responder = (192, 168, 7, 5)" by (simp add: querying_responder_def sample_responder_def)
  have s: "snd (mp_source query_packet) = 5353" by (simp add: query_packet_def)
  show ?thesis
    unfolding planned_answer_def a(1) p s using a(2,3)
    by (simp add: query_a_facts d multicastDue_def)
qed

text \<open>
  The limit of one multicast answer per second is checked when an answer is planned, and not again
  when it is sent: two queries within a second of the last answer are both answered at the end of that
  second, the second one without any wait after the first.
\<close>

theorem two_answers_at_once:
  "let s = actor_init\<lparr>ac_claims := [(''a.local.'', active_claim 5)]\<rparr>;
       s' = fold (handle querying_responder)
         [EvInbound query_packet 10 random, EvInbound query_packet 11 random, EvTimer (5 + second) hd] s
   in io_outbound (ac_io s') = [group_write, group_write] \<and> io_scheduled (ac_io s') = []"
proof -
  have c: "announced (active_claim t)" "cm_deadline (active_claim t) = 0"
    "(active_claim t)\<lparr>cm_last_multicast := u\<rparr> = active_claim u" for t u
    by (simp_all add: active_claim_def announced_def)
  have p: "planned_answer querying_responder query_packet query_a now r (active_claim 5) =
     Some (\<lparr>op_payload = [], op_destination = mdnsIPv4AddrPort\<rparr>, 5 + second, True)" if "5 < now" "now < 5 + second" for now r
    using query_a_planned [of "active_claim 5" now r] that by (simp add: active_claim_def)
  have q: "mp_payload query_packet = []" by (simp add: query_packet_def)
  have "\<not> 5 + second \<le> (10 :: int)" by simp
  then show ?thesis
    unfolding Let_def fold_simps handle.simps handle_inbound_def q query_a_facts(1) sum.case
    by (simp add: inbound_claim_def answer_query_def actor_init_def c p query_a_facts(7)
        actor_eval group_write_def set_last_multicast_def)
qed

end
