(* ===== verification/Lan_Manager.thy ===== *)
theory Lan_Manager
  imports Lan_Handler Mdns_Actor
begin

text \<open>
  The LAN manager of the router, \<open>internal/router/lan_manager.go\<close>: it shares a route on the LAN by
  way of an interface, an ingress, an mDNS responder, a certificate, a trust session and the store,
  and takes all of it back again.

  The state is the fields of \<open>LANManager\<close> behind its mutex (\<open>lan_manager\<close>) and what it changes in the
  server and the store (\<open>lan_server\<close>). Maps over which the code ranges are association lists. The
  functions of \<open>lanManagerConfig\<close> that leave the process answer with an argument of the operation;
  the others are the fields of \<open>lan_config\<close>. \<open>responder.Register\<close> blocks while the responder calls
  \<open>Prepare\<close>, so it is a function on the whole state, an argument of \<open>Create\<close>.
\<close>

section \<open>State\<close>

text \<open>What the manager reads of \<open>laninterface.Candidate\<close>; \<open>None\<close> is its zero value.\<close>

record lan_iface =
  li_index :: int
  li_name :: string
  li_prefix :: "ip4 \<times> nat"

record lan_trust_reg =
  tg_token :: string
  tg_setup_url :: string
  tg_fingerprint :: string

definition no_trust :: lan_trust_reg where
  "no_trust = \<lparr>tg_token = '''', tg_setup_url = '''', tg_fingerprint = ''''\<rparr>"

record lan_material =
  mt_certificate :: certificate
  mt_ca_fingerprint :: string
  mt_ca_der :: string

record lan_cert_state =
  cs_hostname :: string
  cs_not_after :: time
  cs_ca_fingerprint :: string

record lan_registration =
  lr_id :: string
  lr_requested :: string

record lan_manager =
  lm_iface :: "lan_iface option"
  lm_ingress :: bool
  lm_responder :: bool
  lm_pending :: "string \<Rightarrow> route_ref option"
  lm_registrations :: "(route_ref \<times> lan_registration) list"
  lm_registration_refs :: "string \<Rightarrow> route_ref option"
  lm_trust :: "route_ref \<Rightarrow> lan_trust_reg option"
  lm_certificates :: "(route_ref \<times> lan_cert_state) list"

record lan_server =
  sv_store :: file_store
  sv_routes :: lan_routes
  sv_trust :: trust_state

type_synonym lan_state = "lan_manager \<times> lan_server"

text \<open>
  \<open>lc_sha256\<close> is the digest of a DER certificate, \<open>lc_hex\<close> the text of the digest the server compares,
  \<open>lc_pem\<close> the PEM encoding and \<open>lc_parse_leaf\<close> the end of the validity of a parsed certificate.
\<close>

record lan_config =
  lc_sha256 :: "string \<Rightarrow> nat list"
  lc_hex :: "string \<Rightarrow> string"
  lc_pem :: "string \<Rightarrow> string"
  lc_parse_leaf :: "string \<Rightarrow> time option"
  lc_prepare_trust :: bool
  lc_owner_verified :: "route \<Rightarrow> bool"
  lc_target_reachable :: "route \<Rightarrow> bool"
  lc_rotate_before :: duration

definition newLANManager :: lan_manager where
  "newLANManager = \<lparr>lm_iface = None, lm_ingress = False, lm_responder = False, lm_pending = (\<lambda>_. None),
     lm_registrations = [], lm_registration_refs = (\<lambda>_. None), lm_trust = (\<lambda>_. None), lm_certificates = []\<rparr>"

definition put_key :: "'k \<Rightarrow> 'v \<Rightarrow> ('k \<times> 'v) list \<Rightarrow> ('k \<times> 'v) list" where
  "put_key k v m = (k, v) # filter (\<lambda>(k', _). k' \<noteq> k) m"

definition delete_key :: "'k \<Rightarrow> ('k \<times> 'v) list \<Rightarrow> ('k \<times> 'v) list" where
  "delete_key k m = filter (\<lambda>(k', _). k' \<noteq> k) m"

section \<open>Certificates and trust\<close>

definition iface_address :: "lan_iface option \<Rightarrow> string" where
  "iface_address iface = (case iface of None \<Rightarrow> ''invalid IP'' | Some i \<Rightarrow> ip4_string (fst (li_prefix i)))"

definition iface_prefix :: "lan_iface option \<Rightarrow> string" where
  "iface_prefix iface = (case iface of None \<Rightarrow> ''invalid Prefix'' | Some i \<Rightarrow> prefix4_string (li_prefix i))"

definition upper_hex_char :: "nat \<Rightarrow> char" where
  "upper_hex_char n = (if n < 10 then char_of (48 + n) else char_of (55 + n))"

definition formatLANFingerprint :: "lan_config \<Rightarrow> string \<Rightarrow> string" where
  "formatLANFingerprint cfg der =
     join '':'' (map (\<lambda>b. [upper_hex_char (b div 16), upper_hex_char (b mod 16)]) (lc_sha256 cfg der))"

definition stringsTrimFinalDot :: "string \<Rightarrow> string" where
  "stringsTrimFinalDot value = (if value \<noteq> [] \<and> last value = CHR ''.'' then butlast value else value)"

definition lanCertificateNotAfter :: "lan_config \<Rightarrow> certificate \<Rightarrow> time" where
  "lanCertificateNotAfter cfg certificate =
     (case ce_leaf certificate of
        Some notAfter \<Rightarrow> notAfter
      | None \<Rightarrow>
          (case ce_chain certificate of
             [] \<Rightarrow> 0
           | der # _ \<Rightarrow> (case lc_parse_leaf cfg der of None \<Rightarrow> 0 | Some notAfter \<Rightarrow> notAfter)))"

definition validateCertificateMaterial :: "ca_source \<Rightarrow> lan_material \<Rightarrow> router_error option" where
  "validateCertificateMaterial ca material =
     (case ca of
        NoSource \<Rightarrow> None
      | _ \<Rightarrow>
          if mt_ca_fingerprint material = ''''
          then Some (ErrMessage ''LAN certificate has no certificate authority identity'')
          else (case ca of
                  SourceFingerprint current \<Rightarrow>
                    if current \<noteq> mt_ca_fingerprint material
                    then Some (ErrMessage ''LAN certificate authority changed during issuance'') else None
                | _ \<Rightarrow> Some (ErrMessage ''load current LAN certificate authority'')))"

definition clear_token :: "string \<Rightarrow> lan_server \<Rightarrow> lan_server" where
  "clear_token token sv = (if token \<noteq> '''' then sv\<lparr>sv_trust := ClearLANTrust (sv_trust sv) [token]\<rparr> else sv)"

text \<open>
  \<open>prepareTrust\<close> as \<open>NewLANManager\<close> sets it: a new token, a session of the server under it, and the link
  that leads to the session. Without the function there is no trust registration.
\<close>

definition prepareTrust ::
  "lan_config \<Rightarrow> string option \<Rightarrow> lan_iface option \<Rightarrow> string \<Rightarrow> lan_material \<Rightarrow> lan_server
     \<Rightarrow> (router_error, lan_trust_reg \<times> lan_server) result" where
  "prepareTrust cfg new_token iface hostname material sv =
     (if \<not> lc_prepare_trust cfg then Inr (no_trust, sv)
      else (case new_token of
              None \<Rightarrow> Inl ErrRandom
            | Some token \<Rightarrow>
                (let fingerprint = formatLANFingerprint cfg (mt_ca_der material);
                     session = \<lparr>ts_address = iface_address iface, ts_token = token, ts_hostname = hostname,
                       ts_fingerprint = fingerprint, ts_ca_fingerprint = mt_ca_fingerprint material,
                       ts_ca_pem = lc_pem cfg (mt_ca_der material)\<rparr>
                 in Inr (\<lparr>tg_token = token,
                          tg_setup_url = ''http://'' @ iface_address iface @ lanTrustPathPrefix @ token,
                          tg_fingerprint = fingerprint\<rparr>,
                         sv\<lparr>sv_trust := ConfigureLANTrust (sv_trust sv) session\<rparr>))))"

section \<open>The coordinator of the responder\<close>

text \<open>What the calls of \<open>Prepare\<close> answer: the issued certificate, a new token, the CA at each of the checks.\<close>

record prepare_answers =
  pa_issue :: "(router_error, lan_material) result"
  pa_token :: "string option"
  pa_ca1 :: ca_source
  pa_ca2 :: ca_source
  pa_ca3 :: ca_source

definition prepare_owner :: "lan_manager \<Rightarrow> mdns_change \<Rightarrow> route_ref option" where
  "prepare_owner m change =
     (case lm_registration_refs m (ch_registration change) of
        Some ref \<Rightarrow> Some ref
      | None \<Rightarrow> lm_pending m (ch_requested change))"

text \<open>The failing end of \<open>Prepare\<close> once the name is bound: the binding and the new session go again.\<close>

definition withdraw_name :: "route_ref \<Rightarrow> string \<Rightarrow> string \<Rightarrow> lan_server \<Rightarrow> lan_server" where
  "withdraw_name ref hostname token sv =
     clear_token token (sv\<lparr>sv_routes := RemoveLANHostname (sv_routes sv) ref hostname\<rparr>)"

definition record_prepared ::
  "lan_config \<Rightarrow> route_ref \<Rightarrow> mdns_change \<Rightarrow> lan_material \<Rightarrow> lan_trust_reg \<Rightarrow> lan_state \<Rightarrow> lan_state" where
  "record_prepared cfg ref change material trust = (\<lambda>(m, sv).
     let previousTrust = (case lm_trust m ref of None \<Rightarrow> no_trust | Some t \<Rightarrow> t);
         notAfter = lanCertificateNotAfter cfg (mt_certificate material);
         m = (if tg_token trust \<noteq> '''' then m\<lparr>lm_trust := (lm_trust m)(ref \<mapsto> trust)\<rparr> else m);
         m = (if \<not> is_zero_time notAfter
              then m\<lparr>lm_certificates := put_key ref \<lparr>cs_hostname = ch_proposed change, cs_not_after = notAfter,
                     cs_ca_fingerprint = mt_ca_fingerprint material\<rparr> (lm_certificates m)\<rparr>
              else m);
         sv = (if tg_token previousTrust \<noteq> tg_token trust then clear_token (tg_token previousTrust) sv else sv);
         sv = (if ch_previous change \<noteq> '''' \<and> ch_previous change \<noteq> ch_proposed change
               then sv\<lparr>sv_routes := RemoveLANHostname (sv_routes sv) ref (ch_previous change)\<rparr> else sv)
     in (m, sv))"

text \<open>From the registration of the name on, with the trust session prepared.\<close>

definition prepare_name ::
  "lan_config \<Rightarrow> netip_env \<Rightarrow> rng \<Rightarrow> prepare_answers \<Rightarrow> route_ref \<Rightarrow> mdns_change \<Rightarrow> lan_iface option \<Rightarrow> lan_material
     \<Rightarrow> lan_trust_reg \<Rightarrow> lan_state \<Rightarrow> (router_error, unit) result \<times> lan_state" where
  "prepare_name cfg np rng a ref change iface material trust = (\<lambda>(m, sv).
     case RegisterLANRoute (lc_hex cfg) (sv_routes sv) ref (ch_proposed change) (mt_certificate material) of
       Inl e \<Rightarrow> (Inl e, (m, clear_token (tg_token trust) sv))
     | Inr routes \<Rightarrow>
         (let sv = sv\<lparr>sv_routes := routes\<rparr> in
          case validateCertificateMaterial (pa_ca3 a) material of
            Some e \<Rightarrow> (Inl e, (m, withdraw_name ref (ch_proposed change) (tg_token trust) sv))
          | None \<Rightarrow>
              (let activation = \<lparr>la_hostname = ch_proposed change,
                     la_interface_index = (case iface of None \<Rightarrow> 0 | Some i \<Rightarrow> li_index i),
                     la_interface_name = (case iface of None \<Rightarrow> '''' | Some i \<Rightarrow> li_name i),
                     la_address = iface_address iface, la_prefix = iface_prefix iface\<rparr>
               in case ActivateLANShare file_update np rng (sv_store sv) ref activation of
                    (Inl e, store) \<Rightarrow>
                      (Inl e, (m, withdraw_name ref (ch_proposed change) (tg_token trust) (sv\<lparr>sv_store := store\<rparr>)))
                  | (Inr _, store) \<Rightarrow>
                      (Inr (), record_prepared cfg ref change material trust (m, sv\<lparr>sv_store := store\<rparr>)))))"

definition Prepare ::
  "lan_config \<Rightarrow> netip_env \<Rightarrow> rng \<Rightarrow> prepare_answers \<Rightarrow> mdns_change \<Rightarrow> lan_state
     \<Rightarrow> (router_error, unit) result \<times> lan_state" where
  "Prepare cfg np rng a change = (\<lambda>(m, sv).
     case prepare_owner m change of
       None \<Rightarrow> (Inl (ErrMessage ''no LAN route owns mDNS registration''), (m, sv))
     | Some ref \<Rightarrow>
         (case pa_issue a of
            Inl e \<Rightarrow> (Inl e, (m, sv))
          | Inr material \<Rightarrow>
              (case validateCertificateMaterial (pa_ca1 a) material of
                 Some e \<Rightarrow> (Inl e, (m, sv))
               | None \<Rightarrow>
                   (case prepareTrust cfg (pa_token a) (lm_iface m) (ch_proposed change) material sv of
                      Inl e \<Rightarrow> (Inl e, (m, sv))
                    | Inr (trust, sv) \<Rightarrow>
                        (case validateCertificateMaterial (pa_ca2 a) material of
                           Some e \<Rightarrow> (Inl e, (m, clear_token (tg_token trust) sv))
                         | None \<Rightarrow> prepare_name cfg np rng a ref change (lm_iface m) material trust (m, sv))))))"

section \<open>Sharing a route\<close>

record share_result =
  sr_hostname :: string
  sr_url :: string
  sr_address :: "lan_iface option"
  sr_setup_url :: string
  sr_fingerprint :: string

definition resultFor :: "lan_manager \<Rightarrow> route_ref \<Rightarrow> string \<Rightarrow> share_result" where
  "resultFor m ref hostname =
     (let trust = (case lm_trust m ref of None \<Rightarrow> no_trust | Some t \<Rightarrow> t)
      in \<lparr>sr_hostname = hostname, sr_url = ''https://'' @ stringsTrimFinalDot hostname, sr_address = lm_iface m,
          sr_setup_url = tg_setup_url trust, sr_fingerprint = tg_fingerprint trust\<rparr>)"

text \<open>What the steps of \<open>ensureNetworkLocked\<close> answer; \<open>None\<close> is no error.\<close>

record network_answers =
  na_interface :: "(router_error, lan_iface) result"
  na_firewall :: "router_error option"
  na_ingress :: "router_error option"
  na_responder :: "router_error option"

definition ensureNetworkLocked :: "network_answers \<Rightarrow> lan_manager \<Rightarrow> (router_error, lan_manager) result" where
  "ensureNetworkLocked a m =
     (if lm_responder m \<and> lm_ingress m then Inr m
      else (case na_interface a of
              Inl e \<Rightarrow> Inl e
            | Inr iface \<Rightarrow>
                (case na_firewall a of
                   Some e \<Rightarrow> Inl e
                 | None \<Rightarrow>
                     (case na_ingress a of
                        Some e \<Rightarrow> Inl e
                      | None \<Rightarrow>
                          (case na_responder a of
                             Some e \<Rightarrow> Inl e
                           | None \<Rightarrow> Inr (m\<lparr>lm_iface := Some iface, lm_ingress := True, lm_responder := True\<rparr>))))))"

definition drop_network :: "lan_manager \<Rightarrow> lan_manager" where
  "drop_network m = m\<lparr>lm_responder := False, lm_ingress := False, lm_iface := None\<rparr>"

definition routeForRef :: "file_store \<Rightarrow> route_ref \<Rightarrow> (router_error, route) result" where
  "routeForRef store ref =
     res_bind (RouteStore_Load store) (\<lambda>routes.
       case routeRefIndex routes ref of None \<Rightarrow> Inl ErrRouteRefMismatch | Some index \<Rightarrow> Inr (routes ! index))"

text \<open>Only the last share takes the network and the trust session of the failed one with it.\<close>

definition rollbackCreate :: "rng \<Rightarrow> route_ref \<Rightarrow> string \<Rightarrow> lan_state \<Rightarrow> lan_state" where
  "rollbackCreate rng ref requested = (\<lambda>(m, sv).
     let sv = sv\<lparr>sv_routes := RemoveLANRoute (sv_routes sv) ref\<rparr>;
         sv = sv\<lparr>sv_store := snd (RemoveLANShare file_update rng (sv_store sv) ref)\<rparr>;
         trust = (case lm_trust m ref of None \<Rightarrow> no_trust | Some t \<Rightarrow> t);
         m = m\<lparr>lm_trust := (lm_trust m)(ref := None), lm_certificates := delete_key ref (lm_certificates m),
               lm_pending := (lm_pending m)(requested := None)\<rparr>
     in if lm_registrations m = [] then (drop_network m, clear_token (tg_token trust) sv) else (m, sv))"

text \<open>\<open>responder.Register\<close>: the registration, and the state after the calls of \<open>Prepare\<close> it led to.\<close>

type_synonym register_op = "string \<Rightarrow> lan_state \<Rightarrow> (router_error, lan_registration) result \<times> lan_state"

text \<open>The part of \<open>Create\<close> before \<open>Register\<close>: an answer, or the requested name that is now pending.\<close>

definition create_begin ::
  "rng \<Rightarrow> time \<Rightarrow> network_answers \<Rightarrow> route_ref \<Rightarrow> lan_state \<Rightarrow> (router_error, string) result \<times> lan_state" where
  "create_begin rng now a ref = (\<lambda>(m, sv).
     case routeForRef (sv_store sv) ref of
       Inl e \<Rightarrow> (Inl e, (m, sv))
     | Inr route \<Rightarrow>
         if EffectiveState route \<noteq> RouteStateActive
         then (Inl (ErrMessage ''LAN sharing requires an active route''), (m, sv))
         else (case RequestLANShare file_update rng (sv_store sv) ref now of
           (Inl e, store) \<Rightarrow> (Inl e, (m, sv\<lparr>sv_store := store\<rparr>))
         | (Inr updated, store) \<Rightarrow>
             (let sv = sv\<lparr>sv_store := store\<rparr>;
                  requested = (case rt_lan_share updated of None \<Rightarrow> '''' | Some share \<Rightarrow> ls_requested_hostname share)
              in if lm_pending m requested \<noteq> None
                 then (Inl (ErrMessage ''LAN share is already being activated''), (m, sv))
                 else (case ensureNetworkLocked a m of
                         Inl e \<Rightarrow> (Inl e, (m, sv\<lparr>sv_store := snd (RemoveLANShare file_update rng (sv_store sv) ref)\<rparr>))
                       | Inr m \<Rightarrow> (Inr requested, (m\<lparr>lm_pending := (lm_pending m)(requested \<mapsto> ref)\<rparr>, sv))))))"

definition Create ::
  "register_op \<Rightarrow> (string \<Rightarrow> string) \<Rightarrow> rng \<Rightarrow> time \<Rightarrow> network_answers \<Rightarrow> route_ref \<Rightarrow> lan_state
     \<Rightarrow> (router_error, share_result) result \<times> lan_state" where
  "Create register current rng now a ref st =
     (case map_of (lm_registrations (fst st)) ref of
        Some registration \<Rightarrow> (Inr (resultFor (fst st) ref (current (lr_id registration))), st)
      | None \<Rightarrow>
          (case create_begin rng now a ref st of
             (Inl e, st) \<Rightarrow> (Inl e, st)
           | (Inr requested, st) \<Rightarrow>
               (case register requested st of
                  (Inl e, st) \<Rightarrow> (Inl e, rollbackCreate rng ref requested st)
                | (Inr registration, (m, sv)) \<Rightarrow>
                    (let m = m\<lparr>lm_registrations := put_key ref registration (lm_registrations m),
                           lm_registration_refs := (lm_registration_refs m)(lr_id registration \<mapsto> ref)\<rparr>
                     in (Inr (resultFor m ref (current (lr_id registration))), (m, sv))))))"

section \<open>Taking a share back\<close>

text \<open>
  The errors of \<open>registration.Close\<close>, \<open>responder.Close\<close> and \<open>ingress.Close\<close> are arguments; \<open>errors.Join\<close>
  gives the list of the errors there were.
\<close>

definition forget_ref :: "route_ref \<Rightarrow> lan_manager \<Rightarrow> lan_manager" where
  "forget_ref ref m =
     (let m' = m\<lparr>lm_trust := (lm_trust m)(ref := None), lm_certificates := delete_key ref (lm_certificates m)\<rparr>
      in case map_of (lm_registrations m) ref of
           None \<Rightarrow> m'
         | Some r \<Rightarrow> m'\<lparr>lm_registrations := delete_key ref (lm_registrations m),
             lm_registration_refs := (lm_registration_refs m)(lr_id r := None),
             lm_pending := (lm_pending m)(lr_requested r := None)\<rparr>)"

definition withdraw_ref :: "rng \<Rightarrow> lan_manager \<Rightarrow> route_ref \<Rightarrow> lan_server \<Rightarrow> (router_error, unit) result \<times> lan_server" where
  "withdraw_ref rng m ref sv =
     (let sv = clear_token (case lm_trust m ref of None \<Rightarrow> '''' | Some t \<Rightarrow> tg_token t)
            (sv\<lparr>sv_routes := RemoveLANRoute (sv_routes sv) ref\<rparr>)
      in case RemoveLANShare file_update rng (sv_store sv) ref of (r, store) \<Rightarrow> (r, sv\<lparr>sv_store := store\<rparr>))"

definition Remove ::
  "rng \<Rightarrow> router_error option \<Rightarrow> router_error option \<Rightarrow> router_error option \<Rightarrow> route_ref \<Rightarrow> lan_state
     \<Rightarrow> router_error list \<times> lan_state" where
  "Remove rng close_err responder_err ingress_err ref = (\<lambda>(m, sv).
     let m' = forget_ref ref m;
         last = (lm_registrations m' = []);
         m'' = (if last then drop_network m' else m')
     in case withdraw_ref rng m ref sv of
          (r, sv') \<Rightarrow>
            ((if map_of (lm_registrations m) ref = None then [] else case close_err of None \<Rightarrow> [] | Some e \<Rightarrow> [e])
              @ (case r of Inl e \<Rightarrow> if e = ErrRouteRefMismatch then [] else [e] | Inr _ \<Rightarrow> [])
              @ (if last \<and> lm_responder m' then (case responder_err of None \<Rightarrow> [] | Some e \<Rightarrow> [e]) else [])
              @ (if last \<and> lm_ingress m' then (case ingress_err of None \<Rightarrow> [] | Some e \<Rightarrow> [e]) else []),
             (m'', sv')))"

text \<open>Every registration is withdrawn from the server and its share changed by \<open>f\<close>.\<close>

fun withdraw_all ::
  "(route_ref \<Rightarrow> lan_trust_reg option) \<Rightarrow> (route_ref \<Rightarrow> file_store \<Rightarrow> file_store) \<Rightarrow> (route_ref \<times> lan_registration) list
     \<Rightarrow> lan_server \<Rightarrow> lan_server" where
  "withdraw_all trust f [] sv = sv"
| "withdraw_all trust f ((ref, registration) # rest) sv =
     withdraw_all trust f rest
       (let sv = clear_token (case trust ref of None \<Rightarrow> '''' | Some t \<Rightarrow> tg_token t)
              (sv\<lparr>sv_routes := RemoveLANRoute (sv_routes sv) ref\<rparr>)
        in sv\<lparr>sv_store := f ref (sv_store sv)\<rparr>)"

definition forget_shares :: "lan_manager \<Rightarrow> lan_manager" where
  "forget_shares m = drop_network (m\<lparr>lm_registrations := [], lm_trust := (\<lambda>_. None), lm_certificates := [],
     lm_registration_refs := (\<lambda>_. None), lm_pending := (\<lambda>_. None)\<rparr>)"

text \<open>The state after \<open>Close\<close>; the error it joins is not modelled.\<close>

definition Close :: "rng \<Rightarrow> lan_state \<Rightarrow> lan_state" where
  "Close rng = (\<lambda>(m, sv).
     (forget_shares m,
      withdraw_all (lm_trust m) (\<lambda>ref store. snd (SetLANShareState file_update rng store ref LANShareSuspended))
        (lm_registrations m) sv))"

section \<open>Certificates that expire or lose their authority\<close>

text \<open>What the calls of one rotation answer: the CA at its start, then for each route.\<close>

record rotate_answers =
  ra_ca :: ca_source
  ra_issue :: "route_ref \<Rightarrow> (router_error, lan_material) result"
  ra_ca1 :: "route_ref \<Rightarrow> ca_source"
  ra_token :: "route_ref \<Rightarrow> string option"
  ra_ca2 :: "route_ref \<Rightarrow> ca_source"

definition rotate_needed :: "lan_config \<Rightarrow> time \<Rightarrow> string \<Rightarrow> lan_cert_state \<Rightarrow> bool" where
  "rotate_needed cfg now currentCA state \<longleftrightarrow>
     (currentCA \<noteq> '''' \<and> cs_ca_fingerprint state \<noteq> currentCA) \<or> \<not> cs_not_after state > now + lc_rotate_before cfg"

text \<open>The trust session of a route whose authority changed goes at once.\<close>

definition drop_stale_trust :: "string \<Rightarrow> route_ref \<Rightarrow> lan_cert_state \<Rightarrow> lan_state \<Rightarrow> lan_state" where
  "drop_stale_trust currentCA ref state = (\<lambda>(m, sv).
     if currentCA \<noteq> '''' \<and> cs_ca_fingerprint state \<noteq> currentCA then
       (if map_of (lm_certificates m) ref = Some state
        then (m\<lparr>lm_trust := (lm_trust m)(ref := None)\<rparr>,
              clear_token (case lm_trust m ref of None \<Rightarrow> '''' | Some t \<Rightarrow> tg_token t) sv)
        else (m, sv))
     else (m, sv))"

definition record_rotated ::
  "lan_config \<Rightarrow> route_ref \<Rightarrow> lan_cert_state \<Rightarrow> lan_material \<Rightarrow> lan_trust_reg \<Rightarrow> lan_state \<Rightarrow> lan_state" where
  "record_rotated cfg ref state material nextTrust = (\<lambda>(m, sv).
     let notAfter = lanCertificateNotAfter cfg (mt_certificate material) in
     if is_zero_time notAfter then (m, clear_token (tg_token nextTrust) sv)
     else if map_of (lm_certificates m) ref \<noteq> Some state then (m, clear_token (tg_token nextTrust) sv)
     else
       (let previousTrust = (case lm_trust m ref of None \<Rightarrow> no_trust | Some t \<Rightarrow> t);
            m = m\<lparr>lm_certificates := put_key ref \<lparr>cs_hostname = cs_hostname state, cs_not_after = notAfter,
                   cs_ca_fingerprint = mt_ca_fingerprint material\<rparr> (lm_certificates m)\<rparr>;
            m = (if tg_token nextTrust \<noteq> '''' then m\<lparr>lm_trust := (lm_trust m)(ref \<mapsto> nextTrust)\<rparr> else m)
        in (m, if tg_token nextTrust \<noteq> '''' \<and> tg_token previousTrust \<noteq> tg_token nextTrust
               then clear_token (tg_token previousTrust) sv else sv)))"

definition rotate_one ::
  "lan_config \<Rightarrow> rotate_answers \<Rightarrow> string \<Rightarrow> lan_iface option \<Rightarrow> route_ref \<times> lan_cert_state \<Rightarrow> lan_state \<Rightarrow> lan_state" where
  "rotate_one cfg a currentCA iface = (\<lambda>(ref, state) st.
     case drop_stale_trust currentCA ref state st of
       (m, sv) \<Rightarrow>
         (case ra_issue a ref of
            Inl _ \<Rightarrow> (m, sv)
          | Inr material \<Rightarrow>
              if validateCertificateMaterial (ra_ca1 a ref) material \<noteq> None then (m, sv)
              else (case (if cs_ca_fingerprint state \<noteq> mt_ca_fingerprint material
                          then prepareTrust cfg (ra_token a ref) iface (cs_hostname state) material sv
                          else Inr (no_trust, sv)) of
                Inl _ \<Rightarrow> (m, sv)
              | Inr (nextTrust, sv) \<Rightarrow>
                  (case replaceLANCertificate (lc_hex cfg) (sv_routes sv) ref (cs_hostname state) (mt_certificate material) of
                     (False, _) \<Rightarrow> (m, clear_token (tg_token nextTrust) sv)
                   | (True, routes) \<Rightarrow>
                       (let sv = sv\<lparr>sv_routes := routes\<rparr> in
                        if validateCertificateMaterial (ra_ca2 a ref) material \<noteq> None
                        then (m, clear_token (tg_token nextTrust) sv)
                        else record_rotated cfg ref state material nextTrust (m, sv))))))"

definition rotateCertificates :: "lan_config \<Rightarrow> rotate_answers \<Rightarrow> time \<Rightarrow> lan_state \<Rightarrow> lan_state" where
  "rotateCertificates cfg a now st =
     (if ra_ca a = SourceError then st
      else (let currentCA = (case ra_ca a of SourceFingerprint current \<Rightarrow> current | _ \<Rightarrow> '''');
                candidates = filter (\<lambda>(ref, state). rotate_needed cfg now currentCA state) (lm_certificates (fst st))
            in fold (rotate_one cfg a currentCA (lm_iface (fst st))) candidates st))"

section \<open>Recovery\<close>

text \<open>What the calls of \<open>Create\<close> inside the recovery need.\<close>

record create_env =
  ce_register :: register_op
  ce_current :: "string \<Rightarrow> string"
  ce_rng :: rng
  ce_now :: time
  ce_network :: "route_ref \<Rightarrow> network_answers"
  ce_text :: "router_error \<Rightarrow> string"

definition create_in :: "create_env \<Rightarrow> route_ref \<Rightarrow> lan_state \<Rightarrow> (router_error, share_result) result \<times> lan_state" where
  "create_in ce ref = Create (ce_register ce) (ce_current ce) (ce_rng ce) (ce_now ce) (ce_network ce ref) ref"

definition suspend_in :: "rng \<Rightarrow> route_ref \<Rightarrow> string \<Rightarrow> lan_state \<Rightarrow> lan_state" where
  "suspend_in rng ref reason = (\<lambda>(m, sv).
     (m, sv\<lparr>sv_store := snd (SuspendLANShare file_update rng (sv_store sv) ref reason)\<rparr>))"

definition create_or_suspend :: "create_env \<Rightarrow> route_ref \<Rightarrow> lan_state \<Rightarrow> router_error option \<times> lan_state" where
  "create_or_suspend ce ref st =
     (case create_in ce ref st of
        (Inl e, st) \<Rightarrow> (Some e, suspend_in (ce_rng ce) ref (ce_text ce e) st)
      | (Inr _, st) \<Rightarrow> (None, st))"

definition RecoverVerified :: "lan_config \<Rightarrow> create_env \<Rightarrow> route_ref \<Rightarrow> lan_state \<Rightarrow> router_error option \<times> lan_state" where
  "RecoverVerified cfg ce ref st =
     (case routeForRef (sv_store (snd st)) ref of
        Inl e \<Rightarrow> (Some e, st)
      | Inr route \<Rightarrow>
          if rt_lan_share route = None then (None, st)
          else if EffectiveState route \<noteq> RouteStateActive
          then (Some (ErrMessage ''LAN sharing requires an active route''), st)
          else if \<not> lc_target_reachable cfg route
          then (Some (ErrMessage ''LAN route target is unreachable''),
                suspend_in (ce_rng ce) ref ''route target is unreachable'' st)
          else create_or_suspend ce ref st)"

definition recover_reason :: "lan_config \<Rightarrow> time \<Rightarrow> route \<Rightarrow> string" where
  "recover_reason cfg now route =
     (if EffectiveState route \<noteq> RouteStateActive then ''route is not active''
      else if RouteLeaseExpired route now then ''route owner lease expired''
      else if \<not> lc_owner_verified cfg route then ''route ownership could not be verified''
      else if \<not> lc_target_reachable cfg route then ''route target is unreachable''
      else '''')"

definition recover_route :: "lan_config \<Rightarrow> create_env \<Rightarrow> route \<Rightarrow> lan_state \<Rightarrow> lan_state" where
  "recover_route cfg ce route st =
     (case rt_lan_share route of
        None \<Rightarrow> st
      | Some share \<Rightarrow>
          if ls_state share = LANShareRemoving
          then (fst st, (snd st)\<lparr>sv_store := snd (RemoveLANShare file_update (ce_rng ce) (sv_store (snd st)) (Ref route))\<rparr>)
          else (let reason = recover_reason cfg (ce_now ce) route in
                if reason \<noteq> '''' then suspend_in (ce_rng ce) (Ref route) reason st
                else snd (create_or_suspend ce (Ref route) st)))"

definition Recover :: "lan_config \<Rightarrow> create_env \<Rightarrow> lan_state \<Rightarrow> router_error option \<times> lan_state" where
  "Recover cfg ce st =
     (case RouteStore_Load (sv_store (snd st)) of
        Inl e \<Rightarrow> (Some e, st)
      | Inr routes \<Rightarrow> (None, fold (recover_route cfg ce) routes st))"

text \<open>
  One tick of the monitor: \<open>valid\<close> is what \<open>networkStillValid\<close> answers (true without the function).
  The second look at the interface under the lock is of use only between goroutines and has no branch here.
\<close>

definition reconcileNetwork :: "lan_config \<Rightarrow> create_env \<Rightarrow> rotate_answers \<Rightarrow> bool \<Rightarrow> lan_state \<Rightarrow> lan_state" where
  "reconcileNetwork cfg ce a valid = (\<lambda>(m, sv).
     if \<not> lm_responder m then (m, sv)
     else if valid then rotateCertificates cfg a (ce_now ce) (m, sv)
     else
       (let sv = withdraw_all (lm_trust m)
              (\<lambda>ref store. snd (SuspendLANShare file_update (ce_rng ce) store ref ''selected LAN interface or address changed''))
              (lm_registrations m) sv
        in fold (\<lambda>(ref, _) st. snd (RecoverVerified cfg ce ref st)) (lm_registrations m) (forget_shares m, sv)))"

section \<open>Steps and the invariant\<close>

text \<open>
  What \<open>responder.Register\<close> may do: call \<open>Prepare\<close> any number of times, with any changes, and then
  fail or return a registration of the requested name.
\<close>

definition prepare_calls ::
  "lan_config \<Rightarrow> netip_env \<Rightarrow> rng \<Rightarrow> (prepare_answers \<times> mdns_change) list \<Rightarrow> lan_state \<Rightarrow> lan_state" where
  "prepare_calls cfg np rng calls st = fold (\<lambda>(a, change) st. snd (Prepare cfg np rng a change st)) calls st"

definition register_with ::
  "lan_config \<Rightarrow> netip_env \<Rightarrow> rng \<Rightarrow> (prepare_answers \<times> mdns_change) list \<Rightarrow> (router_error, string) result \<Rightarrow> register_op" where
  "register_with cfg np rng calls outcome requested st =
     (res_bind outcome (\<lambda>rid. Inr \<lparr>lr_id = rid, lr_requested = requested\<rparr>), prepare_calls cfg np rng calls st)"

text \<open>
  The owners of what the manager exposes: a bound LAN name, a pending name and a registration id all
  belong to a registration, or to the route \<open>extra\<close> that is being created.
\<close>

definition owned :: "route_ref option \<Rightarrow> lan_manager \<Rightarrow> route_ref set" where
  "owned extra m = fst ` set (lm_registrations m) \<union> set_option extra"

definition lan_inv :: "route_ref option \<Rightarrow> lan_state \<Rightarrow> bool" where
  "lan_inv extra = (\<lambda>(m, sv).
     distinct (map fst (lm_registrations m)) \<and>
     (\<forall>rid ref. lm_registration_refs m rid = Some ref \<longrightarrow> (\<exists>r. map_of (lm_registrations m) ref = Some r \<and> lr_id r = rid)) \<and>
     (\<forall>q ref. lm_pending m q = Some ref \<longrightarrow>
        extra = Some ref \<or> (\<exists>r. map_of (lm_registrations m) ref = Some r \<and> lr_requested r = q)) \<and>
     (\<forall>h b. sv_routes sv h = Some b \<longrightarrow> lb_ref b \<in> owned extra m) \<and>
     lm_responder m = lm_ingress m \<and> (lm_responder m \<or> (lm_registrations m = [] \<and> extra = None)))"

inductive lan_step :: "lan_config \<Rightarrow> netip_env \<Rightarrow> lan_state \<Rightarrow> lan_state \<Rightarrow> bool" for cfg np where
  lan_create: "lan_step cfg np st (snd (Create (register_with cfg np rng calls outcome) current rng now a ref st))"
| lan_prepare: "lan_step cfg np st (snd (Prepare cfg np rng pa change st))"
| lan_remove: "lan_step cfg np st (snd (Remove rng e1 e2 e3 ref st))"
| lan_close: "lan_step cfg np st (Close rng st)"
| lan_reconcile: "ce_register ce = register_with cfg np rng calls outcome \<Longrightarrow>
    lan_step cfg np st (reconcileNetwork cfg ce ra valid st)"
| lan_recover: "ce_register ce = register_with cfg np rng calls outcome \<Longrightarrow> lan_step cfg np st (snd (Recover cfg ce st))"
| lan_recover_verified: "ce_register ce = register_with cfg np rng calls outcome \<Longrightarrow>
    lan_step cfg np st (snd (RecoverVerified cfg ce ref st))"
| lan_other: "lan_step cfg np (m, sv) (m, sv\<lparr>sv_store := store, sv_trust := trust\<rparr>)"

inductive lan_reachable :: "lan_config \<Rightarrow> netip_env \<Rightarrow> lan_state \<Rightarrow> bool" for cfg np where
  lan_start: "(\<forall>h. sv_routes sv h = None) \<Longrightarrow> lan_reachable cfg np (newLANManager, sv)"
| lan_next: "lan_reachable cfg np st \<Longrightarrow> lan_step cfg np st st' \<Longrightarrow> lan_reachable cfg np st'"

section \<open>Lemmas\<close>

lemma map_of_delete_key: "map_of (delete_key k m) j = (if j = k then None else map_of m j)"
  by (induction m) (auto simp: delete_key_def)

lemma keys_delete_key: "fst ` set (delete_key k m) = fst ` set m - {k}"
  by (auto simp: delete_key_def image_iff)

lemma distinct_delete_key: "distinct (map fst m) \<Longrightarrow> distinct (map fst (delete_key k m))"
  by (induction m) (auto simp: delete_key_def)

lemma put_key_alt: "put_key k v m = (k, v) # delete_key k m"
  by (simp add: put_key_def delete_key_def)

lemma clear_token_simps [simp]:
  "sv_routes (clear_token token sv) = sv_routes sv"
  "sv_store (clear_token token sv) = sv_store sv"
  by (simp_all add: clear_token_def)

lemma lan_inv_server:
  "lan_inv extra (m, sv) \<Longrightarrow> (\<And>h b. sv_routes sv' h = Some b \<Longrightarrow> lb_ref b \<in> owned extra m) \<Longrightarrow> lan_inv extra (m, sv')"
  unfolding lan_inv_def prod.case by blast

lemma lan_inv_routes: "lan_inv extra (m, sv) \<Longrightarrow> sv_routes sv h = Some b \<Longrightarrow> lb_ref b \<in> owned extra m"
  unfolding lan_inv_def prod.case by blast

lemma lan_inv_refs:
  "lan_inv extra (m, sv) \<Longrightarrow> lm_registration_refs m rid = Some ref \<Longrightarrow>
     \<exists>r. map_of (lm_registrations m) ref = Some r \<and> lr_id r = rid"
  unfolding lan_inv_def prod.case by blast

lemma lan_inv_pending:
  "lan_inv extra (m, sv) \<Longrightarrow> lm_pending m q = Some ref \<Longrightarrow>
     extra = Some ref \<or> (\<exists>r. map_of (lm_registrations m) ref = Some r \<and> lr_requested r = q)"
  unfolding lan_inv_def prod.case by blast

lemma lan_inv_rest:
  assumes "lan_inv extra (m, sv)"
  shows "distinct (map fst (lm_registrations m))" "lm_responder m = lm_ingress m"
    "lm_responder m \<or> (lm_registrations m = [] \<and> extra = None)"
  using assms unfolding lan_inv_def prod.case by blast+

lemma lan_invI:
  assumes "distinct (map fst (lm_registrations m))"
    and "\<And>rid ref. lm_registration_refs m rid = Some ref \<Longrightarrow> \<exists>r. map_of (lm_registrations m) ref = Some r \<and> lr_id r = rid"
    and "\<And>q ref. lm_pending m q = Some ref \<Longrightarrow>
      extra = Some ref \<or> (\<exists>r. map_of (lm_registrations m) ref = Some r \<and> lr_requested r = q)"
    and "\<And>h b. sv_routes sv h = Some b \<Longrightarrow> lb_ref b \<in> owned extra m"
    and "lm_responder m = lm_ingress m" "lm_responder m \<or> (lm_registrations m = [] \<and> extra = None)"
  shows "lan_inv extra (m, sv)"
  using assms unfolding lan_inv_def prod.case by blast

lemma lan_inv_same:
  "lan_inv extra (m, sv) \<Longrightarrow> (\<forall>h b. sv_routes sv' h = Some b \<longrightarrow> sv_routes sv h = Some b \<or> lb_ref b \<in> owned extra m) \<Longrightarrow>
   lm_registrations m' = lm_registrations m \<Longrightarrow> lm_registration_refs m' = lm_registration_refs m \<Longrightarrow>
   lm_pending m' = lm_pending m \<Longrightarrow> lm_responder m' = lm_responder m \<Longrightarrow> lm_ingress m' = lm_ingress m \<Longrightarrow> lan_inv extra (m', sv')"
  unfolding lan_inv_def prod.case owned_def by (simp del: map_of_eq_Some_iff) blast

lemma prepare_owner_owned: "lan_inv extra (m, sv) \<Longrightarrow> prepare_owner m change = Some ref \<Longrightarrow> ref \<in> owned extra m"
proof -
  assume inv: "lan_inv extra (m, sv)" and o: "prepare_owner m change = Some ref"
  then consider "lm_registration_refs m (ch_registration change) = Some ref" | "lm_pending m (ch_requested change) = Some ref"
    by (auto simp: prepare_owner_def split: option.splits)
  then have "extra = Some ref \<or> (\<exists>r. map_of (lm_registrations m) ref = Some r)"
    using inv unfolding lan_inv_def prod.case by cases blast+
  then show ?thesis by (auto simp: owned_def image_iff dest!: map_of_SomeD) force
qed

lemma RemoveLANHostname_le: "RemoveLANHostname m ref raw h = Some b \<Longrightarrow> m h = Some b"
  by (auto simp: RemoveLANHostname_def split: sum.splits option.splits if_splits)

lemma RemoveLANRoute_le: "RemoveLANRoute m ref h = Some b \<longleftrightarrow> m h = Some b \<and> lb_ref b \<noteq> ref"
  by (auto simp: RemoveLANRoute_def split: option.splits)

lemma RegisterLANRoute_le:
  "RegisterLANRoute sha m ref raw cert = Inr m' \<Longrightarrow> m' h = Some b \<Longrightarrow> m h = Some b \<or> lb_ref b = ref"
  by (erule RegisterLANRoute_ok) (auto split: if_splits)

lemma replaceLANCertificate_le:
  "replaceLANCertificate sha m ref raw cert = (ok, m') \<Longrightarrow> m' h = Some b \<Longrightarrow> \<exists>b0. m h = Some b0 \<and> lb_ref b0 = lb_ref b"
  by (auto simp: replaceLANCertificate_def split: sum.splits option.splits if_splits)

lemma prepareTrust_routes: "prepareTrust cfg token iface hostname material sv = Inr (trust, sv') \<Longrightarrow> sv_routes sv' = sv_routes sv"
  by (auto simp: prepareTrust_def Let_def split: if_splits option.splits)

lemma withdraw_name_le: "sv_routes (withdraw_name ref hostname token sv) h = Some b \<Longrightarrow> sv_routes sv h = Some b"
  by (auto simp: withdraw_name_def dest: RemoveLANHostname_le)

lemma record_prepared_inv:
  assumes "lan_inv extra (m, sv)"
  shows "lan_inv extra (record_prepared cfg ref change material trust (m, sv))"
proof -
  obtain m' sv' where r: "record_prepared cfg ref change material trust (m, sv) = (m', sv')"
    by (cases "record_prepared cfg ref change material trust (m, sv)")
  have "sv_routes sv h = Some b" if "sv_routes sv' h = Some b" for h b
    using r that RemoveLANHostname_le [of "sv_routes sv"]
    by (auto simp: record_prepared_def Let_def split: if_splits)
  moreover have "lm_registrations m' = lm_registrations m" "lm_registration_refs m' = lm_registration_refs m"
    "lm_pending m' = lm_pending m" "lm_responder m' = lm_responder m" "lm_ingress m' = lm_ingress m"
    using r by (auto simp: record_prepared_def Let_def split: if_splits)
  ultimately show ?thesis unfolding r using lan_inv_same [OF assms] by blast
qed

lemma prepare_name_inv:
  assumes "lan_inv extra (m, sv)" "ref \<in> owned extra m"
  shows "lan_inv extra (snd (prepare_name cfg np rng a ref change iface material trust (m, sv)))"
proof (cases "RegisterLANRoute (lc_hex cfg) (sv_routes sv) ref (ch_proposed change) (mt_certificate material)")
  case (Inl e)
  have "lan_inv extra (m, clear_token (tg_token trust) sv)"
    by (rule lan_inv_server [OF assms(1)]) (use lan_inv_routes [OF assms(1)] in auto)
  with Inl show ?thesis by (simp add: prepare_name_def)
next
  case (Inr routes)
  have own: "lb_ref b \<in> owned extra m" if "routes h = Some b" for h b
    using RegisterLANRoute_le [OF Inr that] lan_inv_routes [OF assms(1)] assms(2) by auto
  have reg: "lan_inv extra (m, sv\<lparr>sv_routes := routes, sv_store := store\<rparr>)" for store
    by (rule lan_inv_server [OF assms(1)]) (use own in auto)
  have wd: "lan_inv extra (m, withdraw_name ref (ch_proposed change) (tg_token trust) sv1)" if "sv_routes sv1 = routes" for sv1
    by (rule lan_inv_server [OF assms(1)]) (use own withdraw_name_le that in metis)
  show ?thesis
    unfolding prepare_name_def prod.case Inr sum.case Let_def
    using wd record_prepared_inv [OF reg] by (auto split: option.splits prod.splits sum.splits)
qed

lemma Prepare_inv:
  assumes "lan_inv extra st"
  shows "lan_inv extra (snd (Prepare cfg np rng a change st))"
proof -
  obtain m sv where st: "st = (m, sv)" by (cases st)
  show ?thesis
  proof (cases "\<exists>ref material trust sv1. prepare_owner m change = Some ref \<and> pa_issue a = Inr material \<and>
      validateCertificateMaterial (pa_ca1 a) material = None \<and>
      prepareTrust cfg (pa_token a) (lm_iface m) (ch_proposed change) material sv = Inr (trust, sv1)")
    case True
    then obtain ref material trust sv1 where p: "prepare_owner m change = Some ref" "pa_issue a = Inr material"
      "validateCertificateMaterial (pa_ca1 a) material = None"
      "prepareTrust cfg (pa_token a) (lm_iface m) (ch_proposed change) material sv = Inr (trust, sv1)" by blast
    have r: "sv_routes sv1 = sv_routes sv" by (rule prepareTrust_routes [OF p(4)])
    have inv: "lan_inv extra (m, sv1)" "lan_inv extra (m, clear_token token sv1)" for token
      by (rule lan_inv_server [OF assms [unfolded st]]; use r lan_inv_routes [OF assms [unfolded st]] in simp)+
    have "ref \<in> owned extra m" using prepare_owner_owned [OF assms [unfolded st] p(1)] .
    from prepare_name_inv [OF inv(1) this] inv(2) show ?thesis
      unfolding Prepare_def st prod.case by (simp add: p split: option.split)
  next
    case False
    then have "snd (Prepare cfg np rng a change st) = st"
      unfolding Prepare_def st prod.case by (auto split: option.splits sum.splits)
    with assms show ?thesis by simp
  qed
qed

lemma prepare_calls_Cons:
  "prepare_calls cfg np rng ((a, change) # calls) st = prepare_calls cfg np rng calls (snd (Prepare cfg np rng a change st))"
  by (simp add: prepare_calls_def)

lemma prepare_calls_Nil [simp]: "prepare_calls cfg np rng [] st = st"
  by (simp add: prepare_calls_def)

lemma prepare_calls_inv: "lan_inv extra st \<Longrightarrow> lan_inv extra (prepare_calls cfg np rng calls st)"
proof (induction calls arbitrary: st)
  case (Cons call calls)
  then show ?case by (cases call) (simp add: prepare_calls_Cons Prepare_inv)
qed simp

definition same_names :: "lan_manager \<Rightarrow> lan_manager \<Rightarrow> bool" where
  "same_names m m' \<longleftrightarrow> lm_registrations m' = lm_registrations m \<and> lm_registration_refs m' = lm_registration_refs m \<and>
     lm_pending m' = lm_pending m \<and> lm_responder m' = lm_responder m \<and> lm_ingress m' = lm_ingress m"

lemma same_names_refl [simp]: "same_names m m"
  by (simp add: same_names_def)

lemma record_prepared_names: "same_names m (fst (record_prepared cfg ref change material trust (m, sv)))"
  by (simp add: record_prepared_def Let_def same_names_def)

lemma prepare_name_names: "same_names m (fst (snd (prepare_name cfg np rng a ref change iface material trust (m, sv))))"
  unfolding prepare_name_def prod.case Let_def
  by (auto simp: record_prepared_names split: sum.splits option.splits prod.splits)

lemma Prepare_names: "same_names (fst st) (fst (snd (Prepare cfg np rng a change st)))"
proof -
  obtain m sv where "st = (m, sv)" by (cases st)
  then show ?thesis
    unfolding Prepare_def
    by (auto simp: prepare_name_names split: sum.splits option.splits prod.splits)
qed

lemma prepare_calls_names: "same_names (fst st) (fst (prepare_calls cfg np rng calls st))"
proof (induction calls arbitrary: st)
  case (Cons call calls)
  obtain a change where "call = (a, change)" by (cases call)
  with Cons.IH [of "snd (Prepare cfg np rng a change st)"] Prepare_names [of st cfg np rng a change] show ?case
    by (simp add: prepare_calls_Cons same_names_def)
qed simp

subsection \<open>The interface to the responder\<close>

text \<open>What the manager relies on when it registers a name with the responder.\<close>

locale lan_responder =
  fixes register :: register_op
  assumes register_keeps: "lan_inv extra st \<Longrightarrow> lan_inv extra (snd (register requested st))"
    and register_name: "register requested st = (Inr registration, st') \<Longrightarrow> lr_requested registration = requested"
    and register_names: "same_names (fst st) (fst (snd (register requested st)))"
begin

text \<open>A failed creation leaves nothing of the route behind that the manager owns.\<close>

lemma rollback_inv:
  assumes "lan_inv (Some ref) (m, sv)" "ref \<notin> fst ` set (lm_registrations m)" "\<forall>q. lm_pending m q = Some ref \<longrightarrow> q = requested"
  shows "lan_inv None (rollbackCreate rng ref requested (m, sv))"
proof -
  obtain m' sv' where r: "rollbackCreate rng ref requested (m, sv) = (m', sv')"
    by (cases "rollbackCreate rng ref requested (m, sv)")
  have routes: "sv_routes sv h = Some b \<and> lb_ref b \<noteq> ref" if "sv_routes sv' h = Some b" for h b
    using r that by (auto simp: rollbackCreate_def Let_def RemoveLANRoute_le split: if_splits)
  have m': "lm_registrations m' = lm_registrations m" "lm_registration_refs m' = lm_registration_refs m"
    "lm_pending m' = (lm_pending m)(requested := None)"
    "lm_responder m' = (lm_responder m \<and> lm_registrations m \<noteq> [])" "lm_ingress m' = (lm_ingress m \<and> lm_registrations m \<noteq> [])"
    using r by (auto simp: rollbackCreate_def Let_def drop_network_def split: if_splits)
  have own: "lb_ref b \<in> owned None m'" if "sv_routes sv' h = Some b" for h b
    using lan_inv_routes [OF assms(1)] routes [OF that] m'(1) by (auto simp: owned_def)
  have pend: "\<exists>r. map_of (lm_registrations m) ref' = Some r \<and> lr_requested r = q"
    if "q \<noteq> requested" "lm_pending m q = Some ref'" for q ref'
    using assms(1,3) that unfolding lan_inv_def prod.case by blast
  show ?thesis
    using assms(1) own pend unfolding r lan_inv_def prod.case m' by auto
qed

lemma create_begin_inv:
  assumes "lan_inv None (m, sv)" "map_of (lm_registrations m) ref = None"
    and cb: "create_begin rng now a ref (m, sv) = (res, (m', sv'))"
  shows "case res of
      Inl _ \<Rightarrow> lan_inv None (m', sv')
    | Inr requested \<Rightarrow> lan_inv (Some ref) (m', sv') \<and> lm_registrations m' = lm_registrations m \<and>
        lm_pending m' = (lm_pending m)(requested \<mapsto> ref) \<and> lm_pending m requested = None"
proof (cases res)
  case (Inl e)
  with cb have "m' = m" "sv_routes sv' = sv_routes sv"
    by (auto simp: create_begin_def Let_def split: sum.splits if_splits prod.splits)
  with Inl lan_inv_server [OF assms(1), of sv'] lan_inv_routes [OF assms(1)] show ?thesis by simp
next
  case (Inr requested)
  with cb obtain m1 where e: "ensureNetworkLocked a m = Inr m1" and m': "m' = m1\<lparr>lm_pending := (lm_pending m1)(requested \<mapsto> ref)\<rparr>"
    and s: "sv_routes sv' = sv_routes sv" and p: "lm_pending m requested = None"
    by (auto simp: create_begin_def Let_def split: sum.splits if_splits prod.splits)
  from e have m1: "lm_registrations m1 = lm_registrations m" "lm_registration_refs m1 = lm_registration_refs m"
    "lm_pending m1 = lm_pending m" "lm_responder m1" "lm_ingress m1"
    by (auto simp: ensureNetworkLocked_def split: if_splits sum.splits option.splits)
  have "lan_inv (Some ref) (m', sv')"
    using assms(1) m1 s unfolding lan_inv_def prod.case m' owned_def by auto
  with Inr m1 m' p show ?thesis by simp
qed

lemma Create_inv:
  assumes "lan_inv None st"
  shows "lan_inv None (snd (Create register current rng now a ref st))"
proof (cases "map_of (lm_registrations (fst st)) ref")
  case (Some r)
  with assms show ?thesis by (simp add: Create_def)
next
  case None
  obtain m sv where st: "st = (m, sv)" by (cases st)
  obtain res m1 sv1 where cb: "create_begin rng now a ref (m, sv) = (res, (m1, sv1))"
    by (cases "create_begin rng now a ref (m, sv)") auto
  note begin_inv = create_begin_inv [OF assms [unfolded st] None [unfolded st fst_conv] cb]
  show ?thesis
  proof (cases res)
    case (Inl e)
    with begin_inv None cb st show ?thesis by (simp add: Create_def)
  next
    case (Inr requested)
    with begin_inv have inv1: "lan_inv (Some ref) (m1, sv1)" and m1: "lm_registrations m1 = lm_registrations m"
      "lm_pending m1 = (lm_pending m)(requested \<mapsto> ref)" by simp_all
    obtain out m2 sv2 where reg: "register requested (m1, sv1) = (out, (m2, sv2))"
      by (cases "register requested (m1, sv1)") auto
    have inv2: "lan_inv (Some ref) (m2, sv2)" using register_keeps [OF inv1, of requested] reg by simp
    have "same_names m1 m2" using register_names [of "(m1, sv1)" requested] reg by simp
    then have m2: "lm_registrations m2 = lm_registrations m" "lm_pending m2 = (lm_pending m)(requested \<mapsto> ref)"
      using m1 by (simp_all add: same_names_def)
    have new: "ref \<notin> fst ` set (lm_registrations m)" using None st by (simp add: map_of_eq_None_iff)
    have pend: "lm_pending m q \<noteq> Some ref" for q
      using assms None unfolding st lan_inv_def prod.case by force
    show ?thesis
    proof (cases out)
      case out: (Inl e)
      have "q = requested" if "lm_pending m2 q = Some ref" for q using pend [of q] that by (auto simp: m2 split: if_splits)
      then have "lan_inv None (rollbackCreate rng ref requested (m2, sv2))"
        using rollback_inv [OF inv2, of requested rng] new m2(1) by auto
      moreover have "snd (Create register current rng now a ref st) = rollbackCreate rng ref requested (m2, sv2)"
        using None unfolding Create_def st by (simp add: cb Inr reg out)
      ultimately show ?thesis by simp
    next
      case out: (Inr registration)
      have name: "lr_requested registration = requested" using register_name [OF reg [unfolded out]] .
      let ?m = "m2\<lparr>lm_registrations := put_key ref registration (lm_registrations m2),
        lm_registration_refs := (lm_registration_refs m2)(lr_id registration \<mapsto> ref)\<rparr>"
      have map: "map_of (put_key ref registration (lm_registrations m2)) j =
          (if j = ref then Some registration else map_of (lm_registrations m2) j)" for j
        by (simp add: put_key_alt map_of_delete_key)
      have keys: "fst ` set (put_key ref registration (lm_registrations m2)) = insert ref (fst ` set (lm_registrations m2))"
        by (simp add: put_key_alt keys_delete_key)
      have dist: "distinct (map fst (put_key ref registration (lm_registrations m2)))"
        using inv2 by (auto simp: put_key_alt lan_inv_def distinct_delete_key keys_delete_key)
      have none: "map_of (lm_registrations m2) ref = None" using new m2 by (simp add: map_of_eq_None_iff)
      have refs: "\<exists>r. map_of (put_key ref registration (lm_registrations m2)) ref' = Some r \<and> lr_id r = rid"
        if "((lm_registration_refs m2)(lr_id registration \<mapsto> ref)) rid = Some ref'" for rid ref'
      proof (cases "rid = lr_id registration")
        case True
        with that map show ?thesis by auto
      next
        case False
        with that lan_inv_refs [OF inv2] obtain r where r: "map_of (lm_registrations m2) ref' = Some r" "lr_id r = rid"
          by (metis fun_upd_other)
        with none have "ref' \<noteq> ref" by auto
        with r map show ?thesis by auto
      qed
      have pd: "\<exists>r. map_of (put_key ref registration (lm_registrations m2)) ref' = Some r \<and> lr_requested r = q"
        if "lm_pending m2 q = Some ref'" for q ref'
      proof (cases "ref' = ref")
        case True
        with that pend [of q] m2 have "q = requested" by (auto split: if_splits)
        with True name map show ?thesis by auto
      next
        case False
        with lan_inv_pending [OF inv2 that] obtain r where "map_of (lm_registrations m2) ref' = Some r" "lr_requested r = q"
          by blast
        with False map show ?thesis by auto
      qed
      have own: "owned None ?m = owned (Some ref) m2" using keys by (auto simp: owned_def)
      have "lb_ref b \<in> owned None ?m" if "sv_routes sv2 h = Some b" for h b
        unfolding own by (rule lan_inv_routes [OF inv2 that])
      moreover have "lm_responder m2 = lm_ingress m2" "lm_responder m2" using lan_inv_rest [OF inv2] by simp_all
      ultimately have "lan_inv None (?m, sv2)"
        using dist refs pd by (intro lan_invI) simp_all
      moreover have "snd (Create register current rng now a ref st) = (?m, sv2)"
        using None unfolding Create_def st by (simp add: cb Inr reg out Let_def)
      ultimately show ?thesis by simp
    qed
  qed
qed

end

lemma lan_inv_store:
  assumes "lan_inv extra (m, sv)" "sv_routes sv' = sv_routes sv"
  shows "lan_inv extra (m, sv')"
  by (rule lan_inv_server [OF assms(1)]) (use assms lan_inv_routes in auto)

lemma suspend_inv: "lan_inv extra st \<Longrightarrow> lan_inv extra (suspend_in rng ref reason st)"
  by (cases st) (simp add: suspend_in_def lan_inv_store)

context lan_responder
begin

lemma create_or_suspend_inv:
  assumes "ce_register ce = register" "lan_inv None st"
  shows "lan_inv None (snd (create_or_suspend ce ref st))"
  using Create_inv [OF assms(2), of "ce_current ce" "ce_rng ce" "ce_now ce" "ce_network ce ref" ref] assms(1) suspend_inv
  by (auto simp: create_or_suspend_def create_in_def split: prod.split sum.split)

lemma RecoverVerified_inv:
  assumes "ce_register ce = register" "lan_inv None st"
  shows "lan_inv None (snd (RecoverVerified cfg ce ref st))"
  using create_or_suspend_inv [OF assms] suspend_inv assms(2)
  by (auto simp: RecoverVerified_def split: sum.split)

lemma recover_route_inv:
  assumes "ce_register ce = register" "lan_inv None st"
  shows "lan_inv None (recover_route cfg ce route st)"
proof -
  have "lan_inv None (fst st, (snd st)\<lparr>sv_store := store\<rparr>)" for store
    using assms(2) by (cases st) (simp add: lan_inv_store)
  then show ?thesis
    using create_or_suspend_inv [OF assms] suspend_inv assms(2)
    by (auto simp: recover_route_def Let_def split: option.split)
qed

lemma Recover_inv:
  assumes "ce_register ce = register" "lan_inv None st"
  shows "lan_inv None (snd (Recover cfg ce st))"
proof -
  have "lan_inv None (fold (recover_route cfg ce) routes st)" for routes
    using assms(2) by (induction routes arbitrary: st) (simp_all add: recover_route_inv [OF assms(1)])
  with assms(2) show ?thesis by (simp add: Recover_def split: sum.split)
qed

lemma recover_all_inv:
  assumes "ce_register ce = register" "lan_inv None st"
  shows "lan_inv None (fold (\<lambda>(ref, _) st. snd (RecoverVerified cfg ce ref st)) refs st)"
  using assms(2)
proof (induction refs arbitrary: st)
  case (Cons x refs)
  then show ?case by (cases x) (simp add: RecoverVerified_inv [OF assms(1)])
qed simp

end

subsection \<open>Taking back\<close>

lemma withdraw_all_routes:
  "sv_routes (withdraw_all trust f regs sv) h = Some b \<longleftrightarrow> sv_routes sv h = Some b \<and> lb_ref b \<notin> fst ` set regs"
proof (induction regs arbitrary: sv)
  case (Cons x regs)
  obtain ref r where "x = (ref, r)" by (cases x)
  with Cons show ?case by (auto simp: Let_def RemoveLANRoute_le)
qed simp

lemma forget_shares_simps:
  "lm_registrations (forget_shares m) = []" "lm_registration_refs (forget_shares m) = (\<lambda>_. None)"
  "lm_pending (forget_shares m) = (\<lambda>_. None)" "lm_responder (forget_shares m) = False" "lm_ingress (forget_shares m) = False"
  by (simp_all add: forget_shares_def drop_network_def)

lemma forget_inv:
  assumes "lan_inv None (m, sv)"
  shows "lan_inv None (forget_shares m, withdraw_all trust f (lm_registrations m) sv)"
proof (rule lan_invI)
  fix h b
  assume "sv_routes (withdraw_all trust f (lm_registrations m) sv) h = Some b"
  then have "sv_routes sv h = Some b" "lb_ref b \<notin> fst ` set (lm_registrations m)" by (simp_all add: withdraw_all_routes)
  with lan_inv_routes [OF assms] show "lb_ref b \<in> owned None (forget_shares m)" by (auto simp: owned_def)
qed (simp_all add: forget_shares_simps)

lemma Close_inv: "lan_inv None st \<Longrightarrow> lan_inv None (Close rng st)"
  by (cases st) (simp add: Close_def forget_inv)

lemma delete_key_none: "map_of m k = None \<Longrightarrow> delete_key k m = m"
  by (force simp: delete_key_def map_of_eq_None_iff image_iff intro!: filter_True)

lemma forget_ref_simps:
  "lm_registrations (forget_ref ref m) = delete_key ref (lm_registrations m)"
  "lm_registration_refs (forget_ref ref m) = (case map_of (lm_registrations m) ref of None \<Rightarrow> lm_registration_refs m
     | Some r \<Rightarrow> (lm_registration_refs m)(lr_id r := None))"
  "lm_pending (forget_ref ref m) = (case map_of (lm_registrations m) ref of None \<Rightarrow> lm_pending m
     | Some r \<Rightarrow> (lm_pending m)(lr_requested r := None))"
  "lm_trust (forget_ref ref m) = (lm_trust m)(ref := None)"
  "lm_responder (forget_ref ref m) = lm_responder m"
  "lm_ingress (forget_ref ref m) = lm_ingress m"
  "lm_certificates (forget_ref ref m) = delete_key ref (lm_certificates m)"
  by (cases "map_of (lm_registrations m) ref"; simp add: forget_ref_def delete_key_none)+

lemma drop_network_simps [simp]:
  "lm_registrations (drop_network m) = lm_registrations m" "lm_registration_refs (drop_network m) = lm_registration_refs m"
  "lm_pending (drop_network m) = lm_pending m" "lm_trust (drop_network m) = lm_trust m"
  "lm_responder (drop_network m) = False" "lm_ingress (drop_network m) = False"
  "lm_certificates (drop_network m) = lm_certificates m"
  by (simp_all add: drop_network_def)

lemma withdraw_ref_simps:
  "sv_routes (snd (withdraw_ref rng m ref sv)) = RemoveLANRoute (sv_routes sv) ref"
  "sv_store (snd (withdraw_ref rng m ref sv)) = snd (RemoveLANShare file_update rng (sv_store sv) ref)"
  "sv_trust (snd (withdraw_ref rng m ref sv)) =
     sv_trust (clear_token (case lm_trust m ref of None \<Rightarrow> '''' | Some t \<Rightarrow> tg_token t) sv)"
  by (simp_all add: withdraw_ref_def Let_def clear_token_def split: prod.split)

lemma Remove_eq:
  "snd (Remove rng e1 e2 e3 ref (m, sv)) =
     (if lm_registrations (forget_ref ref m) = [] then drop_network (forget_ref ref m) else forget_ref ref m,
      snd (withdraw_ref rng m ref sv))"
  by (simp add: Remove_def Let_def split: prod.split)

lemma Remove_inv:
  assumes "lan_inv None st"
  shows "lan_inv None (snd (Remove rng e1 e2 e3 ref st))"
proof -
  obtain m sv where st: "st = (m, sv)" by (cases st)
  note inv = assms [unfolded st]
  let ?m = "if lm_registrations (forget_ref ref m) = [] then drop_network (forget_ref ref m) else forget_ref ref m"
  have f: "lm_registrations ?m = delete_key ref (lm_registrations m)"
    "lm_registration_refs ?m = lm_registration_refs (forget_ref ref m)" "lm_pending ?m = lm_pending (forget_ref ref m)"
    by (simp_all add: forget_ref_simps)
  have keep: "map_of (delete_key ref (lm_registrations m)) ref' = map_of (lm_registrations m) ref'" if "ref' \<noteq> ref" for ref'
    using that by (simp add: map_of_delete_key)
  have "lan_inv None (?m, snd (withdraw_ref rng m ref sv))"
  proof (rule lan_invI)
    show "distinct (map fst (lm_registrations ?m))"
      unfolding f using lan_inv_rest(1) [OF inv] by (rule distinct_delete_key)
  next
    fix rid ref'
    assume "lm_registration_refs ?m rid = Some ref'"
    then have "lm_registration_refs (forget_ref ref m) rid = Some ref'" using f(2) by simp
    then have a: "lm_registration_refs m rid = Some ref'" and b: "\<And>r. map_of (lm_registrations m) ref = Some r \<Longrightarrow> lr_id r \<noteq> rid"
      unfolding forget_ref_simps by (auto split: option.splits if_splits)
    from lan_inv_refs [OF inv a] obtain r where r: "map_of (lm_registrations m) ref' = Some r" "lr_id r = rid" by blast
    with b have "ref' \<noteq> ref" by auto
    with r keep show "\<exists>r. map_of (lm_registrations ?m) ref' = Some r \<and> lr_id r = rid" using f(1) by auto
  next
    fix q ref'
    assume "lm_pending ?m q = Some ref'"
    then have "lm_pending (forget_ref ref m) q = Some ref'" using f(3) by simp
    then have a: "lm_pending m q = Some ref'" and b: "\<And>r. map_of (lm_registrations m) ref = Some r \<Longrightarrow> lr_requested r \<noteq> q"
      unfolding forget_ref_simps by (auto split: option.splits if_splits)
    from lan_inv_pending [OF inv a] obtain r where r: "map_of (lm_registrations m) ref' = Some r" "lr_requested r = q" by blast
    with b have "ref' \<noteq> ref" by auto
    with r keep show "None = Some ref' \<or> (\<exists>r. map_of (lm_registrations ?m) ref' = Some r \<and> lr_requested r = q)"
      using f(1) by auto
  next
    fix h b
    assume "sv_routes (snd (withdraw_ref rng m ref sv)) h = Some b"
    then have "sv_routes sv h = Some b" "lb_ref b \<noteq> ref" by (simp_all add: withdraw_ref_simps RemoveLANRoute_le)
    with lan_inv_routes [OF inv] show "lb_ref b \<in> owned None ?m" unfolding owned_def f by (auto simp: keys_delete_key)
  next
    show "lm_responder ?m = lm_ingress ?m"
      using lan_inv_rest(2) [OF inv] by (simp add: forget_ref_simps)
    show "lm_responder ?m \<or> (lm_registrations ?m = [] \<and> None = None)"
      using lan_inv_rest(3) [OF inv] by (auto simp: forget_ref_simps delete_key_def)
  qed
  then show ?thesis unfolding st Remove_eq .
qed

subsection \<open>Rotation\<close>

text \<open>A rotation changes certificates and trust only: who owns what stays as it is.\<close>

definition same_owners :: "lan_state \<Rightarrow> lan_state \<Rightarrow> bool" where
  "same_owners st st' \<longleftrightarrow> same_names (fst st) (fst st') \<and>
     (\<forall>h. map_option lb_ref (sv_routes (snd st') h) = map_option lb_ref (sv_routes (snd st) h))"

lemma same_owners_refl [simp]: "same_owners st st"
  by (simp add: same_owners_def)

lemma same_owners_trans: "same_owners st st' \<Longrightarrow> same_owners st' st'' \<Longrightarrow> same_owners st st''"
  by (simp add: same_owners_def same_names_def)

lemma same_owners_inv: "same_owners (m, sv) (m', sv') \<Longrightarrow> lan_inv extra (m, sv) \<Longrightarrow> lan_inv extra (m', sv')"
proof -
  assume s: "same_owners (m, sv) (m', sv')" and inv: "lan_inv extra (m, sv)"
  have "lb_ref b \<in> owned extra m" if "sv_routes sv' h = Some b" for h b
  proof -
    have "map_option lb_ref (sv_routes sv' h) = map_option lb_ref (sv_routes sv h)" using s by (simp add: same_owners_def)
    with that have "map_option lb_ref (sv_routes sv h) = Some (lb_ref b)" by simp
    then obtain b0 where "sv_routes sv h = Some b0" "lb_ref b0 = lb_ref b" by auto
    with lan_inv_routes [OF inv] show ?thesis by metis
  qed
  with s show ?thesis
    by (intro lan_inv_same [OF inv, of sv' m']) (simp_all add: same_owners_def same_names_def)
qed

lemma drop_stale_trust_owners: "same_owners st (drop_stale_trust currentCA ref state st)"
  by (cases st) (simp add: drop_stale_trust_def same_owners_def same_names_def)

lemma record_rotated_owners: "same_owners st (record_rotated cfg ref state material trust st)"
  by (cases st) (simp add: record_rotated_def Let_def same_owners_def same_names_def)

lemma replaceLANCertificate_owners:
  "replaceLANCertificate sha m ref raw cert = (ok, m') \<Longrightarrow> map_option lb_ref (m' h) = map_option lb_ref (m h)"
  by (auto simp: replaceLANCertificate_def split: sum.splits option.splits if_splits)

lemma rotate_one_owners: "same_owners st (rotate_one cfg a currentCA iface (ref, state) st)"
proof -
  obtain m sv where d: "drop_stale_trust currentCA ref state st = (m, sv)"
    by (cases "drop_stale_trust currentCA ref state st")
  have 0: "same_owners st (m, sv)" using drop_stale_trust_owners [of st currentCA ref state] d by simp
  show ?thesis
  proof (cases "ra_issue a ref")
    case (Inl e)
    with 0 show ?thesis by (simp add: rotate_one_def d)
  next
    case (Inr material)
    let ?trust = "if cs_ca_fingerprint state \<noteq> mt_ca_fingerprint material
      then prepareTrust cfg (ra_token a ref) iface (cs_hostname state) material sv else Inr (no_trust, sv)"
    show ?thesis
    proof (cases "validateCertificateMaterial (ra_ca1 a ref) material \<noteq> None \<or> (\<exists>e. ?trust = Inl e)")
      case True
      with 0 Inr show ?thesis by (auto simp: rotate_one_def d)
    next
      case False
      then obtain trust sv1 where t: "?trust = Inr (trust, sv1)" by (cases ?trust) auto
      have r1: "sv_routes sv1 = sv_routes sv" using t prepareTrust_routes by (auto split: if_splits)
      obtain ok routes where rep: "replaceLANCertificate (lc_hex cfg) (sv_routes sv1) ref (cs_hostname state)
          (mt_certificate material) = (ok, routes)"
        by (cases "replaceLANCertificate (lc_hex cfg) (sv_routes sv1) ref (cs_hostname state) (mt_certificate material)")
      have 1: "same_owners st (m, sv2)" if "sv_routes sv2 = sv_routes sv1 \<or> sv_routes sv2 = routes" for sv2
        using 0 r1 that replaceLANCertificate_owners [OF rep] by (auto simp: same_owners_def)
      let ?sv = "sv1\<lparr>sv_routes := routes\<rparr>"
      have "rotate_one cfg a currentCA iface (ref, state) st =
         (if \<not> ok then (m, clear_token (tg_token trust) sv1)
          else if validateCertificateMaterial (ra_ca2 a ref) material \<noteq> None then (m, clear_token (tg_token trust) ?sv)
          else record_rotated cfg ref state material trust (m, ?sv))"
        using False t rep Inr by (simp add: rotate_one_def d Let_def)
      moreover have "same_owners st (record_rotated cfg ref state material trust (m, ?sv))"
        using same_owners_trans [OF 1 record_rotated_owners] by simp
      ultimately show ?thesis using 1 by simp
    qed
  qed
qed

lemma rotateCertificates_owners: "same_owners st (rotateCertificates cfg a now st)"
proof -
  have "same_owners st (fold (rotate_one cfg a ca iface) cs st)" for ca iface cs
  proof (induction cs arbitrary: st)
    case (Cons c cs)
    obtain ref state where "c = (ref, state)" by (cases c)
    with Cons rotate_one_owners [of st cfg a ca iface ref state] same_owners_trans show ?case by fastforce
  qed simp
  then show ?thesis by (simp add: rotateCertificates_def Let_def)
qed

lemma rotate_inv: "lan_inv extra st \<Longrightarrow> lan_inv extra (rotateCertificates cfg a now st)"
  using same_owners_inv rotateCertificates_owners by (metis prod.collapse)

context lan_responder
begin

lemma reconcile_inv:
  assumes "ce_register ce = register" "lan_inv None st"
  shows "lan_inv None (reconcileNetwork cfg ce a valid st)"
proof -
  obtain m sv where st: "st = (m, sv)" by (cases st)
  show ?thesis
    using assms(2) unfolding reconcileNetwork_def st Let_def prod.case
    by (auto intro!: recover_all_inv [OF assms(1)] forget_inv rotate_inv)
qed

end

text \<open>The responder of the model, whatever its coordinator calls and its outcome, satisfies the interface.\<close>

interpretation mdns: lan_responder "register_with cfg np rng calls outcome" for cfg np rng calls outcome
proof
  fix extra st requested
  show "lan_inv extra st \<Longrightarrow> lan_inv extra (snd (register_with cfg np rng calls outcome requested st))"
    by (simp add: register_with_def prepare_calls_inv)
next
  fix requested st registration st'
  show "register_with cfg np rng calls outcome requested st = (Inr registration, st') \<Longrightarrow> lr_requested registration = requested"
    by (auto simp: register_with_def res_bind_Inr_iff)
next
  fix st requested
  show "same_names (fst st) (fst (snd (register_with cfg np rng calls outcome requested st)))"
    by (simp add: register_with_def prepare_calls_names)
qed

lemma lan_step_inv: "lan_step cfg np st st' \<Longrightarrow> lan_inv None st \<Longrightarrow> lan_inv None st'"
proof (induction rule: lan_step.induct)
  case (lan_other m sv store trust)
  then show ?case by (simp add: lan_inv_store)
qed (simp_all add: mdns.Create_inv Prepare_inv Remove_inv Close_inv mdns.reconcile_inv mdns.Recover_inv mdns.RecoverVerified_inv)

lemma lan_reachable_inv: "lan_reachable cfg np st \<Longrightarrow> lan_inv None st"
proof (induction rule: lan_reachable.induct)
  case (lan_start sv)
  then show ?case by (intro lan_invI) (simp_all add: newLANManager_def)
qed (rule lan_step_inv)

subsection \<open>Preparing a name\<close>

definition sessions_le :: "lan_server \<Rightarrow> lan_server \<Rightarrow> bool" where
  "sessions_le sv' sv \<longleftrightarrow> (\<forall>token. tr_sessions (sv_trust sv') token = None \<or>
     tr_sessions (sv_trust sv') token = tr_sessions (sv_trust sv) token)"

definition bindings_le :: "lan_server \<Rightarrow> lan_server \<Rightarrow> bool" where
  "bindings_le sv' sv \<longleftrightarrow> (\<forall>h. sv_routes sv' h = None \<or> sv_routes sv' h = sv_routes sv h)"

lemma clear_token_sessions:
  "tr_sessions (sv_trust (clear_token token sv)) t =
     (if token \<noteq> '''' \<and> t = token then None else tr_sessions (sv_trust sv) t)"
  by (simp add: clear_token_def ClearLANTrust_def)

lemma prepareTrust_sessions:
  assumes "prepareTrust cfg tok iface hostname material sv = Inr (trust, sv1)" "tok \<noteq> Some ''''"
  shows "tr_sessions (sv_trust sv1) t = tr_sessions (sv_trust sv) t \<or> (t = tg_token trust \<and> t \<noteq> '''')"
  using assms by (auto simp: prepareTrust_def Let_def ConfigureLANTrust_def split: if_splits option.splits)

lemma validate_None:
  "validateCertificateMaterial ca material = None \<longleftrightarrow>
     ca = NoSource \<or> (ca = SourceFingerprint (mt_ca_fingerprint material) \<and> mt_ca_fingerprint material \<noteq> '''')"
  by (cases ca) (auto simp: validateCertificateMaterial_def)

lemma withdraw_registered:
  assumes "RegisterLANRoute sha (sv_routes sv) ref raw cert = Inr routes" "sv_routes sv1 = routes"
  shows "sv_routes (withdraw_name ref raw token sv1) h = None \<or> sv_routes (withdraw_name ref raw token sv1) h = sv_routes sv h"
  using assms
  by (elim RegisterLANRoute_ok) (auto simp: withdraw_name_def RemoveLANHostname_def split: option.splits)

lemma prepare_name_failed:
  assumes "prepare_name cfg np rng a ref change iface material trust (m, sv) = (Inl e, (m', sv'))"
  shows "m' = m \<and> (\<forall>h. sv_routes sv' h = None \<or> sv_routes sv' h = sv_routes sv h) \<and>
    sv_trust sv' = sv_trust (clear_token (tg_token trust) sv)"
proof (cases "RegisterLANRoute (lc_hex cfg) (sv_routes sv) ref (ch_proposed change) (mt_certificate material)")
  case (Inl e')
  with assms show ?thesis by (auto simp: prepare_name_def)
next
  case (Inr routes)
  let ?w = "\<lambda>sv1. withdraw_name ref (ch_proposed change) (tg_token trust) sv1"
  have w: "m' = m \<and> (sv' = ?w (sv\<lparr>sv_routes := routes\<rparr>) \<or> (\<exists>store. sv' = ?w (sv\<lparr>sv_routes := routes, sv_store := store\<rparr>)))"
    using assms Inr unfolding prepare_name_def prod.case Let_def
    by (auto simp del: split_paired_Ex split: option.splits prod.splits sum.splits)
  then obtain sv1 where sv1: "sv_routes sv1 = routes" "sv_trust sv1 = sv_trust sv" "sv' = ?w sv1"
    by (elim conjE disjE exE) (rule that [rotated 2], assumption, simp, simp)+
  with withdraw_registered [OF Inr sv1(1)] w show ?thesis
    by (auto simp: withdraw_name_def clear_token_def)
qed

text \<open>What a call of \<open>Prepare\<close> that succeeds has gone through.\<close>

lemma Prepare_ok:
  assumes "Prepare cfg np rng a change (m, sv) = (Inr u, st')"
  obtains ref material trust sv1 where "prepare_owner m change = Some ref" "pa_issue a = Inr material"
    "validateCertificateMaterial (pa_ca1 a) material = None" "validateCertificateMaterial (pa_ca2 a) material = None"
    "prepareTrust cfg (pa_token a) (lm_iface m) (ch_proposed change) material sv = Inr (trust, sv1)"
    "prepare_name cfg np rng a ref change (lm_iface m) material trust (m, sv1) = (Inr u, st')"
  using assms unfolding Prepare_def prod.case by (auto split: option.splits sum.splits prod.splits)

lemma prepare_name_ok:
  assumes "prepare_name cfg np rng a ref change iface material trust (m, sv) = (Inr u, st')"
  obtains routes store where "RegisterLANRoute (lc_hex cfg) (sv_routes sv) ref (ch_proposed change) (mt_certificate material) = Inr routes"
    "validateCertificateMaterial (pa_ca3 a) material = None"
    "ActivateLANShare file_update np rng (sv_store sv) ref
       \<lparr>la_hostname = ch_proposed change, la_interface_index = (case iface of None \<Rightarrow> 0 | Some i \<Rightarrow> li_index i),
        la_interface_name = (case iface of None \<Rightarrow> '''' | Some i \<Rightarrow> li_name i),
        la_address = iface_address iface, la_prefix = iface_prefix iface\<rparr> = (Inr (), store)"
    "st' = record_prepared cfg ref change material trust (m, sv\<lparr>sv_routes := routes, sv_store := store\<rparr>)"
  using assms unfolding prepare_name_def prod.case Let_def by (auto split: option.splits sum.splits prod.splits)

section \<open>Examples\<close>

text \<open>
  The configuration, the routes and the answers the witnesses are evaluated on: two routes, the first
  (\<open>sample_p\<close>) and the second (\<open>sample_q\<close>) with any shares.
\<close>

definition sample_cfg :: lan_config where
  "sample_cfg = \<lparr>lc_sha256 = (\<lambda>_. [171, 5]), lc_hex = (\<lambda>der. der), lc_pem = (\<lambda>der. der), lc_parse_leaf = (\<lambda>_. None),
     lc_prepare_trust = True, lc_owner_verified = (\<lambda>_. True), lc_target_reachable = (\<lambda>_. True), lc_rotate_before = 60\<rparr>"

definition sample_np :: netip_env where
  "sample_np = \<lparr>np_addr = (\<lambda>_. Some (IPv4 192 168 5 7)), np_prefix = (\<lambda>_. Some (IPv4 192 168 5 0, 24))\<rparr>"

definition sample_iface :: lan_iface where
  "sample_iface = \<lparr>li_index = 2, li_name = ''en'', li_prefix = ((192, 168, 5, 7), 24)\<rparr>"

definition sample_p :: route where
  "sample_p = zero_route\<lparr>rt_id := ''a'', rt_generation := 2, rt_state := RouteStateActive, rt_host := ''p.localhost'', rt_target := ''u''\<rparr>"

definition sample_q :: route where
  "sample_q = zero_route\<lparr>rt_id := ''b'', rt_generation := 2, rt_state := RouteStateActive, rt_host := ''q.localhost'', rt_target := ''v''\<rparr>"

definition lan_store :: "lan_share option \<Rightarrow> lan_share option \<Rightarrow> file_store" where
  "lan_store a b = \<lparr>fs_file = RoutesFile [sample_p\<lparr>rt_lan_share := a\<rparr>, sample_q\<lparr>rt_lan_share := b\<rparr>],
     fs_lock_ok = True, fs_write_ok = True\<rparr>"

definition sample_start :: lan_state where
  "sample_start = (newLANManager, \<lparr>sv_store = lan_store None None, sv_routes = (\<lambda>_. None),
     sv_trust = \<lparr>tr_sessions = (\<lambda>_. None), tr_attempts = (\<lambda>_. None)\<rparr>\<rparr>)"

definition sample_material :: lan_material where
  "sample_material = \<lparr>mt_certificate = \<lparr>ce_chain = [''leaf'', ''root''], ce_leaf = Some 5000\<rparr>,
     mt_ca_fingerprint = ''root'', mt_ca_der = ''root''\<rparr>"

definition sample_answers :: "string \<Rightarrow> prepare_answers" where
  "sample_answers token = \<lparr>pa_issue = Inr sample_material, pa_token = Some token, pa_ca1 = SourceFingerprint ''root'',
     pa_ca2 = SourceFingerprint ''root'', pa_ca3 = SourceFingerprint ''root''\<rparr>"

definition sample_network :: network_answers where
  "sample_network = \<lparr>na_interface = Inr sample_iface, na_firewall = None, na_ingress = None, na_responder = None\<rparr>"

definition sample_change :: "string \<Rightarrow> mdns_change" where
  "sample_change name = \<lparr>ch_registration = [], ch_requested = name, ch_previous = [], ch_proposed = name\<rparr>"

definition sample_register :: "string \<Rightarrow> string \<Rightarrow> (router_error, string) result \<Rightarrow> register_op" where
  "sample_register token name outcome =
     register_with sample_cfg sample_np [] [(sample_answers token, sample_change name)] outcome"

definition sample_create :: "string \<Rightarrow> string \<Rightarrow> (router_error, string) result \<Rightarrow> route \<Rightarrow> lan_state \<Rightarrow> lan_state" where
  "sample_create token name outcome route st =
     snd (Create (sample_register token name outcome) (\<lambda>_. name) [] 100 sample_network (Ref route) st)"

definition sample_one :: lan_state where
  "sample_one = sample_create ''s'' ''q.local.'' (Inr ''r'') sample_q sample_start"

definition requested_share :: "string \<Rightarrow> time \<Rightarrow> lan_share" where
  "requested_share name t = \<lparr>ls_state = LANShareRequested, ls_requested_hostname = name,
     ls_hostname = '''', ls_interface_index = 0, ls_interface_name = '''', ls_address = '''', ls_prefix = '''',
     ls_created_at = t, ls_last_connected_at = 0, ls_suspended_reason = ''''\<rparr>"

subsection \<open>Their evaluation\<close>

lemma sample_names [simp]:
  "normalizeLANHostname ''p.local.'' = Inr ''p.local.''" "normalizeLANHostname ''q.local.'' = Inr ''q.local.''"
  using normalizeLANHostname_label [of "''p''"] normalizeLANHostname_label [of "''q''"]
  by (simp_all add: lan_label_def lan_label_char_def byte_defs)

lemma sample_requested:
  "requestedLANShare ''lan'' ''p.localhost'' t = Some (requested_share ''p.local.'' t)"
  "requestedLANShare ''lan'' ''q.localhost'' t = Some (requested_share ''q.local.'' t)"
  using cut_suffix_Some [of "''p.localhost''" "''.localhost''" "''p''"] cut_suffix_Some [of "''q.localhost''" "''.localhost''" "''q''"]
  by (simp_all add: requestedLANShare_def requested_share_def to_lower_def byte_defs)

lemma sample_sorted:
  assumes "rt_host p = ''p.localhost''" "rt_host q = ''q.localhost''"
  shows "sortRoutes [p, q] = [p, q]"
proof -
  have "(to_lower ''p.localhost'', ''p.localhost'') \<le> (to_lower ''q.localhost'', ''q.localhost'')" by code_simp
  then show ?thesis using assms by (simp add: sortRoutes_def route_key_def)
qed

lemma sample_routes [simp]:
  "rt_id sample_p = ''a''" "rt_generation sample_p = 2" "rt_state sample_p = RouteStateActive"
  "rt_host sample_p = ''p.localhost''" "rt_lan_share sample_p = None"
  "rt_id sample_q = ''b''" "rt_generation sample_q = 2" "rt_state sample_q = RouteStateActive"
  "rt_host sample_q = ''q.localhost''" "rt_lan_share sample_q = None"
  by (simp_all add: sample_p_def sample_q_def zero_route_def)

lemma sample_refs [simp]:
  "Ref sample_p \<noteq> Ref sample_q" "Ref sample_q \<noteq> Ref sample_p"
  "ref_id (Ref sample_p) = ''a''" "ref_id (Ref sample_q) = ''b''" "ref_generation (Ref sample_p) = 2" "ref_generation (Ref sample_q) = 2"
  by (simp_all add: Ref_def)

lemma lan_store_update:
  "UpdateStore file_update rng (lan_store a b) u =
     (case u rng [sample_p\<lparr>rt_lan_share := a\<rparr>, sample_q\<lparr>rt_lan_share := b\<rparr>] of
        Inl e \<Rightarrow> (Inl e, lan_store a b)
      | Inr (routes, x) \<Rightarrow> (Inr x, (lan_store a b)\<lparr>fs_file := RoutesFile (sortRoutes routes)\<rparr>))"
  by (auto simp: UpdateStore_def file_update_def file_load_def lan_store_def sample_sorted has_identity_def split: sum.splits)

lemma lan_store_load [simp]:
  "RouteStore_Load (lan_store a b) = Inr [sample_p\<lparr>rt_lan_share := a\<rparr>, sample_q\<lparr>rt_lan_share := b\<rparr>]"
  by (simp add: RouteStore_Load_def file_load_def lan_store_def sample_sorted)

lemma sample_index [simp]:
  "routeRefIndex [sample_p\<lparr>rt_lan_share := a\<rparr>, sample_q\<lparr>rt_lan_share := b\<rparr>] (Ref sample_p) = Some 0"
  "routeRefIndex [sample_p\<lparr>rt_lan_share := a\<rparr>, sample_q\<lparr>rt_lan_share := b\<rparr>] (Ref sample_q) = Some (Suc 0)"
  by (simp_all add: routeRefIndex_def Ref_def)

lemma lan_store_write [simp]:
  "(lan_store a b)\<lparr>fs_file := RoutesFile (sortRoutes [sample_p\<lparr>rt_lan_share := a'\<rparr>, sample_q\<lparr>rt_lan_share := b'\<rparr>])\<rparr> =
     lan_store a' b'"
  by (simp add: lan_store_def sample_sorted)

lemmas lan_store_ops = lan_store_update RequestLANShare_def request_share_update_def sample_requested EffectiveState_def
  RemoveLANShare_def remove_share_update_def ActivateLANShare_def activate_share_update_def SuspendLANShare_def suspend_share_update_def

lemma sample_activation [simp]:
  "check_activation sample_np \<lparr>la_hostname = ''p.local.'', la_interface_index = 2, la_interface_name = ''en'',
     la_address = a, la_prefix = p\<rparr> = Inr (''p.local.'', ip4_string (192, 168, 5, 7), prefix4_string ((192, 168, 5, 0), 24))"
  "check_activation sample_np \<lparr>la_hostname = ''q.local.'', la_interface_index = 2, la_interface_name = ''en'',
     la_address = a, la_prefix = p\<rparr> = Inr (''q.local.'', ip4_string (192, 168, 5, 7), prefix4_string ((192, 168, 5, 0), 24))"
  by (simp_all add: check_activation_def sample_np_def prefix4_contains_def ip4_bits_def trim_space_def trim_def trim_left_def trim_right_def byte_defs)

lemmas lan_ops = no_trust_def validLANShareTransition_def Create_def create_begin_def routeForRef_def newLANManager_def ensureNetworkLocked_def register_with_def
  prepare_calls_Cons Prepare_def prepare_owner_def prepareTrust_def prepare_name_def record_prepared_def
  RegisterLANRoute_def validateCertificateMaterial_def clear_token_def ConfigureLANTrust_def rollbackCreate_def
  lanCertificateNotAfter_def put_key_def delete_key_def RemoveLANRoute_def

lemma sample_fields [simp]:
  "lc_hex sample_cfg = (\<lambda>der. der)" "lc_prepare_trust sample_cfg" "lc_target_reachable sample_cfg r"
  "li_index sample_iface = 2" "li_name sample_iface = ''en''"
  "mt_ca_fingerprint sample_material = ''root''" "ce_leaf (mt_certificate sample_material) = Some 5000"
  "ls_requested_hostname (requested_share name t) = name" "ls_state (requested_share name t) = LANShareRequested"
  by (simp_all add: sample_cfg_def sample_iface_def sample_material_def requested_share_def)

lemmas sample_defs = sample_start_def sample_network_def sample_register_def sample_answers_def sample_change_def
  sample_create_def

lemma sample_one_eval:
  "map_of (lm_registrations (fst sample_one)) (Ref sample_q) = Some \<lparr>lr_id = ''r'', lr_requested = ''q.local.''\<rparr>"
  "map_option lb_ref (sv_routes (snd sample_one) ''q.local.'') = Some (Ref sample_q)"
  by (simp_all add: sample_one_def sample_defs lan_ops lan_store_ops Let_def)

lemma sample_start_reachable: "lan_reachable cfg np sample_start"
  unfolding sample_start_def by (rule lan_start) simp

lemma sample_create_reachable:
  "lan_reachable sample_cfg sample_np st \<Longrightarrow> lan_reachable sample_cfg sample_np (sample_create token name outcome route st)"
  unfolding sample_create_def sample_register_def by (erule lan_next) (rule lan_create)

section \<open>Properties\<close>



lemma activated:
  assumes "ActivateLANShare file_update np rng s ref activation = (Inr (), s')"
    and "normalizeLANHostname (la_hostname activation) = Inr h"
  shows "\<exists>routes route. RouteStore_Load s' = Inr routes \<and> route \<in> set routes \<and> Ref route = ref \<and> activeLANShare route h"
proof -
  from assms obtain address pfx where
    u: "UpdateStore file_update rng s (\<lambda>_. activate_share_update ref h activation address pfx) = (Inr (), s')"
    using res_okD [OF check_activation_shape]
    by (fastforce simp: ActivateLANShare_def split: sum.splits prod.splits)
  then obtain routes after where n: "activate_share_update ref h activation address pfx routes = Inr (after, ())"
    and s': "RouteStore_Load s' = Inr (sortRoutes after)"
    by (auto simp: UpdateStore_def file_update_def RouteStore_Load_def file_load_def res_bind_Inr_iff
        split: sum.splits prod.splits if_splits)
  from n obtain i share where i: "routeRefIndex routes ref = Some i" and
    nx: "after = routes[i := (routes ! i)\<lparr>rt_lan_share := Some (activate_share h activation address pfx share)\<rparr>]"
    by (auto simp: activate_share_update_def split: option.splits if_splits)
  let ?r = "after ! i"
  from assms(2) obtain label where "lan_label label" "h = label @ ''.local.''" using normalizeLANHostname_ok by blast
  then have "normalizeLANHostname h = Inr h" using normalizeLANHostname_label by simp
  then have "?r \<in> set (sortRoutes after) \<and> Ref ?r = ref \<and> activeLANShare ?r h"
    using routeRefIndex_Some [OF i] nx by (auto simp: Ref_def activeLANShare_def activate_share_def set_update_memI)
  with s' show ?thesis by blast
qed

lemma Prepare_failed:
  assumes "Prepare cfg np rng a change (m, sv) = (Inl e, (m', sv'))"
  shows "m' = m \<and> (sv' = sv \<or> (\<exists>material trust sv1.
    prepareTrust cfg (pa_token a) (lm_iface m) (ch_proposed change) material sv = Inr (trust, sv1) \<and>
    bindings_le sv' sv1 \<and> sv_trust sv' = sv_trust (clear_token (tg_token trust) sv1)))"
proof -
  have "\<exists>material trust sv1 ref. (m' = m \<and> sv' = sv) \<or>
     prepareTrust cfg (pa_token a) (lm_iface m) (ch_proposed change) material sv = Inr (trust, sv1) \<and>
       (m' = m \<and> sv' = clear_token (tg_token trust) sv1 \<or>
        prepare_name cfg np rng a ref change (lm_iface m) material trust (m, sv1) = (Inl e, (m', sv')))"
  proof (cases "prepare_owner m change")
    case (Some ref)
    show ?thesis
    proof (cases "pa_issue a")
      case (Inr material)
      show ?thesis
      proof (cases "prepareTrust cfg (pa_token a) (lm_iface m) (ch_proposed change) material sv")
        case (Inl e')
        with Some Inr assms show ?thesis by (auto simp: Prepare_def split: option.splits)
      next
        case t: (Inr ts)
        obtain trust sv1 where "ts = (trust, sv1)" by (cases ts)
        with Some Inr t assms show ?thesis
          unfolding Prepare_def
          by (intro exI [of _ material] exI [of _ trust] exI [of _ sv1] exI [of _ ref]) (auto split: option.splits)
      qed
    qed (use Some assms in \<open>simp add: Prepare_def\<close>)
  qed (use assms in \<open>simp add: Prepare_def\<close>)
  then obtain material trust sv1 ref where "(m' = m \<and> sv' = sv) \<or>
     prepareTrust cfg (pa_token a) (lm_iface m) (ch_proposed change) material sv = Inr (trust, sv1) \<and>
       (m' = m \<and> sv' = clear_token (tg_token trust) sv1 \<or>
        prepare_name cfg np rng a ref change (lm_iface m) material trust (m, sv1) = (Inl e, (m', sv')))" by blast
  then show ?thesis
  proof (elim disjE conjE)
    assume "prepareTrust cfg (pa_token a) (lm_iface m) (ch_proposed change) material sv = Inr (trust, sv1)"
      "m' = m" "sv' = clear_token (tg_token trust) sv1"
    then show ?thesis unfolding bindings_le_def by (metis clear_token_simps(1))
  next
    assume t: "prepareTrust cfg (pa_token a) (lm_iface m) (ch_proposed change) material sv = Inr (trust, sv1)"
      and f: "prepare_name cfg np rng a ref change (lm_iface m) material trust (m, sv1) = (Inl e, (m', sv'))"
    from t prepare_name_failed [OF f] show ?thesis unfolding bindings_le_def by blast
  qed simp
qed

lemma prepared_binding:
  assumes "RegisterLANRoute (lc_hex cfg) (sv_routes sv) ref (ch_proposed change) (mt_certificate material) = Inr routes"
    and "record_prepared cfg ref change material trust (m, sv\<lparr>sv_routes := routes, sv_store := store\<rparr>) = (m', sv')"
  shows "\<exists>h. normalizeLANHostname (ch_proposed change) = Inr h \<and> sv_store sv' = store \<and>
    (map_option (\<lambda>b. (lb_ref b, lb_certificate b)) (sv_routes sv' h) = Some (ref, mt_certificate material) \<or>
     normalizeLANHostname (ch_previous change) = Inr h)"
  using assms(1)
proof (rule RegisterLANRoute_ok)
  fix h assume h: "normalizeLANHostname (ch_proposed change) = Inr h"
    and r: "routes = (sv_routes sv)(h \<mapsto> \<lparr>lb_ref = ref, lb_certificate = mt_certificate material,
       lb_ca_fingerprint = lanCertificateAuthorityFingerprint (lc_hex cfg) (mt_certificate material)\<rparr>)"
  have "sv_routes sv' = routes \<or> sv_routes sv' = RemoveLANHostname routes ref (ch_previous change)"
    and store: "sv_store sv' = store"
    using assms(2) by (auto simp: record_prepared_def Let_def split: if_splits)
  then have "map_option (\<lambda>b. (lb_ref b, lb_certificate b)) (sv_routes sv' h) = Some (ref, mt_certificate material) \<or>
     normalizeLANHostname (ch_previous change) = Inr h"
    using r by (auto simp: RemoveLANHostname_def split: sum.splits option.splits if_splits)
  with h store show ?thesis by blast
qed

text \<open>
  C7. \<open>Prepare\<close> exposes a name completely or not at all. When it fails, the manager is unchanged, no
  binding of the server is new or changed and no trust session is left over. When it succeeds, a
  route owned the registration, the certificate belongs to the authority that was current at all
  three checks, the server answers for the proposed name with this route and certificate (unless the
  previous name is another spelling of the same one), and the stored route has an active share of that name.
\<close>

theorem Prepare_all_or_nothing:
  assumes "pa_token a \<noteq> Some ''''"
  shows "case Prepare cfg np rng a change (m, sv) of
      (Inl e, (m', sv')) \<Rightarrow> m' = m \<and> bindings_le sv' sv \<and> sessions_le sv' sv
    | (Inr u, (m', sv')) \<Rightarrow> (\<exists>ref material h. prepare_owner m change = Some ref \<and> pa_issue a = Inr material \<and>
        list_all (\<lambda>ca. ca = NoSource \<or> ca = SourceFingerprint (mt_ca_fingerprint material)) [pa_ca1 a, pa_ca2 a, pa_ca3 a] \<and>
        normalizeLANHostname (ch_proposed change) = Inr h \<and>
        (map_option (\<lambda>b. (lb_ref b, lb_certificate b)) (sv_routes sv' h) = Some (ref, mt_certificate material) \<or>
         normalizeLANHostname (ch_previous change) = Inr h) \<and>
        (\<exists>routes route. RouteStore_Load (sv_store sv') = Inr routes \<and> route \<in> set routes \<and> Ref route = ref \<and> activeLANShare route h))"
proof (cases "Prepare cfg np rng a change (m, sv)")
  case (fields r m' sv')
  show ?thesis
  proof (cases r)
    case (Inl e)
    with fields have f: "Prepare cfg np rng a change (m, sv) = (Inl e, (m', sv'))" by simp
    have "bindings_le sv' sv \<and> sessions_le sv' sv"
      using Prepare_failed [OF f]
    proof (elim conjE disjE exE)
      fix material trust sv1
      assume t: "prepareTrust cfg (pa_token a) (lm_iface m) (ch_proposed change) material sv = Inr (trust, sv1)"
        and b: "bindings_le sv' sv1" and s: "sv_trust sv' = sv_trust (clear_token (tg_token trust) sv1)"
      from s prepareTrust_sessions [OF t assms] clear_token_sessions have "sessions_le sv' sv"
        unfolding sessions_le_def by metis
      with b prepareTrust_routes [OF t] show ?thesis by (simp add: bindings_le_def)
    qed (simp add: bindings_le_def sessions_le_def)
    with f Prepare_failed [OF f] show ?thesis by simp
  next
    case (Inr u)
    with fields have f: "Prepare cfg np rng a change (m, sv) = (Inr u, (m', sv'))" by simp
    from Prepare_ok [OF f] obtain ref material trust sv1 where
      p: "prepare_owner m change = Some ref" "pa_issue a = Inr material"
        "validateCertificateMaterial (pa_ca1 a) material = None" "validateCertificateMaterial (pa_ca2 a) material = None"
        "prepare_name cfg np rng a ref change (lm_iface m) material trust (m, sv1) = (Inr u, (m', sv'))" by metis
    from prepare_name_ok [OF p(5)] obtain routes store where
      n: "RegisterLANRoute (lc_hex cfg) (sv_routes sv1) ref (ch_proposed change) (mt_certificate material) = Inr routes"
        "validateCertificateMaterial (pa_ca3 a) material = None"
      and act: "ActivateLANShare file_update np rng (sv_store sv1) ref
       \<lparr>la_hostname = ch_proposed change, la_interface_index = (case lm_iface m of None \<Rightarrow> 0 | Some i \<Rightarrow> li_index i),
        la_interface_name = (case lm_iface m of None \<Rightarrow> '''' | Some i \<Rightarrow> li_name i),
        la_address = iface_address (lm_iface m), la_prefix = iface_prefix (lm_iface m)\<rparr> = (Inr (), store)"
      and rec: "record_prepared cfg ref change material trust (m, sv1\<lparr>sv_routes := routes, sv_store := store\<rparr>) = (m', sv')" by metis
    from prepared_binding [OF n(1) rec] obtain h where h: "normalizeLANHostname (ch_proposed change) = Inr h"
      "sv_store sv' = store" "map_option (\<lambda>b. (lb_ref b, lb_certificate b)) (sv_routes sv' h) = Some (ref, mt_certificate material) \<or>
         normalizeLANHostname (ch_previous change) = Inr h" by blast
    from activated [OF act] h(1,2) p n(2) h(3) f show ?thesis
      by (auto simp: validate_None simp del: split_paired_Ex intro!: exI [of _ ref] exI [of _ material] exI [of _ h])
  qed
qed

theorem Prepare_all_or_nothing_witness:
  "\<exists>routes route. RouteStore_Load (sv_store (snd (snd (Prepare sample_cfg sample_np [] (sample_answers ''s'')
       (sample_change ''q.local.'') (snd (create_begin [] 100 sample_network (Ref sample_q) sample_start)))))) = Inr routes \<and>
     route \<in> set routes \<and> Ref route = Ref sample_q \<and> activeLANShare route ''q.local.''"
proof -
  let ?st = "snd (create_begin [] 100 sample_network (Ref sample_q) sample_start)"
  let ?p = "Prepare sample_cfg sample_np [] (sample_answers ''s'') (sample_change ''q.local.'') ?st"
  have "fst ?p = Inr ()" "prepare_owner (fst ?st) (sample_change ''q.local.'') = Some (Ref sample_q)"
    by (simp_all add: sample_defs lan_ops lan_store_ops Let_def)
  then show ?thesis
    using Prepare_all_or_nothing [where a = "sample_answers ''s''" and m = "fst ?st" and sv = "snd ?st" and change = "sample_change ''q.local.''"
        and cfg = sample_cfg and np = sample_np and rng = "[]"]
    by (auto simp: sample_answers_def sample_change_def split: prod.splits)
qed



text \<open>
  When the registration of a second share fails after \<open>Prepare\<close> has made its trust session, the
  roll back forgets the session but does not clear it in the server: the setup link keeps working,
  even after the last share is gone. (With no other share the session is cleared.)
\<close>

theorem failed_create_leaks_session:
  "(case sample_create ''t'' ''p.local.'' (Inl ErrRandom) sample_p sample_one of (m, sv) \<Rightarrow>
      lm_trust m (Ref sample_p) = None \<and> sv_routes sv ''p.local.'' = None \<and> tr_sessions (sv_trust sv) ''t'' \<noteq> None \<and>
      (case snd (Remove [] None None None (Ref sample_q) (m, sv)) of (m', sv') \<Rightarrow>
         lm_registrations m' = [] \<and> tr_sessions (sv_trust sv') ''t'' \<noteq> None)) \<and>
   (case sample_create ''t'' ''p.local.'' (Inl ErrRandom) sample_p sample_start of (m, sv) \<Rightarrow>
      tr_sessions (sv_trust sv) ''t'' = None)"
  by (simp add: sample_one_def sample_defs lan_ops lan_store_ops Let_def Remove_eq forget_ref_simps withdraw_ref_simps
      ClearLANTrust_def drop_network_def)

text \<open>
  When the selected network is gone, a tick of the monitor suspends every share and tries to create
  it again; where that fails for want of a network, \<open>Create\<close> removes the share of the store, and the
  suspension that follows finds nothing: the share is lost and does not come back with the network.
  Only a share whose target is unreachable stays suspended, which is what the test of a lost network
  expects (\<open>TestLANManagerSuspendsAndWithdrawsWhenSelectedNetworkDisappears\<close>, without a target check).
\<close>

definition sample_env :: create_env where
  "sample_env = \<lparr>ce_register = sample_register ''u'' ''q.local.'' (Inr ''r2''), ce_current = (\<lambda>_. []), ce_rng = [], ce_now = 200,
     ce_network = (\<lambda>_. sample_network\<lparr>na_interface := Inl ErrStore\<rparr>), ce_text = (\<lambda>_. ''no network'')\<rparr>"

definition sample_rotation :: rotate_answers where
  "sample_rotation = \<lparr>ra_ca = SourceError, ra_issue = (\<lambda>_. Inl ErrRandom), ra_ca1 = (\<lambda>_. NoSource), ra_token = (\<lambda>_. None),
     ra_ca2 = (\<lambda>_. NoSource)\<rparr>"

definition stored_states :: "lan_state \<Rightarrow> lan_share_state option list" where
  "stored_states st = (case RouteStore_Load (sv_store (snd st)) of
     Inl _ \<Rightarrow> [] | Inr routes \<Rightarrow> map (\<lambda>r. map_option ls_state (rt_lan_share r)) routes)"

theorem lost_network_drops_share:
  "stored_states sample_one = [None, Some LANShareActive] \<and>
   stored_states (reconcileNetwork sample_cfg sample_env sample_rotation False sample_one) = [None, None] \<and>
   stored_states (reconcileNetwork (sample_cfg\<lparr>lc_target_reachable := (\<lambda>_. False)\<rparr>) sample_env sample_rotation False sample_one)
     = [None, Some LANShareSuspended]"
  by (simp add: sample_one_def sample_defs lan_ops lan_store_ops Let_def stored_states_def reconcileNetwork_def
      RecoverVerified_def create_or_suspend_def create_in_def suspend_in_def sample_env_def forget_shares_def drop_network_def
      activate_share_def)

end
