(* ===== verification/Lifecycle.thy ===== *)
theory Lifecycle
  imports Reservations "HOL-Library.Word"
begin

text \<open>
  The life of the routes and of the processes behind them, \<open>internal/lifecycle/lifecycle.go\<close>:
  the status of a route, whether a process is still the one that registered it, and the commands
  \<open>prune\<close> and \<open>stop\<close> on a store.

  What the operating system answers is the record \<open>proc_env\<close>: signals, files, commands, the probe of a
  target (\<open>probe.TargetStatus\<close>), \<open>filepath.Abs\<close>, and the formats of times and of CSV records. A loop over
  routes asks it again for every route, so \<open>prune\<close> and \<open>stop\<close> take one environment per route. They load the
  routes first and update the store later; other processes may act in between, so they take the
  store twice.
\<close>

section \<open>The operating system\<close>

datatype route_status_kind = RouteStatusStarting | RouteStatusReady | RouteStatusDead | RouteStatusUnknown

record wsl_metadata =
  wm_instance :: string
  wm_distro :: string
  wm_linux_user :: string

record proc_env =
  pv_goos :: string
  pv_wsl :: bool
  pv_metadata :: "wsl_metadata option"
  pv_signal :: "int \<Rightarrow> bool"
  pv_read :: "string \<Rightarrow> string option"
  pv_command :: "string list \<Rightarrow> string option"
  pv_probe :: "string \<Rightarrow> route_status_kind"
  pv_abs :: "string \<Rightarrow> string option"
  pv_csv :: "string \<Rightarrow> string list list"
  pv_format :: "string \<Rightarrow> time \<Rightarrow> string"
  pv_parse_time :: "string \<Rightarrow> string \<Rightarrow> time option"

definition rfc3339 :: string where "rfc3339 = ''2006-01-02T15:04:05Z07:00''"
definition rfc3339_nano :: string where "rfc3339_nano = ''2006-01-02T15:04:05.999999999Z07:00''"
definition ps_lstart :: string where "ps_lstart = ''Mon Jan _2 15:04:05 2006''"

text \<open>\<open>strings.LastIndex\<close>, \<open>None\<close> for \<open>-1\<close>; \<open>strconv.ParseUint\<close> and \<open>ParseInt\<close> of 64 bits in base 10.\<close>

fun last_index :: "string \<Rightarrow> string \<Rightarrow> nat option" where
  "last_index p [] = (if p = [] then Some 0 else None)"
| "last_index p (c # s) =
     (case last_index p s of Some i \<Rightarrow> Some (Suc i) | None \<Rightarrow> if prefix p (c # s) then Some 0 else None)"

definition parse_uint64 :: "string \<Rightarrow> nat option" where
  "parse_uint64 s =
     (if s = [] \<or> \<not> list_all is_digit s then None
      else if digits_val s < 2 ^ 64 then Some (nat (digits_val s)) else None)"

definition unix_time :: "int \<Rightarrow> time" where
  "unix_time seconds = (62135596800 + seconds) * second"

section \<open>Processes\<close>

definition tasklistContainsPID :: "proc_env \<Rightarrow> string \<Rightarrow> int \<Rightarrow> bool" where
  "tasklistContainsPID pv output pid =
     list_ex (list_ex (\<lambda>field. atoi (trim_space field) = Some pid)) (pv_csv pv output)"

definition windowsPIDAlive :: "proc_env \<Rightarrow> int \<Rightarrow> bool" where
  "windowsPIDAlive pv pid =
     (case pv_command pv [''tasklist'', ''/FI'', ''PID eq '' @ itoa pid, ''/FO'', ''CSV'', ''/NH''] of
        None \<Rightarrow> False
      | Some output \<Rightarrow> tasklistContainsPID pv output pid)"

definition PIDAlive :: "proc_env \<Rightarrow> int \<Rightarrow> bool" where
  "PIDAlive pv pid =
     (if pid \<le> 0 then False
      else if pv_goos pv = ''windows'' then windowsPIDAlive pv pid
      else pv_signal pv pid)"

definition linuxProcessStartTicks :: "proc_env \<Rightarrow> int \<Rightarrow> nat option" where
  "linuxProcessStartTicks pv pid =
     (case pv_read pv (''/proc/'' @ itoa pid @ ''/stat'') of
        None \<Rightarrow> None
      | Some stat \<Rightarrow>
          (case last_index '') '' stat of
             None \<Rightarrow> None
           | Some idx \<Rightarrow>
               (let fs = Go_Base.fields (drop (idx + 2) stat)
                in if length fs \<le> 19 then None else parse_uint64 (fs ! 19))))"

text \<open>The first line with the prefix decides.\<close>

definition LinuxBootTime :: "proc_env \<Rightarrow> time option" where
  "LinuxBootTime pv =
     (case pv_read pv ''/proc/stat'' of
        None \<Rightarrow> None
      | Some content \<Rightarrow>
          (case filter (\<lambda>line. has_prefix line ''btime '') (split_on (CHR 0x0A) content) of
             [] \<Rightarrow> None
           | line # _ \<Rightarrow> map_option unix_time (atoi (trim_space (trim_prefix line ''btime '')))))"

definition linuxClockTicks :: "proc_env \<Rightarrow> int" where
  "linuxClockTicks pv =
     (case pv_command pv [''getconf'', ''CLK_TCK''] of
        None \<Rightarrow> 100
      | Some output \<Rightarrow> (case atoi (trim_space output) of None \<Rightarrow> 100 | Some ticks \<Rightarrow> if ticks \<le> 0 then 100 else ticks))"

definition parseWindowsProcessStartTime :: "proc_env \<Rightarrow> string \<Rightarrow> time option" where
  "parseWindowsProcessStartTime pv output =
     (let output = trim_space output in if output = '''' then None else pv_parse_time pv rfc3339_nano output)"

definition windowsProcessStartTime :: "proc_env \<Rightarrow> int \<Rightarrow> time option" where
  "windowsProcessStartTime pv pid =
     (case pv_command pv [''powershell.exe'', ''-NoProfile'', ''-Command'',
             ''$p = Get-Process -Id '' @ itoa pid @ '' -ErrorAction Stop; $p.StartTime.ToUniversalTime().ToString(\"o\")''] of
        None \<Rightarrow> None
      | Some output \<Rightarrow> parseWindowsProcessStartTime pv output)"

definition parseDarwinProcessStartTime :: "proc_env \<Rightarrow> string \<Rightarrow> time option" where
  "parseDarwinProcessStartTime pv output =
     (let output = trim_space output in if output = '''' then None else pv_parse_time pv ps_lstart output)"

definition darwinProcessStartTime :: "proc_env \<Rightarrow> int \<Rightarrow> time option" where
  "darwinProcessStartTime pv pid =
     (case pv_command pv [''ps'', ''-o'', ''lstart='', ''-p'', itoa pid] of
        None \<Rightarrow> None
      | Some output \<Rightarrow> parseDarwinProcessStartTime pv output)"

definition realProcessIdentity :: "proc_env \<Rightarrow> int \<Rightarrow> string option" where
  "realProcessIdentity pv pid =
     (if pid \<le> 0 then None
      else if pv_goos pv = ''linux'' then
        map_option (\<lambda>ticks. ''linux:'' @ nat_digits ticks) (linuxProcessStartTicks pv pid)
      else if pv_goos pv = ''windows'' then
        map_option (\<lambda>startedAt. ''windows:'' @ pv_format pv rfc3339_nano startedAt) (windowsProcessStartTime pv pid)
      else if pv_goos pv = ''darwin'' then
        map_option (\<lambda>startedAt. ''darwin:'' @ pv_format pv rfc3339_nano startedAt) (darwinProcessStartTime pv pid)
      else None)"

text \<open>
  \<open>time.Duration(ticks) * time.Second / time.Duration(hz)\<close>: the product is an \<open>int64\<close> and wraps
  around, the division truncates.
\<close>

definition ticks_duration :: "nat \<Rightarrow> int \<Rightarrow> duration" where
  "ticks_duration ticks hz =
     (let product = sint ((of_nat ticks :: 64 word) * 1000000000)
      in sgn product * (\<bar>product\<bar> div hz))"

definition realProcessStartTime :: "proc_env \<Rightarrow> int \<Rightarrow> time option" where
  "realProcessStartTime pv pid =
     (if pid \<le> 0 then None
      else if pv_goos pv = ''windows'' then windowsProcessStartTime pv pid
      else if pv_goos pv = ''darwin'' then darwinProcessStartTime pv pid
      else if pv_goos pv \<noteq> ''linux'' then None
      else (case linuxProcessStartTicks pv pid of
              None \<Rightarrow> None
            | Some ticks \<Rightarrow>
                (case LinuxBootTime pv of
                   None \<Rightarrow> None
                 | Some bootTime \<Rightarrow> Some (bootTime + ticks_duration ticks (linuxClockTicks pv)))))"

text \<open>The process of a route is the one that registered it.\<close>

definition RouteProcessVerified :: "proc_env \<Rightarrow> route \<Rightarrow> bool" where
  "RouteProcessVerified pv r =
     (if rt_pid r \<le> 0 then False
      else if rt_process_identity r \<noteq> '''' then realProcessIdentity pv (rt_pid r) = Some (rt_process_identity r)
      else if is_zero_time (rt_started_at r) then False
      else (case realProcessStartTime pv (rt_pid r) of
              None \<Rightarrow> False
            | Some startedAt \<Rightarrow> \<not> startedAt > rt_started_at r))"

section \<open>The status of a route\<close>

definition currentOwnerEnv :: "proc_env \<Rightarrow> string" where
  "currentOwnerEnv pv = (if pv_wsl pv then ''wsl'' else pv_goos pv)"

definition routeOwnerEnv :: "route \<Rightarrow> string" where
  "routeOwnerEnv r =
     (if rt_owner_env r \<noteq> '''' then rt_owner_env r else if rt_source r = ''wsl'' then ''wsl'' else '''')"

definition routePIDIsLocal :: "proc_env \<Rightarrow> route \<Rightarrow> bool" where
  "routePIDIsLocal pv r \<longleftrightarrow> routeOwnerEnv r = '''' \<or> routeOwnerEnv r = currentOwnerEnv pv"

definition classifyRoute :: "proc_env \<Rightarrow> time \<Rightarrow> route \<Rightarrow> route_status_kind" where
  "classifyRoute pv now r =
     (if EffectiveState r = RouteStatePending then RouteStatusStarting
      else if rt_pid r > 0 \<and> routePIDIsLocal pv r \<and> \<not> PIDAlive pv (rt_pid r) then RouteStatusDead
      else (let status = pv_probe pv (rt_target r)
            in if RouteLeaseExpired r now \<and> status \<noteq> RouteStatusDead then RouteStatusUnknown else status))"

definition route_status_of :: "proc_env \<Rightarrow> time \<Rightarrow> bool \<Rightarrow> route \<Rightarrow> route_status_kind" where
  "route_status_of pv now routerReady r =
     (if EffectiveState r = RouteStatePending then RouteStatusStarting
      else if \<not> routerReady then RouteStatusUnknown
      else classifyRoute pv now r)"

definition RouteStatusesWithRouterReady ::
  "(route \<Rightarrow> proc_env) \<Rightarrow> time \<Rightarrow> route list \<Rightarrow> bool \<Rightarrow> (route \<times> route_status_kind) list" where
  "RouteStatusesWithRouterReady env now routes routerReady =
     map (\<lambda>r. (r, route_status_of (env r) now routerReady r)) routes"

definition UnverifiedProcessWarning :: "int \<Rightarrow> string" where
  "UnverifiedProcessWarning pid =
     (if pid \<le> 0 then ''Could not verify the original gohere process. Not stopping PID.''
      else ''Could not verify the original gohere process. Not stopping PID '' @ itoa pid @ ''.'')"

definition RouteStopInfo :: "proc_env \<Rightarrow> route \<Rightarrow> route_status_kind \<Rightarrow> bool \<times> string" where
  "RouteStopInfo pv r status =
     (if routeOwnerEnv r \<noteq> '''' \<and> routeOwnerEnv r \<noteq> currentOwnerEnv pv
      then (False, ''route belongs to another environment'')
      else if status = RouteStatusDead \<or> \<not> PIDAlive pv (rt_pid r) then (True, '''')
      else if RouteProcessVerified pv r then (True, '''')
      else (False, UnverifiedProcessWarning (rt_pid r)))"

section \<open>Removing routes\<close>

text \<open>
  A route is marked for removal by its reference, or, for a route without an identity, by a key of
  its fields. The update removes what is marked and nothing else.
\<close>

definition NUL :: char where "NUL = CHR 0x00"

definition routeUpdateKey :: "proc_env \<Rightarrow> route \<Rightarrow> string" where
  "routeUpdateKey pv r =
     rt_host r @ [NUL] @ rt_target r @ [NUL] @ itoa (rt_pid r) @ [NUL] @ rt_process_identity r @ [NUL]
       @ pv_format pv rfc3339_nano (rt_started_at r)"

type_synonym marks = "route_ref list \<times> string list"

definition markRouteRemoval :: "proc_env \<Rightarrow> route \<Rightarrow> marks \<Rightarrow> marks" where
  "markRouteRemoval pv r = (\<lambda>(refs, legacy).
     if has_identity r then (Ref r # refs, legacy) else (refs, routeUpdateKey pv r # legacy))"

definition marked :: "proc_env \<Rightarrow> marks \<Rightarrow> route \<Rightarrow> bool" where
  "marked pv = (\<lambda>(refs, legacy) r. Ref r \<in> set refs \<or> (legacy \<noteq> [] \<and> routeUpdateKey pv r \<in> set legacy))"

definition remove_marked :: "proc_env \<Rightarrow> marks \<Rightarrow> int update" where
  "remove_marked pv marks routes =
     Inr (filter (\<lambda>r. \<not> marked pv marks r) routes, int (length (filter (marked pv marks) routes)))"

definition prunable :: "proc_env \<Rightarrow> time \<Rightarrow> bool \<Rightarrow> route \<Rightarrow> bool" where
  "prunable pv now routerReady r =
     (let status = (if routerReady then classifyRoute pv now r else RouteStatusUnknown);
          expiredReservation = RouteReservationExpired r now;
          expiredLease = (EffectiveState r = RouteStateActive \<and> \<not> is_zero_time (rt_lease_expires_at r) \<and> RouteLeaseExpired r now)
      in status = RouteStatusDead \<or> expiredReservation \<or> expiredLease)"

definition prune_marks :: "(route \<Rightarrow> proc_env) \<Rightarrow> time \<Rightarrow> bool \<Rightarrow> route list \<Rightarrow> marks" where
  "prune_marks env now routerReady routes =
     fold (\<lambda>r marks. if prunable (env r) now routerReady r then markRouteRemoval (env r) r marks else marks) routes ([], [])"

text \<open>\<open>s\<close> is the store at the load, \<open>s'\<close> the store at the update.\<close>

definition PruneWithRouterReady ::
  "('s \<Rightarrow> (router_error, route list) result) \<Rightarrow> ('s, int) store_op \<Rightarrow> proc_env \<Rightarrow> (route \<Rightarrow> proc_env) \<Rightarrow> time \<Rightarrow> bool
     \<Rightarrow> rng \<Rightarrow> 's \<Rightarrow> 's \<Rightarrow> (router_error, int) result \<times> 's" where
  "PruneWithRouterReady load update pv env now routerReady rng s s' =
     (case load s of
        Inl e \<Rightarrow> (Inl e, s')
      | Inr routes \<Rightarrow>
          (let marks = prune_marks env now routerReady routes
           in if marks = ([], []) then (Inr 0, s')
              else UpdateStore update rng s' (\<lambda>_. remove_marked pv marks)))"

section \<open>Stopping the routes of a directory\<close>

record stop_result =
  sp_hosts :: "string list"
  sp_matched_host :: string
  sp_stopped :: bool
  sp_warning :: string
  sp_skipped :: "(string \<times> string) list"

definition no_stop :: stop_result where
  "no_stop = \<lparr>sp_hosts = [], sp_matched_host = '''', sp_stopped = False, sp_warning = '''', sp_skipped = []\<rparr>"

definition routeMatchesCWD :: "proc_env \<Rightarrow> route \<Rightarrow> string \<Rightarrow> bool" where
  "routeMatchesCWD pv r absCWD \<longleftrightarrow>
     list_ex (\<lambda>cwd. cwd \<noteq> '''' \<and> pv_abs pv cwd = Some absCWD) [rt_owner_cwd r, rt_cwd r]"

text \<open>\<open>filepath.Abs\<close> fails with the one error of the working directory.\<close>

definition AbsCWDSet :: "proc_env \<Rightarrow> string list \<Rightarrow> (router_error, string list) result" where
  "AbsCWDSet pv cwds =
     res_map (\<lambda>cwd. case pv_abs pv cwd of None \<Rightarrow> Inl (ErrMessage ''getwd'') | Some absCWD \<Rightarrow> Inr absCWD)
       (filter (\<lambda>cwd. cwd \<noteq> '''') cwds)"

definition RouteMatchesAnyCWD :: "proc_env \<Rightarrow> route \<Rightarrow> string list \<Rightarrow> bool" where
  "RouteMatchesAnyCWD pv r absCWDs = list_ex (routeMatchesCWD pv r) absCWDs"

text \<open>The state of the loop: the result, what is marked, and the processes stopped so far, latest first.\<close>

type_synonym stop_state = "stop_result \<times> marks \<times> int list"

definition stop_cwd_route :: "(route \<Rightarrow> proc_env) \<Rightarrow> string list \<Rightarrow> route \<Rightarrow> stop_state \<Rightarrow> stop_state" where
  "stop_cwd_route env absCWDs r = (\<lambda>(result, marks, killed).
     let pv = env r in
     if \<not> RouteMatchesAnyCWD pv r absCWDs then (result, marks, killed)
     else (let result = result\<lparr>sp_matched_host := rt_host r\<rparr> in
           if \<not> PIDAlive pv (rt_pid r) \<or> pv_probe pv (rt_target r) = RouteStatusDead
           then (result\<lparr>sp_hosts := sp_hosts result @ [rt_host r]\<rparr>, markRouteRemoval pv r marks, killed)
           else if RouteProcessVerified pv r
           then (result\<lparr>sp_hosts := sp_hosts result @ [rt_host r], sp_stopped := True\<rparr>, markRouteRemoval pv r marks, rt_pid r # killed)
           else (result\<lparr>sp_warning := (if sp_warning result = '''' then UnverifiedProcessWarning (rt_pid r) else sp_warning result)\<rparr>,
                 marks, killed)))"

text \<open>The result of the call with the error of the update if it failed, the stopped processes and the store.\<close>

definition remove_after_stop ::
  "('s, int) store_op \<Rightarrow> proc_env \<Rightarrow> rng \<Rightarrow> 's \<Rightarrow> stop_state \<Rightarrow> router_error option \<times> stop_result \<times> int list \<times> 's" where
  "remove_after_stop update pv rng s' = (\<lambda>(result, marks, killed).
     if marks = ([], []) then (None, result, killed, s')
     else (case UpdateStore update rng s' (\<lambda>_. remove_marked pv marks) of
             (Inl e, s'') \<Rightarrow> (Some e, result, killed, s'')
           | (Inr _, s'') \<Rightarrow> (None, result, killed, s'')))"

definition StopCWDs ::
  "('s \<Rightarrow> (router_error, route list) result) \<Rightarrow> ('s, int) store_op \<Rightarrow> proc_env \<Rightarrow> (route \<Rightarrow> proc_env) \<Rightarrow> rng \<Rightarrow> 's \<Rightarrow> 's
     \<Rightarrow> string list \<Rightarrow> router_error option \<times> stop_result \<times> int list \<times> 's" where
  "StopCWDs load update pv env rng s s' cwds =
     (case load s of
        Inl e \<Rightarrow> (Some e, no_stop, [], s')
      | Inr routes \<Rightarrow>
          (case AbsCWDSet pv cwds of
             Inl e \<Rightarrow> (Some e, no_stop, [], s')
           | Inr absCWDs \<Rightarrow>
               remove_after_stop update pv rng s' (fold (stop_cwd_route env absCWDs) routes (no_stop, ([], []), []))))"

section \<open>Lemmas\<close>

lemma marked_mark:
  "marked pv (markRouteRemoval pv' r marks) x \<longleftrightarrow>
     marked pv marks x \<or> (if has_identity r then Ref x = Ref r else routeUpdateKey pv x = routeUpdateKey pv' r)"
  by (cases marks) (auto simp: marked_def markRouteRemoval_def)

lemma marked_none [simp]: "\<not> marked pv ([], []) x"
  by (simp add: marked_def)

lemma mark_not_none [simp]: "markRouteRemoval pv r marks \<noteq> ([], [])"
  by (cases marks) (simp add: markRouteRemoval_def)

text \<open>A route stands for another one where the removal is concerned: same reference or same key.\<close>

definition same_mark :: "proc_env \<Rightarrow> route \<Rightarrow> route \<Rightarrow> bool" where
  "same_mark pv r x \<longleftrightarrow> (if has_identity r then Ref x = Ref r else routeUpdateKey pv x = routeUpdateKey pv r)"

text \<open>Every environment formats times alike.\<close>

definition same_format :: "(route \<Rightarrow> proc_env) \<Rightarrow> proc_env \<Rightarrow> bool" where
  "same_format env pv \<longleftrightarrow> (\<forall>r. pv_format (env r) = pv_format pv)"

lemma same_format_key: "same_format env pv \<Longrightarrow> routeUpdateKey (env r) x = routeUpdateKey pv x"
  by (simp add: same_format_def routeUpdateKey_def)

lemma marked_fold:
  assumes "same_format env pv"
  shows "marked pv (fold (\<lambda>r marks. if P r then markRouteRemoval (env r) r marks else marks) routes marks) x \<longleftrightarrow>
    marked pv marks x \<or> (\<exists>r \<in> set routes. P r \<and> same_mark pv r x)"
  by (induction routes arbitrary: marks) (auto simp: marked_mark same_mark_def same_format_key [OF assms])

lemma marks_none_fold:
  "fold (\<lambda>r marks. if P r then markRouteRemoval (env r) r marks else marks) routes marks = ([], []) \<longleftrightarrow>
     marks = ([], []) \<and> list_all (\<lambda>r. \<not> P r) routes"
  by (induction routes arbitrary: marks) auto

lemma prunable_pending: "EffectiveState r = RouteStatePending \<Longrightarrow> prunable pv now ready r \<longleftrightarrow> RouteReservationExpired r now"
  by (simp add: prunable_def classifyRoute_def)

text \<open>What a removal leaves: the routes of the store, in order, less those that are marked.\<close>


text \<open>
  What a removal does to a store that keeps its promises: the routes it holds at the update get their
  identities, those that are marked go, the others stay in their order.
\<close>

locale removal_store = route_store load update
  for load :: "'s \<Rightarrow> (router_error, route list) result" and update :: "('s, int) store_op"
begin

lemma removed:
  assumes "UpdateStore update rng s (\<lambda>_. remove_marked pv marks) = (Inr n, s')"
  obtains stored routes rng' where "load s = Inr stored" "withIdentities rng stored = Inr (routes, rng')"
    "load s' = Inr (filter (\<lambda>r. \<not> marked pv marks r) routes)" "n = int (length (filter (marked pv marks) routes))"
proof -
  from ok_obtains [OF assms] obtain stored routes rng' after where
    w: "load s = Inr stored" "withIdentities rng stored = Inr (routes, rng')"
    and m: "remove_marked pv marks routes = Inr (after, n)" and l: "load s' = Inr (sortRoutes after)"
    and st: "sorted (map route_key stored)" by metis
  have "map route_key routes = map route_key stored"
  proof -
    have key: "route_key = (\<lambda>h. (to_lower h, h)) \<circ> rt_host" by (simp add: fun_eq_iff route_key_def)
    show ?thesis unfolding key map_map [symmetric] withIdentities_hosts [OF w(2)] ..
  qed
  with st have "sortRoutes (filter P routes) = filter P routes" for P
    unfolding sortRoutes_def by (intro sort_key_sorted_id sorted_filter) simp
  with m l that [OF w] show thesis by (auto simp: remove_marked_def)
qed

lemma prune_ok:
  assumes "PruneWithRouterReady load0 update pv env now ready rng s0 s = (Inr n, s')" "same_format env pv"
  obtains seen where "load0 s0 = Inr seen" "s' = s" "n = 0" "list_all (\<lambda>r. \<not> prunable (env r) now ready r) seen"
  | seen stored routes rng' where "load0 s0 = Inr seen" "load s = Inr stored" "withIdentities rng stored = Inr (routes, rng')"
    "load s' = Inr (filter (\<lambda>x. \<not> (\<exists>r \<in> set seen. prunable (env r) now ready r \<and> same_mark pv r x)) routes)"
    "n = int (length (filter (\<lambda>x. \<exists>r \<in> set seen. prunable (env r) now ready r \<and> same_mark pv r x) routes))"
proof -
  from assms(1) obtain seen where seen: "load0 s0 = Inr seen" by (auto simp: PruneWithRouterReady_def split: sum.splits)
  let ?m = "prune_marks env now ready seen"
  have m: "marked pv ?m x \<longleftrightarrow> (\<exists>r \<in> set seen. prunable (env r) now ready r \<and> same_mark pv r x)" for x
    unfolding prune_marks_def marked_fold [OF assms(2)] by simp
  show thesis
  proof (cases "?m = ([], [])")
    case True
    with assms(1) seen that(1) show thesis
      by (simp add: PruneWithRouterReady_def prune_marks_def marks_none_fold)
  next
    case False
    with assms(1) seen have "UpdateStore update rng s (\<lambda>_. remove_marked pv ?m) = (Inr n, s')"
      by (simp add: PruneWithRouterReady_def Let_def)
    from removed [OF this, unfolded m] that(2) [OF seen] show thesis by blast
  qed
qed

end

interpretation mem_removal: removal_store memory_load memory_update
  by (rule removal_store.intro) (rule memstore.route_store_axioms)

interpretation file_removal: removal_store file_load file_update
  by (rule removal_store.intro) (rule filestore.route_store_axioms)

subsection \<open>Stopping\<close>

text \<open>Why a route may be stopped: it matches and its process is gone or verified.\<close>

definition stoppable :: "proc_env \<Rightarrow> string list \<Rightarrow> route \<Rightarrow> bool" where
  "stoppable pv absCWDs r \<longleftrightarrow> RouteMatchesAnyCWD pv r absCWDs \<and>
     (\<not> PIDAlive pv (rt_pid r) \<or> pv_probe pv (rt_target r) = RouteStatusDead \<or> RouteProcessVerified pv r)"

definition kill_target :: "proc_env \<Rightarrow> string list \<Rightarrow> route \<Rightarrow> bool" where
  "kill_target pv absCWDs r \<longleftrightarrow> RouteMatchesAnyCWD pv r absCWDs \<and> PIDAlive pv (rt_pid r) \<and>
     pv_probe pv (rt_target r) \<noteq> RouteStatusDead \<and> RouteProcessVerified pv r"

lemma stop_cwd_step:
  "snd (snd (stop_cwd_route env absCWDs r st)) =
     (if kill_target (env r) absCWDs r then rt_pid r # snd (snd st) else snd (snd st))"
  "fst (snd (stop_cwd_route env absCWDs r st)) =
     (if stoppable (env r) absCWDs r then markRouteRemoval (env r) r (fst (snd st)) else fst (snd st))"
  "sp_hosts (fst (stop_cwd_route env absCWDs r st)) =
     (if stoppable (env r) absCWDs r then sp_hosts (fst st) @ [rt_host r] else sp_hosts (fst st))"
  by (cases st; simp add: stop_cwd_route_def kill_target_def stoppable_def Let_def)+

lemma stop_cwd_parts:
  "snd (snd (fold (stop_cwd_route env absCWDs) routes st)) =
     rev (map rt_pid (filter (\<lambda>r. kill_target (env r) absCWDs r) routes)) @ snd (snd st)"
  "fst (snd (fold (stop_cwd_route env absCWDs) routes st)) =
     fold (\<lambda>r marks. if stoppable (env r) absCWDs r then markRouteRemoval (env r) r marks else marks) routes (fst (snd st))"
  "sp_hosts (fst (fold (stop_cwd_route env absCWDs) routes st)) =
     sp_hosts (fst st) @ map rt_host (filter (\<lambda>r. stoppable (env r) absCWDs r) routes)"
  by (induction routes arbitrary: st) (simp_all add: stop_cwd_step)

section \<open>Properties\<close>

lemma not_pending_ref: "has_identity r \<Longrightarrow> list_all has_identity routes \<Longrightarrow> distinct (map Ref routes) \<Longrightarrow> r \<in> set routes \<Longrightarrow>
    x \<in> set routes \<Longrightarrow> same_mark pv r x \<longleftrightarrow> x = r"
  by (auto simp: same_mark_def distinct_map inj_on_def)

text \<open>
  C32. \<open>prune\<close> on a table with unique references that nobody else changes returns, removes exactly
  the routes whose process or target is gone, whose reservation or whose lease has run out, keeps the
  others in their order and reports how many it removed. A starting route is never taken for dead.
\<close>

theorem Prune_removes_dead_routes:
  assumes "file_load s = Inr routes" "list_all has_identity routes" "distinct (map Ref routes)" "fs_lock_ok s" "fs_write_ok s"
    and "same_format env pv"
  shows "case PruneWithRouterReady file_load file_update pv env now ready rng s s of (r, s') \<Rightarrow>
    r = Inr (int (length (filter (\<lambda>r. prunable (env r) now ready r) routes))) \<and>
    file_load s' = Inr (filter (\<lambda>r. \<not> prunable (env r) now ready r) routes)"
proof -
  let ?P = "\<lambda>r. prunable (env r) now ready r"
  let ?call = "PruneWithRouterReady file_load file_update pv env now ready rng s s"
  have mark: "(\<exists>r \<in> set routes. ?P r \<and> same_mark pv r x) \<longleftrightarrow> ?P x" if "x \<in> set routes" for x
    using not_pending_ref [OF _ assms(2,3) _ that] assms(2) that by (metis list_all_iff)
  have "\<not> isl (fst ?call)"
    using assms by (auto simp: PruneWithRouterReady_def UpdateStore_def file_update_def remove_marked_def withIdentities_id Let_def)
  then obtain n s' where c: "?call = (Inr n, s')" by (cases ?call) (metis fst_conv isl_def sum.exhaust_sel)
  from file_removal.prune_ok [OF c assms(6)] show ?thesis
  proof cases
    case (1 seen)
    with assms(1) have "filter ?P routes = [] \<and> filter (\<lambda>r. \<not> ?P r) routes = routes"
      by (auto simp: list_all_iff filter_empty_conv)
    with 1 c assms(1) show ?thesis by simp
  next
    case (2 seen stored routes' rng')
    with assms(1,2) have "seen = routes" "routes' = routes" by (simp_all add: withIdentities_id)
    moreover have "filter (\<lambda>x. \<exists>r \<in> set routes. ?P r \<and> same_mark pv r x) routes = filter ?P routes"
      "filter (\<lambda>x. \<not> (\<exists>r \<in> set routes. ?P r \<and> same_mark pv r x)) routes = filter (\<lambda>r. \<not> ?P r) routes"
      using mark by (auto intro!: filter_cong)
    ultimately show ?thesis using 2(4,5) c by simp
  qed
qed

text \<open>
  C8. \<open>stop\<close> in a directory signals only processes that are alive, belong to a route of the directory and
  are still the ones that registered it, and it removes only routes of the directory that are dead or
  were stopped like this; when the store cannot be updated, nothing is removed.
\<close>

theorem StopCWDs_only_verified:
  assumes "StopCWDs RouteStore_Load file_update pv env rng s s' cwds = (err, result, killed, s'')"
    and "same_format env pv" "file_load s' = Inr stored"
  shows "case RouteStore_Load s of
      Inl _ \<Rightarrow> killed = [] \<and> s'' = s'
    | Inr seen \<Rightarrow> (\<exists>absCWDs routes rng'.
        list_all (\<lambda>pid. \<exists>r \<in> set seen. rt_pid r = pid \<and> RouteMatchesAnyCWD (env r) r absCWDs \<and> PIDAlive (env r) pid \<and>
          RouteProcessVerified (env r) r) killed \<and>
        (s'' = s' \<or> withIdentities rng stored = Inr (routes, rng') \<and> err = None \<and>
          file_load s'' = Inr (filter (\<lambda>x. list_all (\<lambda>r. \<not> (stoppable (env r) absCWDs r \<and> same_mark pv r x)) seen) routes)))"
proof (cases "\<exists>seen absCWDs. RouteStore_Load s = Inr seen \<and> AbsCWDSet pv cwds = Inr absCWDs")
  case False
  with assms(1) have "killed = []" "s'' = s'" by (auto simp: StopCWDs_def split: sum.splits)
  then show ?thesis by (simp split: sum.split)
next
  case True
  then obtain seen absCWDs where seen: "RouteStore_Load s = Inr seen" and cw: "AbsCWDSet pv cwds = Inr absCWDs" by blast
  let ?st = "fold (stop_cwd_route env absCWDs) seen (no_stop, ([], []), [])"
  obtain res marks kl where st: "?st = (res, marks, kl)" by (cases ?st)
  from assms(1) seen cw have rem: "remove_after_stop file_update pv rng s' (res, marks, kl) = (err, result, killed, s'')"
    by (simp add: StopCWDs_def st)
  then have "killed = kl" by (auto simp: remove_after_stop_def split: if_splits prod.splits sum.splits)
  then have "killed = rev (map rt_pid (filter (\<lambda>r. kill_target (env r) absCWDs r) seen))"
    using stop_cwd_parts(1) [of env absCWDs seen "(no_stop, ([], []), [])"] st by simp
  then have k: "list_all (\<lambda>pid. \<exists>r \<in> set seen. rt_pid r = pid \<and> RouteMatchesAnyCWD (env r) r absCWDs \<and> PIDAlive (env r) pid \<and>
      RouteProcessVerified (env r) r) killed"
    by (auto simp: list_all_iff kill_target_def)
  have m: "marked pv marks x \<longleftrightarrow> \<not> list_all (\<lambda>r. \<not> (stoppable (env r) absCWDs r \<and> same_mark pv r x)) seen" for x
    using stop_cwd_parts(2) [of env absCWDs seen "(no_stop, ([], []), [])"] st marked_fold [OF assms(2)]
    by (auto simp: list_all_iff)
  show ?thesis
  proof (cases "s'' = s'")
    case True
    with k seen show ?thesis by auto
  next
    case False
    with rem obtain n where u: "UpdateStore file_update rng s' (\<lambda>_. remove_marked pv marks) = (Inr n, s'')" and "err = None"
      using filestore.Update_error_unchanged [of rng s' "\<lambda>_. remove_marked pv marks"]
      by (auto simp: remove_after_stop_def split: if_splits prod.splits sum.splits)
    from file_removal.removed [OF u] obtain stored' routes rng' where "file_load s' = Inr stored'"
      "withIdentities rng stored' = Inr (routes, rng')" "file_load s'' = Inr (filter (\<lambda>r. \<not> marked pv marks r) routes)" by metis
    with k seen \<open>err = None\<close> assms(3) show ?thesis unfolding m not_not by auto
  qed
qed

definition calm_env :: proc_env where
  "calm_env = \<lparr>pv_goos = ''linux'', pv_wsl = False, pv_metadata = None, pv_signal = (\<lambda>pid. pid = 7), pv_read = (\<lambda>_. None),
     pv_command = (\<lambda>_. None), pv_probe = (\<lambda>_. RouteStatusReady), pv_abs = (\<lambda>p. Some p), pv_csv = (\<lambda>_. []),
     pv_format = (\<lambda>_ _. []), pv_parse_time = (\<lambda>_ _. None)\<rparr>"

definition leased_route :: "time \<Rightarrow> route" where
  "leased_route expires = zero_route\<lparr>rt_id := ''a'', rt_generation := 2, rt_run_id := ''run'', rt_state := RouteStateActive,
     rt_host := ''p.localhost'', rt_pid := 7, rt_cwd := ''/w'', rt_lease_expires_at := expires\<rparr>"

definition leased_store :: "time \<Rightarrow> file_store" where
  "leased_store expires = \<lparr>fs_file = RoutesFile [leased_route expires], fs_lock_ok = True, fs_write_ok = True\<rparr>"

lemma leased_simps [simp]:
  "file_load (leased_store t) = Inr [leased_route t]" "fs_lock_ok (leased_store t)" "fs_write_ok (leased_store t)"
  "has_identity (leased_route t)" "rt_pid (leased_route t) = 7" "rt_cwd (leased_route t) = ''/w''" "rt_owner_cwd (leased_route t) = []"
  "rt_host (leased_route t) = ''p.localhost''" "rt_run_id (leased_route t) = ''run''" "rt_lease_expires_at (leased_route t) = t"
  "rt_state (leased_route t) = RouteStateActive" "rt_process_identity (leased_route t) = []" "rt_started_at (leased_route t) = 0"
  "Ref (leased_route t) = \<lparr>ref_id = ''a'', ref_generation = 2\<rparr>" "(leased_route t)\<lparr>rt_lease_expires_at := t'\<rparr> = leased_route t'"
  "rt_id (leased_route t) = ''a''" "rt_generation (leased_route t) = 2"
  by (simp_all add: leased_store_def leased_route_def zero_route_def file_load_def sortRoutes_def has_identity_def Ref_def)

theorem Prune_removes_dead_routes_witness:
  "file_load (snd (PruneWithRouterReady file_load file_update calm_env (\<lambda>_. calm_env) 100 True [] (leased_store 50) (leased_store 50))) = Inr []"
proof -
  have "prunable calm_env 100 True (leased_route 50)"
    by (simp add: prunable_def EffectiveState_def RouteLeaseExpired_def)
  then show ?thesis
    using Prune_removes_dead_routes [of "leased_store 50" "[leased_route 50]" "\<lambda>_. calm_env" calm_env 100 True "[]"]
    by (auto simp: same_format_def split: prod.splits)
qed

theorem StopCWDs_only_verified_witness:
  "fst (snd (snd (StopCWDs RouteStore_Load file_update calm_env (\<lambda>_. calm_env) [] (leased_store 500) (leased_store 500) [''/w'']))) = []"
proof -
  obtain err result killed s'' where
    c: "StopCWDs RouteStore_Load file_update calm_env (\<lambda>_. calm_env) [] (leased_store 500) (leased_store 500) [''/w''] = (err, result, killed, s'')"
    by (metis prod.exhaust)
  have l: "RouteStore_Load (leased_store 500) = Inr [leased_route 500]"
    by (simp add: RouteStore_Load_def leased_store_def) (simp add: file_load_def sortRoutes_def)
  have "killed = []"
    using StopCWDs_only_verified [OF c, of "[leased_route 500]"] l
    by (cases killed) (auto simp: same_format_def RouteProcessVerified_def)
  with c show ?thesis by simp
qed

text \<open>
  \<open>prune\<close> looks at the routes before it takes the lock and removes by reference, which a renewal of
  the lease keeps: a route whose lease is renewed in between is removed although it is alive then.
\<close>

theorem Prune_drops_renewed_route:
  "RenewRoutes file_update [] (leased_store 50) ''run'' [Ref (leased_route 50)] 100 60 = (Inr (), leased_store 160) \<and>
   \<not> prunable calm_env 100 True (leased_route 160) \<and>
   file_load (snd (PruneWithRouterReady file_load file_update calm_env (\<lambda>_. calm_env) 100 True [] (leased_store 50) (leased_store 160))) = Inr []"
proof -
  have "RenewRoutes file_update [] (leased_store 50) ''run'' [Ref (leased_route 50)] 100 60 = (Inr (), leased_store 160)"
    by (simp add: RenewRoutes_def UpdateStore_def file_update_def renew_update_def routeRefIndex_def renewed_route_def EffectiveState_def
        RouteReservationExpired_def trim_space_def trim_def trim_left_def trim_right_def byte_defs)
      (simp add: update_at_def renewed_route_def EffectiveState_def, simp add: leased_store_def sortRoutes_def)
  then show ?thesis
    by (simp add: prunable_def classifyRoute_def calm_env_def PIDAlive_def EffectiveState_def RouteLeaseExpired_def RouteReservationExpired_def
       PruneWithRouterReady_def prune_marks_def markRouteRemoval_def UpdateStore_def file_update_def remove_marked_def marked_def)
      (simp add: file_load_def sortRoutes_def)
qed

subsection \<open>Start times\<close>

text \<open>The command name of \<open>/proc/N/stat\<close> may hold spaces and parentheses: the last \<open>) \<close> ends it.\<close>

lemma last_index_rest: "last_index '') '' rest = None \<Longrightarrow> last_index '') '' (head @ '') '' @ rest) = Some (length head)"
  by (induction head) simp_all

lemma stat_ticks:
  assumes "pv_read pv (''/proc/'' @ itoa pid @ ''/stat'') = Some (head @ '') '' @ rest)" "last_index '') '' rest = None"
  shows "linuxProcessStartTicks pv pid =
    (let fs = Go_Base.fields rest in if length fs \<le> 19 then None else parse_uint64 (fs ! 19))"
  using assms last_index_rest [of rest head] by (simp add: linuxProcessStartTicks_def)

lemma ticks_duration_exact:
  assumes "ticks \<le> 9223372036"
  shows "ticks_duration ticks hz = int ticks * 1000000000 div hz"
proof -
  have w: "(of_nat ticks :: 64 word) * 1000000000 = of_nat (ticks * 1000000000)" by simp
  have "sint (of_nat n :: 64 word) = int n" if "n < 2 ^ 63" for n
    using that by (simp add: sint_uint unat_of_nat signed_take_bit_int_eq_self uint_nat)
  from this [of "ticks * 1000000000"] assms have "sint ((of_nat ticks :: 64 word) * 1000000000) = int ticks * 1000000000"
    unfolding w by simp
  then show ?thesis by (cases "ticks = 0") (simp_all add: ticks_duration_def)
qed

definition old_boot_env :: proc_env where
  "old_boot_env = calm_env\<lparr>pv_read := (\<lambda>p.
     if p = ''/proc/7/stat'' then Some ''7 (a b) S 2 2 3 4 5 6 7 8 9 10 11 12 13 14 15 16 17 18 9300000000 20''
     else if p = ''/proc/stat'' then Some ''btime 1700000000'' else None)\<rparr>"

lemma old_boot_ticks: "linuxProcessStartTicks old_boot_env 7 = Some 9300000000"
proof -
  have "nat_digits 7 = ''7''" by code_simp
  then have "linuxProcessStartTicks old_boot_env 7 =
    (let fs = Go_Base.fields ''S 2 2 3 4 5 6 7 8 9 10 11 12 13 14 15 16 17 18 9300000000 20''
     in if length fs \<le> 19 then None else parse_uint64 (fs ! 19))"
    by (intro stat_ticks [where head = "''7 (a b''"]) (simp_all add: old_boot_env_def itoa_def)
  moreover have "Go_Base.fields ''S 2 2 3 4 5 6 7 8 9 10 11 12 13 14 15 16 17 18 9300000000 20'' =
    [''S'', ''2'', ''2'', ''3'', ''4'', ''5'', ''6'', ''7'', ''8'', ''9'', ''10'', ''11'', ''12'', ''13'', ''14'', ''15'', ''16'', ''17'', ''18'',
     ''9300000000'', ''20'']" by (simp add: Go_Base.fields_def byte_defs)
  moreover have "parse_uint64 ''9300000000'' = Some 9300000000"
    by (simp add: parse_uint64_def digits_val_def digit_val_def byte_defs)
  ultimately show ?thesis by simp
qed

lemma old_boot_time: "LinuxBootTime old_boot_env = Some (unix_time 1700000000)" "linuxClockTicks old_boot_env = 100"
  by (simp_all add: LinuxBootTime_def linuxClockTicks_def old_boot_env_def calm_env_def has_prefix_def trim_prefix_def trim_space_def
      trim_def trim_left_def trim_right_def atoi_def digits_val_def digit_val_def byte_defs)

text \<open>
  On Linux the start time of a process is exact as long as its tick count times one second fits a
  signed 64-bit integer; from there on, about 1067 days after the boot, it wraps around to a time
  before the boot, and a process that started after the route was registered passes for its owner.
\<close>

theorem start_time_wraps:
  "(if ticks \<le> 9223372036 then ticks_duration ticks hz = int ticks * 1000000000 div hz else True) \<and>
   ticks_duration 9223372037 100 < 0 \<and>
   linuxProcessStartTicks old_boot_env 7 = Some 9300000000 \<and>
   (let actual = unix_time 1700000000 + 9300000000 * 10000000;
        route = zero_route\<lparr>rt_pid := 7, rt_started_at := unix_time 1700000000\<rparr>
    in actual > rt_started_at route \<and> RouteProcessVerified old_boot_env route)"
  using ticks_duration_exact old_boot_ticks old_boot_time
  by (simp add: ticks_duration_def RouteProcessVerified_def realProcessStartTime_def zero_route_def unix_time_def)
    (simp add: old_boot_env_def calm_env_def)

end
