(* ===== verification/Route_Table.thy ===== *)
theory Route_Table
  imports Router_Http
begin

text \<open>
  All writers of \<open>routes.json\<close> together: the reservation calls, the LAN share operations and the
  handlers of \<open>/routes\<close>, in any order and with any arguments, with locks, reads and writes that may
  fail. \<open>run_step\<close> is one call of the run API (\<open>reservations.go\<close>, \<open>lan.go\<close>), \<open>table_step\<close>
  adds the calls on hosts (\<open>POST /routes\<close>, \<open>DELETE /routes/<host>\<close>). The store runs one update at
  a time under its lock, so an execution is a sequence of steps.
\<close>

section \<open>Steps\<close>

text \<open>A reservation small enough for the host search, from a directory that is not the mark.\<close>

definition reservation_fits :: "os_paths \<Rightarrow> file_store \<Rightarrow> reservation_request \<Rightarrow> bool" where
  "reservation_fits os s request \<longleftrightarrow>
     (case file_load s of Inl _ \<Rightarrow> True | Inr routes \<Rightarrow> length routes + length (rq_routes request) \<le> 99) \<and>
     (\<forall>c \<in> set (rq_routes request). \<not> samePath os occupied_mark (rs_cwd c))"

inductive run_step :: "os_paths \<Rightarrow> net_env \<Rightarrow> netip_env \<Rightarrow> file_store \<Rightarrow> file_store \<Rightarrow> bool"
  for os net np where
  run_environment: "run_step os net np s (s\<lparr>fs_lock_ok := l, fs_write_ok := w\<rparr>)"
| run_reserve: "reservation_fits os s request \<Longrightarrow>
    run_step os net np s (snd (ReserveRoutes file_update os net rng s request now))"
| run_activate: "run_step os net np s (snd (ActivateRoutes file_update rng s runID refs now ttl))"
| run_release: "run_step os net np s (snd (ReleaseRoutes file_update rng s runID refs))"
| run_renew: "run_step os net np s (snd (RenewRoutes file_update rng s runID refs now ttl))"
| run_delete: "run_step os net np s (snd (DeleteRouteRef file_update rng s ref))"
| run_share_request: "run_step os net np s (snd (RequestLANShare file_update rng s ref now))"
| run_share_set: "st \<noteq> LANShareActive \<Longrightarrow> run_step os net np s (snd (SetLANShareState file_update rng s ref st))"
| run_share_activate: "run_step os net np s (snd (ActivateLANShare file_update np rng s ref activation))"
| run_share_connected: "run_step os net np s (snd (MarkLANShareConnected file_update rng s ref now))"
| run_share_suspend: "run_step os net np s (snd (SuspendLANShare file_update rng s ref reason))"
| run_share_remove: "run_step os net np s (snd (RemoveLANShare file_update rng s ref))"

inductive table_step :: "os_paths \<Rightarrow> net_env \<Rightarrow> netip_env \<Rightarrow> file_store \<Rightarrow> file_store \<Rightarrow> bool"
  for os net np where
  table_run: "run_step os net np s s' \<Longrightarrow> table_step os net np s s'"
| table_upsert: "table_step os net np s (snd (handleRoutes env token rng now s r decoded))"
| table_delete_host: "table_step os net np s (snd (handleRoute env token rng s r))"

section \<open>Invariants of updates\<close>

text \<open>
  An invariant is a property of the table that neither the identities nor the order of the
  routes affect; what an update function does for it is asked on tables of the stored length.
\<close>

definition file_inv :: "(route list \<Rightarrow> bool) \<Rightarrow> file_store \<Rightarrow> bool" where
  "file_inv P s \<longleftrightarrow> (case file_load s of Inl _ \<Rightarrow> True | Inr routes \<Rightarrow> P routes)"

definition same_but_identity :: "route \<Rightarrow> route \<Rightarrow> bool" where
  "same_but_identity r r' \<longleftrightarrow> r' = r\<lparr>rt_id := rt_id r', rt_generation := rt_generation r'\<rparr>"

lemma withIdentities_same:
  "withIdentities rng routes = Inr (rs, rng') \<Longrightarrow> list_all2 same_but_identity routes rs"
  by (induction routes arbitrary: rng rs rng') (auto simp: same_but_identity_def res_bind_Inr_iff split: if_splits)

locale table_invariant =
  fixes P :: "route list \<Rightarrow> bool"
  assumes inv_sort: "P routes \<Longrightarrow> P (sortRoutes routes)"
    and inv_identity: "list_all2 same_but_identity routes routes' \<Longrightarrow> P routes \<Longrightarrow> P routes'"
begin

lemma update_inv:
  assumes keep: "\<And>rng routes stored next a. P routes \<Longrightarrow> file_load s = Inr stored \<Longrightarrow> length routes = length stored \<Longrightarrow>
      u rng routes = Inr (next, a) \<Longrightarrow> P next"
    and s: "file_inv P s"
  shows "file_inv P (snd (UpdateStore file_update rng s u))"
proof (cases "UpdateStore file_update rng s u")
  case (Pair r s')
  show ?thesis
  proof (cases r)
    case (Inl e)
    then have "s' = s" using Pair filestore.Update_error_unchanged [of rng s u e] by simp
    with s Pair show ?thesis by simp
  next
    case (Inr a)
    from Pair [unfolded Inr] show ?thesis
    proof (rule filestore.ok_obtains)
      fix stored routes rng' "next"
      assume l: "file_load s = Inr stored" "file_load s' = Inr (sortRoutes next)"
        and w: "withIdentities rng stored = Inr (routes, rng')" and u: "u rng' routes = Inr (next, a)"
      have rel: "list_all2 same_but_identity stored routes" by (rule withIdentities_same [OF w])
      have "P stored" using s l by (simp add: file_inv_def)
      with rel have "P routes" by (rule inv_identity)
      then have "P next" using keep l(1) u list_all2_lengthD [OF rel] by simp
      then show ?thesis using inv_sort l(2) Pair by (simp add: file_inv_def)
    qed
  qed
qed

lemma environment_inv: "file_inv P s \<Longrightarrow> file_inv P (s\<lparr>fs_lock_ok := l, fs_write_ok := w\<rparr>)"
  by (simp add: file_inv_def file_load_def)

end

section \<open>The invariants\<close>

definition hosts_unique :: "route list \<Rightarrow> bool" where
  "hosts_unique routes \<longleftrightarrow> distinct (map fold_host routes)"

definition shares_ok :: "route list \<Rightarrow> bool" where
  "shares_ok routes \<longleftrightarrow> (\<forall>r \<in> set routes. \<forall>share. rt_lan_share r = Some share \<longrightarrow> active_share_ok share)"

definition table_inv :: "net_env \<Rightarrow> route list \<Rightarrow> bool" where
  "table_inv net routes \<longleftrightarrow> table_ok net routes \<and> single_wsl routes \<and> shares_ok routes"

lemma same_but_identity_fields:
  "same_but_identity r r' \<Longrightarrow> rt_host r' = rt_host r \<and> EffectiveTarget r' = EffectiveTarget r \<and>
     rt_owner_env r' = rt_owner_env r \<and> rt_owner_instance r' = rt_owner_instance r \<and> rt_lan_share r' = rt_lan_share r"
  by (cases r; cases r') (simp add: same_but_identity_def EffectiveTarget_def EffectiveState_def)

lemma same_but_identity_map:
  assumes "list_all2 same_but_identity routes routes'"
  shows "map rt_host routes' = map rt_host routes" "map EffectiveTarget routes' = map EffectiveTarget routes"
    "map fold_host routes' = map fold_host routes"
    "r' \<in> set routes' \<Longrightarrow> \<exists>r \<in> set routes. rt_owner_env r' = rt_owner_env r \<and> rt_owner_instance r' = rt_owner_instance r
       \<and> rt_lan_share r' = rt_lan_share r"
  using assms by (induction rule: list_all2_induct) (auto simp: same_but_identity_fields)

interpretation hosts: table_invariant hosts_unique
proof unfold_locales
  fix routes routes'
  show "hosts_unique routes \<Longrightarrow> hosts_unique (sortRoutes routes)" by (simp add: hosts_unique_def)
  show "list_all2 same_but_identity routes routes' \<Longrightarrow> hosts_unique routes \<Longrightarrow> hosts_unique routes'"
    by (simp only: hosts_unique_def same_but_identity_map(3))
qed

interpretation table: table_invariant "table_inv net"
proof unfold_locales
  fix routes routes'
  show "table_inv net routes \<Longrightarrow> table_inv net (sortRoutes routes)" by (simp add: table_inv_def shares_ok_def)
  assume rel: "list_all2 same_but_identity routes routes'" and inv: "table_inv net routes"
  note m = same_but_identity_map [OF rel]
  have "table_ok net routes'" using inv table_ok_cong [OF m(1,2)] by (simp add: table_inv_def)
  moreover have "single_wsl routes'"
  proof (rule single_wsl_owners)
    show "\<forall>r' \<in> set routes'. \<exists>r \<in> set routes. rt_owner_env r' = rt_owner_env r \<and> rt_owner_instance r' = rt_owner_instance r"
      using m(4) by blast
    show "single_wsl routes" using inv by (simp add: table_inv_def)
  qed
  moreover have "shares_ok routes'" using m(4) inv by (fastforce simp: table_inv_def shares_ok_def)
  ultimately show "table_inv net routes'" by (simp add: table_inv_def)
qed

section \<open>The run API keeps the invariants\<close>

abbreviation owner_of :: "route \<Rightarrow> string \<times> string" where
  "owner_of r \<equiv> (rt_owner_env r, rt_owner_instance r)"

lemma set_map_mem: "map g routes' = map g routes \<Longrightarrow> r' \<in> set routes' \<Longrightarrow> \<exists>r \<in> set routes. g r' = g r"
  by (metis image_iff list.set_map)

lemma single_wsl_cong: "map owner_of routes' = map owner_of routes \<Longrightarrow> single_wsl routes \<Longrightarrow> single_wsl routes'"
  by (rule single_wsl_owners) (use set_map_mem [of owner_of] in fastforce)+

lemma shares_ok_cong: "map rt_lan_share routes' = map rt_lan_share routes \<Longrightarrow> shares_ok routes \<Longrightarrow> shares_ok routes'"
  using set_map_mem [of rt_lan_share routes' routes] unfolding shares_ok_def by metis

lemma table_inv_cong:
  assumes "map rt_host routes' = map rt_host routes" "map EffectiveTarget routes' = map EffectiveTarget routes"
    "map owner_of routes' = map owner_of routes" "shares_ok routes \<Longrightarrow> shares_ok routes'" "table_inv net routes"
  shows "table_inv net routes'"
  using assms table_ok_cong [OF assms(1,2), of net] single_wsl_cong [OF assms(3)] by (simp add: table_inv_def)

lemma table_inv_subset:
  assumes "table_ok net routes \<Longrightarrow> table_ok net routes'" "set routes' \<subseteq> set routes" "table_inv net routes"
  shows "table_inv net routes'"
proof -
  have "single_wsl routes'" using assms(2,3) unfolding table_inv_def single_wsl_def by blast
  moreover have "shares_ok routes'" using assms(2,3) unfolding table_inv_def shares_ok_def by blast
  ultimately show ?thesis using assms(1,3) by (simp add: table_inv_def)
qed

lemma map_list_update_same: "g x = g (xs ! i) \<Longrightarrow> map g (xs[i := x]) = map g xs"
  by (cases "i < length xs") (simp_all add: map_update list_update_same_conv list_update_beyond)

lemma set_list_update_mem: "x \<in> set (xs[i := y]) \<Longrightarrow> x = y \<or> x \<in> set xs"
  using set_update_subset_insert [of xs i y] by blast

lemma share_effect_inv: "share_effect ref routes next \<Longrightarrow> table_inv net routes \<Longrightarrow> table_inv net next"
proof -
  assume e: "share_effect ref routes next" and inv: "table_inv net routes"
  then obtain i share' where i: "routeRefIndex routes ref = Some i" and st: "share_step (rt_lan_share (routes ! i)) share'"
    and n: "next = routes[i := (routes ! i)\<lparr>rt_lan_share := share'\<rparr>]" by (auto simp: share_effect_def)
  have mem: "routes ! i \<in> set routes" using routeRefIndex_Some(1) [OF i] by simp
  show ?thesis
  proof (rule table_inv_cong [OF _ _ _ _ inv])
    show "map rt_host next = map rt_host routes" "map EffectiveTarget next = map EffectiveTarget routes"
      "map owner_of next = map owner_of routes"
      unfolding n by (rule map_list_update_same, simp add: EffectiveTarget_def EffectiveState_def)+
    assume ok: "shares_ok routes"
    then have "active_share_ok sh" if "rt_lan_share (routes ! i) = Some sh" for sh
      using that mem by (simp add: shares_ok_def)
    then have new: "active_share_ok sh" if "share' = Some sh" for sh
      using share_step_active_ok [OF st] that by blast
    show "shares_ok next"
      unfolding shares_ok_def
    proof (intro ballI allI impI)
      fix r sh assume r: "r \<in> set next" "rt_lan_share r = Some sh"
      from set_list_update_mem [OF r(1) [unfolded n]] show "active_share_ok sh"
        using new ok r(2) by (auto simp: shares_ok_def)
    qed
  qed
qed

lemma release_update_inv: "release_update runID refs routes = Inr (next, u) \<Longrightarrow> table_inv net routes \<Longrightarrow> table_inv net next"
  by (rule table_inv_subset) (auto dest: release_update_table_ok release_update_ok)

lemma delete_update_inv:
  assumes "delete_update ref routes = Inr (next, u)" "table_inv net routes"
  shows "table_inv net next"
proof (rule table_inv_subset [OF _ _ assms(2)])
  show "table_ok net routes \<Longrightarrow> table_ok net next" by (rule delete_update_table_ok [OF assms(1)])
  from assms(1) obtain i where "next = take i routes @ drop (Suc i) routes"
    by (auto simp: delete_update_def split: option.splits)
  then show "set next \<subseteq> set routes" using set_take_subset set_drop_subset by (metis Un_least set_append)
qed

lemma renew_update_inv:
  assumes "renew_update runID refs now ttl routes = Inr (next, u)" "table_inv net routes"
  shows "table_inv net next"
proof -
  from assms(1) obtain indexes where n: "next = update_at (renewed_route now ttl) indexes routes"
    by (auto simp: renew_update_def res_bind_Inr_iff split: if_splits)
  have "rt_lan_share (renewed_route now ttl r) = rt_lan_share r" for r by (simp add: renewed_route_def)
  then have "map rt_lan_share next = map rt_lan_share routes" unfolding n by (rule map_update_at)
  then show ?thesis
    by (intro table_inv_cong [OF _ _ _ _ assms(2)]) (simp_all add: n map_update_at shares_ok_cong)
qed

lemma activate_update_inv:
  assumes "activate_update runID refs now ttl routes = Inr (next, a)" "table_inv net routes"
  shows "table_inv net next"
proof -
  have "rt_lan_share (activated_route now ttl r) = rt_lan_share r" for r by (simp add: activated_route_def)
  then have "shares_ok next" "single_wsl next"
    using assms(2) unfolding activate_update_ok(1) [OF assms(1)]
    by (auto simp: table_inv_def shares_ok_def intro!: single_wsl_map)
  with activate_update_table_ok [OF assms(1)] assms(2) show ?thesis by (simp add: table_inv_def)
qed

lemma active_share_okI: "ls_state share \<noteq> LANShareActive \<Longrightarrow> active_share_ok share"
  by (simp add: active_share_ok_def)

lemma requested_share_ok: "requestedLANShare mode h now = Some share \<Longrightarrow> active_share_ok share"
  by (rule active_share_okI) (simp add: requestedLANShare_state)

lemma same_but_share_ok:
  assumes "list_all2 same_but_share routes routes'" "shares_ok routes"
  shows "shares_ok routes'"
  unfolding shares_ok_def
proof (intro ballI allI impI)
  fix r' share assume r': "r' \<in> set routes'" "rt_lan_share r' = Some share"
  obtain r where r: "r \<in> set routes" "same_but_share r r'" using same_but_share_set [OF assms(1) r'(1)] by blast
  with r'(2) have "rt_lan_share r = Some share \<or> ls_state share = LANShareRequested"
    by (auto simp: same_but_share_def)
  then show "active_share_ok share"
  proof
    assume "rt_lan_share r = Some share"
    with r(1) assms(2) show ?thesis by (simp add: shares_ok_def)
  next
    assume "ls_state share = LANShareRequested"
    then show ?thesis by (simp add: active_share_okI)
  qed
qed

lemma new_routes_shares:
  "list_all2 (pair_result request now) pairs reserved \<Longrightarrow> shares_ok (new_routes reserved)"
proof (induction rule: list_all2_induct)
  case Nil
  then show ?case by (simp add: shares_ok_def)
next
  case (Cons p ps rr rs)
  have new: "rt_lan_share (reserved_route_of request now c h rid) = requestedLANShare (rs_share_mode c) h now" for c h rid
    by (simp add: reserved_route_of_def)
  obtain c reused where "p = (c, reused)" by (cases p)
  with Cons show ?case
    by (cases reused) (auto simp: shares_ok_def new requested_share_ok)
qed

lemma reserve_update_inv:
  assumes u: "reserve_update os net request now rng routes = Inr (next, reserved)" and inv: "table_inv net routes"
    and fits: "length routes + length (rq_routes request) \<le> 99"
      "\<forall>c \<in> set (rq_routes request). \<not> samePath os occupied_mark (rs_cwd c)"
  shows "table_inv net next"
proof -
  from u have "shares_ok next"
  proof (rule reserve_update_ok)
    fix kept candidates reused
    assume k: "list_all2 same_but_share (removeExpiredRoutes routes now) kept"
      and n: "next = sortRoutes (kept @ new_routes reserved)"
      and p: "list_all2 (pair_result request now) (zip candidates reused) reserved"
    have "shares_ok (removeExpiredRoutes routes now)"
      using inv by (auto simp: table_inv_def shares_ok_def removeExpiredRoutes_def)
    from same_but_share_ok [OF k this] new_routes_shares [OF p] show ?thesis by (auto simp: n shares_ok_def)
  qed
  with reserve_update_table_ok [OF _ u fits] reserve_update_single_wsl [OF _ u] inv show ?thesis
    by (simp add: table_inv_def)
qed

section \<open>Executions\<close>

lemma ReserveRoutes_file_inv:
  assumes "reservation_fits os s request" "file_inv (table_inv net) s"
  shows "file_inv (table_inv net) (snd (ReserveRoutes file_update os net rng s request now))"
proof -
  have "file_inv (table_inv net) (snd (UpdateStore file_update rng s (reserve_update os net request now)))"
  proof (rule table.update_inv [OF _ assms(2)])
    fix rng routes stored "next" a
    assume "table_inv net routes" "file_load s = Inr stored" "length routes = length stored"
      and u: "reserve_update os net request now rng routes = Inr (next, a)"
    then show "table_inv net next"
      using assms(1) by (intro reserve_update_inv [OF u]) (auto simp: reservation_fits_def)
  qed
  then show ?thesis
    using assms(2) by (auto simp: ReserveRoutes_def split: prod.splits sum.splits)
qed

lemma MarkLANShareConnected_snd:
  "snd (MarkLANShareConnected update rng s ref now) = snd (UpdateStore update rng s (\<lambda>_. mark_connected_update ref now))"
  by (simp add: MarkLANShareConnected_def case_prod_unfold)

lemma run_step_inv: "run_step os net np s s' \<Longrightarrow> file_inv (table_inv net) s \<Longrightarrow> file_inv (table_inv net) s'"
proof (induction rule: run_step.induct)
  case (run_environment s l w)
  then show ?case by (rule table.environment_inv)
next
  case (run_reserve s request rng now)
  then show ?case by (rule ReserveRoutes_file_inv)
next
  case (run_activate s rng runID refs now ttl)
  then show ?case
    by (auto simp: ActivateRoutes_def intro!: table.update_inv dest: activate_update_inv)
next
  case (run_release s rng runID refs)
  then show ?case by (auto simp: ReleaseRoutes_def intro!: table.update_inv dest: release_update_inv)
next
  case (run_renew s rng runID refs now ttl)
  then show ?case by (auto simp: RenewRoutes_def intro!: table.update_inv dest: renew_update_inv)
next
  case (run_delete s rng ref)
  then show ?case by (auto simp: DeleteRouteRef_def intro!: table.update_inv dest: delete_update_inv)
next
  case (run_share_request s rng ref now)
  then show ?case
    by (auto simp: RequestLANShare_def intro!: table.update_inv dest!: request_share_effect intro: share_effect_inv)
next
  case (run_share_set st s rng ref)
  then show ?case
    by (auto simp: SetLANShareState_def intro!: table.update_inv dest!: set_share_effect intro: share_effect_inv)
next
  case (run_share_activate s rng ref activation)
  show ?case
  proof (cases "check_activation np activation")
    case (Inl e)
    with run_share_activate show ?thesis by (simp add: ActivateLANShare_def)
  next
    case (Inr checked)
    obtain h a p where "checked = (h, a, p)" by (cases checked)
    with run_share_activate Inr show ?thesis
      by (auto simp: ActivateLANShare_def intro!: table.update_inv dest!: activate_share_effect [rotated] intro: share_effect_inv)
  qed
next
  case (run_share_connected s rng ref now)
  then show ?case
    unfolding MarkLANShareConnected_snd by (auto intro!: table.update_inv dest!: mark_connected_effect intro: share_effect_inv)
next
  case (run_share_suspend s rng ref reason)
  then show ?case
    by (auto simp: SuspendLANShare_def intro!: table.update_inv dest!: suspend_share_effect intro: share_effect_inv)
next
  case (run_share_remove s rng ref)
  then show ?case
    by (auto simp: RemoveLANShare_def intro!: table.update_inv dest!: remove_share_effect intro: share_effect_inv)
qed

text \<open>
  The hosts alone, for executions with the calls on hosts, which do not look at targets. With an
  environment that parses no URL, \<open>table_ok\<close> is the uniqueness of the hosts.
\<close>

definition no_net :: net_env where
  "no_net = \<lparr>net_parse_url = \<lambda>_. None, net_parse_ip = \<lambda>_. None\<rparr>"

lemma no_net_targets: "occupied_targets no_net routes = []"
  by (induction routes) (simp_all add: occupied_targets_def reservationTargetKey_def no_net_def)

lemma hosts_unique_table: "hosts_unique routes = table_ok no_net routes"
  by (simp add: hosts_unique_def table_ok_def no_net_targets)

lemma share_effect_hosts: "share_effect ref routes next \<Longrightarrow> hosts_unique routes \<Longrightarrow> hosts_unique next"
proof -
  assume "share_effect ref routes next" "hosts_unique routes"
  moreover have "map fold_host (routes[i := (routes ! i)\<lparr>rt_lan_share := x\<rparr>]) = map fold_host routes" for i x
    by (rule map_list_update_same) simp
  ultimately show ?thesis by (auto simp: share_effect_def hosts_unique_def)
qed

lemma ReserveRoutes_hosts:
  assumes "reservation_fits os s request" "file_inv hosts_unique s"
  shows "file_inv hosts_unique (snd (ReserveRoutes file_update os net rng s request now))"
proof -
  have "file_inv hosts_unique (snd (UpdateStore file_update rng s (reserve_update os net request now)))"
  proof (rule hosts.update_inv [OF _ assms(2)])
    fix rng routes stored "next" a
    assume "hosts_unique routes" "file_load s = Inr stored" "length routes = length stored"
      and u: "reserve_update os net request now rng routes = Inr (next, a)"
    then show "hosts_unique next"
      using assms(1) unfolding hosts_unique_def
      by (intro reserve_update_hosts [OF _ u]) (auto simp: reservation_fits_def)
  qed
  then show ?thesis
    using assms(2) by (auto simp: ReserveRoutes_def split: prod.splits sum.splits)
qed

lemma run_step_hosts: "run_step os net np s s' \<Longrightarrow> file_inv hosts_unique s \<Longrightarrow> file_inv hosts_unique s'"
proof (induction rule: run_step.induct)
  case (run_environment s l w)
  then show ?case by (rule hosts.environment_inv)
next
  case (run_reserve s request rng now)
  then show ?case by (rule ReserveRoutes_hosts)
next
  case (run_share_activate s rng ref activation)
  show ?case
  proof (cases "check_activation np activation")
    case (Inl e)
    with run_share_activate show ?thesis by (simp add: ActivateLANShare_def)
  next
    case (Inr checked)
    obtain h a p where "checked = (h, a, p)" by (cases checked)
    with run_share_activate Inr show ?thesis
      by (auto simp: ActivateLANShare_def intro!: hosts.update_inv dest!: activate_share_effect [rotated]
          intro: share_effect_hosts)
  qed
qed (unfold MarkLANShareConnected_snd ActivateRoutes_def ReleaseRoutes_def RenewRoutes_def DeleteRouteRef_def
      RequestLANShare_def SetLANShareState_def SuspendLANShare_def RemoveLANShare_def,
     auto intro!: hosts.update_inv intro: share_effect_hosts
       dest: request_share_effect set_share_effect mark_connected_effect suspend_share_effect remove_share_effect
         release_update_table_ok renew_update_table_ok delete_update_table_ok activate_update_table_ok
       simp: hosts_unique_table)

text \<open>The hosts: the other handlers keep them unique too.\<close>

lemma handleRoutes_snd:
  "snd (handleRoutes env token rng now s r decoded) = s \<or>
   (\<exists>route. snd (handleRoutes env token rng now s r decoded) = snd (UpdateStore file_update rng s (\<lambda>_. upsert_update now route)))"
  by (auto simp: handleRoutes_def split: sum.splits prod.splits router_error.splits) (metis snd_conv)+

lemma handleRoute_snd:
  "snd (handleRoute env token rng s r) = s \<or>
   (\<exists>host. snd (handleRoute env token rng s r) = snd (UpdateStore file_update rng s (\<lambda>_. delete_host_update host)))"
  by (auto simp: handleRoute_def split: sum.splits prod.splits option.splits) (metis snd_conv)+

lemma handleRoutes_hosts: "file_inv hosts_unique s \<Longrightarrow> file_inv hosts_unique (snd (handleRoutes env token rng now s r decoded))"
proof -
  assume s: "file_inv hosts_unique s"
  have "file_inv hosts_unique (snd (UpdateStore file_update rng s (\<lambda>_. upsert_update now route)))" for route
    by (rule hosts.update_inv [OF _ s]) (auto simp: hosts_unique_def dest: upsert_update_hosts)
  with s handleRoutes_snd [of env token rng now s r decoded] show ?thesis by auto
qed

lemma handleRoute_hosts: "file_inv hosts_unique s \<Longrightarrow> file_inv hosts_unique (snd (handleRoute env token rng s r))"
proof -
  assume s: "file_inv hosts_unique s"
  have "file_inv hosts_unique (snd (UpdateStore file_update rng s (\<lambda>_. delete_host_update host)))" for host
    by (rule hosts.update_inv [OF _ s]) (auto simp: hosts_unique_def dest: delete_host_update_hosts)
  with s handleRoute_snd [of env token rng s r] show ?thesis by auto
qed

section \<open>Properties\<close>

definition empty_store :: file_store where
  "empty_store = \<lparr>fs_file = NoFile, fs_lock_ok = True, fs_write_ok = True\<rparr>"

lemma empty_store_inv: "file_inv (table_inv net) empty_store"
  by (simp add: file_inv_def empty_store_def file_load_def table_inv_def table_ok_def single_wsl_def shares_ok_def
      occupied_targets_def)


definition sample_executed :: file_store where
  "sample_executed = snd (ReserveRoutes file_update sample_os sample_net sample_rng empty_store sample_request 5)"


text \<open>
  The hosts stay unique also when routes are registered and deleted by host: in every state
  that any sequence of calls reaches from an empty store, no two routes share a host up to case, so
  a request has at most one route.
\<close>

theorem table_hosts_unique:
  assumes "(table_step os net np)\<^sup>*\<^sup>* empty_store s" and "file_load s = Inr routes"
  shows "distinct (map fold_host routes)"
proof -
  have step: "file_inv hosts_unique b" if "table_step os net np a b" "file_inv hosts_unique a" for a b
    using that
    by (induction rule: table_step.induct) (auto intro: run_step_hosts handleRoutes_hosts handleRoute_hosts)
  have "file_inv hosts_unique empty_store"
    by (simp add: file_inv_def hosts_unique_def empty_store_def file_load_def)
  with assms(1) have "file_inv hosts_unique s"
    by (induction rule: rtranclp_induct) (auto intro: step)
  with assms(2) show ?thesis by (simp add: file_inv_def hosts_unique_def)
qed

definition sample_post :: http_request where
  "sample_post = sample_get\<lparr>hr_method := ''POST'', hr_header := [(''X-Gohere-Token'', ''t'')]\<rparr>"

definition sample_posted :: file_store where
  "sample_posted = snd (handleRoutes sample_http ''t'' [] 1 empty_store sample_post
     (Some (sample_active\<lparr>rt_preferred_scheme := ''http''\<rparr>)))"

theorem table_hosts_unique_witness:
  "\<exists>route. file_load sample_posted = Inr [route] \<and> distinct (map fold_host [route])"
proof -
  let ?np = "\<lparr>np_addr = \<lambda>_. None, np_prefix = \<lambda>_. None\<rparr>"
  have "table_step sample_os sample_net ?np empty_store sample_posted"
    unfolding sample_posted_def by (rule table_upsert)
  then have reach: "(table_step sample_os sample_net ?np)\<^sup>*\<^sup>* empty_store sample_posted" by (rule r_into_rtranclp)
  have "map_sum (\<lambda>_. ()) length (file_load sample_posted) = Inr 1" by code_simp
  then obtain route where l: "file_load sample_posted = Inr [route]"
    by (cases "file_load sample_posted") (auto simp: length_Suc_conv)
  with table_hosts_unique [OF reach l] show ?thesis by blast
qed

end
