(* ===== verification/Go_Url.thy ===== *)
theory Go_Url
  imports Go_Base
begin

text \<open>
  \<open>url.PathEscape\<close> and \<open>url.PathUnescape\<close> of Go's \<open>net/url\<close>: the escaping of one segment of a path
  and its inverse.
\<close>

definition unhex :: "char \<Rightarrow> nat option" where
  "unhex c =
     (if 48 \<le> code c \<and> code c \<le> 57 then Some (code c - 48)
      else if 97 \<le> code c \<and> code c \<le> 102 then Some (code c - 87)
      else if 65 \<le> code c \<and> code c \<le> 70 then Some (code c - 55)
      else None)"

definition upper_hex :: "nat \<Rightarrow> char" where
  "upper_hex n = (if n < 10 then char_of (48 + n) else char_of (55 + n))"

text \<open>\<open>shouldEscape\<close> in the mode \<open>encodePathSegment\<close>: letters, digits and the bytes listed stay.\<close>

definition should_escape :: "char \<Rightarrow> bool" where
  "should_escape c \<longleftrightarrow> \<not> (is_upper c \<or> is_lower c \<or> is_digit c \<or> c \<in> set ''-_.~$&+=:@'')"

definition escape_char :: "char \<Rightarrow> string" where
  "escape_char c = (if should_escape c then [CHR ''%'', upper_hex (code c div 16), upper_hex (code c mod 16)] else [c])"

definition path_escape :: "string \<Rightarrow> string" where
  "path_escape s = concat (map escape_char s)"

fun path_unescape :: "string \<Rightarrow> string option" where
  "path_unescape [] = Some []"
| "path_unescape (c # s) =
     (if c = CHR ''%'' then
        (case s of
           a # b # s' \<Rightarrow>
             (case (unhex a, unhex b) of
                (Some x, Some y) \<Rightarrow> map_option (\<lambda>u. char_of (16 * x + y) # u) (path_unescape s')
              | _ \<Rightarrow> None)
         | _ \<Rightarrow> None)
      else map_option (\<lambda>u. c # u) (path_unescape s))"

section \<open>Lemmas\<close>

lemma unhex_upper_hex: "n < 16 \<Longrightarrow> unhex (upper_hex n) = Some n"
  by (simp add: unhex_def upper_hex_def code_def)

lemma char_of_code [simp]: "char_of (code c) = c"
  by (simp add: code_def)

lemma path_unescape_escape_char: "path_unescape (escape_char c @ s) = map_option (\<lambda>u. c # u) (path_unescape s)"
proof (cases "should_escape c")
  case True
  have "code c div 16 < 16" using code_less [of c] by simp
  with True show ?thesis by (simp add: escape_char_def unhex_upper_hex)
next
  case False
  then have "c \<noteq> CHR ''%''" by (auto simp: should_escape_def byte_defs)
  with False show ?thesis by (simp add: escape_char_def)
qed

lemma path_unescape_escape_append: "path_unescape (path_escape s @ t) = map_option (\<lambda>u. s @ u) (path_unescape t)"
  by (cases "path_unescape t"; induction s) (simp_all add: path_escape_def path_unescape_escape_char)

lemma path_unescape_plain_append: "CHR ''%'' \<notin> set s \<Longrightarrow> path_unescape (s @ t) = map_option (\<lambda>u. s @ u) (path_unescape t)"
  by (cases "path_unescape t"; induction s) auto

lemma path_unescape_plain: "CHR ''%'' \<notin> set s \<Longrightarrow> path_unescape s = Some s"
  using path_unescape_plain_append [of s "[]"] by simp

lemma path_unescape_escape: "path_unescape (path_escape s) = Some s"
  using path_unescape_escape_append [of s "[]"] by simp

end
