(* ===== verification/Admin_Api.thy ===== *)
theory Admin_Api
  imports Lan_Manager Lifecycle Route_Table Go_Url
begin

text \<open>
  The administration interface from both ends: the handlers of
  \<open>internal/router/reservation_http.go\<close>, \<open>handleLANShare\<close> and the dispatch of \<open>AdminHandler\<close>, and the client of
  \<open>internal/admin\<close> that calls them.

  A handler acts on the server and, when there is one, on the LAN manager. Decoding the body as each
  type is the record \<open>json_body\<close>; the texts of errors are a function of the environment. The answers of
  the outside world to the LAN manager are those of \<open>create_env\<close> and of \<open>Remove\<close>. The dispatch is given a
  clean path, as \<open>http.ServeMux\<close> redirects the others.
\<close>

section \<open>The server\<close>

record json_body =
  jb_route :: "route option"
  jb_target :: "string option"
  jb_reservation :: "reservation_request option"
  jb_refs :: "route_ref list option"
  jb_ref :: "route_ref option"

record admin_state =
  ad_manager :: "lan_manager option"
  ad_server :: lan_server
  ad_shutdown :: bool

record admin_env =
  ae_http :: http_env
  ae_os :: os_paths
  ae_token :: string
  ae_instance :: string
  ae_shutdown :: bool
  ae_rng :: rng
  ae_now :: time
  ae_text :: "router_error \<Rightarrow> string"
  ae_lan :: lan_config
  ae_create :: create_env
  ae_close :: "router_error option"

datatype admin_answer = Http reply | Shared share_result

abbreviation ad_store :: "admin_state \<Rightarrow> file_store" where "ad_store st \<equiv> sv_store (ad_server st)"

definition with_store :: "admin_state \<Rightarrow> file_store \<Rightarrow> admin_state" where
  "with_store st store = st\<lparr>ad_server := (ad_server st)\<lparr>sv_store := store\<rparr>\<rparr>"

definition DefaultReservationTTL :: duration where "DefaultReservationTTL = 30 * second"
definition DefaultRouteLeaseTTL :: duration where "DefaultRouteLeaseTTL = 90 * second"

fun reservation_error_status :: "router_error \<Rightarrow> nat" where
  "reservation_error_status ErrRouteRefMismatch = 409"
| "reservation_error_status (ErrReservationConflict host) = 409"
| "reservation_error_status (RouteSchemeConflict host a b) = 409"
| "reservation_error_status _ = 400"

definition writeReservationError :: "admin_env \<Rightarrow> router_error \<Rightarrow> reply" where
  "writeReservationError ae e = http_error (reservation_error_status e) (ae_text ae e)"

definition json_reply :: "nat \<Rightarrow> body \<Rightarrow> reply" where
  "json_reply status b = Reply status [(''Content-Type'', ''application/json'')] b"

definition no_content :: reply where "no_content = Reply 204 [] NoBody"

definition handleRouteReservations ::
  "admin_env \<Rightarrow> admin_state \<Rightarrow> http_request \<Rightarrow> json_body \<Rightarrow> reply \<times> admin_state" where
  "handleRouteReservations ae st r body =
     (if \<not> authorized (ae_token ae) r then (http_error 401 ''unauthorized'', st)
      else if hr_path r \<noteq> ''/v2/route-reservations'' \<or> hr_method r \<noteq> ''POST''
      then (http_error 405 ''method not allowed'', st)
      else (case jb_reservation body of
              None \<Rightarrow> (http_error 400 ''decode'', st)
            | Some request \<Rightarrow>
                (case ReserveRoutes file_update (ae_os ae) (he_net (ae_http ae)) (ae_rng ae) (ad_store st)
                        (request\<lparr>rq_ttl := DefaultReservationTTL\<rparr>) (ae_now ae) of
                   (Inl e, store) \<Rightarrow> (writeReservationError ae e, with_store st store)
                 | (Inr result, store) \<Rightarrow> (json_reply 201 (ResultBody result), with_store st store))))"

text \<open>\<open>RecoverVerified\<close> for every reference, when there is a manager; its errors are dropped.\<close>

definition recover_refs :: "admin_env \<Rightarrow> route_ref list \<Rightarrow> admin_state \<Rightarrow> admin_state" where
  "recover_refs ae refs st =
     (case ad_manager st of
        None \<Rightarrow> st
      | Some m \<Rightarrow>
          (case fold (\<lambda>ref lst. snd (RecoverVerified (ae_lan ae) (ae_create ae) ref lst)) refs (m, ad_server st) of
             (m, sv) \<Rightarrow> st\<lparr>ad_manager := Some m, ad_server := sv\<rparr>))"

definition handleRouteReservation ::
  "admin_env \<Rightarrow> admin_state \<Rightarrow> http_request \<Rightarrow> json_body \<Rightarrow> reply \<times> admin_state" where
  "handleRouteReservation ae st r body =
     (if \<not> authorized (ae_token ae) r then (http_error 401 ''unauthorized'', st)
      else (let parts = split_on CHR ''/'' (trim_prefix (hr_path r) ''/v2/route-reservations/'') in
        if length parts > 2 \<or> hd parts = '''' then (http_error 400 ''invalid reservation path'', st)
        else (case path_unescape (hd parts) of
          None \<Rightarrow> (http_error 400 ''invalid run ID'', st)
        | Some runID \<Rightarrow>
            if runID = '''' then (http_error 400 ''invalid run ID'', st)
            else (case jb_refs body of
              None \<Rightarrow> (http_error 400 ''decode'', st)
            | Some refs \<Rightarrow>
                if length parts = 1 \<and> hr_method r = ''DELETE'' then
                  (case ReleaseRoutes file_update (ae_rng ae) (ad_store st) runID refs of
                     (Inl e, store) \<Rightarrow> (writeReservationError ae e, with_store st store)
                   | (Inr _, store) \<Rightarrow> (no_content, with_store st store))
                else if length parts \<noteq> 2 \<or> hr_method r \<noteq> ''POST'' then (http_error 405 ''method not allowed'', st)
                else if parts ! 1 = ''activate'' then
                  (case ActivateRoutes file_update (ae_rng ae) (ad_store st) runID refs (ae_now ae) DefaultRouteLeaseTTL of
                     (Inl e, store) \<Rightarrow> (writeReservationError ae e, with_store st store)
                   | (Inr routes, store) \<Rightarrow> (json_reply 200 (RoutesBody routes), with_store st store))
                else if parts ! 1 = ''renew'' then
                  (case RenewRoutes file_update (ae_rng ae) (ad_store st) runID refs (ae_now ae) DefaultRouteLeaseTTL of
                     (Inl e, store) \<Rightarrow> (writeReservationError ae e, with_store st store)
                   | (Inr _, store) \<Rightarrow> (no_content, recover_refs ae refs (with_store st store)))
                else (http_error 404 ''unknown reservation action'', st)))))"

text \<open>\<open>LANManager.Remove\<close> when there is a manager; an error is the list of the joined errors.\<close>

definition remove_share :: "admin_env \<Rightarrow> route_ref \<Rightarrow> admin_state \<Rightarrow> router_error list \<times> admin_state" where
  "remove_share ae ref st =
     (case ad_manager st of
        None \<Rightarrow> ([], st)
      | Some m \<Rightarrow>
          (case Remove (ae_rng ae) (ae_close ae) (ae_close ae) (ae_close ae) ref (m, ad_server st) of
             (errors, (m, sv)) \<Rightarrow> (errors, st\<lparr>ad_manager := Some m, ad_server := sv\<rparr>)))"

definition joined_reply :: "admin_env \<Rightarrow> router_error list \<Rightarrow> reply" where
  "joined_reply ae errors =
     http_error (if list_ex (\<lambda>e. reservation_error_status e = 409) errors then 409 else 400)
       (join [CHR 0x0A] (map (ae_text ae) errors))"

definition handleRouteRef :: "admin_env \<Rightarrow> admin_state \<Rightarrow> http_request \<Rightarrow> reply \<times> admin_state" where
  "handleRouteRef ae st r =
     (if \<not> authorized (ae_token ae) r then (http_error 401 ''unauthorized'', st)
      else if hr_method r \<noteq> ''DELETE'' then (http_error 405 ''method not allowed'', st)
      else (case split_on CHR ''/'' (trim_prefix (hr_path r) ''/v2/routes/'') of
              [rawID, rawGeneration] \<Rightarrow>
                (case path_unescape rawID of
                   None \<Rightarrow> (http_error 400 ''invalid route ID'', st)
                 | Some rid \<Rightarrow>
                     if rid = '''' then (http_error 400 ''invalid route ID'', st)
                     else (case parse_uint64 rawGeneration of
                       None \<Rightarrow> (http_error 400 ''invalid route generation'', st)
                     | Some generation \<Rightarrow>
                         if generation = 0 then (http_error 400 ''invalid route generation'', st)
                         else (let ref = \<lparr>ref_id = rid, ref_generation = generation\<rparr> in
                           case remove_share ae ref st of
                             (e # es, st) \<Rightarrow> (joined_reply ae (e # es), st)
                           | ([], st) \<Rightarrow>
                               (case DeleteRouteRef file_update (ae_rng ae) (ad_store st) ref of
                                  (Inl e, store) \<Rightarrow> (writeReservationError ae e, with_store st store)
                                | (Inr _, store) \<Rightarrow> (no_content, with_store st store)))))
            | _ \<Rightarrow> (http_error 400 ''route ID and generation are required'', st)))"

definition handleLANShare :: "admin_env \<Rightarrow> admin_state \<Rightarrow> http_request \<Rightarrow> json_body \<Rightarrow> admin_answer \<times> admin_state" where
  "handleLANShare ae st r body =
     (if \<not> authorized (ae_token ae) r then (Http (http_error 401 ''unauthorized''), st)
      else (case ad_manager st of
        None \<Rightarrow> (Http (http_error 503 ''LAN sharing is unavailable''), st)
      | Some m \<Rightarrow>
          (case jb_ref body of
             None \<Rightarrow> (Http (http_error 400 ''decode''), st)
           | Some ref \<Rightarrow>
               if hr_method r = ''POST'' then
                 (case create_in (ae_create ae) ref (m, ad_server st) of
                    (Inl e, (m, sv)) \<Rightarrow>
                      (Http (http_error 409 (ae_text ae e)), st\<lparr>ad_manager := Some m, ad_server := sv\<rparr>)
                  | (Inr result, (m, sv)) \<Rightarrow> (Shared result, st\<lparr>ad_manager := Some m, ad_server := sv\<rparr>))
               else if hr_method r = ''DELETE'' then
                 (case remove_share ae ref st of
                    (e # es, st) \<Rightarrow> (Http (http_error 409 (join [CHR 0x0A] (map (ae_text ae) (e # es)))), st)
                  | ([], st) \<Rightarrow> (Http no_content, st))
               else (Http (http_error 405 ''method not allowed''), st))))"

text \<open>
  \<open>AdminHandler\<close>: an exact pattern, or the longest subtree pattern. The handlers of \<open>router.go\<close> act on the
  store alone.
\<close>

definition on_store :: "admin_state \<Rightarrow> reply \<times> file_store \<Rightarrow> admin_answer \<times> admin_state" where
  "on_store st = (\<lambda>(reply, store). (Http reply, with_store st store))"

definition on_http :: "reply \<times> admin_state \<Rightarrow> admin_answer \<times> admin_state" where
  "on_http = (\<lambda>(reply, st). (Http reply, st))"

definition AdminHandler :: "admin_env \<Rightarrow> admin_state \<Rightarrow> http_request \<Rightarrow> json_body \<Rightarrow> admin_answer \<times> admin_state" where
  "AdminHandler ae st r body =
     (let path = hr_path r in
      if path = RouterIdentityPath then (Http (handleRouterIdentity (ae_instance ae) r), st)
      else if path = ''/health'' then (Http (Reply 200 [] (TextBody (''gohere-router'' @ [CHR 0x0A]))), st)
      else if path = ''/routes''
      then on_store st (handleRoutes (ae_http ae) (ae_token ae) (ae_rng ae) (ae_now ae) (ad_store st) r (jb_route body))
      else if path = ''/route-statuses''
      then on_store st (handleRouteStatuses (ae_http ae) (ae_token ae) (ae_now ae) (ad_store st) r)
      else if path = ''/v2/route-reservations'' then on_http (handleRouteReservations ae st r body)
      else if has_prefix path ''/v2/route-reservations/'' then on_http (handleRouteReservation ae st r body)
      else if has_prefix path ''/v2/routes/'' then on_http (handleRouteRef ae st r)
      else if path = ''/v2/lan-shares'' then handleLANShare ae st r body
      else if has_prefix path ''/routes/''
      then on_store st (handleRoute (ae_http ae) (ae_token ae) (ae_rng ae) (ad_store st) r)
      else if path = ''/probe-target''
      then on_store st (handleProbeTarget (ae_http ae) (ae_token ae) (ad_store st) r (jb_target body))
      else if path = ''/shutdown'' then
        (case handleShutdown (ae_token ae) (ae_shutdown ae) (ad_shutdown st) r of
           (reply, fired) \<Rightarrow> (Http reply, st\<lparr>ad_shutdown := fired\<rparr>))
      else (Http not_found, st))"

section \<open>The client\<close>

datatype client_error = ErrUnauthorized | ErrRouteStatusesUnsupported | ErrUnexpected string

text \<open>
  A request of the client as the server reads it: the path is escaped on the wire, the server's
  \<open>URL.Path\<close> is the unescaped one.
\<close>

definition client_request :: "string \<Rightarrow> string \<Rightarrow> string \<Rightarrow> http_request" where
  "client_request token verb path =
     \<lparr>hr_method = verb, hr_host = '''', hr_url_host = '''',
      hr_path = (case path_unescape path of None \<Rightarrow> path | Some p \<Rightarrow> p), hr_raw_path = '''', hr_escaped_path = path,
      hr_raw_query = '''', hr_force_query = False, hr_tls = False, hr_remote_addr = '''',
      hr_header = [(''X-Gohere-Token'', token)], hr_lan = None\<rparr>"

definition no_body :: json_body where
  "no_body = \<lparr>jb_route = None, jb_target = None, jb_reservation = None, jb_refs = None, jb_ref = None\<rparr>"

text \<open>The status line of \<open>net/http\<close> for the codes the server uses.\<close>

definition status_line :: "nat \<Rightarrow> string" where
  "status_line status = nat_digits status @ '' '' @
     (if status = 400 then ''Bad Request'' else if status = 404 then ''Not Found''
      else if status = 405 then ''Method Not Allowed'' else if status = 409 then ''Conflict''
      else if status = 500 then ''Internal Server Error'' else if status = 503 then ''Service Unavailable'' else '''')"

definition responseStatusError :: "string \<Rightarrow> string \<Rightarrow> nat \<Rightarrow> body \<Rightarrow> string" where
  "responseStatusError verb path status b =
     (let message = verb @ '' '' @ path @ '' returned '' @ status_line status;
          detail = (case b of TextBody text \<Rightarrow> trim_space text | _ \<Rightarrow> '''')
      in if detail = '''' then message else message @ '': '' @ detail)"

text \<open>The answer of \<open>doLifecycleRequest\<close>: the body of a success.\<close>

definition lifecycle_answer :: "string \<Rightarrow> string \<Rightarrow> admin_answer \<Rightarrow> (client_error, admin_answer) result" where
  "lifecycle_answer verb path answer =
     (case answer of
        Http (Reply status h b) \<Rightarrow>
          if status = 401 then Inl ErrUnauthorized
          else if status < 200 \<or> status \<ge> 300 then Inl (ErrUnexpected (responseStatusError verb path status b))
          else Inr answer
      | _ \<Rightarrow> Inr answer)"

text \<open>The answer of a call that accepts one status only.\<close>

definition expect_status :: "nat \<Rightarrow> string \<Rightarrow> string \<Rightarrow> admin_answer \<Rightarrow> (client_error, admin_answer) result" where
  "expect_status wanted verb path answer =
     (case answer of
        Http (Reply status h b) \<Rightarrow>
          if status = 401 then Inl ErrUnauthorized
          else if status \<noteq> wanted then Inl (ErrUnexpected (responseStatusError verb path status b))
          else Inr answer
      | _ \<Rightarrow> Inr answer)"

type_synonym 'a client_op = "admin_state \<Rightarrow> (client_error, 'a) result \<times> admin_state"

definition doLifecycleRequest :: "admin_env \<Rightarrow> string \<Rightarrow> string \<Rightarrow> string \<Rightarrow> json_body \<Rightarrow> admin_answer client_op" where
  "doLifecycleRequest ae token verb path body st =
     (case AdminHandler ae st (client_request token verb path) body of
        (answer, st) \<Rightarrow> (lifecycle_answer verb path answer, st))"

definition expect_call :: "nat \<Rightarrow> admin_env \<Rightarrow> string \<Rightarrow> string \<Rightarrow> string \<Rightarrow> json_body \<Rightarrow> admin_answer client_op" where
  "expect_call wanted ae token verb path body st =
     (case AdminHandler ae st (client_request token verb path) body of
        (answer, st) \<Rightarrow> (expect_status wanted verb path answer, st))"

definition no_value :: "(client_error, admin_answer) result \<times> admin_state \<Rightarrow> (client_error, unit) result \<times> admin_state" where
  "no_value = (\<lambda>(r, st). (case r of Inl e \<Rightarrow> Inl e | Inr _ \<Rightarrow> Inr (), st))"

text \<open>Decoding an answer of another type is the error of the decoder.\<close>

definition decoded :: "(admin_answer \<Rightarrow> 'a option) \<Rightarrow> (client_error, admin_answer) result \<times> admin_state
     \<Rightarrow> (client_error, 'a) result \<times> admin_state" where
  "decoded f = (\<lambda>(r, st).
     (case r of Inl e \<Rightarrow> Inl e | Inr answer \<Rightarrow> (case f answer of None \<Rightarrow> Inl (ErrUnexpected ''decode'') | Some x \<Rightarrow> Inr x), st))"

definition routes_of :: "admin_answer \<Rightarrow> route list option" where
  "routes_of answer = (case answer of Http (Reply _ _ (RoutesBody routes)) \<Rightarrow> Some routes | _ \<Rightarrow> None)"

definition statuses_of :: "admin_answer \<Rightarrow> (route \<times> string) list option" where
  "statuses_of answer = (case answer of Http (Reply _ _ (StatusBody statuses)) \<Rightarrow> Some statuses | _ \<Rightarrow> None)"

definition result_of :: "admin_answer \<Rightarrow> reservation_result option" where
  "result_of answer = (case answer of Http (Reply _ _ (ResultBody result)) \<Rightarrow> Some result | _ \<Rightarrow> None)"

definition reachable_of :: "admin_answer \<Rightarrow> bool option" where
  "reachable_of answer = (case answer of Http (Reply _ _ (ReachableBody ok)) \<Rightarrow> Some ok | _ \<Rightarrow> None)"

definition share_of :: "admin_answer \<Rightarrow> share_result option" where
  "share_of answer = (case answer of Shared result \<Rightarrow> Some result | _ \<Rightarrow> None)"

definition client_Health :: "admin_env \<Rightarrow> string \<Rightarrow> unit client_op" where
  "client_Health ae token st =
     (case AdminHandler ae st (client_request token ''GET'' ''/health'') no_body of
        (Http (Reply status h (TextBody text)), st) \<Rightarrow>
          (if status \<noteq> 200 then Inl (ErrUnexpected (''router health returned '' @ status_line status))
           else if trim_space text \<noteq> ''gohere-router'' then Inl (ErrUnexpected ''router health returned unexpected body'')
           else Inr (), st)
      | (_, st) \<Rightarrow> (Inl (ErrUnexpected ''router health returned unexpected body''), st))"

definition client_Routes :: "admin_env \<Rightarrow> string \<Rightarrow> route list client_op" where
  "client_Routes ae token st = decoded routes_of (expect_call 200 ae token ''GET'' ''/routes'' no_body st)"

definition client_RouteStatuses :: "admin_env \<Rightarrow> string \<Rightarrow> (route \<times> string) list client_op" where
  "client_RouteStatuses ae token st =
     (case AdminHandler ae st (client_request token ''GET'' ''/route-statuses'') no_body of
        (answer, st) \<Rightarrow>
          (case answer of
             Http (Reply status h b) \<Rightarrow>
               if status = 404 \<or> status = 405 then (Inl ErrRouteStatusesUnsupported, st)
               else decoded statuses_of (expect_status 200 ''GET'' ''/route-statuses'' answer, st)
           | _ \<Rightarrow> decoded statuses_of (Inr answer, st)))"

definition client_UpsertRoute :: "admin_env \<Rightarrow> string \<Rightarrow> route \<Rightarrow> unit client_op" where
  "client_UpsertRoute ae token route st =
     no_value (expect_call 204 ae token ''POST'' ''/routes'' (no_body\<lparr>jb_route := Some route\<rparr>) st)"

definition client_DeleteRoute :: "admin_env \<Rightarrow> string \<Rightarrow> string \<Rightarrow> unit client_op" where
  "client_DeleteRoute ae token host st =
     no_value (expect_call 204 ae token ''DELETE'' (''/routes/'' @ path_escape host) no_body st)"

definition client_ProbeTarget :: "admin_env \<Rightarrow> string \<Rightarrow> string \<Rightarrow> bool client_op" where
  "client_ProbeTarget ae token target st =
     decoded reachable_of (expect_call 200 ae token ''POST'' ''/probe-target'' (no_body\<lparr>jb_target := Some target\<rparr>) st)"

definition client_Shutdown :: "admin_env \<Rightarrow> string \<Rightarrow> unit client_op" where
  "client_Shutdown ae token st = no_value (expect_call 204 ae token ''POST'' ''/shutdown'' no_body st)"

definition client_CreateLANShare :: "admin_env \<Rightarrow> string \<Rightarrow> route_ref \<Rightarrow> share_result client_op" where
  "client_CreateLANShare ae token ref st =
     decoded share_of (expect_call 200 ae token ''POST'' ''/v2/lan-shares'' (no_body\<lparr>jb_ref := Some ref\<rparr>) st)"

definition client_DeleteLANShare :: "admin_env \<Rightarrow> string \<Rightarrow> route_ref \<Rightarrow> unit client_op" where
  "client_DeleteLANShare ae token ref st =
     no_value (expect_call 204 ae token ''DELETE'' ''/v2/lan-shares'' (no_body\<lparr>jb_ref := Some ref\<rparr>) st)"

definition reservationPath :: "string \<Rightarrow> string" where
  "reservationPath runID = ''/v2/route-reservations/'' @ path_escape runID"

definition doRefsRequest :: "admin_env \<Rightarrow> string \<Rightarrow> string \<Rightarrow> string \<Rightarrow> route_ref list \<Rightarrow> admin_answer client_op" where
  "doRefsRequest ae token verb path refs st = doLifecycleRequest ae token verb path (no_body\<lparr>jb_refs := Some refs\<rparr>) st"

definition client_ReserveRoutes :: "admin_env \<Rightarrow> string \<Rightarrow> reservation_request \<Rightarrow> reservation_result client_op" where
  "client_ReserveRoutes ae token request st =
     decoded result_of (doLifecycleRequest ae token ''POST'' ''/v2/route-reservations'' (no_body\<lparr>jb_reservation := Some request\<rparr>) st)"

definition client_ActivateRoutes :: "admin_env \<Rightarrow> string \<Rightarrow> string \<Rightarrow> route_ref list \<Rightarrow> route list client_op" where
  "client_ActivateRoutes ae token runID refs st =
     decoded routes_of (doRefsRequest ae token ''POST'' (reservationPath runID @ ''/activate'') refs st)"

definition client_ReleaseRoutes :: "admin_env \<Rightarrow> string \<Rightarrow> string \<Rightarrow> route_ref list \<Rightarrow> unit client_op" where
  "client_ReleaseRoutes ae token runID refs st =
     no_value (doRefsRequest ae token ''DELETE'' (reservationPath runID) refs st)"

definition client_RenewRoutes :: "admin_env \<Rightarrow> string \<Rightarrow> string \<Rightarrow> route_ref list \<Rightarrow> unit client_op" where
  "client_RenewRoutes ae token runID refs st =
     no_value (doRefsRequest ae token ''POST'' (reservationPath runID @ ''/renew'') refs st)"

definition client_DeleteRouteRef :: "admin_env \<Rightarrow> string \<Rightarrow> route_ref \<Rightarrow> unit client_op" where
  "client_DeleteRouteRef ae token ref st =
     no_value (doLifecycleRequest ae token ''DELETE''
       (''/v2/routes/'' @ path_escape (ref_id ref) @ ''/'' @ nat_digits (ref_generation ref)) no_body st)"

section \<open>Lemmas\<close>

text \<open>A segment that is its own escape's meaning after two rounds of decoding, and a clean path.\<close>

definition plain_segment :: "string \<Rightarrow> bool" where
  "plain_segment s \<longleftrightarrow> s \<noteq> '''' \<and> CHR ''/'' \<notin> set s \<and> CHR ''%'' \<notin> set s \<and> s \<noteq> ''.'' \<and> s \<noteq> ''..''"

lemma trim_prefix_append [simp]: "trim_prefix (p @ s) p = s"
  by (simp add: trim_prefix_def has_prefix_def)

lemma client_authorized [simp]: "token \<noteq> '''' \<Longrightarrow> authorized token (client_request token verb path)"
  by (simp add: authorized_def client_request_def header_get_def header_values_def)

lemma client_request_fields [simp]:
  "hr_method (client_request token verb path) = verb" "hr_escaped_path (client_request token verb path) = path"
  by (simp_all add: client_request_def)

lemma client_path: "path_unescape path = Some p \<Longrightarrow> hr_path (client_request token verb path) = p"
  by (simp add: client_request_def)

lemma reservation_unescape:
  "CHR ''%'' \<notin> set suf \<Longrightarrow> path_unescape (reservationPath runID @ suf) = Some (''/v2/route-reservations/'' @ runID @ suf)"
  unfolding reservationPath_def append_assoc
  by (subst path_unescape_plain_append) (simp_all add: path_unescape_escape_append path_unescape_plain)

lemma ref_unescape:
  "path_unescape (''/v2/routes/'' @ path_escape rid @ ''/'' @ nat_digits n) = Some (''/v2/routes/'' @ rid @ ''/'' @ nat_digits n)"
proof -
  have "CHR ''%'' \<notin> set (''/'' @ nat_digits n)" using nat_digits_digit [of "CHR ''%''" n] by (auto simp: byte_defs)
  then have "path_unescape (''/'' @ nat_digits n) = Some (''/'' @ nat_digits n)" by (rule path_unescape_plain)
  then show ?thesis
    by (subst path_unescape_plain_append) (simp_all add: path_unescape_escape_append del: append_Cons)
qed

lemmas dispatch = AdminHandler_def RouterIdentityPath_def has_prefix_def Let_def

lemma dispatch_reservation:
  assumes "hr_path r = ''/v2/route-reservations/'' @ rest"
  shows "AdminHandler ae st r body = on_http (handleRouteReservation ae st r body)"
  using assms by (simp add: dispatch)

lemma dispatch_ref:
  assumes "hr_path r = ''/v2/routes/'' @ rest"
  shows "AdminHandler ae st r body = on_http (handleRouteRef ae st r)"
  using assms by (simp add: dispatch)

lemma split_segments:
  "CHR ''/'' \<notin> set a \<Longrightarrow> CHR ''/'' \<notin> set b \<Longrightarrow> split_on CHR ''/'' (a @ ''/'' @ b) = [a, b]"
  using split_on_append_sep [of "CHR ''/''" a b] by (simp add: split_on_none)

lemma error_status_client: "reservation_error_status e = 400 \<or> reservation_error_status e = 409"
  by (cases e) simp_all

lemma error_status_bounds [simp]: "300 \<le> reservation_error_status e" "\<not> reservation_error_status e < 200"
  using error_status_client [of e] by auto

text \<open>The reply of a handler to the client of the lifecycle calls.\<close>

lemma lifecycle_answers [simp]:
  "lifecycle_answer verb path (Http no_content) = Inr (Http no_content)"
  "lifecycle_answer verb path (Http (json_reply 200 b)) = Inr (Http (json_reply 200 b))"
  "lifecycle_answer verb path (Http (json_reply 201 b)) = Inr (Http (json_reply 201 b))"
  "isl (lifecycle_answer verb path (Http (writeReservationError ae e)))"
  using error_status_client [of e]
  by (auto simp: lifecycle_answer_def no_content_def json_reply_def writeReservationError_def http_error_def)

text \<open>A call of the client against a call on the store: the same success or both fail, and the same store.\<close>

definition same_call :: "(client_error, 'a) result \<times> admin_state \<Rightarrow> (router_error, 'a) result \<times> file_store \<Rightarrow> bool" where
  "same_call client direct \<longleftrightarrow>
     (case (fst client, fst direct) of (Inr x, Inr y) \<Rightarrow> x = y | (Inl _, Inl _) \<Rightarrow> True | _ \<Rightarrow> False) \<and>
     ad_store (snd client) = snd direct"

lemma with_store_simps [simp]:
  "ad_store (with_store st store) = store" "ad_manager (with_store st store) = ad_manager st"
  by (simp_all add: with_store_def)

lemma handle_activate:
  assumes "authorized (ae_token ae) r" "hr_path r = ''/v2/route-reservations/'' @ runID @ ''/activate''" "plain_segment runID"
    "hr_method r = ''POST''" "jb_refs body = Some refs"
  shows "handleRouteReservation ae st r body =
    (case ActivateRoutes file_update (ae_rng ae) (ad_store st) runID refs (ae_now ae) DefaultRouteLeaseTTL of
       (Inl e, store) \<Rightarrow> (writeReservationError ae e, with_store st store)
     | (Inr routes, store) \<Rightarrow> (json_reply 200 (RoutesBody routes), with_store st store))"
proof -
  have "split_on CHR ''/'' (trim_prefix (hr_path r) ''/v2/route-reservations/'') = [runID, ''activate'']"
    unfolding assms(2) trim_prefix_append
    using assms(3) split_segments [of runID "''activate''"] by (simp add: plain_segment_def)
  with assms(1,3-) show ?thesis by (simp add: handleRouteReservation_def plain_segment_def path_unescape_plain)
qed

lemma handle_renew:
  assumes "authorized (ae_token ae) r" "hr_path r = ''/v2/route-reservations/'' @ runID @ ''/renew''" "plain_segment runID"
    "hr_method r = ''POST''" "jb_refs body = Some refs"
  shows "handleRouteReservation ae st r body =
    (case RenewRoutes file_update (ae_rng ae) (ad_store st) runID refs (ae_now ae) DefaultRouteLeaseTTL of
       (Inl e, store) \<Rightarrow> (writeReservationError ae e, with_store st store)
     | (Inr _, store) \<Rightarrow> (no_content, recover_refs ae refs (with_store st store)))"
proof -
  have "split_on CHR ''/'' (trim_prefix (hr_path r) ''/v2/route-reservations/'') = [runID, ''renew'']"
    unfolding assms(2) trim_prefix_append
    using assms(3) split_segments [of runID "''renew''"] by (simp add: plain_segment_def)
  with assms(1,3-) show ?thesis by (simp add: handleRouteReservation_def plain_segment_def path_unescape_plain)
qed

lemma handle_release:
  assumes "authorized (ae_token ae) r" "hr_path r = ''/v2/route-reservations/'' @ runID" "plain_segment runID"
    "hr_method r = ''DELETE''" "jb_refs body = Some refs"
  shows "handleRouteReservation ae st r body =
    (case ReleaseRoutes file_update (ae_rng ae) (ad_store st) runID refs of
       (Inl e, store) \<Rightarrow> (writeReservationError ae e, with_store st store)
     | (Inr _, store) \<Rightarrow> (no_content, with_store st store))"
proof -
  have "split_on CHR ''/'' (trim_prefix (hr_path r) ''/v2/route-reservations/'') = [runID]"
    unfolding assms(2) trim_prefix_append using assms(3) by (simp add: plain_segment_def split_on_none)
  with assms(1,3-) show ?thesis by (simp add: handleRouteReservation_def plain_segment_def path_unescape_plain)
qed

lemma handle_delete:
  assumes "authorized (ae_token ae) r" "hr_path r = ''/v2/routes/'' @ ref_id ref @ ''/'' @ nat_digits (ref_generation ref)"
    "plain_segment (ref_id ref)" "0 < ref_generation ref" "ref_generation ref < 2 ^ 64" "hr_method r = ''DELETE''"
    "ad_manager st = None"
  shows "handleRouteRef ae st r =
    (case DeleteRouteRef file_update (ae_rng ae) (ad_store st) ref of
       (Inl e, store) \<Rightarrow> (writeReservationError ae e, with_store st store)
     | (Inr _, store) \<Rightarrow> (no_content, with_store st store))"
proof -
  have "CHR ''/'' \<notin> set (nat_digits (ref_generation ref))"
    using nat_digits_digit [of "CHR ''/''"] by (auto simp: byte_defs)
  then have "split_on CHR ''/'' (trim_prefix (hr_path r) ''/v2/routes/'') = [ref_id ref, nat_digits (ref_generation ref)]"
    unfolding assms(2) trim_prefix_append using assms(3) split_segments by (simp add: plain_segment_def)
  moreover have "parse_uint64 (nat_digits (ref_generation ref)) = Some (ref_generation ref)"
    using assms(5) nat_digits_digit by (auto simp: parse_uint64_def digits_val_nat_digits list_all_iff)
  moreover have eta: "\<lparr>ref_id = ref_id ref, ref_generation = ref_generation ref\<rparr> = ref" by (cases ref) simp
  ultimately show ?thesis
    using assms(1,3-) by (simp add: handleRouteRef_def plain_segment_def path_unescape_plain remove_share_def Let_def eta)
qed

lemma expect_status_answers [simp]:
  "expect_status 204 verb path (Http no_content) = Inr (Http no_content)"
  by (simp add: expect_status_def no_content_def)

lemma same_callI:
  assumes "case direct of (Inl _, store) \<Rightarrow> isl r \<and> ad_store st = store | (Inr y, store) \<Rightarrow> r = Inr y \<and> ad_store st = store"
  shows "same_call (r, st) direct"
  using assms by (auto simp: same_call_def isl_def split: prod.splits sum.splits)

lemma case_answer_error [simp]:
  "(case lifecycle_answer verb path (Http (writeReservationError ae e)) of Inl x \<Rightarrow> Inl x | Inr answer \<Rightarrow> f answer) =
     Inl (projl (lifecycle_answer verb path (Http (writeReservationError ae e))))"
  using lifecycle_answers(4) [of verb path ae e]
  by (cases "lifecycle_answer verb path (Http (writeReservationError ae e))") simp_all

lemmas client_ops = doLifecycleRequest_def doRefsRequest_def on_http_def decoded_def no_value_def

lemma client_reserve:
  assumes "ae_token ae = token" "token \<noteq> ''''"
  shows "same_call (client_ReserveRoutes ae token request st)
    (ReserveRoutes file_update (ae_os ae) (he_net (ae_http ae)) (ae_rng ae) (ad_store st)
       (request\<lparr>rq_ttl := DefaultReservationTTL\<rparr>) (ae_now ae))"
proof -
  have path: "path_unescape ''/v2/route-reservations'' = Some ''/v2/route-reservations''"
    by (rule path_unescape_plain) simp
  show ?thesis
    using assms client_path [OF path]
    by (auto simp: client_ReserveRoutes_def client_ops AdminHandler_def RouterIdentityPath_def
        handleRouteReservations_def result_of_def json_reply_def lifecycle_answer_def same_call_def
        writeReservationError_def http_error_def split: sum.splits prod.splits)
qed

lemma client_activate:
  assumes "ae_token ae = token" "token \<noteq> ''''" "plain_segment runID"
  shows "same_call (client_ActivateRoutes ae token runID refs st)
    (ActivateRoutes file_update (ae_rng ae) (ad_store st) runID refs (ae_now ae) DefaultRouteLeaseTTL)"
proof -
  let ?r = "client_request token ''POST'' (reservationPath runID @ ''/activate'')"
  have path: "hr_path ?r = ''/v2/route-reservations/'' @ runID @ ''/activate''"
    by (rule client_path, rule reservation_unescape) simp
  have answer: "AdminHandler ae st ?r (no_body\<lparr>jb_refs := Some refs\<rparr>) = on_http
    (case ActivateRoutes file_update (ae_rng ae) (ad_store st) runID refs (ae_now ae) DefaultRouteLeaseTTL of
       (Inl e, store) \<Rightarrow> (writeReservationError ae e, with_store st store)
     | (Inr routes, store) \<Rightarrow> (json_reply 200 (RoutesBody routes), with_store st store))"
    unfolding dispatch_reservation [OF path] using assms by (subst handle_activate [OF _ path]) simp_all
  show ?thesis
    unfolding client_ActivateRoutes_def client_ops answer
    by (auto simp: routes_of_def json_reply_def lifecycle_answer_def same_call_def
        writeReservationError_def http_error_def split: sum.splits prod.splits)
qed

lemma client_release:
  assumes "ae_token ae = token" "token \<noteq> ''''" "plain_segment runID"
  shows "same_call (client_ReleaseRoutes ae token runID refs st)
    (ReleaseRoutes file_update (ae_rng ae) (ad_store st) runID refs)"
proof -
  let ?r = "client_request token ''DELETE'' (reservationPath runID)"
  have path: "hr_path ?r = ''/v2/route-reservations/'' @ runID"
    using reservation_unescape [of "[]" runID] by (simp add: client_path)
  have answer: "AdminHandler ae st ?r (no_body\<lparr>jb_refs := Some refs\<rparr>) = on_http
    (case ReleaseRoutes file_update (ae_rng ae) (ad_store st) runID refs of
       (Inl e, store) \<Rightarrow> (writeReservationError ae e, with_store st store)
     | (Inr _, store) \<Rightarrow> (no_content, with_store st store))"
    unfolding dispatch_reservation [OF path] using assms by (subst handle_release [OF _ path]) simp_all
  show ?thesis
    unfolding client_ReleaseRoutes_def client_ops answer
    by (auto simp: no_content_def lifecycle_answer_def same_call_def
        writeReservationError_def http_error_def split: sum.splits prod.splits)
qed

lemma client_renew:
  assumes "ae_token ae = token" "token \<noteq> ''''" "plain_segment runID" "ad_manager st = None"
  shows "same_call (client_RenewRoutes ae token runID refs st)
    (RenewRoutes file_update (ae_rng ae) (ad_store st) runID refs (ae_now ae) DefaultRouteLeaseTTL)"
proof -
  let ?r = "client_request token ''POST'' (reservationPath runID @ ''/renew'')"
  have path: "hr_path ?r = ''/v2/route-reservations/'' @ runID @ ''/renew''"
    by (rule client_path, rule reservation_unescape) simp
  have answer: "AdminHandler ae st ?r (no_body\<lparr>jb_refs := Some refs\<rparr>) = on_http
    (case RenewRoutes file_update (ae_rng ae) (ad_store st) runID refs (ae_now ae) DefaultRouteLeaseTTL of
       (Inl e, store) \<Rightarrow> (writeReservationError ae e, with_store st store)
     | (Inr _, store) \<Rightarrow> (no_content, recover_refs ae refs (with_store st store)))"
    unfolding dispatch_reservation [OF path] using assms by (subst handle_renew [OF _ path]) simp_all
  show ?thesis
    unfolding client_RenewRoutes_def client_ops answer
    using assms(4) by (auto simp: no_content_def lifecycle_answer_def same_call_def recover_refs_def
        writeReservationError_def http_error_def split: sum.splits prod.splits)
qed

lemma client_delete:
  assumes "ae_token ae = token" "token \<noteq> ''''" "plain_segment (ref_id ref)" "0 < ref_generation ref"
    "ref_generation ref < 2 ^ 64" "ad_manager st = None"
  shows "same_call (client_DeleteRouteRef ae token ref st)
    (DeleteRouteRef file_update (ae_rng ae) (ad_store st) ref)"
proof -
  let ?r = "client_request token ''DELETE'' (''/v2/routes/'' @ path_escape (ref_id ref) @ ''/'' @ nat_digits (ref_generation ref))"
  have path: "hr_path ?r = ''/v2/routes/'' @ ref_id ref @ ''/'' @ nat_digits (ref_generation ref)"
    by (rule client_path, rule ref_unescape)
  have answer: "AdminHandler ae st ?r no_body = on_http
    (case DeleteRouteRef file_update (ae_rng ae) (ad_store st) ref of
       (Inl e, store) \<Rightarrow> (writeReservationError ae e, with_store st store)
     | (Inr _, store) \<Rightarrow> (no_content, with_store st store))"
    unfolding dispatch_ref [OF path] using assms by (subst handle_delete [OF _ path]) simp_all
  show ?thesis
    unfolding client_DeleteRouteRef_def client_ops answer
    by (auto simp: no_content_def lifecycle_answer_def same_call_def
        writeReservationError_def http_error_def split: sum.splits prod.splits)
qed


text \<open>A server without a LAN manager, with an active and a pending route.\<close>

definition sample_ae :: admin_env where
  "sample_ae = \<lparr>ae_http = sample_http, ae_os = sample_os, ae_token = ''t'', ae_instance = ''i'', ae_shutdown = False,
     ae_rng = sample_rng, ae_now = 6, ae_text = (\<lambda>_. ''e''), ae_lan = sample_cfg,
     ae_create = \<lparr>ce_register = sample_register ''s'' ''q.local.'' (Inr ''r''), ce_current = (\<lambda>_. ''q.local.''), ce_rng = [], ce_now = 6,
       ce_network = (\<lambda>_. sample_network), ce_text = (\<lambda>_. ''e'')\<rparr>, ae_close = None\<rparr>"

definition sample_ad :: admin_state where
  "sample_ad = \<lparr>ad_manager = None, ad_server = \<lparr>sv_store = sample_pending_store, sv_routes = (\<lambda>_. None),
       sv_trust = \<lparr>tr_sessions = (\<lambda>_. None), tr_attempts = (\<lambda>_. None)\<rparr>\<rparr>, ad_shutdown = False\<rparr>"

lemma sample_ae_fields [simp]:
  "ae_token sample_ae = ''t''" "ae_rng sample_ae = sample_rng" "ae_now sample_ae = 6"
  "ae_os sample_ae = sample_os" "he_net (ae_http sample_ae) = sample_net" "he_path_unescape (ae_http sample_ae) = Some"
  by (simp_all add: sample_ae_def sample_http_def)


text \<open>The path of a request is decoded twice.\<close>

lemma handle_release_decoded:
  assumes "authorized (ae_token ae) r" "hr_path r = ''/v2/route-reservations/'' @ runID" "CHR ''/'' \<notin> set runID" "runID \<noteq> ''''"
    "path_unescape runID = Some twice" "twice \<noteq> ''''" "hr_method r = ''DELETE''" "jb_refs body = Some refs"
  shows "handleRouteReservation ae st r body =
    (case ReleaseRoutes file_update (ae_rng ae) (ad_store st) twice refs of
       (Inl e, store) \<Rightarrow> (writeReservationError ae e, with_store st store)
     | (Inr _, store) \<Rightarrow> (no_content, with_store st store))"
proof -
  have "split_on CHR ''/'' (trim_prefix (hr_path r) ''/v2/route-reservations/'') = [runID]"
    unfolding assms(2) trim_prefix_append using assms(3) by (simp add: split_on_none)
  with assms(1,3-) show ?thesis by (simp add: handleRouteReservation_def)
qed

text \<open>
  A run ID that holds a percent sign is not the run the server acts on: the server unescapes a path that
  \<open>net/url\<close> has unescaped already (\<open>handleRoute\<close> reads the escaped path instead), so that releasing the
  run \<open>%41\<close> releases the run \<open>A\<close>.
\<close>

theorem run_id_decoded_twice:
  "same_call (client_ReleaseRoutes (ae\<lparr>ae_token := ''t''\<rparr>) ''t'' ''%41'' refs st)
     (ReleaseRoutes file_update (ae_rng ae) (ad_store st) ''A'' refs)"
proof -
  let ?r = "client_request ''t'' ''DELETE'' (reservationPath ''%41'')"
  have path: "hr_path ?r = ''/v2/route-reservations/'' @ ''%41''"
    by (rule client_path) (use reservation_unescape [of "[]" "''%41''"] in simp)
  have twice: "path_unescape ''%41'' = Some ''A''" by code_simp
  have answer: "AdminHandler (ae\<lparr>ae_token := ''t''\<rparr>) st ?r (no_body\<lparr>jb_refs := Some refs\<rparr>) = on_http
    (case ReleaseRoutes file_update (ae_rng ae) (ad_store st) ''A'' refs of
       (Inl e, store) \<Rightarrow> (writeReservationError (ae\<lparr>ae_token := ''t''\<rparr>) e, with_store st store)
     | (Inr _, store) \<Rightarrow> (no_content, with_store st store))"
    unfolding dispatch_reservation [OF path] using twice by (subst handle_release_decoded [OF _ path]) simp_all
  show ?thesis
    unfolding client_ReleaseRoutes_def client_ops answer
    by (auto simp: no_content_def lifecycle_answer_def same_call_def
        writeReservationError_def http_error_def split: sum.splits prod.splits)
qed

text \<open>The sample server whose second route is shared on the LAN, and that route reserved anew.\<close>

definition sample_shared :: admin_state where
  "sample_shared = \<lparr>ad_manager = Some (fst sample_one), ad_server = snd sample_one, ad_shutdown = False\<rparr>"

definition sample_again :: route where
  "sample_again = sample_q\<lparr>rt_id := ''c''\<rparr>"

definition again_store :: file_store where
  "again_store = \<lparr>fs_file = RoutesFile [sample_p, sample_again], fs_lock_ok = True, fs_write_ok = True\<rparr>"

lemma sample_host_lower:
  "to_lower (rt_host sample_p) \<noteq> ''q.localhost''" "to_lower (rt_host sample_q) = ''q.localhost''"
  "to_lower ''q.localhost'' = ''q.localhost''" "to_lower ''p.localhost'' = ''p.localhost''"
  by (simp_all add: to_lower_def byte_defs)

lemma sample_only_p: "sortRoutes [r] = [r]"
  by (simp add: sortRoutes_def)

lemma sample_delete:
  "UpdateStore file_update rng (lan_store None (Some share)) (\<lambda>_. delete_host_update ''q.localhost'') =
     (Inr (), \<lparr>fs_file = RoutesFile [sample_p], fs_lock_ok = True, fs_write_ok = True\<rparr>)"
  by (simp add: lan_store_update delete_host_update_def sample_host_lower sample_only_p) (simp add: lan_store_def)

lemma sample_one_store: "\<exists>share. sv_store (snd sample_one) = lan_store None (Some share)"
  by (simp add: sample_one_def sample_defs lan_ops lan_store_ops Let_def, rule exI, rule refl)

lemma sample_one_pending: "lm_pending (fst sample_one) ''q.local.'' = Some (Ref sample_q)"
  by (simp add: sample_one_def sample_defs lan_ops lan_store_ops Let_def)

lemma sample_again_fields:
  "rt_id sample_again = ''c''" "rt_generation sample_again = 2" "rt_state sample_again = RouteStateActive"
  "rt_host sample_again = ''q.localhost''" "rt_lan_share sample_again = None"
  by (simp_all add: sample_again_def)

lemma sample_unregistered: "map_of (lm_registrations (fst sample_one)) (Ref sample_again) = None"
proof -
  have "map fst (lm_registrations (fst sample_one)) = [Ref sample_q]"
    by (simp add: sample_one_def sample_defs lan_ops lan_store_ops Let_def)
  moreover have "Ref sample_again \<noteq> Ref sample_q" by (simp add: Ref_def sample_again_fields)
  ultimately show ?thesis by (auto simp: map_of_eq_None_iff simp flip: set_map)
qed

text \<open>Deleting the shared route by its host name, as \<open>gohere\<close> does for a route of the store.\<close>

lemma sample_delete_call:
  "client_DeleteRoute sample_ae ''t'' ''q.localhost'' sample_shared =
     (Inr (), with_store sample_shared \<lparr>fs_file = RoutesFile [sample_p], fs_lock_ok = True, fs_write_ok = True\<rparr>)"
proof -
  obtain share where share: "ad_store sample_shared = lan_store None (Some share)"
    using sample_one_store by (auto simp: sample_shared_def)
  have esc: "path_escape ''q.localhost'' = ''q.localhost''" "path_unescape ''/routes/q.localhost'' = Some ''/routes/q.localhost''"
    "normalizeRouteHost ''q.localhost'' = Inr ''q.localhost''"
    by code_simp+
  have "trim_prefix ''/routes/q.localhost'' ''/routes/'' = ''q.localhost''" by code_simp
  with esc share show ?thesis
    by (simp add: client_DeleteRoute_def expect_call_def no_value_def AdminHandler_def dispatch client_path handleRoute_def
        on_store_def sample_delete expect_status_def)
qed

lemma again_store_load: "RouteStore_Load again_store = Inr [sample_p, sample_again]"
  by (simp add: RouteStore_Load_def file_load_def again_store_def sample_sorted sample_again_fields)

lemma again_index: "routeRefIndex [sample_p, sample_again] (Ref sample_again) = Some (Suc 0)"
  by (simp add: routeRefIndex_def Ref_def sample_again_fields)

lemma sample_again_request:
  "fst (RequestLANShare file_update rng again_store (Ref sample_again) now) =
     Inr (sample_again\<lparr>rt_lan_share := Some (requested_share ''q.local.'' now)\<rparr>)"
  by (simp add: RequestLANShare_def UpdateStore_def file_update_def file_load_def again_store_def sample_sorted
      sample_again_fields has_identity_def request_share_update_def again_index sample_requested EffectiveState_def Let_def)

text \<open>
  A LAN share survives the deletion of its route by host name, by prune or by expiry, because only \<open>handleRouteRef\<close>
  tells the LAN manager: the manager still holds the old reference and the pending name, so that once the
  host is reserved anew, under another reference, sharing it fails with an activation said to be in
  progress, while the server still holds the LAN name for the route that is gone.
\<close>

theorem deleted_route_blocks_sharing:
  "case client_DeleteRoute sample_ae ''t'' ''q.localhost'' sample_shared of (deleted, st) \<Rightarrow>
     deleted = Inr () \<and>
     map_option lb_ref (sv_routes (ad_server st) ''q.local.'') = Some (Ref sample_q) \<and>
     (case client_CreateLANShare sample_ae ''t'' (Ref sample_again) (with_store st again_store) of (shared, st') \<Rightarrow>
        isl shared \<and> fst (create_in (ae_create sample_ae) (Ref sample_again) (fst sample_one, ad_server (with_store st again_store))) =
          Inl (ErrMessage ''LAN share is already being activated''))"
proof -
  let ?sv = "(snd sample_one)\<lparr>sv_store := again_store\<rparr>"
  have "fst (create_begin (ce_rng (ae_create sample_ae)) 6 (ce_network (ae_create sample_ae) (Ref sample_again))
      (Ref sample_again) (fst sample_one, ?sv)) = Inl (ErrMessage ''LAN share is already being activated'')"
    using surjective_pairing [of "RequestLANShare file_update (ce_rng (ae_create sample_ae)) again_store (Ref sample_again) 6"]
    by (simp add: create_begin_def routeForRef_def again_store_load again_index sample_again_fields EffectiveState_def
        sample_again_request sample_one_pending Let_def case_prod_beta)
  then have create: "fst (create_in (ae_create sample_ae) (Ref sample_again) (fst sample_one, ?sv)) =
      Inl (ErrMessage ''LAN share is already being activated'')"
    by (auto simp: create_in_def Create_def sample_unregistered sample_ae_def split: prod.splits sum.splits)
  have server: "ad_server (with_store (with_store sample_shared t) again_store) = ?sv" for t
    by (simp add: with_store_def sample_shared_def)
  have manager: "ad_manager sample_shared = Some (fst sample_one)"
    by (simp add: sample_shared_def)
  have path: "hr_path (client_request ''t'' ''POST'' ''/v2/lan-shares'') = ''/v2/lan-shares''"
    by (rule client_path, rule path_unescape_plain) simp
  obtain st' where st': "create_in (ae_create sample_ae) (Ref sample_again) (fst sample_one, ?sv) =
      (Inl (ErrMessage ''LAN share is already being activated''), st')"
    using create by (metis prod.collapse)
  obtain m' sv' where fields: "st' = (m', sv')" by (rule prod.exhaust)
  have "AdminHandler sample_ae (with_store (with_store sample_shared t) again_store)
      (client_request ''t'' ''POST'' ''/v2/lan-shares'') (no_body\<lparr>jb_ref := Some (Ref sample_again)\<rparr>) =
    (Http (http_error 409 (ae_text sample_ae (ErrMessage ''LAN share is already being activated''))),
     (with_store (with_store sample_shared t) again_store)\<lparr>ad_manager := Some m', ad_server := sv'\<rparr>)" for t
    using path by (simp add: AdminHandler_def dispatch handleLANShare_def manager server st' fields)
  then have "isl (fst (client_CreateLANShare sample_ae ''t'' (Ref sample_again) (with_store (with_store sample_shared t) again_store)))" for t
    by (simp add: client_CreateLANShare_def expect_call_def decoded_def http_error_def expect_status_def)
  moreover have "map_option lb_ref (sv_routes (ad_server (with_store sample_shared t)) ''q.local.'') = Some (Ref sample_q)" for t
    using sample_one_eval(2) by (simp add: with_store_def sample_shared_def)
  ultimately show ?thesis
    unfolding sample_delete_call using create by (simp add: server case_prod_beta)
qed

end
