(* ===== verification/Route_Commands.thy ===== *)
theory Route_Commands
  imports Cli Admin_Api
begin

text \<open>
  The commands on the routes of a running router, \<open>internal/app/run.go\<close>: \<open>stop\<close>, \<open>prune\<close> and what they need,
  on the router's administration interface or, when no router answers, on the store.

  The interface \<open>adminClient\<close> is a record of operations on a client state \<open>'c\<close>; the interfaces a client may
  also implement (\<open>routeStatusClient\<close>, \<open>bridgeProbeClient\<close>, \<open>routeLifecycleClient\<close>) are options. The
  processes that were signalled are part of the result, latest first.
\<close>

section \<open>The interface and the errors\<close>

type_synonym ('c, 'a) client_call = "'c \<Rightarrow> (client_error, 'a) result \<times> 'c"

record 'c admin_ops =
  ao_routes :: "('c, route list) client_call"
  ao_delete :: "string \<Rightarrow> ('c, unit) client_call"
  ao_statuses :: "('c, (route \<times> string) list) client_call option"
  ao_probe :: "(string \<Rightarrow> ('c, bool) client_call) option"
  ao_delete_ref :: "(route_ref \<Rightarrow> ('c, unit) client_call) option"

datatype command_error =
    StaleToken
  | ClientError client_error
  | StoreError router_error
  | DeleteFailed string client_error
  | PruneFailed int string command_error
  | CouldNotStop string command_error
  | StopFailed command_error
  | AmbiguousProject string "string list" "string list"
  | AmbiguousName string "string list"
  | ContextDone
  | CommandError string

fun client_error_text :: "client_error \<Rightarrow> string" where
  "client_error_text ErrUnauthorized = ''gohere admin API unauthorized''"
| "client_error_text ErrRouteStatusesUnsupported = ''gohere admin API route statuses unsupported''"
| "client_error_text (ErrUnexpected message) = message"

definition routeRefMismatch :: "client_error \<Rightarrow> bool" where
  "routeRefMismatch e \<longleftrightarrow>
     contains (client_error_text e) ''route identity does not match'' \<or> contains (client_error_text e) ''409 Conflict''"

section \<open>The status of the routes\<close>

definition runOwnerEnv :: "proc_env \<Rightarrow> string" where
  "runOwnerEnv pv = (if pv_wsl pv then ''wsl'' else pv_goos pv)"

definition routeOwnedByCurrentEnv :: "proc_env \<Rightarrow> route \<Rightarrow> bool" where
  "routeOwnedByCurrentEnv pv r =
     (let owner = (if rt_owner_env r = '''' \<and> rt_source r = ''wsl'' then ''wsl'' else rt_owner_env r) in
      if owner = '''' \<or> owner \<noteq> runOwnerEnv pv then False
      else if owner \<noteq> ''wsl'' then True
      else if rt_owner_instance r = '''' \<or> rt_distro r = '''' \<or> rt_linux_user r = '''' then False
      else (case pv_metadata pv of
              None \<Rightarrow> False
            | Some metadata \<Rightarrow> rt_owner_instance r = wm_instance metadata \<and> rt_distro r = wm_distro metadata
                \<and> rt_linux_user r = wm_linux_user metadata))"

definition fallbackOwnedRouteStatus :: "proc_env \<Rightarrow> route \<Rightarrow> route_status_kind" where
  "fallbackOwnedRouteStatus pv r =
     (if rt_pid r > 0 \<and> \<not> PIDAlive pv (rt_pid r) then RouteStatusDead else pv_probe pv (rt_target r))"

text \<open>The lease of an active route has run out.\<close>

definition lapsed :: "time \<Rightarrow> route \<Rightarrow> bool" where
  "lapsed now r \<longleftrightarrow> EffectiveState r = RouteStateActive \<and> \<not> is_zero_time (rt_lease_expires_at r) \<and> RouteLeaseExpired r now"

text \<open>A status text of the server that is none of the four kinds is not dead either.\<close>

definition status_kind :: "string \<Rightarrow> route_status_kind" where
  "status_kind s =
     (if s = ''starting'' then RouteStatusStarting else if s = ''ready'' then RouteStatusReady
      else if s = ''dead'' then RouteStatusDead else RouteStatusUnknown)"

type_synonym route_status_pair = "route \<times> route_status_kind"

definition convert_status :: "proc_env \<Rightarrow> time \<Rightarrow> route \<times> string \<Rightarrow> route_status_pair" where
  "convert_status pv now = (\<lambda>(r, s).
     (r, if s = ''unknown'' \<and> routeOwnedByCurrentEnv pv r \<and> \<not> lapsed now r
         then fallbackOwnedRouteStatus pv r else status_kind s))"

definition convertAdminStatuses :: "(route \<Rightarrow> proc_env) \<Rightarrow> time \<Rightarrow> (route \<times> string) list \<Rightarrow> route_status_pair list" where
  "convertAdminStatuses env now statuses = map (\<lambda>status. convert_status (env (fst status)) now status) statuses"

text \<open>The outcome of a call on the client.\<close>

type_synonym ('c, 'a) app_call = "'c \<Rightarrow> (command_error, 'a) result \<times> 'c"

definition fallbackLocalRouteStatuses :: "'c admin_ops \<Rightarrow> (route \<Rightarrow> proc_env) \<Rightarrow> ('c, route_status_pair list) app_call" where
  "fallbackLocalRouteStatuses ops env c =
     (case ao_routes ops c of
        (Inl e, c) \<Rightarrow> (Inl (ClientError e), c)
      | (Inr routes, c) \<Rightarrow>
          (Inr (map (\<lambda>r. (r, if routeOwnedByCurrentEnv (env r) r then fallbackOwnedRouteStatus (env r) r
                              else RouteStatusUnknown)) routes), c))"

definition probed_status :: "proc_env \<Rightarrow> route \<Rightarrow> (client_error, bool) result \<Rightarrow> route_status_kind" where
  "probed_status pv r reachable =
     (case reachable of
        Inl _ \<Rightarrow> RouteStatusUnknown
      | Inr True \<Rightarrow> RouteStatusReady
      | Inr False \<Rightarrow> if routeOwnedByCurrentEnv pv r then fallbackOwnedRouteStatus pv r else RouteStatusUnknown)"

text \<open>The loop over the routes; \<open>cancelled\<close> says whether the context is done before a route is probed.\<close>

fun probe_statuses ::
  "(string \<Rightarrow> ('c, bool) client_call) \<Rightarrow> (route \<Rightarrow> proc_env) \<Rightarrow> (route \<Rightarrow> bool) \<Rightarrow> route list
     \<Rightarrow> ('c, route_status_pair list) app_call" where
  "probe_statuses probe env cancelled [] c = (Inr [], c)"
| "probe_statuses probe env cancelled (r # routes) c =
     (if cancelled r then (Inl ContextDone, c)
      else (case probe (rt_target r) c of (reachable, c) \<Rightarrow>
        (if reachable = Inl ErrUnauthorized then (Inl (ClientError ErrUnauthorized), c)
         else (case probe_statuses probe env cancelled routes c of
                 (Inl e, c) \<Rightarrow> (Inl e, c)
               | (Inr statuses, c) \<Rightarrow> (Inr ((r, probed_status (env r) r reachable) # statuses), c)))))"

definition adminProbeRouteStatuses ::
  "'c admin_ops \<Rightarrow> (string \<Rightarrow> ('c, bool) client_call) \<Rightarrow> (route \<Rightarrow> proc_env) \<Rightarrow> bool \<Rightarrow> (route \<Rightarrow> bool)
     \<Rightarrow> ('c, route_status_pair list) app_call" where
  "adminProbeRouteStatuses ops probe env done cancelled c =
     (if done then (Inl ContextDone, c)
      else (case ao_routes ops c of
              (Inl e, c) \<Rightarrow> (Inl (ClientError e), c)
            | (Inr routes, c) \<Rightarrow> probe_statuses probe env cancelled routes c))"

record command_env =
  co_pv :: proc_env
  co_env :: "route \<Rightarrow> proc_env"
  co_time :: time
  co_done :: bool
  co_cancelled :: "route \<Rightarrow> bool"

definition adminRouteStatuses :: "'c admin_ops \<Rightarrow> command_env \<Rightarrow> ('c, route_status_pair list) app_call" where
  "adminRouteStatuses ops ce c =
     (case ao_statuses ops of
        Some statuses \<Rightarrow>
          (case statuses c of
             (Inr found, c) \<Rightarrow> (Inr (convertAdminStatuses (co_env ce) (co_time ce) found), c)
           | (Inl ErrRouteStatusesUnsupported, c) \<Rightarrow>
               (case ao_probe ops of
                  Some probe \<Rightarrow> adminProbeRouteStatuses ops probe (co_env ce) (co_done ce) (co_cancelled ce) c
                | None \<Rightarrow> fallbackLocalRouteStatuses ops (co_env ce) c)
           | (Inl e, c) \<Rightarrow> (Inl (ClientError e), c))
      | None \<Rightarrow>
          (case ao_probe ops of
             Some probe \<Rightarrow> adminProbeRouteStatuses ops probe (co_env ce) (co_done ce) (co_cancelled ce) c
           | None \<Rightarrow>
               (case ao_routes ops c of
                  (Inl e, c) \<Rightarrow> (Inl (ClientError e), c)
                | (Inr routes, c) \<Rightarrow> (Inr (RouteStatusesWithRouterReady (co_env ce) (co_time ce) routes True), c))))"

section \<open>Deleting and pruning\<close>

definition deleteAdminRoute :: "'c admin_ops \<Rightarrow> string \<Rightarrow> ('c, unit) app_call" where
  "deleteAdminRoute ops host c =
     (case ao_delete ops host c of (Inl e, c) \<Rightarrow> (Inl (DeleteFailed host e), c) | (Inr _, c) \<Rightarrow> (Inr (), c))"

definition deleteAdminRouteIdentity :: "'c admin_ops \<Rightarrow> route \<Rightarrow> ('c, unit) app_call" where
  "deleteAdminRouteIdentity ops r c =
     (case (if has_identity r then ao_delete_ref ops else None) of
        None \<Rightarrow> deleteAdminRoute ops (rt_host r) c
      | Some delete \<Rightarrow>
          (case delete (Ref r) c of
             (Inr _, c) \<Rightarrow> (Inr (), c)
           | (Inl e, c) \<Rightarrow>
               (if e = ErrUnauthorized then Inl StaleToken
                else if routeRefMismatch e then Inr ()
                else Inl (ClientError e), c)))"

text \<open>The routes \<open>prune\<close> deletes; a WSL route only once its reservation or its lease has run out.\<close>

definition admin_prunable :: "time \<Rightarrow> route_status_pair \<Rightarrow> bool" where
  "admin_prunable now = (\<lambda>(r, status).
     (let expiredReservation = (EffectiveState r = RouteStatePending \<and> RouteReservationExpired r now);
          expiredLease = lapsed now r
      in (status = RouteStatusDead \<or> expiredReservation \<or> expiredLease)
         \<and> \<not> (rt_owner_env r = ''wsl'' \<and> \<not> expiredReservation \<and> \<not> RouteLeaseExpired r now)))"

fun prune_loop :: "'c admin_ops \<Rightarrow> time \<Rightarrow> route_status_pair list \<Rightarrow> int \<Rightarrow> ('c, int) app_call" where
  "prune_loop ops now [] removed c = (Inr removed, c)"
| "prune_loop ops now (status # statuses) removed c =
     (if \<not> admin_prunable now status then prune_loop ops now statuses removed c
      else (case deleteAdminRouteIdentity ops (fst status) c of
              (Inl e, c) \<Rightarrow> (Inl (PruneFailed removed (rt_host (fst status)) e), c)
            | (Inr _, c) \<Rightarrow> prune_loop ops now statuses (removed + 1) c))"

definition pruneAdminRoutes :: "'c admin_ops \<Rightarrow> command_env \<Rightarrow> time \<Rightarrow> ('c, int) app_call" where
  "pruneAdminRoutes ops ce now c =
     (case adminRouteStatuses ops ce c of
        (Inl e, c) \<Rightarrow> (Inl (if e = ClientError ErrUnauthorized then StaleToken else e), c)
      | (Inr statuses, c) \<Rightarrow> prune_loop ops now statuses 0 c)"

definition printPruneResult :: "int \<Rightarrow> string" where
  "printPruneResult removed =
     (if removed = 0 then ''No dead routes.''
      else if removed = 1 then ''Removed 1 dead route.''
      else ''Removed '' @ itoa removed @ '' dead routes.'')"

section \<open>The routes a command means\<close>

definition routesMatchingProjectName :: "route list \<Rightarrow> string \<Rightarrow> route list" where
  "routesMatchingProjectName routes name = filter (\<lambda>r. rt_project_name r = name) routes"

definition routeShortName :: "route \<Rightarrow> string" where
  "routeShortName r = takeWhile (\<lambda>c. c \<noteq> CHR ''.'') (trim_suffix (rt_host r) ''.localhost'')"

text \<open>The loop of \<open>routesMatchingRouteName\<close>: the first route of each host.\<close>

fun matching_names :: "string \<Rightarrow> string list \<Rightarrow> route list \<Rightarrow> route list" where
  "matching_names name seen [] = []"
| "matching_names name seen (r # routes) =
     (if rt_name r \<noteq> name \<and> routeShortName r \<noteq> name then matching_names name seen routes
      else if rt_host r \<in> set seen then matching_names name seen routes
      else r # matching_names name (rt_host r # seen) routes)"

definition routesMatchingRouteName :: "route list \<Rightarrow> string \<Rightarrow> route list" where
  "routesMatchingRouteName routes name = matching_names name [] routes"

definition sameRouteHosts :: "route list \<Rightarrow> route list \<Rightarrow> bool" where
  "sameRouteHosts a b \<longleftrightarrow> length a = length b \<and> list_all (\<lambda>r. rt_host r \<in> set (map rt_host a)) b"

definition resolveStopTarget :: "route list \<Rightarrow> string \<Rightarrow> (command_error, route list) result" where
  "resolveStopTarget routes target =
     (let target = trim_space target in
      if target = '''' then Inr []
      else (case find (\<lambda>r. rt_host r = target) routes of
        Some r \<Rightarrow> Inr [r]
      | None \<Rightarrow>
          (case (if CHR ''.'' \<in> set target \<and> \<not> has_suffix target ''.localhost''
                 then find (\<lambda>r. rt_host r = target @ ''.localhost'') routes else None) of
             Some r \<Rightarrow> Inr [r]
           | None \<Rightarrow>
               (let projectMatches = routesMatchingProjectName routes target;
                    nameMatches = routesMatchingRouteName routes target in
                if projectMatches \<noteq> [] \<and> nameMatches \<noteq> [] then
                  (if sameRouteHosts projectMatches nameMatches then Inr projectMatches
                   else Inl (AmbiguousProject target (map rt_host projectMatches) (map rt_host nameMatches)))
                else if projectMatches \<noteq> [] then Inr projectMatches
                else if length nameMatches \<le> 1 then Inr nameMatches
                else Inl (AmbiguousName target (map rt_host nameMatches))))))"

section \<open>Stopping\<close>

datatype route_stop_action = StopActionDelete | StopActionTerminate

definition foreignRouteStopReason :: "route \<Rightarrow> string" where
  "foreignRouteStopReason r =
     (if rt_owner_env r = ''wsl'' \<or> rt_source r = ''wsl'' then
        (let owner = trim (\<lambda>c. c = CHR ''/'') (rt_distro r @ ''/'' @ rt_linux_user r);
             owner = (if owner = '''' then ''another WSL owner'' else owner)
         in ''route belongs to '' @ owner @ ''; run gohere stop in that WSL owner.'')
      else ''route belongs to another environment.'')"

definition foreign_route :: "proc_env \<Rightarrow> route \<Rightarrow> bool" where
  "foreign_route pv r \<longleftrightarrow> (rt_owner_env r \<noteq> '''' \<or> rt_source r = ''wsl'') \<and> \<not> routeOwnedByCurrentEnv pv r"

text \<open>The action, or the reason to skip the route.\<close>

definition stopAction :: "proc_env \<Rightarrow> time \<Rightarrow> route \<Rightarrow> route_stop_action + string" where
  "stopAction pv now r =
     (if foreign_route pv r then Inr (foreignRouteStopReason r)
      else if \<not> PIDAlive pv (rt_pid r) \<or> route_status_of pv now True r = RouteStatusDead then Inl StopActionDelete
      else if RouteProcessVerified pv r then Inl StopActionTerminate
      else Inr ''could not verify the original gohere process.'')"

definition skip_route :: "route \<Rightarrow> string \<Rightarrow> stop_result \<Rightarrow> stop_result" where
  "skip_route r reason result = result\<lparr>sp_skipped := sp_skipped result @ [(rt_host r, reason)]\<rparr>"

definition add_host :: "route \<Rightarrow> stop_result \<Rightarrow> stop_result" where
  "add_host r result = result\<lparr>sp_hosts := sp_hosts result @ [rt_host r]\<rparr>"

text \<open>The outcome of a stop: the error if any, the result so far, the stopped processes, and the client.\<close>

type_synonym 'c stop_outcome = "command_error option \<times> stop_result \<times> int list \<times> 'c"

fun stop_routes_loop :: "'c admin_ops \<Rightarrow> (route \<Rightarrow> proc_env) \<Rightarrow> time \<Rightarrow> route list \<Rightarrow> stop_result \<Rightarrow> int list \<Rightarrow> 'c \<Rightarrow> 'c stop_outcome" where
  "stop_routes_loop ops env now [] result killed c = (None, result, killed, c)"
| "stop_routes_loop ops env now (r # routes) result killed c =
     (let result = result\<lparr>sp_matched_host := rt_host r\<rparr> in
      case stopAction (env r) now r of
        Inr reason \<Rightarrow> stop_routes_loop ops env now routes (skip_route r reason result) killed c
      | Inl action \<Rightarrow>
          (let terminate = (action = StopActionTerminate);
               killed = (if terminate then rt_pid r # killed else killed);
               result = (if terminate then result\<lparr>sp_stopped := True\<rparr> else result)
           in case deleteAdminRouteIdentity ops r c of
                (Inl e, c) \<Rightarrow> (Some e, result, killed, c)
              | (Inr _, c) \<Rightarrow> stop_routes_loop ops env now routes (add_host r result) killed c))"

definition stopAdminRoutes :: "'c admin_ops \<Rightarrow> command_env \<Rightarrow> route list \<Rightarrow> 'c \<Rightarrow> 'c stop_outcome" where
  "stopAdminRoutes ops ce routes c = stop_routes_loop ops (co_env ce) (co_time ce) routes no_stop [] c"

fun stop_cwds_loop ::
  "'c admin_ops \<Rightarrow> (route \<Rightarrow> proc_env) \<Rightarrow> time \<Rightarrow> string list \<Rightarrow> route list \<Rightarrow> stop_result \<Rightarrow> int list \<Rightarrow> 'c \<Rightarrow> 'c stop_outcome" where
  "stop_cwds_loop ops env now absCWDs [] result killed c = (None, result, killed, c)"
| "stop_cwds_loop ops env now absCWDs (r # routes) result killed c =
     (if \<not> RouteMatchesAnyCWD (env r) r absCWDs \<or> foreign_route (env r) r
      then stop_cwds_loop ops env now absCWDs routes result killed c
      else (let result = result\<lparr>sp_matched_host := rt_host r\<rparr> in
        if \<not> PIDAlive (env r) (rt_pid r) \<or> route_status_of (env r) now True r = RouteStatusDead then
          (case deleteAdminRouteIdentity ops r c of
             (Inl e, c) \<Rightarrow> (Some e, result, killed, c)
           | (Inr _, c) \<Rightarrow> stop_cwds_loop ops env now absCWDs routes (add_host r result) killed c)
        else if RouteProcessVerified (env r) r then
          (case deleteAdminRouteIdentity ops r c of
             (Inl e, c) \<Rightarrow> (Some e, result, rt_pid r # killed, c)
           | (Inr _, c) \<Rightarrow> stop_cwds_loop ops env now absCWDs routes ((add_host r result)\<lparr>sp_stopped := True\<rparr>) (rt_pid r # killed) c)
        else stop_cwds_loop ops env now absCWDs routes
               (result\<lparr>sp_warning := (if sp_warning result = '''' then UnverifiedProcessWarning (rt_pid r) else sp_warning result)\<rparr>)
               killed c))"

definition stopAdminCWDs :: "'c admin_ops \<Rightarrow> command_env \<Rightarrow> string list \<Rightarrow> 'c \<Rightarrow> 'c stop_outcome" where
  "stopAdminCWDs ops ce cwds c =
     (case ao_routes ops c of
        (Inl e, c) \<Rightarrow> (Some (if e = ErrUnauthorized then StaleToken else ClientError e), no_stop, [], c)
      | (Inr routes, c) \<Rightarrow>
          (case AbsCWDSet (co_pv ce) cwds of
             Inl e \<Rightarrow> (Some (StoreError e), no_stop, [], c)
           | Inr absCWDs \<Rightarrow> stop_cwds_loop ops (co_env ce) (co_time ce) absCWDs routes no_stop [] c))"

text \<open>
  On the store: the selected routes by reference, those without an identity by host; \<open>s\<close> is the store
  at the load, \<open>s'\<close> the store at the update.
\<close>

definition appRouteUpdateKey :: "proc_env \<Rightarrow> route \<Rightarrow> string" where
  "appRouteUpdateKey pv r =
     rt_host r @ [NUL] @ rt_target r @ [NUL] @ itoa (rt_pid r) @ [NUL] @ rt_process_identity r @ [NUL]
       @ pv_format pv rfc3339_nano (rt_started_at r)"

definition selected_route :: "route list \<Rightarrow> route \<Rightarrow> bool" where
  "selected_route selected r \<longleftrightarrow>
     Ref r \<in> set (map Ref (filter has_identity selected)) \<or>
     rt_id r = '''' \<and> rt_host r \<in> set (map rt_host (filter (\<lambda>s. \<not> has_identity s) selected))"

definition mark_stopped :: "proc_env \<Rightarrow> route \<Rightarrow> marks \<Rightarrow> marks" where
  "mark_stopped pv r = (\<lambda>(refs, legacy).
     if has_identity r then (Ref r # refs, legacy) else (refs, appRouteUpdateKey pv r # legacy))"

definition stop_store_route :: "(route \<Rightarrow> proc_env) \<Rightarrow> time \<Rightarrow> route list \<Rightarrow> route \<Rightarrow> stop_state \<Rightarrow> stop_state" where
  "stop_store_route env now selected r = (\<lambda>(result, marks, killed).
     if \<not> selected_route selected r then (result, marks, killed)
     else (let result = result\<lparr>sp_matched_host := rt_host r\<rparr> in
       case stopAction (env r) now r of
         Inr reason \<Rightarrow> (skip_route r reason result, marks, killed)
       | Inl action \<Rightarrow>
           (let terminate = (action = StopActionTerminate);
                result = (if terminate then result\<lparr>sp_stopped := True\<rparr> else result)
            in (add_host r result, mark_stopped (env r) r marks, if terminate then rt_pid r # killed else killed))))"

definition stopStoreRoutes ::
  "command_env \<Rightarrow> rng \<Rightarrow> file_store \<Rightarrow> file_store \<Rightarrow> route list \<Rightarrow> router_error option \<times> stop_result \<times> int list \<times> file_store" where
  "stopStoreRoutes ce rng s s' selected =
     (case RouteStore_Load s of
        Inl e \<Rightarrow> (Some e, no_stop, [], s')
      | Inr routes \<Rightarrow>
          remove_after_stop file_update (co_pv ce) rng s'
            (fold (stop_store_route (co_env ce) (co_time ce) selected) routes (no_stop, ([], []), [])))"

section \<open>The commands\<close>

text \<open>The lines \<open>printStopResults\<close> writes.\<close>

definition printStopResults :: "stop_result \<Rightarrow> string list" where
  "printStopResults result =
     (if sp_warning result \<noteq> '''' then [sp_warning result] else []) @
     map (\<lambda>(host, reason). ''Skipped '' @ host @ '': '' @ reason) (sp_skipped result) @
     (if sp_hosts result = [] then
        (if sp_warning result \<noteq> '''' \<or> sp_skipped result \<noteq> [] then []
         else [''No running gohere project found for this folder.''])
      else map (\<lambda>host. ''Stopped '' @ host @ ''.'') (sp_hosts result))"

text \<open>
  \<open>routeManager\<close>: the client when a router answers, the store otherwise. The world of a command is the
  client's state and the store, which another process may change before the update (\<open>cw_later\<close>).
\<close>

record 'c command_world =
  cw_client :: 'c
  cw_store :: file_store
  cw_later :: "file_store \<Rightarrow> file_store"
  cw_killed :: "int list"

record 'c route_manager =
  rm_client :: "'c admin_ops option"
  rm_router_ready :: bool

text \<open>
  The answers outside: whether this is WSL, the local client and its health, the companion's client.
\<close>

record 'c manager_answers =
  ma_wsl :: bool
  ma_local :: "'c admin_ops option"
  ma_healthy :: bool
  ma_companion :: "(command_error, 'c admin_ops) result"

definition resolveRouteManager :: "'c manager_answers \<Rightarrow> (command_error, 'c route_manager) result" where
  "resolveRouteManager a =
     (if \<not> ma_wsl a then
        (case ma_local a of
           Some client \<Rightarrow> Inr (if ma_healthy a then \<lparr>rm_client = Some client, rm_router_ready = True\<rparr>
                              else \<lparr>rm_client = None, rm_router_ready = False\<rparr>)
         | None \<Rightarrow> Inr \<lparr>rm_client = None, rm_router_ready = False\<rparr>)
      else (case ma_companion a of
              Inl e \<Rightarrow> Inl e
            | Inr client \<Rightarrow> Inr \<lparr>rm_client = Some client, rm_router_ready = True\<rparr>))"

definition routeManagerRoutes ::
  "'c route_manager \<Rightarrow> 'c command_world \<Rightarrow> (command_error, route list) result \<times> 'c command_world" where
  "routeManagerRoutes manager w =
     (case rm_client manager of
        Some ops \<Rightarrow>
          (case ao_routes ops (cw_client w) of
             (Inl e, c) \<Rightarrow> (Inl (if e = ErrUnauthorized then StaleToken else ClientError e), w\<lparr>cw_client := c\<rparr>)
           | (Inr routes, c) \<Rightarrow> (Inr routes, w\<lparr>cw_client := c\<rparr>))
      | None \<Rightarrow>
          ((case RouteStore_Load (cw_store w) of Inl e \<Rightarrow> Inl (StoreError e) | Inr routes \<Rightarrow> Inr routes), w))"

text \<open>The output lines of a stop, or its error with the last matched host.\<close>

definition stop_report :: "command_error option \<Rightarrow> stop_result \<Rightarrow> (command_error, string list) result" where
  "stop_report err result =
     (case err of
        None \<Rightarrow> Inr (printStopResults result)
      | Some e \<Rightarrow> Inl (if sp_matched_host result \<noteq> '''' then CouldNotStop (sp_matched_host result) e else StopFailed e))"

definition on_client :: "'c command_world \<Rightarrow> 'c stop_outcome \<Rightarrow> (command_error, string list) result \<times> 'c command_world" where
  "on_client w = (\<lambda>(err, result, killed, c). (stop_report err result, w\<lparr>cw_client := c, cw_killed := killed @ cw_killed w\<rparr>))"

definition on_file :: "'c command_world \<Rightarrow> router_error option \<times> stop_result \<times> int list \<times> file_store
     \<Rightarrow> (command_error, string list) result \<times> 'c command_world" where
  "on_file w = (\<lambda>(err, result, killed, s).
     (stop_report (map_option StoreError err) result, w\<lparr>cw_store := s, cw_killed := killed @ cw_killed w\<rparr>))"

definition stopExplicitRoutes ::
  "command_env \<Rightarrow> rng \<Rightarrow> 'c route_manager \<Rightarrow> command \<Rightarrow> 'c command_world
     \<Rightarrow> (command_error, string list) result \<times> 'c command_world" where
  "stopExplicitRoutes ce rng manager cmd w =
     (case routeManagerRoutes manager w of
        (Inl e, w) \<Rightarrow> (Inl e, w)
      | (Inr routes, w) \<Rightarrow>
          (case (if cmd_stop_all cmd then Inr routes else resolveStopTarget routes (cmd_stop_target cmd)) of
             Inl e \<Rightarrow> (Inl e, w)
           | Inr selected \<Rightarrow>
               if selected = [] then
                 (Inr [if cmd_stop_all cmd then ''No active routes.'' else ''No matching gohere route found.''], w)
               else (case rm_client manager of
                       Some ops \<Rightarrow> on_client w (stopAdminRoutes ops ce selected (cw_client w))
                     | None \<Rightarrow> on_file w (stopStoreRoutes ce rng (cw_store w) (cw_later w (cw_store w)) selected))))"

text \<open>\<open>packages\<close> is the answer of \<open>project.DiscoverWorkspacePackageDirs\<close>: the directories, if this is a workspace.\<close>

definition stopCandidateCWDs :: "(command_error, string list option) result \<Rightarrow> string \<Rightarrow> (command_error, string list) result" where
  "stopCandidateCWDs packages cwd =
     (case packages of
        Inl e \<Rightarrow> Inl e
      | Inr None \<Rightarrow> Inr [cwd]
      | Inr (Some dirs) \<Rightarrow> Inr (cwd # dirs))"

definition StopWithCommand ::
  "command_env \<Rightarrow> rng \<Rightarrow> 'c manager_answers \<Rightarrow> (command_error, string list option) result \<Rightarrow> command \<Rightarrow> string
     \<Rightarrow> 'c command_world \<Rightarrow> (command_error, string list) result \<times> 'c command_world" where
  "StopWithCommand ce rng answers packages cmd cwd w =
     (case resolveRouteManager answers of
        Inl e \<Rightarrow> (Inl e, w)
      | Inr manager \<Rightarrow>
          if cmd_stop_all cmd \<or> cmd_stop_target cmd \<noteq> '''' then stopExplicitRoutes ce rng manager cmd w
          else (case stopCandidateCWDs packages cwd of
            Inl e \<Rightarrow> (Inl e, w)
          | Inr cwds \<Rightarrow>
              (case rm_client manager of
                 Some ops \<Rightarrow> on_client w (stopAdminCWDs ops ce cwds (cw_client w))
               | None \<Rightarrow> on_file w (StopCWDs RouteStore_Load file_update (co_pv ce) (co_env ce) rng (cw_store w)
                    (cw_later w (cw_store w)) cwds))))"

definition Prune ::
  "command_env \<Rightarrow> time \<Rightarrow> rng \<Rightarrow> 'c manager_answers \<Rightarrow> 'c command_world \<Rightarrow> (command_error, string) result \<times> 'c command_world" where
  "Prune ce now rng answers w =
     (case resolveRouteManager answers of
        Inl e \<Rightarrow> (Inl e, w)
      | Inr manager \<Rightarrow>
          (case rm_client manager of
             Some ops \<Rightarrow>
               (case pruneAdminRoutes ops ce now (cw_client w) of
                  (Inl e, c) \<Rightarrow> (Inl e, w\<lparr>cw_client := c\<rparr>)
                | (Inr removed, c) \<Rightarrow> (Inr (printPruneResult removed), w\<lparr>cw_client := c\<rparr>))
           | None \<Rightarrow>
               (case PruneWithRouterReady RouteStore_Load file_update (co_pv ce) (co_env ce) now (rm_router_ready manager) rng
                       (cw_store w) (cw_later w (cw_store w)) of
                  (Inl e, s) \<Rightarrow> (Inl (StoreError e), w\<lparr>cw_store := s\<rparr>)
                | (Inr removed, s) \<Rightarrow> (Inr (printPruneResult removed), w\<lparr>cw_store := s\<rparr>))))"

section \<open>Lemmas\<close>

lemma update_keys_agree: "appRouteUpdateKey = routeUpdateKey" "mark_stopped = markRouteRemoval"
  by (simp_all add: fun_eq_iff appRouteUpdateKey_def routeUpdateKey_def mark_stopped_def markRouteRemoval_def)

text \<open>The table without the routes of some references, and the references \<open>prune\<close> deletes.\<close>

definition without :: "route_ref list \<Rightarrow> route list \<Rightarrow> route list" where
  "without refs = filter (\<lambda>r. Ref r \<notin> set refs)"

definition prune_refs :: "time \<Rightarrow> route_status_pair list \<Rightarrow> route_ref list" where
  "prune_refs now statuses = map (Ref \<circ> fst) (filter (admin_prunable now) statuses)"

lemma without_without: "without refs (without [ref] routes) = without (ref # refs) routes"
  by (simp add: without_def)

text \<open>The routes a stop deletes, and those among them whose process it terminates.\<close>

definition stops :: "(route \<Rightarrow> proc_env) \<Rightarrow> time \<Rightarrow> route \<Rightarrow> bool" where
  "stops env now r \<longleftrightarrow> isl (stopAction (env r) now r)"

definition terminates :: "(route \<Rightarrow> proc_env) \<Rightarrow> time \<Rightarrow> route \<Rightarrow> bool" where
  "terminates env now r \<longleftrightarrow> stopAction (env r) now r = Inl StopActionTerminate"

lemma terminates_verified: "terminates env now r \<Longrightarrow>
    RouteProcessVerified (env r) r \<and> PIDAlive (env r) (rt_pid r) \<and> \<not> foreign_route (env r) r"
  by (auto simp: terminates_def stopAction_def split: if_splits)

subsection \<open>A client that keeps its promises\<close>

text \<open>
  The table behind a client: listing and probing leave it alone, deleting a reference leaves no route
  with it and every other route where it was, and an error changes nothing that is not of that reference.
\<close>

locale admin_table =
  fixes ops :: "'c admin_ops" and inv :: "'c \<Rightarrow> bool" and tbl :: "'c \<Rightarrow> route list"
    and delete_ref :: "route_ref \<Rightarrow> ('c, unit) client_call" and good :: "route_ref \<Rightarrow> bool"
  assumes delete_op: "ao_delete_ref ops = Some delete_ref"
    and routes_ok: "inv c \<Longrightarrow> ao_routes ops c = (r, c') \<Longrightarrow> inv c' \<and> tbl c' = tbl c \<and> (case r of Inl _ \<Rightarrow> True | Inr routes \<Rightarrow> routes = tbl c)"
    and statuses_ok: "inv c \<Longrightarrow> ao_statuses ops = Some statuses \<Longrightarrow> statuses c = (r', c') \<Longrightarrow>
      inv c' \<and> tbl c' = tbl c \<and> (case r' of Inl _ \<Rightarrow> True | Inr found \<Rightarrow> map fst found = tbl c)"
    and probe_ok: "inv c \<Longrightarrow> ao_probe ops = Some probe \<Longrightarrow> probe target c = (b, c') \<Longrightarrow> inv c' \<and> tbl c' = tbl c"
    and identities: "inv c \<Longrightarrow> list_all (\<lambda>r. has_identity r \<and> good (Ref r)) (tbl c)"
    and deleted: "inv c \<Longrightarrow> good ref \<Longrightarrow> delete_ref ref c = (d, c') \<Longrightarrow> inv c' \<and>
      (case d of
         Inr _ \<Rightarrow> tbl c' = filter (\<lambda>r. Ref r \<noteq> ref) (tbl c)
       | Inl e \<Rightarrow> tbl c' = tbl c \<and> (routeRefMismatch e \<longrightarrow> ref \<notin> Ref ` set (tbl c)))"
begin

lemma delete_identity:
  assumes "inv c" "has_identity r \<and> good (Ref r)" "deleteAdminRouteIdentity ops r c = (x, c')"
  shows "inv c' \<and> (case x of Inr _ \<Rightarrow> tbl c' = filter (\<lambda>y. Ref y \<noteq> Ref r) (tbl c) | Inl _ \<Rightarrow> tbl c' = tbl c)"
proof -
  obtain d c1 where d: "delete_ref (Ref r) c = (d, c1)" by (rule prod.exhaust)
  note ok = deleted [OF assms(1) conjunct2 [OF assms(2)] d]
  have same: "filter (\<lambda>y. Ref y \<noteq> ref) ys = ys" if "ref \<notin> Ref ` set ys" for ref ys
    using that by (auto intro: filter_True)
  show ?thesis
    using assms(2,3) ok d same by (cases d) (auto simp: deleteAdminRouteIdentity_def delete_op split: if_splits)
qed

lemma prune_loop_ok:
  assumes "inv c" "list_all (\<lambda>s. has_identity (fst s) \<and> good (Ref (fst s))) statuses" "prune_loop ops now statuses n c = (x, c')"
  shows "inv c' \<and>
    (case x of
       Inr m \<Rightarrow> tbl c' = without (prune_refs now statuses) (tbl c) \<and> m = n + int (length (prune_refs now statuses))
     | Inl _ \<Rightarrow> \<exists>gone rest. prune_refs now statuses = gone @ rest \<and> rest \<noteq> [] \<and> tbl c' = without gone (tbl c))"
  using assms
proof (induction statuses arbitrary: n c)
  case Nil
  then show ?case by (auto simp: without_def prune_refs_def)
next
  case (Cons s statuses)
  show ?case
  proof (cases "admin_prunable now s")
    case False
    then have "prune_refs now (s # statuses) = prune_refs now statuses" by (simp add: prune_refs_def)
    with False Cons.prems Cons.IH [of c n] show ?thesis by (cases x) simp_all
  next
    case True
    then have refs: "prune_refs now (s # statuses) = Ref (fst s) # prune_refs now statuses" by (simp add: prune_refs_def)
    obtain d c1 where d: "deleteAdminRouteIdentity ops (fst s) c = (d, c1)" by (rule prod.exhaust)
    from Cons.prems(2) have "has_identity (fst s) \<and> good (Ref (fst s))" by simp
    note ok = delete_identity [OF Cons.prems(1) this d]
    show ?thesis
    proof (cases d)
      case (Inl e)
      have "\<exists>gone rest. prune_refs now (s # statuses) = gone @ rest \<and> rest \<noteq> [] \<and> tbl c = without gone (tbl c)"
        by (rule exI [where x = "[]"], rule exI [where x = "prune_refs now (s # statuses)"]) (simp add: refs without_def)
      moreover from Inl True d ok Cons.prems(3) have "inv c'" "tbl c' = tbl c" "isl x" by auto
      ultimately show ?thesis by (cases x) simp_all
    next
      case (Inr u)
      with True d Cons.prems(3) have loop: "prune_loop ops now statuses (n + 1) c1 = (x, c')" by simp
      from ok Inr have c1: "inv c1" "tbl c1 = without [Ref (fst s)] (tbl c)" by (simp_all add: without_def)
      from Cons.IH [OF c1(1) _ loop] Cons.prems(2) have ih: "inv c'" "case x of
         Inr m \<Rightarrow> tbl c' = without (prune_refs now statuses) (tbl c1) \<and> m = n + 1 + int (length (prune_refs now statuses))
       | Inl _ \<Rightarrow> \<exists>gone rest. prune_refs now statuses = gone @ rest \<and> rest \<noteq> [] \<and> tbl c' = without gone (tbl c1)"
        by simp_all
      show ?thesis
      proof (cases x)
        case (Inl e)
        with ih(2) obtain gone rest where g: "prune_refs now statuses = gone @ rest" "rest \<noteq> []" "tbl c' = without gone (tbl c1)"
          by auto
        from g have "prune_refs now (s # statuses) = (Ref (fst s) # gone) @ rest" "tbl c' = without (Ref (fst s) # gone) (tbl c)"
          by (simp_all add: refs c1(2) without_without)
        with ih(1) g(2) Inl show ?thesis by (simp del: append_Cons) blast
      next
        case (Inr m)
        with ih show ?thesis by (simp add: refs c1(2) without_without)
      qed
    qed
  qed
qed

text \<open>The statuses are those of the routes of the table, in its order.\<close>

lemma probe_statuses_ok:
  assumes "ao_probe ops = Some probe" "inv c" "probe_statuses probe env cancelled routes c = (x, c')"
  shows "inv c' \<and> tbl c' = tbl c \<and> (case x of Inl _ \<Rightarrow> True | Inr statuses \<Rightarrow> map fst statuses = routes)"
  using assms(2,3)
proof (induction routes arbitrary: c x c')
  case Nil
  then show ?case by auto
next
  case (Cons r routes)
  obtain b c1 where b: "probe (rt_target r) c = (b, c1)" by (rule prod.exhaust)
  from probe_ok [OF Cons.prems(1) assms(1) b] have c1: "inv c1" "tbl c1 = tbl c" by simp_all
  obtain y c2 where y: "probe_statuses probe env cancelled routes c1 = (y, c2)" by (rule prod.exhaust)
  note ih = Cons.IH [OF c1(1) y]
  show ?case
  proof (cases "cancelled r \<or> b = Inl ErrUnauthorized")
    case True
    with Cons.prems b c1 show ?thesis by (auto split: if_splits)
  next
    case False
    with Cons.prems(2) b y ih c1 show ?thesis by (auto split: sum.splits)
  qed
qed

definition statuses_kept :: "'c \<Rightarrow> (command_error, route_status_pair list) result \<times> 'c \<Rightarrow> bool" where
  "statuses_kept c outcome \<longleftrightarrow> inv (snd outcome) \<and> tbl (snd outcome) = tbl c \<and>
     (case fst outcome of Inl _ \<Rightarrow> True | Inr statuses \<Rightarrow> map fst statuses = tbl c)"

lemma admin_probe_kept:
  assumes "ao_probe ops = Some probe" "inv c"
  shows "statuses_kept c (adminProbeRouteStatuses ops probe env stopped cancelled c)"
proof -
  obtain r c1 where r: "ao_routes ops c = (r, c1)" by (rule prod.exhaust)
  note routes = routes_ok [OF assms(2) r]
  show ?thesis
  proof (cases r)
    case (Inl e)
    with r routes assms(2) show ?thesis by (simp add: statuses_kept_def adminProbeRouteStatuses_def)
  next
    case (Inr rs)
    obtain x c2 where x: "probe_statuses probe env cancelled rs c1 = (x, c2)" by (rule prod.exhaust)
    from probe_statuses_ok [OF assms(1) _ x] routes Inr r x assms(2) show ?thesis
      by (cases x) (simp_all add: statuses_kept_def adminProbeRouteStatuses_def)
  qed
qed

lemma local_kept: "inv c \<Longrightarrow> statuses_kept c (fallbackLocalRouteStatuses ops env c)"
  using routes_ok [of c "fst (ao_routes ops c)" "snd (ao_routes ops c)"]
  by (auto simp: statuses_kept_def fallbackLocalRouteStatuses_def comp_def split: prod.splits sum.splits)

lemma listed_kept: "inv c \<Longrightarrow> statuses_kept c
    (case ao_routes ops c of
       (Inl e, c) \<Rightarrow> (Inl (ClientError e), c)
     | (Inr routes, c) \<Rightarrow> (Inr (RouteStatusesWithRouterReady env now routes True), c))"
  using routes_ok [of c "fst (ao_routes ops c)" "snd (ao_routes ops c)"]
  by (auto simp: statuses_kept_def RouteStatusesWithRouterReady_def comp_def split: prod.splits sum.splits)

lemma kept_step: "tbl c1 = tbl c \<Longrightarrow> statuses_kept c1 outcome \<Longrightarrow> statuses_kept c outcome"
  by (cases "fst outcome") (simp_all add: statuses_kept_def)

lemma statuses_of_table:
  assumes "inv c"
  shows "statuses_kept c (adminRouteStatuses ops ce c)"
proof -
  have fallback: "statuses_kept c1 (case ao_probe ops of
      Some probe \<Rightarrow> adminProbeRouteStatuses ops probe (co_env ce) (co_done ce) (co_cancelled ce) c1
    | None \<Rightarrow> fallbackLocalRouteStatuses ops (co_env ce) c1)"
    "statuses_kept c1 (case ao_probe ops of
      Some probe \<Rightarrow> adminProbeRouteStatuses ops probe (co_env ce) (co_done ce) (co_cancelled ce) c1
    | None \<Rightarrow> (case ao_routes ops c1 of
         (Inl e, c) \<Rightarrow> (Inl (ClientError e), c)
       | (Inr routes, c) \<Rightarrow> (Inr (RouteStatusesWithRouterReady (co_env ce) (co_time ce) routes True), c)))" if "inv c1" for c1
    using that admin_probe_kept local_kept listed_kept by (simp_all split: option.split)
  show ?thesis
  proof (cases "ao_statuses ops")
    case None
    with fallback(2) [OF assms] show ?thesis by (simp add: adminRouteStatuses_def)
  next
    case (Some statuses)
    obtain r c1 where r: "statuses c = (r, c1)" by (rule prod.exhaust)
    from statuses_ok [OF assms Some r] have c1: "inv c1" "tbl c1 = tbl c" "case r of Inl _ \<Rightarrow> True | Inr found \<Rightarrow> map fst found = tbl c"
      by simp_all
    show ?thesis
    proof (cases r)
      case (Inl e)
      show ?thesis
      proof (cases "e = ErrRouteStatusesUnsupported")
        case True
        with kept_step [OF c1(2) fallback(1) [OF c1(1)]] Inl r Some show ?thesis by (simp add: adminRouteStatuses_def)
      next
        case False
        with Inl r Some c1 show ?thesis by (cases e) (simp_all add: adminRouteStatuses_def statuses_kept_def)
      qed
    next
      case (Inr found)
      have "map fst (convertAdminStatuses env now found) = map fst found" for env now
        by (simp add: convertAdminStatuses_def convert_status_def split: prod.splits)
      with Inr r Some c1 show ?thesis by (simp add: adminRouteStatuses_def statuses_kept_def)
    qed
  qed
qed

text \<open>\<open>prune\<close> and \<open>stop\<close> on the table.\<close>

lemma prune_table:
  assumes "inv c" "pruneAdminRoutes ops ce now c = (Inr n, c')"
  obtains statuses where "map fst statuses = tbl c" "fst (adminRouteStatuses ops ce c) = Inr statuses"
    "tbl c' = without (prune_refs now statuses) (tbl c)" "n = int (length (prune_refs now statuses))" "inv c'"
proof -
  obtain r c1 where r: "adminRouteStatuses ops ce c = (r, c1)" by (rule prod.exhaust)
  from statuses_of_table [OF assms(1), of ce] r have kept: "inv c1" "tbl c1 = tbl c"
    "case r of Inl _ \<Rightarrow> True | Inr statuses \<Rightarrow> map fst statuses = tbl c" by (simp_all add: statuses_kept_def)
  from assms(2) r obtain statuses where statuses: "r = Inr statuses" "prune_loop ops now statuses 0 c1 = (Inr n, c')"
    by (auto simp: pruneAdminRoutes_def split: sum.splits)
  have "list_all (\<lambda>s. has_identity (fst s) \<and> good (Ref (fst s))) statuses"
    using identities [OF assms(1)] kept(3) statuses(1)
      list.pred_map [of "\<lambda>r. has_identity r \<and> good (Ref r)" fst statuses] by (simp add: comp_def)
  from prune_loop_ok [OF kept(1) this statuses(2)] kept statuses(1) r that show thesis by simp
qed

text \<open>A stop signals the processes of the routes it may terminate, and deletes those it may delete.\<close>

lemma stop_routes_ok:
  assumes "inv c" "list_all (\<lambda>r. has_identity r \<and> good (Ref r)) routes" "stop_routes_loop ops env now routes result killed c = (err, result', killed', c')"
  shows "inv c' \<and> (\<exists>rest. rev (map rt_pid (filter (terminates env now) routes)) @ killed = rest @ killed') \<and>
    (err = None \<longrightarrow>
       killed' = rev (map rt_pid (filter (terminates env now) routes)) @ killed \<and>
       tbl c' = without (map Ref (filter (stops env now) routes)) (tbl c) \<and>
       sp_hosts result' = sp_hosts result @ map rt_host (filter (stops env now) routes))"
  using assms
proof (induction routes arbitrary: result killed c)
  case Nil
  then show ?case by (simp add: without_def)
next
  case (Cons r routes)
  show ?case
  proof (cases "stopAction (env r) now r")
    case (Inr reason)
    with Cons.prems have loop: "stop_routes_loop ops env now routes
        (skip_route r reason (result\<lparr>sp_matched_host := rt_host r\<rparr>)) killed c = (err, result', killed', c')"
      by (simp add: Let_def)
    from Cons.IH [OF Cons.prems(1) _ loop] Cons.prems(2) Inr show ?thesis
      by (simp add: stops_def terminates_def skip_route_def)
  next
    case (Inl action)
    obtain d c1 where d: "deleteAdminRouteIdentity ops r c = (d, c1)" by (rule prod.exhaust)
    from Cons.prems(2) have "has_identity r \<and> good (Ref r)" by simp
    note ok = delete_identity [OF Cons.prems(1) this d]
    let ?k = "if action = StopActionTerminate then rt_pid r # killed else killed"
    show ?thesis
    proof (cases d)
      case (Inl e)
      with \<open>stopAction (env r) now r = Inl action\<close> d ok Cons.prems(3) show ?thesis
        by (auto simp: Let_def terminates_def)
    next
      case (Inr u)
      with ok have c1: "inv c1" "tbl c1 = without [Ref r] (tbl c)" by (simp_all add: without_def)
      from Inr \<open>stopAction (env r) now r = Inl action\<close> d Cons.prems(3) obtain res where
        loop: "stop_routes_loop ops env now routes res ?k c1 = (err, result', killed', c')"
        and res: "sp_hosts res = sp_hosts result @ [rt_host r]"
        by (auto simp: Let_def add_host_def)
      from Cons.IH [OF c1(1) _ loop] Cons.prems(2) \<open>stopAction (env r) now r = Inl action\<close> show ?thesis
        by (auto simp: stops_def terminates_def res c1(2) without_without)
    qed
  qed
qed

end

subsection \<open>The router's interface\<close>

definition api_ops :: "admin_env \<Rightarrow> string \<Rightarrow> admin_state admin_ops" where
  "api_ops ae token = \<lparr>ao_routes = client_Routes ae token, ao_delete = client_DeleteRoute ae token,
     ao_statuses = Some (client_RouteStatuses ae token), ao_probe = Some (client_ProbeTarget ae token),
     ao_delete_ref = Some (client_DeleteRouteRef ae token)\<rparr>"

definition api_table :: "admin_state \<Rightarrow> route list" where
  "api_table st = (case file_load (ad_store st) of Inl _ \<Rightarrow> [] | Inr routes \<Rightarrow> routes)"

definition api_ref :: "route_ref \<Rightarrow> bool" where
  "api_ref ref \<longleftrightarrow> plain_segment (ref_id ref) \<and> 0 < ref_generation ref \<and> ref_generation ref < 2 ^ 64"

text \<open>The error the client makes of an error of the server, and that only a conflict reads like one.\<close>

definition delete_path :: "route_ref \<Rightarrow> string" where
  "delete_path ref = ''/v2/routes/'' @ path_escape (ref_id ref) @ ''/'' @ nat_digits (ref_generation ref)"

definition delete_error :: "admin_env \<Rightarrow> route_ref \<Rightarrow> router_error \<Rightarrow> client_error" where
  "delete_error ae ref e = ErrUnexpected (responseStatusError ''DELETE'' (delete_path ref) (reservation_error_status e)
     (TextBody (ae_text ae e)))"

definition api_inv :: "admin_env \<Rightarrow> string \<Rightarrow> admin_state \<Rightarrow> bool" where
  "api_inv ae token st \<longleftrightarrow> token = ae_token ae \<and> token \<noteq> '''' \<and> ad_manager st = None \<and> \<not> isl (file_load (ad_store st)) \<and>
     list_all (\<lambda>r. has_identity r \<and> api_ref (Ref r)) (api_table st) \<and> distinct (map Ref (api_table st)) \<and>
     (\<forall>r \<in> set (api_table st). \<not> routeRefMismatch (delete_error ae (Ref r) ErrStore))"

lemma with_store_same [simp]: "with_store st (ad_store st) = st"
  by (simp add: with_store_def)

lemma handleRoutes_get: "hr_method r = ''GET'' \<Longrightarrow> snd (handleRoutes env token rng now s r b) = s"
  by (auto simp: handleRoutes_def split: sum.splits)

lemma handleRouteStatuses_kept: "snd (handleRouteStatuses env token now s r) = s"
  by (auto simp: handleRouteStatuses_def split: sum.splits)

lemma handleProbeTarget_kept: "snd (handleProbeTarget env token s r b) = s"
  by (auto simp: handleProbeTarget_def split: option.splits sum.splits)

lemma load_table: "RouteStore_Load (ad_store st) = Inr routes \<Longrightarrow> routes = api_table st"
  by (auto simp: RouteStore_Load_def api_table_def split: if_splits)

lemma routes_path: "hr_path (client_request token verb ''/routes'') = ''/routes''"
  "hr_path (client_request token verb ''/route-statuses'') = ''/route-statuses''"
  "hr_path (client_request token verb ''/probe-target'') = ''/probe-target''"
  by (rule client_path, rule path_unescape_plain, simp)+

lemma dispatch_tables:
  "AdminHandler ae st (client_request token verb ''/routes'') b =
     on_store st (handleRoutes (ae_http ae) (ae_token ae) (ae_rng ae) (ae_now ae) (ad_store st)
       (client_request token verb ''/routes'') (jb_route b))"
  "AdminHandler ae st (client_request token verb ''/route-statuses'') b =
     on_store st (handleRouteStatuses (ae_http ae) (ae_token ae) (ae_now ae) (ad_store st) (client_request token verb ''/route-statuses''))"
  "AdminHandler ae st (client_request token verb ''/probe-target'') b =
     on_store st (handleProbeTarget (ae_http ae) (ae_token ae) (ad_store st) (client_request token verb ''/probe-target'') (jb_target b))"
  by (simp_all add: AdminHandler_def RouterIdentityPath_def routes_path has_prefix_def)

lemma on_store_kept: "snd outcome = ad_store st \<Longrightarrow> on_store st outcome = (Http (fst outcome), st)"
  by (cases outcome) (simp add: on_store_def)

text \<open>What a reply gives the decoder of the client.\<close>

lemma decoded_reply:
  "decoded f (expect_status wanted verb path answer, st) = (r, st') \<Longrightarrow> st' = st \<and> (\<forall>x. r = Inr x \<longrightarrow> f answer = Some x)"
  by (auto simp: decoded_def expect_status_def split: admin_answer.splits reply.splits if_splits option.splits)

lemma routes_reply:
  assumes "hr_method r = ''GET''" "routes_of (Http (fst (handleRoutes env token rng now s r b))) = Some routes"
  shows "RouteStore_Load s = Inr routes"
  using assms by (auto simp: handleRoutes_def routes_of_def http_error_def split: if_splits sum.splits)

lemma statuses_reply:
  assumes "statuses_of (Http (fst (handleRouteStatuses env token now s r))) = Some found"
  shows "RouteStore_Load s = Inr (map fst found)"
  using assms by (auto simp: handleRouteStatuses_def statuses_of_def http_error_def comp_def split: if_splits sum.splits)

lemma api_routes:
  assumes "client_Routes ae token st = (r, st')"
  shows "st' = st \<and> (case r of Inl _ \<Rightarrow> True | Inr routes \<Rightarrow> routes = api_table st)"
proof -
  note kept = on_store_kept [OF handleRoutes_get [of "client_request token ''GET'' ''/routes''"]]
  from decoded_reply [OF assms [unfolded client_Routes_def expect_call_def dispatch_tables kept [OF client_request_fields(1)] prod.case]]
  show ?thesis using routes_reply [OF client_request_fields(1)] load_table by (cases r) auto
qed

lemma api_statuses:
  assumes "client_RouteStatuses ae token st = (r, st')"
  shows "st' = st \<and> (case r of Inl _ \<Rightarrow> True | Inr found \<Rightarrow> map fst found = api_table st)"
proof -
  note kept = on_store_kept [OF handleRouteStatuses_kept]
  obtain reply where reply: "fst (handleRouteStatuses (ae_http ae) (ae_token ae) (ae_now ae) (ad_store st)
      (client_request token ''GET'' ''/route-statuses'')) = reply" by simp
  have r: "(r, st') = (Inl ErrRouteStatusesUnsupported, st) \<or>
      decoded statuses_of (expect_status 200 ''GET'' ''/route-statuses'' (Http reply), st) = (r, st')"
    using assms unfolding client_RouteStatuses_def dispatch_tables kept prod.case reply
    by (cases reply) (auto simp: expect_status_def split: if_splits)
  then show ?thesis
    using decoded_reply [of statuses_of 200 "''GET''" "''/route-statuses''" "Http reply" st r st']
      statuses_reply [of "ae_http ae" "ae_token ae" "ae_now ae" "ad_store st" "client_request token ''GET'' ''/route-statuses''"]
      load_table reply by (cases r) auto
qed

lemma api_probe: "snd (client_ProbeTarget ae token target st) = st"
proof -
  note kept = on_store_kept [OF handleProbeTarget_kept]
  show ?thesis
    unfolding client_ProbeTarget_def expect_call_def dispatch_tables kept prod.case by (simp add: decoded_def)
qed

text \<open>What deleting a reference does to a readable table with identities.\<close>

lemma delete_index:
  assumes "distinct (map Ref routes)" "routeRefIndex routes ref = Some i"
  shows "take i routes @ drop (Suc i) routes = filter (\<lambda>r. Ref r \<noteq> ref) routes"
proof -
  note i = routeRefIndex_Some(1,2) [OF assms(2)]
  have routes: "routes = take i routes @ routes ! i # drop (Suc i) routes" by (rule id_take_nth_drop [OF i(1)])
  have "distinct (map Ref (take i routes @ routes ! i # drop (Suc i) routes))" using assms(1) routes by simp
  then have other: "ref \<notin> Ref ` set (take i routes)" "ref \<notin> Ref ` set (drop (Suc i) routes)" using i(2) by auto
  have kept: "filter (\<lambda>r. Ref r \<noteq> ref) rs = rs" if "ref \<notin> Ref ` set rs" for rs
    using that by (intro filter_True) auto
  have "filter (\<lambda>r. Ref r \<noteq> ref) (take i routes @ routes ! i # drop (Suc i) routes) = take i routes @ drop (Suc i) routes"
    using kept [OF other(1)] kept [OF other(2)] i(2) by simp
  with routes show ?thesis by simp
qed

lemma delete_ref_file:
  assumes "file_load s = Inr routes" "list_all has_identity routes" "distinct (map Ref routes)"
  shows "case DeleteRouteRef file_update rng s ref of
      (Inr _, s') \<Rightarrow> file_load s' = Inr (filter (\<lambda>r. Ref r \<noteq> ref) routes)
    | (Inl e, s') \<Rightarrow> s' = s \<and> (e = ErrStore \<or> e = ErrRouteRefMismatch \<and> ref \<notin> Ref ` set routes)"
proof (cases "routeRefIndex routes ref")
  case None
  with assms(2) have "ref \<notin> Ref ` set routes"
    using routeRefIndex_complete by (fastforce simp: list_all_iff)
  with None assms(1,2) show ?thesis
    by (simp add: DeleteRouteRef_def UpdateStore_def file_update_def withIdentities_id delete_update_def)
next
  case (Some i)
  have "sortRoutes (filter (\<lambda>r. Ref r \<noteq> ref) routes) = filter (\<lambda>r. Ref r \<noteq> ref) routes"
    using filestore.load_sorted [OF assms(1)] unfolding sortRoutes_def by (intro sort_key_sorted_id sorted_filter)
  with Some assms delete_index [OF assms(3) Some] show ?thesis
    by (simp add: DeleteRouteRef_def UpdateStore_def file_update_def withIdentities_id delete_update_def file_load_def)
qed

lemma status_not_401: "reservation_error_status e \<noteq> 401"
  using error_status_client [of e] by auto

text \<open>The call of the client for it, error by error.\<close>

lemma api_delete:
  assumes "api_inv ae token st" "api_ref ref"
  shows "client_DeleteRouteRef ae token ref st =
    (case DeleteRouteRef file_update (ae_rng ae) (ad_store st) ref of
       (Inl e, store) \<Rightarrow> (Inl (delete_error ae ref e), with_store st store)
     | (Inr _, store) \<Rightarrow> (Inr (), with_store st store))"
proof -
  let ?r = "client_request token ''DELETE'' (delete_path ref)"
  from assms(1) have token: "ae_token ae = token" "token \<noteq> ''''" "ad_manager st = None" by (auto simp: api_inv_def)
  have path: "hr_path ?r = ''/v2/routes/'' @ ref_id ref @ ''/'' @ nat_digits (ref_generation ref)"
    unfolding delete_path_def by (rule client_path, rule ref_unescape)
  have answer: "AdminHandler ae st ?r no_body = on_http
    (case DeleteRouteRef file_update (ae_rng ae) (ad_store st) ref of
       (Inl e, store) \<Rightarrow> (writeReservationError ae e, with_store st store)
     | (Inr _, store) \<Rightarrow> (no_content, with_store st store))"
    unfolding dispatch_ref [OF path] using assms(2) token by (subst handle_delete [OF _ path]) (simp_all add: api_ref_def)
  show ?thesis
    unfolding client_DeleteRouteRef_def client_ops delete_path_def [symmetric] answer
    by (auto simp: no_content_def lifecycle_answer_def writeReservationError_def http_error_def delete_error_def status_not_401
        split: sum.splits prod.splits)
qed

interpretation api: admin_table "api_ops ae token" "api_inv ae token" api_table "client_DeleteRouteRef ae token" api_ref
  for ae token
proof unfold_locales
  show "ao_delete_ref (api_ops ae token) = Some (client_DeleteRouteRef ae token)" by (simp add: api_ops_def)
next
  fix c c' :: admin_state
  assume inv: "api_inv ae token c"
  show "list_all (\<lambda>r. has_identity r \<and> api_ref (Ref r)) (api_table c)" using inv by (simp add: api_inv_def)
  show "ao_routes (api_ops ae token) c = (r, c') \<Longrightarrow>
      api_inv ae token c' \<and> api_table c' = api_table c \<and> (case r of Inl _ \<Rightarrow> True | Inr routes \<Rightarrow> routes = api_table c)" for r
    using api_routes [of ae token c r c'] inv by (simp add: api_ops_def)
  show "ao_statuses (api_ops ae token) = Some statuses \<Longrightarrow> statuses c = (r', c') \<Longrightarrow>
      api_inv ae token c' \<and> api_table c' = api_table c \<and> (case r' of Inl _ \<Rightarrow> True | Inr found \<Rightarrow> map fst found = api_table c)" for statuses r'
    using api_statuses [of ae token c r' c'] inv by (auto simp: api_ops_def)
  show "ao_probe (api_ops ae token) = Some probe \<Longrightarrow> probe target c = (b, c') \<Longrightarrow>
      api_inv ae token c' \<and> api_table c' = api_table c" for probe target b
    using api_probe inv by (auto simp: api_ops_def) (metis snd_conv)+
  fix ref d
  assume ref: "api_ref ref" and d: "client_DeleteRouteRef ae token ref c = (d, c')"
  let ?op = "DeleteRouteRef file_update (ae_rng ae) (ad_store c) ref"
  obtain x store where op: "?op = (x, store)" by (rule prod.exhaust)
  from inv have load: "file_load (ad_store c) = Inr (api_table c)" by (auto simp: api_inv_def api_table_def split: sum.splits)
  from inv have ids: "list_all has_identity (api_table c)" "distinct (map Ref (api_table c))"
    by (auto simp: api_inv_def list_all_iff)
  note result = delete_ref_file [OF load ids, where rng = "ae_rng ae" and ref = ref, unfolded op prod.case]
  note call = d [unfolded api_delete [OF inv ref] op prod.case]
  show "api_inv ae token c' \<and>
      (case d of
         Inr _ \<Rightarrow> api_table c' = filter (\<lambda>r. Ref r \<noteq> ref) (api_table c)
       | Inl e \<Rightarrow> api_table c' = api_table c \<and> (routeRefMismatch e \<longrightarrow> ref \<notin> Ref ` set (api_table c)))"
  proof (cases x)
    case (Inl e)
    with result call have "d = Inl (delete_error ae ref e)" "c' = c" "e = ErrStore \<or> e = ErrRouteRefMismatch \<and> ref \<notin> Ref ` set (api_table c)"
      by auto
    with inv show ?thesis by (auto simp: api_inv_def)
  next
    case (Inr u)
    with result call have "d = Inr ()" "c' = with_store c store" "file_load store = Inr (filter (\<lambda>r. Ref r \<noteq> ref) (api_table c))"
      by auto
    moreover from this have "api_table c' = filter (\<lambda>r. Ref r \<noteq> ref) (api_table c)" by (simp add: api_table_def)
    ultimately show ?thesis
      using inv by (auto simp: api_inv_def list_all_iff distinct_map_filter)
  qed
qed

text \<open>The statuses the client gets are those of the server, read in the client's environment.\<close>

definition api_status :: "admin_env \<Rightarrow> command_env \<Rightarrow> route \<Rightarrow> route_status_kind" where
  "api_status ae ce r = snd (convert_status (co_env ce r) (co_time ce) (r, route_status (ae_http ae) (ae_now ae) r))"

lemma statuses_reply_exact:
  assumes "statuses_of (Http (fst (handleRouteStatuses env token now s r))) = Some found"
  shows "found = map (\<lambda>r. (r, route_status env now r)) (map fst found)"
  using assms by (auto simp: handleRouteStatuses_def statuses_of_def http_error_def comp_def split: if_splits sum.splits)

lemma api_client_statuses:
  "\<exists>e. e \<noteq> ErrRouteStatusesUnsupported \<and> client_RouteStatuses ae token st = (Inl e, st) \<or>
    client_RouteStatuses ae token st = (Inr (map (\<lambda>r. (r, route_status (ae_http ae) (ae_now ae) r)) (api_table st)), st)"
proof -
  let ?h = "handleRouteStatuses (ae_http ae) (ae_token ae) (ae_now ae) (ad_store st) (client_request token ''GET'' ''/route-statuses'')"
  note kept = on_store_kept [OF handleRouteStatuses_kept]
  show ?thesis
    unfolding client_RouteStatuses_def dispatch_tables kept prod.case
    using load_table [of st]
    by (auto simp: handleRouteStatuses_def http_error_def statuses_of_def decoded_def expect_status_def split: sum.split)
qed

lemma api_admin_statuses:
  assumes "fst (adminRouteStatuses (api_ops ae token) ce st) = Inr statuses"
  shows "statuses = map (\<lambda>r. (r, api_status ae ce r)) (api_table st)"
  using api_client_statuses [of ae token st] assms
  by (auto simp: adminRouteStatuses_def api_ops_def convertAdminStatuses_def api_status_def convert_status_def split: client_error.splits)

lemma table_refs_inj:
  "api_inv ae token st \<Longrightarrow> r \<in> set (api_table st) \<Longrightarrow> Ref r \<in> Ref ` set (filter P (api_table st)) \<longleftrightarrow> P r"
  by (auto simp: api_inv_def distinct_map inj_on_def)

text \<open>What a word may mean a route by.\<close>

definition carries :: "string \<Rightarrow> route \<Rightarrow> bool" where
  "carries word r \<longleftrightarrow> rt_host r = word \<or>
     CHR ''.'' \<in> set word \<and> \<not> has_suffix word ''.localhost'' \<and> rt_host r = word @ ''.localhost'' \<or>
     rt_project_name r = word \<or> rt_name r = word \<or> routeShortName r = word"

lemma matching_names_ok:
  "set (matching_names name seen routes) \<subseteq> {r \<in> set routes. rt_name r = name \<or> routeShortName r = name}"
  "{r \<in> set routes. (rt_name r = name \<or> routeShortName r = name) \<and> rt_host r \<notin> set seen} \<noteq> {} \<Longrightarrow> matching_names name seen routes \<noteq> []"
  by (induction routes arbitrary: seen) (auto split: if_splits)

section \<open>Properties\<close>



text \<open>
  \<open>resolveStopTarget\<close> never guesses: every route it selects is one of the table and carries the target as its
  host, its host without \<open>.localhost\<close>, its project, its name or the first label of its host; it selects more than one route
  only as the routes of a project of that name; and when it selects none, no route carries the target.
\<close>

theorem resolveStopTarget_matches:
  "case resolveStopTarget routes target of
     Inl _ \<Rightarrow> True
   | Inr selected \<Rightarrow>
       list_all (\<lambda>r. r \<in> set routes \<and> carries (trim_space target) r) selected \<and>
       (length selected \<le> 1 \<or> selected = filter (\<lambda>r. rt_project_name r = trim_space target) routes) \<and>
       (selected = [] \<longleftrightarrow> trim_space target = '''' \<or> list_all (\<lambda>r. \<not> carries (trim_space target) r) routes)"
proof -
  let ?t = "trim_space target"
  have hosts: "find (\<lambda>r. rt_host r = h) routes = Some r \<Longrightarrow> r \<in> set routes \<and> rt_host r = h" for h r
    by (auto simp: find_Some_iff)
  have none: "find (\<lambda>r. rt_host r = h) routes = None \<Longrightarrow> \<forall>r \<in> set routes. rt_host r \<noteq> h" for h
    by (auto simp: find_None_iff)
  note names = matching_names_ok [where name = ?t and seen = "[]" and routes = routes, folded routesMatchingRouteName_def]
  show ?thesis
  proof (cases "find (\<lambda>r. rt_host r = ?t) routes")
    case (Some r)
    then have "resolveStopTarget routes target = Inr (if ?t = '''' then [] else [r])" by (simp add: resolveStopTarget_def Let_def)
    moreover have "r \<in> set routes" "carries ?t r" using hosts [OF Some] by (simp_all add: carries_def)
    ultimately show ?thesis by (auto simp: list_all_iff)
  next
    case no_host: None
    let ?dotted = "CHR ''.'' \<in> set ?t \<and> \<not> has_suffix ?t ''.localhost''"
    show ?thesis
    proof (cases "if ?dotted then find (\<lambda>r. rt_host r = ?t @ ''.localhost'') routes else None")
      case (Some r)
      then have dotted: ?dotted "find (\<lambda>r. rt_host r = ?t @ ''.localhost'') routes = Some r" by (simp_all split: if_splits)
      with no_host have "resolveStopTarget routes target = Inr (if ?t = '''' then [] else [r])"
        by (simp add: resolveStopTarget_def Let_def)
      moreover have "r \<in> set routes" "carries ?t r" using hosts [OF dotted(2)] dotted(1) by (simp_all add: carries_def)
      ultimately show ?thesis by (auto simp: list_all_iff)
    next
      case no_dotted: None
      have carry: "carries ?t r \<longleftrightarrow> rt_project_name r = ?t \<or> rt_name r = ?t \<or> routeShortName r = ?t" if "r \<in> set routes" for r
        using that none no_host no_dotted by (auto simp: carries_def split: if_splits)
      let ?P = "routesMatchingProjectName routes ?t" and ?N = "routesMatchingRouteName routes ?t"
      have named: "list_all (\<lambda>r. r \<in> set routes \<and> carries ?t r) ?N"
        using names(1) carry by (auto simp: list_all_iff)
      have project: "list_all (\<lambda>r. r \<in> set routes \<and> carries ?t r) ?P"
        using carry by (auto simp: list_all_iff routesMatchingProjectName_def)
      have P: "?P = [] \<longleftrightarrow> (\<forall>r \<in> set routes. rt_project_name r \<noteq> ?t)"
        by (simp add: routesMatchingProjectName_def filter_empty_conv)
      have N: "?N = [] \<longleftrightarrow> (\<forall>r \<in> set routes. rt_name r \<noteq> ?t \<and> routeShortName r \<noteq> ?t)"
      proof
        assume "?N = []"
        with names(2) show "\<forall>r \<in> set routes. rt_name r \<noteq> ?t \<and> routeShortName r \<noteq> ?t" by auto
      next
        assume "\<forall>r \<in> set routes. rt_name r \<noteq> ?t \<and> routeShortName r \<noteq> ?t"
        with names(1) have "set ?N \<subseteq> {}" by blast
        then show "?N = []" by simp
      qed
      have none: "list_all (\<lambda>r. \<not> carries ?t r) routes \<longleftrightarrow> ?P = [] \<and> ?N = []"
        unfolding P N list_all_iff using carry by blast
      have result: "resolveStopTarget routes target =
        (if ?t = '''' then Inr []
         else if ?P \<noteq> [] \<and> ?N \<noteq> [] then
           (if sameRouteHosts ?P ?N then Inr ?P else Inl (AmbiguousProject ?t (map rt_host ?P) (map rt_host ?N)))
         else if ?P \<noteq> [] then Inr ?P
         else if length ?N \<le> 1 then Inr ?N
         else Inl (AmbiguousName ?t (map rt_host ?N)))"
        unfolding resolveStopTarget_def Let_def no_host no_dotted by simp
      have all: "?P = filter (\<lambda>r. rt_project_name r = ?t) routes" by (simp add: routesMatchingProjectName_def)
      show ?thesis
        unfolding result none using named project all
        by (cases "?t = ''''"; cases "?P = []"; cases "?N = []"; cases "sameRouteHosts ?P ?N"; cases "length ?N \<le> 1") simp_all
    qed
  qed
qed

definition sample_command :: command_env where
  "sample_command = \<lparr>co_pv = calm_env, co_env = (\<lambda>_. calm_env), co_time = 20, co_done = False, co_cancelled = (\<lambda>_. False)\<rparr>"

lemma sample_table: "api_table sample_ad = [sample_active, sample_pending]"
  by code_simp

lemma sample_api_inv: "api_inv sample_ae ''t'' sample_ad"
proof -
  have "list_all (\<lambda>r. \<not> routeRefMismatch (delete_error sample_ae (Ref r) ErrStore)) [sample_active, sample_pending]"
    by code_simp
  moreover have "list_all (\<lambda>r. has_identity r \<and> api_ref (Ref r)) [sample_active, sample_pending]"
    "distinct (map Ref [sample_active, sample_pending])" "\<not> isl (file_load (ad_store sample_ad))" "ad_manager sample_ad = None"
    by (simp_all add: sample_active_def sample_pending_def has_identity_def api_ref_def Ref_def plain_segment_def sample_ad_def
        sample_pending_store_def file_load_def)
  ultimately show ?thesis by (simp add: api_inv_def sample_table)
qed


definition sample_manager :: "admin_state route_manager" where
  "sample_manager = \<lparr>rm_client = Some (api_ops sample_ae ''t''), rm_router_ready = True\<rparr>"

definition sample_world :: "admin_state command_world" where
  "sample_world = \<lparr>cw_client = sample_ad, cw_store = sample_store, cw_later = (\<lambda>s. s), cw_killed = []\<rparr>"


end
