(* ===== verification/Runner.thy ===== *)
theory Runner
  imports Hostname
begin

text \<open>
  Starting the program behind a route, \<open>internal/runner/runner.go\<close>: its environment, the flags put on its
  command line, the port found in its output and the wait until it answers.

  Pipes, processes and the scanner are not modelled: the lines of the output are given one by one, and
  the wait reads the events that \<open>select\<close> picks, in the order it picks them.
\<close>

section \<open>The environment\<close>

definition env_overrides :: "int \<Rightarrow> string \<Rightarrow> (string \<times> string) list" where
  "env_overrides port host =
     [(''PORT'', itoa port), (''HOST'', host), (''NUXT_PORT'', itoa port), (''NUXT_HOST'', host)]"

definition child_host :: "string \<Rightarrow> string" where
  "child_host host = (if host = '''' then ''127.0.0.1'' else host)"

definition env_item :: "(string \<times> string) list \<Rightarrow> string \<Rightarrow> string" where
  "env_item overrides item =
     (case cut (CHR ''='') item of
        None \<Rightarrow> item
      | Some (key, _) \<Rightarrow> (case map_of overrides key of None \<Rightarrow> item | Some v \<Rightarrow> key @ ''='' @ v))"

definition env_has :: "string list \<Rightarrow> string \<Rightarrow> bool" where
  "env_has env key = list_ex (\<lambda>item. map_option fst (cut (CHR ''='') item) = Some key) env"

definition ChildEnvForHost :: "string list \<Rightarrow> int \<Rightarrow> string \<Rightarrow> string list" where
  "ChildEnvForHost base port host =
     (let overrides = env_overrides port (child_host host)
      in map (env_item overrides) base @
         map (\<lambda>(key, v). key @ ''='' @ v) (filter (\<lambda>(key, _). \<not> env_has base key) overrides))"

section \<open>Flags of the command\<close>

definition valid_port :: "int option \<Rightarrow> bool" where
  "valid_port p = (case p of None \<Rightarrow> False | Some port \<Rightarrow> port > 0 \<and> port \<le> 65535)"

definition port_flag_field :: "string \<Rightarrow> bool" where
  "port_flag_field field \<longleftrightarrow>
     field = ''--port'' \<or> field = ''-p'' \<or> has_prefix field ''--port='' \<or>
     has_prefix field ''-p'' \<and> length field > 2 \<and> valid_port (atoi (trim_prefix field ''-p''))"

definition HasExplicitPortFlag :: "string \<Rightarrow> bool" where
  "HasExplicitPortFlag command = list_ex port_flag_field (Go_Base.fields command)"

text \<open>The value a field gives the port: the next field, the rest of the field, or nothing.\<close>

definition port_value :: "string \<Rightarrow> string list \<Rightarrow> string" where
  "port_value field rest =
     (if field = ''--port'' \<or> field = ''-p'' then (case rest of [] \<Rightarrow> '''' | v # _ \<Rightarrow> v)
      else if has_prefix field ''--port='' then trim_prefix field ''--port=''
      else if has_prefix field ''-p'' \<and> length field > 2 then trim_prefix field ''-p''
      else '''')"

fun explicit_port :: "string list \<Rightarrow> int option" where
  "explicit_port [] = None"
| "explicit_port (field # rest) =
     (let port = atoi (port_value field rest) in if valid_port port then port else explicit_port rest)"

definition ExplicitPort :: "string \<Rightarrow> int option" where
  "ExplicitPort command = explicit_port (Go_Base.fields command)"

definition HasExplicitHostFlag :: "string \<Rightarrow> bool" where
  "HasExplicitHostFlag command =
     list_ex (\<lambda>field. field = ''--host'' \<or> field = ''--hostname'' \<or> has_prefix field ''--host='' \<or> has_prefix field ''--hostname='')
       (Go_Base.fields command)"

definition HasExplicitPortOrHostFlag :: "string \<Rightarrow> bool" where
  "HasExplicitPortOrHostFlag command \<longleftrightarrow> HasExplicitPortFlag command \<or> HasExplicitHostFlag command"

definition env_key_char :: "char \<Rightarrow> bool" where
  "env_key_char c \<longleftrightarrow> c = CHR ''_'' \<or> is_upper c \<or> is_lower c"

definition isEnvAssignment :: "string \<Rightarrow> bool" where
  "isEnvAssignment word =
     (case cut (CHR ''='') word of
        Some (c # key, _) \<Rightarrow> env_key_char c \<and> list_all (\<lambda>c. env_key_char c \<or> is_digit c) key
      | _ \<Rightarrow> False)"

fun first_word :: "string list \<Rightarrow> string" where
  "first_word [] = ''''"
| "first_word (word # rest) =
     (if word = ''env'' \<or> isEnvAssignment word then first_word rest
      else to_lower (case last_index_byte (CHR ''/'') word of None \<Rightarrow> word | Some i \<Rightarrow> drop (i + 1) word))"

definition firstCommandWord :: "string \<Rightarrow> string" where
  "firstCommandWord command = first_word (Go_Base.fields command)"

definition isLoopbackHost :: "string \<Rightarrow> bool" where
  "isLoopbackHost host \<longleftrightarrow> host = ''127.0.0.1'' \<or> equal_fold host ''localhost''"

definition isViteLikeTool :: "string \<Rightarrow> string \<Rightarrow> bool" where
  "isViteLikeTool tool command \<longleftrightarrow>
     tool = ''vite'' \<or> contains command ''svelte-kit'' \<or> tool = ''astro'' \<or> has_prefix tool ''vp''"

definition supportsExplicitHostArg :: "string \<Rightarrow> string \<Rightarrow> bool" where
  "supportsExplicitHostArg tool command \<longleftrightarrow> isViteLikeTool tool command \<or> tool = ''nuxt''"

definition InjectPortArgsForHost :: "string \<Rightarrow> int \<Rightarrow> string \<Rightarrow> string \<Rightarrow> string list" where
  "InjectPortArgsForHost command port portFlag host =
     (let host = child_host host; tool = firstCommandWord command; portValue = itoa port in
      if HasExplicitHostFlag command then []
      else if HasExplicitPortFlag command then
        (if supportsExplicitHostArg tool command \<and> \<not> isLoopbackHost host then [''--'', ''--host'', host] else [])
      else if portFlag \<noteq> '''' then [''--'', portFlag, portValue]
      else if isViteLikeTool tool command then [''--'', ''--host'', host, ''--port'', portValue, ''--strictPort'']
      else if tool = ''next'' then [''--'', ''-p'', portValue]
      else if tool = ''nuxt'' then [''--'', ''--host'', host, ''--port'', portValue]
      else if tool = ''wrangler'' then [''--'', ''--port'', portValue]
      else [])"

definition trimArgSeparator :: "string list \<Rightarrow> string list" where
  "trimArgSeparator args = (case args of [] \<Rightarrow> [] | a # rest \<Rightarrow> if a = ''--'' then rest else args)"

definition BuildScriptCommand :: "package_manager \<Rightarrow> string \<Rightarrow> string list \<Rightarrow> string list" where
  "BuildScriptCommand pm script extraArgs =
     (case pm of
        PNPM \<Rightarrow> [''pnpm'', ''run'', script] @ trimArgSeparator extraArgs
      | Yarn \<Rightarrow> [''yarn'', script] @ trimArgSeparator extraArgs
      | Bun \<Rightarrow> [''bun'', ''run'', script] @ trimArgSeparator extraArgs
      | _ \<Rightarrow> [''npm'', ''run'', script] @ extraArgs)"

section \<open>The port in the output\<close>

text \<open>
  The regular expression \<open>https?://(?:localhost|127\.0\.0\.1|0\.0\.0\.0):([0-9]{1,5})(?:[/?#\s]|$)\<close> tried at
  one position, and the leftmost position where it matches; the class \<open>\s\<close> has no vertical tab.
\<close>

definition strip_prefix :: "string \<Rightarrow> string \<Rightarrow> string option" where
  "strip_prefix p s = (if prefix p s then Some (drop (length p) s) else None)"

fun strip_any :: "string list \<Rightarrow> string \<Rightarrow> string option" where
  "strip_any [] s = None"
| "strip_any (p # ps) s = (case strip_prefix p s of Some rest \<Rightarrow> Some rest | None \<Rightarrow> strip_any ps s)"

definition url_end :: "char \<Rightarrow> bool" where
  "url_end c \<longleftrightarrow> c \<in> {CHR ''/'', CHR ''?'', CHR ''#''} \<or> is_space c \<and> code c \<noteq> 11"

definition match_at :: "string \<Rightarrow> string option" where
  "match_at s =
     (case strip_any [''https://'', ''http://''] s of
        None \<Rightarrow> None
      | Some rest \<Rightarrow>
          (case strip_any [''localhost:'', ''127.0.0.1:'', ''0.0.0.0:''] rest of
             None \<Rightarrow> None
           | Some rest \<Rightarrow>
               (let digits = takeWhile is_digit rest; rest = dropWhile is_digit rest
                in if digits \<noteq> [] \<and> length digits \<le> 5 \<and> (case rest of [] \<Rightarrow> True | c # _ \<Rightarrow> url_end c)
                   then Some digits else None)))"

fun localURLPort :: "string \<Rightarrow> string option" where
  "localURLPort [] = match_at []"
| "localURLPort (c # s) = (case match_at (c # s) of Some digits \<Rightarrow> Some digits | None \<Rightarrow> localURLPort s)"

definition DetectPortFromOutput :: "string \<Rightarrow> int option" where
  "DetectPortFromOutput line =
     (case localURLPort line of
        None \<Rightarrow> None
      | Some digits \<Rightarrow> (let port = atoi digits in if valid_port port then port else None))"

text \<open>
  \<open>streamAndScan\<close>: every line is passed on with a line feed, and the first port found fills the channel of
  one place, which later ones leave alone until it is read.
\<close>

definition scan_line :: "string \<Rightarrow> string \<times> int option \<Rightarrow> string \<times> int option" where
  "scan_line line = (\<lambda>(out, detected).
     (out @ line @ [CHR 0x0A], case detected of Some port \<Rightarrow> Some port | None \<Rightarrow> DetectPortFromOutput line))"

definition streamAndScan :: "string list \<Rightarrow> string \<times> int option" where
  "streamAndScan ls = fold scan_line ls ('''', None)"

section \<open>Waiting\<close>

datatype run_error = ErrProcessFinished | ErrProcessFailed | ErrNoLocalURL

text \<open>
  What \<open>select\<close> picks: a detected port, the end of the process (with an error or not), the startup time,
  a tick with the answer of \<open>PortReachable\<close>, the end of the second wait.
\<close>

datatype wait_event = Detected int | Exited bool | Elapsed bool | Tick bool | TimedOut

record run_config =
  rc_chosen_port :: int
  rc_require_detected :: bool
  rc_startup :: duration
  rc_reachability :: duration

definition defaultChosenPortStartupDeadline :: duration where
  "defaultChosenPortStartupDeadline = 60 * second"

definition startupError :: "bool \<Rightarrow> run_error" where
  "startupError failed = (if failed then ErrProcessFailed else ErrProcessFinished)"

text \<open>The outcome: the port or the error, and whether the process tree was terminated; \<open>None\<close> while it still waits.\<close>

type_synonym wait_outcome = "((run_error, int) result \<times> bool) option"

fun waitForChosenPort :: "int \<Rightarrow> wait_event list \<Rightarrow> (run_error, int) result option" where
  "waitForChosenPort chosen [] = None"
| "waitForChosenPort chosen (Detected port # es) = Some (Inr port)"
| "waitForChosenPort chosen (Exited failed # es) = Some (Inl (startupError failed))"
| "waitForChosenPort chosen (Tick reachable # es) = (if reachable then Some (Inr chosen) else waitForChosenPort chosen es)"
| "waitForChosenPort chosen (TimedOut # es) = Some (Inl ErrNoLocalURL)"
| "waitForChosenPort chosen (Elapsed reachable # es) = waitForChosenPort chosen es"

definition normal_startup :: "duration \<Rightarrow> duration" where
  "normal_startup t = (if t = 0 then 15 * second else t)"

definition after_startup :: "run_config \<Rightarrow> bool \<Rightarrow> wait_event list \<Rightarrow> wait_outcome" where
  "after_startup cfg reachable es =
     (if \<not> rc_require_detected cfg \<and> rc_chosen_port cfg \<noteq> 0 \<and> reachable then Some (Inr (rc_chosen_port cfg), False)
      else if \<not> rc_require_detected cfg \<and> rc_chosen_port cfg \<noteq> 0 then
        (let timeout = normal_startup (rc_startup cfg);
             reachability = (if rc_reachability cfg = 0 then defaultChosenPortStartupDeadline - timeout else rc_reachability cfg);
             outcome = (if reachability \<le> 0 then Some (Inl ErrNoLocalURL) else waitForChosenPort (rc_chosen_port cfg) es)
         in map_option (\<lambda>r. (r, r = Inl ErrNoLocalURL)) outcome)
      else Some (Inl ErrNoLocalURL, True))"

text \<open>A tick or the second time limit comes only from the second wait.\<close>

fun later_event :: "wait_event \<Rightarrow> bool" where
  "later_event (Tick reachable) = True"
| "later_event TimedOut = True"
| "later_event _ = False"

definition WaitReady :: "run_config \<Rightarrow> wait_event list \<Rightarrow> wait_outcome" where
  "WaitReady cfg events =
     (case dropWhile later_event events of
        Detected port # _ \<Rightarrow> Some (Inr port, False)
      | Exited failed # _ \<Rightarrow> Some (Inl (startupError failed), False)
      | Elapsed reachable # es \<Rightarrow>
          after_startup cfg reachable es
      | _ \<Rightarrow> None)"

section \<open>Lemmas\<close>

lemma cut_key: "c \<notin> set key \<Longrightarrow> cut c (key @ [c] @ v) = Some (key, v)"
  by (simp add: cut_def dropWhile_append takeWhile_append)

lemma cut_SomeD:
  assumes "cut c s = Some (key, v)"
  shows "s = key @ [c] @ v \<and> c \<notin> set key"
proof -
  from assms obtain y where d: "dropWhile (\<lambda>x. x \<noteq> c) s = y # v" and key: "key = takeWhile (\<lambda>x. x \<noteq> c) s"
    by (auto simp: cut_def split: list.splits)
  from d have "s = key @ y # v" "y = c" unfolding key dropWhile_eq_Cons_conv by blast+
  moreover have "c \<notin> set key" unfolding key by (auto dest: set_takeWhileD)
  ultimately show ?thesis by simp
qed

text \<open>The value a process sees for a name: the last item that sets it (\<open>exec\<close> drops the earlier ones).\<close>

definition env_value :: "string list \<Rightarrow> string \<Rightarrow> string option" where
  "env_value env key = map_of (rev (List.map_filter (cut (CHR ''='')) env)) key"

definition gohere_keys :: "string list" where
  "gohere_keys = [''PORT'', ''HOST'', ''NUXT_PORT'', ''NUXT_HOST'']"

lemma overrides_dom: "map_of (env_overrides port host) key = None \<longleftrightarrow> key \<notin> set gohere_keys"
  by (auto simp: env_overrides_def gohere_keys_def)

lemma gohere_key_plain: "key \<in> set gohere_keys \<Longrightarrow> CHR ''='' \<notin> set key"
  by (auto simp: gohere_keys_def)

lemma env_item_cut:
  "cut (CHR ''='') (env_item ov item) =
     (case cut (CHR ''='') item of None \<Rightarrow> None | Some (key, v) \<Rightarrow> Some (key, case map_of ov key of None \<Rightarrow> v | Some w \<Rightarrow> w))"
  using cut_SomeD [of "CHR ''=''" item] cut_key [of "CHR ''=''"]
  by (auto simp: env_item_def split: option.splits)

lemma map_filter_items:
  "List.map_filter (cut (CHR ''='')) (map (env_item ov) base) =
     map (\<lambda>(key, v). (key, case map_of ov key of None \<Rightarrow> v | Some w \<Rightarrow> w)) (List.map_filter (cut (CHR ''='')) base)"
  by (induction base) (auto simp: List.map_filter_simps env_item_cut split: option.splits)

lemma map_filter_added:
  "list_all (\<lambda>(key, v). CHR ''='' \<notin> set key) ov \<Longrightarrow>
    List.map_filter (cut (CHR ''='')) (map (\<lambda>(key, v). key @ ''='' @ v) ov) = ov"
  using cut_key [of "CHR ''=''"] by (induction ov) (auto simp: List.map_filter_simps)

lemma env_has_iff: "env_has env key \<longleftrightarrow> key \<in> fst ` set (List.map_filter (cut (CHR ''='')) env)"
  by (induction env) (auto simp: env_has_def List.map_filter_simps split: option.splits)

lemma map_of_values: "map_of (map (\<lambda>(k, v). (k, g k v)) xs) k = map_option (g k) (map_of xs k)"
  by (induction xs) auto

lemma map_of_filter_keys: "map_of (filter (\<lambda>(k, _). P k) xs) k = (if P k then map_of xs k else None)"
  by (induction xs) auto

lemma map_filter_append: "List.map_filter f (xs @ ys) = List.map_filter f xs @ List.map_filter f ys"
  by (simp add: List.map_filter_def)

lemma overrides_plain: "list_all (\<lambda>(key, v). CHR ''='' \<notin> set key) (env_overrides port host)"
  by (simp add: env_overrides_def)

lemma overrides_distinct: "distinct (map fst (env_overrides port host))"
  by (simp add: env_overrides_def)

lemma map_of_rev_distinct: "distinct (map fst xs) \<Longrightarrow> map_of (rev xs) = map_of xs"
  by (metis distinct_rev map_of_inject_set rev_map rev_rev_ident set_rev)

text \<open>
  The environment of the program has the port and the host chosen for it under \<open>PORT\<close>, \<open>HOST\<close>, \<open>NUXT_PORT\<close> and
  \<open>NUXT_HOST\<close>, whatever the environment gohere runs in says and however often it says it, and every other
  variable as it was.
\<close>

theorem ChildEnvForHost_values:
  "env_value (ChildEnvForHost base port host) key =
     (case map_of (env_overrides port (child_host host)) key of Some v \<Rightarrow> Some v | None \<Rightarrow> env_value base key)"
proof -
  let ?ov = "env_overrides port (child_host host)" and ?kv = "List.map_filter (cut (CHR ''='')) base"
  let ?new = "filter (\<lambda>(key, _). \<not> env_has base key) ?ov"
  let ?old = "map (\<lambda>(key, v). (key, case map_of ?ov key of None \<Rightarrow> v | Some w \<Rightarrow> w)) ?kv"
  have "list_all (\<lambda>(key, v). CHR ''='' \<notin> set key) ?new"
    using overrides_plain [of port "child_host host"] by (auto simp: list_all_iff)
  note new = map_filter_added [OF this]
  have split: "List.map_filter (cut (CHR ''='')) (ChildEnvForHost base port host) = ?old @ ?new"
    unfolding ChildEnvForHost_def Let_def map_filter_append map_filter_items new ..
  have dist: "distinct (map fst ?new)" using overrides_distinct by (rule distinct_map_filter)
  have "env_value (ChildEnvForHost base port host) key =
      (case map_of ?new key of Some v \<Rightarrow> Some v | None \<Rightarrow> map_of (rev ?old) key)"
    unfolding env_value_def split rev_append map_of_append map_of_rev_distinct [OF dist]
    by (simp add: map_add_def)
  also have "map_of (rev ?old) key =
      map_option (\<lambda>v. case map_of ?ov key of None \<Rightarrow> v | Some w \<Rightarrow> w) (env_value base key)"
    unfolding env_value_def rev_map map_of_values ..
  also have "map_of ?new key = (if env_has base key then None else map_of ?ov key)"
    by (simp add: map_of_filter_keys)
  finally have result: "env_value (ChildEnvForHost base port host) key =
      (case if env_has base key then None else map_of ?ov key of
         Some v \<Rightarrow> Some v
       | None \<Rightarrow> map_option (\<lambda>v. case map_of ?ov key of None \<Rightarrow> v | Some w \<Rightarrow> w) (env_value base key))" .
  have "env_has base key \<longleftrightarrow> env_value base key \<noteq> None"
    unfolding env_has_iff env_value_def map_of_eq_None_iff by simp
  with result show ?thesis
    by (cases "map_of ?ov key"; cases "env_value base key") simp_all
qed

text \<open>Before the first \<open>http\<close> nothing matches.\<close>

lemma match_at_http: "match_at s = Some digits \<Longrightarrow> prefix ''http'' s"
  by (auto simp: match_at_def strip_prefix_def prefix_def split: option.splits if_splits)

lemma http_overlap: "prefix ''http'' (c # b @ ''http'' @ z) \<Longrightarrow> prefix ''http'' (c # b)"
  by (cases b rule: list.exhaust; cases "tl b" rule: list.exhaust; cases "tl (tl b)" rule: list.exhaust) auto

lemma localURLPort_skip:
  "\<not> contains before ''http'' \<Longrightarrow> localURLPort (before @ ''http'' @ z) = localURLPort (''http'' @ z)"
proof (induction before)
  case (Cons c b)
  have "\<not> prefix ''http'' (c # b)" "\<not> contains b ''http''" using Cons.prems by simp_all
  then have "\<not> prefix ''http'' (c # b @ ''http'' @ z)" using http_overlap by blast
  then have "match_at (c # b @ ''http'' @ z) = None" using match_at_http by (metis not_None_eq)
  with Cons.IH [OF \<open>\<not> contains b ''http''\<close>] show ?case by simp
qed simp

lemma take_digits:
  "rest = [] \<or> \<not> is_digit (hd rest) \<Longrightarrow>
    takeWhile is_digit (nat_digits n @ rest) = nat_digits n \<and> dropWhile is_digit (nat_digits n @ rest) = rest"
  using nat_digits_digit [of _ n] by (cases rest) (auto simp: takeWhile_append dropWhile_append)

lemma url_end_not_digit: "url_end c \<Longrightarrow> \<not> is_digit c"
  by (auto simp: url_end_def byte_defs)

text \<open>
  A local URL in the output is understood: a line whose first \<open>http\<close> starts a URL of the loopback host with a
  port, however the line goes on after the URL's port, gives that port.
\<close>

theorem DetectPortFromOutput_url:
  assumes "\<not> contains before ''http''" "secure = '''' \<or> secure = ''s''" "host \<in> {''localhost'', ''127.0.0.1'', ''0.0.0.0''}"
    "0 < port" "port \<le> 65535" "rest = [] \<or> url_end (hd rest)"
  shows "DetectPortFromOutput (before @ ''http'' @ secure @ ''://'' @ host @ '':'' @ itoa (int port) @ rest) = Some (int port)"
proof -
  let ?url = "secure @ ''://'' @ host @ '':'' @ itoa (int port) @ rest"
  have "nat_digits port \<noteq> []" "length (nat_digits port) \<le> 5"
    using nat_digits_length [of port 5] assms(5) by simp_all
  moreover have "takeWhile is_digit (nat_digits port @ rest) = nat_digits port" "dropWhile is_digit (nat_digits port @ rest) = rest"
    using take_digits [of rest port] assms(6) url_end_not_digit by auto
  moreover have "case rest of [] \<Rightarrow> True | c # _ \<Rightarrow> url_end c" using assms(6) by (cases rest) simp_all
  moreover have "itoa (int port) = nat_digits port" by (simp add: itoa_def)
  moreover have "host = ''localhost'' \<or> host = ''127.0.0.1'' \<or> host = ''0.0.0.0''" using assms(3) by simp
  ultimately have "match_at (''http'' @ ?url) = Some (nat_digits port)"
    using assms(2) by (elim disjE) (simp_all add: match_at_def strip_prefix_def)
  then have "localURLPort (''http'' @ ?url) = Some (nat_digits port)" by simp
  with localURLPort_skip [OF assms(1), of ?url] have "localURLPort (before @ ''http'' @ ?url) = Some (nat_digits port)" by simp
  moreover have "atoi (nat_digits port) = Some (int port)"
    using atoi_itoa [of "int port"] assms(5) by (simp add: itoa_def)
  ultimately show ?thesis using assms(4,5) by (simp add: DetectPortFromOutput_def valid_port_def)
qed

theorem DetectPortFromOutput_url_witness:
  "DetectPortFromOutput ''  Local: http://localhost:5173/ ready'' = Some 5173"
proof -
  have literals: "itoa 5173 = ''5173''" "\<not> contains ''  Local: '' ''http''"
    by (simp_all add: itoa_def nat_digits.simps digit_char_def char_of_def bit_0)
  have "DetectPortFromOutput (''  Local: '' @ ''http'' @ '''' @ ''://'' @ ''localhost'' @ '':'' @ itoa (int 5173) @ ''/ ready'') = Some (int 5173)"
    by (rule DetectPortFromOutput_url [OF literals(2)]) (simp_all add: url_end_def)
  then show ?thesis by (simp add: literals(1))
qed

text \<open>
  Waiting for the program ends with a port only when the program printed it, or, unless a detected port is
  required, when the chosen port answered; with an exit error only when the process ended; and the process is
  terminated exactly when no URL was found in time. An exit or a detected port always ends the wait.
\<close>

definition decisive :: "wait_event \<Rightarrow> bool" where
  "decisive e = (case e of Detected _ \<Rightarrow> True | Exited _ \<Rightarrow> True | _ \<Rightarrow> False)"

definition chosen_ok :: "int \<Rightarrow> wait_event list \<Rightarrow> (run_error, int) result option \<Rightarrow> bool" where
  "chosen_ok chosen es outcome =
     (case outcome of
        None \<Rightarrow> list_all (\<lambda>e. \<not> decisive e) es
      | Some (Inr port) \<Rightarrow> Detected port \<in> set es \<or> port = chosen \<and> Tick True \<in> set es
      | Some (Inl ErrProcessFinished) \<Rightarrow> Exited False \<in> set es
      | Some (Inl ErrProcessFailed) \<Rightarrow> Exited True \<in> set es
      | Some (Inl ErrNoLocalURL) \<Rightarrow> True)"

lemma chosen_ok_Cons: "chosen_ok chosen es r \<Longrightarrow> \<not> decisive e \<Longrightarrow> chosen_ok chosen (e # es) r"
  by (auto simp: chosen_ok_def split: option.splits sum.splits run_error.splits)

lemma chosen_cases: "chosen_ok chosen es (waitForChosenPort chosen es)"
proof (induction chosen es rule: waitForChosenPort.induct)
  case (4 chosen reachable es)
  then show ?case
    by (cases reachable) (simp_all add: chosen_ok_Cons decisive_def, simp add: chosen_ok_def)
next
  case (6 chosen reachable es)
  then show ?case by (simp add: chosen_ok_Cons decisive_def)
qed (simp_all add: chosen_ok_def startupError_def)

definition startup_ok :: "run_config \<Rightarrow> bool \<Rightarrow> wait_event list \<Rightarrow> wait_outcome \<Rightarrow> bool" where
  "startup_ok cfg reachable es outcome =
     (case outcome of
        None \<Rightarrow> list_all (\<lambda>e. \<not> decisive e) es
      | Some (r, terminated) \<Rightarrow> (terminated \<longleftrightarrow> r = Inl ErrNoLocalURL) \<and>
          (case r of
             Inr port \<Rightarrow> Detected port \<in> set es \<or>
               \<not> rc_require_detected cfg \<and> port = rc_chosen_port cfg \<and> (reachable \<or> Tick True \<in> set es)
           | Inl ErrProcessFinished \<Rightarrow> Exited False \<in> set es
           | Inl ErrProcessFailed \<Rightarrow> Exited True \<in> set es
           | Inl ErrNoLocalURL \<Rightarrow> True))"

lemma after_startup_cases: "startup_ok cfg reachable es (after_startup cfg reachable es)"
proof (cases "\<not> rc_require_detected cfg \<and> rc_chosen_port cfg \<noteq> 0")
  case False
  then show ?thesis by (auto simp: after_startup_def startup_ok_def)
next
  case True
  obtain outcome where o: "waitForChosenPort (rc_chosen_port cfg) es = outcome" by simp
  from chosen_cases [of "rc_chosen_port cfg" es] have "startup_ok cfg reachable es (map_option (\<lambda>r. (r, r = Inl ErrNoLocalURL)) outcome)"
    using True by (auto simp: startup_ok_def chosen_ok_def o split: option.splits sum.splits run_error.splits)
  with True o show ?thesis by (simp add: after_startup_def startup_ok_def Let_def)
qed

lemma later_not_decisive: "later_event e \<Longrightarrow> \<not> decisive e"
  by (cases e) (simp_all add: decisive_def)

theorem WaitReady_outcomes:
  "case WaitReady cfg events of
     None \<Rightarrow> list_all (\<lambda>e. \<not> decisive e) events
   | Some (r, terminated) \<Rightarrow>
       (terminated \<longleftrightarrow> r = Inl ErrNoLocalURL) \<and>
       (case r of
          Inr port \<Rightarrow> Detected port \<in> set events \<or>
            (if rc_require_detected cfg then False else port = rc_chosen_port cfg \<and> (Elapsed True \<in> set events \<or> Tick True \<in> set events))
        | Inl ErrProcessFinished \<Rightarrow> Exited False \<in> set events
        | Inl ErrProcessFailed \<Rightarrow> Exited True \<in> set events
        | Inl ErrNoLocalURL \<Rightarrow> Elapsed True \<in> set events \<or> Elapsed False \<in> set events)"
proof -
  let ?rest = "dropWhile later_event events"
  have sub: "set ?rest \<subseteq> set events" by (auto dest: set_dropWhileD)
  have skipped: "list_all (\<lambda>e. \<not> decisive e) ?rest \<Longrightarrow> list_all (\<lambda>e. \<not> decisive e) events"
  proof -
    assume "list_all (\<lambda>e. \<not> decisive e) ?rest"
    moreover have "list_all (\<lambda>e. \<not> decisive e) (takeWhile later_event events)"
      using later_not_decisive by (auto simp: list_all_iff dest: set_takeWhileD)
    ultimately have "list_all (\<lambda>e. \<not> decisive e) (takeWhile later_event events @ ?rest)" by (simp only: list_all_append)
    then show ?thesis by (simp only: takeWhile_dropWhile_id)
  qed
  show ?thesis
  proof (cases ?rest)
    case Nil
    then have "WaitReady cfg events = None" by (simp only: WaitReady_def list.case)
    moreover have "list_all (\<lambda>e. \<not> decisive e) events" using skipped unfolding Nil by simp
    ultimately show ?thesis by simp
  next
    case (Cons e es)
    have e: "e \<in> set events" "x \<in> set es \<Longrightarrow> x \<in> set events" for x using sub Cons by auto
    have "\<not> later_event e" using Cons by (metis hd_dropWhile list.distinct(1) list.sel(1))
    show ?thesis
    proof (cases e)
      case (Elapsed reachable)
      have "WaitReady cfg events = after_startup cfg reachable es" by (simp add: WaitReady_def Cons Elapsed)
      moreover have "list_all (\<lambda>e. \<not> decisive e) es \<Longrightarrow> list_all (\<lambda>e. \<not> decisive e) events"
        using skipped Cons Elapsed by (simp add: decisive_def)
      ultimately show ?thesis
        using after_startup_cases [of cfg reachable es] e Elapsed
        by (cases "after_startup cfg reachable es"; cases reachable) (auto simp: startup_ok_def split: sum.splits run_error.splits if_splits)
    qed (use Cons e \<open>\<not> later_event e\<close> in \<open>auto simp: WaitReady_def startupError_def Let_def\<close>)
  qed
qed

end
