(* ===== verification/Workspace.thy ===== *)
theory Workspace
  imports Hostname "HOL-Library.List_Lexorder" "HOL-Library.Char_ord"
begin

text \<open>
  Finding a project and the packages of a workspace, the rest of \<open>internal/project/project.go\<close>: the nearest
  \<open>package.json\<close>, the package manager, the workspace root, and the workspace patterns of \<open>package.json\<close> and
  \<open>pnpm-workspace.yaml\<close>.

  The file system answers through the record \<open>fs_env\<close>: \<open>os.Stat\<close>, the decoded \<open>package.json\<close>, the text of a file,
  \<open>filepath.Glob\<close>, \<open>path.Match\<close> and the tree that \<open>filepath.WalkDir\<close> visits. A loop up the directories takes the
  number of directories it may visit; one more than the length of the path is enough.
\<close>

section \<open>The file system\<close>

datatype fs_stat = StatMissing | StatFailed | StatFile | StatDir

datatype fs_tree = File string | Dir string "fs_tree list" | Unreadable string

datatype ws_error = WsError string

text \<open>The raw \<open>workspaces\<close> value: absent or \<open>null\<close>, a list, an object with a list, or neither.\<close>

datatype workspaces = NoWorkspaces | WorkspaceList "string list" | WorkspaceObject "string list" | BadWorkspaces

record package_json =
  pj_name :: string
  pj_package_manager :: string
  pj_scripts :: "(string \<times> string) list"
  pj_workspaces :: workspaces

datatype 'a read_answer = ReadMissing | ReadFailed | Read 'a

record fs_env =
  fe_os :: os_paths
  fe_stat :: "string \<Rightarrow> fs_stat"
  fe_package :: "string \<Rightarrow> package_json read_answer"
  fe_read :: "string \<Rightarrow> string read_answer"
  fe_home :: "string option"
  fe_glob :: "string \<Rightarrow> string list option"
  fe_match :: "string \<Rightarrow> string \<Rightarrow> bool"
  fe_tree :: "string \<Rightarrow> fs_tree list option"

definition ws_fail :: "(ws_error, 'a) result" where "ws_fail = Inl (WsError ''file system'')"

definition fs_abs :: "fs_env \<Rightarrow> string \<Rightarrow> (ws_error, string) result" where
  "fs_abs fe p = (case os_abs (fe_os fe) p of None \<Rightarrow> ws_fail | Some a \<Rightarrow> Inr a)"

section \<open>The nearest package\<close>

definition Script :: "package_json \<Rightarrow> string \<Rightarrow> string option" where
  "Script p name = map_of (pj_scripts p) name"

definition AvailableScripts :: "package_json \<Rightarrow> string list" where
  "AvailableScripts p = sort (map fst (pj_scripts p))"

definition isGitRoot :: "fs_env \<Rightarrow> string \<Rightarrow> bool" where
  "isGitRoot fe dir \<longleftrightarrow> fe_stat fe (path_join dir ''.git'') = StatFile \<or> fe_stat fe (path_join dir ''.git'') = StatDir"

definition isHomeDir :: "fs_env \<Rightarrow> string \<Rightarrow> bool" where
  "isHomeDir fe dir =
     (case fe_home fe of
        None \<Rightarrow> False
      | Some home \<Rightarrow> (case os_abs (fe_os fe) home of None \<Rightarrow> False | Some home \<Rightarrow> samePath (fe_os fe) dir home))"

text \<open>\<open>None\<close> of the result means not found; the outer \<open>None\<close> that the fuel was not enough.\<close>

fun nearest_loop :: "fs_env \<Rightarrow> nat \<Rightarrow> string \<Rightarrow> (ws_error, string option) result option" where
  "nearest_loop fe 0 dir = None"
| "nearest_loop fe (Suc n) dir =
     (let candidate = path_join dir ''package.json'' in
      case fe_stat fe candidate of
        StatFailed \<Rightarrow> Some ws_fail
      | StatMissing \<Rightarrow>
          (let parent = path_dir dir in
           if parent = dir \<or> isGitRoot fe dir \<or> isHomeDir fe dir then Some (Inr None)
           else nearest_loop fe n parent)
      | _ \<Rightarrow> Some (Inr (Some candidate)))"

definition FindNearestPackageJSON :: "fs_env \<Rightarrow> string \<Rightarrow> (ws_error, string option) result option" where
  "FindNearestPackageJSON fe start =
     (case fs_abs fe start of
        Inl e \<Rightarrow> Some (Inl e)
      | Inr dir \<Rightarrow>
          (case fe_stat fe dir of
             StatMissing \<Rightarrow> Some ws_fail
           | StatFailed \<Rightarrow> Some ws_fail
           | StatFile \<Rightarrow> nearest_loop fe (Suc (length (path_dir dir))) (path_dir dir)
           | StatDir \<Rightarrow> nearest_loop fe (Suc (length dir)) dir))"

definition lockfiles :: "(string \<times> package_manager) list" where
  "lockfiles = [(''pnpm-lock.yaml'', PNPM), (''package-lock.json'', NPM), (''yarn.lock'', Yarn),
     (''bun.lock'', Bun), (''bun.lockb'', Bun)]"

fun detect_lockfile :: "fs_env \<Rightarrow> string \<Rightarrow> (string \<times> package_manager) list \<Rightarrow> (ws_error, package_manager option) result" where
  "detect_lockfile fe dir [] = Inr None"
| "detect_lockfile fe dir ((name, pm) # rest) =
     (case fe_stat fe (path_join dir name) of
        StatMissing \<Rightarrow> detect_lockfile fe dir rest
      | StatFailed \<Rightarrow> ws_fail
      | _ \<Rightarrow> Inr (Some pm))"

text \<open>The package manager, \<open>NoPackageManager\<close> when there is neither a lock file nor a package.\<close>

definition DetectPackageManager :: "fs_env \<Rightarrow> string \<Rightarrow> (ws_error, package_manager) result" where
  "DetectPackageManager fe dir =
     res_bind (detect_lockfile fe dir lockfiles) (\<lambda>found.
       case found of
         Some pm \<Rightarrow> Inr pm
       | None \<Rightarrow>
           (case fe_package fe (path_join dir ''package.json'') of
              ReadMissing \<Rightarrow> Inr NoPackageManager
            | ReadFailed \<Rightarrow> ws_fail
            | Read pkg \<Rightarrow>
                (let pm = packageManagerFromField (pj_package_manager pkg)
                 in Inr (if pm \<noteq> NoPackageManager then pm else NPM))))"

section \<open>The workspace root\<close>

definition nameFromPackageOrFolder :: "fs_env \<Rightarrow> string \<Rightarrow> (ws_error, string option) result" where
  "nameFromPackageOrFolder fe dir =
     (case fe_package fe (path_join dir ''package.json'') of
        ReadFailed \<Rightarrow> ws_fail
      | ReadMissing \<Rightarrow> Inr (Some (path_base dir))
      | Read pkg \<Rightarrow> Inr (Some (if pj_name pkg \<noteq> '''' then packageNameOrFolder (pj_name pkg) dir else path_base dir)))"

definition workspace_markers :: "string list" where
  "workspace_markers = [''pnpm-workspace.yaml'', ''lerna.json'', ''turbo.json'', ''nx.json'']"

fun root_marker :: "fs_env \<Rightarrow> string \<Rightarrow> string list \<Rightarrow> (ws_error, bool) result" where
  "root_marker fe dir [] = Inr False"
| "root_marker fe dir (marker # rest) =
     (case fe_stat fe (path_join dir marker) of
        StatMissing \<Rightarrow> root_marker fe dir rest
      | StatFailed \<Rightarrow> ws_fail
      | _ \<Rightarrow> Inr True)"

definition workspaceRootName :: "fs_env \<Rightarrow> string \<Rightarrow> (ws_error, string option) result" where
  "workspaceRootName fe dir =
     res_bind (root_marker fe dir workspace_markers) (\<lambda>found.
       if found then nameFromPackageOrFolder fe dir
       else (case fe_package fe (path_join dir ''package.json'') of
               ReadMissing \<Rightarrow> Inr None
             | ReadFailed \<Rightarrow> ws_fail
             | Read pkg \<Rightarrow>
                 Inr (if pj_workspaces pkg \<noteq> NoWorkspaces then Some (packageNameOrFolder (pj_name pkg) dir) else None)))"

fun root_loop :: "fs_env \<Rightarrow> nat \<Rightarrow> string \<Rightarrow> (ws_error, (string \<times> string) option) result option" where
  "root_loop fe 0 dir = None"
| "root_loop fe (Suc n) dir =
     (case workspaceRootName fe dir of
        Inl e \<Rightarrow> Some (Inl e)
      | Inr (Some name) \<Rightarrow> Some (Inr (Some (dir, name)))
      | Inr None \<Rightarrow>
          (let parent = path_dir dir in if parent = dir then Some (Inr None) else root_loop fe n parent))"

definition findWorkspaceRoot :: "fs_env \<Rightarrow> string \<Rightarrow> (ws_error, (string \<times> string) option) result option" where
  "findWorkspaceRoot fe start =
     (case fs_abs fe start of Inl e \<Rightarrow> Some (Inl e) | Inr dir \<Rightarrow> root_loop fe (Suc (length dir)) dir)"

definition HostnameForProject :: "fs_env \<Rightarrow> string \<Rightarrow> (ws_error, string) result option" where
  "HostnameForProject fe cwd =
     Option.bind (FindNearestPackageJSON fe cwd) (\<lambda>nearest.
       case nearest of
         Inl e \<Rightarrow> Some (Inl e)
       | Inr None \<Rightarrow> Some (Inr (NormalizeHostnameName (path_base cwd) @ ''.localhost''))
       | Inr (Some packagePath) \<Rightarrow>
           (let projectDir = path_dir packagePath in
            case fe_package fe packagePath of
              Read pkg \<Rightarrow>
                (let projectName = packageNameOrFolder (pj_name pkg) projectDir in
                 map_option (\<lambda>found.
                   case found of
                     Inl e \<Rightarrow> Inl e
                   | Inr (Some (rootDir, rootName)) \<Rightarrow>
                       Inr (if rootDir \<noteq> projectDir
                            then NormalizeHostnameName projectName @ ''.'' @ NormalizeHostnameName rootName @ ''.localhost''
                            else NormalizeHostnameName projectName @ ''.localhost'')
                   | Inr None \<Rightarrow> Inr (NormalizeHostnameName projectName @ ''.localhost''))
                   (findWorkspaceRoot fe projectDir))
            | _ \<Rightarrow> Some ws_fail))"

definition ProjectNameForRoot :: "fs_env \<Rightarrow> string \<Rightarrow> (ws_error, string) result" where
  "ProjectNameForRoot fe root =
     res_bind (fs_abs fe root) (\<lambda>root.
       case fe_package fe (path_join root ''package.json'') of
         ReadMissing \<Rightarrow> Inr (NormalizeHostnameName (path_base root))
       | ReadFailed \<Rightarrow> ws_fail
       | Read pkg \<Rightarrow> Inr (NormalizeHostnameName (packageNameOrFolder (pj_name pkg) root)))"

section \<open>Patterns\<close>

text \<open>The quote that is open while the runes are read; a hash outside quotes ends the line.\<close>

fun strip_comment :: "char option \<Rightarrow> string \<Rightarrow> string" where
  "strip_comment quote [] = []"
| "strip_comment (Some q) (r # rs) = r # strip_comment (if r = q then None else Some q) rs"
| "strip_comment None (r # rs) =
     (if r = CHR 0x27 \<or> r = CHR 0x22 then r # strip_comment (Some r) rs
      else if r = CHR ''#'' then [] else r # strip_comment None rs)"

definition stripYAMLComment :: "string \<Rightarrow> string" where
  "stripYAMLComment line = strip_comment None line"

definition trimYAMLScalar :: "string \<Rightarrow> string" where
  "trimYAMLScalar value =
     (let value = trim_space value in
      trim_space (if length value \<ge> 2 \<and> (hd value = CHR 0x27 \<or> hd value = CHR 0x22) \<and> last value = hd value
                  then butlast (tl value) else value))"

fun split_inline :: "char option \<Rightarrow> string \<Rightarrow> string \<Rightarrow> string list" where
  "split_inline quote current [] = [rev current]"
| "split_inline (Some q) current (r # rs) = split_inline (if r = q then None else Some q) (r # current) rs"
| "split_inline None current (r # rs) =
     (if r = CHR 0x27 \<or> r = CHR 0x22 then split_inline (Some r) (r # current) rs
      else if r = CHR '','' then rev current # split_inline None [] rs
      else split_inline None (r # current) rs)"

definition splitYAMLInlineList :: "string \<Rightarrow> string list" where
  "splitYAMLInlineList value = (if value = '''' then [] else split_inline None [] value)"

definition parseYAMLPatternValues :: "string \<Rightarrow> string list" where
  "parseYAMLPatternValues value =
     (let value = trim_space value in
      if value = '''' then []
      else if has_prefix value ''['' \<and> has_suffix value '']'' then
        filter (\<lambda>p. p \<noteq> '''') (map trimYAMLScalar (splitYAMLInlineList (trim_space (butlast (tl value)))))
      else (let p = trimYAMLScalar value in if p \<noteq> '''' then [p] else []))"

text \<open>One line: whether the list of packages is open, and the patterns it adds.\<close>

definition pnpm_line :: "bool \<Rightarrow> string \<Rightarrow> bool \<times> string list" where
  "pnpm_line inPackages line =
     (let trimmed = trim_space (stripYAMLComment line) in
      if trimmed = '''' then (inPackages, [])
      else if \<not> has_prefix line '' '' \<and> \<not> has_prefix line [CHR 0x09] then
        (case cut (CHR '':'') trimmed of
           None \<Rightarrow> (False, [])
         | Some (key, v) \<Rightarrow>
             if trim_space key \<noteq> ''packages'' then (False, [])
             else if trim_space v \<noteq> '''' then (False, parseYAMLPatternValues (trim_space v))
             else (True, []))
      else if \<not> inPackages \<or> \<not> has_prefix trimmed ''- '' then (inPackages, [])
      else (inPackages, parseYAMLPatternValues (trim_space (trim_prefix trimmed ''- ''))))"

fun pnpm_lines :: "bool \<Rightarrow> string list \<Rightarrow> string list" where
  "pnpm_lines inPackages [] = []"
| "pnpm_lines inPackages (line # ls) = (case pnpm_line inPackages line of (open', patterns) \<Rightarrow> patterns @ pnpm_lines open' ls)"

definition parsePNPMWorkspacePackages :: "string \<Rightarrow> string list" where
  "parsePNPMWorkspacePackages data = pnpm_lines False (split_on (CHR 0x0A) data)"

text \<open>The patterns, \<open>None\<close> when this is no workspace.\<close>

definition packageJSONWorkspacePatterns :: "workspaces \<Rightarrow> (ws_error, string list option) result" where
  "packageJSONWorkspacePatterns w =
     (case w of
        NoWorkspaces \<Rightarrow> Inr None
      | WorkspaceList patterns \<Rightarrow> Inr (Some patterns)
      | WorkspaceObject patterns \<Rightarrow> Inr (Some patterns)
      | BadWorkspaces \<Rightarrow> Inl (WsError ''workspaces''))"

definition workspacePatterns :: "fs_env \<Rightarrow> string \<Rightarrow> (ws_error, string list option) result" where
  "workspacePatterns fe root =
     (case fe_read fe (path_join root ''pnpm-workspace.yaml'') of
        Read text \<Rightarrow> Inr (Some (parsePNPMWorkspacePackages text))
      | ReadFailed \<Rightarrow> ws_fail
      | ReadMissing \<Rightarrow>
          (case fe_package fe (path_join root ''package.json'') of
             ReadMissing \<Rightarrow> Inr None
           | ReadFailed \<Rightarrow> ws_fail
           | Read pkg \<Rightarrow> packageJSONWorkspacePatterns (pj_workspaces pkg)))"

section \<open>Matching\<close>

fun matchGlobstarParts :: "(string \<Rightarrow> string \<Rightarrow> bool) \<Rightarrow> string list \<Rightarrow> string list \<Rightarrow> bool" where
  "matchGlobstarParts m [] v \<longleftrightarrow> v = []"
| "matchGlobstarParts m (p # ps) v \<longleftrightarrow>
     (if p = ''**'' then
        matchGlobstarParts m ps v \<or> (case v of [] \<Rightarrow> False | _ # xs \<Rightarrow> matchGlobstarParts m (p # ps) xs)
      else (case v of [] \<Rightarrow> False | x # xs \<Rightarrow> m p x \<and> matchGlobstarParts m ps xs))"

definition splitPathPattern :: "string \<Rightarrow> string list" where
  "splitPathPattern value = (if value = '''' \<or> value = ''.'' then [] else split_on slash value)"

definition matchGlobstarPattern :: "(string \<Rightarrow> string \<Rightarrow> bool) \<Rightarrow> string \<Rightarrow> string \<Rightarrow> bool" where
  "matchGlobstarPattern m pattern value =
     matchGlobstarParts m (splitPathPattern (trim (\<lambda>c. c = slash) pattern)) (splitPathPattern (trim (\<lambda>c. c = slash) value))"

definition skipWorkspaceWalkDir :: "string \<Rightarrow> bool" where
  "skipWorkspaceWalkDir name \<longleftrightarrow>
     name \<in> {''node_modules'', ''.git'', ''.hg'', ''.svn'', ''.cache'', ''.next'', ''.turbo''}"

fun ancestor_loop :: "fs_env \<Rightarrow> nat \<Rightarrow> string \<Rightarrow> string \<Rightarrow> bool option" where
  "ancestor_loop fe 0 root dir = None"
| "ancestor_loop fe (Suc n) root dir =
     (if samePath (fe_os fe) dir root then Some False
      else if fe_stat fe (path_join dir ''package.json'') = StatFile \<or> fe_stat fe (path_join dir ''package.json'') = StatDir
      then Some True
      else (let parent = path_dir dir in if parent = dir then Some False else ancestor_loop fe n root parent))"

definition hasPackageJSONAncestor :: "fs_env \<Rightarrow> string \<Rightarrow> string \<Rightarrow> bool option" where
  "hasPackageJSONAncestor fe root dir =
     ancestor_loop fe (Suc (length (path_clean dir))) (path_clean root) (path_clean dir)"

definition skipGeneratedWorkspaceDir :: "fs_env \<Rightarrow> string \<Rightarrow> string \<Rightarrow> string \<Rightarrow> bool" where
  "skipGeneratedWorkspaceDir fe root dir name \<longleftrightarrow>
     name \<in> {''dist'', ''build'', ''coverage'', ''out''} \<and> hasPackageJSONAncestor fe root (path_dir dir) = Some True"

section \<open>The packages of a workspace\<close>

record workspace_package =
  wp_dir :: string
  wp_package_path :: string
  wp_name :: string
  wp_short_name :: string
  wp_script :: string

text \<open>A place where a pattern found a package: its directory and its \<open>package.json\<close>.\<close>

type_synonym place = "string \<times> string"

text \<open>\<open>filepath.Rel\<close> of a path at or under the root.\<close>

definition fs_rel :: "string \<Rightarrow> string \<Rightarrow> string option" where
  "fs_rel root p =
     (if p = root then Some ''.''
      else if root = ''/'' then Some (trim_prefix p ''/'')
      else if has_prefix p (root @ ''/'') then Some (trim_prefix p (root @ ''/''))
      else None)"

definition workspacePackageMatchesPattern :: "fs_env \<Rightarrow> string \<Rightarrow> string \<Rightarrow> string \<Rightarrow> string \<Rightarrow> bool" where
  "workspacePackageMatchesPattern fe root pattern dir packagePath =
     (case (fs_rel root dir, fs_rel root packagePath) of
        (Some relDir, Some relPackage) \<Rightarrow>
          matchGlobstarPattern (fe_match fe) pattern relDir \<or> matchGlobstarPattern (fe_match fe) pattern relPackage
      | _ \<Rightarrow> False)"

definition skipped_dir :: "fs_env \<Rightarrow> string \<Rightarrow> string \<Rightarrow> string \<Rightarrow> bool" where
  "skipped_dir fe root path name \<longleftrightarrow> skipWorkspaceWalkDir name \<or> skipGeneratedWorkspaceDir fe root path name"

fun walk_node :: "fs_env \<Rightarrow> string \<Rightarrow> string \<Rightarrow> string \<Rightarrow> fs_tree \<Rightarrow> (ws_error, place list) result"
and walk_nodes :: "fs_env \<Rightarrow> string \<Rightarrow> string \<Rightarrow> string \<Rightarrow> fs_tree list \<Rightarrow> (ws_error, place list) result" where
  "walk_node fe root pattern parent (File name) =
     (let packagePath = path_join parent name; dir = path_dir packagePath in
      Inr (if name = ''package.json'' \<and> workspacePackageMatchesPattern fe root pattern dir packagePath
           then [(dir, packagePath)] else []))"
| "walk_node fe root pattern parent (Unreadable name) =
     (if skipped_dir fe root (path_join parent name) name then Inr [] else ws_fail)"
| "walk_node fe root pattern parent (Dir name nodes) =
     (if skipped_dir fe root (path_join parent name) name then Inr []
      else walk_nodes fe root pattern (path_join parent name) nodes)"
| "walk_nodes fe root pattern parent [] = Inr []"
| "walk_nodes fe root pattern parent (node # nodes) =
     res_bind (walk_node fe root pattern parent node) (\<lambda>found.
     res_bind (walk_nodes fe root pattern parent nodes) (\<lambda>more. Inr (found @ more)))"

definition workspacePackageGlobstarMatches :: "fs_env \<Rightarrow> string \<Rightarrow> string \<Rightarrow> (ws_error, place list) result" where
  "workspacePackageGlobstarMatches fe root pattern =
     (case fe_tree fe root of None \<Rightarrow> ws_fail | Some nodes \<Rightarrow> walk_nodes fe root (path_clean pattern) root nodes)"

fun glob_places :: "fs_env \<Rightarrow> string list \<Rightarrow> (ws_error, place list) result" where
  "glob_places fe [] = Inr []"
| "glob_places fe (match # matches) =
     (case fe_stat fe match of
        StatDir \<Rightarrow> res_bind (glob_places fe matches) (\<lambda>more.
          Inr ((path_clean match, path_clean (path_join match ''package.json'')) # more))
      | StatFile \<Rightarrow>
          (if path_base match \<noteq> ''package.json'' then glob_places fe matches
           else res_bind (glob_places fe matches) (\<lambda>more.
             Inr ((path_clean (path_dir match), path_clean (path_join (path_dir match) ''package.json'')) # more)))
      | _ \<Rightarrow> ws_fail)"

definition workspacePackageMatches :: "fs_env \<Rightarrow> string \<Rightarrow> string \<Rightarrow> (ws_error, place list) result" where
  "workspacePackageMatches fe root pattern =
     (if contains pattern ''**'' then workspacePackageGlobstarMatches fe root pattern
      else (case fe_glob fe (path_join root pattern) of None \<Rightarrow> ws_fail | Some matches \<Rightarrow> glob_places fe matches))"

text \<open>The places found so far, in order, and the packages excluded.\<close>

type_synonym discovery = "place list \<times> string list"

definition add_place :: "fs_env \<Rightarrow> string \<Rightarrow> bool \<Rightarrow> place \<Rightarrow> discovery \<Rightarrow> discovery" where
  "add_place fe root negated place = (\<lambda>(ordered, excluded).
     if samePath (fe_os fe) (snd place) (path_join root ''package.json'') then (ordered, excluded)
     else if negated then (ordered, snd place # excluded)
     else if snd place \<in> set (map snd ordered) then (ordered, excluded)
     else (ordered @ [place], excluded))"

definition split_negation :: "string \<Rightarrow> bool \<times> string" where
  "split_negation raw =
     (let pattern = trim_space raw in
      if has_prefix pattern ''!'' then (True, trim_space (trim_prefix pattern ''!'')) else (False, pattern))"

fun discover_places :: "fs_env \<Rightarrow> string \<Rightarrow> string list \<Rightarrow> discovery \<Rightarrow> (ws_error, discovery) result" where
  "discover_places fe root [] d = Inr d"
| "discover_places fe root (raw # rest) d =
     (case split_negation raw of (negated, pattern) \<Rightarrow>
        if pattern = '''' then discover_places fe root rest d
        else res_bind (workspacePackageMatches fe root pattern) (\<lambda>matches.
          discover_places fe root rest (fold (add_place fe root negated) matches d)))"

fun read_places :: "fs_env \<Rightarrow> string list \<Rightarrow> place list \<Rightarrow> (ws_error, workspace_package list) result" where
  "read_places fe excluded [] = Inr []"
| "read_places fe excluded ((dir, packagePath) # places) =
     (if packagePath \<in> set excluded then read_places fe excluded places
      else (case fe_package fe packagePath of
              ReadMissing \<Rightarrow> read_places fe excluded places
            | ReadFailed \<Rightarrow> ws_fail
            | Read pkg \<Rightarrow> res_bind (read_places fe excluded places) (\<lambda>more.
                Inr (\<lparr>wp_dir = dir, wp_package_path = packagePath, wp_name = pj_name pkg,
                      wp_short_name = packageNameOrFolder (pj_name pkg) dir, wp_script = ''''\<rparr> # more))))"

text \<open>\<open>Inr None\<close>: not a workspace.\<close>

definition DiscoverWorkspacePackageDirs :: "fs_env \<Rightarrow> string \<Rightarrow> (ws_error, workspace_package list option) result" where
  "DiscoverWorkspacePackageDirs fe root =
     res_bind (fs_abs fe root) (\<lambda>root.
     res_bind (workspacePatterns fe root) (\<lambda>patterns.
       case patterns of
         None \<Rightarrow> Inr None
       | Some patterns \<Rightarrow>
           res_bind (discover_places fe root patterns ([], [])) (\<lambda>(ordered, excluded).
             res_bind (read_places fe excluded ordered) (\<lambda>packages. Inr (Some packages)))))"

fun with_script :: "fs_env \<Rightarrow> string \<Rightarrow> workspace_package list \<Rightarrow> (ws_error, workspace_package list) result" where
  "with_script fe script [] = Inr []"
| "with_script fe script (w # ws) =
     (case fe_package fe (wp_package_path w) of
        ReadMissing \<Rightarrow> with_script fe script ws
      | ReadFailed \<Rightarrow> ws_fail
      | Read pkg \<Rightarrow>
          (case Script pkg script of
             None \<Rightarrow> with_script fe script ws
           | Some scriptCommand \<Rightarrow> res_bind (with_script fe script ws) (\<lambda>more. Inr (w\<lparr>wp_script := scriptCommand\<rparr> # more))))"

definition DiscoverWorkspacePackages :: "fs_env \<Rightarrow> string \<Rightarrow> string \<Rightarrow> (ws_error, workspace_package list option) result" where
  "DiscoverWorkspacePackages fe root script =
     res_bind (DiscoverWorkspacePackageDirs fe root) (\<lambda>found.
       case found of
         None \<Rightarrow> Inr None
       | Some packages \<Rightarrow>
           res_bind (with_script fe (if script = '''' then ''dev'' else script) packages) (\<lambda>filtered. Inr (Some filtered)))"

section \<open>Lemmas on directories\<close>

definition abs_path :: "string list \<Rightarrow> string" where
  "abs_path es = slash # join ''/'' es"

lemma split_on_snoc: "split_on c (a @ [c]) = split_on c a @ [[]]"
  by (induction a) (auto split: list.splits)

lemma join_snoc: "join sep (xs @ [e]) = (if xs = [] then e else join sep xs @ sep @ e)"
  by (induction sep xs rule: join.induct) auto

lemma last_index_byte_none: "c \<notin> set e \<Longrightarrow> last_index_byte c e = None"
  by (induction e) auto

lemma last_index_byte_last: "c \<notin> set e \<Longrightarrow> last_index_byte c (a @ c # e) = Some (length a)"
  by (induction a) (simp_all add: last_index_byte_none)

lemma abs_path_rooted [simp]: "has_prefix (abs_path es) ''/''"
  by (simp add: abs_path_def has_prefix_def)

lemma split_abs_path:
  "list_all plain_elem es \<Longrightarrow> split_on slash (abs_path es) = (if es = [] then [[], []] else [] # es)"
  using split_on_join_plain [of es slash] by (auto simp: abs_path_def list_all_iff plain_elem_def)

lemma foldl_clean_plain: "list_all plain_elem es \<Longrightarrow> foldl (clean_elem True) [] ([] # es) = rev es"
  using foldl_clean_plain_append [of es True "[]"] by (simp add: clean_elem_def)

lemma clean_abs_path: "list_all plain_elem es \<Longrightarrow> path_clean (abs_path es) = abs_path es"
  by (simp add: path_clean_def clean_elems_def split_abs_path foldl_clean_plain del: foldl_Cons)
     (simp add: abs_path_def clean_elem_def)

lemma clean_abs_path_slash:
  assumes "list_all plain_elem es"
  shows "path_clean (abs_path es @ ''/'') = abs_path es"
proof -
  have r: "has_prefix (abs_path es @ ''/'') ''/''" by (simp add: abs_path_def has_prefix_def)
  have "foldl (clean_elem True) [] (split_on slash (abs_path es @ ''/'')) = rev es"
    unfolding split_on_snoc split_abs_path [OF assms]
    using foldl_clean_plain [OF assms] by (simp add: clean_elem_def)
  with r show ?thesis by (simp add: path_clean_def clean_elems_def) (simp add: abs_path_def)
qed

lemma clean_rooted_abs:
  assumes "has_prefix a ''/''" "path_clean a = a"
  obtains es where "list_all plain_elem es" "a = abs_path es"
  using assms clean_elems_rooted_plain [OF assms(1)] by (metis abs_path_def has_prefix_def path_clean_def prefix_Nil list.distinct(1))

lemma path_dir_abs:
  assumes "list_all plain_elem es"
  shows "path_dir (abs_path es) = abs_path (butlast es)"
proof (cases es rule: rev_cases)
  case Nil
  then show ?thesis by (simp add: path_dir_def abs_path_def path_clean_def clean_elems_def clean_elem_def has_prefix_def)
next
  case (snoc xs e)
  let ?pre = "if xs = [] then [] else abs_path xs"
  have e: "slash \<notin> set e" and xs: "list_all plain_elem xs" using assms snoc by (simp_all add: plain_elem_def)
  have path: "abs_path es = ?pre @ slash # e" by (simp add: snoc abs_path_def join_snoc)
  have "path_dir (abs_path es) = path_clean (?pre @ ''/'')"
    unfolding path_dir_def path last_index_byte_last [OF e] by simp
  also have "\<dots> = abs_path xs"
    using clean_abs_path_slash [OF xs] clean_abs_path [of "[]"] by (auto simp: abs_path_def)
  finally show ?thesis by (simp add: snoc)
qed

lemma abs_path_inj:
  assumes "list_all plain_elem es" "list_all plain_elem es'"
  shows "abs_path es = abs_path es' \<longleftrightarrow> es = es'"
proof
  assume "abs_path es = abs_path es'"
  then have "split_on slash (abs_path es) = split_on slash (abs_path es')" by simp
  then have "(if es = [] then [[], []] else [] # es) = (if es' = [] then [[], []] else [] # es')"
    unfolding split_abs_path [OF assms(1)] split_abs_path [OF assms(2)] .
  then show "es = es'" using assms by (cases "es = []"; cases "es' = []") (auto simp: plain_elem_def)
qed simp

lemma list_all_butlast: "list_all P es \<Longrightarrow> list_all P (butlast es)"
  by (auto simp: list_all_iff dest: in_set_butlastD)

lemma path_dir_top: "list_all plain_elem es \<Longrightarrow> path_dir (abs_path es) = abs_path es \<longleftrightarrow> es = []"
  using abs_path_inj [of "butlast es" es] list_all_butlast [of plain_elem es]
  by (cases es rule: rev_cases) (simp_all add: path_dir_abs)

lemma length_abs_path: "list_all plain_elem es \<Longrightarrow> length es < Suc (length (abs_path es))"
proof -
  have "list_all plain_elem es \<Longrightarrow> length es \<le> Suc (length (join ''/'' es))"
    by (induction "''/''" es rule: join.induct) (auto simp: plain_elem_def Suc_le_eq)
  then show "list_all plain_elem es \<Longrightarrow> ?thesis" by (simp add: abs_path_def less_Suc_eq_le)
qed

section \<open>Searching upward\<close>

definition fs_exists :: "fs_env \<Rightarrow> string \<Rightarrow> bool" where
  "fs_exists fe p \<longleftrightarrow> fe_stat fe p = StatFile \<or> fe_stat fe p = StatDir"

definition package_at :: "string list \<Rightarrow> string" where
  "package_at es = path_join (abs_path es) ''package.json''"

text \<open>The search from \<open>es\<close> stopped at its first \<open>k\<close> elements with a package: none deeper, and nothing that ends it.\<close>

definition nearest_at :: "fs_env \<Rightarrow> string list \<Rightarrow> nat \<Rightarrow> bool" where
  "nearest_at fe es k \<longleftrightarrow> k \<le> length es \<and> fs_exists fe (package_at (take k es)) \<and>
     list_all (\<lambda>j. fe_stat fe (package_at (take j es)) = StatMissing \<and>
       \<not> isGitRoot fe (abs_path (take j es)) \<and> \<not> isHomeDir fe (abs_path (take j es))) [Suc k..<Suc (length es)]"

lemma nearest_at_bound: "nearest_at fe (butlast es) k \<Longrightarrow> es \<noteq> [] \<Longrightarrow> k < length es"
  by (cases es rule: rev_cases) (auto simp: nearest_at_def)

lemma nearest_at_deeper:
  assumes "nearest_at fe (butlast es) k" "es \<noteq> []" "fe_stat fe (package_at es) = StatMissing"
    "\<not> isGitRoot fe (abs_path es)" "\<not> isHomeDir fe (abs_path es)"
  shows "nearest_at fe es k"
proof -
  have k: "k < length es" by (rule nearest_at_bound [OF assms(1,2)])
  have len: "Suc (length (butlast es)) = length es" using assms(2) by (cases es) simp_all
  have "list_all (\<lambda>j. fe_stat fe (package_at (take j es)) = StatMissing \<and>
       \<not> isGitRoot fe (abs_path (take j es)) \<and> \<not> isHomeDir fe (abs_path (take j es))) [Suc k..<length es]"
    using assms(1) unfolding nearest_at_def len list_all_iff by (simp add: take_butlast)
  moreover have "fs_exists fe (package_at (take k es))" using assms(1) k by (simp add: nearest_at_def take_butlast)
  moreover have "[Suc k..<Suc (length es)] = [Suc k..<length es] @ [length es]" using k by simp
  ultimately show ?thesis using k assms(3-5) by (simp add: nearest_at_def)
qed

lemma nearest_loop_ok:
  assumes "list_all plain_elem es" "length es < n"
  shows "\<exists>r. nearest_loop fe n (abs_path es) = Some r \<and>
    (\<forall>c. r = Inr (Some c) \<longrightarrow> (\<exists>k. nearest_at fe es k \<and> c = package_at (take k es)))"
  using assms
proof (induction n arbitrary: es)
  case 0
  then show ?case by simp
next
  case (Suc n)
  note parent = path_dir_abs [OF Suc.prems(1)] path_dir_top [OF Suc.prems(1)]
  have here: "nearest_at fe es (length es)" if "fs_exists fe (package_at es)"
    using that by (simp add: nearest_at_def)
  show ?case
  proof (cases "fe_stat fe (package_at es)")
    case StatMissing
    show ?thesis
    proof (cases "es = [] \<or> isGitRoot fe (abs_path es) \<or> isHomeDir fe (abs_path es)")
      case True
      with StatMissing parent show ?thesis by (auto simp: package_at_def Let_def)
    next
      case False
      then have shorter: "length (butlast es) < n" using Suc.prems(2) by (cases es rule: rev_cases) auto
      obtain r where r: "nearest_loop fe n (abs_path (butlast es)) = Some r"
        "\<forall>c. r = Inr (Some c) \<longrightarrow> (\<exists>k. nearest_at fe (butlast es) k \<and> c = package_at (take k (butlast es)))"
        using Suc.IH [OF list_all_butlast [OF Suc.prems(1)]] shorter by blast
      have "nearest_loop fe (Suc n) (abs_path es) = Some r"
        using StatMissing False parent r(1) by (simp add: package_at_def Let_def)
      moreover have "nearest_at fe es k \<and> c = package_at (take k es)"
        if "nearest_at fe (butlast es) k" "c = package_at (take k (butlast es))" for k c
      proof -
        have "k < length es" using nearest_at_bound [OF that(1)] False by blast
        then have "take k (butlast es) = take k es" by (rule take_butlast)
        with that nearest_at_deeper [OF that(1)] False StatMissing show ?thesis by simp
      qed
      ultimately show ?thesis using r(2) by blast
    qed
  next
    case StatFailed
    then show ?thesis by (simp add: package_at_def ws_fail_def Let_def)
  next
    case StatFile
    with here show ?thesis by (auto simp: package_at_def fs_exists_def Let_def intro!: exI [where x = "length es"])
  next
    case StatDir
    with here show ?thesis by (auto simp: package_at_def fs_exists_def Let_def intro!: exI [where x = "length es"])
  qed
qed

lemma root_loop_ok:
  "list_all plain_elem es \<Longrightarrow> length es < n \<Longrightarrow> root_loop fe n (abs_path es) \<noteq> None"
proof (induction n arbitrary: es)
  case (Suc n)
  have "es \<noteq> [] \<Longrightarrow> length es - Suc 0 < n" using Suc.prems(2) by (cases es) simp_all
  with Suc.prems Suc.IH [of "butlast es"] list_all_butlast [of plain_elem es] show ?case
    using path_dir_abs [of es] path_dir_top [of es] by (auto simp: Let_def split: sum.split option.split)
qed simp

lemma ancestor_loop_ok:
  "list_all plain_elem es \<Longrightarrow> length es < n \<Longrightarrow> ancestor_loop fe n root (abs_path es) \<noteq> None"
proof (induction n arbitrary: es)
  case (Suc n)
  have "es \<noteq> [] \<Longrightarrow> length es - Suc 0 < n" using Suc.prems(2) by (cases es) simp_all
  with Suc.prems Suc.IH [of "butlast es"] list_all_butlast [of plain_elem es] show ?case
    using path_dir_abs [of es] path_dir_top [of es] by (auto simp: Let_def)
qed simp

text \<open>\<open>filepath.Abs\<close> answers with a clean rooted path.\<close>

definition abs_clean :: "fs_env \<Rightarrow> bool" where
  "abs_clean fe \<longleftrightarrow> (\<forall>p a. os_abs (fe_os fe) p = Some a \<longrightarrow> has_prefix a ''/'' \<and> path_clean a = a)"

lemma fs_abs_elems:
  assumes "abs_clean fe" "fs_abs fe p = Inr dir"
  obtains es where "list_all plain_elem es" "dir = abs_path es"
  using assms clean_rooted_abs [of dir] by (auto simp: abs_clean_def fs_abs_def ws_fail_def split: option.splits)

lemma find_root_returns:
  assumes "abs_clean fe"
  shows "findWorkspaceRoot fe p \<noteq> None"
proof (cases "fs_abs fe p")
  case (Inr dir)
  from fs_abs_elems [OF assms Inr] obtain es where "list_all plain_elem es" "dir = abs_path es" .
  with Inr root_loop_ok [of es "Suc (length dir)" fe] length_abs_path [of es] show ?thesis
    by (simp add: findWorkspaceRoot_def)
qed (simp add: findWorkspaceRoot_def)

text \<open>The directory the search starts from: the directory itself, or that of a file.\<close>

definition search_start :: "fs_env \<Rightarrow> string \<Rightarrow> string list \<Rightarrow> bool" where
  "search_start fe p es \<longleftrightarrow> list_all plain_elem es \<and>
     (case fs_abs fe p of Inl _ \<Rightarrow> False | Inr dir \<Rightarrow> abs_path es = (if fe_stat fe dir = StatDir then dir else path_dir dir))"

lemma find_nearest_ok:
  assumes "abs_clean fe"
  shows "\<exists>r. FindNearestPackageJSON fe p = Some r \<and>
    (\<forall>c. r = Inr (Some c) \<longrightarrow> (\<exists>es k. search_start fe p es \<and> nearest_at fe es k \<and> c = package_at (take k es)))"
proof (cases "fs_abs fe p")
  case (Inl e)
  then show ?thesis by (simp add: FindNearestPackageJSON_def)
next
  case (Inr dir)
  from fs_abs_elems [OF assms Inr] obtain es where es: "list_all plain_elem es" "dir = abs_path es" .
  have up: "list_all plain_elem (butlast es)" "path_dir dir = abs_path (butlast es)"
    using es path_dir_abs list_all_butlast by auto
  show ?thesis
  proof (cases "fe_stat fe dir")
    case StatDir
    with Inr es nearest_loop_ok [of es "Suc (length dir)" fe] length_abs_path [of es] show ?thesis
      by (auto simp: FindNearestPackageJSON_def search_start_def)
  next
    case StatFile
    with Inr es up nearest_loop_ok [of "butlast es" "Suc (length (path_dir dir))" fe] length_abs_path [of "butlast es"] show ?thesis
      by (auto simp: FindNearestPackageJSON_def search_start_def)
  qed (simp_all add: FindNearestPackageJSON_def Inr ws_fail_def)
qed

lemma find_nearest_returns: "abs_clean fe \<Longrightarrow> FindNearestPackageJSON fe p \<noteq> None"
  using find_nearest_ok [of fe p] by auto

lemma hostname_returns:
  assumes "abs_clean fe"
  shows "HostnameForProject fe p \<noteq> None"
  using find_nearest_returns [OF assms, of p] find_root_returns [OF assms]
  by (auto simp: HostnameForProject_def Let_def split: sum.split option.split read_answer.split)

lemma has_suffix_appended: "has_suffix (a @ p) p" "has_suffix (a @ b @ p) p" "has_suffix (a @ c # b @ p) p"
  by (simp_all add: has_suffix_def)

lemma hostname_localhost:
  "case HostnameForProject fe p of Some (Inr host) \<Rightarrow> has_suffix host ''.localhost'' | _ \<Rightarrow> True"
proof (cases "FindNearestPackageJSON fe p")
  case (Some nearest)
  show ?thesis
  proof (cases "\<exists>c pkg. nearest = Inr (Some c) \<and> fe_package fe c = Read pkg")
    case True
    then obtain c pkg where c: "nearest = Inr (Some c)" "fe_package fe c = Read pkg" by blast
    show ?thesis
      unfolding HostnameForProject_def Some c(1) Let_def
      by (cases "findWorkspaceRoot fe (path_dir c)")
        (auto simp: c(2) has_suffix_appended split: option.split sum.split)
  next
    case False
    then show ?thesis
      unfolding HostnameForProject_def Some Let_def ws_fail_def
      by (cases nearest) (auto simp: has_suffix_appended split: option.split read_answer.split)
  qed
qed (simp add: HostnameForProject_def)

section \<open>Properties\<close>

text \<open>
  C39. Every search up the directories ends, from any start, when \<open>filepath.Abs\<close> answers with clean rooted paths: the
  nearest \<open>package.json\<close>, the workspace root, the host name of a project. The package found is in a directory at or
  above the start, none is nearer, and no Git root and no home directory lies between.
\<close>

theorem upward_searches_return:
  assumes "abs_clean fe"
  shows "(case FindNearestPackageJSON fe p of
       None \<Rightarrow> False
     | Some (Inr (Some c)) \<Rightarrow> \<exists>es k. search_start fe p es \<and> nearest_at fe es k \<and> c = package_at (take k es)
     | Some _ \<Rightarrow> True) \<and>
    findWorkspaceRoot fe p \<noteq> None \<and> HostnameForProject fe p \<noteq> None"
proof -
  from find_nearest_ok [OF assms, of p] obtain r where r: "FindNearestPackageJSON fe p = Some r"
    "\<forall>c. r = Inr (Some c) \<longrightarrow> (\<exists>es k. search_start fe p es \<and> nearest_at fe es k \<and> c = package_at (take k es))" by blast
  with find_root_returns [OF assms] hostname_returns [OF assms] show ?thesis by (auto split: sum.split option.split)
qed

definition sample_fs :: fs_env where
  "sample_fs = \<lparr>fe_os = \<lparr>os_abs = (\<lambda>p. Some (path_clean (''/'' @ p))), os_eval_symlinks = Some\<rparr>,
     fe_stat = (\<lambda>p. if p = ''/w/package.json'' then StatFile else if p = ''/w/a'' then StatDir else StatMissing),
     fe_package = (\<lambda>_. ReadMissing), fe_read = (\<lambda>_. ReadMissing), fe_home = None, fe_glob = (\<lambda>_. None),
     fe_match = (\<lambda>p s. p = ''*'' \<or> p = s), fe_tree = (\<lambda>_. None)\<rparr>"

lemma rooted_clean: "has_prefix (slash # p) ''/''" "has_prefix (path_clean (slash # p)) ''/''"
  by (simp_all add: has_prefix_def path_clean_def)

theorem upward_searches_return_witness:
  "FindNearestPackageJSON sample_fs ''w/a'' \<noteq> None \<and> findWorkspaceRoot sample_fs ''w/a'' \<noteq> None"
proof -
  have "abs_clean sample_fs"
    using path_clean_rooted_idem by (simp add: abs_clean_def sample_fs_def rooted_clean)
  from upward_searches_return [OF this, of "''w/a''"] show ?thesis by (auto split: option.splits)
qed

text \<open>
  Matching a globstar pattern is exactly its meaning: the path splits into one part for each element of the
  pattern, any part for \<open>**\<close> and one element matched by any other.
\<close>

definition part_ok :: "(string \<Rightarrow> string \<Rightarrow> bool) \<Rightarrow> string \<Rightarrow> string list \<Rightarrow> bool" where
  "part_ok m p part \<longleftrightarrow> p = ''**'' \<or> (case part of [x] \<Rightarrow> m p x | _ \<Rightarrow> False)"

lemma globstar_suffix:
  "matchGlobstarParts m (''**'' # ps) v \<longleftrightarrow> (\<exists>a b. v = a @ b \<and> matchGlobstarParts m ps b)"
proof (induction v)
  case (Cons x xs)
  show ?case
  proof
    assume "matchGlobstarParts m (''**'' # ps) (x # xs)"
    then consider "matchGlobstarParts m ps (x # xs)" | "matchGlobstarParts m (''**'' # ps) xs" by auto
    then show "\<exists>a b. x # xs = a @ b \<and> matchGlobstarParts m ps b"
    proof cases
      case 1
      then show ?thesis by (intro exI [where x = "[]"] exI [where x = "x # xs"]) simp
    next
      case 2
      with Cons.IH obtain a b where "xs = a @ b" "matchGlobstarParts m ps b" by blast
      then show ?thesis by (intro exI [where x = "x # a"] exI [where x = b]) simp
    qed
  next
    assume "\<exists>a b. x # xs = a @ b \<and> matchGlobstarParts m ps b"
    with Cons.IH show "matchGlobstarParts m (''**'' # ps) (x # xs)" by (auto simp: Cons_eq_append_conv)
  qed
qed simp

theorem matchGlobstarParts_meaning:
  "matchGlobstarParts m ps v \<longleftrightarrow> (\<exists>parts. list_all2 (part_ok m) ps parts \<and> concat parts = v)"
proof (induction ps arbitrary: v)
  case (Cons p ps)
  have step: "matchGlobstarParts m (p # ps) v \<longleftrightarrow> (\<exists>a b. v = a @ b \<and> part_ok m p a \<and> matchGlobstarParts m ps b)"
  proof (cases "p = ''**''")
    case True
    then show ?thesis unfolding True globstar_suffix by (simp add: part_ok_def)
  next
    case False
    then have "part_ok m p a \<longleftrightarrow> (\<exists>x. a = [x] \<and> m p x)" for a by (auto simp: part_ok_def split: list.splits)
    moreover have "(\<exists>a b. v = a @ b \<and> (\<exists>x. a = [x] \<and> m p x) \<and> matchGlobstarParts m ps b) \<longleftrightarrow>
        (\<exists>x b. v = x # b \<and> m p x \<and> matchGlobstarParts m ps b)" by (metis append_Cons append_Nil)
    ultimately show ?thesis using False by (cases v) auto
  qed
  have split_concat: "(\<exists>parts. list_all2 (part_ok m) (p # ps) parts \<and> concat parts = v) \<longleftrightarrow>
      (\<exists>a b. v = a @ b \<and> part_ok m p a \<and> (\<exists>parts. list_all2 (part_ok m) ps parts \<and> concat parts = b))"
    by (metis (no_types, lifting) concat.simps(2) list_all2_Cons list_all2_Cons1)
  show ?case
    unfolding step Cons.IH split_concat by simp
qed auto

text \<open>
  The patterns of a \<open>pnpm-workspace.yaml\<close> as the tests and the documentation of pnpm write it are read as they
  stand: a list under \<open>packages:\<close>, one indented and quoted pattern on each line.
\<close>

definition plain_pattern :: "string \<Rightarrow> bool" where
  "plain_pattern p \<longleftrightarrow> p \<noteq> [] \<and> CHR 0x27 \<notin> set p \<and> CHR 0x0A \<notin> set p \<and> \<not> is_space (hd p) \<and> \<not> is_space (last p)"

definition yaml_item :: "string \<Rightarrow> string" where
  "yaml_item p = ''  - '' @ CHR 0x27 # p @ [CHR 0x27]"

definition yaml_packages :: "string list \<Rightarrow> string" where
  "yaml_packages ps = join [CHR 0x0A] (''packages:'' # map yaml_item ps)"

lemma strip_comment_quoted: "q \<notin> set p \<Longrightarrow> strip_comment (Some q) (p @ [q]) = p @ [q]"
  by (induction p) auto

lemma quote_not_space: "\<not> is_space (CHR 0x27)"
  by (simp add: is_space_def code_def)

lemma pnpm_item:
  assumes "plain_pattern p"
  shows "pnpm_line True (yaml_item p) = (True, [p])"
proof -
  let ?q = "CHR 0x27 # p @ [CHR 0x27]"
  have strip: "stripYAMLComment (yaml_item p) = yaml_item p"
    using assms strip_comment_quoted [of "CHR 0x27" p] by (simp add: stripYAMLComment_def yaml_item_def plain_pattern_def)
  have "trim_space (yaml_item p) = ''- '' @ ?q"
    by (simp add: yaml_item_def trim_space_def trim_def trim_left_def trim_right_def quote_not_space)
       (simp add: is_space_def code_def)
  moreover have "trim_space ?q = ?q" unfolding trim_space_def by (rule trim_id) (simp add: quote_not_space)
  moreover have "trim_space p = p" unfolding trim_space_def using assms by (intro trim_id) (simp add: plain_pattern_def)
  moreover from calculation have scalar: "parseYAMLPatternValues ?q = [p]"
    using assms by (simp add: parseYAMLPatternValues_def trimYAMLScalar_def plain_pattern_def has_prefix_def)
  ultimately show ?thesis
    using strip scalar by (simp add: pnpm_line_def) (simp add: yaml_item_def has_prefix_def trim_prefix_def)
qed

lemma pnpm_items: "list_all plain_pattern ps \<Longrightarrow> pnpm_lines True (map yaml_item ps) = ps"
  by (induction ps) (simp_all add: pnpm_item)

theorem parsePNPM_roundtrip:
  assumes "list_all plain_pattern ps"
  shows "parsePNPMWorkspacePackages (yaml_packages ps) = ps"
proof -
  have "pnpm_line False ''packages:'' = (True, [])" by code_simp
  moreover have "split_on (CHR 0x0A) (yaml_packages ps) = ''packages:'' # map yaml_item ps"
    unfolding yaml_packages_def using assms
    by (intro split_on_join_plain) (auto simp: yaml_item_def list_all_iff plain_pattern_def)
  ultimately show ?thesis using pnpm_items [OF assms] by (simp add: parsePNPMWorkspacePackages_def)
qed

lemma parsePNPM_roundtrip_witness:
  "parsePNPMWorkspacePackages (yaml_packages [''apps/*'', ''packages/**'', ''!**/test'']) = [''apps/*'', ''packages/**'', ''!**/test'']"
proof -
  have "list_all plain_pattern [''apps/*'', ''packages/**'', ''!**/test'']" by code_simp
  then show ?thesis by (rule parsePNPM_roundtrip)
qed

text \<open>
  Two forms of the same YAML that are read otherwise: a list that is not indented (valid YAML, and what many
  formatters write) gives no pattern at all, and a flow list over several lines gives the pattern \<open>[\<close>, which
  \<open>filepath.Glob\<close> rejects, so that the command fails.
\<close>

theorem parsePNPM_forms_misread:
  "parsePNPMWorkspacePackages (''packages:'' @ [CHR 0x0A] @ ''- apps/*'') = [] \<and>
   parsePNPMWorkspacePackages (''packages: ['' @ [CHR 0x0A] @ ''  apps/*'' @ [CHR 0x0A] @ '']'') = [''['']"
  by code_simp

section \<open>What the discovery finds\<close>

definition root_place :: "fs_env \<Rightarrow> string \<Rightarrow> string \<Rightarrow> bool" where
  "root_place fe root packagePath \<longleftrightarrow> samePath (fe_os fe) packagePath (path_join root ''package.json'')"

definition discovery_ok :: "fs_env \<Rightarrow> string \<Rightarrow> discovery \<Rightarrow> bool" where
  "discovery_ok fe root d \<longleftrightarrow>
     distinct (map snd (fst d)) \<and> list_all (\<lambda>packagePath. \<not> root_place fe root packagePath) (map snd (fst d))"

text \<open>The packages that a negated pattern among \<open>patterns\<close> names.\<close>

definition negated_places :: "fs_env \<Rightarrow> string \<Rightarrow> string list \<Rightarrow> string set" where
  "negated_places fe root patterns =
     {packagePath. \<exists>raw \<in> set patterns. \<exists>pattern places dir. split_negation raw = (True, pattern) \<and> pattern \<noteq> '''' \<and>
        workspacePackageMatches fe root pattern = Inr places \<and> (dir, packagePath) \<in> set places \<and>
        \<not> root_place fe root packagePath}"

lemma add_place_ok: "discovery_ok fe root d \<Longrightarrow> discovery_ok fe root (add_place fe root negated place d)"
  by (cases d) (auto simp: discovery_ok_def add_place_def root_place_def list_all_iff)

lemma add_places_ok: "discovery_ok fe root d \<Longrightarrow> discovery_ok fe root (fold (add_place fe root negated) places d)"
  by (induction places arbitrary: d) (simp_all add: add_place_ok)

lemma add_place_excluded:
  "set (snd (add_place fe root negated place d)) =
     (if negated \<and> \<not> root_place fe root (snd place) then insert (snd place) (set (snd d)) else set (snd d))"
  by (cases d) (auto simp: add_place_def root_place_def)

lemma add_places_excluded:
  "set (snd (fold (add_place fe root negated) places d)) =
     (if negated then set (snd d) \<union> {p \<in> snd ` set places. \<not> root_place fe root p} else set (snd d))"
  by (induction places arbitrary: d) (auto simp: add_place_excluded)

lemma discover_places_ok:
  "discovery_ok fe root d \<Longrightarrow> discover_places fe root patterns d = Inr d' \<Longrightarrow>
   discovery_ok fe root d' \<and> set (snd d') = set (snd d) \<union> negated_places fe root patterns"
proof (induction patterns arbitrary: d)
  case (Cons raw rest)
  obtain negated pattern where s: "split_negation raw = (negated, pattern)" by fastforce
  have split_set: "negated_places fe root (raw # rest) =
      {packagePath. \<exists>places dir. negated \<and> pattern \<noteq> '''' \<and> workspacePackageMatches fe root pattern = Inr places \<and>
         (dir, packagePath) \<in> set places \<and> \<not> root_place fe root packagePath} \<union> negated_places fe root rest"
    by (auto simp: negated_places_def s)
  show ?case
  proof (cases "pattern = ''''")
    case True
    with Cons.prems(2) have "discover_places fe root rest d = Inr d'" by (simp add: s)
    from Cons.IH [OF Cons.prems(1) this] True show ?thesis by (simp add: split_set)
  next
    case False
    with Cons.prems(2) obtain places where w: "workspacePackageMatches fe root pattern = Inr places"
      and rest: "discover_places fe root rest (fold (add_place fe root negated) places d) = Inr d'"
      by (auto simp: s res_bind_def split: sum.splits)
    have named: "{p \<in> snd ` set places. \<not> root_place fe root p} =
        {packagePath. \<exists>dir. (dir, packagePath) \<in> set places \<and> \<not> root_place fe root packagePath}" by force
    from Cons.IH [OF add_places_ok [OF Cons.prems(1)] rest] False w show ?thesis
      unfolding split_set add_places_excluded named by (cases negated) (simp_all add: Un_assoc)
  qed
qed (simp add: negated_places_def)

text \<open>A package of the result: its \<open>package.json\<close> was read and named it.\<close>

definition package_read :: "fs_env \<Rightarrow> workspace_package \<Rightarrow> bool" where
  "package_read fe w =
     (case fe_package fe (wp_package_path w) of
        Read pkg \<Rightarrow> wp_name w = pj_name pkg \<and> wp_short_name w = packageNameOrFolder (pj_name pkg) (wp_dir w)
      | _ \<Rightarrow> False)"

lemma read_places_ok:
  "read_places fe excluded places = Inr ws \<Longrightarrow> distinct (map snd places) \<Longrightarrow>
   distinct (map wp_package_path ws) \<and> set (map wp_package_path ws) \<subseteq> snd ` set places - set excluded \<and>
   list_all (package_read fe) ws"
proof (induction fe excluded places arbitrary: ws rule: read_places.induct)
  case (2 fe excluded dir packagePath places)
  have dist: "distinct (map snd places)" "packagePath \<notin> snd ` set places" using "2.prems"(2) by simp_all
  consider "read_places fe excluded places = Inr ws"
    | pkg more where "packagePath \<notin> set excluded" "fe_package fe packagePath = Read pkg" "read_places fe excluded places = Inr more"
        "ws = \<lparr>wp_dir = dir, wp_package_path = packagePath, wp_name = pj_name pkg,
           wp_short_name = packageNameOrFolder (pj_name pkg) dir, wp_script = ''''\<rparr> # more"
    using "2.prems"(1) by (auto simp: res_bind_Inr_iff ws_fail_def split: if_splits read_answer.splits)
  then show ?case
  proof cases
    case 1
    have "distinct (map wp_package_path ws) \<and> set (map wp_package_path ws) \<subseteq> snd ` set places - set excluded \<and>
        list_all (package_read fe) ws"
      using "2.prems"(1) "2.IH" 1 dist(1) by (simp split: if_splits read_answer.splits) (auto simp: ws_fail_def)
    then show ?thesis by auto
  next
    case (2 pkg more)
    with "2.IH" dist(1) have "distinct (map wp_package_path more) \<and>
        set (map wp_package_path more) \<subseteq> snd ` set places - set excluded \<and> list_all (package_read fe) more" by simp
    moreover have "package_read fe (hd ws)" using 2 by (simp add: package_read_def)
    ultimately show ?thesis using 2 dist(2) by auto
  qed
qed simp

text \<open>
  Discovering the packages of a workspace never lists a package twice and never lists the root package, whatever
  the order of the patterns; a package that a pattern after \<open>!\<close> names is absent even if a later pattern names it again;
  and every entry carries the name its own \<open>package.json\<close> gives.
\<close>

theorem DiscoverWorkspacePackageDirs_sound:
  "case (fs_abs fe root, DiscoverWorkspacePackageDirs fe root) of
     (Inr dir, Inr (Some ws)) \<Rightarrow>
       (case workspacePatterns fe dir of
          Inr (Some patterns) \<Rightarrow>
            distinct (map wp_package_path ws) \<and>
            list_all (\<lambda>w. \<not> root_place fe dir (wp_package_path w) \<and> wp_package_path w \<notin> negated_places fe dir patterns \<and>
              package_read fe w) ws
        | _ \<Rightarrow> False)
   | _ \<Rightarrow> True"
proof (cases "fs_abs fe root")
  case (Inr dir)
  have sound: "distinct (map wp_package_path ws) \<and>
      list_all (\<lambda>w. \<not> root_place fe dir (wp_package_path w) \<and> wp_package_path w \<notin> negated_places fe dir patterns \<and>
        package_read fe w) ws"
    if "discover_places fe dir patterns ([], []) = Inr (ordered, excluded)" "read_places fe excluded ordered = Inr ws"
    for patterns ordered excluded ws
  proof -
    have "discovery_ok fe dir ([], [])" by (simp add: discovery_ok_def)
    from discover_places_ok [OF this that(1)] have d: "distinct (map snd ordered)"
      and r: "list_all (\<lambda>p. \<not> root_place fe dir p) (map snd ordered)" and e: "set excluded = negated_places fe dir patterns"
      by (simp_all add: discovery_ok_def)
    from read_places_ok [OF that(2) d] r e show ?thesis
      unfolding list_all_iff set_map by blast
  qed
  show ?thesis
    using Inr sound by (auto simp: DiscoverWorkspacePackageDirs_def res_bind_Inr_iff split: sum.split option.split)
qed simp

end
