(* ===== verification/Run_Plan.thy ===== *)
theory Run_Plan
  imports Workspace Runner Route_Commands
begin

text \<open>
  What \<open>gohere\<close> decides before it starts a program, \<open>internal/app/run.go\<close>: the plan of one run, of a group
  and of the packages of a workspace, the command line for the host the program has to listen on, the public
  address and the environment with the services of the group.

  The record \<open>run_env\<close> answers for the machine: the file system, the environment of the process, the free
  port that the n-th call of \<open>chooseFreePortForHostFunc\<close> gives (\<open>None\<close>: an error), and the configuration. The
  number of those calls is passed through the functions.
\<close>

section \<open>Plans\<close>

record run_plan =
  pl_command :: "string list"
  pl_env :: "string list"
  pl_port :: int
  pl_host :: string
  pl_name :: string
  pl_cwd :: string
  pl_project_root :: string
  pl_project_name :: string
  pl_static :: bool
  pl_live :: bool
  pl_url_path :: string
  pl_require_detected_port :: bool
  pl_route_target_host :: string
  pl_route_source :: string
  pl_owner_env :: string
  pl_owner_instance :: string
  pl_distro :: string
  pl_linux_user :: string
  pl_runner_id :: string
  pl_listen_host :: string
  pl_router_label :: string
  pl_static_bind_host :: string
  pl_managed_port :: bool
  pl_fixed_port :: bool
  pl_mode :: string
  pl_url_scheme :: string
  pl_authority_url_scheme :: string

text \<open>The zero value \<open>RunPlan{}\<close>.\<close>

definition empty_plan :: run_plan where
  "empty_plan =
     \<lparr>pl_command = [], pl_env = [], pl_port = 0, pl_host = '''', pl_name = '''', pl_cwd = '''', pl_project_root = '''',
      pl_project_name = '''', pl_static = False, pl_live = False, pl_url_path = '''', pl_require_detected_port = False,
      pl_route_target_host = '''', pl_route_source = '''', pl_owner_env = '''', pl_owner_instance = '''', pl_distro = '''',
      pl_linux_user = '''', pl_runner_id = '''', pl_listen_host = '''', pl_router_label = '''', pl_static_bind_host = '''',
      pl_managed_port = False, pl_fixed_port = False, pl_mode = '''', pl_url_scheme = '''', pl_authority_url_scheme = ''''\<rparr>"

datatype run_failure =
    NoFreePort
  | InvalidAlias string
  | LiveStaticOnly
  | StaticNeedsExtension string
  | NothingToRun
  | MissingScript string "string list"
  | PathNotFound string
  | FileNotFound string
  | MultiplePackageScriptsOnly
  | NoDistinctPort string
  | FileSystem
  | SearchGivenUp

record run_env =
  re_fs :: fs_env
  re_environ :: "string list"
  re_port :: "string \<Rightarrow> nat \<Rightarrow> int option"
  re_state_dir :: string
  re_https :: bool

type_synonym 'a prepared = "(run_failure, 'a) result"

definition from_fs :: "(ws_error, 'a) result \<Rightarrow> 'a prepared" where
  "from_fs r = (case r of Inl _ \<Rightarrow> Inl FileSystem | Inr a \<Rightarrow> Inr a)"

text \<open>A search up the directories, which has run out of steps when there is no answer.\<close>

definition from_search :: "(ws_error, 'a) result option \<Rightarrow> 'a prepared" where
  "from_search r = (case r of None \<Rightarrow> Inl SearchGivenUp | Some r \<Rightarrow> from_fs r)"

section \<open>Options and names\<close>

definition localhost_name :: "string \<Rightarrow> string" where
  "localhost_name dir = NormalizeHostnameName (path_base dir) @ ''.localhost''"

definition applyAsAlias :: "command \<Rightarrow> run_plan \<Rightarrow> run_plan prepared" where
  "applyAsAlias cmd plan =
     (if cmd_as cmd = '''' then Inr plan
      else (case NormalizeHostnameAlias (cmd_as cmd) of (name, ok) \<Rightarrow>
              if \<not> ok then Inl (InvalidAlias (cmd_as cmd))
              else Inr (plan\<lparr>pl_name := name, pl_host := name @ ''.localhost''\<rparr>)))"

definition applyRunOptions :: "command \<Rightarrow> run_plan \<Rightarrow> run_plan prepared" where
  "applyRunOptions cmd plan =
     res_bind (applyAsAlias cmd (plan\<lparr>pl_fixed_port := pl_fixed_port plan \<or> cmd_target_port cmd \<noteq> 0\<rparr>)) (\<lambda>plan.
       if cmd_live cmd then (if \<not> pl_static plan then Inl LiveStaticOnly else Inr (plan\<lparr>pl_live := True\<rparr>))
       else Inr plan)"

definition runName :: "command \<Rightarrow> string" where
  "runName cmd =
     (if cmd_kind cmd = CommandRun \<and> cmd_target_path cmd \<noteq> '''' then cmd_target_path cmd
      else if cmd_kind cmd = CommandRun \<and> cmd_script cmd \<noteq> '''' then cmd_script cmd
      else ''command'')"

definition runnerDirForRun :: "command \<Rightarrow> run_plan \<Rightarrow> string" where
  "runnerDirForRun cmd plan =
     (if cmd_kind cmd = CommandRun \<and> cmd_target_path cmd \<noteq> '''' then pl_cwd plan else '''')"

definition shouldRunWorkspace :: "command \<Rightarrow> bool" where
  "shouldRunWorkspace cmd \<longleftrightarrow>
     cmd_kind cmd = CommandRun \<and> cmd_script cmd = ''dev'' \<and> cmd_scripts cmd = [] \<and> \<not> cmd_explicit_script cmd \<and>
     \<not> cmd_live cmd \<and> cmd_as cmd = '''' \<and> cmd_share_mode cmd = '''' \<and> cmd_target_port cmd = 0"

definition runMode :: "command \<Rightarrow> run_plan \<Rightarrow> string" where
  "runMode cmd plan =
     (if pl_mode plan \<noteq> '''' then pl_mode plan else if pl_static plan then ''static''
      else if cmd_kind cmd = CommandRaw then ''raw'' else ''package'')"

definition injectedArgsControlPort :: "string list \<Rightarrow> string \<Rightarrow> bool" where
  "injectedArgsControlPort args portFlag =
     list_ex (\<lambda>arg. arg = ''--port'' \<or> arg = ''-p'' \<or> has_prefix arg ''--port='' \<or>
       has_prefix arg ''-p'' \<and> length arg > 2 \<or>
       portFlag \<noteq> '''' \<and> arg = portFlag \<or> portFlag \<noteq> '''' \<and> has_prefix arg (portFlag @ ''='')) args"

text \<open>\<open>filepath.Ext\<close> is not empty: there is a dot after the last slash.\<close>

definition path_ext :: "string \<Rightarrow> string" where
  "path_ext p =
     (let name = (case last_index_byte slash p of None \<Rightarrow> p | Some i \<Rightarrow> drop (i + 1) p)
      in case last_index_byte (CHR ''.'') name of None \<Rightarrow> '''' | Some i \<Rightarrow> drop i name)"

definition isFileTarget :: "command \<Rightarrow> bool" where
  "isFileTarget cmd \<longleftrightarrow> cmd_kind cmd = CommandRun \<and> cmd_script cmd \<noteq> '''' \<and> path_ext (cmd_script cmd) \<noteq> ''''"

definition IsStaticProject :: "fs_env \<Rightarrow> string \<Rightarrow> bool" where
  "IsStaticProject fe dir \<longleftrightarrow> fe_stat fe (path_join dir ''index.html'') = StatFile"

section \<open>Preparing one run\<close>

definition static_plan :: "string \<Rightarrow> string \<Rightarrow> int \<Rightarrow> run_plan" where
  "static_plan root urlPath port =
     empty_plan\<lparr>pl_port := port, pl_host := localhost_name root, pl_name := trim_suffix (localhost_name root) ''.localhost'',
       pl_cwd := root, pl_project_root := root, pl_project_name := NormalizeHostnameName (path_base root),
       pl_static := True, pl_url_path := urlPath\<rparr>"

definition prepareStaticFilePlan :: "command \<Rightarrow> string \<Rightarrow> string \<Rightarrow> int \<Rightarrow> run_plan prepared" where
  "prepareStaticFilePlan cmd root urlPath port = applyRunOptions cmd (static_plan root urlPath port)"

definition prepareStaticFileTarget :: "fs_env \<Rightarrow> command \<Rightarrow> string \<Rightarrow> int \<Rightarrow> run_plan prepared" where
  "prepareStaticFileTarget fe cmd cwd port =
     (let cleanPath = path_clean (cmd_script cmd) in
      if has_prefix cleanPath ''/'' \<or> cleanPath = ''..'' \<or> has_prefix cleanPath ''../'' then Inl (FileNotFound (cmd_script cmd))
      else if fe_stat fe (path_join cwd cleanPath) \<noteq> StatFile then Inl (FileNotFound (cmd_script cmd))
      else prepareStaticFilePlan cmd cwd (''/'' @ cleanPath) port)"

definition prepareStaticFilePathTarget :: "command \<Rightarrow> string \<Rightarrow> int \<Rightarrow> run_plan prepared" where
  "prepareStaticFilePathTarget cmd targetPath port =
     prepareStaticFilePlan cmd (path_dir targetPath) (''/'' @ path_base targetPath) port"

definition resolvePathTarget :: "fs_env \<Rightarrow> string \<Rightarrow> string \<Rightarrow> (string \<times> bool) prepared" where
  "resolvePathTarget fe cwd input =
     (let cleanPath = path_clean input;
          cleanPath = (if \<not> has_prefix cleanPath ''/'' then path_join cwd cleanPath else cleanPath) in
      res_bind (from_fs (fs_abs fe cleanPath)) (\<lambda>targetPath.
        case fe_stat fe targetPath of
          StatMissing \<Rightarrow> Inl (PathNotFound input)
        | StatFailed \<Rightarrow> Inl FileSystem
        | StatFile \<Rightarrow> Inr (targetPath, False)
        | StatDir \<Rightarrow> Inr (targetPath, True)))"

text \<open>\<open>chooseFreePortForHostFunc\<close>, unless the command names the port; the number of calls goes on.\<close>

definition choose_port :: "run_env \<Rightarrow> string \<Rightarrow> int \<Rightarrow> nat \<Rightarrow> int prepared \<times> nat" where
  "choose_port re host port n =
     (if port \<noteq> 0 then (Inr port, n)
      else (case re_port re host n of None \<Rightarrow> Inl NoFreePort | Some p \<Rightarrow> Inr p, Suc n))"

text \<open>The script of the nearest package: the part of \<open>prepareRunWithHost\<close> after the search.\<close>

definition prepare_script :: "run_env \<Rightarrow> command \<Rightarrow> string \<Rightarrow> string \<Rightarrow> string \<Rightarrow> int \<Rightarrow> run_plan prepared" where
  "prepare_script re cmd cwd childHost packagePath port =
     (case fe_package (re_fs re) packagePath of
        Read pkg \<Rightarrow>
          (case Script pkg (cmd_script cmd) of
             None \<Rightarrow> Inl (MissingScript (cmd_script cmd) (AvailableScripts pkg))
           | Some scriptCommand \<Rightarrow>
               (let port = (case ExplicitPort scriptCommand of Some explicitPort \<Rightarrow> if cmd_target_port cmd = 0 then explicitPort else port
                            | None \<Rightarrow> port);
                    env = ChildEnvForHost (re_environ re) port childHost;
                    fixedPort = (cmd_target_port cmd \<noteq> 0 \<or> ExplicitPort scriptCommand \<noteq> None);
                    projectRoot = path_dir packagePath in
                res_bind (from_fs (DetectPackageManager (re_fs re) projectRoot)) (\<lambda>pm.
                let injected = InjectPortArgsForHost scriptCommand port (cmd_port_flag cmd) childHost in
                res_bind (from_search (HostnameForProject (re_fs re) cwd)) (\<lambda>host.
                res_bind (from_fs (ProjectNameForRoot (re_fs re) projectRoot)) (\<lambda>projectName.
                applyRunOptions cmd (empty_plan\<lparr>pl_command := BuildScriptCommand pm (cmd_script cmd) injected, pl_env := env,
                  pl_port := port, pl_host := host, pl_name := trim_suffix host ''.localhost'', pl_cwd := cwd,
                  pl_project_root := projectRoot, pl_project_name := projectName,
                  pl_managed_port := injectedArgsControlPort injected (cmd_port_flag cmd), pl_fixed_port := fixedPort\<rparr>))))))
      | _ \<Rightarrow> Inl FileSystem)"

definition prepare_project :: "run_env \<Rightarrow> command \<Rightarrow> string \<Rightarrow> string \<Rightarrow> int \<Rightarrow> run_plan prepared" where
  "prepare_project re cmd cwd childHost port =
     (let fe = re_fs re; current = fe_stat fe (path_join cwd ''package.json'') in
      if current = StatFailed then Inl FileSystem
      else if cmd_script cmd = ''dev'' \<and> IsStaticProject fe cwd \<and> current = StatMissing
      then applyRunOptions cmd (static_plan cwd '''' port)
      else res_bind (from_search (FindNearestPackageJSON fe cwd)) (\<lambda>found.
        case found of
          None \<Rightarrow>
            if cmd_script cmd \<noteq> '''' \<and> cmd_script cmd \<noteq> ''dev'' \<and> IsStaticProject fe cwd
            then Inl (StaticNeedsExtension (cmd_script cmd))
            else if IsStaticProject fe cwd then applyRunOptions cmd (static_plan cwd '''' port)
            else Inl NothingToRun
        | Some packagePath \<Rightarrow> prepare_script re cmd cwd childHost packagePath port))"

definition raw_plan :: "run_env \<Rightarrow> command \<Rightarrow> string \<Rightarrow> string \<Rightarrow> int \<Rightarrow> run_plan" where
  "raw_plan re cmd cwd childHost port =
     empty_plan\<lparr>pl_command := cmd_raw cmd, pl_env := ChildEnvForHost (re_environ re) port childHost, pl_port := port,
       pl_host := localhost_name cwd, pl_name := trim_suffix (localhost_name cwd) ''.localhost'', pl_cwd := cwd,
       pl_project_root := cwd, pl_project_name := NormalizeHostnameName (path_base cwd),
       pl_require_detected_port := (cmd_target_port cmd = 0)\<rparr>"

text \<open>The code calls itself once, for a directory named on the command line, with the path cleared.\<close>

function prepareRunWithHost :: "run_env \<Rightarrow> command \<Rightarrow> string \<Rightarrow> string \<Rightarrow> nat \<Rightarrow> run_plan prepared \<times> nat"
and preparePathTarget :: "run_env \<Rightarrow> command \<Rightarrow> string \<Rightarrow> int \<Rightarrow> string \<Rightarrow> nat \<Rightarrow> run_plan prepared \<times> nat" where
  "prepareRunWithHost re cmd cwd childHost n =
     (case choose_port re childHost (cmd_target_port cmd) n of
        (Inl e, n) \<Rightarrow> (Inl e, n)
      | (Inr port, n) \<Rightarrow>
          if cmd_kind cmd = CommandRaw then (applyRunOptions cmd (raw_plan re cmd cwd childHost port), n)
          else if cmd_target_path cmd \<noteq> '''' then preparePathTarget re cmd cwd port childHost n
          else if isFileTarget cmd then (prepareStaticFileTarget (re_fs re) cmd cwd port, n)
          else (prepare_project re cmd cwd childHost port, n))"
| "preparePathTarget re cmd cwd port childHost n =
     (case resolvePathTarget (re_fs re) cwd (cmd_target_path cmd) of
        Inl e \<Rightarrow> (Inl e, n)
      | Inr (targetPath, isDir) \<Rightarrow>
          if \<not> isDir then (prepareStaticFilePathTarget cmd targetPath port, n)
          else prepareRunWithHost re
            (cmd\<lparr>cmd_target_path := '''', cmd_script := ''dev'', cmd_scripts := [], cmd_explicit_script := False,
               cmd_target_port := port\<rparr>) targetPath childHost n)"
  by pat_completeness auto
termination
  by (relation "measure (\<lambda>x. case x of
        Inl (_, cmd, _) \<Rightarrow> if cmd_target_path cmd \<noteq> '''' then 2 else 0
      | Inr (_, cmd, _) \<Rightarrow> 1)") auto

definition PrepareRun :: "run_env \<Rightarrow> command \<Rightarrow> string \<Rightarrow> nat \<Rightarrow> run_plan prepared \<times> nat" where
  "PrepareRun re cmd cwd n = prepareRunWithHost re cmd cwd ''127.0.0.1'' n"

section \<open>Preparing a group\<close>

definition prepareWorkspacePackageRun ::
  "run_env \<Rightarrow> command \<Rightarrow> string \<Rightarrow> package_manager \<Rightarrow> workspace_package \<Rightarrow> string \<Rightarrow> nat \<Rightarrow> run_plan prepared \<times> nat" where
  "prepareWorkspacePackageRun re cmd root pm w childHost n =
     (case choose_port re childHost 0 n of
        (Inl e, n) \<Rightarrow> (Inl e, n)
      | (Inr port, n) \<Rightarrow>
          (let port = (case ExplicitPort (wp_script w) of Some explicitPort \<Rightarrow> explicitPort | None \<Rightarrow> port);
               injected = InjectPortArgsForHost (wp_script w) port (cmd_port_flag cmd) childHost in
           (res_bind (from_search (HostnameForProject (re_fs re) (wp_dir w))) (\<lambda>host.
            res_bind (from_fs (ProjectNameForRoot (re_fs re) root)) (\<lambda>projectName.
            Inr (empty_plan\<lparr>pl_command := BuildScriptCommand pm (cmd_script cmd) injected,
              pl_env := ChildEnvForHost (re_environ re) port childHost, pl_port := port, pl_host := host,
              pl_name := trim_suffix host ''.localhost'', pl_cwd := wp_dir w, pl_project_root := root,
              pl_project_name := projectName, pl_managed_port := injectedArgsControlPort injected (cmd_port_flag cmd),
              pl_fixed_port := (cmd_target_port cmd \<noteq> 0 \<or> ExplicitPort (wp_script w) \<noteq> None), pl_mode := ''workspace''\<rparr>))), n)))"

text \<open>
  \<open>prepareDistinctGroupPlans\<close> over any \<open>prepare\<close>, which gets the index and the number of ports chosen so far.
  The first pass prepares every item; the second prepares an item without a fixed port again while its port is
  taken, \<open>maxDistinctGroupPortAttempts\<close> times in all.
\<close>

type_synonym preparer = "nat \<Rightarrow> nat \<Rightarrow> run_plan prepared \<times> nat"

definition maxDistinctGroupPortAttempts :: nat where "maxDistinctGroupPortAttempts = 8"

fun first_plans :: "preparer \<Rightarrow> nat list \<Rightarrow> nat \<Rightarrow> run_plan list prepared \<times> nat" where
  "first_plans prepare [] n = (Inr [], n)"
| "first_plans prepare (i # is) n =
     (case prepare i n of
        (Inl e, n) \<Rightarrow> (Inl e, n)
      | (Inr plan, n) \<Rightarrow>
          (case first_plans prepare is n of
             (Inl e, n) \<Rightarrow> (Inl e, n)
           | (Inr plans, n) \<Rightarrow> (Inr (plan # plans), n)))"

fun distinct_plan :: "preparer \<Rightarrow> (nat \<Rightarrow> string) \<Rightarrow> nat \<Rightarrow> int set \<Rightarrow> nat \<Rightarrow> run_plan \<Rightarrow> nat \<Rightarrow> run_plan prepared \<times> nat" where
  "distinct_plan prepare source spare taken i plan n =
     (if pl_port plan \<notin> taken then (Inr plan, n)
      else (case spare of
              0 \<Rightarrow> (Inl (NoDistinctPort (source i)), n)
            | Suc spare \<Rightarrow>
                (case prepare i n of
                   (Inl e, n) \<Rightarrow> (Inl e, n)
                 | (Inr plan, n) \<Rightarrow> distinct_plan prepare source spare taken i plan n)))"

fun distinct_plans :: "preparer \<Rightarrow> (nat \<Rightarrow> string) \<Rightarrow> int set \<Rightarrow> (nat \<times> run_plan) list \<Rightarrow> nat \<Rightarrow> run_plan list prepared \<times> nat" where
  "distinct_plans prepare source taken [] n = (Inr [], n)"
| "distinct_plans prepare source taken ((i, plan) # rest) n =
     (if pl_fixed_port plan then
        (case distinct_plans prepare source taken rest n of
           (Inl e, n) \<Rightarrow> (Inl e, n) | (Inr plans, n) \<Rightarrow> (Inr (plan # plans), n))
      else
        (case distinct_plan prepare source (maxDistinctGroupPortAttempts - 1) taken i plan n of
           (Inl e, n) \<Rightarrow> (Inl e, n)
         | (Inr plan, n) \<Rightarrow>
             (case distinct_plans prepare source (insert (pl_port plan) taken) rest n of
                (Inl e, n) \<Rightarrow> (Inl e, n) | (Inr plans, n) \<Rightarrow> (Inr (plan # plans), n))))"

definition fixed_ports :: "run_plan list \<Rightarrow> int set" where
  "fixed_ports plans = set (map pl_port (filter pl_fixed_port plans))"

definition prepareDistinctGroupPlans :: "nat \<Rightarrow> preparer \<Rightarrow> (nat \<Rightarrow> string) \<Rightarrow> nat \<Rightarrow> run_plan list prepared \<times> nat" where
  "prepareDistinctGroupPlans item_count prepare source n =
     (case first_plans prepare [0..<item_count] n of
        (Inl e, n) \<Rightarrow> (Inl e, n)
      | (Inr plans, n) \<Rightarrow> distinct_plans prepare source (fixed_ports plans) (zip [0..<item_count] plans) n)"

section \<open>The host the program listens on\<close>

record run_router =
  rr_route_target_host :: string
  rr_child_host :: string
  rr_route_source :: string
  rr_owner_env :: string
  rr_owner_instance :: string
  rr_distro :: string
  rr_linux_user :: string
  rr_runner_id :: string
  rr_router_label :: string
  rr_public_url_scheme :: string

definition isCommonLoopbackHost :: "string \<Rightarrow> bool" where
  "isCommonLoopbackHost host \<longleftrightarrow> host = ''127.0.0.1'' \<or> host = ''localhost'' \<or> host = ''0.0.0.0''"

definition isSeparateHostFlag :: "string \<Rightarrow> bool" where
  "isSeparateHostFlag flag \<longleftrightarrow> flag \<in> set [''--host'', ''--hostname'', ''--listen'', ''--allowed-hosts'']"

fun replace_host :: "string list \<Rightarrow> string \<Rightarrow> string \<Rightarrow> string" where
  "replace_host [] arg host = arg"
| "replace_host (p # ps) arg host =
     (if has_prefix arg p \<and> isCommonLoopbackHost (trim_prefix arg p) then p @ host else replace_host ps arg host)"

definition replaceCommandHost :: "string \<Rightarrow> string \<Rightarrow> string" where
  "replaceCommandHost arg host = replace_host [''--host='', ''--hostname='', ''--listen='', ''--allowed-hosts=''] arg host"

fun with_host :: "bool \<Rightarrow> string \<Rightarrow> string list \<Rightarrow> string list" where
  "with_host rewriteNext host [] = []"
| "with_host rewriteNext host (arg # args) =
     (if rewriteNext then (if isCommonLoopbackHost arg then host else arg) # with_host False host args
      else if isSeparateHostFlag arg then arg # with_host True host args
      else replaceCommandHost arg host # with_host False host args)"

definition withHost :: "string list \<Rightarrow> string \<Rightarrow> string list" where
  "withHost command host = (if host = '''' \<or> host = ''127.0.0.1'' then command else with_host False host command)"

definition bridgeTargetCandidates :: "string \<Rightarrow> string list" where
  "bridgeTargetCandidates wslIP =
     [''127.0.0.1'', ''localhost''] @
     (if wslIP \<noteq> '''' \<and> wslIP \<noteq> ''127.0.0.1'' \<and> wslIP \<noteq> ''localhost'' then [wslIP] else [])"

definition bridgeChildHost :: "string \<Rightarrow> string" where
  "bridgeChildHost targetHost =
     (if targetHost = ''127.0.0.1'' \<or> equal_fold targetHost ''localhost'' then ''127.0.0.1'' else ''0.0.0.0'')"

definition shouldPrepareForChildBindHost :: "command \<Rightarrow> string \<Rightarrow> bool" where
  "shouldPrepareForChildBindHost cmd childHost \<longleftrightarrow>
     cmd_target_port cmd = 0 \<and> childHost \<noteq> '''' \<and> childHost \<noteq> ''127.0.0.1'' \<and> \<not> equal_fold childHost ''localhost''"

text \<open>\<open>appendMissingEnv\<close>: the names that \<open>env\<close> does not have, in order; a later value of a name counts.\<close>

definition appendMissingEnv :: "string list \<Rightarrow> (string \<times> string) list \<Rightarrow> string list" where
  "appendMissingEnv env vars =
     env @ map (\<lambda>key. key @ ''='' @ the (map_of vars key)) (filter (\<lambda>key. \<not> env_has env key) (sort (remdups (map fst vars))))"

fun first_existing :: "fs_env \<Rightarrow> string list \<Rightarrow> string option" where
  "first_existing fe [] = None"
| "first_existing fe (p # ps) = (if fe_stat fe p = StatFile \<or> fe_stat fe p = StatDir then Some p else first_existing fe ps)"

text \<open>The variables for the certificates of Windows.\<close>

definition trust_vars :: "fs_env \<Rightarrow> string \<Rightarrow> (string \<times> string) list" where
  "trust_vars fe stateDir =
     (''NODE_EXTRA_CA_CERTS'', path_join (path_join stateDir ''wsl'') ''windows-ca.pem'') #
     (case first_existing fe [''/etc/ssl/certs/ca-certificates.crt'', ''/etc/pki/tls/certs/ca-bundle.crt'', ''/etc/ssl/ca-bundle.pem''] of
        None \<Rightarrow> [] | Some bundle \<Rightarrow> [(''REQUESTS_CA_BUNDLE'', bundle)])"

definition applyWSLTrustEnvironment :: "fs_env \<Rightarrow> string list \<Rightarrow> string \<Rightarrow> string list" where
  "applyWSLTrustEnvironment fe env stateDir =
     appendMissingEnv env (trust_vars fe stateDir)"

definition pick :: "string \<Rightarrow> string \<Rightarrow> string" where
  "pick new old = (if new \<noteq> '''' then new else old)"

definition router_fields :: "run_router \<Rightarrow> run_plan \<Rightarrow> run_plan" where
  "router_fields rr plan =
     plan\<lparr>pl_route_target_host := pick (rr_route_target_host rr) (pl_route_target_host plan),
       pl_route_source := pick (rr_route_source rr) (pl_route_source plan),
       pl_owner_env := pick (rr_owner_env rr) (pl_owner_env plan),
       pl_owner_instance := pick (rr_owner_instance rr) (pl_owner_instance plan),
       pl_distro := pick (rr_distro rr) (pl_distro plan),
       pl_linux_user := pick (rr_linux_user rr) (pl_linux_user plan),
       pl_runner_id := pick (rr_runner_id rr) (pl_runner_id plan),
       pl_listen_host := pick (rr_child_host rr) (pl_listen_host plan),
       pl_router_label := pick (rr_router_label rr) (pl_router_label plan),
       pl_authority_url_scheme := pick (rr_public_url_scheme rr) (pl_authority_url_scheme plan),
       pl_static_bind_host := (if pl_static plan then pick (rr_child_host rr) (pl_static_bind_host plan) else pl_static_bind_host plan)\<rparr>"

definition applyRunRouter :: "run_env \<Rightarrow> run_router \<Rightarrow> run_plan \<Rightarrow> run_plan" where
  "applyRunRouter re rr plan =
     (let plan = router_fields rr plan;
          plan = (if rr_child_host rr \<noteq> '''' \<and> \<not> pl_static plan
                  then plan\<lparr>pl_env := ChildEnvForHost (pl_env plan) (pl_port plan) (rr_child_host rr),
                    pl_command := withHost (pl_command plan) (rr_child_host rr)\<rparr>
                  else plan)
      in if rr_owner_env rr = ''wsl'' then plan\<lparr>pl_env := applyWSLTrustEnvironment (re_fs re) (pl_env plan) (re_state_dir re)\<rparr>
         else plan)"

section \<open>Public addresses\<close>

text \<open>\<open>(&url.URL{Path: path}).EscapedPath()\<close>: \<open>encodePath\<close> leaves letters, digits and the bytes listed; \<open>*\<close> alone stays.\<close>

definition path_byte_stays :: "char \<Rightarrow> bool" where
  "path_byte_stays c \<longleftrightarrow> is_upper c \<or> is_lower c \<or> is_digit c \<or> c \<in> set ''-_.~$&+,/:;=@''"

definition escapedURLPath :: "string \<Rightarrow> string" where
  "escapedURLPath path =
     (if path = '''' then '''' else if path = ''*'' then ''*''
      else concat (map (\<lambda>c. if path_byte_stays c then [c] else [CHR ''%'', upper_hex (code c div 16), upper_hex (code c mod 16)]) path))"

definition normalizedURLScheme :: "string \<Rightarrow> string" where
  "normalizedURLScheme scheme = (if scheme = ''https'' then ''https'' else ''http'')"

definition publicURLScheme :: "run_env \<Rightarrow> command \<Rightarrow> string \<Rightarrow> string" where
  "publicURLScheme re cmd authorityScheme =
     (if cmd_http cmd then ''http''
      else if cmd_url_scheme cmd = ''https'' then ''https''
      else if cmd_url_scheme cmd = ''auto'' then
        (if authorityScheme \<noteq> '''' then normalizedURLScheme authorityScheme else if re_https re then ''https'' else ''http'')
      else ''http'')"

definition applyPublicURLScheme :: "run_env \<Rightarrow> command \<Rightarrow> run_plan \<Rightarrow> run_plan" where
  "applyPublicURLScheme re cmd plan =
     (if pl_url_scheme plan = '''' then plan\<lparr>pl_url_scheme := publicURLScheme re cmd (pl_authority_url_scheme plan)\<rparr> else plan)"

definition publicRouteURLForScheme :: "string \<Rightarrow> string \<Rightarrow> string \<Rightarrow> string" where
  "publicRouteURLForScheme scheme host urlPath = normalizedURLScheme scheme @ ''://'' @ host @ escapedURLPath urlPath"

definition arrow :: string where "arrow = [CHR 0xE2, CHR 0x86, CHR 0x92]"

definition runSuccessOutputForScheme :: "command \<Rightarrow> string \<Rightarrow> string \<Rightarrow> string \<Rightarrow> string" where
  "runSuccessOutputForScheme cmd scheme host urlPath =
     ''gohere'' @
     (if cmd_kind cmd = CommandRun then
        (if cmd_target_path cmd \<noteq> '''' then '' '' @ cmd_target_path cmd
         else if cmd_script cmd \<noteq> '''' \<and> (cmd_script cmd \<noteq> ''dev'' \<or> urlPath \<noteq> '''') then '' '' @ cmd_script cmd
         else '''')
      else '''') @ '' '' @ arrow @ '' '' @
     normalizedURLScheme scheme @ ''://'' @ host @ escapedURLPath urlPath @ [CHR 0x0A]"

definition runSuccessOutput :: "command \<Rightarrow> string \<Rightarrow> string \<Rightarrow> string" where
  "runSuccessOutput cmd host urlPath = runSuccessOutputForScheme cmd ''http'' host urlPath"

text \<open>\<open>net.JoinHostPort\<close> puts a host with a colon or a percent sign in brackets.\<close>

definition join_host_port :: "string \<Rightarrow> string \<Rightarrow> string" where
  "join_host_port host port =
     (if CHR '':'' \<in> set host \<or> CHR ''%'' \<in> set host then ''['' @ host @ '']:'' @ port else host @ '':'' @ port)"

definition routeTarget :: "string \<Rightarrow> int \<Rightarrow> string" where
  "routeTarget host port = ''http://'' @ join_host_port (if host = '''' then ''127.0.0.1'' else host) (itoa port)"

text \<open>The map holds the last directory of each host; a host differs from another in more than case.\<close>

definition resolveRouteHost :: "os_paths \<Rightarrow> run_plan \<Rightarrow> (string \<times> string) list \<Rightarrow> string" where
  "resolveRouteHost op plan registered = ResolveHostnameConflict op (pl_host plan) (pl_cwd plan) (rev registered)"

definition toRegisteredRoutes :: "route list \<Rightarrow> (string \<times> string) list" where
  "toRegisteredRoutes routes = map (\<lambda>r. (rt_host r, rt_cwd r)) routes"

section \<open>Groups and services\<close>

definition multiScriptHost :: "string \<Rightarrow> string \<Rightarrow> string" where
  "multiScriptHost script baseHost =
     (let base = trim_suffix baseHost ''.localhost'';
          label = (case last_index_byte (CHR '':'') script of
                     Some i \<Rightarrow> if i < length script - 1 then drop (i + 1) script else script
                   | None \<Rightarrow> script)
      in NormalizeHostnameName label @ ''.'' @ base @ ''.localhost'')"

text \<open>The closure \<open>prepare\<close> of \<open>runMulti\<close>; the router is there already only inside WSL.\<close>

definition prepare_script_of :: "run_env \<Rightarrow> command \<Rightarrow> string \<Rightarrow> string \<Rightarrow> run_router option \<Rightarrow> preparer" where
  "prepare_script_of re cmd cwd prepareHost rr i n =
     (let script = cmd_scripts cmd ! i in
      case prepareRunWithHost re (cmd\<lparr>cmd_script := script, cmd_scripts := []\<rparr>) cwd prepareHost n of
        (Inl e, n) \<Rightarrow> (Inl e, n)
      | (Inr plan, n) \<Rightarrow>
          if pl_static plan then (Inl MultiplePackageScriptsOnly, n)
          else (let host = multiScriptHost script (pl_host plan);
                    plan = plan\<lparr>pl_host := host, pl_name := trim_suffix host ''.localhost'', pl_mode := ''multi''\<rparr>
                in (Inr (case rr of None \<Rightarrow> plan | Some rr \<Rightarrow> applyRunRouter re rr plan), n)))"

definition prepare_package_of ::
  "run_env \<Rightarrow> command \<Rightarrow> string \<Rightarrow> package_manager \<Rightarrow> workspace_package list \<Rightarrow> string \<Rightarrow> run_router option \<Rightarrow> preparer" where
  "prepare_package_of re cmd root pm packages prepareHost rr i n =
     (case prepareWorkspacePackageRun re cmd root pm (packages ! i) prepareHost n of
        (Inl e, n) \<Rightarrow> (Inl e, n)
      | (Inr plan, n) \<Rightarrow> (Inr (case rr of None \<Rightarrow> plan | Some rr \<Rightarrow> applyRunRouter re rr plan), n))"

type_synonym run_item = "command \<times> run_plan"

text \<open>
  \<open>runMulti\<close> and \<open>runWorkspace\<close> up to \<open>runPlannedGroup\<close>: \<open>wslRouter\<close> is the router resolved first inside WSL, and
  \<open>rr\<close> the one every plan gets.
\<close>

definition prepare_host :: "run_router option \<Rightarrow> string" where
  "prepare_host wslRouter = (case wslRouter of None \<Rightarrow> ''127.0.0.1'' | Some rr \<Rightarrow> pick (rr_child_host rr) ''127.0.0.1'')"

definition finish_item :: "run_env \<Rightarrow> run_router \<Rightarrow> run_item \<Rightarrow> run_item" where
  "finish_item re rr = (\<lambda>(cmd, plan). (cmd, applyPublicURLScheme re cmd (applyRunRouter re rr plan)))"

definition runMulti_items :: "run_env \<Rightarrow> command \<Rightarrow> string \<Rightarrow> run_router option \<Rightarrow> run_router \<Rightarrow> nat \<Rightarrow> run_item list prepared \<times> nat" where
  "runMulti_items re cmd cwd wslRouter rr n =
     (case prepareDistinctGroupPlans (length (cmd_scripts cmd))
             (prepare_script_of re cmd cwd (prepare_host wslRouter) wslRouter) (\<lambda>i. cmd_scripts cmd ! i) n of
        (Inl e, n) \<Rightarrow> (Inl e, n)
      | (Inr plans, n) \<Rightarrow>
          (Inr (map (finish_item re rr)
             (zip (map (\<lambda>script. cmd\<lparr>cmd_script := script, cmd_scripts := []\<rparr>) (cmd_scripts cmd)) plans)), n))"

definition runWorkspace_items ::
  "run_env \<Rightarrow> command \<Rightarrow> string \<Rightarrow> package_manager \<Rightarrow> workspace_package list \<Rightarrow> run_router option \<Rightarrow> run_router \<Rightarrow> nat
     \<Rightarrow> run_item list prepared \<times> nat" where
  "runWorkspace_items re cmd root pm packages wslRouter rr n =
     (case prepareDistinctGroupPlans (length packages)
             (prepare_package_of re cmd root pm packages (prepare_host wslRouter) wslRouter)
             (\<lambda>i. wp_short_name (packages ! i)) n of
        (Inl e, n) \<Rightarrow> (Inl e, n)
      | (Inr plans, n) \<Rightarrow>
          (Inr (map (finish_item re rr)
             (zip (map (\<lambda>w. cmd\<lparr>cmd_script := wp_short_name w, cmd_scripts := [], cmd_explicit_script := True\<rparr>) packages)
                plans)), n))"

definition serviceDiscoveryLabel :: "run_item \<Rightarrow> string" where
  "serviceDiscoveryLabel = (\<lambda>(cmd, plan).
     (let name = runName cmd;
          name = (case last_index_byte (CHR '':'') name of
                    Some i \<Rightarrow> if i < length name - 1 then drop (i + 1) name else name
                  | None \<Rightarrow> name)
      in if name \<noteq> '''' then NormalizeHostnameName name
         else (let host = trim_suffix (pl_host plan) ''.localhost''
               in case cut (CHR ''.'') host of Some (label, _) \<Rightarrow> label | None \<Rightarrow> host)))"

text \<open>A run of bytes that are no letter or digit becomes one underscore; those at the ends go.\<close>

fun env_key_chars :: "bool \<Rightarrow> string \<Rightarrow> string" where
  "env_key_chars lastUnderscore [] = []"
| "env_key_chars lastUnderscore (c # s) =
     (if is_upper c \<or> is_digit c then c # env_key_chars False s
      else if lastUnderscore then env_key_chars True s
      else CHR ''_'' # env_key_chars True s)"

definition to_upper_char :: "char \<Rightarrow> char" where
  "to_upper_char c = (if is_lower c then char_of (code c - 32) else c)"

definition serviceDiscoveryEnvKey :: "string \<Rightarrow> string" where
  "serviceDiscoveryEnvKey label =
     trim_right (\<lambda>c. c = CHR ''_'') (trim_left (\<lambda>c. c = CHR ''_'') (env_key_chars False (map to_upper_char label)))"

definition serviceDiscoverySource :: "run_item \<Rightarrow> string" where
  "serviceDiscoverySource = (\<lambda>(cmd, plan).
     if cmd_script cmd \<noteq> '''' then cmd_script cmd else if pl_cwd plan \<noteq> '''' then pl_cwd plan
     else if pl_host plan \<noteq> '''' then pl_host plan else ''unknown service'')"

text \<open>The first route that is ready or unknown, of the same host, scheme and directory, with a lease that runs inside WSL.\<close>

definition reusable :: "proc_env \<Rightarrow> time \<Rightarrow> run_plan \<Rightarrow> string list \<Rightarrow> route_status_pair \<Rightarrow> bool" where
  "reusable pv now plan absCWDs = (\<lambda>(r, status).
     (status = RouteStatusReady \<or> status = RouteStatusUnknown) \<and>
     equal_fold (rt_host r) (pl_host plan) \<and>
     rt_preferred_scheme r = pl_url_scheme plan \<and>
     \<not> (rt_owner_env r = ''wsl'' \<and> (is_zero_time (rt_lease_expires_at r) \<or> RouteLeaseExpired r now)) \<and>
     RouteMatchesAnyCWD pv r absCWDs)"

definition reusableExistingRoute :: "proc_env \<Rightarrow> time \<Rightarrow> run_plan \<Rightarrow> route_status_pair list \<Rightarrow> route option" where
  "reusableExistingRoute pv now plan statuses =
     (case AbsCWDSet pv [pl_cwd plan] of
        Inl _ \<Rightarrow> None
      | Inr absCWDs \<Rightarrow> map_option fst (find (reusable pv now plan absCWDs) statuses))"

datatype run_intent = RunIntentPlanned | RunIntentLazy

definition classifyRunIntent :: "command \<Rightarrow> run_plan \<Rightarrow> run_intent" where
  "classifyRunIntent cmd plan =
     (if pl_static plan \<or> pl_mode plan = ''workspace'' \<or> pl_mode plan = ''multi'' \<or> cmd_target_path cmd \<noteq> '''' \<or> cmd_live cmd
      then RunIntentPlanned
      else if cmd_target_port cmd > 0 \<or> trim_space (cmd_port_flag cmd) \<noteq> '''' then RunIntentPlanned
      else if cmd_kind cmd \<noteq> CommandRun then RunIntentLazy
      else if length (cmd_scripts cmd) > 1 \<or> \<not> cmd_explicit_script cmd \<and> cmd_script cmd = ''dev'' then RunIntentPlanned
      else if pl_managed_port plan then RunIntentPlanned
      else RunIntentLazy)"

record resolved_service =
  sv_plan :: run_plan
  sv_route :: route
  sv_ref :: route_ref
  sv_key :: string
  sv_public_url :: string
  sv_reused :: bool

definition resolvedPublicURL :: "run_plan \<Rightarrow> route \<Rightarrow> string" where
  "resolvedPublicURL plan r = publicRouteURLForScheme (pl_url_scheme plan) (rt_host r) (pl_url_path plan)"

definition routeTargetPort :: "net_env \<Rightarrow> string \<Rightarrow> string option" where
  "routeTargetPort net target =
     (case net_parse_url net target of
        None \<Rightarrow> None
      | Some u \<Rightarrow> if url_scheme u = '''' \<or> url_hostname u = '''' \<or> url_port u = '''' then None else Some (url_port u))"

definition isGeneratedRuntimeKey :: "string \<Rightarrow> bool" where
  "isGeneratedRuntimeKey key \<longleftrightarrow>
     key \<in> set [''HOST'', ''PORT'', ''GOHERE_URL'', ''GOHERE_SERVICES_JSON''] \<or>
     has_prefix key ''GOHERE_'' \<and>
     list_ex (\<lambda>suf. case cut_suffix (trim_prefix key ''GOHERE_'') suf of None \<Rightarrow> False | Some middle \<Rightarrow> middle \<noteq> '''')
       [''_URL'', ''_TARGET'', ''_PORT'']"

definition kept_env :: "string list \<Rightarrow> string list" where
  "kept_env = filter (\<lambda>item. case cut (CHR ''='') item of None \<Rightarrow> False | Some (key, _) \<Rightarrow> \<not> isGeneratedRuntimeKey key)"

definition port_env :: "net_env \<Rightarrow> string \<Rightarrow> resolved_service \<Rightarrow> string list" where
  "port_env net name service =
     (case routeTargetPort net (rt_target (sv_route service)) of None \<Rightarrow> [] | Some port \<Rightarrow> [name @ ''='' @ port])"

definition service_env :: "net_env \<Rightarrow> resolved_service \<Rightarrow> string list" where
  "service_env net service =
     (let key = serviceDiscoveryEnvKey (sv_key service); p = ''GOHERE_'' @ key @ ''_'' in
      if key = '''' then []
      else [p @ ''URL='' @ sv_public_url service, p @ ''TARGET='' @ rt_target (sv_route service)] @
           port_env net (p @ ''PORT'') service)"

definition resolveServiceEnvironment :: "net_env \<Rightarrow> string list \<Rightarrow> resolved_service \<Rightarrow> resolved_service list \<Rightarrow> string list" where
  "resolveServiceEnvironment net base current services =
     (let host = trim_space (pl_listen_host (sv_plan current)) in
      kept_env base @ [''HOST='' @ (if host = '''' then ''127.0.0.1'' else host)] @
      port_env net ''PORT'' current @ [''GOHERE_URL='' @ sv_public_url current] @
      (if length services > 1 then concat (map (service_env net) services) else []))"

section \<open>Plans are consistent\<close>

declare prepareRunWithHost.simps [simp del] preparePathTarget.simps [simp del]

text \<open>
  What every accepted plan satisfies: the host is the name under \<open>.localhost\<close>; a static plan starts no program and only
  a static plan is live; a port given with \<open>--target\<close> is the plan's and fixed.
\<close>

definition plan_ok :: "command \<Rightarrow> run_plan \<Rightarrow> bool" where
  "plan_ok cmd plan \<longleftrightarrow>
     pl_host plan = pl_name plan @ ''.localhost'' \<and>
     pl_live plan = cmd_live cmd \<and> (pl_live plan \<longrightarrow> pl_static plan) \<and>
     (pl_static plan \<longrightarrow> pl_command plan = [] \<and> pl_env plan = [] \<and> \<not> pl_managed_port plan) \<and>
     (cmd_target_port cmd \<noteq> 0 \<longrightarrow> pl_port plan = cmd_target_port cmd \<and> pl_fixed_port plan \<and> \<not> pl_require_detected_port plan)"

text \<open>The same before the options of the command are applied.\<close>

definition base_plan_ok :: "command \<Rightarrow> run_plan \<Rightarrow> bool" where
  "base_plan_ok cmd plan \<longleftrightarrow>
     pl_host plan = pl_name plan @ ''.localhost'' \<and> \<not> pl_live plan \<and>
     (pl_static plan \<longrightarrow> pl_command plan = [] \<and> pl_env plan = [] \<and> \<not> pl_managed_port plan) \<and>
     (cmd_target_port cmd \<noteq> 0 \<longrightarrow> pl_port plan = cmd_target_port cmd \<and> \<not> pl_require_detected_port plan)"

definition outcome_ok :: "('a \<Rightarrow> bool) \<Rightarrow> 'a prepared \<Rightarrow> bool" where
  "outcome_ok P r \<longleftrightarrow> (case r of Inl e \<Rightarrow> e \<noteq> SearchGivenUp | Inr plan \<Rightarrow> P plan)"

lemma outcome_ok_simps [simp]:
  "outcome_ok P (Inl e) \<longleftrightarrow> e \<noteq> SearchGivenUp"
  "outcome_ok P (Inr plan) \<longleftrightarrow> P plan"
  by (simp_all add: outcome_ok_def)

lemma applyRunOptions_ok: "base_plan_ok cmd plan \<Longrightarrow> outcome_ok (plan_ok cmd) (applyRunOptions cmd plan)"
  by (auto simp: applyRunOptions_def applyAsAlias_def base_plan_ok_def plan_ok_def split: prod.split)

lemma static_plan_ok: "(cmd_target_port cmd \<noteq> 0 \<longrightarrow> port = cmd_target_port cmd) \<Longrightarrow> base_plan_ok cmd (static_plan root urlPath port)"
  by (simp add: base_plan_ok_def static_plan_def empty_plan_def localhost_name_def)

lemma choose_port_target: "choose_port re h port n = (Inr p, n') \<Longrightarrow> port \<noteq> 0 \<Longrightarrow> p = port"
  by (simp add: choose_port_def)

lemma raw_plan_ok: "(cmd_target_port cmd \<noteq> 0 \<longrightarrow> port = cmd_target_port cmd) \<Longrightarrow> base_plan_ok cmd (raw_plan re cmd cwd h port)"
  by (simp add: base_plan_ok_def raw_plan_def empty_plan_def localhost_name_def)

lemma from_fs_ok [simp]: "from_fs r \<noteq> Inl SearchGivenUp"
  by (auto simp: from_fs_def split: sum.split)

lemma from_search_ok: "r \<noteq> None \<Longrightarrow> from_search r \<noteq> Inl SearchGivenUp"
  by (auto simp: from_search_def)

lemma outcome_bind:
  "r \<noteq> Inl SearchGivenUp \<Longrightarrow> (\<And>x. r = Inr x \<Longrightarrow> outcome_ok P (f x)) \<Longrightarrow> outcome_ok P (res_bind r f)"
  by (cases r) auto

lemma hostname_search:
  assumes "from_search (HostnameForProject fe cwd) = Inr host"
  shows "host = trim_suffix host ''.localhost'' @ ''.localhost''"
proof -
  from assms have "HostnameForProject fe cwd = Some (Inr host)"
    by (auto simp: from_search_def from_fs_def split: option.splits sum.splits)
  with hostname_localhost [of fe cwd] have "has_suffix host ''.localhost''" by simp
  then obtain q where "host = q @ ''.localhost''" by (auto simp: has_suffix_iff)
  then show ?thesis by simp
qed

lemma prepare_script_ok:
  assumes "abs_clean (re_fs re)" "cmd_target_port cmd \<noteq> 0 \<longrightarrow> port = cmd_target_port cmd"
  shows "outcome_ok (plan_ok cmd) (prepare_script re cmd cwd h packagePath port)"
proof -
  have base: "base_plan_ok cmd (empty_plan\<lparr>pl_command := c, pl_env := e, pl_port := p, pl_host := host,
      pl_name := trim_suffix host ''.localhost'', pl_cwd := cwd, pl_project_root := root, pl_project_name := pn,
      pl_managed_port := mp, pl_fixed_port := fp\<rparr>)"
    if "from_search (HostnameForProject (re_fs re) cwd) = Inr host" "cmd_target_port cmd \<noteq> 0 \<longrightarrow> p = cmd_target_port cmd"
    for c e p host root pn mp fp
    using that hostname_search [OF that(1)] by (simp add: base_plan_ok_def empty_plan_def)
  have found: "from_search (HostnameForProject (re_fs re) cwd) \<noteq> Inl SearchGivenUp"
    using hostname_returns [OF assms(1)] by (rule from_search_ok)
  show ?thesis
    unfolding prepare_script_def Let_def using assms(2)
    by (auto intro!: outcome_bind found applyRunOptions_ok base split: read_answer.split option.split)
qed

lemma prepare_project_ok:
  assumes "abs_clean (re_fs re)" "cmd_target_port cmd \<noteq> 0 \<longrightarrow> port = cmd_target_port cmd"
  shows "outcome_ok (plan_ok cmd) (prepare_project re cmd cwd h port)"
proof -
  have found: "from_search (FindNearestPackageJSON (re_fs re) cwd) \<noteq> Inl SearchGivenUp"
    using find_nearest_returns [OF assms(1)] by (rule from_search_ok)
  show ?thesis
    unfolding prepare_project_def Let_def using assms(2)
    by (auto intro!: outcome_bind found applyRunOptions_ok static_plan_ok prepare_script_ok assms(1) split: option.split)
qed

lemma static_targets_ok:
  assumes "cmd_target_port cmd \<noteq> 0 \<longrightarrow> port = cmd_target_port cmd"
  shows "outcome_ok (plan_ok cmd) (prepareStaticFileTarget fe cmd cwd port)"
    and "outcome_ok (plan_ok cmd) (prepareStaticFilePathTarget cmd targetPath port)"
  using assms by (auto simp: prepareStaticFileTarget_def prepareStaticFilePathTarget_def prepareStaticFilePlan_def Let_def
      intro!: applyRunOptions_ok static_plan_ok)

text \<open>A plan for the command with its path cleared and a port set is one for the command.\<close>

lemma plan_ok_directory:
  "plan_ok (cmd\<lparr>cmd_target_path := '''', cmd_script := s, cmd_scripts := ss, cmd_explicit_script := b, cmd_target_port := p\<rparr>) plan \<Longrightarrow>
   cmd_target_port cmd \<noteq> 0 \<longrightarrow> p = cmd_target_port cmd \<Longrightarrow> plan_ok cmd plan"
  by (auto simp: plan_ok_def)

lemma resolvePathTarget_ok: "resolvePathTarget fe cwd p \<noteq> Inl SearchGivenUp"
  using from_fs_ok [of "fs_abs fe q" for q]
  by (auto simp: resolvePathTarget_def Let_def res_bind_Inl_iff split: fs_stat.splits)

lemma prepare_here_ok:
  assumes "abs_clean (re_fs re)" "cmd_target_path cmd = '''' \<or> cmd_kind cmd = CommandRaw"
  shows "outcome_ok (plan_ok cmd) (fst (prepareRunWithHost re cmd cwd h n))"
proof (cases "choose_port re h (cmd_target_port cmd) n")
  case (Pair r n')
  show ?thesis
  proof (cases r)
    case (Inl e)
    with Pair show ?thesis by (simp add: prepareRunWithHost.simps choose_port_def split: if_splits option.splits)
  next
    case (Inr port)
    have port: "cmd_target_port cmd \<noteq> 0 \<longrightarrow> port = cmd_target_port cmd" using choose_port_target Pair Inr by auto
    show ?thesis
      using assms(2) Pair Inr
      by (subst prepareRunWithHost.simps)
        (auto intro!: applyRunOptions_ok raw_plan_ok static_targets_ok prepare_project_ok port assms(1))
  qed
qed

text \<open>
  C36. Preparing a run always ends, and an accepted plan is consistent, whatever the command names (a raw command, a
  file, a directory, a script): its host is its name under \<open>.localhost\<close>, only a static plan is live, a static plan
  starts no program, and a port given with \<open>--target\<close> is the plan's own.
\<close>

theorem prepareRun_plan_ok:
  assumes "abs_clean (re_fs re)"
  shows "outcome_ok (plan_ok cmd) (fst (prepareRunWithHost re cmd cwd childHost n))"
proof (cases "cmd_target_path cmd = '''' \<or> cmd_kind cmd = CommandRaw")
  case False
  then have path: "cmd_target_path cmd \<noteq> ''''" "cmd_kind cmd \<noteq> CommandRaw" by simp_all
  show ?thesis
  proof (cases "choose_port re childHost (cmd_target_port cmd) n")
    case (Pair r n')
    show ?thesis
    proof (cases r)
      case (Inl e)
      with Pair show ?thesis by (simp add: prepareRunWithHost.simps choose_port_def split: if_splits option.splits)
    next
      case (Inr port)
      have port: "cmd_target_port cmd \<noteq> 0 \<longrightarrow> port = cmd_target_port cmd" using choose_port_target Pair Inr by auto
      let ?dir = "cmd\<lparr>cmd_target_path := '''', cmd_script := ''dev'', cmd_scripts := [], cmd_explicit_script := False, cmd_target_port := port\<rparr>"
      have there: "outcome_ok (plan_ok cmd) (fst (prepareRunWithHost re ?dir p childHost n'))" for p
        using prepare_here_ok [OF assms, of ?dir p childHost n'] plan_ok_directory [OF _ port]
        by (auto simp: outcome_ok_def split: sum.splits)
      have "prepareRunWithHost re cmd cwd childHost n = preparePathTarget re cmd cwd port childHost n'"
        using path Pair Inr by (subst prepareRunWithHost.simps) simp
      then show ?thesis
        using resolvePathTarget_ok [of "re_fs re" cwd "cmd_target_path cmd"] there static_targets_ok(2) [OF port]
        by (auto simp: preparePathTarget.simps split: sum.split)
    qed
  qed
qed (rule prepare_here_ok [OF assms])

definition sample_run :: run_env where
  "sample_run = \<lparr>re_fs = sample_fs, re_environ = [''HOME=/w''], re_port = (\<lambda>_ n. Some (4000 + int n)),
     re_state_dir = ''/w/.gohere'', re_https = False\<rparr>"

lemma sample_abs_clean: "abs_clean (re_fs sample_run)"
  using path_clean_rooted_idem by (simp add: abs_clean_def sample_run_def sample_fs_def rooted_clean)

theorem prepareRun_plan_ok_witness:
  "outcome_ok (plan_ok ((command_of_kind CommandRaw)\<lparr>cmd_raw := [''make'']\<rparr>))
     (fst (prepareRunWithHost sample_run ((command_of_kind CommandRaw)\<lparr>cmd_raw := [''make'']\<rparr>) ''/w'' ''127.0.0.1'' 0))"
  by (rule prepareRun_plan_ok [OF sample_abs_clean])

text \<open>
  C0. A directory named on the command line is not prepared as the same command run there: the free port chosen before
  the directory is looked at is passed on as if \<open>--target\<close> had given it, so that an explicit port of the script is
  ignored and the plan keeps a port on which the script does not listen.
\<close>

definition vite_project :: run_env where
  "vite_project = sample_run\<lparr>re_fs := sample_fs\<lparr>
     fe_stat := (\<lambda>p. if p \<in> set [''/app'', ''/''] then StatDir else if p = ''/app/package.json'' then StatFile else StatMissing),
     fe_package := (\<lambda>p. if p = ''/app/package.json''
        then Read \<lparr>pj_name = ''app'', pj_package_manager = '''', pj_scripts = [(''dev'', ''vite --port 5173'')], pj_workspaces = NoWorkspaces\<rparr>
        else ReadMissing)\<rparr>\<rparr>"

definition dev_command :: command where
  "dev_command = (command_of_kind CommandRun)\<lparr>cmd_script := ''dev''\<rparr>"

text \<open>A script that is run where it stands keeps the port it names.\<close>

lemma script_keeps_port:
  assumes "fe_package (re_fs re) packagePath = Read pkg" "Script pkg (cmd_script cmd) = Some s" "ExplicitPort s = Some q"
    "cmd_target_port cmd = 0" "prepare_script re cmd cwd h packagePath port = Inr plan"
  shows "pl_port plan = q"
  using assms
  by (auto simp: prepare_script_def Let_def res_bind_Inr_iff applyRunOptions_def applyAsAlias_def empty_plan_def
      split: if_splits prod.splits)

text \<open>
  A directory named on the command line is not prepared as the same command run there: the free port that is
  chosen before the directory is looked at is passed on as if \<open>--target\<close> had given it, so that every accepted plan has
  that port and calls it fixed, whatever port the script of the directory names.
\<close>

theorem path_target_takes_free_port:
  assumes "abs_clean (re_fs re)" "cmd_kind cmd \<noteq> CommandRaw" "cmd_target_path cmd \<noteq> ''''" "cmd_target_port cmd = 0"
    and "resolvePathTarget (re_fs re) cwd (cmd_target_path cmd) = Inr (dir, True)"
    and "re_port re h n = Some p" "p \<noteq> 0"
  shows "case fst (prepareRunWithHost re cmd cwd h n) of Inr plan \<Rightarrow> pl_port plan = p \<and> pl_fixed_port plan | Inl _ \<Rightarrow> True"
proof -
  let ?dir = "cmd\<lparr>cmd_target_path := '''', cmd_script := ''dev'', cmd_scripts := [], cmd_explicit_script := False, cmd_target_port := p\<rparr>"
  have "prepareRunWithHost re cmd cwd h n = preparePathTarget re cmd cwd p h (Suc n)"
    using assms by (subst prepareRunWithHost.simps) (simp add: choose_port_def)
  also have "\<dots> = prepareRunWithHost re ?dir dir h (Suc n)"
    using assms(5) by (simp add: preparePathTarget.simps)
  finally show ?thesis
    using prepare_here_ok [OF assms(1), of ?dir dir h "Suc n"] assms(7)
    by (auto simp: outcome_ok_def plan_ok_def split: sum.splits)
qed

theorem path_target_takes_free_port_witness:
  "case fst (prepareRunWithHost vite_project ((command_of_kind CommandRun)\<lparr>cmd_target_path := ''./app''\<rparr>) ''/'' ''127.0.0.1'' 0)
     of Inr plan \<Rightarrow> pl_port plan = 4000 \<and> pl_fixed_port plan | Inl _ \<Rightarrow> True"
proof (rule path_target_takes_free_port)
  show "abs_clean (re_fs vite_project)"
    using path_clean_rooted_idem by (simp add: abs_clean_def vite_project_def sample_run_def sample_fs_def rooted_clean)
  show "resolvePathTarget (re_fs vite_project) ''/'' (cmd_target_path ((command_of_kind CommandRun)\<lparr>cmd_target_path := ''./app''\<rparr>)) = Inr (''/app'', True)"
    by code_simp
qed (simp_all add: command_of_kind_def vite_project_def sample_run_def)

section \<open>The ports of a group\<close>

text \<open>The ports of the plans whose port is not fixed are distinct, and none is the port of a fixed plan.\<close>

definition ports_distinct :: "run_plan list \<Rightarrow> bool" where
  "ports_distinct plans \<longleftrightarrow>
     (let auto = map pl_port (filter (\<lambda>p. \<not> pl_fixed_port p) plans) in distinct auto \<and> set auto \<inter> fixed_ports plans = {})"

text \<open>A \<open>prepare\<close> that calls for at most one port a time, and by the item decides whether its port is fixed.\<close>

definition steady :: "preparer \<Rightarrow> (nat \<Rightarrow> bool) \<Rightarrow> bool" where
  "steady prepare fixed \<longleftrightarrow>
     (\<forall>i n. n \<le> snd (prepare i n) \<and> snd (prepare i n) \<le> Suc n \<and>
       (case fst (prepare i n) of Inr plan \<Rightarrow> pl_fixed_port plan = fixed i | Inl _ \<Rightarrow> True))"

lemma steadyD:
  assumes "steady prepare fixed" "prepare i n = (r, n')"
  shows "n' \<le> Suc n" "r = Inr plan \<Longrightarrow> pl_fixed_port plan = fixed i"
  using assms(1) [unfolded steady_def, rule_format, of n i] assms(2) by auto

lemma first_plans_ok:
  "steady prepare fixed \<Longrightarrow> first_plans prepare is n = (r, n') \<Longrightarrow>
   n' \<le> n + length is \<and>
   (case r of Inr plans \<Rightarrow> length plans = length is \<and> map pl_fixed_port plans = map fixed is | Inl _ \<Rightarrow> True)"
proof (induction "is" arbitrary: n r n')
  case (Cons i "is")
  obtain r1 n1 where p: "prepare i n = (r1, n1)" by fastforce
  from steadyD(1) [OF Cons.prems(1) p] have n1: "n1 \<le> Suc n" .
  show ?case
  proof (cases r1)
    case (Inl e)
    with Cons.prems(2) p n1 show ?thesis by auto
  next
    case (Inr plan)
    obtain r2 n2 where rest: "first_plans prepare is n1 = (r2, n2)" by fastforce
    from Cons.IH [OF Cons.prems(1) rest] steadyD(2) [OF Cons.prems(1) p Inr] Cons.prems(2) p Inr rest n1
    show ?thesis by (auto split: sum.splits)
  qed
qed auto

lemma distinct_plan_ok:
  "steady prepare fixed \<Longrightarrow> distinct_plan prepare source spare taken i plan n = (r, n') \<Longrightarrow>
   pl_fixed_port plan = fixed i \<Longrightarrow>
   n' \<le> n + spare \<and> (case r of Inr q \<Rightarrow> pl_port q \<notin> taken \<and> pl_fixed_port q = fixed i | Inl _ \<Rightarrow> True)"
proof (induction prepare source spare taken i plan n arbitrary: r n' rule: distinct_plan.induct)
  case (1 prepare source spare taken i plan n)
  show ?case
  proof (cases "pl_port plan \<in> taken \<and> spare \<noteq> 0")
    case False
    with "1.prems" show ?thesis by (auto split: nat.splits if_splits)
  next
    case True
    then obtain spare' where s: "spare = Suc spare'" by (cases spare) auto
    obtain r1 n1 where p: "prepare i n = (r1, n1)" by fastforce
    from steadyD(1) [OF "1.prems"(1) p] have n1: "n1 \<le> Suc n" .
    show ?thesis
    proof (cases r1)
      case (Inl e)
      with "1.prems"(2) p n1 True s show ?thesis by auto
    next
      case (Inr q)
      have fixed: "pl_fixed_port q = fixed i" by (rule steadyD(2) [OF "1.prems"(1) p Inr])
      have again: "distinct_plan prepare source spare' taken i q n1 = (r, n')"
        using "1.prems"(2) p Inr True s by simp
      from "1.IH" [of spare'] True s p Inr "1.prems"(1) again fixed n1 show ?thesis by fastforce
    qed
  qed
qed

lemma distinct_plans_ok:
  "steady prepare fixed \<Longrightarrow> distinct_plans prepare source taken items n = (r, n') \<Longrightarrow>
   list_all (\<lambda>(i, plan). pl_fixed_port plan = fixed i) items \<Longrightarrow>
   n' \<le> n + 7 * length items \<and>
   (case r of
      Inl _ \<Rightarrow> True
    | Inr plans \<Rightarrow>
        length plans = length items \<and> map pl_fixed_port plans = map (fixed \<circ> fst) items \<and>
        filter pl_fixed_port plans = filter pl_fixed_port (map snd items) \<and>
        (let auto = map pl_port (filter (\<lambda>p. \<not> pl_fixed_port p) plans) in distinct auto \<and> set auto \<inter> taken = {}))"
proof (induction prepare source taken items n arbitrary: r n' rule: distinct_plans.induct)
  case (2 prepare source taken i plan rest n)
  have fix_i: "pl_fixed_port plan = fixed i" and others: "list_all (\<lambda>(i, plan). pl_fixed_port plan = fixed i) rest"
    using "2.prems"(3) by simp_all
  show ?case
  proof (cases "pl_fixed_port plan")
    case True
    obtain r2 n2 where rec: "distinct_plans prepare source taken rest n = (r2, n2)" by fastforce
    from "2.IH"(1) [OF True "2.prems"(1) rec others] rec "2.prems"(2) True fix_i show ?thesis
      by (auto simp: Let_def disjoint_iff split: sum.splits)
  next
    case False
    obtain r1 n1 where one: "distinct_plan prepare source (maxDistinctGroupPortAttempts - 1) taken i plan n = (r1, n1)" by fastforce
    from distinct_plan_ok [OF "2.prems"(1) one fix_i] have n1: "n1 \<le> n + 7"
      and q: "\<And>q. r1 = Inr q \<Longrightarrow> pl_port q \<notin> taken \<and> pl_fixed_port q = fixed i" by (auto simp: maxDistinctGroupPortAttempts_def)
    show ?thesis
    proof (cases r1)
      case (Inl e)
      with "2.prems"(2) False one n1 show ?thesis by auto
    next
      case (Inr q')
      obtain r2 n2 where rec: "distinct_plans prepare source (insert (pl_port q') taken) rest n1 = (r2, n2)" by fastforce
      from "2.IH"(2) [OF False one [symmetric] Inr "2.prems"(1) rec others] rec "2.prems"(2) False fix_i one Inr n1 q [OF Inr]
      show ?thesis by (auto simp: Let_def disjoint_iff simp del: distinct_plan.simps split: sum.splits)
    qed
  qed
qed (auto simp: Let_def)

lemma prepareDistinctGroupPlans_ok:
  assumes "steady prepare fixed" "prepareDistinctGroupPlans N prepare source n = (r, n')"
  shows "n' \<le> n + 8 * N \<and> (case r of Inr plans \<Rightarrow> length plans = N \<and> ports_distinct plans | Inl _ \<Rightarrow> True)"
proof -
  obtain r1 n1 where one: "first_plans prepare [0..<N] n = (r1, n1)" by fastforce
  from first_plans_ok [OF assms(1) one] have n1: "n1 \<le> n + N"
    and plans: "\<And>plans. r1 = Inr plans \<Longrightarrow> length plans = N \<and> map pl_fixed_port plans = map fixed [0..<N]" by auto
  show ?thesis
  proof (cases r1)
    case (Inl e)
    with one assms(2) have "r = Inl e" "n' = n1" by (simp_all add: prepareDistinctGroupPlans_def)
    with n1 show ?thesis by simp
  next
    case (Inr ps)
    let ?items = "zip [0..<N] ps"
    have len: "length ps = N" using plans [OF Inr] by simp
    have items: "list_all (\<lambda>(i, plan). pl_fixed_port plan = fixed i) ?items"
      using plans [OF Inr] len by (auto simp: list_all_length list_eq_iff_nth_eq)
    have snds: "map snd ?items = ps" using len by simp
    have two: "distinct_plans prepare source (fixed_ports ps) ?items n1 = (r, n')"
      using assms(2) one Inr by (simp add: prepareDistinctGroupPlans_def)
    have fixed_same: "filter pl_fixed_port plans = filter pl_fixed_port ps \<Longrightarrow> fixed_ports plans = fixed_ports ps" for plans
      by (simp add: fixed_ports_def)
    note d = distinct_plans_ok [OF assms(1) two items, unfolded snds]
    have items_len: "length ?items = N" using len by simp
    have "n' \<le> n1 + 7 * N" using d [THEN conjunct1] unfolding items_len .
    with n1 have n': "n' \<le> n + 8 * N" by linarith
    show ?thesis
    proof (cases r)
      case (Inr plans)
      from d [THEN conjunct2, unfolded Inr sum.case items_len]
      have q: "length plans = N" "filter pl_fixed_port plans = filter pl_fixed_port ps"
        "let auto = map pl_port (filter (\<lambda>p. \<not> pl_fixed_port p) plans) in distinct auto \<and> set auto \<inter> fixed_ports ps = {}"
        by blast+
      have "ports_distinct plans" using q(3) unfolding ports_distinct_def fixed_same [OF q(2)] .
      with n' q(1) Inr show ?thesis by simp
    qed (simp add: n')
  qed
qed

text \<open>The two closures are steady: whether a port is fixed depends on the script alone.\<close>

lemma choose_port_calls: "choose_port re h port n = (r, n') \<Longrightarrow> n \<le> n' \<and> n' \<le> Suc n"
  by (auto simp: choose_port_def split: if_splits)

definition script_fixes_port :: "run_env \<Rightarrow> command \<Rightarrow> string \<Rightarrow> bool" where
  "script_fixes_port re cmd cwd \<longleftrightarrow> cmd_target_port cmd \<noteq> 0 \<or>
     (case from_search (FindNearestPackageJSON (re_fs re) cwd) of
        Inr (Some packagePath) \<Rightarrow>
          (case fe_package (re_fs re) packagePath of
             Read pkg \<Rightarrow> (case Script pkg (cmd_script cmd) of None \<Rightarrow> False | Some s \<Rightarrow> ExplicitPort s \<noteq> None)
           | _ \<Rightarrow> False)
      | _ \<Rightarrow> False)"

lemma applyRunOptions_fixed:
  "applyRunOptions cmd plan = Inr plan' \<Longrightarrow> pl_static plan' = pl_static plan \<and>
   pl_fixed_port plan' = (pl_fixed_port plan \<or> cmd_target_port cmd \<noteq> 0)"
  by (auto simp: applyRunOptions_def applyAsAlias_def res_bind_Inr_iff split: if_splits prod.splits)

lemma prepare_script_fixed:
  "prepare_script re cmd cwd h packagePath port = Inr plan \<Longrightarrow>
   \<not> pl_static plan \<and> (\<exists>pkg s. fe_package (re_fs re) packagePath = Read pkg \<and> Script pkg (cmd_script cmd) = Some s \<and>
     pl_fixed_port plan = (cmd_target_port cmd \<noteq> 0 \<or> ExplicitPort s \<noteq> None))"
  by (auto simp: prepare_script_def Let_def res_bind_Inr_iff empty_plan_def dest!: applyRunOptions_fixed
      split: read_answer.splits option.splits)

lemma prepare_project_fixed:
  "prepare_project re cmd cwd h port = Inr plan \<Longrightarrow> \<not> pl_static plan \<Longrightarrow> pl_fixed_port plan = script_fixes_port re cmd cwd"
  by (auto simp: prepare_project_def Let_def res_bind_Inr_iff script_fixes_port_def static_plan_def
      dest!: applyRunOptions_fixed prepare_script_fixed split: if_splits option.splits)

lemma static_file_static:
  "prepareStaticFileTarget fe cmd cwd port = Inr plan \<Longrightarrow> pl_static plan"
  by (auto simp: prepareStaticFileTarget_def prepareStaticFilePlan_def Let_def static_plan_def dest!: applyRunOptions_fixed
      split: if_splits)

lemma prepareRun_fixed:
  assumes "cmd_kind cmd = CommandRun" "cmd_target_path cmd = ''''" "prepareRunWithHost re cmd cwd h n = (r, n')"
  shows "n \<le> n' \<and> n' \<le> Suc n \<and>
    (case r of Inr plan \<Rightarrow> pl_static plan \<or> pl_fixed_port plan = script_fixes_port re cmd cwd | Inl _ \<Rightarrow> True)"
proof (cases "choose_port re h (cmd_target_port cmd) n")
  case (Pair q m)
  with assms choose_port_calls [OF Pair] prepare_project_fixed static_file_static show ?thesis
    by (subst (asm) prepareRunWithHost.simps) (auto split: sum.splits if_splits)
qed

lemma applyRunRouter_port: "pl_port (applyRunRouter re rr plan) = pl_port plan" "pl_fixed_port (applyRunRouter re rr plan) = pl_fixed_port plan"
  by (simp_all add: applyRunRouter_def router_fields_def Let_def)

lemma prepare_script_of_steady:
  assumes "cmd_kind cmd = CommandRun" "cmd_target_path cmd = ''''"
  shows "steady (prepare_script_of re cmd cwd h rr) (\<lambda>i. script_fixes_port re (cmd\<lparr>cmd_script := cmd_scripts cmd ! i, cmd_scripts := []\<rparr>) cwd)"
  unfolding steady_def
proof (intro allI)
  fix i n
  let ?cmd = "cmd\<lparr>cmd_script := cmd_scripts cmd ! i, cmd_scripts := []\<rparr>"
  obtain r n' where p: "prepareRunWithHost re ?cmd cwd h n = (r, n')" by fastforce
  have "cmd_kind ?cmd = CommandRun" "cmd_target_path ?cmd = ''''" using assms by simp_all
  from prepareRun_fixed [OF this p] p
  show "n \<le> snd (prepare_script_of re cmd cwd h rr i n) \<and> snd (prepare_script_of re cmd cwd h rr i n) \<le> Suc n \<and>
      (case fst (prepare_script_of re cmd cwd h rr i n) of Inl x \<Rightarrow> True | Inr plan \<Rightarrow> pl_fixed_port plan = script_fixes_port re ?cmd cwd)"
    by (auto simp: prepare_script_of_def Let_def applyRunRouter_port split: sum.splits option.splits)
qed

lemma finish_commands:
  "length cmds = length plans \<Longrightarrow> map (cmd_script \<circ> fst) (map (finish_item re rr) (zip cmds plans)) = map cmd_script cmds"
  by (induction cmds plans rule: list_induct2) (simp_all add: finish_item_def)

lemma finish_item_port: "pl_port (snd (finish_item re rr it)) = pl_port (snd it)"
  "pl_fixed_port (snd (finish_item re rr it)) = pl_fixed_port (snd it)"
  by (simp_all add: finish_item_def applyPublicURLScheme_def applyRunRouter_port split: prod.split)

lemma finish_ports:
  assumes "length cmds = length plans"
  shows "ports_distinct (map snd (map (finish_item re rr) (zip cmds plans))) = ports_distinct plans"
proof -
  have "map pl_port (filter (\<lambda>p. pl_fixed_port p = b) (map snd (map (finish_item re rr) (zip cmds plans)))) =
      map pl_port (filter (\<lambda>p. pl_fixed_port p = b) plans)" for b
    using assms by (induction cmds plans rule: list_induct2) (simp_all add: finish_item_port)
  from this [of True] this [of False] show ?thesis by (simp add: ports_distinct_def fixed_ports_def Let_def)
qed

text \<open>
  C37. The plans of a group of scripts never share a port that \<open>gohere\<close> chose, neither with each other nor with a script
  that fixes its port, whatever ports the system offers and in whatever order the scripts stand; there is one plan for
  each script, and at most eight ports are chosen for each.
\<close>

theorem runMulti_ports_distinct:
  assumes "cmd_kind cmd = CommandRun" "cmd_target_path cmd = ''''"
  shows "case runMulti_items re cmd cwd wslRouter rr n of (r, n') \<Rightarrow>
    n' \<le> n + 8 * length (cmd_scripts cmd) \<and>
    (case r of
       Inl _ \<Rightarrow> True
     | Inr items \<Rightarrow> map (cmd_script \<circ> fst) items = cmd_scripts cmd \<and> ports_distinct (map snd items))"
proof -
  let ?prepare = "prepare_script_of re cmd cwd (prepare_host wslRouter) wslRouter"
  let ?cmds = "map (\<lambda>script. cmd\<lparr>cmd_script := script, cmd_scripts := []\<rparr>) (cmd_scripts cmd)"
  obtain r n' where d: "prepareDistinctGroupPlans (length (cmd_scripts cmd)) ?prepare (\<lambda>i. cmd_scripts cmd ! i) n = (r, n')"
    by fastforce
  note ok = prepareDistinctGroupPlans_ok [OF prepare_script_of_steady [OF assms] d]
  show ?thesis
  proof (cases r)
    case (Inl e)
    with ok d show ?thesis by (simp add: runMulti_items_def)
  next
    case (Inr plans)
    with ok have len: "length ?cmds = length plans" and ports: "ports_distinct plans" by simp_all
    have "map (cmd_script \<circ> fst) (map (finish_item re rr) (zip ?cmds plans)) = cmd_scripts cmd"
      unfolding finish_commands [OF len] by (simp add: comp_def)
    with ok d Inr ports finish_ports [OF len] show ?thesis by (simp add: runMulti_items_def)
  qed
qed

definition two_scripts :: command where
  "two_scripts = (command_of_kind CommandRun)\<lparr>cmd_scripts := [''dev:web'', ''dev:api'']\<rparr>"

definition no_router :: run_router where
  "no_router = \<lparr>rr_route_target_host = '''', rr_child_host = '''', rr_route_source = '''', rr_owner_env = '''', rr_owner_instance = '''',
     rr_distro = '''', rr_linux_user = '''', rr_runner_id = '''', rr_router_label = '''', rr_public_url_scheme = ''''\<rparr>"

theorem runMulti_ports_distinct_witness:
  "case runMulti_items sample_run two_scripts ''/w'' None no_router 0 of (r, n') \<Rightarrow>
    n' \<le> 0 + 8 * length (cmd_scripts two_scripts) \<and>
    (case r of
       Inl _ \<Rightarrow> True
     | Inr items \<Rightarrow> map (cmd_script \<circ> fst) items = cmd_scripts two_scripts \<and> ports_distinct (map snd items))"
  by (rule runMulti_ports_distinct) (simp_all add: two_scripts_def command_of_kind_def)

section \<open>The router is applied twice\<close>

lemma env_item_again: "env_item ov (env_item ov item) = env_item ov item"
  using env_item_cut [of ov item]
  by (cases "cut (CHR ''='') item") (auto simp: env_item_def split: option.splits)

lemma cut_env_assignment: "CHR ''='' \<notin> set key \<Longrightarrow> cut (CHR ''='') (key @ ''='' @ v) = Some (key, v)"
  using cut_key [of "CHR ''=''" key v] by simp

lemma env_has_item: "env_has (map (env_item ov) env) key = env_has env key"
  by (induction env) (auto simp: env_has_def env_item_cut split: option.splits)

lemma env_has_append: "env_has (xs @ ys) key \<longleftrightarrow> env_has xs key \<or> env_has ys key"
  by (simp add: env_has_def)

lemma env_overrides_plain: "(key, v) \<in> set (env_overrides port host) \<Longrightarrow> CHR ''='' \<notin> set key"
  using overrides_plain [of port host] by (auto simp: list_all_iff)

text \<open>Once the overrides are there, putting them again changes nothing, also with more variables after them.\<close>

definition env_settled :: "(string \<times> string) list \<Rightarrow> string list \<Rightarrow> bool" where
  "env_settled ov env \<longleftrightarrow> map (env_item ov) env = env \<and> list_all (\<lambda>(key, v). env_has env key) ov"

lemma settled_env: "env_settled (env_overrides port (child_host host)) env \<Longrightarrow> ChildEnvForHost env port host = env"
proof -
  assume s: "env_settled (env_overrides port (child_host host)) env"
  then have "filter (\<lambda>(key, _). \<not> env_has env key) (env_overrides port (child_host host)) = []"
    by (auto simp: env_settled_def list_all_iff filter_empty_conv)
  with s show ?thesis by (simp add: ChildEnvForHost_def env_settled_def)
qed

lemma env_item_added:
  "(key, v) \<in> set (env_overrides port host) \<Longrightarrow> env_item (env_overrides port host) (key @ ''='' @ v) = key @ ''='' @ v"
  using cut_env_assignment [OF env_overrides_plain] by (auto simp: env_item_def env_overrides_def)

lemma ChildEnv_settled: "env_settled (env_overrides port (child_host host)) (ChildEnvForHost env port host)"
proof -
  let ?ov = "env_overrides port (child_host host)"
  have "list_all (\<lambda>(key, v). env_has (ChildEnvForHost env port host) key) ?ov"
  proof -
    have "env_has (ChildEnvForHost env port host) key" if "(key, v) \<in> set ?ov" for key v
    proof (cases "env_has env key")
      case False
      with that have "key @ ''='' @ v \<in> (\<lambda>(key, v). key @ ''='' @ v) ` set (filter (\<lambda>(key, _). \<not> env_has env key) ?ov)"
        by (intro image_eqI [where x = "(key, v)"]) simp_all
      then have "key @ ''='' @ v \<in> set (ChildEnvForHost env port host)"
        unfolding ChildEnvForHost_def Let_def set_append set_map by (rule UnI2)
      with cut_env_assignment [OF env_overrides_plain [OF that], of v] show ?thesis
        by (force simp: env_has_def list_ex_iff)
    qed (simp add: ChildEnvForHost_def Let_def env_has_append env_has_item)
    then show ?thesis by (auto simp: list_all_iff)
  qed
  moreover have "map (env_item ?ov) (ChildEnvForHost env port host) = ChildEnvForHost env port host"
    using env_item_added [of _ _ port "child_host host"]
    by (auto simp: ChildEnvForHost_def Let_def env_item_again intro!: map_idI)
  ultimately show ?thesis by (simp add: env_settled_def)
qed

lemma env_settled_append:
  "env_settled ov env \<Longrightarrow> map (env_item ov) more_env = more_env \<Longrightarrow> env_settled ov (env @ more_env)"
  by (auto simp: env_settled_def env_has_append list_all_iff)

definition plain_keys :: "(string \<times> string) list \<Rightarrow> bool" where
  "plain_keys vars \<longleftrightarrow> list_all (\<lambda>(key, _). CHR ''='' \<notin> set key) vars"

definition added_env :: "string list \<Rightarrow> (string \<times> string) list \<Rightarrow> string list" where
  "added_env env vars =
     map (\<lambda>key. key @ ''='' @ the (map_of vars key)) (filter (\<lambda>key. \<not> env_has env key) (sort (remdups (map fst vars))))"

lemma appendMissingEnv_added: "appendMissingEnv env vars = env @ added_env env vars"
  by (simp add: appendMissingEnv_def added_env_def)

lemma added_env_has:
  assumes "plain_keys vars" "key \<in> fst ` set vars"
  shows "env_has (appendMissingEnv env vars) key"
proof (cases "env_has env key")
  case False
  with assms(2) have "key @ ''='' @ the (map_of vars key) \<in> set (added_env env vars)"
    by (simp add: added_env_def)
  moreover have "CHR ''='' \<notin> set key" using assms by (auto simp: plain_keys_def list_all_iff)
  ultimately have "env_has (added_env env vars) key"
    unfolding env_has_def list_ex_iff using cut_env_assignment by fastforce
  then show ?thesis by (simp add: appendMissingEnv_added env_has_append)
qed (simp add: appendMissingEnv_added env_has_append)

lemma appendMissingEnv_again:
  assumes "plain_keys vars"
  shows "appendMissingEnv (appendMissingEnv env vars) vars = appendMissingEnv env vars"
proof -
  have "added_env (appendMissingEnv env vars) vars = []"
    using added_env_has [OF assms] by (auto simp: added_env_def filter_empty_conv)
  then show ?thesis using appendMissingEnv_added [of "appendMissingEnv env vars" vars] by simp
qed

lemma added_env_items:
  assumes "plain_keys vars" "list_all (\<lambda>(key, _). map_of ov key = None) vars"
  shows "map (env_item ov) (added_env env vars) = added_env env vars"
proof (rule map_idI)
  fix item
  assume "item \<in> set (added_env env vars)"
  then obtain key v where "item = key @ ''='' @ the (map_of vars key)" "(key, v) \<in> set vars"
    by (auto simp: added_env_def)
  moreover from this assms have "CHR ''='' \<notin> set key" "map_of ov key = None"
    by (auto simp: plain_keys_def list_all_iff)
  ultimately show "env_item ov item = item" using cut_env_assignment by (simp add: env_item_def)
qed

lemma trust_env: "applyWSLTrustEnvironment fe env stateDir = appendMissingEnv env (trust_vars fe stateDir)"
  by (simp add: applyWSLTrustEnvironment_def)

lemma trust_vars_plain: "plain_keys (trust_vars fe stateDir)"
  "list_all (\<lambda>(key, _). map_of (env_overrides port host) key = None) (trust_vars fe stateDir)"
  by (simp_all add: trust_vars_def plain_keys_def overrides_dom gohere_keys_def split: option.split)

lemma trust_env_again:
  "applyWSLTrustEnvironment fe (applyWSLTrustEnvironment fe env stateDir) stateDir = applyWSLTrustEnvironment fe env stateDir"
  unfolding trust_env by (rule appendMissingEnv_again [OF trust_vars_plain(1)])

lemma trust_env_settled:
  "env_settled (env_overrides port host) env \<Longrightarrow> env_settled (env_overrides port host) (applyWSLTrustEnvironment fe env stateDir)"
  unfolding trust_env appendMissingEnv_added
  by (rule env_settled_append) (simp_all add: added_env_items [OF trust_vars_plain])

lemma replaceCommandHost_again:
  "replaceCommandHost (replaceCommandHost arg host) host = replaceCommandHost arg host"
  "\<not> isSeparateHostFlag arg \<Longrightarrow> \<not> isSeparateHostFlag (replaceCommandHost arg host)"
  by (auto simp: replaceCommandHost_def has_prefix_def trim_prefix_def isSeparateHostFlag_def)

lemma with_host_again: "with_host b host (with_host b host args) = with_host b host args"
  by (induction b host args rule: with_host.induct) (auto simp: replaceCommandHost_again)

lemma withHost_again: "withHost (withHost command host) host = withHost command host"
  by (simp add: withHost_def with_host_again)

lemma router_fields_again:
  "router_fields rr ((router_fields rr plan)\<lparr>pl_env := e, pl_command := c\<rparr>) = (router_fields rr plan)\<lparr>pl_env := e, pl_command := c\<rparr>"
  by (simp add: router_fields_def pick_def)

text \<open>
  Inside WSL the router is applied to every plan of a group when it is prepared and again before it runs. The
  second time changes nothing, neither in the environment and the command line nor in any field of the plan.
\<close>

theorem applyRunRouter_twice: "applyRunRouter re rr (applyRunRouter re rr plan) = applyRunRouter re rr plan"
proof -
  let ?p = "router_fields rr plan"
  let ?child = "rr_child_host rr \<noteq> '''' \<and> \<not> pl_static plan"
  define E where "E env = (let env = (if ?child then ChildEnvForHost env (pl_port plan) (rr_child_host rr) else env)
    in if rr_owner_env rr = ''wsl'' then applyWSLTrustEnvironment (re_fs re) env (re_state_dir re) else env)" for env
  define C where "C command = (if ?child then withHost command (rr_child_host rr) else command)" for command
  have fields: "pl_static ?p = pl_static plan" "pl_port ?p = pl_port plan" by (simp_all add: router_fields_def)
  have once: "applyRunRouter re rr q = (router_fields rr q)\<lparr>pl_env := E (pl_env q), pl_command := C (pl_command q)\<rparr>"
    if "pl_static q = pl_static plan" "pl_port q = pl_port plan" for q
    using that by (auto simp: applyRunRouter_def Let_def router_fields_def E_def C_def)
  have again: "E (E e) = E e" "C (C c) = C c" for e c
    using settled_env [OF trust_env_settled [OF ChildEnv_settled]] settled_env [OF ChildEnv_settled]
    by (simp_all add: trust_env_again withHost_again E_def C_def Let_def)
  let ?q = "?p\<lparr>pl_env := E (pl_env plan), pl_command := C (pl_command plan)\<rparr>"
  have "applyRunRouter re rr plan = ?q" by (rule once) simp_all
  moreover have "applyRunRouter re rr ?q = ?q"
    using once [of ?q] by (simp add: fields router_fields_again again)
  ultimately show ?thesis by simp
qed

section \<open>The environment of a service\<close>

lemma env_value_append: "env_value (xs @ ys) key = (case env_value ys key of Some v \<Rightarrow> Some v | None \<Rightarrow> env_value xs key)"
  by (simp add: env_value_def map_filter_append map_add_def split: option.split)

lemma env_value_Nil [simp]: "env_value [] key = None"
  by (simp add: env_value_def)

lemma env_value_one: "CHR ''='' \<notin> set key \<Longrightarrow> env_value [key @ CHR ''='' # v] k = (if k = key then Some v else None)"
  using cut_env_assignment [of key v] by (simp add: env_value_def List.map_filter_simps)

lemma env_value_Cons:
  "CHR ''='' \<notin> set key \<Longrightarrow>
   env_value ((key @ CHR ''='' # v) # ys) k = (case env_value ys k of Some w \<Rightarrow> Some w | None \<Rightarrow> if k = key then Some v else None)"
  using env_value_append [of "[key @ CHR ''='' # v]" ys k] env_value_one [of key v k] by (cases "env_value ys k") simp_all

lemma kept_env_items:
  "List.map_filter (cut (CHR ''='')) (kept_env base) =
     filter (\<lambda>(k, _). \<not> isGeneratedRuntimeKey k) (List.map_filter (cut (CHR ''='')) base)"
proof (induction base)
  case (Cons item base)
  then show ?case by (cases "cut (CHR ''='') item") (auto simp: kept_env_def List.map_filter_simps)
qed (simp add: kept_env_def)

lemma env_value_kept: "env_value (kept_env base) key = (if isGeneratedRuntimeKey key then None else env_value base key)"
  unfolding env_value_def kept_env_items by (simp add: rev_filter map_of_filter_keys)

lemma serviceDiscoveryEnvKey_chars: "c \<in> set (serviceDiscoveryEnvKey label) \<Longrightarrow> is_upper c \<or> is_digit c \<or> c = CHR ''_''"
proof -
  have chars: "set (env_key_chars b s) \<subseteq> {c. is_upper c \<or> is_digit c \<or> c = CHR ''_''}" for b s
    by (induction b s rule: env_key_chars.induct) auto
  have "set (trim_right P s) \<subseteq> set s" "set (trim_left P s) \<subseteq> set s" for P and s :: string
    by (auto simp: trim_right_def trim_left_def dest: set_dropWhileD)
  then show "c \<in> set (serviceDiscoveryEnvKey label) \<Longrightarrow> is_upper c \<or> is_digit c \<or> c = CHR ''_''"
    unfolding serviceDiscoveryEnvKey_def using chars by blast
qed

lemma env_key_plain: "CHR ''='' \<notin> set (serviceDiscoveryEnvKey label)"
  using serviceDiscoveryEnvKey_chars [of "CHR ''=''" label] by (auto simp: byte_defs)

text \<open>The names of the variables of a service.\<close>

definition url_name :: "string \<Rightarrow> string" where "url_name key = ''GOHERE_'' @ key @ ''_URL''"
definition target_name :: "string \<Rightarrow> string" where "target_name key = ''GOHERE_'' @ key @ ''_TARGET''"
definition port_name :: "string \<Rightarrow> string" where "port_name key = ''GOHERE_'' @ key @ ''_PORT''"

lemmas service_names = url_name_def target_name_def port_name_def

lemma service_names_distinct:
  "url_name k \<noteq> target_name k'" "url_name k \<noteq> port_name k'" "target_name k \<noteq> port_name k'"
  "target_name k \<noteq> url_name k'" "port_name k \<noteq> url_name k'" "port_name k \<noteq> target_name k'"
  by (auto simp: service_names dest: arg_cong [of _ _ rev])

lemma service_names_inj:
  "url_name k = url_name k' \<longleftrightarrow> k = k'" "target_name k = target_name k' \<longleftrightarrow> k = k'" "port_name k = port_name k' \<longleftrightarrow> k = k'"
  by (simp_all add: service_names)

lemma generated_name:
  "key \<noteq> '''' \<Longrightarrow> isGeneratedRuntimeKey (url_name key) \<and> isGeneratedRuntimeKey (target_name key) \<and> isGeneratedRuntimeKey (port_name key)"
  by (auto simp: isGeneratedRuntimeKey_def service_names has_prefix_def trim_prefix_def cut_suffix_def has_suffix_def)

lemma fixed_names: "isGeneratedRuntimeKey ''HOST''" "isGeneratedRuntimeKey ''PORT''" "isGeneratedRuntimeKey ''GOHERE_URL''"
  by (simp_all add: isGeneratedRuntimeKey_def)

lemma fixed_names_other: "key \<noteq> '''' \<Longrightarrow> f \<in> {url_name, target_name, port_name} \<Longrightarrow> f key \<notin> {''HOST'', ''PORT'', ''GOHERE_URL''}"
  by (auto simp: service_names dest: arg_cong [of _ _ length] arg_cong [of _ _ rev])

definition service_key :: "resolved_service \<Rightarrow> string" where
  "service_key s = serviceDiscoveryEnvKey (sv_key s)"

lemma service_env_value:
  "env_value (service_env net s) name =
     (if service_key s = '''' then None
      else if name = url_name (service_key s) then Some (sv_public_url s)
      else if name = target_name (service_key s) then Some (rt_target (sv_route s))
      else if name = port_name (service_key s) then routeTargetPort net (rt_target (sv_route s))
      else None)"
proof -
  have plain: "CHR ''='' \<notin> set (url_name (service_key s))" "CHR ''='' \<notin> set (target_name (service_key s))"
    "CHR ''='' \<notin> set (port_name (service_key s))"
    using env_key_plain by (simp_all add: service_names service_key_def)
  have "service_env net s = (if service_key s = '''' then []
      else [url_name (service_key s) @ CHR ''='' # sv_public_url s, target_name (service_key s) @ CHR ''='' # rt_target (sv_route s)] @
        (case routeTargetPort net (rt_target (sv_route s)) of None \<Rightarrow> [] | Some port \<Rightarrow> [port_name (service_key s) @ CHR ''='' # port]))"
    by (simp add: service_env_def port_env_def service_key_def service_names Let_def split: option.split)
  then show ?thesis
    using service_names_distinct by (simp add: env_value_Cons plain env_value_one split: option.split)
qed

lemma group_env_value:
  assumes "distinct (map service_key services)" "s \<in> set services" "service_key s \<noteq> ''''"
  shows "env_value (concat (map (service_env net) services)) (url_name (service_key s)) = Some (sv_public_url s)"
    and "env_value (concat (map (service_env net) services)) (target_name (service_key s)) = Some (rt_target (sv_route s))"
    and "env_value (concat (map (service_env net) services)) (port_name (service_key s)) = routeTargetPort net (rt_target (sv_route s))"
proof -
  have other: "env_value (concat (map (service_env net) ss)) (f (service_key s)) = None"
    if "service_key s \<notin> set (map service_key ss)" "f \<in> {url_name, target_name, port_name}" for ss f
    using that
    by (induction ss) (auto simp: env_value_append service_env_value service_names_inj service_names_distinct)
  have one: "env_value (concat (map (service_env net) services)) (f (service_key s)) = env_value (service_env net s) (f (service_key s))"
    if "f \<in> {url_name, target_name, port_name}" for f
  proof -
    from assms(2) obtain a b where ab: "services = a @ s # b" by (auto dest: split_list)
    with assms(1) have "service_key s \<notin> set (map service_key a)" "service_key s \<notin> set (map service_key b)" by auto
    with other [OF _ that] show ?thesis by (simp add: ab env_value_append split: option.split)
  qed
  show "env_value (concat (map (service_env net) services)) (url_name (service_key s)) = Some (sv_public_url s)"
    "env_value (concat (map (service_env net) services)) (target_name (service_key s)) = Some (rt_target (sv_route s))"
    "env_value (concat (map (service_env net) services)) (port_name (service_key s)) = routeTargetPort net (rt_target (sv_route s))"
    using one [of url_name] one [of target_name] one [of port_name] assms(3)
    by (simp_all add: service_env_value service_names_distinct)
qed

lemma group_env_other:
  "name \<notin> (\<Union>k \<in> {k. k \<noteq> ''''}. {url_name k, target_name k, port_name k}) \<Longrightarrow>
   env_value (concat (map (service_env net) services)) name = None"
  by (induction services) (auto simp: env_value_append service_env_value)

text \<open>
  C38. The program of a service sees its own address, host and port, and no other value of those names, whatever the
  environment held before; with distinct keys every service of the group is under its own names, with its address,
  its target and its port; and every variable that \<open>gohere\<close> does not generate keeps its value.
\<close>

theorem resolveServiceEnvironment_values:
  "let env = resolveServiceEnvironment net base current services in
   env_value env ''GOHERE_URL'' = Some (sv_public_url current) \<and>
   env_value env ''PORT'' = routeTargetPort net (rt_target (sv_route current)) \<and>
   env_value env ''HOST'' = Some (let host = trim_space (pl_listen_host (sv_plan current)) in if host = '''' then ''127.0.0.1'' else host) \<and>
   (if isGeneratedRuntimeKey key then True else env_value env key = env_value base key) \<and>
   (if length services > 1 \<and> distinct (map service_key services)
    then list_all (\<lambda>s. if service_key s = '''' then True
           else env_value env (url_name (service_key s)) = Some (sv_public_url s) \<and>
             env_value env (target_name (service_key s)) = Some (rt_target (sv_route s)) \<and>
             env_value env (port_name (service_key s)) = routeTargetPort net (rt_target (sv_route s))) services
    else True)"
proof -
  define host where "host = (let host = trim_space (pl_listen_host (sv_plan current)) in if host = '''' then ''127.0.0.1'' else host)"
  define group where "group = (if length services > 1 then concat (map (service_env net) services) else [])"
  define own where "own = [''HOST'' @ CHR ''='' # host] @ port_env net ''PORT'' current @ [''GOHERE_URL'' @ CHR ''='' # sv_public_url current]"
  have env: "resolveServiceEnvironment net base current services = kept_env base @ own @ group"
    by (simp add: resolveServiceEnvironment_def own_def group_def host_def Let_def)
  have own: "env_value own name = (if name = ''GOHERE_URL'' then Some (sv_public_url current)
      else if name = ''PORT'' then routeTargetPort net (rt_target (sv_route current))
      else if name = ''HOST'' then Some host else None)" for name
    using env_value_one [of "''HOST''" host] env_value_one [of "''PORT''"] env_value_one [of "''GOHERE_URL''" "sv_public_url current"]
    unfolding own_def env_value_append by (auto simp: port_env_def split: option.split)
  have none: "env_value group name = None" if "name \<notin> (\<Union>k \<in> {k. k \<noteq> ''''}. {url_name k, target_name k, port_name k})" for name
    using group_env_other [OF that] by (simp add: group_def)
  have fixed: "env_value group name = None" if "name \<in> {''HOST'', ''PORT'', ''GOHERE_URL''}" for name
    using fixed_names_other that by (intro none) blast
  have plain: "env_value group key = None" if "\<not> isGeneratedRuntimeKey key"
    using generated_name that by (intro none) blast
  have all: "env_value (kept_env base @ own @ group) name = (case env_value group name of Some v \<Rightarrow> Some v
      | None \<Rightarrow> (case env_value own name of Some v \<Rightarrow> Some v | None \<Rightarrow> if isGeneratedRuntimeKey name then None else env_value base name))" for name
    unfolding env_value_append env_value_kept by (simp split: option.split)
  have service: "env_value (kept_env base @ own @ group) (f (service_key s)) = env_value group (f (service_key s))"
    if "service_key s \<noteq> ''''" "f \<in> {url_name, target_name, port_name}" for s f
    unfolding all own using fixed_names_other [OF that] generated_name [OF that(1)] that(2) by (auto split: option.split)
  have members: "list_all (\<lambda>s. if service_key s = '''' then True
      else env_value (kept_env base @ own @ group) (url_name (service_key s)) = Some (sv_public_url s) \<and>
        env_value (kept_env base @ own @ group) (target_name (service_key s)) = Some (rt_target (sv_route s)) \<and>
        env_value (kept_env base @ own @ group) (port_name (service_key s)) = routeTargetPort net (rt_target (sv_route s))) services"
    if "length services > 1" "distinct (map service_key services)"
    using that service group_env_value [OF that(2)] by (auto simp: list_all_iff group_def)
  show ?thesis
    unfolding env Let_def
  proof (intro conjI)
    show "env_value (kept_env base @ own @ group) ''GOHERE_URL'' = Some (sv_public_url current)"
      "env_value (kept_env base @ own @ group) ''PORT'' = routeTargetPort net (rt_target (sv_route current))"
      unfolding all using fixed [of "''GOHERE_URL''"] fixed [of "''PORT''"] fixed_names by (simp_all add: own split: option.split)
    show "env_value (kept_env base @ own @ group) ''HOST'' =
        Some (if trim_space (pl_listen_host (sv_plan current)) = '''' then ''127.0.0.1'' else trim_space (pl_listen_host (sv_plan current)))"
      unfolding all using fixed [of "''HOST''"] by (simp add: own host_def Let_def)
    show "if isGeneratedRuntimeKey key then True else env_value (kept_env base @ own @ group) key = env_value base key"
      unfolding all using plain fixed_names by (auto simp: own)
    show "if length services > 1 \<and> distinct (map service_key services)
      then list_all (\<lambda>s. if service_key s = '''' then True
        else env_value (kept_env base @ own @ group) (url_name (service_key s)) = Some (sv_public_url s) \<and>
          env_value (kept_env base @ own @ group) (target_name (service_key s)) = Some (rt_target (sv_route s)) \<and>
          env_value (kept_env base @ own @ group) (port_name (service_key s)) = routeTargetPort net (rt_target (sv_route s))) services
      else True"
      using members by simp
  qed
qed

end
