(* ===== verification/Run_Lifecycle.thy ===== *)
theory Run_Lifecycle
  imports Run_Plan
begin

text \<open>
  A run with its route, \<open>internal/app/planned.go\<close>, \<open>group.go\<close>, \<open>detected.go\<close> and \<open>lan_share.go\<close>: the route is reserved
  before the program starts, made active when the program answers, announced, and taken back at the end.

  The router is an interface on a client state \<open>'c\<close>, once with the context of the run and once with the fresh context
  of the clean-up, which still works when the first is cancelled. The programs, the browser and the clocks answer
  through a record; what is shown to the user and done to the programs is a log, in order. A deferred call runs where
  the function returns, the last one first.
\<close>

section \<open>The interface and the log\<close>

record 'c lifecycle_ops =
  lo_reserve :: "reservation_request \<Rightarrow> ('c, reservation_result) client_call"
  lo_activate :: "string \<Rightarrow> route_ref list \<Rightarrow> ('c, route list) client_call"
  lo_release :: "string \<Rightarrow> route_ref list \<Rightarrow> ('c, unit) client_call"
  lo_renew :: "string \<Rightarrow> route_ref list \<Rightarrow> ('c, unit) client_call"
  lo_delete_ref :: "route_ref \<Rightarrow> ('c, unit) client_call"

text \<open>A client may lack the interfaces \<open>routeLifecycleClient\<close> and \<open>lanShareClient\<close>.\<close>

record 'c run_client =
  rc_admin :: "'c admin_ops"
  rc_lifecycle :: "'c lifecycle_ops option"
  rc_lan :: "((route_ref \<Rightarrow> ('c, share_result) client_call) \<times> (route_ref \<Rightarrow> ('c, unit) client_call)) option"

datatype run_fault =
    AtomicLifecycleUnsupported
  | RunIDFailed
  | StatusFault command_error
  | CallFault client_error
  | IncompleteReservation
  | PendingWithoutTarget
  | RollbackFault run_fault client_error
  | TargetUnreachable string
  | WSLTargetUnreachable string run_fault
  | ContextFault
  | LanUnsupported
  | ShareModeUnsupported string
  | LanApprovalTimeout
  | LanPublicNetwork
  | StaticServerFault
  | WrongPort int int
  | ProgramFault run_error
  | ExitStatus
  | NoServerToShare
  | EmptyServiceKey string
  | AmbiguousServiceKey string string string
  | NoControllablePort string

datatype run_effect =
    Announce string
  | OutputText string
  | OpenBrowser string
  | BrowserFailed string
  | ShareShown share_result
  | CleanupFailed string "client_error list"
  | StartProgram nat
  | StopProgram nat
  | StartStatic
  | CloseStatic
  | StartLease "route_ref list"
  | StopLease
  | LeaseWarning "client_error list"
  | LiveOutput nat bool
  | ReplayOutput nat
  | Finished

type_synonym 'c run_state = "'c \<times> run_effect list"
type_synonym ('c, 'a) run_call = "'c run_state \<Rightarrow> (run_fault, 'a) result \<times> 'c run_state"

definition emit :: "run_effect list \<Rightarrow> 'c run_state \<Rightarrow> 'c run_state" where
  "emit es = (\<lambda>(c, es'). (c, es' @ es))"

text \<open>A call of the client in a run.\<close>

definition call_client :: "('c, 'a) client_call \<Rightarrow> 'c run_state \<Rightarrow> (client_error, 'a) result \<times> 'c run_state" where
  "call_client f = (\<lambda>(c, es). case f c of (r, c) \<Rightarrow> (r, (c, es)))"

definition as_fault :: "(client_error, 'a) result \<Rightarrow> (run_fault, 'a) result" where
  "as_fault r = (case r of Inl e \<Rightarrow> Inl (CallFault e) | Inr a \<Rightarrow> Inr a)"

definition attempt :: "('c, 'a) client_call \<Rightarrow> ('c, 'a) run_call" where
  "attempt f st = (case call_client f st of (r, st) \<Rightarrow> (as_fault r, st))"

definition bind_run :: "('c, 'a) run_call \<Rightarrow> ('a \<Rightarrow> ('c, 'b) run_call) \<Rightarrow> ('c, 'b) run_call" where
  "bind_run f g st = (case f st of (Inl e, st) \<Rightarrow> (Inl e, st) | (Inr a, st) \<Rightarrow> g a st)"

section \<open>The answers from outside\<close>

record 'c run_world =
  rw_run :: "'c run_client"
  rw_clean :: "'c run_client"
  rw_run_id :: "string option"
  rw_commands :: command_env
  rw_net :: net_env
  rw_rounds :: "nat \<Rightarrow> bool list"
  rw_browser :: bool
  rw_deadline :: "client_error \<Rightarrow> bool"
  rw_static :: "int option"
  rw_start :: "(run_error, int) result"
  rw_cancelled :: bool
  rw_wait :: bool

section \<open>Probing the target\<close>

text \<open>
  \<open>waitForWSLTarget\<close>: one entry for each pause between two probes, whether the context was done in it; after the last
  entry the deadline has passed.
\<close>

fun waitForWSLTarget :: "(string \<Rightarrow> ('c, bool) client_call) \<Rightarrow> string \<Rightarrow> bool list \<Rightarrow> ('c, bool) run_call" where
  "waitForWSLTarget probe target [] st = attempt (probe target) st"
| "waitForWSLTarget probe target (cancelled # rounds) st =
     (case attempt (probe target) st of
        (Inr False, st) \<Rightarrow> if cancelled then (Inl ContextFault, st) else waitForWSLTarget probe target rounds st
      | answer \<Rightarrow> answer)"

definition verifyPlannedTarget :: "'c admin_ops \<Rightarrow> string \<Rightarrow> bool \<Rightarrow> bool list \<Rightarrow> ('c, unit) run_call" where
  "verifyPlannedTarget ops target retry rounds st =
     (case ao_probe ops of
        None \<Rightarrow> (Inr (), st)
      | Some probe \<Rightarrow>
          bind_run (if retry then waitForWSLTarget probe target rounds else attempt (probe target))
            (\<lambda>reachable st. (if reachable then Inr () else Inl (TargetUnreachable target), st)) st)"

section \<open>LAN shares\<close>

definition public_network_text :: string where
  "public_network_text = ''LAN sharing is disabled on public Windows networks''"

definition createLANShare :: "'c run_world \<Rightarrow> 'c run_client \<Rightarrow> command \<Rightarrow> route_ref \<Rightarrow> ('c, share_result option) run_call" where
  "createLANShare rw client cmd ref st =
     (if cmd_share_mode cmd = '''' then (Inr None, st)
      else if cmd_share_mode cmd \<noteq> ''lan'' then (Inl (ShareModeUnsupported (cmd_share_mode cmd)), st)
      else (case rc_lan client of
              None \<Rightarrow> (Inl LanUnsupported, st)
            | Some (create, _) \<Rightarrow>
                (case call_client (create ref) st of
                   (Inr share, st) \<Rightarrow> (Inr (Some share), st)
                 | (Inl e, st) \<Rightarrow>
                     (Inl (if rw_deadline rw e \<or> contains (client_error_text e) ''Client.Timeout exceeded'' then LanApprovalTimeout
                           else if contains (client_error_text e) public_network_text then LanPublicNetwork
                           else CallFault e), st))))"

text \<open>The errors of a call, for a list of errors that are joined.\<close>

definition deleteLANShare :: "'c run_client \<Rightarrow> route_ref \<Rightarrow> 'c run_state \<Rightarrow> client_error list \<times> 'c run_state" where
  "deleteLANShare client ref st =
     (case rc_lan client of
        None \<Rightarrow> ([ErrUnexpected ''router control does not support LAN sharing; update gohere''], st)
      | Some (_, delete) \<Rightarrow> (case call_client (delete ref) st of (Inl e, st) \<Rightarrow> ([e], st) | (Inr _, st) \<Rightarrow> ([], st)))"

definition printLANShare :: "share_result option \<Rightarrow> run_effect list" where
  "printLANShare share = (case share of None \<Rightarrow> [] | Some s \<Rightarrow> [ShareShown s])"

section \<open>Taking routes back\<close>

fun deleteRouteRefs :: "'c lifecycle_ops \<Rightarrow> route_ref list \<Rightarrow> 'c run_state \<Rightarrow> client_error list \<times> 'c run_state" where
  "deleteRouteRefs lo [] st = ([], st)"
| "deleteRouteRefs lo (ref # refs) st =
     (case call_client (lo_delete_ref lo ref) st of
        (r, st) \<Rightarrow>
          (case deleteRouteRefs lo refs st of
             (errs, st) \<Rightarrow> ((case r of Inl e \<Rightarrow> if routeRefMismatch e then errs else e # errs | Inr _ \<Rightarrow> errs), st)))"

definition releaseRoutes :: "'c lifecycle_ops \<Rightarrow> string \<Rightarrow> route_ref list \<Rightarrow> 'c run_state \<Rightarrow> client_error list \<times> 'c run_state" where
  "releaseRoutes lo runID refs st =
     (case call_client (lo_release lo runID refs) st of (Inl e, st) \<Rightarrow> ([e], st) | (Inr _, st) \<Rightarrow> ([], st))"

definition releaseReservationError ::
  "'c lifecycle_ops \<Rightarrow> string \<Rightarrow> route_ref list \<Rightarrow> run_fault \<Rightarrow> 'c run_state \<Rightarrow> run_fault \<times> 'c run_state" where
  "releaseReservationError lo runID refs cause st =
     (if refs = [] then (cause, st)
      else (case releaseRoutes lo runID refs st of
              ([], st) \<Rightarrow> (cause, st)
            | (e # _, st) \<Rightarrow> (RollbackFault cause e, st)))"

text \<open>What the deferred \<open>release\<close> does: the share, then the routes, deleted once active and released before.\<close>

definition take_back ::
  "'c run_client \<Rightarrow> 'c lifecycle_ops \<Rightarrow> string \<Rightarrow> string \<Rightarrow> route_ref option \<Rightarrow> bool \<Rightarrow> route_ref list \<Rightarrow> 'c run_state \<Rightarrow> 'c run_state" where
  "take_back clean lo host runID shared activated refs st =
     (if refs = [] then st
      else (case (case shared of None \<Rightarrow> ([], st) | Some ref \<Rightarrow> deleteLANShare clean ref st) of
              (shareErrs, st) \<Rightarrow>
                (case (if activated then deleteRouteRefs lo refs st else releaseRoutes lo runID refs st) of
                   (errs, st) \<Rightarrow>
                     if shareErrs @ errs \<noteq> [] then emit [CleanupFailed host (shareErrs @ errs)] st else st)))"

section \<open>The lease\<close>

text \<open>A tick of the loop that \<open>startReservationLease\<close> starts: each route is renewed by itself, and a mismatch is no error.\<close>

fun renew_refs :: "'c lifecycle_ops \<Rightarrow> string \<Rightarrow> route_ref list \<Rightarrow> 'c run_state \<Rightarrow> client_error list \<times> 'c run_state" where
  "renew_refs lo runID [] st = ([], st)"
| "renew_refs lo runID (ref # refs) st =
     (case call_client (lo_renew lo runID [ref]) st of
        (r, st) \<Rightarrow>
          (case renew_refs lo runID refs st of
             (errs, st) \<Rightarrow> ((case r of Inl e \<Rightarrow> if routeRefMismatch e then errs else e # errs | Inr _ \<Rightarrow> errs), st)))"

definition lease_tick :: "'c lifecycle_ops \<Rightarrow> string \<Rightarrow> route_ref list \<Rightarrow> 'c run_state \<Rightarrow> 'c run_state" where
  "lease_tick lo runID refs st =
     (case renew_refs lo runID refs st of (errs, st) \<Rightarrow> if errs \<noteq> [] then emit [LeaseWarning errs] st else st)"

section \<open>One planned run\<close>

definition resolvedRoute :: "route \<Rightarrow> (run_fault, route) result" where
  "resolvedRoute r =
     (if EffectiveState r = RouteStatePending then
        (if trim_space (rt_pending_target r) = '''' then Inl PendingWithoutTarget
         else Inr (r\<lparr>rt_target := rt_pending_target r\<rparr>))
      else Inr r)"

definition routeReservationForPlan :: "proc_env \<Rightarrow> command \<Rightarrow> run_plan \<Rightarrow> route_reservation" where
  "routeReservationForPlan pv cmd plan =
     \<lparr>rs_desired_host = pl_host plan, rs_service = pl_name plan, rs_preferred_scheme = pl_url_scheme plan, rs_url_path = pl_url_path plan,
      rs_target = routeTarget (pl_route_target_host plan) (pl_port plan), rs_cwd = pl_cwd plan,
      rs_project_root = pl_project_root plan, rs_project_name = pl_project_name plan, rs_source = pl_route_source plan,
      rs_owner_cwd = pl_cwd plan, rs_owner_env = (if pl_owner_env plan = '''' then runOwnerEnv pv else pl_owner_env plan),
      rs_owner_instance = pl_owner_instance plan, rs_distro = pl_distro plan, rs_linux_user = pl_linux_user plan,
      rs_listen_target = routeTarget (pl_listen_host plan) (pl_port plan), rs_pid = 0, rs_mode = runMode cmd plan,
      rs_share_mode = cmd_share_mode cmd, rs_process_identity = '''', rs_runner_id = pl_runner_id plan, rs_reuse = None\<rparr>"

definition status_fault :: "command_error \<Rightarrow> run_fault" where
  "status_fault e = StatusFault (if e = ClientError ErrUnauthorized then StaleToken else e)"

definition route_statuses :: "'c run_world \<Rightarrow> 'c admin_ops \<Rightarrow> ('c, route_status_pair list) run_call" where
  "route_statuses rw ops = (\<lambda>(c, es).
     case adminRouteStatuses ops (rw_commands rw) c of
       (Inl e, c) \<Rightarrow> (Inl (status_fault e), (c, es))
     | (Inr statuses, c) \<Rightarrow> (Inr statuses, (c, es)))"

definition wsl_plan :: "run_plan \<Rightarrow> bool" where "wsl_plan plan \<longleftrightarrow> pl_owner_env plan = ''wsl''"

definition plannedReusableRoute :: "'c run_world \<Rightarrow> 'c admin_ops \<Rightarrow> run_plan \<Rightarrow> ('c, route option) run_call" where
  "plannedReusableRoute rw ops plan st =
     bind_run (route_statuses rw ops) (\<lambda>statuses st.
       case reusableExistingRoute (co_pv (rw_commands rw)) (co_time (rw_commands rw)) plan statuses of
         None \<Rightarrow> (Inr None, st)
       | Some r \<Rightarrow>
           if pl_fixed_port plan \<and> rt_target r \<noteq> routeTarget (pl_route_target_host plan) (pl_port plan) then (Inr None, st)
           else (case verifyPlannedTarget ops (rt_target r) (wsl_plan plan) (rw_rounds rw 0) st of
                   (Inl _, st) \<Rightarrow> (Inr None, st)
                 | (Inr _, st) \<Rightarrow> (Inr (Some r), st))) st"

text \<open>\<open>announceResolvedService\<close>, which never fails: the address, the browser, and with \<open>--verbose\<close> the details.\<close>

definition announceResolvedService :: "'c run_world \<Rightarrow> command \<Rightarrow> resolved_service \<Rightarrow> run_effect list" where
  "announceResolvedService rw cmd service =
     [Announce (runSuccessOutputForScheme cmd (pl_url_scheme (sv_plan service)) (rt_host (sv_route service)) (pl_url_path (sv_plan service)))] @
     (if cmd_open cmd then OpenBrowser (sv_public_url service) # (if rw_browser rw then [] else [BrowserFailed (sv_public_url service)]) else []) @
     (if cmd_verbose cmd then
        [OutputText ([CHR 0x0A] @ ''target: '' @ rt_target (sv_route service) @ [CHR 0x0A])] @
        (if pl_project_root (sv_plan service) \<noteq> '''' then [OutputText (''project root: '' @ pl_project_root (sv_plan service) @ [CHR 0x0A])] else []) @
        [OutputText (''command: '' @ join '' '' (pl_command (sv_plan service)) @ [CHR 0x0A]),
         OutputText (''service: '' @ pick (pl_router_label (sv_plan service)) ''running'' @ [CHR 0x0A])]
      else [])"

definition resolved_service_of :: "run_plan \<Rightarrow> route \<Rightarrow> string \<Rightarrow> bool \<Rightarrow> resolved_service" where
  "resolved_service_of plan r key reused =
     \<lparr>sv_plan = plan, sv_route = r, sv_ref = Ref r, sv_key = key, sv_public_url = resolvedPublicURL plan r, sv_reused = reused\<rparr>"

text \<open>How far a run came: its share and whether its routes are active decide what the clean-up does.\<close>

record progress =
  pg_activated :: bool
  pg_shared :: "route_ref option"

definition no_progress :: progress where "no_progress = \<lparr>pg_activated = False, pg_shared = None\<rparr>"

type_synonym ('c, 'a) run_body = "'c run_state \<Rightarrow> (run_fault, 'a) result \<times> progress \<times> 'c run_state"

text \<open>
  The part that a static server and a program share: probe the target, make the routes active, keep their lease, start
  the share, announce. The lease stops when the function returns.
\<close>

definition go_live ::
  "'c run_world \<Rightarrow> 'c lifecycle_ops \<Rightarrow> command \<Rightarrow> run_plan \<Rightarrow> resolved_service \<Rightarrow> string \<Rightarrow> route_ref list \<Rightarrow> run_effect list
     \<Rightarrow> ('c, unit) run_body" where
  "go_live rw lo cmd plan service runID refs live st =
     (case verifyPlannedTarget (rc_admin (rw_run rw)) (rt_target (sv_route service)) (wsl_plan plan) (rw_rounds rw 1) st of
        (Inl e, st) \<Rightarrow> (Inl e, no_progress, st)
      | (Inr _, st) \<Rightarrow>
          (case attempt (lo_activate lo runID refs) st of
             (Inl e, st) \<Rightarrow> (Inl e, no_progress, st)
           | (Inr _, st) \<Rightarrow>
               (case createLANShare rw (rw_run rw) cmd (Ref (sv_route service)) (emit [StartLease refs] st) of
                  (Inl e, st) \<Rightarrow> (Inl e, \<lparr>pg_activated = True, pg_shared = None\<rparr>, emit [StopLease] st)
                | (Inr share, st) \<Rightarrow>
                    (Inr (), \<lparr>pg_activated = True, pg_shared = map_option (\<lambda>_. Ref (sv_route service)) share\<rparr>,
                     emit (announceResolvedService rw cmd service @ printLANShare share @ live @ [StopLease]) st))))"

text \<open>A route that runs already: it is announced once more and nothing is started.\<close>

definition run_reused :: "'c run_world \<Rightarrow> command \<Rightarrow> run_plan \<Rightarrow> resolved_service \<Rightarrow> ('c, unit) run_body" where
  "run_reused rw cmd plan service st =
     (case verifyPlannedTarget (rc_admin (rw_run rw)) (rt_target (sv_route service)) (wsl_plan plan) (rw_rounds rw 1) st of
        (Inl e, st) \<Rightarrow>
          (Inl e, no_progress, if cmd_share_mode cmd \<noteq> '''' then snd (deleteLANShare (rw_run rw) (Ref (sv_route service)) st) else st)
      | (Inr _, st) \<Rightarrow>
          (case createLANShare rw (rw_run rw) cmd (Ref (sv_route service)) st of
             (Inl e, st) \<Rightarrow> (Inl e, no_progress, st)
           | (Inr share, st) \<Rightarrow>
               (Inr (), \<lparr>pg_activated = False, pg_shared = map_option (\<lambda>_. Ref (sv_route service)) share\<rparr>,
                emit (announceResolvedService rw cmd service @ printLANShare share) st)))"

definition run_static ::
  "'c run_world \<Rightarrow> 'c lifecycle_ops \<Rightarrow> command \<Rightarrow> run_plan \<Rightarrow> resolved_service \<Rightarrow> string \<Rightarrow> route_ref list \<Rightarrow> ('c, unit) run_body" where
  "run_static rw lo cmd plan service runID refs st =
     (case rw_static rw of
        None \<Rightarrow> (Inl StaticServerFault, no_progress, st)
      | Some port \<Rightarrow>
          (case (if port \<noteq> pl_port plan then (Inl (WrongPort port (pl_port plan)), no_progress, emit [StartStatic] st)
                 else go_live rw lo cmd plan service runID refs [] (emit [StartStatic] st)) of
             (r, pg, st) \<Rightarrow> (r, pg, emit [CloseStatic] st)))"

definition run_program ::
  "'c run_world \<Rightarrow> 'c lifecycle_ops \<Rightarrow> command \<Rightarrow> run_plan \<Rightarrow> resolved_service \<Rightarrow> string \<Rightarrow> route_ref list \<Rightarrow> ('c, unit) run_body" where
  "run_program rw lo cmd plan service runID refs st =
     (case rw_start rw of
        Inl e \<Rightarrow>
          if rw_cancelled rw then (Inr (), no_progress, st)
          else if e = ErrProcessFinished then
            (if cmd_share_mode cmd = ''lan'' then (Inl NoServerToShare, no_progress, emit [ReplayOutput 0] st)
             else (Inr (), no_progress, emit [ReplayOutput 0, Finished] st))
          else (Inl (ProgramFault e), no_progress, emit [ReplayOutput 0] st)
      | Inr port \<Rightarrow>
          (case (if port \<noteq> pl_port plan then (Inl (WrongPort port (pl_port plan)), no_progress, emit [StartProgram 0] st)
                 else go_live rw lo cmd plan service runID refs [LiveOutput 0 (cmd_verbose cmd)] (emit [StartProgram 0] st)) of
             (Inl e, pg, st) \<Rightarrow> (Inl e, pg, emit [StopProgram 0] st)
           | (Inr _, pg, st) \<Rightarrow>
               (if rw_wait rw then Inl ExitStatus else Inr (), pg, emit [StopProgram 0] st)))"

text \<open>What follows a reservation of one route.\<close>

definition run_reserved ::
  "'c run_world \<Rightarrow> 'c lifecycle_ops \<Rightarrow> command \<Rightarrow> run_plan \<Rightarrow> string \<Rightarrow> reservation_result \<Rightarrow> ('c, unit) run_call" where
  "run_reserved rw lo cmd plan runID rz st =
     (case rz_routes rz of
        [reserved] \<Rightarrow>
          (case resolvedRoute (rr_route reserved) of
             Inl e \<Rightarrow> (case releaseReservationError lo runID (PendingRefs rz) e st of (e, st) \<Rightarrow> (Inl e, st))
           | Inr r \<Rightarrow>
               (let service = resolved_service_of plan r (serviceDiscoveryEnvKey (pl_name plan)) (rr_reused reserved);
                    refs = PendingRefs rz;
                    plan' = plan\<lparr>pl_env := resolveServiceEnvironment (rw_net rw) (pl_env plan) service [service]\<rparr> in
                case (if rr_reused reserved then run_reused rw cmd plan service st
                      else if pl_static plan then run_static rw lo cmd plan service runID refs st
                      else run_program rw lo cmd plan' service runID refs st) of
                  (result, pg, st) \<Rightarrow>
                    (result, take_back (rw_clean rw) (case rc_lifecycle (rw_clean rw) of None \<Rightarrow> lo | Some clean \<Rightarrow> clean)
                       (rt_host r) runID (pg_shared pg) (pg_activated pg) refs st)))
      | _ \<Rightarrow> (Inl IncompleteReservation, st))"

definition reserve_fault :: "client_error \<Rightarrow> run_fault" where
  "reserve_fault e = (if e = ErrUnauthorized then StatusFault StaleToken else CallFault e)"

definition runPlannedSingle :: "'c run_world \<Rightarrow> command \<Rightarrow> run_plan \<Rightarrow> ('c, unit) run_call" where
  "runPlannedSingle rw cmd plan st =
     (case rc_lifecycle (rw_run rw) of
        None \<Rightarrow> (Inl AtomicLifecycleUnsupported, st)
      | Some lo \<Rightarrow>
          (case rw_run_id rw of
             None \<Rightarrow> (Inl RunIDFailed, st)
           | Some runID \<Rightarrow>
               bind_run (plannedReusableRoute rw (rc_admin (rw_run rw)) plan) (\<lambda>reusable st.
                 let candidate = (routeReservationForPlan (co_pv (rw_commands rw)) cmd plan)\<lparr>rs_reuse := map_option Ref reusable\<rparr> in
                 case call_client (lo_reserve lo \<lparr>rq_run_id = runID, rq_ttl = DefaultReservationTTL, rq_routes = [candidate]\<rparr>) st of
                   (Inl e, st) \<Rightarrow> (Inl (reserve_fault e), st)
                 | (Inr rz, st) \<Rightarrow> run_reserved rw lo cmd plan runID rz st) st))"

section \<open>A route found after the program started\<close>

text \<open>
  \<open>registerDetectedRouteLifecycle\<close>. Its own error paths take the routes back with the context of the run. The result
  is what the returned clean-up function needs: the route, its references and the share.
\<close>

record registration =
  rg_route :: route
  rg_run_id :: string
  rg_refs :: "route_ref list"
  rg_shared :: bool

definition detected_candidate :: "proc_env \<Rightarrow> command \<Rightarrow> run_plan \<Rightarrow> int \<Rightarrow> string \<Rightarrow> route_reservation" where
  "detected_candidate pv cmd plan pid identity =
     (routeReservationForPlan pv cmd plan)\<lparr>rs_pid := pid, rs_process_identity := identity\<rparr>"

definition give_up :: "'c lifecycle_ops \<Rightarrow> string \<Rightarrow> route_ref list \<Rightarrow> run_fault \<Rightarrow> ('c, 'a) run_call" where
  "give_up lo runID refs e st = (Inl e, snd (releaseRoutes lo runID refs st))"

definition register_reserved ::
  "'c run_world \<Rightarrow> 'c lifecycle_ops \<Rightarrow> command \<Rightarrow> run_plan \<Rightarrow> string \<Rightarrow> reservation_result \<Rightarrow> ('c, registration) run_call" where
  "register_reserved rw lo cmd plan runID rz st =
     (let refs = PendingRefs rz in
      case rz_routes rz of
        [reserved] \<Rightarrow>
          if length refs \<noteq> 1 then give_up lo runID refs IncompleteReservation st
          else (case resolvedRoute (rr_route reserved) of
            Inl e \<Rightarrow> give_up lo runID refs e st
          | Inr r \<Rightarrow>
              (case verifyPlannedTarget (rc_admin (rw_run rw)) (rt_target r) (wsl_plan plan) (rw_rounds rw 1) st of
                 (Inl e, st) \<Rightarrow> give_up lo runID refs (if wsl_plan plan then WSLTargetUnreachable (rt_target r) e else e) st
               | (Inr _, st) \<Rightarrow>
                   (case attempt (lo_activate lo runID refs) st of
                      (Inl e, st) \<Rightarrow> give_up lo runID refs e st
                    | (Inr active, st) \<Rightarrow>
                        (let r = (case active of [a] \<Rightarrow> a | _ \<Rightarrow> r);
                             plan = plan\<lparr>pl_host := rt_host r, pl_name := rt_name r\<rparr>;
                             service = resolved_service_of plan r (serviceDiscoveryEnvKey (pl_name plan)) False in
                         case createLANShare rw (rw_run rw) cmd (Ref r) (emit [StartLease refs] st) of
                           (Inl e, st) \<Rightarrow> (Inl e, snd (deleteRouteRefs lo refs (emit [StopLease] st)))
                         | (Inr share, st) \<Rightarrow>
                             (Inr \<lparr>rg_route = r, rg_run_id = runID, rg_refs = refs, rg_shared = (share \<noteq> None)\<rparr>,
                              emit (announceResolvedService rw cmd service @ printLANShare share) st)))))
      | _ \<Rightarrow> give_up lo runID refs IncompleteReservation st)"

definition registerDetectedRouteLifecycle ::
  "'c run_world \<Rightarrow> 'c lifecycle_ops \<Rightarrow> command \<Rightarrow> run_plan \<Rightarrow> int \<Rightarrow> int \<Rightarrow> string \<Rightarrow> ('c, registration) run_call" where
  "registerDetectedRouteLifecycle rw lo cmd plan port pid identity st =
     (let plan = plan\<lparr>pl_port := port\<rparr> in
      case rw_run_id rw of
        None \<Rightarrow> (Inl RunIDFailed, st)
      | Some runID \<Rightarrow>
          (case attempt (lo_reserve lo \<lparr>rq_run_id = runID, rq_ttl = DefaultReservationTTL,
                   rq_routes = [detected_candidate (co_pv (rw_commands rw)) cmd plan pid identity]\<rparr>) st of
             (Inl e, st) \<Rightarrow> (Inl e, st)
           | (Inr rz, st) \<Rightarrow> register_reserved rw lo cmd plan runID rz st))"

text \<open>The function it returns, which runs once: the share first, then the routes; each failure is reported by itself.\<close>

definition report :: "string \<Rightarrow> client_error list \<Rightarrow> 'c run_state \<Rightarrow> 'c run_state" where
  "report host errs st = (if errs = [] then st else emit [CleanupFailed host errs] st)"

definition detected_cleanup :: "'c run_client \<Rightarrow> 'c lifecycle_ops \<Rightarrow> registration \<Rightarrow> 'c run_state \<Rightarrow> 'c run_state" where
  "detected_cleanup clean lo rg st =
     (let host = rt_host (rg_route rg) in
      case (if rg_shared rg then deleteLANShare clean (Ref (rg_route rg)) (emit [StopLease] st) else ([], emit [StopLease] st)) of
        (shareErrs, st) \<Rightarrow>
          (case deleteRouteRefs lo (rg_refs rg) (report host shareErrs st) of (errs, st) \<Rightarrow> report host errs st))"

section \<open>A group\<close>

fun check_service_keys :: "(string \<times> string) list \<Rightarrow> run_item list \<Rightarrow> (run_fault, unit) result" where
  "check_service_keys seen [] = Inr ()"
| "check_service_keys seen (it # items) =
     (let key = serviceDiscoveryEnvKey (serviceDiscoveryLabel it) in
      if key = '''' then Inl (EmptyServiceKey (serviceDiscoverySource it))
      else (case map_of seen key of
              Some existing \<Rightarrow> Inl (AmbiguousServiceKey key existing (serviceDiscoverySource it))
            | None \<Rightarrow> check_service_keys ((key, serviceDiscoverySource it) # seen) items))"

text \<open>The candidate of an item: a route that can be reused and whose target answers, or the plan's own.\<close>

definition group_candidate ::
  "'c run_world \<Rightarrow> route_status_pair list \<Rightarrow> nat \<Rightarrow> run_item \<Rightarrow> ('c, route_reservation) run_call" where
  "group_candidate rw statuses i = (\<lambda>(cmd, plan) st.
     (let ops = rc_admin (rw_run rw);
          candidate = routeReservationForPlan (co_pv (rw_commands rw)) cmd plan;
          fresh = (if \<not> pl_managed_port plan \<and> \<not> pl_fixed_port plan
                   then Inl (NoControllablePort (serviceDiscoverySource (cmd, plan))) else Inr candidate) in
      case reusableExistingRoute (co_pv (rw_commands rw)) (co_time (rw_commands rw)) plan statuses of
        None \<Rightarrow> (fresh, st)
      | Some existing \<Rightarrow>
          if rt_id existing \<noteq> '''' \<and> rt_generation existing \<noteq> 0 \<and>
             (\<not> pl_fixed_port plan \<or> rt_target existing = routeTarget (pl_route_target_host plan) (pl_port plan))
          then (case verifyPlannedTarget ops (rt_target existing) (wsl_plan plan) (rw_rounds rw (2 * i)) st of
                  (Inr _, st) \<Rightarrow>
                    (Inr (candidate\<lparr>rs_reuse := Some (Ref existing), rs_target := rt_target existing, rs_project_root := '''',
                       rs_project_name := ''''\<rparr>), st)
                | (Inl _, st) \<Rightarrow> (fresh, st))
          else (fresh, st)))"

fun group_candidates ::
  "'c run_world \<Rightarrow> route_status_pair list \<Rightarrow> nat \<Rightarrow> run_item list \<Rightarrow> ('c, route_reservation list) run_call" where
  "group_candidates rw statuses i [] st = (Inr [], st)"
| "group_candidates rw statuses i (it # items) st =
     bind_run (group_candidate rw statuses i it) (\<lambda>candidate.
     bind_run (group_candidates rw statuses (Suc i) items) (\<lambda>candidates st. (Inr (candidate # candidates), st))) st"

text \<open>
  What the programs of a group answer: whether the launch of an item fails, the results of the waits in the order they
  arrive, the order in which the parallel probes report, and what the wait for the group returns.
\<close>

text \<open>What ends the wait for a group: the first program that exits, and whether with an error, or the context.\<close>

datatype wait_end = ProgramEnded bool | ContextDone

record group_answers =
  ga_launch :: "nat \<Rightarrow> run_error option"
  ga_started :: "(nat \<times> (run_error, int) result) list"
  ga_probes :: "nat list"
  ga_wait :: wait_end

fun launch_programs :: "group_answers \<Rightarrow> nat list \<Rightarrow> nat list \<Rightarrow> (run_error, nat list) result \<times> nat list" where
  "launch_programs ga launched [] = (Inr launched, launched)"
| "launch_programs ga launched (i # is) =
     (case ga_launch ga i of
        Some e \<Rightarrow> (Inl e, launched)
      | None \<Rightarrow> launch_programs ga (launched @ [i]) is)"

definition stopGroupRunners :: "nat list \<Rightarrow> run_effect list" where
  "stopGroupRunners launched = map StopProgram launched"

text \<open>The loop over the arrivals; the first failure stops the whole group, the others are only awaited.\<close>

fun await_started :: "run_item list \<Rightarrow> nat list \<Rightarrow> run_fault option \<Rightarrow> (nat \<times> (run_error, int) result) list \<Rightarrow> run_fault option \<times> run_effect list" where
  "await_started items launched failed [] = (failed, [])"
| "await_started items launched failed ((i, r) # arrivals) =
     (let fault = (case r of
            Inl e \<Rightarrow> Some (ProgramFault e)
          | Inr port \<Rightarrow> if port \<noteq> pl_port (snd (items ! i)) then Some (WrongPort port (pl_port (snd (items ! i)))) else None) in
      case (failed, fault) of
        (None, Some e) \<Rightarrow>
          (case await_started items launched (Some e) arrivals of
             (failed, es) \<Rightarrow> (failed, [ReplayOutput i] @ stopGroupRunners launched @ es))
      | _ \<Rightarrow> await_started items launched failed arrivals)"

fun probe_all :: "'c run_world \<Rightarrow> (nat \<Rightarrow> string \<times> bool) \<Rightarrow> nat list \<Rightarrow> run_fault option \<Rightarrow> 'c run_state \<Rightarrow> run_fault option \<times> 'c run_state" where
  "probe_all rw target [] failed st = (failed, st)"
| "probe_all rw target (i # is) failed st =
     (case verifyPlannedTarget (rc_admin (rw_run rw)) (fst (target i)) (snd (target i)) (rw_rounds rw (2 * i + 1)) st of
        (Inl e, st) \<Rightarrow> probe_all rw target is (case failed of None \<Rightarrow> Some e | Some _ \<Rightarrow> failed) st
      | (Inr _, st) \<Rightarrow> probe_all rw target is failed st)"

definition group_services :: "run_item list \<Rightarrow> reserved_route list \<Rightarrow> (run_fault, resolved_service list) result" where
  "group_services items reserved =
     res_map (\<lambda>(it, rr). res_bind (resolvedRoute (rr_route rr)) (\<lambda>r.
       Inr (resolved_service_of (snd it) r (serviceDiscoveryEnvKey (serviceDiscoveryLabel it)) (rr_reused rr))))
       (zip items reserved)"

definition waitForMulti :: "nat list \<Rightarrow> wait_end \<Rightarrow> (run_fault, unit) result \<times> run_effect list" where
  "waitForMulti running ending =
     (if running = [] then (Inr (), [])
      else (case ending of
              ProgramEnded failed \<Rightarrow> (if failed then Inl (ProgramFault ErrProcessFailed) else Inr (), [])
            | ContextDone \<Rightarrow> (Inr (), map StopProgram running)))"

definition announce_group :: "'c run_world \<Rightarrow> bool \<Rightarrow> run_item list \<Rightarrow> resolved_service list \<Rightarrow> run_effect list" where
  "announce_group rw verbose items services =
     concat (map (\<lambda>(i, (cmd, plan), service).
       announceResolvedService rw cmd service @ (if sv_reused service then [] else [LiveOutput i verbose]))
       (zip [0..<length items] (zip items services)))"

text \<open>The environment each program gets: every service of the group under its own names.\<close>

definition group_environments :: "net_env \<Rightarrow> run_item list \<Rightarrow> resolved_service list \<Rightarrow> string list list" where
  "group_environments net items services =
     map (\<lambda>(it, service). resolveServiceEnvironment net (pl_env (snd it)) service services) (zip items services)"

text \<open>From the reservation to the return, without the deferred \<open>release\<close>.\<close>

definition group_body ::
  "'c run_world \<Rightarrow> group_answers \<Rightarrow> 'c lifecycle_ops \<Rightarrow> bool \<Rightarrow> run_item list \<Rightarrow> string \<Rightarrow> reservation_result \<Rightarrow> ('c, unit) run_body" where
  "group_body rw ga lo verbose items runID rz st =
     (if length (rz_routes rz) \<noteq> length items then (Inl IncompleteReservation, no_progress, st)
      else (case group_services items (rz_routes rz) of
        Inl e \<Rightarrow> (Inl e, no_progress, st)
      | Inr services \<Rightarrow>
          (case launch_programs ga [] (filter (\<lambda>i. \<not> sv_reused (services ! i)) [0..<length items]) of
             (Inl e, launched) \<Rightarrow> (Inl (ProgramFault e), no_progress, emit (map StartProgram launched @ stopGroupRunners launched) st)
           | (Inr launched, _) \<Rightarrow>
               (case await_started items launched None (take (length launched) (ga_started ga)) of
                  (Some e, es) \<Rightarrow> (Inl e, no_progress, emit (map StartProgram launched @ es @ stopGroupRunners launched) st)
                | (None, es) \<Rightarrow>
                    (case probe_all rw (\<lambda>i. (rt_target (sv_route (services ! i)), wsl_plan (snd (items ! i)))) (ga_probes ga) None
                            (emit (map StartProgram launched @ es) st) of
                       (Some e, st) \<Rightarrow> (Inl e, no_progress, emit (stopGroupRunners launched) st)
                     | (None, st) \<Rightarrow>
                         (case (if PendingRefs rz = [] then (Inr [], st) else attempt (lo_activate lo runID (PendingRefs rz)) st) of
                            (Inl e, st) \<Rightarrow> (Inl e, no_progress, emit (stopGroupRunners launched) st)
                          | (Inr _, st) \<Rightarrow>
                              (fst (waitForMulti launched (ga_wait ga)),
                               \<lparr>pg_activated = (PendingRefs rz \<noteq> []), pg_shared = None\<rparr>,
                               emit ([StartLease (PendingRefs rz)] @ announce_group rw verbose items services @
                                 snd (waitForMulti launched (ga_wait ga)) @ [StopLease] @ stopGroupRunners launched) st)))))))"

text \<open>What follows the reservation of a group.\<close>

definition group_reserved ::
  "'c run_world \<Rightarrow> group_answers \<Rightarrow> 'c lifecycle_ops \<Rightarrow> bool \<Rightarrow> run_item list \<Rightarrow> string \<Rightarrow> reservation_result \<Rightarrow> ('c, unit) run_call" where
  "group_reserved rw ga lo verbose items runID rz st =
     (case group_body rw ga lo verbose items runID rz st of
        (result, pg, st) \<Rightarrow>
          (result, take_back (rw_clean rw) (case rc_lifecycle (rw_clean rw) of None \<Rightarrow> lo | Some clean \<Rightarrow> clean)
             '''' runID None (pg_activated pg) (PendingRefs rz) st))"

definition runPlannedGroup :: "'c run_world \<Rightarrow> group_answers \<Rightarrow> bool \<Rightarrow> run_item list \<Rightarrow> ('c, unit) run_call" where
  "runPlannedGroup rw ga verbose items st =
     (case rc_lifecycle (rw_run rw) of
        None \<Rightarrow> (Inl AtomicLifecycleUnsupported, st)
      | Some lo \<Rightarrow>
          (case check_service_keys [] items of
             Inl e \<Rightarrow> (Inl e, st)
           | Inr _ \<Rightarrow>
               bind_run (route_statuses rw (rc_admin (rw_run rw))) (\<lambda>statuses st.
               case rw_run_id rw of
                 None \<Rightarrow> (Inl RunIDFailed, st)
               | Some runID \<Rightarrow>
                   bind_run (group_candidates rw statuses 0 items) (\<lambda>candidates.
                   bind_run (attempt (lo_reserve lo \<lparr>rq_run_id = runID, rq_ttl = DefaultReservationTTL, rq_routes = candidates\<rparr>))
                     (group_reserved rw ga lo verbose items runID)) st) st))"

section \<open>No route is left behind\<close>

text \<open>A client whose calls keep a property of its state, whether they succeed or not.\<close>

definition keeps :: "('c \<Rightarrow> bool) \<Rightarrow> ('c, 'a) client_call \<Rightarrow> bool" where
  "keeps ok f \<longleftrightarrow> (\<forall>c. ok c \<longrightarrow> ok (snd (f c)))"

definition probe_keeps :: "('c \<Rightarrow> bool) \<Rightarrow> 'c admin_ops \<Rightarrow> bool" where
  "probe_keeps ok ops \<longleftrightarrow> (case ao_probe ops of None \<Rightarrow> True | Some probe \<Rightarrow> \<forall>target. keeps ok (probe target))"

definition client_keeps :: "('c \<Rightarrow> bool) \<Rightarrow> string \<Rightarrow> 'c run_client \<Rightarrow> 'c lifecycle_ops \<Rightarrow> bool" where
  "client_keeps ok runID client lo \<longleftrightarrow>
     probe_keeps ok (rc_admin client) \<and>
     (case rc_lan client of None \<Rightarrow> True | Some (create, delete) \<Rightarrow> \<forall>ref. keeps ok (create ref) \<and> keeps ok (delete ref)) \<and>
     (\<forall>refs. keeps ok (lo_activate lo runID refs))"

text \<open>Releasing the routes of a run: once it succeeds, none of the references is in the table.\<close>

definition releases :: "('c \<Rightarrow> bool) \<Rightarrow> ('c \<Rightarrow> route list) \<Rightarrow> string \<Rightarrow> 'c lifecycle_ops \<Rightarrow> bool" where
  "releases ok table runID lo \<longleftrightarrow>
     (\<forall>refs c. ok c \<longrightarrow> ok (snd (lo_release lo runID refs c)) \<and>
       (case fst (lo_release lo runID refs c) of
          Inl _ \<Rightarrow> True
        | Inr _ \<Rightarrow> set refs \<inter> Ref ` set (table (snd (lo_release lo runID refs c))) = {}))"

definition good_state :: "('c \<Rightarrow> bool) \<Rightarrow> 'c run_state \<Rightarrow> bool" where
  "good_state ok st \<longleftrightarrow> ok (fst st)"

lemma good_emit [simp]: "good_state ok (emit es st) = good_state ok st"
  by (cases st) (simp add: good_state_def emit_def)

lemma call_keeps: "keeps ok f \<Longrightarrow> good_state ok st \<Longrightarrow> call_client f st = (r, st') \<Longrightarrow> good_state ok st'"
  by (cases st) (force simp: call_client_def good_state_def keeps_def split: prod.splits)

lemma attempt_keeps:
  assumes "keeps ok f" "good_state ok st" "attempt f st = (r, st')"
  shows "good_state ok st'"
proof -
  obtain q st1 where q: "call_client f st = (q, st1)" by (rule prod.exhaust)
  with call_keeps [OF assms(1,2) q] assms(3) show ?thesis by (simp add: attempt_def)
qed

lemma wait_keeps:
  "keeps ok (probe target) \<Longrightarrow> good_state ok st \<Longrightarrow> waitForWSLTarget probe target rounds st = (r, st') \<Longrightarrow> good_state ok st'"
proof (induction probe target rounds st rule: waitForWSLTarget.induct)
  case (2 probe target cancelled rounds st)
  obtain a st1 where a: "attempt (probe target) st = (a, st1)" by (rule prod.exhaust)
  have g: "good_state ok st1" using attempt_keeps [OF "2.prems"(1,2) a] .
  from "2.prems" a g "2.IH" [OF a [symmetric]] show ?case
    by (auto split: sum.splits bool.splits if_splits)
qed (auto intro: attempt_keeps)

lemma verify_keeps:
  assumes "probe_keeps ok ops" "good_state ok st" "verifyPlannedTarget ops target retry rounds st = (r, st')"
  shows "good_state ok st'"
proof (cases "ao_probe ops")
  case (Some probe)
  with assms(1) have k: "keeps ok (probe target)" by (simp add: probe_keeps_def)
  let ?wait = "(if retry then waitForWSLTarget probe target rounds else attempt (probe target)) st"
  obtain b st1 where b: "?wait = (b, st1)" by (rule prod.exhaust)
  then have "good_state ok st1"
    using attempt_keeps [OF k assms(2)] wait_keeps [where probe = probe and target = target, OF k assms(2)] by (cases retry) auto
  moreover have "st' = st1" using assms(3) Some b by (auto simp: verifyPlannedTarget_def bind_run_def split: sum.splits)
  ultimately show ?thesis by simp
qed (use assms in \<open>simp add: verifyPlannedTarget_def\<close>)

lemma client_probe: "client_keeps ok runID client lo \<Longrightarrow> probe_keeps ok (rc_admin client)"
  by (simp add: client_keeps_def)

lemma share_keeps:
  assumes "client_keeps ok runID client lo" "good_state ok st" "createLANShare rw client cmd ref st = (r, st')"
  shows "good_state ok st'"
proof (cases "cmd_share_mode cmd = ''lan''")
  case True
  show ?thesis
  proof (cases "rc_lan client")
    case (Some lan)
    obtain create delete where lan: "lan = (create, delete)" by (cases lan)
    obtain q st1 where q: "call_client (create ref) st = (q, st1)" by (rule prod.exhaust)
    have "keeps ok (create ref)" using assms(1) Some lan by (simp add: client_keeps_def)
    from call_keeps [OF this assms(2) q] have "good_state ok st1" .
    moreover have "st' = st1" using assms(3) True Some lan q by (auto simp: createLANShare_def split: sum.splits)
    ultimately show ?thesis by simp
  qed (use assms True in \<open>simp add: createLANShare_def\<close>)
qed (use assms in \<open>auto simp: createLANShare_def split: if_splits\<close>)

lemma unshare_keeps:
  assumes "client_keeps ok runID client lo" "good_state ok st" "deleteLANShare client ref st = (errs, st')"
  shows "good_state ok st'"
proof (cases "rc_lan client")
  case (Some lan)
  obtain create delete where lan: "lan = (create, delete)" by (cases lan)
  obtain q st1 where q: "call_client (delete ref) st = (q, st1)" by (rule prod.exhaust)
  have "keeps ok (delete ref)" using assms(1) Some lan by (simp add: client_keeps_def)
  from call_keeps [OF this assms(2) q] have "good_state ok st1" .
  moreover have "st' = st1" using assms(3) Some lan q by (auto simp: deleteLANShare_def split: sum.splits)
  ultimately show ?thesis by simp
qed (use assms in \<open>simp add: deleteLANShare_def\<close>)

lemma go_live_keeps:
  assumes "client_keeps ok runID (rw_run rw) lo" "good_state ok st"
    and "go_live rw lo cmd plan service runID refs live st = (r, pg, st')"
  shows "good_state ok st'"
proof -
  obtain v st1 where v: "verifyPlannedTarget (rc_admin (rw_run rw)) (rt_target (sv_route service)) (wsl_plan plan) (rw_rounds rw 1) st = (v, st1)"
    by (rule prod.exhaust)
  have g1: "good_state ok st1" by (rule verify_keeps [OF client_probe [OF assms(1)] assms(2) v])
  obtain a st2 where a: "attempt (lo_activate lo runID refs) st1 = (a, st2)" by (rule prod.exhaust)
  have "keeps ok (lo_activate lo runID refs)" using assms(1) by (simp add: client_keeps_def)
  from attempt_keeps [OF this g1 a] have g2: "good_state ok (emit [StartLease refs] st2)" by simp
  obtain s st3 where s: "createLANShare rw (rw_run rw) cmd (Ref (sv_route service)) (emit [StartLease refs] st2) = (s, st3)" by (rule prod.exhaust)
  have g3: "good_state ok st3" by (rule share_keeps [OF assms(1) g2 s])
  show ?thesis
    using assms(3) v a s g1 g2 g3 by (auto simp: go_live_def split: sum.splits)
qed

lemma body_keeps:
  assumes "client_keeps ok runID (rw_run rw) lo" "good_state ok st"
  shows "run_reused rw cmd plan service st = (r, pg, st') \<Longrightarrow> good_state ok st'"
    and "run_static rw lo cmd plan service runID refs st = (r, pg, st') \<Longrightarrow> good_state ok st'"
    and "run_program rw lo cmd plan service runID refs st = (r, pg, st') \<Longrightarrow> good_state ok st'"
proof -
  obtain v st1 where v: "verifyPlannedTarget (rc_admin (rw_run rw)) (rt_target (sv_route service)) (wsl_plan plan) (rw_rounds rw 1) st = (v, st1)"
    by (rule prod.exhaust)
  have g1: "good_state ok st1" by (rule verify_keeps [OF client_probe [OF assms(1)] assms(2) v])
  obtain s st2 where s: "createLANShare rw (rw_run rw) cmd (Ref (sv_route service)) st1 = (s, st2)" by (rule prod.exhaust)
  have g2: "good_state ok st2" by (rule share_keeps [OF assms(1) g1 s])
  obtain u st3 where u: "deleteLANShare (rw_run rw) (Ref (sv_route service)) st1 = (u, st3)" by (rule prod.exhaust)
  have g3: "good_state ok st3" by (rule unshare_keeps [OF assms(1) g1 u])
  show "run_reused rw cmd plan service st = (r, pg, st') \<Longrightarrow> good_state ok st'"
    using v s u g1 g2 g3 by (auto simp: run_reused_def split: sum.splits if_splits)
  have live: "good_state ok st2" if "go_live rw lo cmd plan service runID refs l (emit es st) = (q, p, st2)" for l es q p st2
    using go_live_keeps [OF assms(1) _ that] assms(2) by simp
  show "run_static rw lo cmd plan service runID refs st = (r, pg, st') \<Longrightarrow> good_state ok st'"
    using live assms(2) by (auto simp: run_static_def split: option.splits prod.splits if_splits)
  show "run_program rw lo cmd plan service runID refs st = (r, pg, st') \<Longrightarrow> good_state ok st'"
    using live assms(2) by (auto simp: run_program_def split: sum.splits prod.splits if_splits)
qed

lemma go_on_probing:
  assumes "probe_keeps ok (rc_admin (rw_run rw))" "good_state ok st" "probe_all rw target is failed st = (r, st')"
  shows "good_state ok st'"
  using assms(2,3)
proof (induction "is" arbitrary: failed st)
  case (Cons i "is")
  obtain v st1 where v: "verifyPlannedTarget (rc_admin (rw_run rw)) (fst (target i)) (snd (target i)) (rw_rounds rw (2 * i + 1)) st = (v, st1)"
    by (rule prod.exhaust)
  have "good_state ok st1" by (rule verify_keeps [OF assms(1) Cons.prems(1) v])
  with Cons.prems(2) v Cons.IH show ?case by (cases v) auto
qed simp

lemma group_body_keeps:
  assumes "client_keeps ok runID (rw_run rw) lo" "good_state ok st"
    and "group_body rw ga lo verbose items runID rz st = (r, pg, st')"
  shows "good_state ok st'"
proof (cases "length (rz_routes rz) \<noteq> length items")
  case False
  note here = assms(3) [unfolded group_body_def if_not_P [OF False]]
  show ?thesis
  proof (cases "group_services items (rz_routes rz)")
    case (Inl e)
    with here assms(2) show ?thesis by simp
  next
    case (Inr services)
    note here = here [unfolded Inr sum.case]
    obtain x launched where l: "launch_programs ga [] (filter (\<lambda>i. \<not> sv_reused (services ! i)) [0..<length items]) = (x, launched)"
      by (rule prod.exhaust)
    show ?thesis
    proof (cases x)
      case (Inl e)
      with here l assms(2) show ?thesis by auto
    next
      case (Inr begun)
      obtain failed es where a: "await_started items begun None (take (length begun) (ga_started ga)) = (failed, es)" by (rule prod.exhaust)
      note here = here [unfolded l prod.case Inr sum.case a]
      show ?thesis
      proof (cases failed)
        case (Some e)
        with here assms(2) show ?thesis by auto
      next
        case None
        let ?target = "\<lambda>i. (rt_target (sv_route (services ! i)), wsl_plan (snd (items ! i)))"
        obtain q st1 where p: "probe_all rw ?target (ga_probes ga) None (emit (map StartProgram begun @ es) st) = (q, st1)" by (rule prod.exhaust)
        have g1: "good_state ok st1"
          by (rule go_on_probing [OF client_probe [OF assms(1)] _ p]) (use assms(2) in simp)
        note here = here [unfolded None option.case p prod.case]
        obtain act st2 where act: "attempt (lo_activate lo runID (PendingRefs rz)) st1 = (act, st2)" by (rule prod.exhaust)
        have "keeps ok (lo_activate lo runID (PendingRefs rz))" using assms(1) by (simp add: client_keeps_def)
        from attempt_keeps [OF this g1 act] have g2: "good_state ok st2" .
        show ?thesis
          using here act g1 g2 by (auto split: option.splits if_splits sum.splits)
      qed
    qed
  qed
qed (use assms in \<open>auto simp: group_body_def\<close>)

text \<open>What the user can see: a failed clean-up is reported.\<close>

definition reported :: "'c run_state \<Rightarrow> bool" where
  "reported st \<longleftrightarrow> list_ex (\<lambda>e. case e of CleanupFailed _ _ \<Rightarrow> True | _ \<Rightarrow> False) (snd st)"

definition nothing_left :: "('c \<Rightarrow> route list) \<Rightarrow> route_ref list \<Rightarrow> 'c run_state \<Rightarrow> bool" where
  "nothing_left table refs st \<longleftrightarrow> set refs \<inter> Ref ` set (table (fst st)) = {}"

text \<open>A state that is well formed and whose table has no reference outside a set.\<close>

definition within :: "('c \<Rightarrow> bool) \<Rightarrow> ('c \<Rightarrow> route list) \<Rightarrow> route_ref set \<Rightarrow> 'c \<Rightarrow> bool" where
  "within holds table S c \<longleftrightarrow> holds c \<and> Ref ` set (table c) \<subseteq> S"

text \<open>The end of a run: every route is one that was there before, or the user is told.\<close>

definition run_over :: "('c \<Rightarrow> route list) \<Rightarrow> route_ref set \<Rightarrow> (run_fault, unit) result \<Rightarrow> 'c run_state \<Rightarrow> bool" where
  "run_over table before r st \<longleftrightarrow>
     Ref ` set (table (fst st)) \<subseteq> before \<or> reported st \<or> (case r of Inl (RollbackFault _ _) \<Rightarrow> True | _ \<Rightarrow> False)"

lemma run_over_released:
  "good_state (within holds table (S \<union> set refs)) st \<Longrightarrow> nothing_left table refs st \<Longrightarrow> run_over table S r st"
  by (auto simp: run_over_def good_state_def within_def nothing_left_def)

text \<open>
  The router as a run needs it, once through the client of the run and once through the client of the clean-up, which act
  on the same table: the contract of the route commands for both, a reservation that adds pending routes only and names
  each of them, and calls that add no route. \<open>ready\<close> is what must hold before a reservation.
\<close>

locale run_table =
  run: admin_table "rc_admin run" inv tbl run_delete good + clean: admin_table "rc_admin clean" inv tbl clean_delete good
  for run clean :: "'c run_client" and inv :: "'c \<Rightarrow> bool" and tbl :: "'c \<Rightarrow> route list"
    and run_delete clean_delete :: "route_ref \<Rightarrow> ('c, unit) client_call" and good :: "route_ref \<Rightarrow> bool" +
  fixes runlo cleanlo :: "'c lifecycle_ops" and ready :: "'c \<Rightarrow> bool" and good_run :: "string \<Rightarrow> bool"
  assumes lifecycle_ops: "rc_lifecycle run = Some runlo" "rc_lifecycle clean = Some cleanlo"
    and same_delete: "lo_delete_ref cleanlo = clean_delete"
    and ready_inv: "ready c \<Longrightarrow> inv c"
    and ready_kept: "ready c \<Longrightarrow> inv c' \<Longrightarrow> tbl c' = tbl c \<Longrightarrow> ready c'"
    and reserved: "ready c \<Longrightarrow> good_run (rq_run_id request) \<Longrightarrow> lo_reserve runlo request c = (x, c') \<Longrightarrow>
      (case x of
         Inl _ \<Rightarrow> within inv tbl (Ref ` set (tbl c)) c'
       | Inr rz \<Rightarrow> length (rz_routes rz) = length (rq_routes request) \<and> list_all good (PendingRefs rz) \<and>
           within inv tbl (Ref ` set (tbl c) \<union> set (PendingRefs rz)) c')"
    and released: "good_run runID \<Longrightarrow> releases (within inv tbl S) tbl runID runlo \<and> releases (within inv tbl S) tbl runID cleanlo"
    and client_ok: "good_run runID \<Longrightarrow> client_keeps (within inv tbl S) runID run runlo \<and> client_keeps (within inv tbl S) runID clean cleanlo"
begin

lemma delete_refs_ok:
  "inv (fst st) \<Longrightarrow> list_all good refs \<Longrightarrow> deleteRouteRefs cleanlo refs st = (errs, st') \<Longrightarrow>
   inv (fst st') \<and> snd st' = snd st \<and> Ref ` set (tbl (fst st')) \<subseteq> Ref ` set (tbl (fst st)) \<and>
   (errs = [] \<longrightarrow> set refs \<inter> Ref ` set (tbl (fst st')) = {})"
proof (induction refs arbitrary: st errs st')
  case (Cons ref refs)
  obtain c es where st: "st = (c, es)" by (rule prod.exhaust)
  obtain d c1 where d: "clean_delete ref c = (d, c1)" by (rule prod.exhaust)
  obtain errs1 st1 where rest: "deleteRouteRefs cleanlo refs (c1, es) = (errs1, st1)" by (rule prod.exhaust)
  have one: "inv c1 \<and> Ref ` set (tbl c1) \<subseteq> Ref ` set (tbl c) \<and>
      (case d of Inr _ \<Rightarrow> ref \<notin> Ref ` set (tbl c1) | Inl e \<Rightarrow> routeRefMismatch e \<longrightarrow> ref \<notin> Ref ` set (tbl c1))"
    using clean.deleted [OF _ _ d] Cons.prems(1,2) st by (auto split: sum.splits)
  have "errs = (case d of Inl e \<Rightarrow> if routeRefMismatch e then errs1 else e # errs1 | Inr _ \<Rightarrow> errs1)" "st' = st1"
    using Cons.prems(3) st d rest by (auto simp: call_client_def same_delete)
  with one Cons.IH [OF _ _ rest] Cons.prems(2) st show ?case by (auto split: sum.splits if_splits)
qed simp

lemma release_ok:
  assumes "releases (within inv tbl S) tbl runID lo" "good_state (within inv tbl S) st" "releaseRoutes lo runID refs st = (errs, st')"
  shows "good_state (within inv tbl S) st' \<and> snd st' = snd st \<and> (errs = [] \<longrightarrow> nothing_left tbl refs st')"
proof -
  obtain c es where c: "st = (c, es)" by (rule prod.exhaust)
  with assms(2) have "within inv tbl S c" by (simp add: good_state_def)
  with assms(1) have "within inv tbl S (snd (lo_release lo runID refs c)) \<and>
      (case fst (lo_release lo runID refs c) of
         Inl _ \<Rightarrow> True
       | Inr _ \<Rightarrow> set refs \<inter> Ref ` set (tbl (snd (lo_release lo runID refs c))) = {})"
    by (simp add: releases_def)
  with assms(3) c show ?thesis
    by (auto simp: releaseRoutes_def call_client_def nothing_left_def good_state_def split: prod.splits sum.splits)
qed

lemma take_back_ok:
  assumes "good_run runID" "good_state (within inv tbl (S \<union> set refs)) st" "list_all good refs"
  shows "run_over tbl S r (take_back clean cleanlo host runID shared activated refs st)"
proof (cases "refs = []")
  case True
  with assms(2) show ?thesis by (simp add: take_back_def run_over_def good_state_def within_def)
next
  case False
  let ?ok = "within inv tbl (S \<union> set refs)"
  obtain us st1 where u: "(case shared of None \<Rightarrow> ([], st) | Some ref \<Rightarrow> deleteLANShare clean ref st) = (us, st1)"
    by (rule prod.exhaust)
  have g1: "good_state ?ok st1"
    using u assms(2) unshare_keeps [OF conjunct2 [OF client_ok [OF assms(1)]] assms(2)] by (cases shared) auto
  obtain errs st2 where d: "(if activated then deleteRouteRefs cleanlo refs st1 else releaseRoutes cleanlo runID refs st1) = (errs, st2)"
    by (rule prod.exhaust)
  have gone: "good_state ?ok st2 \<and> (errs = [] \<longrightarrow> nothing_left tbl refs st2)"
  proof (cases activated)
    case True
    from g1 have i1: "inv (fst st1)" "Ref ` set (tbl (fst st1)) \<subseteq> S \<union> set refs" by (simp_all add: good_state_def within_def)
    from d True have "deleteRouteRefs cleanlo refs st1 = (errs, st2)" by simp
    note ok = delete_refs_ok [OF i1(1) assms(3) this]
    from ok i1(2) have "Ref ` set (tbl (fst st2)) \<subseteq> S \<union> set refs" by (meson subset_trans)
    with ok show ?thesis by (simp add: nothing_left_def good_state_def within_def)
  next
    case False
    with d release_ok [OF conjunct2 [OF released [OF assms(1)]] g1] show ?thesis by auto
  qed
  have "take_back clean cleanlo host runID shared activated refs st =
      (if us @ errs \<noteq> [] then emit [CleanupFailed host (us @ errs)] st2 else st2)"
    unfolding take_back_def u prod.case d using False by simp
  with gone run_over_released [of inv tbl S refs st2] show ?thesis
    by (cases st2) (auto simp: run_over_def reported_def emit_def)
qed

lemma roll_back_ok:
  assumes "good_run runID" "good_state (within inv tbl (S \<union> set refs)) st" "releaseReservationError runlo runID refs e st = (e', st')"
  shows "run_over tbl S (Inl e') st'"
proof (cases "refs = []")
  case True
  with assms(2,3) show ?thesis by (auto simp: releaseReservationError_def run_over_def good_state_def within_def)
next
  case False
  obtain errs st1 where r: "releaseRoutes runlo runID refs st = (errs, st1)" by (rule prod.exhaust)
  note ok = release_ok [OF conjunct1 [OF released [OF assms(1)]] assms(2) r]
  show ?thesis
  proof (cases errs)
    case Nil
    with False r assms(3) have "st' = st1" by (simp add: releaseReservationError_def)
    with ok Nil run_over_released show ?thesis by blast
  next
    case (Cons f fs)
    with False r assms(3) have "e' = RollbackFault e f" by (simp add: releaseReservationError_def)
    then show ?thesis by (simp add: run_over_def)
  qed
qed

end

context run_table
begin

lemma run_reserved_ok:
  assumes "rw_run rw = run" "rw_clean rw = clean" "good_run runID" "list_all good (PendingRefs rz)" "length (rz_routes rz) = 1"
    and "good_state (within inv tbl (S \<union> set (PendingRefs rz))) st" "run_reserved rw runlo cmd plan runID rz st = (r, st')"
  shows "run_over tbl S r st'"
proof -
  obtain reserved where routes: "rz_routes rz = [reserved]" using assms(5) by (auto simp: length_Suc_conv)
  note here = assms(7) [unfolded run_reserved_def routes list.case]
  show ?thesis
  proof (cases "resolvedRoute (rr_route reserved)")
    case (Inl e)
    obtain e' st1 where b: "releaseReservationError runlo runID (PendingRefs rz) e st = (e', st1)" by (rule prod.exhaust)
    with Inl here have "r = Inl e'" "st' = st1" by simp_all
    with roll_back_ok [OF assms(3,6) b] show ?thesis by simp
  next
    case (Inr x)
    let ?service = "resolved_service_of plan x (serviceDiscoveryEnvKey (pl_name plan)) (rr_reused reserved)"
    let ?plan = "plan\<lparr>pl_env := resolveServiceEnvironment (rw_net rw) (pl_env plan) ?service [?service]\<rparr>"
    obtain q pg st1 where body: "(if rr_reused reserved then run_reused rw cmd plan ?service st
        else if pl_static plan then run_static rw runlo cmd plan ?service runID (PendingRefs rz) st
        else run_program rw runlo cmd ?plan ?service runID (PendingRefs rz) st) = (q, pg, st1)" by (metis prod.exhaust)
    note kept = body_keeps [OF conjunct1 [OF client_ok [OF assms(3)], folded assms(1)] assms(6)]
    have g: "good_state (within inv tbl (S \<union> set (PendingRefs rz))) st1" using body kept by (auto split: if_splits)
    have "st' = take_back clean cleanlo (rt_host x) runID (pg_shared pg) (pg_activated pg) (PendingRefs rz) st1"
      using here unfolding Inr sum.case Let_def body prod.case assms(2) by (simp add: lifecycle_ops)
    with take_back_ok [OF assms(3) g assms(4)] show ?thesis by simp
  qed
qed

lemma group_reserved_ok:
  assumes "rw_run rw = run" "rw_clean rw = clean" "good_run runID" "list_all good (PendingRefs rz)"
    and "good_state (within inv tbl (S \<union> set (PendingRefs rz))) st" "group_reserved rw ga runlo verbose items runID rz st = (r, st')"
  shows "run_over tbl S r st'"
proof -
  obtain q pg st1 where body: "group_body rw ga runlo verbose items runID rz st = (q, pg, st1)" by (metis prod.exhaust)
  have g: "good_state (within inv tbl (S \<union> set (PendingRefs rz))) st1"
    by (rule group_body_keeps [OF conjunct1 [OF client_ok [OF assms(3)], folded assms(1)] assms(5) body])
  have "st' = take_back clean cleanlo '''' runID None (pg_activated pg) (PendingRefs rz) st1"
    using assms(6) by (simp add: group_reserved_def body assms(2) lifecycle_ops)
  with take_back_ok [OF assms(3) g assms(4)] show ?thesis by simp
qed

text \<open>What comes before the reservation leaves the table alone.\<close>

definition waiting :: "route list \<Rightarrow> 'c \<Rightarrow> bool" where
  "waiting T c \<longleftrightarrow> ready c \<and> tbl c = T"

lemma waiting_over: "good_state (waiting T) st \<Longrightarrow> run_over tbl (Ref ` set T) r st"
  by (simp add: good_state_def waiting_def run_over_def)

lemma waiting_probe: "probe_keeps (waiting T) (rc_admin run)"
proof (cases "ao_probe (rc_admin run)")
  case (Some probe)
  have "waiting T (snd (probe target c))" if "waiting T c" for target c
    using run.probe_ok [OF ready_inv Some, of c target "fst (probe target c)" "snd (probe target c)"] that ready_kept
    by (auto simp: waiting_def)
  with Some show ?thesis by (simp add: probe_keeps_def keeps_def)
qed (simp add: probe_keeps_def)

lemma waiting_statuses:
  assumes "good_state (waiting T) st" "route_statuses rw (rc_admin run) st = (x, st')"
  shows "good_state (waiting T) st'"
proof -
  obtain c es where st: "st = (c, es)" by (rule prod.exhaust)
  with assms(1) have c: "ready c" "tbl c = T" by (simp_all add: good_state_def waiting_def)
  from run.statuses_of_table [OF ready_inv [OF c(1)], of "rw_commands rw"]
  have "waiting T (snd (adminRouteStatuses (rc_admin run) (rw_commands rw) c))"
    using c ready_kept by (simp add: run.statuses_kept_def waiting_def)
  with assms(2) st show ?thesis by (auto simp: route_statuses_def good_state_def split: prod.splits sum.splits)
qed

lemma waiting_reusable:
  assumes "good_state (waiting T) st" "plannedReusableRoute rw (rc_admin run) plan st = (x, st')"
  shows "good_state (waiting T) st'"
proof -
  obtain q st1 where q: "route_statuses rw (rc_admin run) st = (q, st1)" by (rule prod.exhaust)
  have g: "good_state (waiting T) st1" by (rule waiting_statuses [OF assms(1) q])
  show ?thesis
  proof (cases q)
    case (Inr statuses)
    note here = assms(2) [unfolded plannedReusableRoute_def bind_run_def q prod.case Inr sum.case]
    have "good_state (waiting T) st2" if "verifyPlannedTarget (rc_admin run) target retry rounds st1 = (v, st2)" for target retry rounds v st2
      by (rule verify_keeps [OF waiting_probe g that])
    with here g show ?thesis by (auto split: option.splits if_splits prod.splits sum.splits)
  qed (use assms(2) q g in \<open>simp add: plannedReusableRoute_def bind_run_def\<close>)
qed

lemma reserve_ok:
  assumes "good_state (waiting T) st" "good_run (rq_run_id request)" "call_client (lo_reserve runlo request) st = (x, st')"
  shows "case x of
      Inl _ \<Rightarrow> good_state (within inv tbl (Ref ` set T)) st'
    | Inr rz \<Rightarrow> length (rz_routes rz) = length (rq_routes request) \<and> list_all good (PendingRefs rz) \<and>
        good_state (within inv tbl (Ref ` set T \<union> set (PendingRefs rz))) st'"
proof -
  obtain c es where st: "st = (c, es)" by (rule prod.exhaust)
  obtain y c' where y: "lo_reserve runlo request c = (y, c')" by (rule prod.exhaust)
  from st assms(1) have c: "ready c" "tbl c = T" by (simp_all add: good_state_def waiting_def)
  have "x = y" "st' = (c', es)" using assms(3) st y by (simp_all add: call_client_def)
  with reserved [OF c(1) assms(2) y] c(2) show ?thesis by (cases y) (simp_all add: good_state_def)
qed

lemma single_ok:
  assumes "rw_run rw = run" "rw_clean rw = clean" "good_state (waiting T) st"
    and "case rw_run_id rw of None \<Rightarrow> True | Some runID \<Rightarrow> good_run runID"
    and "runPlannedSingle rw cmd plan st = (r, st')"
  shows "run_over tbl (Ref ` set T) r st'"
proof (cases "rw_run_id rw")
  case None
  with assms waiting_over show ?thesis by (simp add: runPlannedSingle_def lifecycle_ops)
next
  case (Some runID)
  obtain x st1 where x: "plannedReusableRoute rw (rc_admin run) plan st = (x, st1)" by (rule prod.exhaust)
  have g: "good_state (waiting T) st1" by (rule waiting_reusable [OF assms(3) x])
  note here = assms(5) [unfolded runPlannedSingle_def assms(1) lifecycle_ops option.case Some bind_run_def x prod.case Let_def]
  show ?thesis
  proof (cases x)
    case (Inr reusable)
    let ?request = "\<lparr>rq_run_id = runID, rq_ttl = DefaultReservationTTL,
      rq_routes = [routeReservationForPlan (co_pv (rw_commands rw)) cmd plan\<lparr>rs_reuse := map_option Ref reusable\<rparr>]\<rparr>"
    obtain y st2 where y: "call_client (lo_reserve runlo ?request) st1 = (y, st2)" by (rule prod.exhaust)
    have run: "good_run (rq_run_id ?request)" using assms(4) Some by simp
    note ok = reserve_ok [OF g run y]
    note here = here [unfolded Inr sum.case y prod.case]
    show ?thesis
    proof (cases y)
      case (Inl e)
      with here ok show ?thesis by (simp add: run_over_def good_state_def within_def)
    next
      case (Inr rz)
      note ok = ok [unfolded Inr sum.case]
      show ?thesis
        by (rule run_reserved_ok [OF assms(1,2) _ _ _ _ here [unfolded Inr sum.case]])
          (use ok run in simp_all)
    qed
  qed (use here g waiting_over in auto)
qed

lemma waiting_candidates:
  "good_state (waiting T) st \<Longrightarrow> rw_run rw = run \<Longrightarrow> group_candidates rw statuses i items st = (x, st') \<Longrightarrow> good_state (waiting T) st'"
proof (induction items arbitrary: i st x st')
  case (Cons it items)
  obtain y st1 where y: "group_candidate rw statuses i it st = (y, st1)" by (rule prod.exhaust)
  have probe: "good_state (waiting T) st2"
    if "verifyPlannedTarget (rc_admin run) target retry rounds st = (v, st2)" for target retry rounds v st2
    by (rule verify_keeps [OF waiting_probe Cons.prems(1) that])
  have g: "good_state (waiting T) st1"
    using y Cons.prems(1,2) probe
    by (cases it) (auto simp: group_candidate_def Let_def split: option.splits if_splits prod.splits sum.splits)
  obtain zs st2 where zs: "group_candidates rw statuses (Suc i) items st1 = (zs, st2)" by (rule prod.exhaust)
  have "good_state (waiting T) st2" by (rule Cons.IH [OF g Cons.prems(2) zs])
  with Cons.prems(3) y g zs show ?case by (cases y; cases zs) (auto simp: bind_run_def)
qed simp

lemma group_ok:
  assumes "rw_run rw = run" "rw_clean rw = clean" "good_state (waiting T) st"
    and "case rw_run_id rw of None \<Rightarrow> True | Some runID \<Rightarrow> good_run runID"
    and "runPlannedGroup rw ga verbose items st = (r, st')"
  shows "run_over tbl (Ref ` set T) r st'"
proof (cases "check_service_keys [] items")
  case (Inl e)
  with assms waiting_over show ?thesis by (simp add: runPlannedGroup_def lifecycle_ops)
next
  case keys: (Inr u)
  obtain x st1 where x: "route_statuses rw (rc_admin run) st = (x, st1)" by (rule prod.exhaust)
  have g: "good_state (waiting T) st1" by (rule waiting_statuses [OF assms(3) x])
  note here = assms(5) [unfolded runPlannedGroup_def assms(1) lifecycle_ops option.case keys sum.case bind_run_def x prod.case]
  show ?thesis
  proof (cases x)
    case (Inl e)
    with here g waiting_over show ?thesis by auto
  next
    case (Inr statuses)
    note here = here [unfolded Inr sum.case]
    show ?thesis
    proof (cases "rw_run_id rw")
      case None
      with here g waiting_over show ?thesis by auto
    next
      case (Some runID)
      obtain y st2 where y: "group_candidates rw statuses 0 items st1 = (y, st2)" by (rule prod.exhaust)
      have g2: "good_state (waiting T) st2" by (rule waiting_candidates [OF g assms(1) y])
      note here = here [unfolded Some option.case y prod.case]
      show ?thesis
      proof (cases y)
        case (Inl e)
        with here g2 waiting_over show ?thesis by auto
      next
        case (Inr candidates)
        let ?request = "\<lparr>rq_run_id = runID, rq_ttl = DefaultReservationTTL, rq_routes = candidates\<rparr>"
        obtain z st3 where z: "call_client (lo_reserve runlo ?request) st2 = (z, st3)" by (rule prod.exhaust)
        have run: "good_run (rq_run_id ?request)" using assms(4) Some by simp
        note ok = reserve_ok [OF g2 run z]
        note here = here [unfolded Inr sum.case attempt_def z prod.case]
        show ?thesis
        proof (cases z)
          case (Inl e)
          with here ok show ?thesis by (simp add: run_over_def good_state_def within_def as_fault_def)
        next
          case (Inr rz)
          note ok = ok [unfolded Inr sum.case]
          show ?thesis
            by (rule group_reserved_ok [OF assms(1,2) _ _ _ here [unfolded Inr as_fault_def sum.case]])
              (use ok run in simp_all)
        qed
      qed
    qed
  qed
qed

end

end
