(* ===== verification/Run_Api.thy ===== *)
theory Run_Api
  imports Run_Lifecycle
begin

text \<open>
  The runs over the router's administration interface. The client of a run and the client of its clean-up talk to the
  same router; any request of either may be refused before it reaches the router, or its answer may be lost, as it is
  when the context of the run is cancelled. However a run ends, its routes are gone or the user is told.
\<close>

section \<open>The client over the interface\<close>

definition api_lifecycle :: "admin_env \<Rightarrow> string \<Rightarrow> admin_state lifecycle_ops" where
  "api_lifecycle ae token = \<lparr>lo_reserve = client_ReserveRoutes ae token, lo_activate = client_ActivateRoutes ae token,
     lo_release = client_ReleaseRoutes ae token, lo_renew = client_RenewRoutes ae token,
     lo_delete_ref = client_DeleteRouteRef ae token\<rparr>"

text \<open>The fate of a request. \<open>Lost\<close> is carried out, unless it is one of the calls whose answer is taken as certain.\<close>

datatype link = Delivered | Refused client_error | Lost client_error

type_synonym linked = "admin_state \<times> link list"

fun over_link :: "bool \<Rightarrow> (admin_state, 'a) client_call \<Rightarrow> (linked, 'a) client_call" where
  "over_link certain f (c, []) = (case f c of (r, c) \<Rightarrow> (r, (c, [])))"
| "over_link certain f (c, Delivered # ls) = (case f c of (r, c) \<Rightarrow> (r, (c, ls)))"
| "over_link certain f (c, Refused e # ls) = (Inl e, (c, ls))"
| "over_link certain f (c, Lost e # ls) = (Inl e, (if certain then c else snd (f c), ls))"

definition linked_ops :: "admin_env \<Rightarrow> string \<Rightarrow> linked admin_ops" where
  "linked_ops ae token = \<lparr>ao_routes = over_link False (client_Routes ae token),
     ao_delete = (\<lambda>host. over_link False (client_DeleteRoute ae token host)),
     ao_statuses = Some (over_link False (client_RouteStatuses ae token)),
     ao_probe = Some (\<lambda>target. over_link False (client_ProbeTarget ae token target)),
     ao_delete_ref = Some (\<lambda>ref. over_link True (client_DeleteRouteRef ae token ref))\<rparr>"

definition linked_lifecycle :: "admin_env \<Rightarrow> string \<Rightarrow> linked lifecycle_ops" where
  "linked_lifecycle ae token = \<lparr>lo_reserve = (\<lambda>request. over_link True (lo_reserve (api_lifecycle ae token) request)),
     lo_activate = (\<lambda>runID refs. over_link False (lo_activate (api_lifecycle ae token) runID refs)),
     lo_release = (\<lambda>runID refs. over_link False (lo_release (api_lifecycle ae token) runID refs)),
     lo_renew = (\<lambda>runID refs. over_link False (lo_renew (api_lifecycle ae token) runID refs)),
     lo_delete_ref = (\<lambda>ref. over_link True (lo_delete_ref (api_lifecycle ae token) ref))\<rparr>"

definition linked_client :: "admin_env \<Rightarrow> string \<Rightarrow> linked run_client" where
  "linked_client ae token = \<lparr>rc_admin = linked_ops ae token, rc_lifecycle = Some (linked_lifecycle ae token),
     rc_lan = Some (\<lambda>ref. over_link False (client_CreateLANShare ae token ref), \<lambda>ref. over_link False (client_DeleteLANShare ae token ref))\<rparr>"

section \<open>The table behind it\<close>

definition readable_error :: "client_error \<Rightarrow> bool" where
  "readable_error e \<longleftrightarrow> \<not> routeRefMismatch e"

definition link_inv :: "admin_env \<Rightarrow> string \<Rightarrow> linked \<Rightarrow> bool" where
  "link_inv ae token = (\<lambda>(c, ls). api_inv ae token c \<and>
     list_all (\<lambda>l. case l of Delivered \<Rightarrow> True | Refused e \<Rightarrow> readable_error e | Lost e \<Rightarrow> readable_error e) ls)"

definition link_table :: "linked \<Rightarrow> route list" where
  "link_table = api_table \<circ> fst"

lemma link_table_pair [simp]: "link_table (c, ls) = api_table c"
  by (simp add: link_table_def)

lemma over_link_cases:
  assumes "over_link certain f (c, ls) = (r, c', ls')" "link_inv ae token (c, ls)"
  obtains "f c = (r, c')" "list_all (\<lambda>l. case l of Delivered \<Rightarrow> True | Refused e \<Rightarrow> readable_error e | Lost e \<Rightarrow> readable_error e) ls'"
  | e where "r = Inl e" "readable_error e" "c' = c \<or> \<not> certain \<and> c' = snd (f c)"
      "list_all (\<lambda>l. case l of Delivered \<Rightarrow> True | Refused e \<Rightarrow> readable_error e | Lost e \<Rightarrow> readable_error e) ls'"
  using assms by (cases "(certain, f, c, ls)" rule: over_link.cases) (auto simp: link_inv_def split: prod.splits if_splits)

text \<open>A call that keeps a property of the table and its invariant keeps it over the link.\<close>

lemma over_link_keeps:
  assumes "\<And>c. P (api_table c) \<Longrightarrow> api_inv ae token c \<Longrightarrow> api_inv ae token (snd (f c)) \<and> P (api_table (snd (f c)))"
  shows "keeps (\<lambda>s. link_inv ae token s \<and> P (link_table s)) (over_link certain f)"
  unfolding keeps_def
proof (intro allI impI)
  fix s assume s: "link_inv ae token s \<and> P (link_table s)"
  obtain c ls where c: "s = (c, ls)" by (rule prod.exhaust)
  obtain r c' ls' where o: "over_link certain f (c, ls) = (r, c', ls')" by (metis prod.exhaust)
  from s c have inv: "link_inv ae token (c, ls)" "api_inv ae token c" "P (api_table c)" by (simp_all add: link_inv_def link_table_def)
  have "api_inv ae token c' \<and> P (api_table c') \<and>
      list_all (\<lambda>l. case l of Delivered \<Rightarrow> True | Refused e \<Rightarrow> readable_error e | Lost e \<Rightarrow> readable_error e) ls'"
    by (rule over_link_cases [OF o inv(1)]) (use assms [OF inv(3,2)] inv in auto)
  then show "link_inv ae token (snd (over_link certain f s)) \<and> P (link_table (snd (over_link certain f s)))"
    by (simp add: c o link_inv_def link_table_def)
qed

text \<open>With the LAN manager off, the manager stays off.\<close>

lemma no_manager_handlers:
  assumes "ad_manager st = None"
  shows "ad_manager (snd (handleRouteReservations ae st r b)) = None" "ad_manager (snd (handleRouteReservation ae st r b)) = None"
    "ad_manager (snd (handleRouteRef ae st r)) = None" "snd (handleLANShare ae st r b) = st"
  using assms
  by (auto simp: handleRouteReservations_def handleRouteReservation_def handleRouteRef_def handleLANShare_def remove_share_def
      recover_refs_def Let_def split: sum.splits prod.splits option.splits list.splits)

lemma no_manager_handler: "ad_manager st = None \<Longrightarrow> ad_manager (snd (AdminHandler ae st r b)) = None"
  using no_manager_handlers [of st]
  by (simp add: AdminHandler_def Let_def on_store_def on_http_def case_prod_beta)

lemma no_manager_calls:
  assumes "ad_manager st = None"
  shows "ad_manager (snd (client_ReserveRoutes ae token request st)) = None"
    "ad_manager (snd (client_ActivateRoutes ae token runID refs st)) = None"
    "ad_manager (snd (client_ReleaseRoutes ae token runID refs st)) = None"
  using no_manager_handler [OF assms]
  by (simp_all add: client_ReserveRoutes_def client_ActivateRoutes_def client_ReleaseRoutes_def doRefsRequest_def doLifecycleRequest_def
      decoded_def no_value_def case_prod_beta)

lemma share_calls_kept:
  assumes "ad_manager st = None"
  shows "snd (client_CreateLANShare ae token ref st) = st" "snd (client_DeleteLANShare ae token ref st) = st"
proof -
  have path: "hr_path (client_request token verb ''/v2/lan-shares'') = ''/v2/lan-shares''" for verb
    by (rule client_path, rule path_unescape_plain) simp
  have "snd (AdminHandler ae st (client_request token verb ''/v2/lan-shares'') b) = st" for verb b
    using no_manager_handlers(4) [OF assms] path by (simp add: dispatch)
  then show "snd (client_CreateLANShare ae token ref st) = st" "snd (client_DeleteLANShare ae token ref st) = st"
    by (simp_all add: client_CreateLANShare_def client_DeleteLANShare_def expect_call_def decoded_def no_value_def case_prod_beta)
qed

text \<open>The invariant of the table speaks of the references alone.\<close>

definition good_ref :: "admin_env \<Rightarrow> route_ref \<Rightarrow> bool" where
  "good_ref ae ref \<longleftrightarrow> api_ref ref \<and> readable_error (delete_error ae ref ErrStore)"

lemma api_ref_identity: "api_ref (Ref r) \<Longrightarrow> has_identity r"
  by (auto simp: api_ref_def plain_segment_def has_identity_def Ref_def)

lemma api_inv_refs:
  "api_inv ae token c \<longleftrightarrow> token = ae_token ae \<and> token \<noteq> '''' \<and> ad_manager c = None \<and>
     (\<exists>T. file_load (ad_store c) = Inr T \<and> distinct (map Ref T) \<and> list_all (good_ref ae) (map Ref T))"
  using api_ref_identity
  by (auto simp: api_inv_def api_table_def good_ref_def readable_error_def list_all_iff split: sum.splits)

lemma api_inv_table: "api_inv ae token c \<Longrightarrow> file_load (ad_store c) = Inr (api_table c) \<and>
    distinct (map Ref (api_table c)) \<and> list_all (good_ref ae) (map Ref (api_table c))"
  by (auto simp: api_inv_refs api_table_def)

lemma api_inv_next:
  assumes "api_inv ae token c" "ad_manager c' = None" "file_load (ad_store c') = Inr T" "distinct (map Ref T)"
    "set (map Ref T) \<subseteq> Ref ` set (api_table c)"
  shows "api_inv ae token c' \<and> api_table c' = T"
proof -
  have "list_all (good_ref ae) (map Ref T)"
    using api_inv_table [OF assms(1)] assms(5) by (auto simp: list_all_iff)
  with assms show ?thesis by (auto simp: api_inv_refs api_table_def)
qed

lemma api_inv_same:
  assumes "api_inv ae token c" "ad_manager c' = None" "ad_store c' = ad_store c"
  shows "api_inv ae token c' \<and> api_table c' = api_table c"
  using assms by (auto simp: api_inv_refs api_table_def)

section \<open>The calls of a run on the table\<close>

lemma api_released:
  assumes "api_inv ae token c" "plain_segment runID" "client_ReleaseRoutes ae token runID refs c = (x, c')"
  shows "api_inv ae token c' \<and> set (map Ref (api_table c')) \<subseteq> Ref ` set (api_table c) \<and>
    (case x of Inl _ \<Rightarrow> True | Inr _ \<Rightarrow> set refs \<inter> Ref ` set (api_table c') = {})"
proof -
  from assms(1) have token: "ae_token ae = token" "token \<noteq> ''''" "ad_manager c = None" by (auto simp: api_inv_refs)
  have m: "ad_manager c' = None" using no_manager_calls(3) [OF token(3)] assms(3) by (metis snd_conv)
  obtain y s where op: "ReleaseRoutes file_update (ae_rng ae) (ad_store c) runID refs = (y, s)" by (rule prod.exhaust)
  have same: "isl x = isl y" "ad_store c' = s"
    using client_release [OF token(1,2) assms(2), of refs c] assms(3) op
    by (cases x; cases y; simp add: same_call_def)+
  note table = api_inv_table [OF assms(1)]
  show ?thesis
  proof (cases y)
    case (Inl e)
    with op filestore.Update_error_unchanged [of "ae_rng ae" "ad_store c" "\<lambda>_. release_update runID refs"]
    have "s = ad_store c" by (auto simp: ReleaseRoutes_def)
    with api_inv_same [OF assms(1) m] same Inl show ?thesis by (cases x) auto
  next
    case (Inr u)
    with op have u: "UpdateStore file_update (ae_rng ae) (ad_store c) (\<lambda>_. release_update runID refs) = (Inr u, s)"
      by (simp add: ReleaseRoutes_def)
    show ?thesis
    proof (rule filestore.ok_obtains [OF u])
      fix stored routes rng' "next"
      assume l: "file_load (ad_store c) = Inr stored" "withIdentities (ae_rng ae) stored = Inr (routes, rng')"
        and r: "release_update runID refs routes = Inr (next, u)" and s: "file_load s = Inr (sortRoutes next)"
      have ids: "list_all has_identity (api_table c)" using table api_ref_identity by (auto simp: list_all_iff good_ref_def)
      with l table withIdentities_id have routes: "routes = api_table c" by auto
      have T: "next = filter (\<lambda>r. rt_run_id r \<noteq> runID) (api_table c)" using release_update_ok r routes by auto
      have "distinct (map Ref (sortRoutes next))" using table T by (simp add: distinct_map_filter)
      moreover have "set (map Ref (sortRoutes next)) \<subseteq> Ref ` set (api_table c)" using T by auto
      ultimately have n: "api_inv ae token c' \<and> api_table c' = sortRoutes next"
        using api_inv_next [OF assms(1) m] s same(2) by simp
      from r obtain indexes where ix: "completeRunIndexes routes runID refs StateUnset 0 = Inr indexes"
        by (auto simp: release_update_def res_bind_Inr_iff)
      have "rt_run_id r = runID" if "Ref r \<in> set refs" "r \<in> set (api_table c)" for r
      proof -
        from that(1) completeRunIndexes_ok(3) [OF ix] obtain i where i: "i \<in> set indexes" "Ref (routes ! i) = Ref r" by auto
        with completeRunIndexes_ok(2) [OF ix] have "i < length routes" "rt_run_id (routes ! i) = runID" by (auto simp: of_run_def)
        moreover from this i that(2) table routes have "routes ! i = r" by (auto simp: distinct_map inj_on_def)
        ultimately show ?thesis by simp
      qed
      then have "set refs \<inter> Ref ` set (api_table c') = {}" using n T by auto
      with n T Inr same show ?thesis by (cases x) auto
    qed
  qed
qed

lemma api_activated:
  assumes "api_inv ae token c" "plain_segment runID" "client_ActivateRoutes ae token runID refs c = (x, c')"
  shows "api_inv ae token c' \<and> set (map Ref (api_table c')) = Ref ` set (api_table c)"
proof -
  from assms(1) have token: "ae_token ae = token" "token \<noteq> ''''" "ad_manager c = None" by (auto simp: api_inv_refs)
  have m: "ad_manager c' = None" using no_manager_calls(2) [OF token(3)] assms(3) by (metis snd_conv)
  obtain y s where op: "ActivateRoutes file_update (ae_rng ae) (ad_store c) runID refs (ae_now ae) DefaultRouteLeaseTTL = (y, s)"
    by (rule prod.exhaust)
  have same: "ad_store c' = s"
    using client_activate [OF token(1,2) assms(2), of refs c] assms(3) op by (simp add: same_call_def)
  have u: "UpdateStore file_update (ae_rng ae) (ad_store c) (\<lambda>_. activate_update runID refs (ae_now ae) DefaultRouteLeaseTTL) = (y, s)"
    using op by (simp add: ActivateRoutes_def DefaultRouteLeaseTTL_def)
  note table = api_inv_table [OF assms(1)]
  show ?thesis
  proof (cases y)
    case (Inl e)
    with u filestore.Update_error_unchanged [of "ae_rng ae" "ad_store c"] have "s = ad_store c" by (metis fst_conv snd_conv)
    with api_inv_same [OF assms(1) m] same show ?thesis by auto
  next
    case (Inr a)
    show ?thesis
    proof (rule filestore.ok_obtains [OF u [unfolded Inr]])
      fix stored routes rng' "next"
      assume l: "file_load (ad_store c) = Inr stored" "withIdentities (ae_rng ae) stored = Inr (routes, rng')"
        and r: "activate_update runID refs (ae_now ae) DefaultRouteLeaseTTL routes = Inr (next, a)" and s: "file_load s = Inr (sortRoutes next)"
      have ids: "list_all has_identity (api_table c)" using table api_ref_identity by (auto simp: list_all_iff good_ref_def)
      with l table withIdentities_id have routes: "routes = api_table c" by auto
      let ?go = "\<lambda>r. if of_run runID RouteStatePending r then activated_route (ae_now ae) DefaultRouteLeaseTTL r else r"
      have "Ref (activated_route now ttl r) = Ref r" for now ttl r by (simp add: activated_route_def Ref_def)
      then have go: "map Ref (map ?go T) = map Ref T" for T by simp
      have n: "sortRoutes next = sortRoutes (map ?go (api_table c))" using activate_update_ok(1) [OF r] routes by simp
      have d: "distinct (map Ref (sortRoutes next))" unfolding n distinct_map_sortRoutes go using table by simp
      have "set (map Ref (sortRoutes next)) = set (map Ref (map ?go (api_table c)))" unfolding n set_map set_sortRoutes by simp
      then have sub: "set (map Ref (sortRoutes next)) = Ref ` set (api_table c)" unfolding go by simp
      from api_inv_next [OF assms(1) m _ d] s same sub show ?thesis by auto
    qed
  qed
qed

text \<open>The identities the router will draw next: new, distinct, and none of them reads like a conflict in an error.\<close>

definition fresh_ids :: "admin_env \<Rightarrow> route list \<Rightarrow> bool" where
  "fresh_ids ae T \<longleftrightarrow> rng_ok (ae_rng ae) \<and> distinct (map hex_encode (ae_rng ae)) \<and>
     hex_encode ` set (ae_rng ae) \<inter> rt_id ` set T = {} \<and> distinct (map rt_id T) \<and>
     list_all (\<lambda>b. list_all (\<lambda>x. x < 256) b \<and> readable_error (delete_error ae \<lparr>ref_id = hex_encode b, ref_generation = 1\<rparr> ErrStore)) (ae_rng ae)"

lemma hex_plain:
  assumes "list_all (\<lambda>x. x < 256) b" "length b = 16"
  shows "plain_segment (hex_encode b)"
proof -
  have hex: "is_hex c" if "c \<in> set (hex_encode b)" for c
    using hex_encode_is_hex [OF _ that] assms(1) by (simp add: list_all_iff)
  have "\<not> is_hex CHR ''/''" "\<not> is_hex CHR ''%''" "\<not> is_hex CHR ''.''" by code_simp+
  with hex have "CHR ''/'' \<notin> set (hex_encode b)" "CHR ''%'' \<notin> set (hex_encode b)" "CHR ''.'' \<notin> set (hex_encode b)"
    by blast+
  moreover have "hex_encode b \<noteq> ''''"
  proof
    assume "hex_encode b = ''''"
    then have "length (hex_encode b) = 0" by (simp only: list.size)
    with assms(2) show False by (simp only: length_hex_encode)
  qed
  ultimately show ?thesis by (auto simp: plain_segment_def)
qed

lemma fresh_ref:
  assumes "fresh_ids ae T" "rt_id r \<in> hex_encode ` set (ae_rng ae)" "rt_generation r = 1"
  shows "good_ref ae (Ref r)"
proof -
  from assms(2) obtain b where b: "b \<in> set (ae_rng ae)" "rt_id r = hex_encode b" by auto
  with assms(1) have "length b = 16" "list_all (\<lambda>x. x < 256) b"
    "readable_error (delete_error ae \<lparr>ref_id = hex_encode b, ref_generation = 1\<rparr> ErrStore)"
    by (auto simp: fresh_ids_def rng_ok_def list_all_iff)
  with hex_plain [of b] b(2) assms(3) show ?thesis by (simp add: good_ref_def api_ref_def Ref_def)
qed

lemma api_reserved:
  assumes inv: "api_inv ae token c" and fresh: "fresh_ids ae (api_table c)"
    and call: "client_ReserveRoutes ae token request c = (x, c')"
  shows "api_inv ae token c' \<and>
    (case x of
       Inl _ \<Rightarrow> api_table c' = api_table c
     | Inr rz \<Rightarrow> length (rz_routes rz) = length (rq_routes request) \<and> list_all api_ref (PendingRefs rz) \<and>
         set (map Ref (api_table c')) \<subseteq> Ref ` set (api_table c) \<union> set (PendingRefs rz))"
proof -
  from inv have token: "ae_token ae = token" "token \<noteq> ''''" "ad_manager c = None" by (auto simp: api_inv_refs)
  have m: "ad_manager c' = None" using no_manager_calls(1) [OF token(3)] call by (metis snd_conv)
  let ?request = "request\<lparr>rq_ttl := DefaultReservationTTL\<rparr>"
  obtain y s where op: "ReserveRoutes file_update (ae_os ae) (he_net (ae_http ae)) (ae_rng ae) (ad_store c) ?request (ae_now ae) = (y, s)"
    by (rule prod.exhaust)
  have same: "(case (x, y) of (Inr a, Inr b) \<Rightarrow> a = b | (Inl _, Inl _) \<Rightarrow> True | _ \<Rightarrow> False)" "ad_store c' = s"
    using client_reserve [OF token(1,2), of request c] call op by (simp_all add: same_call_def)
  note table = api_inv_table [OF inv]
  show ?thesis
  proof (cases y)
    case (Inl e)
    with op reserve_file.reserve_error have "s = ad_store c" by blast
    with api_inv_same [OF inv m] same Inl show ?thesis by (cases x) auto
  next
    case (Inr rz)
    with same have x: "x = Inr rz" by (cases x) auto
    have ids: "list_all has_identity (api_table c)" using table api_ref_identity by (auto simp: list_all_iff good_ref_def)
    show ?thesis
    proof (rule reserve_file.reserve_obtains [OF op [unfolded Inr]])
      fix stored routes rng' "next"
      assume l: "file_load (ad_store c) = Inr stored" "withIdentities (ae_rng ae) stored = Inr (routes, rng')"
        and u: "reserve_update (ae_os ae) (he_net (ae_http ae)) ?request (ae_now ae) rng' routes = Inr (next, rz_routes rz)"
        and s: "file_load s = Inr (sortRoutes next)"
      from l table ids withIdentities_id have eq: "routes = api_table c" "rng' = ae_rng ae" by auto
      from u [unfolded eq] show ?thesis
      proof (rule reserve_update_ok)
        fix kept candidates reused
        assume k: "list_all2 same_but_share (removeExpiredRoutes (api_table c) (ae_now ae)) kept"
          and v: "res_map (validateReservation (he_net (ae_http ae))) (rq_routes ?request) = Inr candidates"
          and re: "list_all2 (Reservations.reusable (removeExpiredRoutes (api_table c) (ae_now ae))) candidates reused"
          and a: "allocate_routes (ae_os ae) ?request (ae_now ae) (ae_rng ae) (foldl occupy [] (map rt_host kept)) kept (zip candidates reused)
            = Inr (kept @ new_routes (rz_routes rz), rz_routes rz)"
          and n: "next = sortRoutes (kept @ new_routes (rz_routes rz))"
          and p: "list_all2 (pair_result ?request (ae_now ae)) (zip candidates reused) (rz_routes rz)"
        let ?new = "new_routes (rz_routes rz)"
        have len: "length (rz_routes rz) = length (rq_routes request)"
          using list_all2_lengthD [OF reserved_as_pairs [OF v re p]] by simp
        have new: "good_ref ae (Ref r)" if "r \<in> set ?new" for r
        proof (rule fresh_ref [OF fresh])
          show "rt_id r \<in> hex_encode ` set (ae_rng ae)" using allocate_ids [OF a] that by auto
          show "rt_generation r = 1" using new_route_fields [OF p that] by simp
        qed
        have kr: "set (map Ref kept) \<subseteq> Ref ` set (api_table c)"
        proof
          fix ref assume "ref \<in> set (map Ref kept)"
          then obtain r' where "r' \<in> set kept" "ref = Ref r'" by auto
          moreover from same_but_share_set [OF k this(1)] obtain r where "r \<in> set (removeExpiredRoutes (api_table c) (ae_now ae))"
            "same_but_share r r'" by blast
          ultimately show "ref \<in> Ref ` set (api_table c)" using same_but_share_fields [of r r'] by (auto simp: removeExpiredRoutes_def)
        qed
        have pr: "PendingRefs rz = map Ref ?new" by (rule PendingRefs_new [OF p])
        from fresh have f: "distinct (map rt_id (api_table c))" "rng_ok (ae_rng ae)" "distinct (map hex_encode (ae_rng ae))"
          "hex_encode ` set (ae_rng ae) \<inter> rt_id ` set (api_table c) = {}" by (simp_all add: fresh_ids_def)
        have "distinct (map rt_id (kept @ ?new))"
          using u [unfolded eq] ids f
        proof (rule reserved_table)
          fix kept'
          assume n': "next = sortRoutes (kept' @ ?new)" and d: "distinct (map rt_id (kept' @ ?new))"
          from n n' have "mset (map rt_id (kept @ ?new)) = mset (map rt_id (kept' @ ?new))" by (metis mset_map_sortRoutes)
          with d show ?thesis by (metis mset_eq_imp_distinct_iff)
        qed
        then have "distinct (map Ref (kept @ ?new))" by (rule distinct_ids_refs)
        then have d: "distinct (map Ref (sortRoutes next))" unfolding n by simp
        have sub: "set (map Ref (sortRoutes next)) \<subseteq> Ref ` set (api_table c) \<union> set (PendingRefs rz)"
          using kr unfolding n pr by auto
        have "list_all (good_ref ae) (map Ref (sortRoutes next))"
          using sub table new unfolding pr by (auto simp: list_all_iff)
        with d m s same(2) token have "api_inv ae token c' \<and> api_table c' = sortRoutes next"
          by (auto simp: api_inv_refs api_table_def)
        with x len sub new show ?thesis by (auto simp: pr list_all_iff good_ref_def)
      qed
    qed
  qed
qed

section \<open>The contract of a run, discharged\<close>

definition link_ready :: "admin_env \<Rightarrow> string \<Rightarrow> linked \<Rightarrow> bool" where
  "link_ready ae token s \<longleftrightarrow> link_inv ae token s \<and> fresh_ids ae (link_table s)"

abbreviation linked_delete :: "admin_env \<Rightarrow> string \<Rightarrow> route_ref \<Rightarrow> (linked, unit) client_call" where
  "linked_delete ae token \<equiv> (\<lambda>ref. over_link True (client_DeleteRouteRef ae token ref))"

text \<open>A call that reads: it leaves the router alone, and its answer is about the table.\<close>

lemma over_link_reads:
  assumes "link_inv ae token s" "over_link certain f s = (r, s')" "snd (f (fst s)) = fst s"
    and "case fst (f (fst s)) of Inl _ \<Rightarrow> True | Inr x \<Rightarrow> Q x"
  shows "link_inv ae token s' \<and> link_table s' = link_table s \<and> (case r of Inl _ \<Rightarrow> True | Inr x \<Rightarrow> Q x)"
proof -
  obtain c ls where c: "s = (c, ls)" by (rule prod.exhaust)
  obtain c' ls' where s': "s' = (c', ls')" by (rule prod.exhaust)
  show ?thesis
    by (rule over_link_cases [OF assms(2) [unfolded c s'] assms(1) [unfolded c]])
      (use assms c s' in \<open>auto simp: link_inv_def link_table_def\<close>)
qed

interpretation linked: admin_table "rc_admin (linked_client ae token)" "link_inv ae token" link_table "linked_delete ae token" api_ref
  for ae token
proof unfold_locales
  show "ao_delete_ref (rc_admin (linked_client ae token)) = Some (linked_delete ae token)" by (simp add: linked_client_def linked_ops_def)
next
  fix c c' :: linked
  assume inv: "link_inv ae token c"
  then have base: "api_inv ae token (fst c)" by (auto simp: link_inv_def)
  then show "list_all (\<lambda>r. has_identity r \<and> api_ref (Ref r)) (link_table c)"
    using api.identities by (simp add: link_table_def)
  show "ao_routes (rc_admin (linked_client ae token)) c = (r, c') \<Longrightarrow>
      link_inv ae token c' \<and> link_table c' = link_table c \<and> (case r of Inl _ \<Rightarrow> True | Inr routes \<Rightarrow> routes = link_table c)" for r
    by (rule over_link_reads [OF inv, where certain = False and f = "client_Routes ae token"])
      (use api_routes [of ae token "fst c" "fst (client_Routes ae token (fst c))" "snd (client_Routes ae token (fst c))"]
        in \<open>auto simp: linked_client_def linked_ops_def link_table_def split: sum.splits\<close>)
  show "ao_statuses (rc_admin (linked_client ae token)) = Some statuses \<Longrightarrow> statuses c = (r', c') \<Longrightarrow>
      link_inv ae token c' \<and> link_table c' = link_table c \<and> (case r' of Inl _ \<Rightarrow> True | Inr found \<Rightarrow> map fst found = link_table c)" for statuses r'
    by (rule over_link_reads [OF inv, where certain = False and f = "client_RouteStatuses ae token"])
      (use api_statuses [of ae token "fst c" "fst (client_RouteStatuses ae token (fst c))" "snd (client_RouteStatuses ae token (fst c))"]
        in \<open>auto simp: linked_client_def linked_ops_def link_table_def split: sum.splits\<close>)
  show "link_inv ae token c' \<and> link_table c' = link_table c"
    if "ao_probe (rc_admin (linked_client ae token)) = Some probe" "probe target c = (b, c')" for probe target b
    using over_link_reads [OF inv, of False "client_ProbeTarget ae token target" b c' "\<lambda>_. True"] that api_probe
    by (auto simp: linked_client_def linked_ops_def split: sum.splits)
  fix ref d
  assume ref: "api_ref ref" and d: "linked_delete ae token ref c = (d, c')"
  obtain a ls where c: "c = (a, ls)" by (rule prod.exhaust)
  obtain a' ls' where c': "c' = (a', ls')" by (rule prod.exhaust)
  show "link_inv ae token c' \<and>
      (case d of
         Inr _ \<Rightarrow> link_table c' = filter (\<lambda>r. Ref r \<noteq> ref) (link_table c)
       | Inl e \<Rightarrow> link_table c' = link_table c \<and> (routeRefMismatch e \<longrightarrow> ref \<notin> Ref ` set (link_table c)))"
  proof (rule over_link_cases [OF d [unfolded c c'] inv [unfolded c]])
    assume "client_DeleteRouteRef ae token ref a = (d, a')"
      and ls: "list_all (\<lambda>l. case l of Delivered \<Rightarrow> True | Refused e \<Rightarrow> readable_error e | Lost e \<Rightarrow> readable_error e) ls'"
    with api.deleted [OF _ ref this(1)] base c show ?thesis by (auto simp: c' link_inv_def link_table_def split: sum.splits)
  qed (use base in \<open>auto simp: c c' link_inv_def link_table_def readable_error_def\<close>)
qed

text \<open>A call that adds no route.\<close>

definition shrinks :: "admin_env \<Rightarrow> string \<Rightarrow> (admin_state, 'a) client_call \<Rightarrow> bool" where
  "shrinks ae token f \<longleftrightarrow>
     (\<forall>c. api_inv ae token c \<longrightarrow> api_inv ae token (snd (f c)) \<and> set (map Ref (api_table (snd (f c)))) \<subseteq> Ref ` set (api_table c))"

lemma over_link_within: "shrinks ae token f \<Longrightarrow> keeps (within (link_inv ae token) link_table S) (over_link certain f)"
  unfolding within_def [abs_def]
  by (rule over_link_keeps [where P = "\<lambda>T. Ref ` set T \<subseteq> S"]) (fastforce simp: shrinks_def)

lemma released_calls:
  assumes "plain_segment runID"
  shows "shrinks ae token (client_ReleaseRoutes ae token runID refs)" "shrinks ae token (client_ActivateRoutes ae token runID refs)"
    "shrinks ae token (client_ProbeTarget ae token target)" "shrinks ae token (client_CreateLANShare ae token ref)"
    "shrinks ae token (client_DeleteLANShare ae token ref)"
proof -
  show "shrinks ae token (client_ReleaseRoutes ae token runID refs)"
    unfolding shrinks_def using api_released [OF _ assms] by (metis prod.collapse)
  show "shrinks ae token (client_ActivateRoutes ae token runID refs)"
    unfolding shrinks_def using api_activated [OF _ assms] by (metis prod.collapse order_refl)
  show "shrinks ae token (client_ProbeTarget ae token target)" by (simp add: shrinks_def api_probe)
  show "shrinks ae token (client_CreateLANShare ae token ref)" "shrinks ae token (client_DeleteLANShare ae token ref)"
    using share_calls_kept by (auto simp: shrinks_def api_inv_refs)
qed

interpretation runs: run_table "linked_client ae token" "linked_client ae token" "link_inv ae token" link_table
    "linked_delete ae token" "linked_delete ae token" api_ref "linked_lifecycle ae token" "linked_lifecycle ae token"
    "link_ready ae token" plain_segment
  for ae token
proof unfold_locales
  show "rc_lifecycle (linked_client ae token) = Some (linked_lifecycle ae token)"
    "lo_delete_ref (linked_lifecycle ae token) = linked_delete ae token"
    by (simp_all add: linked_client_def linked_lifecycle_def api_lifecycle_def)
next
  fix c c' :: linked
  assume ready: "link_ready ae token c"
  then show inv: "link_inv ae token c" by (simp add: link_ready_def)
  show "link_inv ae token c' \<Longrightarrow> link_table c' = link_table c \<Longrightarrow> link_ready ae token c'"
    using ready by (simp add: link_ready_def)
  fix request x
  assume call: "lo_reserve (linked_lifecycle ae token) request c = (x, c')"
  obtain a ls where c: "c = (a, ls)" by (rule prod.exhaust)
  obtain a' ls' where c': "c' = (a', ls')" by (rule prod.exhaust)
  from call have o: "over_link True (client_ReserveRoutes ae token request) (a, ls) = (x, a', ls')"
    by (simp add: linked_lifecycle_def api_lifecycle_def c c')
  from inv ready c have base: "api_inv ae token a" "fresh_ids ae (api_table a)" by (auto simp: link_inv_def link_ready_def link_table_def)
  show "case x of
      Inl _ \<Rightarrow> within (link_inv ae token) link_table (Ref ` set (link_table c)) c'
    | Inr rz \<Rightarrow> length (rz_routes rz) = length (rq_routes request) \<and> list_all api_ref (PendingRefs rz) \<and>
        within (link_inv ae token) link_table (Ref ` set (link_table c) \<union> set (PendingRefs rz)) c'"
  proof (rule over_link_cases [OF o inv [unfolded c]])
    assume "client_ReserveRoutes ae token request a = (x, a')"
      and ls: "list_all (\<lambda>l. case l of Delivered \<Rightarrow> True | Refused e \<Rightarrow> readable_error e | Lost e \<Rightarrow> readable_error e) ls'"
    with api_reserved [OF base this(1)] show ?thesis
      by (auto simp: c c' link_inv_def link_table_def within_def split: sum.splits)
  qed (use base in \<open>auto simp: c c' link_inv_def link_table_def within_def\<close>)
next
  fix runID S
  assume run: "plain_segment runID"
  have one: "releases (within (link_inv ae token) link_table S) link_table runID (linked_lifecycle ae token)"
    unfolding releases_def
  proof (intro allI impI)
    fix refs c assume ok: "within (link_inv ae token) link_table S c"
    obtain a ls where c: "c = (a, ls)" by (rule prod.exhaust)
    obtain x a' ls' where o: "over_link False (client_ReleaseRoutes ae token runID refs) (a, ls) = (x, a', ls')" by (metis prod.exhaust)
    have op: "lo_release (linked_lifecycle ae token) runID refs c = (x, a', ls')"
      using o by (simp add: linked_lifecycle_def api_lifecycle_def c)
    from ok c have inv: "link_inv ae token (a, ls)" "api_inv ae token a" by (simp_all add: within_def link_inv_def)
    note kept = over_link_within [OF released_calls(1) [OF run, where refs = refs], where certain = False, unfolded keeps_def,
      rule_format, OF ok]
    have "case x of Inl _ \<Rightarrow> True | Inr _ \<Rightarrow> set refs \<inter> Ref ` set (api_table a') = {}"
      by (rule over_link_cases [OF o inv(1)]) (use api_released [OF inv(2) run, of refs x a'] in auto)
    with kept show "within (link_inv ae token) link_table S (snd (lo_release (linked_lifecycle ae token) runID refs c)) \<and>
        (case fst (lo_release (linked_lifecycle ae token) runID refs c) of
           Inl _ \<Rightarrow> True
         | Inr _ \<Rightarrow> set refs \<inter> Ref ` set (link_table (snd (lo_release (linked_lifecycle ae token) runID refs c))) = {})"
      unfolding op by (cases x) (simp_all add: c o link_table_def)
  qed
  then show "releases (within (link_inv ae token) link_table S) link_table runID (linked_lifecycle ae token) \<and>
      releases (within (link_inv ae token) link_table S) link_table runID (linked_lifecycle ae token)" by simp
  have two: "client_keeps (within (link_inv ae token) link_table S) runID (linked_client ae token) (linked_lifecycle ae token)"
    using released_calls [OF run, THEN over_link_within [where certain = False and S = S]]
    by (simp add: client_keeps_def probe_keeps_def linked_client_def linked_ops_def linked_lifecycle_def api_lifecycle_def)
  then show "client_keeps (within (link_inv ae token) link_table S) runID (linked_client ae token) (linked_lifecycle ae token) \<and>
      client_keeps (within (link_inv ae token) link_table S) runID (linked_client ae token) (linked_lifecycle ae token)" by simp
qed

section \<open>Properties\<close>

text \<open>The runs whose requests go over the link.\<close>

definition over_linked :: "admin_env \<Rightarrow> string \<Rightarrow> linked run_world \<Rightarrow> bool" where
  "over_linked ae token rw \<longleftrightarrow> rw_run rw = linked_client ae token \<and> rw_clean rw = linked_client ae token \<and>
     (case rw_run_id rw of None \<Rightarrow> True | Some runID \<Rightarrow> plain_segment runID)"



text \<open>A run on the sample router, whose activation loses its answer.\<close>

definition trial_plan :: run_plan where
  "trial_plan = empty_plan\<lparr>pl_command := [''make''], pl_port := 4000, pl_host := ''n.localhost'', pl_name := ''n'', pl_cwd := ''/n'',
     pl_route_target_host := ''127.0.0.1'', pl_owner_env := ''linux'', pl_managed_port := True, pl_url_scheme := ''http''\<rparr>"

definition trial_world :: "linked run_world" where
  "trial_world = \<lparr>rw_run = linked_client sample_ae ''t'', rw_clean = linked_client sample_ae ''t'', rw_run_id = Some ''n'',
     rw_commands = sample_command, rw_net = sample_net, rw_rounds = (\<lambda>_. []), rw_browser = True, rw_deadline = (\<lambda>_. False),
     rw_static = None, rw_start = Inr 4000, rw_cancelled = False, rw_wait = False\<rparr>"

definition trial_links :: "link list" where
  "trial_links = [Delivered, Delivered, Delivered, Lost (ErrUnexpected ''context canceled'')]"

lemma trial_ready:
  assumes "list_all (\<lambda>l. l = Delivered \<or> l = Lost (ErrUnexpected ''context canceled'') \<or> l = Refused (ErrUnexpected ''context canceled'')) links"
  shows "link_ready sample_ae ''t'' (sample_ad, links)" "over_linked sample_ae ''t'' trial_world"
proof -
  have "readable_error (ErrUnexpected ''context canceled'')" by code_simp
  with assms have "list_all (\<lambda>l. case l of Delivered \<Rightarrow> True | Refused e \<Rightarrow> readable_error e | Lost e \<Rightarrow> readable_error e) links"
    by (auto simp: list_all_iff)
  moreover have "fresh_ids sample_ae [sample_active, sample_pending]" by code_simp
  ultimately show "link_ready sample_ae ''t'' (sample_ad, links)"
    using sample_api_inv by (simp add: link_ready_def link_inv_def sample_table)
  show "over_linked sample_ae ''t'' trial_world"
    by (simp add: over_linked_def trial_world_def plain_segment_def)
qed


definition trial_items :: "run_item list" where
  "trial_items = [(command_of_kind CommandRaw, trial_plan),
     (command_of_kind CommandRaw, trial_plan\<lparr>pl_name := ''m'', pl_host := ''m.localhost'', pl_port := 4001, pl_cwd := ''/m''\<rparr>)]"

definition trial_answers :: group_answers where
  "trial_answers = \<lparr>ga_launch = (\<lambda>_. None), ga_started = [(1, Inr 4001), (0, Inr 4000)], ga_probes = [0, 1], ga_wait = ProgramEnded False\<rparr>"


text \<open>
  A route found after its program started is left behind when sharing it fails because the context is cancelled:
  \<open>registerDetectedRouteLifecycle\<close> then deletes the route with that same context, drops the error and returns no
  clean-up function, so that the route stays active in the table until its lease ends and nothing is said
  (\<open>runPlannedSingle\<close> takes its routes back with a fresh context and reports a failure).
\<close>

theorem detected_route_left_behind:
  assumes "rw_run rw = linked_client ae token" "cmd_share_mode cmd = ''lan''" "\<not> wsl_plan plan"
    and "rz_routes rz = [\<lparr>rr_route = r, rr_reused = False\<rparr>]" "EffectiveState r = RouteStatePending" "resolvedRoute r = Inr r'"
    and "client_ProbeTarget ae token (rt_target r') c = (Inr True, c)"
    and "client_ActivateRoutes ae token runID [Ref r] c = (Inr active, c')"
  shows "case register_reserved rw (linked_lifecycle ae token) cmd plan runID rz
        ((c, [Delivered, Delivered, Refused e, Refused e']), es) of
      (result, (c1, _), es1) \<Rightarrow> isl result \<and> c1 = c' \<and> es1 = es @ [StartLease [Ref r], StopLease]"
proof -
  have refs: "PendingRefs rz = [Ref r]" using assms(4,5) by (simp add: PendingRefs_def)
  have probe: "ao_probe (rc_admin (rw_run rw)) = Some (\<lambda>target. over_link False (client_ProbeTarget ae token target))"
    "rc_lan (rw_run rw) = Some (\<lambda>ref. over_link False (client_CreateLANShare ae token ref), \<lambda>ref. over_link False (client_DeleteLANShare ae token ref))"
    by (simp_all add: assms(1) linked_client_def linked_ops_def)
  have ops: "lo_activate (linked_lifecycle ae token) runID refs = over_link False (client_ActivateRoutes ae token runID refs)"
    "lo_delete_ref (linked_lifecycle ae token) ref = over_link True (client_DeleteRouteRef ae token ref)" for refs ref
    by (simp_all add: linked_lifecycle_def api_lifecycle_def)
  show ?thesis
    using assms(2,3,7,8)
    by (simp add: register_reserved_def Let_def assms(4,6) refs verifyPlannedTarget_def probe bind_run_def attempt_def call_client_def
        as_fault_def ops createLANShare_def emit_def)
qed

lemma trial_pending: "resolvedRoute sample_pending = Inr (sample_pending\<lparr>rt_target := ''v''\<rparr>)"
  by code_simp

theorem detected_route_left_behind_witness:
  "case register_reserved trial_world (linked_lifecycle sample_ae ''t'') ((command_of_kind CommandRaw)\<lparr>cmd_share_mode := ''lan''\<rparr>)
        trial_plan ''r'' \<lparr>rz_run_id = ''r'', rz_routes = [\<lparr>rr_route = sample_pending, rr_reused = False\<rparr>]\<rparr>
        ((sample_ad, [Delivered, Delivered, Refused (ErrUnexpected ''context canceled''), Refused (ErrUnexpected ''context canceled'')]), []) of
      (result, (c1, _), es1) \<Rightarrow> isl result \<and>
        map EffectiveState (filter (\<lambda>r. Ref r = Ref sample_pending) (api_table c1)) = [RouteStateActive] \<and>
        es1 = [StartLease [Ref sample_pending], StopLease]"
proof -
  let ?call = "client_ActivateRoutes sample_ae ''t'' ''r'' [Ref sample_pending] sample_ad"
  have world: "rw_run trial_world = linked_client sample_ae ''t''" by (simp add: trial_world_def)
  have probe: "client_ProbeTarget sample_ae ''t'' ''v'' sample_ad = (Inr True, sample_ad)"
  proof -
    have "fst (client_ProbeTarget sample_ae ''t'' ''v'' sample_ad) = Inr True" by code_simp
    with api_probe show ?thesis by (metis prod.collapse)
  qed
  have call: "?call = (Inr (projr (fst ?call)), snd ?call)"
  proof -
    have "\<not> isl (fst ?call)" by code_simp
    then show ?thesis by (metis prod.collapse sum.collapse(2))
  qed
  have table: "map EffectiveState (filter (\<lambda>r. Ref r = Ref sample_pending) (api_table (snd ?call))) = [RouteStateActive]"
    by code_simp
  show ?thesis
    using detected_route_left_behind [where rw = trial_world and ae = sample_ae and token = "''t''" and plan = trial_plan and runID = "''r''"
        and cmd = "(command_of_kind CommandRaw)\<lparr>cmd_share_mode := ''lan''\<rparr>" and c = sample_ad and r = sample_pending
        and rz = "\<lparr>rz_run_id = ''r'', rz_routes = [\<lparr>rr_route = sample_pending, rr_reused = False\<rparr>]\<rparr>"
        and e = "ErrUnexpected ''context canceled''" and e' = "ErrUnexpected ''context canceled''" and es = "[]",
        OF world _ _ _ _ trial_pending _ call] probe table
    by (auto simp: wsl_plan_def trial_plan_def sample_pending_def EffectiveState_def split: prod.splits)
qed

end
