(* ===== verification/Run_Effects.thy ===== *)
theory Run_Effects
  imports Run_Lifecycle
begin

text \<open>
  What a run opens it closes: the programs it starts, the static server and the lease it keeps, read off the log of
  \<open>Run_Lifecycle\<close>.
\<close>

section \<open>What is owed\<close>

fun owe :: "run_effect \<Rightarrow> run_effect set \<Rightarrow> run_effect set" where
  "owe (StartProgram i) R = insert (StopProgram i) R"
| "owe (StopProgram i) R = R - {StopProgram i}"
| "owe StartStatic R = insert CloseStatic R"
| "owe CloseStatic R = R - {CloseStatic}"
| "owe (StartLease refs) R = insert StopLease R"
| "owe StopLease R = R - {StopLease}"
| "owe _ R = R"

definition owed :: "run_effect list \<Rightarrow> run_effect set" where
  "owed es = fold owe es {}"

definition shows_only :: "run_effect \<Rightarrow> bool" where
  "shows_only e \<longleftrightarrow> (\<forall>R. owe e R = R)"

lemma fold_owed: "fold owe es' (owed es) = owed (es @ es')"
  by (simp add: owed_def)

lemma owed_Nil [simp]: "owed [] = {}"
  by (simp add: owed_def)

lemma owed_step: "owed (es @ [e]) = owe e (owed es)"
  by (simp add: owed_def)

lemma owed_append: "owed (es @ es') = fold owe es' (owed es)"
  by (simp add: owed_def)

lemma fold_shows: "list_all shows_only es \<Longrightarrow> fold owe es R = R"
  by (induction es arbitrary: R) (auto simp: shows_only_def)

lemma shows_only_simps [simp]:
  "shows_only (Announce a)" "shows_only (OutputText a)" "shows_only (OpenBrowser a)" "shows_only (BrowserFailed a)"
  "shows_only (ShareShown s)" "shows_only (CleanupFailed h errs)" "shows_only (LiveOutput i b)" "shows_only (ReplayOutput i)"
  "shows_only Finished"
  by (simp_all add: shows_only_def)

lemma announcements_show [simp]: "list_all shows_only (announceResolvedService rw cmd service)" "list_all shows_only (printLANShare share)"
  by (simp_all add: announceResolvedService_def printLANShare_def split: option.split)

lemma announce_group_shows [simp]: "list_all shows_only (announce_group rw verbose items services)"
proof -
  have "e \<in> set (announceResolvedService rw cmd service) \<Longrightarrow> shows_only e" for e cmd service
    using announcements_show(1) [of rw cmd service] by (simp add: list_all_iff)
  then show ?thesis by (auto simp: announce_group_def list_all_iff split: if_splits)
qed

section \<open>Calls that write nothing\<close>

lemma call_log: "call_client f st = (r, st') \<Longrightarrow> snd st' = snd st"
  by (cases st) (auto simp: call_client_def split: prod.splits)

lemma attempt_log: "attempt f st = (r, st') \<Longrightarrow> snd st' = snd st"
  using call_log [of f st] by (auto simp: attempt_def split: prod.splits)

lemma wait_log: "waitForWSLTarget probe target rounds st = (r, st') \<Longrightarrow> snd st' = snd st"
proof (induction probe target rounds st rule: waitForWSLTarget.induct)
  case (2 probe target cancelled rounds st)
  obtain a st1 where a: "attempt (probe target) st = (a, st1)" by (rule prod.exhaust)
  from "2.prems" a attempt_log [OF a] "2.IH" [OF a [symmetric]] show ?case
    by (auto split: sum.splits bool.splits if_splits)
qed (auto intro: attempt_log)

lemma verify_log: "verifyPlannedTarget ops target retry rounds st = (r, st') \<Longrightarrow> snd st' = snd st"
  by (auto simp: verifyPlannedTarget_def bind_run_def split: option.splits prod.splits sum.splits if_splits dest!: wait_log attempt_log)

lemma share_log: "createLANShare rw client cmd ref st = (r, st') \<Longrightarrow> snd st' = snd st"
  by (auto simp: createLANShare_def split: option.splits prod.splits sum.splits if_splits dest!: call_log)

lemma unshare_log: "deleteLANShare client ref st = (r, st') \<Longrightarrow> snd st' = snd st"
  by (auto simp: deleteLANShare_def split: option.splits prod.splits sum.splits if_splits dest!: call_log)

lemma delete_refs_log: "deleteRouteRefs lo refs st = (errs, st') \<Longrightarrow> snd st' = snd st"
proof (induction refs arbitrary: st errs st')
  case (Cons ref refs)
  obtain r st1 where r: "call_client (lo_delete_ref lo ref) st = (r, st1)" by (rule prod.exhaust)
  obtain errs1 st2 where rest: "deleteRouteRefs lo refs st1 = (errs1, st2)" by (rule prod.exhaust)
  from Cons.prems r rest call_log [OF r] Cons.IH [OF rest] show ?case by simp
qed simp

lemma release_log: "releaseRoutes lo runID refs st = (errs, st') \<Longrightarrow> snd st' = snd st"
  by (auto simp: releaseRoutes_def split: prod.splits sum.splits dest!: call_log)

lemma roll_back_log: "releaseReservationError lo runID refs e st = (e', st') \<Longrightarrow> snd st' = snd st"
  by (auto simp: releaseReservationError_def split: if_splits prod.splits list.splits dest!: release_log)

lemma statuses_log: "route_statuses rw ops st = (r, st') \<Longrightarrow> snd st' = snd st"
  by (cases st) (auto simp: route_statuses_def split: prod.splits sum.splits)

lemma emit_log [simp]: "snd (emit es st) = snd st @ es"
  by (cases st) (simp add: emit_def)

lemma take_back_owed: "owed (snd (take_back clean lo host runID shared activated refs st)) = owed (snd st)"
proof -
  obtain us st1 where u: "(case shared of None \<Rightarrow> ([], st) | Some ref \<Rightarrow> deleteLANShare clean ref st) = (us, st1)"
    by (rule prod.exhaust)
  obtain errs st2 where d: "(if activated then deleteRouteRefs lo refs st1 else releaseRoutes lo runID refs st1) = (errs, st2)"
    by (rule prod.exhaust)
  have "snd st1 = snd st" using u by (cases shared) (auto dest: unshare_log)
  moreover have "snd st2 = snd st1" using d by (cases activated) (auto dest: delete_refs_log release_log)
  ultimately show ?thesis unfolding take_back_def u prod.case d by (simp add: owed_append)
qed

section \<open>One run\<close>

lemma go_live_owed:
  assumes "go_live rw lo cmd plan service runID refs live st = (r, pg, st')" "StopLease \<notin> owed (snd st)" "list_all shows_only live"
  shows "owed (snd st') = owed (snd st)"
proof -
  obtain v st1 where v: "verifyPlannedTarget (rc_admin (rw_run rw)) (rt_target (sv_route service)) (wsl_plan plan) (rw_rounds rw 1) st = (v, st1)"
    by (rule prod.exhaust)
  obtain a st2 where a: "attempt (lo_activate lo runID refs) st1 = (a, st2)" by (rule prod.exhaust)
  obtain s st3 where s: "createLANShare rw (rw_run rw) cmd (Ref (sv_route service)) (emit [StartLease refs] st2) = (s, st3)" by (rule prod.exhaust)
  note logs = verify_log [OF v] attempt_log [OF a] share_log [OF s, unfolded emit_log]
  show ?thesis
  proof (cases v)
    case (Inl e)
    with assms(1) v logs show ?thesis by (simp add: go_live_def)
  next
    case v1: (Inr u)
    show ?thesis
    proof (cases a)
      case (Inl e)
      with assms(1) v v1 a logs show ?thesis by (simp add: go_live_def)
    next
      case (Inr active)
      with assms v v1 a s logs show ?thesis
        by (cases s) (auto simp: go_live_def owed_append fold_shows)
    qed
  qed
qed

lemma body_owed:
  assumes "owed (snd st) = {}"
  shows "run_reused rw cmd plan service st = (r, pg, st') \<Longrightarrow> owed (snd st') = {}"
    and "run_static rw lo cmd plan service runID refs st = (r, pg, st') \<Longrightarrow> owed (snd st') = {}"
    and "run_program rw lo cmd plan service runID refs st = (r, pg, st') \<Longrightarrow> owed (snd st') = {}"
proof -
  obtain v st1 where v: "verifyPlannedTarget (rc_admin (rw_run rw)) (rt_target (sv_route service)) (wsl_plan plan) (rw_rounds rw 1) st = (v, st1)"
    by (rule prod.exhaust)
  obtain s st2 where s: "createLANShare rw (rw_run rw) cmd (Ref (sv_route service)) st1 = (s, st2)" by (rule prod.exhaust)
  obtain u st3 where u: "deleteLANShare (rw_run rw) (Ref (sv_route service)) st1 = (u, st3)" by (rule prod.exhaust)
  show "run_reused rw cmd plan service st = (r, pg, st') \<Longrightarrow> owed (snd st') = {}"
    using v s u assms verify_log [OF v] share_log [OF s] unshare_log [OF u]
    by (cases v; cases s) (auto simp: run_reused_def owed_append fold_shows split: if_splits)
  have live: "owed (snd st2) = owed (snd (emit es st))"
    if "go_live rw lo cmd plan service runID refs l (emit es st) = (q, p, st2)" "StopLease \<notin> owed (snd st @ es)" "list_all shows_only l"
    for l es q p st2 using go_live_owed [OF that(1)] that(2,3) by simp
  show "run_static rw lo cmd plan service runID refs st = (r, pg, st') \<Longrightarrow> owed (snd st') = {}"
    using assms by (auto simp: run_static_def owed_append split: option.splits prod.splits if_splits dest!: live)
  show "run_program rw lo cmd plan service runID refs st = (r, pg, st') \<Longrightarrow> owed (snd st') = {}"
    using assms by (auto simp: run_program_def owed_append split: sum.splits prod.splits if_splits dest!: live)
qed

lemma run_reserved_owed:
  assumes "owed (snd st) = {}" "run_reserved rw lo cmd plan runID rz st = (r, st')"
  shows "owed (snd st') = {}"
proof (cases "\<exists>reserved. rz_routes rz = [reserved]")
  case False
  with assms show ?thesis by (auto simp: run_reserved_def split: list.splits)
next
  case True
  then obtain reserved where routes: "rz_routes rz = [reserved]" by blast
  note here = assms(2) [unfolded run_reserved_def routes list.case]
  show ?thesis
  proof (cases "resolvedRoute (rr_route reserved)")
    case (Inl e)
    obtain e' st1 where b: "releaseReservationError lo runID (PendingRefs rz) e st = (e', st1)" by (rule prod.exhaust)
    with Inl here assms(1) roll_back_log [OF b] show ?thesis by simp
  next
    case (Inr x)
    let ?service = "resolved_service_of plan x (serviceDiscoveryEnvKey (pl_name plan)) (rr_reused reserved)"
    let ?plan = "plan\<lparr>pl_env := resolveServiceEnvironment (rw_net rw) (pl_env plan) ?service [?service]\<rparr>"
    obtain q pg st1 where body: "(if rr_reused reserved then run_reused rw cmd plan ?service st
        else if pl_static plan then run_static rw lo cmd plan ?service runID (PendingRefs rz) st
        else run_program rw lo cmd ?plan ?service runID (PendingRefs rz) st) = (q, pg, st1)" by (metis prod.exhaust)
    have "owed (snd st1) = {}" using body body_owed [OF assms(1)] by (auto split: if_splits)
    then show ?thesis using here unfolding Inr sum.case Let_def body prod.case by (auto simp: take_back_owed)
  qed
qed

section \<open>A group\<close>

lemma fold_start [simp]: "fold owe (map StartProgram is) R = R \<union> StopProgram ` set is"
  by (induction "is" arbitrary: R) auto

lemma fold_stop [simp]: "fold owe (stopGroupRunners is) R = R - StopProgram ` set is"
  unfolding stopGroupRunners_def by (induction "is" arbitrary: R) auto

lemma fold_wait: "fold owe (snd (waitForMulti is ending)) R \<subseteq> R"
  using fold_stop [of "is" R]
  by (auto simp: waitForMulti_def stopGroupRunners_def split: wait_end.splits if_splits)

lemma await_owed: "await_started items launched failed arrivals = (failed', es) \<Longrightarrow> fold owe es R \<subseteq> R"
proof (induction arrivals arbitrary: failed failed' es R)
  case (Cons arrival arrivals)
  obtain i r where ir: "arrival = (i, r)" by (rule prod.exhaust)
  let ?fault = "case r of Inl e \<Rightarrow> Some (ProgramFault e)
    | Inr port \<Rightarrow> if port \<noteq> pl_port (snd (items ! i)) then Some (WrongPort port (pl_port (snd (items ! i)))) else None"
  show ?case
  proof (cases "\<exists>e. failed = None \<and> ?fault = Some e")
    case True
    then obtain e where e: "failed = None" "?fault = Some e" by blast
    obtain f es1 where rest: "await_started items launched (Some e) arrivals = (f, es1)" by (rule prod.exhaust)
    have "es = [ReplayOutput i] @ stopGroupRunners launched @ es1"
      using Cons.prems by (simp add: ir Let_def e rest)
    with Cons.IH [OF rest, of "R - StopProgram ` set launched"] show ?thesis by auto
  next
    case False
    then have "await_started items launched failed arrivals = (failed', es)"
      using Cons.prems by (cases failed; cases ?fault) (simp_all add: ir Let_def)
    then show ?thesis by (rule Cons.IH)
  qed
qed simp

lemma probe_all_log: "probe_all rw target is failed st = (r, st') \<Longrightarrow> snd st' = snd st"
proof (induction "is" arbitrary: failed st)
  case (Cons i "is")
  obtain v st1 where v: "verifyPlannedTarget (rc_admin (rw_run rw)) (fst (target i)) (snd (target i)) (rw_rounds rw (2 * i + 1)) st = (v, st1)"
    by (rule prod.exhaust)
  from Cons.prems v verify_log [OF v] Cons.IH show ?case by (cases v) auto
qed simp

lemma group_body_owed:
  assumes "owed (snd st) = {}" "group_body rw ga lo verbose items runID rz st = (r, pg, st')"
  shows "owed (snd st') = {}"
proof (cases "length (rz_routes rz) \<noteq> length items")
  case False
  note here = assms(2) [unfolded group_body_def if_not_P [OF False]]
  show ?thesis
  proof (cases "group_services items (rz_routes rz)")
    case (Inl e)
    with here assms(1) show ?thesis by simp
  next
    case (Inr services)
    note here = here [unfolded Inr sum.case]
    obtain x launched where l: "launch_programs ga [] (filter (\<lambda>i. \<not> sv_reused (services ! i)) [0..<length items]) = (x, launched)"
      by (rule prod.exhaust)
    show ?thesis
    proof (cases x)
      case (Inl e)
      with here l assms(1) show ?thesis by (auto simp: owed_append)
    next
      case (Inr begun)
      obtain failed es where a: "await_started items begun None (take (length begun) (ga_started ga)) = (failed, es)" by (rule prod.exhaust)
      have stopped: "fold owe es (StopProgram ` set begun) \<subseteq> StopProgram ` set begun" by (rule await_owed [OF a])
      then have gone: "fold owe es (StopProgram ` set begun) - StopProgram ` set begun = {}" by auto
      note here = here [unfolded l prod.case Inr sum.case a]
      show ?thesis
      proof (cases failed)
        case (Some e)
        with here assms(1) gone show ?thesis by (auto simp: owed_append)
      next
        case None
        let ?target = "\<lambda>i. (rt_target (sv_route (services ! i)), wsl_plan (snd (items ! i)))"
        obtain q st1 where p: "probe_all rw ?target (ga_probes ga) None (emit (map StartProgram begun @ es) st) = (q, st1)" by (rule prod.exhaust)
        obtain act st2 where act: "attempt (lo_activate lo runID (PendingRefs rz)) st1 = (act, st2)" by (rule prod.exhaust)
        have "owed (snd st1) = fold owe es (StopProgram ` set begun)" "snd st2 = snd st1"
          using probe_all_log [OF p] attempt_log [OF act] assms(1) by (simp_all add: owed_append)
        moreover have "StopLease \<notin> fold owe es (StopProgram ` set begun)" using stopped by auto
        moreover note here [unfolded None option.case p prod.case]
        moreover have "x \<in> insert StopLease (fold owe es (StopProgram ` set begun))"
          if "x \<in> fold owe (snd (waitForMulti begun (ga_wait ga))) (insert StopLease (fold owe es (StopProgram ` set begun)))" for x
          using fold_wait that by blast
        ultimately show ?thesis
          using act gone by (fastforce simp: owed_append fold_shows split: option.splits if_splits sum.splits)
      qed
    qed
  qed
qed (use assms in \<open>auto simp: group_body_def\<close>)

lemma reusable_log:
  assumes "plannedReusableRoute rw ops plan st = (r, st')"
  shows "snd st' = snd st"
proof -
  obtain q st1 where q: "route_statuses rw ops st = (q, st1)" by (rule prod.exhaust)
  have "snd st2 = snd st1" if "verifyPlannedTarget ops target retry rounds st1 = (v, st2)" for target retry rounds v st2
    by (rule verify_log [OF that])
  with assms q statuses_log [OF q] show ?thesis
    by (auto simp: plannedReusableRoute_def bind_run_def split: option.splits if_splits prod.splits sum.splits)
qed

lemma candidate_log:
  assumes "group_candidate rw statuses i it st = (r, st')"
  shows "snd st' = snd st"
proof -
  have "snd st2 = snd st" if "verifyPlannedTarget (rc_admin (rw_run rw)) target retry rounds st = (v, st2)" for target retry rounds v st2
    by (rule verify_log [OF that])
  with assms show ?thesis
    by (cases it) (auto simp: group_candidate_def Let_def split: option.splits if_splits prod.splits sum.splits)
qed

lemma candidates_log: "group_candidates rw statuses i items st = (r, st') \<Longrightarrow> snd st' = snd st"
proof (induction items arbitrary: i st r st')
  case (Cons it items)
  obtain y st1 where y: "group_candidate rw statuses i it st = (y, st1)" by (rule prod.exhaust)
  obtain zs st2 where zs: "group_candidates rw statuses (Suc i) items st1 = (zs, st2)" by (rule prod.exhaust)
  from Cons.prems y zs candidate_log [OF y] Cons.IH [OF zs] show ?case by (cases y; cases zs) (auto simp: bind_run_def)
qed simp

lemma single_owed:
  assumes "owed (snd st) = {}" "runPlannedSingle rw cmd plan st = (r, st')"
  shows "owed (snd st') = {}"
proof (cases "rc_lifecycle (rw_run rw)")
  case (Some lo)
  note here = assms(2) [unfolded runPlannedSingle_def Some option.case]
  show ?thesis
  proof (cases "rw_run_id rw")
    case None
    with here assms(1) show ?thesis by simp
  next
    case (Some runID)
    obtain x st1 where x: "plannedReusableRoute rw (rc_admin (rw_run rw)) plan st = (x, st1)" by (rule prod.exhaust)
    note here = here [unfolded Some option.case bind_run_def x prod.case Let_def]
    have o1: "owed (snd st1) = {}" using reusable_log [OF x] assms(1) by simp
    show ?thesis
    proof (cases x)
      case (Inr reusable)
      let ?request = "\<lparr>rq_run_id = runID, rq_ttl = DefaultReservationTTL,
        rq_routes = [routeReservationForPlan (co_pv (rw_commands rw)) cmd plan\<lparr>rs_reuse := map_option Ref reusable\<rparr>]\<rparr>"
      obtain y st2 where y: "call_client (lo_reserve lo ?request) st1 = (y, st2)" by (rule prod.exhaust)
      have o2: "owed (snd st2) = {}" using call_log [OF y] o1 by simp
      from here [unfolded Inr sum.case y prod.case] o2 run_reserved_owed [OF o2] show ?thesis by (cases y) auto
    qed (use here o1 in simp)
  qed
qed (use assms in \<open>simp add: runPlannedSingle_def\<close>)

lemma group_owed:
  assumes "owed (snd st) = {}" "runPlannedGroup rw ga verbose items st = (r, st')"
  shows "owed (snd st') = {}"
proof (cases "rc_lifecycle (rw_run rw)")
  case (Some lo)
  note here = assms(2) [unfolded runPlannedGroup_def Some option.case]
  show ?thesis
  proof (cases "check_service_keys [] items")
    case keys: (Inr u)
    obtain x st1 where x: "route_statuses rw (rc_admin (rw_run rw)) st = (x, st1)" by (rule prod.exhaust)
    note here = here [unfolded keys sum.case bind_run_def x prod.case]
    have o1: "owed (snd st1) = {}" using statuses_log [OF x] assms(1) by simp
    show ?thesis
    proof (cases x)
      case (Inl e)
      with here o1 show ?thesis by simp
    next
      case (Inr statuses)
      note here = here [unfolded Inr sum.case]
      show ?thesis
      proof (cases "rw_run_id rw")
        case None
        with here o1 show ?thesis by simp
      next
        case (Some runID)
        obtain y st2 where y: "group_candidates rw statuses 0 items st1 = (y, st2)" by (rule prod.exhaust)
        have o2: "owed (snd st2) = {}" using candidates_log [OF y] o1 by simp
        note here = here [unfolded Some option.case y prod.case]
        show ?thesis
        proof (cases y)
          case (Inl e)
          with here o2 show ?thesis by simp
        next
          case (Inr candidates)
          let ?request = "\<lparr>rq_run_id = runID, rq_ttl = DefaultReservationTTL, rq_routes = candidates\<rparr>"
          obtain z st3 where z: "attempt (lo_reserve lo ?request) st2 = (z, st3)" by (rule prod.exhaust)
          have o3: "owed (snd st3) = {}" using attempt_log [OF z] o2 by simp
          note here = here [unfolded Inr sum.case z prod.case]
          show ?thesis
          proof (cases z)
            case (Inl e)
            with here o3 show ?thesis by simp
          next
            case (Inr rz)
            obtain q pg st4 where body: "group_body rw ga lo verbose items runID rz st3 = (q, pg, st4)" by (metis prod.exhaust)
            from here [unfolded Inr sum.case group_reserved_def body prod.case] group_body_owed [OF o3 body]
            show ?thesis by (auto simp: take_back_owed)
          qed
        qed
      qed
    qed
  qed (use assms here in simp)
qed (use assms in \<open>simp add: runPlannedGroup_def\<close>)

section \<open>Properties\<close>

text \<open>
  C12. A run closes what it opens: whatever the router, the programs and the clocks answer, when \<open>runPlannedSingle\<close> or
  \<open>runPlannedGroup\<close> returns, every program it has started has been stopped after its start, the static server is closed
  and the lease is no longer kept.
\<close>

theorem runs_close_what_they_open:
  "owed (snd (snd (runPlannedSingle rw cmd plan (c, [])))) = {} \<and>
   owed (snd (snd (runPlannedGroup rw ga verbose items (c, [])))) = {}"
proof -
  obtain r st r' st' where "runPlannedSingle rw cmd plan (c, []) = (r, st)" "runPlannedGroup rw ga verbose items (c, []) = (r', st')"
    by (metis prod.exhaust)
  with single_owed [of "(c, [])"] group_owed [of "(c, [])"] show ?thesis by simp
qed

end
