(* ===== verification/Run_Output.thy ===== *)
theory Run_Output
  imports Go_Base
begin

text \<open>
  The output of the programs that \<open>gohere\<close> starts, \<open>internal/app/run.go\<close>: the writers that hold it back until the
  route is announced, cut it, replay it and put a label before every line.
\<close>

section \<open>The output of the programs\<close>

text \<open>\<open>limitedCapture\<close>: the first \<open>max\<close> bytes written.\<close>

record limited_capture =
  lc_buf :: string
  lc_max :: nat

definition newLimitedCapture :: "nat \<Rightarrow> limited_capture" where
  "newLimitedCapture m = \<lparr>lc_buf = '''', lc_max = m\<rparr>"

definition capture_write :: "string \<Rightarrow> limited_capture \<Rightarrow> limited_capture" where
  "capture_write p w =
     (let remaining = lc_max w - length (lc_buf w)
      in if remaining > 0 then w\<lparr>lc_buf := lc_buf w @ (if length p > remaining then take remaining p else p)\<rparr> else w)"

text \<open>A target: what it took, and how many more writes it takes before it fails (\<open>None\<close>: it never does).\<close>

record sink =
  sk_out :: string
  sk_left :: "nat option"

definition sink_write :: "string \<Rightarrow> sink \<Rightarrow> bool \<times> sink" where
  "sink_write p k =
     (case sk_left k of
        Some 0 \<Rightarrow> (False, k)
      | left \<Rightarrow> (True, k\<lparr>sk_out := sk_out k @ p, sk_left := map_option (\<lambda>m. m - 1) left\<rparr>))"

text \<open>
  \<open>replayWriter\<close>: it captures, and passes on what is written once it is live. \<open>Start\<close> is two steps, since it lets go
  of the lock before it writes what was captured: \<open>StartLive\<close> takes the text and \<open>StartReplay\<close> writes it. The steps of
  other goroutines come between them. A target that fails is ignored.
\<close>

record replay_writer =
  rw_cap :: limited_capture
  rw_target :: sink
  rw_live :: bool
  rw_pending :: string

definition newReplayWriter :: "nat \<Rightarrow> sink \<Rightarrow> replay_writer" where
  "newReplayWriter m target = \<lparr>rw_cap = newLimitedCapture m, rw_target = target, rw_live = False, rw_pending = ''''\<rparr>"

datatype replay_step = WriteOutput string | StartLive bool | StartReplay

fun do_replay :: "replay_step \<Rightarrow> replay_writer \<Rightarrow> replay_writer" where
  "do_replay (WriteOutput p) w =
     (let w = w\<lparr>rw_cap := capture_write p (rw_cap w)\<rparr>
      in if rw_live w then w\<lparr>rw_target := snd (sink_write p (rw_target w))\<rparr> else w)"
| "do_replay (StartLive replay) w =
     (if rw_live w then w
      else w\<lparr>rw_live := True, rw_pending := (if replay then lc_buf (rw_cap w) else '''')\<rparr>)"
| "do_replay StartReplay w =
     (if rw_pending w = '''' then w
      else w\<lparr>rw_target := snd (sink_write (rw_pending w) (rw_target w)), rw_pending := ''''\<rparr>)"

definition replay_run :: "replay_step list \<Rightarrow> replay_writer \<Rightarrow> replay_writer" where
  "replay_run steps w = fold do_replay steps w"

text \<open>\<open>linePrefixWriter\<close>: the label before every line, however the output is cut; it stops at the first failed write.\<close>

record prefix_writer =
  pw_target :: sink
  pw_prefix :: string
  pw_at_line_start :: bool

definition newLinePrefixWriter :: "sink \<Rightarrow> string \<Rightarrow> prefix_writer" where
  "newLinePrefixWriter target p = \<lparr>pw_target = target, pw_prefix = p, pw_at_line_start = True\<rparr>"

definition pw_put :: "string \<Rightarrow> prefix_writer \<Rightarrow> bool \<times> prefix_writer" where
  "pw_put p w = (case sink_write p (pw_target w) of (ok, target) \<Rightarrow> (ok, w\<lparr>pw_target := target\<rparr>))"

function prefix_write :: "string \<Rightarrow> prefix_writer \<Rightarrow> bool \<times> prefix_writer" where
  "prefix_write p w =
     (if p = '''' then (True, w)
      else (case (if pw_at_line_start w then pw_put (pw_prefix w) w else (True, w)) of
              (False, w) \<Rightarrow> (False, w)
            | (True, w) \<Rightarrow>
                (let w = w\<lparr>pw_at_line_start := False\<rparr>;
                     line = takeWhile (\<lambda>c. c \<noteq> CHR 0x0A) p; rest = dropWhile (\<lambda>c. c \<noteq> CHR 0x0A) p in
                 case rest of
                   [] \<Rightarrow> pw_put p w
                 | nl # rest \<Rightarrow>
                     (case pw_put (line @ [nl]) w of
                        (False, w) \<Rightarrow> (False, w)
                      | (True, w) \<Rightarrow> prefix_write rest (w\<lparr>pw_at_line_start := True\<rparr>)))))"
  by pat_completeness auto
termination
proof (relation "measure (\<lambda>(p, w). length p)")
  fix p :: string and nl :: char and rest' rest
  have "length (nl # rest') \<le> length p" if "rest = dropWhile (\<lambda>c. c \<noteq> CHR 0x0A) p" "rest = nl # rest'"
    using that length_dropWhile_le [of "\<lambda>c. c \<noteq> CHR 0x0A" p] by simp
  then show "((rest', w'), (p, w)) \<in> measure (\<lambda>(p, w). length p)"
    if "rest = dropWhile (\<lambda>c. c \<noteq> CHR 0x0A) p" "rest = nl # rest'" for w w' :: prefix_writer
    using that by simp
qed simp

declare prefix_write.simps [simp del]

text \<open>\<open>replayCapturedOutput\<close>: the texts that are not empty, each on a line of its own.\<close>

fun replay_texts :: "bool \<Rightarrow> bool \<Rightarrow> string list \<Rightarrow> string" where
  "replay_texts wrote lastEndedNewline [] = (if wrote \<and> \<not> lastEndedNewline then [CHR 0x0A] else '''')"
| "replay_texts wrote lastEndedNewline (text # texts) =
     (if text = '''' then replay_texts wrote lastEndedNewline texts
      else (if wrote \<and> \<not> lastEndedNewline then [CHR 0x0A] else '''') @ text @
           replay_texts True (has_suffix text [CHR 0x0A]) texts)"

definition replayCapturedOutput :: "limited_capture list \<Rightarrow> string" where
  "replayCapturedOutput captures = replay_texts False True (map lc_buf captures)"

section \<open>What the target receives\<close>

text \<open>A target that never fails.\<close>

definition open_sink :: "string \<Rightarrow> sink" where
  "open_sink out = \<lparr>sk_out = out, sk_left = None\<rparr>"

lemma open_sink_write [simp]: "sink_write p (open_sink out) = (True, open_sink (out @ p))"
  by (simp add: sink_write_def open_sink_def)

lemma capture_write_take:
  "length (lc_buf w) \<le> lc_max w \<Longrightarrow> capture_write p w = w\<lparr>lc_buf := take (lc_max w) (lc_buf w @ p)\<rparr>"
  by (auto simp: capture_write_def Let_def min_absorb1)

lemma capture_writes:
  "length (lc_buf w) \<le> lc_max w \<Longrightarrow>
   fold capture_write ps w = w\<lparr>lc_buf := take (lc_max w) (lc_buf w @ concat ps)\<rparr>"
proof (induction ps arbitrary: w)
  case (Cons p ps)
  let ?w = "w\<lparr>lc_buf := take (lc_max w) (lc_buf w @ p)\<rparr>"
  have "take (lc_max w) (take (lc_max w) (lc_buf w @ p) @ concat ps) = take (lc_max w) (lc_buf w @ p @ concat ps)"
    using Cons.prems by (cases "length (lc_buf w @ p) \<le> lc_max w") (simp_all add: min_absorb1)
  with Cons.IH [of ?w] show ?case by (simp add: capture_write_take [OF Cons.prems] del: take_append)
qed simp

text \<open>
  A capture holds exactly the first \<open>max\<close> bytes of everything written to it, however the writes cut the output.
\<close>

theorem limitedCapture_first_bytes:
  "lc_buf (fold capture_write ps (newLimitedCapture m)) = take m (concat ps)"
  by (simp add: capture_writes newLimitedCapture_def)

section \<open>Labels\<close>

text \<open>The whole output with the label before every line, byte by byte.\<close>

fun labelled :: "string \<Rightarrow> bool \<Rightarrow> string \<Rightarrow> string" where
  "labelled l start [] = []"
| "labelled l start (c # s) = (if start then l else []) @ c # labelled l (c = CHR 0x0A) s"

definition ends_line :: "bool \<Rightarrow> string \<Rightarrow> bool" where
  "ends_line start s = (if s = [] then start else last s = CHR 0x0A)"

lemma labelled_append: "labelled l start (a @ b) = labelled l start a @ labelled l (ends_line start a) b"
  by (induction a arbitrary: start) (auto simp: ends_line_def)

lemma labelled_line: "CHR 0x0A \<notin> set a \<Longrightarrow> labelled l False a = a"
  by (induction a) auto

lemma prefix_write_open:
  "pw_target w = open_sink out \<Longrightarrow>
   prefix_write p w = (True, w\<lparr>pw_target := open_sink (out @ labelled (pw_prefix w) (pw_at_line_start w) p),
     pw_at_line_start := ends_line (pw_at_line_start w) p\<rparr>)"
proof (induction p arbitrary: w out rule: length_induct)
  case (1 p)
  show ?case
  proof (cases "p = ''''")
    case True
    with 1 show ?thesis by (subst prefix_write.simps) (simp add: ends_line_def)
  next
    case False
    define line rest where "line = takeWhile (\<lambda>c. c \<noteq> CHR 0x0A) p" and "rest = dropWhile (\<lambda>c. c \<noteq> CHR 0x0A) p"
    have p: "p = line @ rest" by (simp add: line_def rest_def)
    have line: "CHR 0x0A \<notin> set line" by (auto simp: line_def dest: set_takeWhileD)
    define out' where "out' = out @ (if pw_at_line_start w then pw_prefix w else [])"
    define w' where "w' = w\<lparr>pw_target := open_sink out', pw_at_line_start := False\<rparr>"
    have first: "labelled l start p = (if start then l else []) @ labelled l False p" for l start
      using False by (cases p) auto
    have step: "prefix_write p w = (case rest of [] \<Rightarrow> pw_put p w'
      | nl # rest \<Rightarrow> (case pw_put (line @ [nl]) w' of
          (False, w) \<Rightarrow> (False, w) | (True, w) \<Rightarrow> prefix_write rest (w\<lparr>pw_at_line_start := True\<rparr>)))"
      using False "1.prems"
      by (subst prefix_write.simps, cases "pw_at_line_start w")
        (simp_all add: pw_put_def w'_def out'_def line_def rest_def Let_def cong: list.case_cong)
    show ?thesis
    proof (cases rest)
      case Nil
      with p line have "CHR 0x0A \<notin> set p" by simp
      moreover from this False have "ends_line (pw_at_line_start w) p = False"
        using False by (simp add: ends_line_def) (metis last_in_set)
      ultimately show ?thesis
        using step Nil first [of "pw_prefix w" "pw_at_line_start w"]
        by (simp add: pw_put_def w'_def out'_def labelled_line)
    next
      case (Cons nl rest')
      then have nl: "nl = CHR 0x0A" using hd_dropWhile [of "\<lambda>c. c \<noteq> CHR 0x0A" p] by (simp add: rest_def)
      have inner: "ends_line False line = False"
        using line by (simp add: ends_line_def) (metis last_in_set)
      have shorter: "length rest' < length p" using p Cons by simp
      let ?w = "w'\<lparr>pw_target := open_sink (out' @ line @ [nl]), pw_at_line_start := True\<rparr>"
      have "pw_target ?w = open_sink (out' @ line @ [nl])" by simp
      from "1.IH" [rule_format, OF shorter this] have "prefix_write rest' ?w =
          (True, ?w\<lparr>pw_target := open_sink ((out' @ line @ [nl]) @ labelled (pw_prefix ?w) (pw_at_line_start ?w) rest'),
             pw_at_line_start := ends_line (pw_at_line_start ?w) rest'\<rparr>)" .
      moreover have "labelled l start p = (if start then l else []) @ line @ [nl] @ labelled l True rest'" for l start
        by (subst first) (simp add: p Cons labelled_append labelled_line inner line nl)
      moreover have "ends_line start p = ends_line True rest'" for start
        unfolding p Cons using nl by (simp add: ends_line_def)
      ultimately show ?thesis
        using step Cons by (simp add: pw_put_def w'_def out'_def)
    qed
  qed
qed

text \<open>
  The labels do not depend on how the program's writes cut its output: the target receives the whole output
  with the label before every line, as if it had come in one piece.
\<close>

theorem linePrefixWriter_chunks:
  "fold (\<lambda>p w. snd (prefix_write p w)) ps (newLinePrefixWriter (open_sink out) l) =
     newLinePrefixWriter (open_sink (out @ labelled l True (concat ps))) l\<lparr>pw_at_line_start := ends_line True (concat ps)\<rparr>"
proof -
  have "fold (\<lambda>p w. snd (prefix_write p w)) ps w =
      w\<lparr>pw_target := open_sink (out @ labelled (pw_prefix w) (pw_at_line_start w) (concat ps)),
        pw_at_line_start := ends_line (pw_at_line_start w) (concat ps)\<rparr>" if "pw_target w = open_sink out" for w out
    using that
  proof (induction ps arbitrary: w out)
    case (Cons p ps)
    show ?case
      using Cons.prems Cons.IH by (simp add: prefix_write_open labelled_append) (simp add: ends_line_def)
  qed (simp add: ends_line_def)
  then show ?thesis by (simp add: newLinePrefixWriter_def)
qed

section \<open>Replay\<close>

lemma replay_held: "\<not> rw_live w \<Longrightarrow> replay_run (map WriteOutput ps) w = w\<lparr>rw_cap := fold capture_write ps (rw_cap w)\<rparr>"
  unfolding replay_run_def by (induction ps arbitrary: w) simp_all

lemma replay_live:
  "rw_live w \<Longrightarrow> rw_target w = open_sink out \<Longrightarrow>
   rw_target (replay_run (map WriteOutput ps) w) = open_sink (out @ concat ps)"
  unfolding replay_run_def by (induction ps arbitrary: w out) simp_all

text \<open>
  A program whose output fits the capture loses none of it: what it wrote before the route was announced and
  what it writes afterwards reach the target in order, when no write falls between the two steps of \<open>Start\<close>; without
  replay the target receives what is written afterwards.
\<close>

theorem replayWriter_complete:
  assumes "length (concat before_start) \<le> m"
  shows "rw_target (replay_run (map WriteOutput before_start @ [StartLive replay, StartReplay] @ map WriteOutput ps)
      (newReplayWriter m (open_sink out))) =
    open_sink (out @ (if replay then concat before_start else []) @ concat ps)"
proof -
  let ?w = "(newReplayWriter m (open_sink out))\<lparr>rw_cap := fold capture_write before_start (newLimitedCapture m)\<rparr>"
  have held: "replay_run (map WriteOutput before_start) (newReplayWriter m (open_sink out)) = ?w"
    by (subst replay_held) (simp_all add: newReplayWriter_def)
  have cap: "lc_buf (rw_cap ?w) = concat before_start"
    using assms by (simp add: capture_writes newLimitedCapture_def)
  let ?live = "replay_run [StartLive replay, StartReplay] ?w"
  have "rw_live ?live \<and> rw_target ?live = open_sink (out @ (if replay then t else []))" if "lc_buf (rw_cap ?w) = t" for t
    using that by (auto simp: replay_run_def newReplayWriter_def)
  with cap have "rw_live ?live" "rw_target ?live = open_sink (out @ (if replay then concat before_start else []))" by blast+
  from replay_live [OF this, of ps] held show ?thesis by (simp add: replay_run_def)
qed

lemma replayWriter_complete_witness:
  "rw_target (replay_run (map WriteOutput [''ready''] @ [StartLive True, StartReplay] @ map WriteOutput ['' GET /''])
     (newReplayWriter 32 (open_sink ''''))) = open_sink ''ready GET /''"
  using replayWriter_complete [of "[''ready'']" 32 True "['' GET /'']" "''''"] by simp

text \<open>
  A write that falls between the two steps, after \<open>Start\<close> let go of the lock, comes before the output that was
  captured, although the program wrote it later.
\<close>

theorem replayWriter_out_of_order:
  "sk_out (rw_target (replay_run [WriteOutput ''ready'', StartLive True, WriteOutput ''GET /'', StartReplay]
     (newReplayWriter 32 (open_sink '''')))) = ''GET /ready''"
  by code_simp

end
