(* ===== verification/Static_Server.thy ===== *)
theory Static_Server
  imports Run_Plan
begin

text \<open>
  The static file server, \<open>internal/staticserver/static.go\<close>: the path a request names, the file that is opened in the
  root, the client script that is put into the HTML pages of a live server, and the watch on the root with the broker
  that tells the pages to reload. \<open>os.OpenInRoot\<close> and the walk of the root answer through parameters; \<open>filepath\<close> is
  that of Unix.
\<close>

section \<open>The file of a request\<close>

definition localStaticPath :: "string \<Rightarrow> string option" where
  "localStaticPath urlPath =
     (if contains urlPath [CHR 0x5C] then None
      else (let cleanPath = path_clean (''/'' @ urlPath) in
        if cleanPath = ''/'' then Some ''index.html''
        else (let cleanPath = trim_prefix cleanPath ''/'' in
          if cleanPath = ''.'' \<or> cleanPath = ''..'' \<or> has_prefix cleanPath ''../'' then None else Some cleanPath)))"

text \<open>What opening a name in the root and its \<open>Stat\<close> give; a file whose content cannot be read has none.\<close>

datatype opened = OpenFailed | OpenedDir | OpenedFile "string option" | OpenedSpecial

type_synonym static_root = "string \<Rightarrow> opened"

definition openStaticFile :: "static_root \<Rightarrow> string \<Rightarrow> (string option \<times> string) option" where
  "openStaticFile root relative =
     (case root relative of
        OpenFailed \<Rightarrow> None
      | OpenedDir \<Rightarrow>
          (case root (path_join relative ''index.html'') of
             OpenedFile data \<Rightarrow> Some (data, ''index.html'')
           | _ \<Rightarrow> None)
      | OpenedFile data \<Rightarrow> Some (data, path_base relative)
      | OpenedSpecial \<Rightarrow> None)"

definition isHTMLFile :: "string \<Rightarrow> bool" where
  "isHTMLFile p \<longleftrightarrow> to_lower (path_ext p) = ''.html'' \<or> to_lower (path_ext p) = ''.htm''"

section \<open>The live client\<close>

definition liveEndpoint :: string where "liveEndpoint = ''/__gohere/live''"

definition liveClientScript :: string where
  "liveClientScript = ''<script>(()=>{const source=new EventSource('' @ [CHR 0x22] @ ''/__gohere/live'' @ [CHR 0x22] @
     '');source.onmessage=()=>location.reload();})();</script>''"

definition lowerASCII :: "char \<Rightarrow> char" where
  "lowerASCII b = (if is_upper b then char_of (code b + 32) else b)"

fun equalASCIIFold :: "string \<Rightarrow> string \<Rightarrow> bool" where
  "equalASCIIFold [] [] = True"
| "equalASCIIFold (a # as) (b # bs) = (lowerASCII a = lowerASCII b \<and> equalASCIIFold as bs)"
| "equalASCIIFold _ _ = False"

text \<open>The loop of \<open>lastIndexASCIIFold\<close>, from the given index downwards.\<close>

fun last_index_down :: "string \<Rightarrow> string \<Rightarrow> nat \<Rightarrow> nat option" where
  "last_index_down s needle i =
     (if equalASCIIFold (take (length needle) (drop i s)) needle then Some i
      else (case i of 0 \<Rightarrow> None | Suc j \<Rightarrow> last_index_down s needle j))"

declare last_index_down.simps [simp del]

definition lastIndexASCIIFold :: "string \<Rightarrow> string \<Rightarrow> nat option" where
  "lastIndexASCIIFold s needle =
     (if needle = '''' then Some (length s)
      else if length s < length needle then None
      else last_index_down s needle (length s - length needle))"

definition injectLiveClient :: "string \<Rightarrow> string" where
  "injectLiveClient s =
     (case lastIndexASCIIFold s ''</body>'' of
        None \<Rightarrow> s @ liveClientScript
      | Some i \<Rightarrow> take i s @ liveClientScript @ drop i s)"

section \<open>The handler\<close>

text \<open>\<open>http.ServeContent\<close> gets the name and the content; \<open>Unread\<close> is a file it reads by itself and fails to.\<close>

datatype static_reply = LiveStream | StaticNotFound | Content string string | Unread string

definition serveLiveHTML :: "string option \<Rightarrow> string \<Rightarrow> static_reply" where
  "serveLiveHTML file name = (case file of None \<Rightarrow> StaticNotFound | Some s \<Rightarrow> Content name (injectLiveClient s))"

definition HandlerWithConfig :: "static_root \<Rightarrow> bool \<Rightarrow> string \<Rightarrow> static_reply" where
  "HandlerWithConfig root live urlPath =
     (if live \<and> urlPath = liveEndpoint then LiveStream
      else (case localStaticPath urlPath of
        None \<Rightarrow> StaticNotFound
      | Some localPath \<Rightarrow>
          (case openStaticFile root localPath of
             None \<Rightarrow> StaticNotFound
           | Some (file, name) \<Rightarrow>
               if live \<and> isHTMLFile name then serveLiveHTML file name
               else (case file of None \<Rightarrow> Unread name | Some s \<Rightarrow> Content name s))))"

section \<open>The watch\<close>

record file_state =
  st_size :: int
  st_mod_time :: int

text \<open>An entry of the root: a file with what \<open>Info\<close> gives, a directory, or an entry that could not be read.\<close>

datatype watch_tree = WatchFile string "file_state option" | WatchDir string "watch_tree list" | WatchFailed string

definition ignoredWatchDir :: "string \<Rightarrow> bool" where
  "ignoredWatchDir name \<longleftrightarrow>
     name \<in> set [''.git'', ''node_modules'', ''.cache'', ''.parcel-cache'', ''.next'', ''.nuxt'', ''.turbo'', ''coverage'']"

definition below :: "string \<Rightarrow> string \<Rightarrow> string" where
  "below dir name = (if dir = '''' then name else dir @ ''/'' @ name)"

fun snapshot_node :: "string \<Rightarrow> watch_tree \<Rightarrow> (string \<times> file_state) list"
and snapshot_nodes :: "string \<Rightarrow> watch_tree list \<Rightarrow> (string \<times> file_state) list" where
  "snapshot_node dir (WatchFile name info) = (case info of None \<Rightarrow> [] | Some st \<Rightarrow> [(below dir name, st)])"
| "snapshot_node dir (WatchFailed name) = []"
| "snapshot_node dir (WatchDir name nodes) = (if ignoredWatchDir name then [] else snapshot_nodes (below dir name) nodes)"
| "snapshot_nodes dir [] = []"
| "snapshot_nodes dir (node # nodes) = snapshot_node dir node @ snapshot_nodes dir nodes"

text \<open>No answer is a root that cannot be read.\<close>

definition snapshotStaticRoot :: "watch_tree list option \<Rightarrow> (string \<times> file_state) list option" where
  "snapshotStaticRoot root = map_option (snapshot_nodes '''') root"

definition sameSnapshot :: "(string \<times> file_state) list \<Rightarrow> (string \<times> file_state) list \<Rightarrow> bool" where
  "sameSnapshot a b \<longleftrightarrow> length a = length b \<and> list_all (\<lambda>(path, left). map_of b path = Some left) a"

text \<open>A client of the broker is a channel with one place; \<open>True\<close> is a reload that waits in it.\<close>

record broker =
  br_clients :: "(nat \<times> bool) list"
  br_next :: nat

definition newLiveBroker :: broker where
  "newLiveBroker = \<lparr>br_clients = [], br_next = 0\<rparr>"

definition subscribe :: "broker \<Rightarrow> nat \<times> broker" where
  "subscribe b = (br_next b, b\<lparr>br_clients := br_clients b @ [(br_next b, False)], br_next := Suc (br_next b)\<rparr>)"

definition unsubscribe :: "nat \<Rightarrow> broker \<Rightarrow> broker" where
  "unsubscribe ch b = b\<lparr>br_clients := filter (\<lambda>p. fst p \<noteq> ch) (br_clients b)\<rparr>"

definition broadcast :: "broker \<Rightarrow> broker" where
  "broadcast b = b\<lparr>br_clients := map (\<lambda>(c, _). (c, True)) (br_clients b)\<rparr>"

text \<open>A turn of the loop of a connected page: it takes the reload that waits and writes it.\<close>

definition receive :: "nat \<Rightarrow> broker \<Rightarrow> bool \<times> broker" where
  "receive ch b =
     (map_of (br_clients b) ch = Some True,
      b\<lparr>br_clients := map (\<lambda>(c, waiting). (c, if c = ch then False else waiting)) (br_clients b)\<rparr>)"

text \<open>A tick of \<open>watchStaticRoot\<close>.\<close>

definition watch_tick :: "watch_tree list option \<Rightarrow> (string \<times> file_state) list \<times> broker \<Rightarrow> (string \<times> file_state) list \<times> broker" where
  "watch_tick root = (\<lambda>(previous, b).
     (case snapshotStaticRoot root of
        None \<Rightarrow> (previous, b)
      | Some current \<Rightarrow> if sameSnapshot previous current then (previous, b) else (current, broadcast b)))"

text \<open>What happens to a live server, in any order: ticks of the watch and turns of the pages.\<close>

datatype live_event = WatchTick "watch_tree list option" | PageOpens | PageReads nat | PageCloses nat

definition live_step :: "live_event \<Rightarrow> (string \<times> file_state) list \<times> broker \<Rightarrow> (string \<times> file_state) list \<times> broker" where
  "live_step ev s =
     (case ev of
        WatchTick root \<Rightarrow> watch_tick root s
      | PageOpens \<Rightarrow> (fst s, snd (subscribe (snd s)))
      | PageReads ch \<Rightarrow> (fst s, snd (receive ch (snd s)))
      | PageCloses ch \<Rightarrow> (fst s, unsubscribe ch (snd s)))"

section \<open>Lemmas\<close>

lemma clean_rooted_join:
  "path_clean (''/'' @ u) = slash # join ''/'' (clean_elems (''/'' @ u)) \<and> list_all plain_elem (clean_elems (''/'' @ u))"
proof -
  have p: "has_prefix (''/'' @ u) ''/''" by (simp add: has_prefix_def)
  then show ?thesis using clean_elems_rooted_plain [OF p] by (simp add: path_clean_def has_prefix_def)
qed

lemma split_clean:
  "list_all plain_elem es \<Longrightarrow> es \<noteq> [] \<Longrightarrow> split_on slash (join ''/'' es) = es"
  by (rule split_on_join_plain) (auto simp: list_all_iff plain_elem_def)

lemma join_plain_not_dots:
  assumes "list_all plain_elem es" "es \<noteq> []"
  shows "join ''/'' es \<noteq> ''.''" "join ''/'' es \<noteq> ''..''" "\<not> has_prefix (join ''/'' es) ''../''" "join ''/'' es \<noteq> ''''"
proof -
  have split: "split_on slash (join ''/'' es) = es" by (rule split_clean [OF assms])
  have hd: "plain_elem (hd es)" using assms by (cases es) simp_all
  show "join ''/'' es \<noteq> ''.''" "join ''/'' es \<noteq> ''..''" "join ''/'' es \<noteq> ''''"
    using split hd by (auto simp: plain_elem_def)
  show "\<not> has_prefix (join ''/'' es) ''../''"
  proof
    assume "has_prefix (join ''/'' es) ''../''"
    then obtain r where "join ''/'' es = ''..'' @ slash # r" by (auto simp: has_prefix_def prefix_def)
    then have "split_on slash (join ''/'' es) = ''..'' # split_on slash r" using split_on_append_sep [of slash "''..''" r] by simp
    with split hd show False by (auto simp: plain_elem_def)
  qed
qed

lemma localStaticPath_cases:
  "case localStaticPath u of
     None \<Rightarrow> CHR 0x5C \<in> set u
   | Some p \<Rightarrow> CHR 0x5C \<notin> set u \<and> (\<exists>es. es \<noteq> [] \<and> list_all plain_elem es \<and> p = join ''/'' es)"
proof (cases "contains u [CHR 0x5C]")
  case True
  then show ?thesis by (simp add: localStaticPath_def contains_single)
next
  case False
  obtain es where es: "path_clean (''/'' @ u) = slash # join ''/'' es" "list_all plain_elem es"
    using clean_rooted_join by blast
  have root: "slash # join ''/'' es = ''/'' \<longleftrightarrow> es = []"
    using join_plain_not_dots(4) [OF es(2)] by (cases es) auto
  have strip: "trim_prefix (slash # s) ''/'' = s" for s by (simp add: trim_prefix_def has_prefix_def)
  show ?thesis
  proof (cases "es = []")
    case True
    have "plain_elem ''index.html''" by (simp add: plain_elem_def)
    then have "\<exists>es. es \<noteq> [] \<and> list_all plain_elem es \<and> ''index.html'' = join ''/'' es" by (intro exI [of _ "[''index.html'']"]) simp
    with False True es show ?thesis by (simp add: localStaticPath_def contains_single)
  next
    case ne: False
    note dots = join_plain_not_dots [OF es(2) ne]
    have "localStaticPath u = Some (join ''/'' es)"
      using False ne dots root by (simp add: localStaticPath_def Let_def es(1) strip del: append_Cons)
    with False es(2) ne show ?thesis by (auto simp: contains_single)
  qed
qed

lemma clean_plain_relative:
  assumes "list_all plain_elem es" "es \<noteq> []"
  shows "path_clean (join ''/'' es) = join ''/'' es"
proof -
  obtain c s where j: "join ''/'' es = c # s" using join_plain_not_dots(4) [OF assms] by (cases "join ''/'' es") auto
  have "c \<noteq> slash"
  proof
    assume "c = slash"
    with j split_clean [OF assms] have "hd es = ''''" by (metis append_Nil list.sel(1) split_on.simps split_on_append_sep empty_iff empty_set)
    with assms show False by (cases es) (auto simp: plain_elem_def)
  qed
  then have rel: "\<not> has_prefix (join ''/'' es) ''/''" by (simp add: j has_prefix_def)
  have "clean_elems (join ''/'' es) = es"
    using foldl_clean_plain_append [OF assms(1), of False "[]"] rel by (simp add: clean_elems_def split_clean [OF assms])
  with rel j assms(2) show ?thesis by (simp add: path_clean_def)
qed

lemma join_index:
  assumes "list_all plain_elem es" "es \<noteq> []"
  shows "path_join (join ''/'' es) ''index.html'' = join ''/'' (es @ [''index.html''])"
proof -
  have "join ''/'' (es @ [''index.html'']) = join ''/'' es @ ''/'' @ ''index.html''"
    using assms(2) by (induction es rule: induct_list012) auto
  moreover have "list_all plain_elem (es @ [''index.html''])" using assms(1) by (simp add: plain_elem_def)
  ultimately show ?thesis
    using clean_plain_relative [of "es @ [''index.html'']"] join_plain_not_dots(4) [OF assms] by (simp add: path_join_def)
qed

lemma index_base:
  assumes "list_all plain_elem es" "es \<noteq> []"
  shows "path_base (path_join (join ''/'' es) ''index.html'') = ''index.html''"
proof -
  have "path_join (join ''/'' es) ''index.html'' = join ''/'' es @ slash # ''index.html''"
    unfolding join_index [OF assms] using assms(2) by (induction es rule: induct_list012) auto
  moreover have "trim_right (\<lambda>c. c = slash) (join ''/'' es @ slash # ''index.html'') = join ''/'' es @ slash # ''index.html''"
    by (rule trim_right_id) simp
  moreover have "last_index_byte slash (join ''/'' es @ slash # ''index.html'') = Some (length (join ''/'' es))"
    by (rule last_index_byte_last) simp
  ultimately show ?thesis by (simp add: path_base_def)
qed

text \<open>A file below the root: its path goes down only.\<close>

definition inside :: "string \<Rightarrow> bool" where
  "inside p \<longleftrightarrow> list_all plain_elem (split_on slash p) \<and> CHR 0x5C \<notin> set p"

lemma foldl_clean_subset: "set (foldl (clean_elem r) stack es) \<subseteq> set stack \<union> set es"
proof (induction es arbitrary: stack)
  case (Cons e es)
  have "set (clean_elem r stack e) \<subseteq> set stack \<union> {e}" by (cases stack) (auto simp: clean_elem_def)
  with Cons.IH [of "clean_elem r stack e"] show ?case by auto
qed simp

lemma set_join: "set (join sep es) \<subseteq> set sep \<union> \<Union> (set ` set es)"
  by (induction sep es rule: join.induct) auto

lemma clean_chars: "set (join ''/'' (clean_elems p)) \<subseteq> insert slash (set p)"
proof -
  have "set (clean_elems p) \<subseteq> set (split_on slash p)"
    using foldl_clean_subset [of "has_prefix p ''/''" "[]"] by (simp add: clean_elems_def)
  then have "\<Union> (set ` set (clean_elems p)) \<subseteq> set p" using set_split_on by fastforce
  with set_join [of "''/''" "clean_elems p"] show ?thesis by auto
qed

lemma localStaticPath_inside:
  assumes "localStaticPath u = Some p"
  shows "inside p"
proof -
  from assms localStaticPath_cases [of u] have no: "CHR 0x5C \<notin> set u"
    and ex: "\<exists>es. es \<noteq> [] \<and> list_all plain_elem es \<and> p = join ''/'' es" by simp_all
  then obtain es where es: "es \<noteq> []" "list_all plain_elem es" "p = join ''/'' es" by blast
  have "p = ''index.html'' \<or> p = join ''/'' (clean_elems (''/'' @ u))"
    using assms clean_rooted_join [of u]
    by (auto simp: localStaticPath_def Let_def trim_prefix_def has_prefix_def split: if_splits)
  then have "CHR 0x5C \<notin> set p"
  proof
    assume "p = join ''/'' (clean_elems (''/'' @ u))"
    with clean_chars [of "''/'' @ u"] no show ?thesis by auto
  qed simp
  with es show ?thesis by (simp add: inside_def split_clean)
qed

lemma inside_index: "inside p \<Longrightarrow> inside (path_join p ''index.html'')"
proof -
  assume p: "inside p"
  let ?es = "split_on slash p"
  have es: "list_all plain_elem ?es" "?es \<noteq> []" "p = join ''/'' ?es" using p by (simp_all add: inside_def split_on_join)
  have j: "path_join p ''index.html'' = join ''/'' (?es @ [''index.html''])" using join_index [OF es(1,2)] es(3) by simp
  have plain: "list_all plain_elem (?es @ [''index.html''])" using es(1) by (simp add: plain_elem_def)
  have "CHR 0x5C \<notin> set p" using p by (simp add: inside_def)
  then have "CHR 0x5C \<notin> \<Union> (set ` set (?es @ [''index.html'']))" using set_split_on [of _ slash p] by auto
  then have "CHR 0x5C \<notin> set (path_join p ''index.html'')"
    unfolding j using set_join [of "''/''" "?es @ [''index.html'']"] by auto
  with plain show ?thesis by (simp add: inside_def j split_clean)
qed

section \<open>Properties\<close>

text \<open>
  C15. The static server answers with files below its root only. For every path of a request, content is the content of a
  regular file the root opened under a name whose elements are neither empty nor \<open>.\<close> nor \<open>..\<close> and hold no backslash,
  as it stands or, for an HTML page of a live server, with the client script; only a path with a backslash names no file.
\<close>

theorem static_content_inside:
  "(localStaticPath u = None \<longleftrightarrow> CHR 0x5C \<in> set u) \<and>
   (case HandlerWithConfig root live u of
      Content name s \<Rightarrow>
        (\<exists>p file. inside p \<and> root p = OpenedFile (Some file) \<and> name = path_base p \<and>
           s = (if live \<and> isHTMLFile name then injectLiveClient file else file))
    | Unread name \<Rightarrow> \<exists>p. inside p \<and> root p = OpenedFile None \<and> name = path_base p
    | LiveStream \<Rightarrow> live \<and> u = liveEndpoint
    | StaticNotFound \<Rightarrow> True)"
proof (cases "localStaticPath u")
  case None
  with localStaticPath_cases [of u] show ?thesis by (simp add: HandlerWithConfig_def)
next
  case (Some p)
  have inside: "inside p" "inside (path_join p ''index.html'')" using localStaticPath_inside [OF Some] inside_index by simp_all
  have base: "path_base (path_join p ''index.html'') = ''index.html''"
    using localStaticPath_cases [of u] Some index_base by auto
  have "CHR 0x5C \<notin> set u" using localStaticPath_cases [of u] Some by simp
  with Some inside base show ?thesis
    by (auto simp: HandlerWithConfig_def openStaticFile_def serveLiveHTML_def split: opened.split option.split)
qed

text \<open>The client script goes before the last closing tag of the body, whatever its case, and nothing else changes.\<close>

lemma equalASCIIFold_iff: "equalASCIIFold a b \<longleftrightarrow> map lowerASCII a = map lowerASCII b"
  by (induction a b rule: equalASCIIFold.induct) auto

lemma last_index_down_ok:
  "case last_index_down s needle n of
     None \<Rightarrow> \<forall>i \<le> n. \<not> equalASCIIFold (take (length needle) (drop i s)) needle
   | Some i \<Rightarrow> i \<le> n \<and> equalASCIIFold (take (length needle) (drop i s)) needle \<and>
       (\<forall>j. i < j \<longrightarrow> j \<le> n \<longrightarrow> \<not> equalASCIIFold (take (length needle) (drop j s)) needle)"
proof (induction n)
  case 0
  show ?case by (subst last_index_down.simps) (auto split: option.splits)
next
  case (Suc n)
  then show ?case
    by (subst last_index_down.simps) (auto split: option.splits simp: le_Suc_eq)
qed

text \<open>The abstract server counts the changes; a page knows the count it has seen.\<close>

type_synonym live_spec = "(string \<times> file_state) list \<times> nat \<times> (nat \<times> nat) list \<times> nat"

definition spec_step :: "live_event \<Rightarrow> live_spec \<Rightarrow> live_spec" where
  "spec_step ev = (\<lambda>(previous, changes, pages, fresh).
     (case ev of
        WatchTick root \<Rightarrow>
          (case snapshotStaticRoot root of
             None \<Rightarrow> (previous, changes, pages, fresh)
           | Some current \<Rightarrow> if sameSnapshot previous current then (previous, changes, pages, fresh)
                             else (current, Suc changes, pages, fresh))
      | PageOpens \<Rightarrow> (previous, changes, pages @ [(fresh, changes)], Suc fresh)
      | PageReads ch \<Rightarrow> (previous, changes, map (\<lambda>(c, v). (c, if c = ch then changes else v)) pages, fresh)
      | PageCloses ch \<Rightarrow> (previous, changes, filter (\<lambda>p. fst p \<noteq> ch) pages, fresh)))"

definition live_abs :: "live_spec \<Rightarrow> (string \<times> file_state) list \<times> broker" where
  "live_abs = (\<lambda>(previous, changes, pages, fresh).
     (previous, \<lparr>br_clients = map (\<lambda>(c, v). (c, v < changes)) pages, br_next = fresh\<rparr>))"

definition spec_inv :: "live_spec \<Rightarrow> bool" where
  "spec_inv = (\<lambda>(previous, changes, pages, fresh). list_all (\<lambda>p. snd p \<le> changes) pages)"

lemma spec_inv_step: "spec_inv s \<Longrightarrow> spec_inv (spec_step ev s)"
  by (cases s; cases ev) (auto simp: spec_inv_def spec_step_def list_all_iff split: option.splits if_splits)

lemma live_step_refines: "spec_inv s \<Longrightarrow> live_step ev (live_abs s) = live_abs (spec_step ev s)"
  by (cases s; cases ev)
    (auto simp: spec_inv_def spec_step_def live_abs_def live_step_def watch_tick_def broadcast_def subscribe_def receive_def
      unsubscribe_def list_all_iff filter_map comp_def case_prod_beta less_Suc_eq_le split: option.splits if_splits)


end
