(* ===== verification/Lan_Interface.thy ===== *)
theory Lan_Interface
  imports Lan_Manager "HOL-Library.Word"
begin

unbundle bit_operations_syntax

text \<open>
  The choice of the network for LAN sharing, \<open>internal/laninterface\<close> (\<open>select.go\<close>, \<open>discover.go\<close>, \<open>prompt.go\<close>) and the
  check of \<open>lan_manager.go\<close> that a network chosen before is still there. What the system says of its interfaces, their
  addresses and the Windows profiles answers through a parameter; the flags are the bits of \<open>net.Flags\<close>.
\<close>

section \<open>Candidates\<close>

datatype network_profile = ProfileUnknown | ProfilePrivate | ProfilePublic

datatype iface_error = ErrNoPrivateNetwork | ErrPublicNetwork | ErrAmbiguous | ErrInvalidChoice | SourceError string

text \<open>No prefix is the invalid \<open>netip.Prefix\<close>.\<close>

record iface_candidate =
  ic_index :: int
  ic_name :: string
  ic_prefix :: "(ip \<times> nat) option"
  ic_flags :: "64 word"
  ic_has_gateway :: bool
  ic_profile :: network_profile

definition FlagUp :: "64 word" where "FlagUp = 1"
definition FlagLoopback :: "64 word" where "FlagLoopback = 4"
definition FlagPointToPoint :: "64 word" where "FlagPointToPoint = 8"
definition FlagMulticast :: "64 word" where "FlagMulticast = 16"

definition unsafeInterfaceName :: "string \<Rightarrow> bool" where
  "unsafeInterfaceName raw =
     (let name = to_lower raw in
      list_ex (contains name)
        [''bridge'', ''docker'', ''hamachi'', ''hyper-v'', ''podman'', ''tailscale'', ''tap'', ''tunnel'',
         ''utun'', ''virtualbox'', ''vmware'', ''vpn'', ''vethernet'', ''wireguard'', ''wsl'', ''zerotier''] \<or>
      has_prefix name ''br-'' \<or> has_prefix name ''tun'' \<or> has_prefix name ''wg'')"

fun is_v4 :: "ip \<Rightarrow> bool" where
  "is_v4 (IPv4 a b c d) = True"
| "is_v4 (IPv6 bs) = False"

definition safeCandidate :: "iface_candidate \<Rightarrow> bool" where
  "safeCandidate candidate =
     (if ic_index candidate \<le> 0 \<or> ic_name candidate = '''' then False
      else (case ic_prefix candidate of
        None \<Rightarrow> False
      | Some (address, _) \<Rightarrow>
          if ic_flags candidate AND FlagUp = 0 \<or> ic_flags candidate AND FlagMulticast = 0 then False
          else if ic_flags candidate AND (FlagLoopback OR FlagPointToPoint) \<noteq> 0 then False
          else if \<not> is_v4 address \<or> \<not> ip_is_private address \<or> ip_is_link_local_unicast address then False
          else \<not> unsafeInterfaceName (ic_name candidate)))"

section \<open>Choosing\<close>

type_synonym chooser = "iface_candidate list \<Rightarrow> (iface_error, int) result"

definition Select :: "iface_candidate list \<Rightarrow> chooser option \<Rightarrow> (iface_error, iface_candidate) result" where
  "Select inventory ask =
     (let safe = filter safeCandidate inventory;
          candidates = filter (\<lambda>c. ic_profile c \<noteq> ProfilePublic) safe;
          sawPublic = list_ex (\<lambda>c. ic_profile c = ProfilePublic) safe in
      case candidates of
        [] \<Rightarrow> Inl (if sawPublic then ErrPublicNetwork else ErrNoPrivateNetwork)
      | [only] \<Rightarrow> Inr only
      | _ \<Rightarrow>
          (case ask of
             None \<Rightarrow> Inl ErrAmbiguous
           | Some ask \<Rightarrow>
               res_bind (ask candidates) (\<lambda>index.
                 if index < 0 \<or> index \<ge> int (length candidates) then Inl ErrInvalidChoice
                 else Inr (candidates ! nat index))))"

text \<open>\<open>PromptChooser\<close> with what it reads, up to the end of the line; \<open>None\<close> is an error of the input.\<close>

definition PromptChooser :: "string option \<Rightarrow> chooser" where
  "PromptChooser input candidates =
     (if candidates = [] then Inl ErrInvalidChoice
      else (case input of
        None \<Rightarrow> Inl (SourceError ''read'')
      | Some line \<Rightarrow>
          (let answer = trim_space line in
           if answer = '''' then Inr 0
           else (case atoi answer of
                   None \<Rightarrow> Inl ErrInvalidChoice
                 | Some choice \<Rightarrow>
                     if choice < 1 \<or> choice > int (length candidates) then Inl ErrInvalidChoice else Inr (choice - 1)))))"

section \<open>Discovery\<close>

record net_iface =
  nf_index :: int
  nf_name :: string
  nf_flags :: "64 word"

record iface_source =
  is_interfaces :: "net_iface list option"
  is_addrs :: "net_iface \<Rightarrow> (ip \<times> nat) option list option"
  is_profile :: "int \<Rightarrow> network_profile option"

text \<open>The safe addresses of an interface; an address that is no prefix is left out.\<close>

definition iface_candidates :: "net_iface \<Rightarrow> (ip \<times> nat) option list \<Rightarrow> iface_candidate list" where
  "iface_candidates nf addresses =
     filter safeCandidate
       (map (\<lambda>prefix. \<lparr>ic_index = nf_index nf, ic_name = nf_name nf, ic_prefix = Some prefix, ic_flags = nf_flags nf,
               ic_has_gateway = False, ic_profile = ProfileUnknown\<rparr>)
         (List.map_filter id addresses))"

fun discover_from :: "iface_source \<Rightarrow> net_iface list \<Rightarrow> (iface_error, iface_candidate list) result" where
  "discover_from src [] = Inr []"
| "discover_from src (nf # interfaces) =
     (case is_addrs src nf of
        None \<Rightarrow> Inl (SourceError ''addresses'')
      | Some addresses \<Rightarrow>
          (case iface_candidates nf addresses of
             [] \<Rightarrow> discover_from src interfaces
           | found \<Rightarrow>
               (case is_profile src (nf_index nf) of
                  None \<Rightarrow> Inl (SourceError ''profile'')
                | Some profile \<Rightarrow>
                    res_bind (discover_from src interfaces) (\<lambda>others.
                      Inr (map (\<lambda>c. c\<lparr>ic_profile := profile\<rparr>) found @ others)))))"

definition discover :: "iface_source \<Rightarrow> (iface_error, iface_candidate list) result" where
  "discover src = (case is_interfaces src of None \<Rightarrow> Inl (SourceError ''interfaces'') | Some interfaces \<Rightarrow> discover_from src interfaces)"

definition DiscoverAndSelect :: "iface_source \<Rightarrow> chooser option \<Rightarrow> (iface_error, iface_candidate) result" where
  "DiscoverAndSelect src ask = res_bind (discover src) (\<lambda>candidates. Select candidates ask)"

section \<open>The network of the LAN manager\<close>

fun selectedLANNetworkStillValid :: "iface_candidate \<Rightarrow> iface_candidate list \<Rightarrow> bool" where
  "selectedLANNetworkStillValid selected [] = False"
| "selectedLANNetworkStillValid selected (candidate # candidates) =
     (if ic_index candidate \<noteq> ic_index selected \<or> ic_prefix candidate \<noteq> ic_prefix selected
      then selectedLANNetworkStillValid selected candidates
      else \<not> isl (Select [candidate] None))"

definition networkStillValid :: "iface_source \<Rightarrow> iface_candidate \<Rightarrow> bool" where
  "networkStillValid src selected =
     (case discover src of Inl _ \<Rightarrow> False | Inr candidates \<Rightarrow> selectedLANNetworkStillValid selected candidates)"

section \<open>Lemmas\<close>

definition usable :: "iface_candidate \<Rightarrow> bool" where
  "usable c \<longleftrightarrow> safeCandidate c \<and> ic_profile c \<noteq> ProfilePublic"

lemma Select_usable:
  "Select inventory ask =
     (case filter usable inventory of
        [] \<Rightarrow> Inl (if list_ex (\<lambda>c. safeCandidate c \<and> ic_profile c = ProfilePublic) inventory then ErrPublicNetwork else ErrNoPrivateNetwork)
      | [only] \<Rightarrow> Inr only
      | _ \<Rightarrow>
          (case ask of
             None \<Rightarrow> Inl ErrAmbiguous
           | Some ask \<Rightarrow>
               res_bind (ask (filter usable inventory)) (\<lambda>index.
                 if index < 0 \<or> index \<ge> int (length (filter usable inventory)) then Inl ErrInvalidChoice
                 else Inr (filter usable inventory ! nat index))))"
proof -
  have eq: "filter (\<lambda>c. ic_profile c \<noteq> ProfilePublic) (filter safeCandidate inventory) = filter usable inventory"
    by (simp add: usable_def [abs_def] conj_commute)
  have pub: "list_ex (\<lambda>c. ic_profile c = ProfilePublic) (filter safeCandidate inventory) \<longleftrightarrow>
      list_ex (\<lambda>c. safeCandidate c \<and> ic_profile c = ProfilePublic) inventory"
    by (auto simp: list_ex_iff)
  show ?thesis unfolding Select_def Let_def eq pub by (rule refl)
qed

lemma Select_ok: "Select inventory ask = Inr c \<Longrightarrow> c \<in> set inventory \<and> usable c"
proof -
  assume s: "Select inventory ask = Inr c"
  have "c \<in> set (filter usable inventory)"
  proof (cases "filter usable inventory")
    case (Cons d ds)
    show ?thesis
    proof (cases ds)
      case Nil
      with s Cons show ?thesis by (simp add: Select_usable)
    next
      case several: (Cons d' ds')
      from s obtain ask' index where "ask = Some ask'" "\<not> index < 0" "\<not> int (length (filter usable inventory)) \<le> index"
        "c = filter usable inventory ! nat index"
        by (auto simp: Select_usable Cons several res_bind_Inr_iff split: option.splits if_splits)
      moreover from this have "nat index < length (filter usable inventory)" by linarith
      ultimately show ?thesis using nth_mem by blast
    qed
  qed (use s in \<open>simp add: Select_usable\<close>)
  then show ?thesis by simp
qed

lemma discover_from_ok:
  "discover_from src interfaces = Inr cs \<Longrightarrow>
     list_all (\<lambda>c. safeCandidate c \<and> is_profile src (ic_index c) = Some (ic_profile c)) cs"
proof (induction src interfaces arbitrary: cs rule: discover_from.induct)
  case (2 src nf interfaces)
  have safe: "safeCandidate (c\<lparr>ic_profile := profile\<rparr>) \<longleftrightarrow> safeCandidate c" for c profile
    by (simp add: safeCandidate_def split: option.split prod.split)
  have found: "list_all (\<lambda>c. safeCandidate c \<and> ic_index c = nf_index nf) (iface_candidates nf addresses)" for addresses
    by (auto simp: iface_candidates_def list_all_iff)
  show ?case
  proof (cases "is_addrs src nf")
    case (Some addresses)
    note addrs = Some
    show ?thesis
    proof (cases "iface_candidates nf addresses")
      case Nil
      with "2.prems" addrs "2.IH"(1) [OF addrs Nil] show ?thesis by simp
    next
      case (Cons d ds)
      show ?thesis
      proof (cases "is_profile src (nf_index nf)")
        case (Some profile)
        obtain others where others: "discover_from src interfaces = Inr others"
          "cs = map (\<lambda>c. c\<lparr>ic_profile := profile\<rparr>) (iface_candidates nf addresses) @ others"
          using "2.prems" addrs Cons Some by (auto simp: res_bind_Inr_iff)
        have "list_all (\<lambda>c. safeCandidate c \<and> is_profile src (ic_index c) = Some (ic_profile c)) others"
          by (rule "2.IH"(2) [OF addrs Cons Some others(1)])
        with others(2) found [of addresses] Some show ?thesis by (auto simp: list_all_iff safe)
      qed (use "2.prems" addrs Cons in simp)
    qed
  qed (use "2.prems" in simp)
qed simp

lemma still_valid_ok:
  assumes "list_all (\<lambda>c. safeCandidate c \<and> is_profile src (ic_index c) = Some (ic_profile c)) cs" "c \<in> set cs" "usable c"
  shows "selectedLANNetworkStillValid c cs"
  using assms
proof (induction cs)
  case (Cons d cs)
  show ?case
  proof (cases "ic_index d = ic_index c \<and> ic_prefix d = ic_prefix c")
    case True
    have "is_profile src (ic_index c) = Some (ic_profile c)" using Cons.prems(1,2) by (auto simp: list_all_iff)
    with True Cons.prems have "usable d" by (simp add: usable_def)
    with True show ?thesis by (simp add: Select_usable)
  next
    case False
    with Cons show ?thesis by auto
  qed
qed simp

section \<open>Properties\<close>

text \<open>
  LAN sharing uses a private physical-looking network only. The network that is selected is one the system reported,
  up and multicast, no loopback and no tunnel, with a private IPv4 address and a name that is none of the virtual ones,
  and its Windows profile, asked for that very interface, is not public; without a chooser it is the only such network. A
  network that was just selected passes the check of the monitor as long as the system answers the same.
\<close>

theorem selected_network_safe:
  "case DiscoverAndSelect src ask of
     Inl _ \<Rightarrow> True
   | Inr c \<Rightarrow> usable c \<and> is_profile src (ic_index c) = Some (ic_profile c) \<and> networkStillValid src c \<and>
       (case discover src of Inl _ \<Rightarrow> False | Inr cs \<Rightarrow> c \<in> set cs \<and> (case ask of None \<Rightarrow> filter usable cs = [c] | Some _ \<Rightarrow> True))"
proof (cases "DiscoverAndSelect src ask")
  case (Inr c)
  then obtain cs where cs: "discover src = Inr cs" "Select cs ask = Inr c" by (auto simp: DiscoverAndSelect_def res_bind_Inr_iff)
  note c = Select_ok [OF cs(2)]
  have all: "list_all (\<lambda>c. safeCandidate c \<and> is_profile src (ic_index c) = Some (ic_profile c)) cs"
    using cs(1) discover_from_ok by (auto simp: discover_def split: option.splits)
  have "networkStillValid src c" using still_valid_ok [OF all] c by (simp add: networkStillValid_def cs(1))
  moreover have "is_profile src (ic_index c) = Some (ic_profile c)" using all c by (auto simp: list_all_iff)
  moreover have "case ask of None \<Rightarrow> filter usable cs = [c] | Some _ \<Rightarrow> True"
    using cs(2) [unfolded Select_usable] by (auto split: list.splits option.splits)
  ultimately show ?thesis using Inr c cs(1) by simp
qed simp

end
