(* ===== verification/State_Files.thy ===== *)
theory State_Files
  imports Go_Path
begin

text \<open>
  The files of the state directory: the replacement of a file and the token (\<open>internal/router/router.go\<close>), the log, and
  the runtime records \<open>router.pid\<close> and \<open>router.instance\<close> (\<open>start.go\<close>, \<open>runtime_records.go\<close>).

  A disk maps paths to contents. Every call of the system takes the next answer, whether it succeeds; when the answers
  run out all of them do. A temporary file gets a name of its own beside the file. The locks (\<open>flock\<close>) serialise the
  operations, so that each is a function of the disk; that a lock is not granted is one more answer.
\<close>

section \<open>The disk\<close>

datatype file_error = IoError | NotExist | RecordChanged | BadRecord | BadToken | NoInstance | Joined file_error file_error

record disk =
  dk_files :: "string \<Rightarrow> string option"
  dk_answers :: "bool list"

type_synonym 'a disk_op = "disk \<Rightarrow> (file_error, 'a) result \<times> disk"

definition disk_return :: "'a \<Rightarrow> 'a disk_op" where
  "disk_return a d = (Inr a, d)"

definition disk_bind :: "'a disk_op \<Rightarrow> ('a \<Rightarrow> 'b disk_op) \<Rightarrow> 'b disk_op" where
  "disk_bind f g d = (case f d of (Inl e, d) \<Rightarrow> (Inl e, d) | (Inr a, d) \<Rightarrow> g a d)"

definition next_answer :: "disk \<Rightarrow> bool \<times> disk" where
  "next_answer d = (case dk_answers d of [] \<Rightarrow> (True, d) | ok # answers \<Rightarrow> (ok, d\<lparr>dk_answers := answers\<rparr>))"

definition syscall :: "((string \<Rightarrow> string option) \<Rightarrow> string \<Rightarrow> string option) \<Rightarrow> unit disk_op" where
  "syscall f d = (case next_answer d of (ok, d) \<Rightarrow> if ok then (Inr (), d\<lparr>dk_files := f (dk_files d)\<rparr>) else (Inl IoError, d))"

text \<open>Calls that change no content: making a directory, the mode, \<open>Sync\<close>, \<open>Close\<close>, taking a lock.\<close>

definition touch :: "unit disk_op" where
  "touch = syscall (\<lambda>files. files)"

definition write_file :: "string \<Rightarrow> string \<Rightarrow> unit disk_op" where
  "write_file path text = syscall (\<lambda>files. files(path := Some text))"

definition remove_file :: "string \<Rightarrow> unit disk_op" where
  "remove_file path d = (if dk_files d path = None then (Inl NotExist, d) else syscall (\<lambda>files. files(path := None)) d)"

definition rename_file :: "string \<Rightarrow> string \<Rightarrow> unit disk_op" where
  "rename_file a b d =
     (if dk_files d a = None then (Inl NotExist, d) else syscall (\<lambda>files. (files(b := files a))(a := None)) d)"

definition read_file :: "string \<Rightarrow> string disk_op" where
  "read_file path d =
     (case dk_files d path of
        None \<Rightarrow> (Inl NotExist, d)
      | Some text \<Rightarrow> (case touch d of (Inl e, d) \<Rightarrow> (Inl e, d) | (Inr _, d) \<Rightarrow> (Inr text, d)))"

definition tmp_of :: "string \<Rightarrow> string" where "tmp_of path = path @ ''.1.tmp''"
definition backup_of :: "string \<Rightarrow> string" where "backup_of path = path @ ''.1.bak''"

definition ignoring :: "unit disk_op \<Rightarrow> disk \<Rightarrow> disk" where
  "ignoring f d = snd (f d)"

section \<open>Replacing a file\<close>

definition replaceFileForGOOS :: "string \<Rightarrow> string \<Rightarrow> string \<Rightarrow> unit disk_op" where
  "replaceFileForGOOS goos tmpPath path =
     (if goos = ''windows'' then
        disk_bind (write_file (backup_of path) '''') (\<lambda>_ d.
          case touch d of
            (Inl e, d) \<Rightarrow> (Inl e, ignoring (remove_file (backup_of path)) d)
          | (Inr _, d) \<Rightarrow>
              (case remove_file (backup_of path) d of
                 (r, d) \<Rightarrow>
                   if r \<noteq> Inr () \<and> r \<noteq> Inl NotExist then (r, d)
                   else (case rename_file path (backup_of path) d of
                     (r, d) \<Rightarrow>
                       if r \<noteq> Inr () \<and> r \<noteq> Inl NotExist then (r, d)
                       else (let hasExisting = (r = Inr ()) in
                         case rename_file tmpPath path d of
                           (Inl e, d) \<Rightarrow> (Inl e, if hasExisting then ignoring (rename_file (backup_of path) path) d else d)
                         | (Inr _, d) \<Rightarrow> (Inr (), if hasExisting then ignoring (remove_file (backup_of path)) d else d)))))
      else rename_file tmpPath path)"

text \<open>The deferred removal of the temporary file.\<close>

definition with_cleanup :: "string \<Rightarrow> 'a disk_op \<Rightarrow> 'a disk_op" where
  "with_cleanup tmp f d =
     (case f d of (Inl e, d) \<Rightarrow> (Inl e, ignoring (remove_file tmp) d) | (Inr a, d) \<Rightarrow> (Inr a, d))"

text \<open>The temporary file: written, its mode set, flushed and closed.\<close>

definition write_tmp :: "string \<Rightarrow> string \<Rightarrow> unit disk_op" where
  "write_tmp tmp text =
     disk_bind (write_file tmp text) (\<lambda>_. disk_bind touch (\<lambda>_. disk_bind touch (\<lambda>_. touch)))"

section \<open>The token\<close>

definition validToken :: "string \<Rightarrow> bool" where
  "validToken token \<longleftrightarrow> length token = 64 \<and> list_all is_hex token"

text \<open>No bytes are a failure of the random source.\<close>

definition generateToken :: "nat list option \<Rightarrow> string disk_op" where
  "generateToken random d = (case random of None \<Rightarrow> (Inl IoError, d) | Some bytes \<Rightarrow> (Inr (hex_encode bytes), d))"

definition newline :: string where "newline = [CHR 0x0A]"

definition writeToken :: "string \<Rightarrow> nat list option \<Rightarrow> string \<Rightarrow> string disk_op" where
  "writeToken goos random path =
     disk_bind (generateToken random) (\<lambda>token.
     disk_bind (write_file (tmp_of path) '''') (\<lambda>_.
     with_cleanup (tmp_of path)
       (disk_bind (write_tmp (tmp_of path) (token @ newline)) (\<lambda>_.
        disk_bind (replaceFileForGOOS goos (tmp_of path) path) (\<lambda>_.
        disk_bind touch (\<lambda>_. disk_return token))))))"

definition readTokenFile :: "string \<Rightarrow> string disk_op" where
  "readTokenFile path =
     disk_bind (read_file path) (\<lambda>text.
       let token = trim_space text in
       if \<not> validToken token then (\<lambda>d. (Inl BadToken, d)) else disk_bind touch (\<lambda>_. disk_return token))"

definition EnsureToken :: "string \<Rightarrow> nat list option \<Rightarrow> string \<Rightarrow> string disk_op" where
  "EnsureToken goos random path =
     disk_bind touch (\<lambda>_.
     disk_bind touch (\<lambda>_ d.
       case read_file path d of
         (Inr text, d) \<Rightarrow>
           (let token = trim_space text in
            if \<not> validToken token then writeToken goos random path d
            else disk_bind touch (\<lambda>_. disk_return token) d)
       | (Inl e, d) \<Rightarrow> if e = NotExist then writeToken goos random path d else (Inl e, d)))"

section \<open>The log\<close>

definition maxLogSize :: nat where "maxLogSize = 1024 * 1024"

definition RotateLog :: "string \<Rightarrow> unit disk_op" where
  "RotateLog logPath d =
     (case read_file logPath d of
        (Inl e, d) \<Rightarrow> if e = NotExist then (Inr (), d) else (Inl e, d)
      | (Inr text, d) \<Rightarrow>
          if length text \<le> maxLogSize then (Inr (), d)
          else disk_bind touch (\<lambda>_ d.
            let d = ignoring (remove_file (logPath @ ''.1'')) d in
            disk_bind (rename_file logPath (logPath @ ''.1'')) (\<lambda>_ d.
              case write_file logPath '''' d of
                (Inl e, d) \<Rightarrow>
                  (case rename_file (logPath @ ''.1'') logPath d of
                     (Inl e', d) \<Rightarrow> (Inl (Joined e e'), d)
                   | (Inr _, d) \<Rightarrow> (Inl e, d))
              | (Inr _, d) \<Rightarrow> touch d) d) d)"

section \<open>The runtime records\<close>

datatype pid_state = PIDRecordMissing | PIDRecordPresent int | PIDRecordUnknown file_error

definition parsePIDRecord :: "string \<Rightarrow> int option" where
  "parsePIDRecord text =
     (let text = trim_space text in
      if text = '''' \<or> \<not> list_all is_digit text then None
      else (case atoi text of Some pid \<Rightarrow> if pid \<le> 0 then None else Some pid | None \<Rightarrow> None))"

definition maxPIDRecordBytes :: nat where "maxPIDRecordBytes = 64"

definition readSmallFile :: "string \<Rightarrow> nat \<Rightarrow> string disk_op" where
  "readSmallFile path limit =
     disk_bind (read_file path) (\<lambda>text d. if length text > limit then (Inl BadRecord, d) else (Inr text, d))"

definition ReadPIDRecord :: "string \<Rightarrow> disk \<Rightarrow> pid_state \<times> disk" where
  "ReadPIDRecord path d =
     (case readSmallFile path maxPIDRecordBytes d of
        (Inl e, d) \<Rightarrow> (if e = NotExist then PIDRecordMissing else PIDRecordUnknown e, d)
      | (Inr text, d) \<Rightarrow> (case parsePIDRecord text of None \<Rightarrow> PIDRecordUnknown BadRecord | Some pid \<Rightarrow> PIDRecordPresent pid, d))"

text \<open>\<open>writePIDFile\<close> and \<open>writeRouterInstance\<close>; the last mode is set after the file has been replaced.\<close>

definition write_record :: "string \<Rightarrow> string \<Rightarrow> string \<Rightarrow> unit disk_op" where
  "write_record goos path text =
     disk_bind touch (\<lambda>_.
     disk_bind (write_file (tmp_of path) '''') (\<lambda>_.
     with_cleanup (tmp_of path)
       (disk_bind (write_tmp (tmp_of path) (text @ newline)) (\<lambda>_.
        disk_bind (replaceFileForGOOS goos (tmp_of path) path) (\<lambda>_. touch)))))"

definition writePIDFile :: "string \<Rightarrow> string \<Rightarrow> int \<Rightarrow> unit disk_op" where
  "writePIDFile goos path pid = write_record goos path (itoa pid)"

definition writeRouterInstance :: "string \<Rightarrow> string \<Rightarrow> string \<Rightarrow> unit disk_op" where
  "writeRouterInstance goos path instanceID =
     (if instanceID = '''' then (\<lambda>d. (Inl NoInstance, d)) else write_record goos path instanceID)"

text \<open>A removal, for which a missing file is success.\<close>

definition remove_if_there :: "string \<Rightarrow> unit disk_op" where
  "remove_if_there path d = (case remove_file path d of (Inl e, d) \<Rightarrow> (if e = NotExist then Inr () else Inl e, d) | (Inr _, d) \<Rightarrow> (Inr (), d))"

definition removePIDRecordIfLocked :: "string \<Rightarrow> int \<Rightarrow> unit disk_op" where
  "removePIDRecordIfLocked path pid d =
     (case ReadPIDRecord path d of
        (PIDRecordMissing, d) \<Rightarrow> (Inr (), d)
      | (PIDRecordUnknown e, d) \<Rightarrow> (Inl e, d)
      | (PIDRecordPresent found, d) \<Rightarrow> if found \<noteq> pid then (Inl RecordChanged, d) else remove_if_there path d)"

definition removeInstanceRecordIfLocked :: "string \<Rightarrow> string \<Rightarrow> unit disk_op" where
  "removeInstanceRecordIfLocked path instanceID d =
     (case readSmallFile path 1024 d of
        (Inl e, d) \<Rightarrow> (if e = NotExist then Inr () else Inl e, d)
      | (Inr text, d) \<Rightarrow> if trim_space text \<noteq> instanceID then (Inl RecordChanged, d) else remove_if_there path d)"

definition WritePIDRecord :: "string \<Rightarrow> string \<Rightarrow> int \<Rightarrow> unit disk_op" where
  "WritePIDRecord goos path pid = disk_bind touch (\<lambda>_. disk_bind touch (\<lambda>_. writePIDFile goos path pid))"

definition RemovePIDRecordIf :: "string \<Rightarrow> int \<Rightarrow> unit disk_op" where
  "RemovePIDRecordIf path pid = disk_bind touch (\<lambda>_. removePIDRecordIfLocked path pid)"

definition publishRuntimeRecords :: "string \<Rightarrow> string \<Rightarrow> string \<Rightarrow> int \<Rightarrow> string \<Rightarrow> unit disk_op" where
  "publishRuntimeRecords goos pidPath instancePath pid instanceID =
     disk_bind touch (\<lambda>_.
     disk_bind touch (\<lambda>_.
     disk_bind (writePIDFile goos pidPath pid) (\<lambda>_ d.
       case writeRouterInstance goos instancePath instanceID d of
         (Inl e, d) \<Rightarrow>
           (case removePIDRecordIfLocked pidPath pid d of (Inl e', d) \<Rightarrow> (Inl (Joined e e'), d) | (Inr _, d) \<Rightarrow> (Inl e, d))
       | (Inr _, d) \<Rightarrow> (Inr (), d))))"

text \<open>\<open>there\<close>: whether the state directory exists. Both records are tried, and the errors joined.\<close>

definition releaseRuntimeRecords :: "bool \<Rightarrow> string \<Rightarrow> string \<Rightarrow> int \<Rightarrow> string \<Rightarrow> unit disk_op" where
  "releaseRuntimeRecords there pidPath instancePath pid instanceID d =
     (if \<not> there then (Inr (), d)
      else disk_bind touch (\<lambda>_ d.
        case removePIDRecordIfLocked pidPath pid d of
          (r, d) \<Rightarrow>
            (case removeInstanceRecordIfLocked instancePath instanceID d of
               (r', d) \<Rightarrow>
                 ((case (r, r') of
                     (Inl e, Inl e') \<Rightarrow> Inl (Joined e e')
                   | (Inl e, Inr _) \<Rightarrow> Inl e
                   | (Inr _, Inl e') \<Rightarrow> Inl e'
                   | (Inr _, Inr _) \<Rightarrow> Inr ()), d))) d)"

section \<open>What the calls of the system do\<close>

lemma syscall_cases:
  assumes "syscall f d = (r, d')"
  obtains (ok) "r = Inr ()" "dk_files d' = f (dk_files d)" | (refused) "r = Inl IoError" "dk_files d' = dk_files d"
  using assms by (auto simp: syscall_def next_answer_def split: list.splits if_splits prod.splits)

lemma touch_files [simp]: "dk_files (snd (touch d)) = dk_files d"
  by (auto simp: touch_def syscall_def next_answer_def split: list.splits)

lemma write_file_cases:
  assumes "write_file path text d = (r, d')"
  obtains (ok) "r = Inr ()" "dk_files d' = (dk_files d)(path := Some text)" | (refused) "r = Inl IoError" "dk_files d' = dk_files d"
  using assms unfolding write_file_def by (elim syscall_cases) auto

lemma remove_file_cases:
  assumes "remove_file path d = (r, d')"
  obtains (missing) "r = Inl NotExist" "d' = d" "dk_files d path = None"
  | (ok) "r = Inr ()" "dk_files d' = (dk_files d)(path := None)"
  | (refused) "r = Inl IoError" "dk_files d' = dk_files d"
  using assms unfolding remove_file_def by (cases "dk_files d path") (auto elim!: syscall_cases)

lemma rename_file_cases:
  assumes "rename_file a b d = (r, d')"
  obtains (missing) "r = Inl NotExist" "d' = d" "dk_files d a = None"
  | (ok) body where "r = Inr ()" "dk_files d a = Some body" "dk_files d' = (dk_files d)(b := Some body, a := None)"
  | (refused) "r = Inl IoError" "dk_files d' = dk_files d"
  using assms unfolding rename_file_def by (cases "dk_files d a") (auto elim!: syscall_cases)

lemma read_file_cases:
  assumes "read_file path d = (r, d')"
  obtains (missing) "r = Inl NotExist" "d' = d" "dk_files d path = None"
  | (ok) body where "r = Inr body" "dk_files d path = Some body" "dk_files d' = dk_files d"
  | (refused) "r = Inl IoError" "dk_files d' = dk_files d"
  using assms unfolding read_file_def touch_def
  by (cases "dk_files d path") (auto split: prod.splits sum.splits elim!: syscall_cases)

lemma remove_ignored:
  "dk_files (ignoring (remove_file path) d) = dk_files d
   \<or> dk_files (ignoring (remove_file path) d) = (dk_files d)(path := None)"
  unfolding ignoring_def by (cases "remove_file path d") (auto elim!: remove_file_cases)

lemma rename_ignored:
  "dk_files (ignoring (rename_file a b) d) = dk_files d
   \<or> (\<exists>body. dk_files d a = Some body \<and> dk_files (ignoring (rename_file a b) d) = (dk_files d)(b := Some body, a := None))"
  unfolding ignoring_def by (cases "rename_file a b d") (auto elim!: rename_file_cases)

lemma bind_cases:
  assumes "disk_bind f g d = (r, d')"
  obtains (left) e where "f d = (Inl e, d')" "r = Inl e" | (right) a d1 where "f d = (Inr a, d1)" "g a d1 = (r, d')"
  using assms by (auto simp: disk_bind_def split: prod.splits sum.splits)

lemma touch_cases:
  assumes "touch d = (r, d')"
  obtains (ok) "r = Inr ()" "dk_files d' = dk_files d" | (refused) "r = Inl IoError" "dk_files d' = dk_files d"
  using assms unfolding touch_def by (elim syscall_cases) auto

lemma names_differ [simp]:
  "tmp_of path \<noteq> path" "path \<noteq> tmp_of path" "backup_of path \<noteq> path" "path \<noteq> backup_of path"
  "tmp_of path \<noteq> backup_of path" "backup_of path \<noteq> tmp_of path"
  by (simp_all add: tmp_of_def backup_of_def)

section \<open>Paths of the state directory\<close>

lemma join_append_one: "join sep (es @ [x]) = (if es = [] then x else join sep es @ sep @ x)"
  by (induction es rule: induct_list012) auto

lemma split_on_sep: "split_on c (a @ c # b) = split_on c a @ split_on c b"
  by (induction a) (auto split: list.splits)

lemma clean_join:
  assumes "plain_elem x" "dir \<noteq> ''''"
  shows "clean_elems (dir @ ''/'' @ x)
    = rev (foldl (clean_elem (has_prefix dir ''/'')) [] (split_on slash dir)) @ [x]"
proof -
  have rooted: "has_prefix (dir @ ''/'' @ x) ''/'' = has_prefix dir ''/''"
    using assms(2) by (cases dir) (simp_all add: has_prefix_def)
  have "split_on slash (dir @ slash # x) = split_on slash dir @ [x]"
    using assms(1) by (simp add: split_on_sep split_on_none plain_elem_def)
  then have "split_on slash (dir @ ''/'' @ x) = split_on slash dir @ [x]" by simp
  then show ?thesis using assms(1) unfolding clean_elems_def rooted
    by (simp add: clean_elem_def plain_elem_def)
qed

lemma path_join_plain:
  obtains front where "\<And>x. plain_elem x \<Longrightarrow> path_join dir x = front @ x"
proof (cases "dir = ''''")
  case True
  have "path_join dir x = '''' @ x" if "plain_elem x" for x
  proof -
    have "split_on slash x = [x]" using that by (intro split_on_none) (simp add: plain_elem_def)
    moreover have "\<not> has_prefix x ''/''" using that by (cases x) (auto simp: plain_elem_def has_prefix_def)
    ultimately show ?thesis using that True
      by (simp add: path_join_def path_clean_def clean_elems_def clean_elem_def plain_elem_def)
  qed
  then show thesis by (rule that)
next
  case False
  define es where "es = rev (foldl (clean_elem (has_prefix dir ''/'')) [] (split_on slash dir))"
  define front where "front = (if has_prefix dir ''/'' then ''/'' else '''') @ (if es = [] then '''' else join ''/'' es @ ''/'')"
  have "path_join dir x = front @ x" if plain: "plain_elem x" for x
  proof -
    have elems: "clean_elems (dir @ ''/'' @ x) = es @ [x]" using clean_join [OF plain False] by (simp add: es_def)
    have rooted: "has_prefix (dir @ ''/'' @ x) ''/'' = has_prefix dir ''/''"
      using False by (cases dir) (simp_all add: has_prefix_def)
    have ne: "x \<noteq> ''''" using plain by (simp add: plain_elem_def)
    have "path_join dir x = path_clean (dir @ ''/'' @ x)" using False ne by (simp add: path_join_def)
    also have "\<dots> = (if has_prefix dir ''/'' then ''/'' else '''') @ join ''/'' (es @ [x])"
      unfolding path_clean_def elems rooted by simp
    also have "\<dots> = front @ x" by (simp add: front_def join_append_one)
    finally show ?thesis .
  qed
  then show thesis by (rule that)
qed

section \<open>Replacing a file\<close>

text \<open>
  What became of the file after a replacement: the new contents, the old ones, or - on Windows, where the file is first
  moved away - no file, the old contents being in the backup.
\<close>

definition replaced :: "string \<Rightarrow> string \<Rightarrow> string \<Rightarrow> disk \<Rightarrow> disk \<Rightarrow> bool \<Rightarrow> bool" where
  "replaced goos text path d d' ok \<longleftrightarrow>
     (if ok then dk_files d' path = Some text
      else dk_files d' path = dk_files d path
           \<or> (goos = ''windows'' \<and> dk_files d' path = None \<and> dk_files d' (backup_of path) = dk_files d path))
     \<and> (\<forall>p. p \<noteq> path \<and> p \<noteq> tmp_of path \<and> p \<noteq> backup_of path \<longrightarrow> dk_files d' p = dk_files d p)"

lemma replace_unix:
  assumes "dk_files d (tmp_of path) = Some text" "replaceFileForGOOS goos (tmp_of path) path d = (r, d')" "goos \<noteq> ''windows''"
  shows "replaced goos text path d d' (r = Inr ())"
  using assms by (auto simp: replaceFileForGOOS_def replaced_def elim!: rename_file_cases)

lemma replace_windows_last:
  assumes tmp: "dk_files d (tmp_of path) = Some text"
    and step: "(case rename_file (tmp_of path) path d of
        (Inl e, d) \<Rightarrow> (Inl e, if hasExisting then ignoring (rename_file (backup_of path) path) d else d)
      | (Inr _, d) \<Rightarrow> (Inr (), if hasExisting then ignoring (remove_file (backup_of path)) d else d)) = (r, d')"
    and moved: "dk_files d path = None" "dk_files d (backup_of path) = old \<or> (\<not> hasExisting \<and> old = None)"
    and there: "hasExisting \<Longrightarrow> old \<noteq> None"
  shows "if r = Inr () then dk_files d' path = Some text
         else dk_files d' path = old \<or> (dk_files d' path = None \<and> dk_files d' (backup_of path) = old)"
    "\<forall>p. p \<noteq> path \<and> p \<noteq> tmp_of path \<and> p \<noteq> backup_of path \<longrightarrow> dk_files d' p = dk_files d p"
proof -
  obtain r1 d1 where ren: "rename_file (tmp_of path) path d = (r1, d1)" by (cases "rename_file (tmp_of path) path d")
  show "if r = Inr () then dk_files d' path = Some text
         else dk_files d' path = old \<or> (dk_files d' path = None \<and> dk_files d' (backup_of path) = old)"
    using ren
  proof (cases rule: rename_file_cases)
    case missing then show ?thesis using tmp by simp
  next
    case ok then show ?thesis using step ren tmp remove_ignored [of "backup_of path" d1] by (auto split: if_splits)
  next
    case refused then show ?thesis
      using step ren tmp moved rename_ignored [of "backup_of path" path d1] by (auto split: if_splits)
  qed
  show "\<forall>p. p \<noteq> path \<and> p \<noteq> tmp_of path \<and> p \<noteq> backup_of path \<longrightarrow> dk_files d' p = dk_files d p"
    using ren
  proof (cases rule: rename_file_cases)
    case missing then show ?thesis using tmp by simp
  next
    case ok then show ?thesis using step ren tmp remove_ignored [of "backup_of path" d1] by (auto split: if_splits)
  next
    case refused then show ?thesis
      using step ren tmp rename_ignored [of "backup_of path" path d1] by (auto split: if_splits)
  qed
qed

lemma replace_windows:
  assumes tmp: "dk_files d (tmp_of path) = Some text" and step: "replaceFileForGOOS ''windows'' (tmp_of path) path d = (r, d')"
  shows "replaced ''windows'' text path d d' (r = Inr ())"
proof -
  have unfolded: "disk_bind (write_file (backup_of path) '''') (\<lambda>_ d.
          case touch d of
            (Inl e, d) \<Rightarrow> (Inl e, ignoring (remove_file (backup_of path)) d)
          | (Inr _, d) \<Rightarrow>
              (case remove_file (backup_of path) d of
                 (r, d) \<Rightarrow>
                   if r \<noteq> Inr () \<and> r \<noteq> Inl NotExist then (r, d)
                   else (case rename_file path (backup_of path) d of
                     (r, d) \<Rightarrow>
                       if r \<noteq> Inr () \<and> r \<noteq> Inl NotExist then (r, d)
                       else (case rename_file (tmp_of path) path d of
                           (Inl e, d) \<Rightarrow> (Inl e, if r = Inr () then ignoring (rename_file (backup_of path) path) d else d)
                         | (Inr _, d) \<Rightarrow> (Inr (), if r = Inr () then ignoring (remove_file (backup_of path)) d else d))))) d
      = (r, d')"
    using step unfolding replaceFileForGOOS_def Let_def if_P [OF refl] .
  show ?thesis using unfolded
  proof (cases rule: bind_cases)
    case (left e)
    then show ?thesis by (auto simp: replaced_def elim!: write_file_cases)
  next
    case (right a d1)
    from right(1) have d1: "dk_files d1 = (dk_files d)(backup_of path := Some '''')"
      by (auto elim!: write_file_cases)
    obtain r2 d2 where t: "touch d1 = (r2, d2)" by (cases "touch d1")
    then have d2: "dk_files d2 = dk_files d1" by (auto elim!: touch_cases)
    show ?thesis
    proof (cases r2)
      case (Inl e)
      then show ?thesis using right(2) t d1 d2 remove_ignored [of "backup_of path" d2]
        by (auto simp: replaced_def)
    next
      case (Inr u)
      obtain r3 d3 where rm: "remove_file (backup_of path) d2 = (r3, d3)" by (cases "remove_file (backup_of path) d2")
      note here = right(2) [unfolded t Inr prod.case sum.case rm]
      from rm show ?thesis
      proof (cases rule: remove_file_cases)
        case missing
        then show ?thesis using d1 d2 by simp
      next
        case refused
        then show ?thesis using here d1 d2 by (auto simp: replaced_def)
      next
        case ok
        obtain r4 d4 where mv: "rename_file path (backup_of path) d3 = (r4, d4)" by (cases "rename_file path (backup_of path) d3")
        have d3: "dk_files d3 = (dk_files d)(backup_of path := None)" using ok d1 d2 by simp
        note there = here [unfolded mv prod.case]
        have fin: "(case rename_file (tmp_of path) path d4 of
                     (Inl e, d) \<Rightarrow> (Inl e, if r4 = Inr () then ignoring (rename_file (backup_of path) path) d else d)
                   | (Inr _, d) \<Rightarrow> (Inr (), if r4 = Inr () then ignoring (remove_file (backup_of path)) d else d)) = (r, d')"
          if "r4 = Inr () \<or> r4 = Inl NotExist"
          using there ok that by auto
        from mv show ?thesis
        proof (cases rule: rename_file_cases)
          case missing
          then show ?thesis
            using replace_windows_last [OF _ fin, of "text" "None"] d3 tmp by (auto simp: replaced_def)
        next
          case (ok old)
          then show ?thesis
            using replace_windows_last [OF _ fin, of "text" "Some old"] d3 tmp by (auto simp: replaced_def)
        next
          case refused
          then show ?thesis using there ok(1) d3 by (auto simp: replaced_def)
        qed
      qed
    qed
  qed
qed

lemma replace_file:
  assumes "dk_files d (tmp_of path) = Some text" "replaceFileForGOOS goos (tmp_of path) path d = (r, d')"
  shows "replaced goos text path d d' (r = Inr ())"
  using assms replace_unix replace_windows by (cases "goos = ''windows''") auto

section \<open>Writing through a temporary file\<close>

lemma write_tmp_files:
  assumes "write_tmp tmp text d = (r, d')"
  shows "dk_files d' = (if r = Inr () then (dk_files d)(tmp := Some text) else dk_files d')"
    "\<forall>p. p \<noteq> tmp \<longrightarrow> dk_files d' p = dk_files d p"
  using assms unfolding write_tmp_def by (auto elim!: bind_cases write_file_cases touch_cases)

lemma with_cleanup_files:
  assumes "with_cleanup tmp f d = (r, d')"
  obtains (ok) a where "r = Inr a" "f d = (Inr a, d')"
  | (failed) e d1 where "r = Inl e" "f d = (Inl e, d1)" "\<forall>p. p \<noteq> tmp \<longrightarrow> dk_files d' p = dk_files d1 p"
proof -
  obtain q d1 where f: "f d = (q, d1)" by (cases "f d")
  show thesis
  proof (cases q)
    case (Inl e)
    then show thesis using assms f remove_ignored [of tmp d1] by (intro failed [of e d1]) (auto simp: with_cleanup_def)
  next
    case (Inr a)
    then show thesis using assms f by (intro ok [of a]) (auto simp: with_cleanup_def)
  qed
qed

text \<open>
  What every writer of the state directory does (\<open>writeToken\<close>, \<open>writePIDFile\<close>, \<open>writeRouterInstance\<close>): the temporary
  file, the replacement, and a last call that changes no content.
\<close>

definition published :: "string \<Rightarrow> string \<Rightarrow> string \<Rightarrow> disk \<Rightarrow> disk \<Rightarrow> bool \<Rightarrow> bool" where
  "published goos path text d d' ok \<longleftrightarrow>
     (if ok then dk_files d' path = Some text
      else dk_files d' path = dk_files d path \<or> dk_files d' path = Some text
           \<or> (goos = ''windows'' \<and> dk_files d' path = None \<and> dk_files d' (backup_of path) = dk_files d path))
     \<and> (\<forall>p. p \<noteq> path \<and> p \<noteq> tmp_of path \<and> p \<noteq> backup_of path \<longrightarrow> dk_files d' p = dk_files d p)"

lemma publish_body:
  assumes step: "disk_bind (write_tmp (tmp_of path) text) (\<lambda>_.
        disk_bind (replaceFileForGOOS goos (tmp_of path) path) (\<lambda>_. finish)) d = (r, d')"
    and finish: "\<And>d r d'. finish d = (r, d') \<Longrightarrow> dk_files d' = dk_files d"
  shows "published goos path text d d' (\<exists>a. r = Inr a)"
  using step
proof (cases rule: bind_cases)
  case (left e)
  then show ?thesis using write_tmp_files [OF left(1)] by (auto simp: published_def)
next
  case (right u d1)
  have d1: "dk_files d1 = (dk_files d)(tmp_of path := Some text)" using write_tmp_files(1) [OF right(1)] by simp
  from right(2) show ?thesis
  proof (cases rule: bind_cases)
    case (left e)
    then show ?thesis using replace_file [OF _ left(1), of "text"] d1 by (auto simp: replaced_def published_def)
  next
    case (right u d2)
    then show ?thesis using replace_file [OF _ right(1), of "text"] d1 finish [OF right(2)]
      by (auto simp: replaced_def published_def)
  qed
qed

lemma publish_file:
  assumes step: "disk_bind (write_file (tmp_of path) '''') (\<lambda>_.
        with_cleanup (tmp_of path) (disk_bind (write_tmp (tmp_of path) text) (\<lambda>_.
        disk_bind (replaceFileForGOOS goos (tmp_of path) path) (\<lambda>_. finish)))) d = (r, d')"
    and finish: "\<And>d r d'. finish d = (r, d') \<Longrightarrow> dk_files d' = dk_files d"
  shows "published goos path text d d' (\<exists>a. r = Inr a)"
  using step
proof (cases rule: bind_cases)
  case (left e)
  then show ?thesis by (auto simp: published_def elim!: write_file_cases)
next
  case (right u d1)
  have d1: "dk_files d1 = (dk_files d)(tmp_of path := Some '''')" using right(1) by (auto elim!: write_file_cases)
  from right(2) show ?thesis
  proof (cases rule: with_cleanup_files)
    case (ok a)
    then show ?thesis using publish_body [OF ok(2) finish] d1 by (auto simp: published_def)
  next
    case (failed e d2)
    then show ?thesis using publish_body [OF failed(2) finish] d1 by (auto simp: published_def)
  qed
qed

lemma touch_finish: "touch d = (r, d') \<Longrightarrow> dk_files d' = dk_files d"
  by (elim touch_cases)

lemma touch_return_finish: "disk_bind touch (\<lambda>_. disk_return a) d = (r, d') \<Longrightarrow> dk_files d' = dk_files d"
  by (auto simp: disk_return_def elim!: bind_cases touch_cases)

section \<open>The token\<close>

lemma hex_not_space: "is_hex c \<Longrightarrow> \<not> is_space c"
  by (auto simp: is_hex_def byte_defs)

lemma dropWhile_none: "list_all (\<lambda>c. \<not> p c) s \<Longrightarrow> dropWhile p s = s"
  by (cases s) auto

lemma trim_line: "list_all (\<lambda>c. \<not> is_space c) s \<Longrightarrow> trim_space (s @ newline) = s"
proof -
  assume s: "list_all (\<lambda>c. \<not> is_space c) s"
  have nl: "is_space (CHR 0x0A)" by (simp add: byte_defs)
  have "dropWhile is_space (rev s) = rev s" using s by (intro dropWhile_none) simp
  then show ?thesis using s nl
    by (cases s) (auto simp: str_defs newline_def)
qed

lemma trim_token: "list_all is_hex token \<Longrightarrow> trim_space (token @ newline) = token"
  by (rule trim_line) (auto simp: list_all_iff hex_not_space)

lemma writeToken_files:
  assumes "writeToken goos (Some random) path d = (r, d')"
  shows "published goos path (hex_encode random @ newline) d d' (\<exists>a. r = Inr a)"
  using assms unfolding writeToken_def generateToken_def
  by (simp add: disk_bind_def [of "\<lambda>d. (Inr _, d)"] publish_file [OF _ touch_return_finish])

lemma writeToken_token:
  assumes "writeToken goos (Some random) path d = (Inr token, d')"
  shows "token = hex_encode random"
  using assms unfolding writeToken_def generateToken_def
  by (auto simp: disk_return_def elim!: bind_cases with_cleanup_files)

lemma readTokenFile_quiet:
  assumes "dk_files d path = Some text" "dk_answers d = []" "validToken (trim_space text)"
  shows "fst (readTokenFile path d) = Inr (trim_space text)"
  using assms by (simp add: readTokenFile_def disk_bind_def read_file_def touch_def syscall_def next_answer_def
      disk_return_def)

lemma token_ok: "length random = 32 \<Longrightarrow> list_all (\<lambda>b. b < 256) random \<Longrightarrow> validToken (hex_encode random)"
  by (auto simp: validToken_def list_all_iff intro: hex_encode_is_hex)

lemma EnsureToken_again:
  assumes "dk_files d path = Some text" "dk_answers d = []" "validToken (trim_space text)"
  shows "fst (EnsureToken goos random path d) = Inr (trim_space text)"
  using assms by (simp add: EnsureToken_def disk_bind_def read_file_def touch_def syscall_def next_answer_def
      disk_return_def)

lemma EnsureToken_files:
  assumes "EnsureToken goos (Some random) path d = (r, d')" "length random = 32" "list_all (\<lambda>b. b < 256) random"
  shows "case r of
      Inr token \<Rightarrow> validToken token \<and> (\<exists>text. dk_files d' path = Some text \<and> trim_space text = token)
    | Inl e \<Rightarrow> dk_files d' path = dk_files d path \<or> dk_files d' path = Some (hex_encode random @ newline)
               \<or> (goos = ''windows'' \<and> dk_files d' path = None \<and> dk_files d' (backup_of path) = dk_files d path)"
proof -
  note valid = token_ok [OF assms(2,3)]
  have fresh: ?thesis if "writeToken goos (Some random) path d1 = (r, d')" "dk_files d1 = dk_files d" for d1
  proof (cases r)
    case (Inl e)
    then show ?thesis using writeToken_files [OF that(1)] that(2) by (auto simp: published_def)
  next
    case (Inr a)
    then show ?thesis using writeToken_files [OF that(1)] writeToken_token [of goos random path d1 a d'] that valid
      by (auto simp: published_def trim_token validToken_def)
  qed
  from assms(1) show ?thesis unfolding EnsureToken_def
  proof (cases rule: bind_cases)
    case (left e)
    then show ?thesis by (auto elim!: touch_cases)
  next
    case (right u d1)
    have d1: "dk_files d1 = dk_files d" using right(1) by (auto elim!: touch_cases)
    from right(2) show ?thesis
    proof (cases rule: bind_cases)
      case (left e)
      then show ?thesis using d1 by (auto elim!: touch_cases)
    next
      case (right u d2)
      have d2: "dk_files d2 = dk_files d" using right(1) d1 by (auto elim!: touch_cases)
      obtain q d3 where rd: "read_file path d2 = (q, d3)" by (cases "read_file path d2")
      note here = right(2) [unfolded rd prod.case]
      from rd show ?thesis
      proof (cases rule: read_file_cases)
        case missing
        then show ?thesis using here d2 by (auto intro!: fresh [of d2])
      next
        case refused
        then show ?thesis using here d2 by auto
      next
        case (ok body)
        show ?thesis
        proof (cases "validToken (trim_space body)")
          case True
          then show ?thesis using here ok d2 by (auto simp: Let_def disk_return_def elim!: bind_cases touch_cases)
        next
          case False
          then show ?thesis using here ok d2 by (auto simp: Let_def intro!: fresh [of d3])
        qed
      qed
    qed
  qed
qed

text \<open>
  C26. Whatever calls fail and whatever the file held, \<open>EnsureToken\<close> either returns a token of 64 hexadecimal digits that
  the file then holds - every later \<open>ReadToken\<close> and \<open>EnsureToken\<close> returns the same - or an error with the file as it was,
  replaced by the new token, or, on Windows, moved to its backup: never a torn token.
\<close>

theorem EnsureToken_stable:
  assumes "length random = 32" "list_all (\<lambda>b. b < 256) random"
  shows "case EnsureToken goos (Some random) path d of
      (Inr token, d') \<Rightarrow> validToken token
        \<and> fst (readTokenFile path (d'\<lparr>dk_answers := []\<rparr>)) = Inr token
        \<and> fst (EnsureToken goos random' path (d'\<lparr>dk_answers := []\<rparr>)) = Inr token
    | (Inl e, d') \<Rightarrow> dk_files d' path = dk_files d path \<or> dk_files d' path = Some (hex_encode random @ newline)
        \<or> (goos = ''windows'' \<and> dk_files d' path = None \<and> dk_files d' (backup_of path) = dk_files d path)"
proof -
  obtain r d' where run: "EnsureToken goos (Some random) path d = (r, d')" by (cases "EnsureToken goos (Some random) path d")
  note facts = EnsureToken_files [OF run assms]
  show ?thesis
  proof (cases r)
    case (Inl e)
    then show ?thesis using facts run by simp
  next
    case (Inr token)
    then obtain body where "dk_files d' path = Some body" "trim_space body = token" "validToken token" using facts by auto
    then show ?thesis using Inr run
        readTokenFile_quiet [of "d'\<lparr>dk_answers := []\<rparr>" path body] EnsureToken_again [of "d'\<lparr>dk_answers := []\<rparr>" path body]
      by simp
  qed
qed

theorem EnsureToken_stable_witness:
  "let random = replicate 32 (171 :: nat); d = \<lparr>dk_files = Map.empty, dk_answers = []\<rparr> in
   fst (EnsureToken ''linux'' (Some random) ''token'' d) = Inr (hex_encode random)
   \<and> (case EnsureToken ''linux'' (Some random) ''token'' d of
      (Inr token, d') \<Rightarrow> fst (readTokenFile ''token'' (d'\<lparr>dk_answers := []\<rparr>)) = Inr token
    | (Inl e, d') \<Rightarrow> False)"
proof -
  let ?random = "replicate 32 (171 :: nat)" and ?d = "\<lparr>dk_files = Map.empty, dk_answers = []\<rparr>"
  have got: "fst (EnsureToken ''linux'' (Some ?random) ''token'' ?d) = Inr (hex_encode ?random)"
    by (simp add: EnsureToken_def writeToken_def generateToken_def with_cleanup_def write_tmp_def replaceFileForGOOS_def
        disk_bind_def read_file_def write_file_def rename_file_def touch_def syscall_def next_answer_def disk_return_def
        tmp_of_def numeral_eq_Suc)
  have "list_all (\<lambda>b. b < 256) ?random" by (simp add: list_all_iff)
  from EnsureToken_stable [where random = ?random and goos = "''linux''" and path = "''token''" and d = ?d, OF _ this] got show ?thesis
    by (auto simp: Let_def split: prod.splits sum.splits)
qed

section \<open>The log\<close>

lemma RotateLog_files:
  assumes run: "RotateLog log d = (r, d')" and log_there: "dk_files d log = Some body" "maxLogSize < length body"
  shows "if r = Inr () then dk_files d' = (dk_files d)(log := Some '''', log @ ''.1'' := Some body)
     else dk_files d' log = Some body \<or> dk_files d' (log @ ''.1'') = Some body"
proof -
  let ?old = "log @ ''.1''"
  obtain q d1 where rd: "read_file log d = (q, d1)" by (cases "read_file log d")
  note step = run [unfolded RotateLog_def rd prod.case]
  from rd show ?thesis
  proof (cases rule: read_file_cases)
    case missing then show ?thesis using log_there by simp
  next
    case refused then show ?thesis using step log_there by auto
  next
    case (ok content)
    then have content: "content = body" and d1: "dk_files d1 = dk_files d" using log_there by auto
    have "disk_bind touch (\<lambda>_ d.
            let d = ignoring (remove_file ?old) d in
            disk_bind (rename_file log ?old) (\<lambda>_ d.
              case write_file log '''' d of
                (Inl e, d) \<Rightarrow>
                  (case rename_file ?old log d of
                     (Inl e', d) \<Rightarrow> (Inl (Joined e e'), d)
                   | (Inr _, d) \<Rightarrow> (Inl e, d))
              | (Inr _, d) \<Rightarrow> touch d) d) d1 = (r, d')"
      using step ok content log_there by simp
    then show ?thesis
    proof (cases rule: bind_cases)
      case (left e) then show ?thesis using d1 log_there by (auto elim!: touch_cases)
    next
      case (right u d2)
      have d2: "dk_files d2 = dk_files d" using right(1) d1 by (auto elim!: touch_cases)
      define d3 where "d3 = ignoring (remove_file ?old) d2"
      have d3: "dk_files d3 = dk_files d \<or> dk_files d3 = (dk_files d)(?old := None)"
        using remove_ignored [of ?old d2] d2 by (simp add: d3_def)
      have "disk_bind (rename_file log ?old) (\<lambda>_ d.
              case write_file log '''' d of
                (Inl e, d) \<Rightarrow>
                  (case rename_file ?old log d of
                     (Inl e', d) \<Rightarrow> (Inl (Joined e e'), d)
                   | (Inr _, d) \<Rightarrow> (Inl e, d))
              | (Inr _, d) \<Rightarrow> touch d) d3 = (r, d')"
        using right(2) by (simp add: d3_def Let_def)
      then show ?thesis
      proof (cases rule: bind_cases)
        case (left e) then show ?thesis using d3 log_there by (auto elim!: rename_file_cases)
      next
        case (right u d4)
        have d4: "dk_files d4 = (dk_files d)(?old := Some body, log := None)"
          using right(1) d3 log_there by (auto elim!: rename_file_cases)
        obtain q d5 where wr: "write_file log '''' d4 = (q, d5)" by (cases "write_file log '''' d4")
        note last_step = right(2) [unfolded wr prod.case]
        from wr show ?thesis
        proof (cases rule: write_file_cases)
          case ok
          then show ?thesis using last_step d4 by (auto elim!: touch_cases)
        next
          case refused
          obtain q' d6 where "rename_file ?old log d5 = (q', d6)" by (cases "rename_file ?old log d5")
          then show ?thesis using last_step refused d4 by (auto elim!: rename_file_cases)
        qed
      qed
    qed
  qed
qed

lemma RotateLog_small:
  assumes "RotateLog log d = (r, d')" "case dk_files d log of None \<Rightarrow> True | Some body \<Rightarrow> length body \<le> maxLogSize"
  shows "dk_files d' = dk_files d"
proof -
  obtain q d1 where rd: "read_file log d = (q, d1)" by (cases "read_file log d")
  note step = assms(1) [unfolded RotateLog_def rd prod.case]
  from rd show ?thesis using step assms(2) by (cases rule: read_file_cases) (auto split: if_splits)
qed

text \<open>
  Whatever calls fail, the rotation never loses the log: a log within 1 MiB is left alone; a larger one is, on success,
  the contents of \<open>.1\<close> with an empty log in its place, and after an error still in one of the two files.
\<close>

theorem RotateLog_keeps_log:
  "case RotateLog log d of (r, d') \<Rightarrow>
     (case dk_files d log of
        None \<Rightarrow> dk_files d' = dk_files d
      | Some body \<Rightarrow>
          if length body \<le> maxLogSize then dk_files d' = dk_files d
          else if r = Inr () then dk_files d' = (dk_files d)(log := Some '''', log @ ''.1'' := Some body)
          else dk_files d' log = Some body \<or> dk_files d' (log @ ''.1'') = Some body)"
proof -
  obtain r d' where run: "RotateLog log d = (r, d')" by (cases "RotateLog log d")
  show ?thesis
  proof (cases "dk_files d log")
    case None then show ?thesis using RotateLog_small [OF run] run by simp
  next
    case (Some body)
    show ?thesis
    proof (cases "length body \<le> maxLogSize")
      case True then show ?thesis using RotateLog_small [OF run] run Some by simp
    next
      case False
      then have "maxLogSize < length body" by simp
      from RotateLog_files [OF run Some this] show ?thesis using run Some False by simp
    qed
  qed
qed

section \<open>The runtime records\<close>

text \<open>What a record on the disk names.\<close>

definition names_pid :: "disk \<Rightarrow> string \<Rightarrow> int \<Rightarrow> bool" where
  "names_pid d path pid \<longleftrightarrow> (case dk_files d path of
     None \<Rightarrow> False | Some body \<Rightarrow> length body \<le> maxPIDRecordBytes \<and> parsePIDRecord body = Some pid)"

definition names_instance :: "disk \<Rightarrow> string \<Rightarrow> string \<Rightarrow> bool" where
  "names_instance d path instanceID \<longleftrightarrow> (case dk_files d path of
     None \<Rightarrow> False | Some body \<Rightarrow> length body \<le> 1024 \<and> trim_space body = instanceID)"

lemma readSmallFile_cases:
  assumes "readSmallFile path limit d = (r, d')"
  obtains (missing) "r = Inl NotExist" "d' = d" "dk_files d path = None"
  | (ok) body where "r = Inr body" "dk_files d path = Some body" "length body \<le> limit" "dk_files d' = dk_files d"
  | (refused) e where "r = Inl e" "e \<noteq> NotExist" "dk_files d' = dk_files d"
  using assms unfolding readSmallFile_def
  by (auto elim!: bind_cases read_file_cases split: if_splits)

lemma ReadPIDRecord_files:
  assumes "ReadPIDRecord path d = (r, d')"
  shows "dk_files d' = dk_files d"
    "r = PIDRecordMissing \<Longrightarrow> dk_files d path = None"
    "r = PIDRecordPresent pid \<Longrightarrow> names_pid d path pid"
proof -
  obtain q d1 where rd: "readSmallFile path maxPIDRecordBytes d = (q, d1)" by (cases "readSmallFile path maxPIDRecordBytes d")
  note step = assms [unfolded ReadPIDRecord_def rd prod.case]
  from rd step show "dk_files d' = dk_files d"
    by (cases rule: readSmallFile_cases) auto
  from rd step show "r = PIDRecordMissing \<Longrightarrow> dk_files d path = None"
    by (cases rule: readSmallFile_cases) (auto split: option.splits)
  from rd step show "r = PIDRecordPresent pid \<Longrightarrow> names_pid d path pid"
    by (cases rule: readSmallFile_cases) (auto simp: names_pid_def split: option.splits)
qed

lemma remove_if_there_files:
  assumes "remove_if_there path d = (r, d')"
  shows "dk_files d' = dk_files d \<or> dk_files d' = (dk_files d)(path := None)" "r = Inr () \<Longrightarrow> dk_files d' path = None"
proof -
  obtain q d1 where rm: "remove_file path d = (q, d1)" by (cases "remove_file path d")
  note step = assms [unfolded remove_if_there_def rm prod.case]
  from rm step show "dk_files d' = dk_files d \<or> dk_files d' = (dk_files d)(path := None)"
    by (cases rule: remove_file_cases) auto
  from rm step show "r = Inr () \<Longrightarrow> dk_files d' path = None"
    by (cases rule: remove_file_cases) auto
qed

lemma removePID_files:
  assumes "removePIDRecordIfLocked path pid d = (r, d')"
  shows "dk_files d' = dk_files d \<or> (names_pid d path pid \<and> dk_files d' = (dk_files d)(path := None))"
    "r = Inr () \<Longrightarrow> dk_files d' path = None"
proof -
  obtain q d1 where rd: "ReadPIDRecord path d = (q, d1)" by (cases "ReadPIDRecord path d")
  note step = assms [unfolded removePIDRecordIfLocked_def rd prod.case] and read = ReadPIDRecord_files [OF rd]
  show "dk_files d' = dk_files d \<or> (names_pid d path pid \<and> dk_files d' = (dk_files d)(path := None))"
    using step read(1) read(3) [of pid] remove_if_there_files(1) [of path d1 r d'] by (cases q) (auto split: if_splits)
  show "r = Inr () \<Longrightarrow> dk_files d' path = None"
    using step read(1,2) remove_if_there_files(2) [of path d1 r d'] by (cases q) (auto split: if_splits)
qed

lemma removeInstance_files:
  assumes "removeInstanceRecordIfLocked path instanceID d = (r, d')"
  shows "dk_files d' = dk_files d \<or> (names_instance d path instanceID \<and> dk_files d' = (dk_files d)(path := None))"
    "r = Inr () \<Longrightarrow> dk_files d' path = None"
proof -
  obtain q d1 where rd: "readSmallFile path 1024 d = (q, d1)" by (cases "readSmallFile path 1024 d")
  note step = assms [unfolded removeInstanceRecordIfLocked_def rd prod.case]
  from rd step show "dk_files d' = dk_files d \<or> (names_instance d path instanceID \<and> dk_files d' = (dk_files d)(path := None))"
    using remove_if_there_files(1) [of path d1 r d']
    by (cases rule: readSmallFile_cases) (auto simp: names_instance_def split: if_splits)
  from rd step show "r = Inr () \<Longrightarrow> dk_files d' path = None"
    using remove_if_there_files(2) [of path d1 r d']
    by (cases rule: readSmallFile_cases) (auto split: if_splits)
qed

lemma release_files:
  assumes "releaseRuntimeRecords True pidPath instancePath pid instanceID d = (r, d')"
  shows "p \<noteq> pidPath \<Longrightarrow> p \<noteq> instancePath \<Longrightarrow> dk_files d' p = dk_files d p"
    "\<not> names_pid d pidPath pid \<Longrightarrow> pidPath \<noteq> instancePath \<Longrightarrow> dk_files d' pidPath = dk_files d pidPath"
    "\<not> names_instance d instancePath instanceID \<Longrightarrow> pidPath \<noteq> instancePath \<Longrightarrow> dk_files d' instancePath = dk_files d instancePath"
    "r = Inr () \<Longrightarrow> dk_files d' pidPath = None \<and> dk_files d' instancePath = None"
proof -
  have cases: "dk_files d' = dk_files d \<and> r \<noteq> Inr () \<or> (\<exists>d1 r1 d2 r2.
      dk_files d1 = dk_files d \<and> removePIDRecordIfLocked pidPath pid d1 = (r1, d2)
      \<and> removeInstanceRecordIfLocked instancePath instanceID d2 = (r2, d') \<and> (r = Inr () \<longleftrightarrow> r1 = Inr () \<and> r2 = Inr ()))"
  proof -
    have "disk_bind touch (\<lambda>_ d.
        case removePIDRecordIfLocked pidPath pid d of
          (r, d) \<Rightarrow>
            (case removeInstanceRecordIfLocked instancePath instanceID d of
               (r', d) \<Rightarrow>
                 ((case (r, r') of
                     (Inl e, Inl e') \<Rightarrow> Inl (Joined e e')
                   | (Inl e, Inr _) \<Rightarrow> Inl e
                   | (Inr _, Inl e') \<Rightarrow> Inl e'
                   | (Inr _, Inr _) \<Rightarrow> Inr ()), d))) d = (r, d')"
      using assms by (simp add: releaseRuntimeRecords_def)
    then show ?thesis
    proof (cases rule: bind_cases)
      case (left e) then show ?thesis by (auto elim!: touch_cases)
    next
      case (right u d1)
      have d1: "dk_files d1 = dk_files d" using right(1) by (auto elim!: touch_cases)
      obtain r1 d2 where one: "removePIDRecordIfLocked pidPath pid d1 = (r1, d2)" by (cases "removePIDRecordIfLocked pidPath pid d1")
      obtain r2 d3 where two: "removeInstanceRecordIfLocked instancePath instanceID d2 = (r2, d3)"
        by (cases "removeInstanceRecordIfLocked instancePath instanceID d2")
      have "d3 = d' \<and> (r = Inr () \<longleftrightarrow> r1 = Inr () \<and> r2 = Inr ())"
        using right(2) one two by (auto split: sum.splits)
      then show ?thesis using d1 one two by blast
    qed
  qed
  show "p \<noteq> pidPath \<Longrightarrow> p \<noteq> instancePath \<Longrightarrow> dk_files d' p = dk_files d p"
    "\<not> names_pid d pidPath pid \<Longrightarrow> pidPath \<noteq> instancePath \<Longrightarrow> dk_files d' pidPath = dk_files d pidPath"
    "\<not> names_instance d instancePath instanceID \<Longrightarrow> pidPath \<noteq> instancePath \<Longrightarrow> dk_files d' instancePath = dk_files d instancePath"
    using cases
    by (auto simp: names_pid_def names_instance_def dest!: removePID_files(1) removeInstance_files(1) split: option.splits)
  show "dk_files d' pidPath = None \<and> dk_files d' instancePath = None" if ok: "r = Inr ()"
  proof -
    obtain d1 d2 where one: "removePIDRecordIfLocked pidPath pid d1 = (Inr (), d2)"
      and two: "removeInstanceRecordIfLocked instancePath instanceID d2 = (Inr (), d')"
      using cases ok by auto
    show ?thesis
      using removePID_files(2) [OF one] removeInstance_files [OF two] by auto
  qed
qed

text \<open>
  C27. A router that closes takes back only its own records, whatever calls fail: every other file stays as it was, a
  \<open>router.pid\<close> that names another process and a \<open>router.instance\<close> of another router stay as they were, and when it
  reports success neither record is left.
\<close>

theorem releaseRuntimeRecords_own:
  "let pidPath = dir @ ''/router.pid''; instancePath = dir @ ''/router.instance'' in
   case releaseRuntimeRecords True pidPath instancePath pid instanceID d of (r, d') \<Rightarrow>
     (\<forall>p. p = pidPath \<or> p = instancePath \<or> dk_files d' p = dk_files d p)
     \<and> (names_pid d pidPath pid \<or> dk_files d' pidPath = dk_files d pidPath)
     \<and> (names_instance d instancePath instanceID \<or> dk_files d' instancePath = dk_files d instancePath)
     \<and> (if r = Inr () then dk_files d' pidPath = None \<and> dk_files d' instancePath = None else True)"
proof -
  let ?pid = "dir @ ''/router.pid''" and ?instance = "dir @ ''/router.instance''"
  obtain r d' where run: "releaseRuntimeRecords True ?pid ?instance pid instanceID d = (r, d')"
    by (cases "releaseRuntimeRecords True ?pid ?instance pid instanceID d")
  have apart: "?pid \<noteq> ?instance" by simp
  note facts = release_files(1) [OF run] release_files(2,3) [OF run _ apart] release_files(4) [OF run]
  show ?thesis unfolding Let_def run prod.case 
  proof (intro conjI)
    show "\<forall>p. p = ?pid \<or> p = ?instance \<or> dk_files d' p = dk_files d p" using facts(1) by blast
    show "names_pid d ?pid pid \<or> dk_files d' ?pid = dk_files d ?pid" using facts(2) by blast
    show "names_instance d ?instance instanceID \<or> dk_files d' ?instance = dk_files d ?instance" using facts(3) by blast
    show "if r = Inr () then dk_files d' ?pid = None \<and> dk_files d' ?instance = None else True" using facts(4) by simp
  qed
qed

lemma write_record_files:
  assumes "write_record goos path text d = (r, d')"
  shows "published goos path (text @ newline) d d' (r = Inr ())"
  using assms unfolding write_record_def
proof (cases rule: bind_cases)
  case (left e)
  then show ?thesis by (auto simp: published_def elim!: touch_cases)
next
  case (right u d1)
  have "dk_files d1 = dk_files d" using right(1) by (auto elim!: touch_cases)
  then show ?thesis using publish_file [OF right(2) touch_finish]
    by (cases r) (simp_all add: published_def)
qed

lemma publish_records:
  assumes run: "publishRuntimeRecords goos pidPath instancePath pid instanceID d = (Inr (), d')"
    and apart: "pidPath \<noteq> instancePath" "pidPath \<noteq> tmp_of instancePath" "pidPath \<noteq> backup_of instancePath"
  shows "dk_files d' pidPath = Some (itoa pid @ newline)" "dk_files d' instancePath = Some (instanceID @ newline)"
    "instanceID \<noteq> ''''"
proof -
  from run obtain d1 d2 where one: "write_record goos pidPath (itoa pid) d1 = (Inr (), d2)"
    and two: "writeRouterInstance goos instancePath instanceID d2 = (Inr (), d')"
    by (auto simp: publishRuntimeRecords_def writePIDFile_def elim!: bind_cases split: prod.splits sum.splits)
  show ne: "instanceID \<noteq> ''''" using two by (auto simp: writeRouterInstance_def)
  then have two': "write_record goos instancePath instanceID d2 = (Inr (), d')"
    using two by (simp add: writeRouterInstance_def)
  show "dk_files d' pidPath = Some (itoa pid @ newline)" "dk_files d' instancePath = Some (instanceID @ newline)"
    using write_record_files [OF one] write_record_files [OF two'] apart by (auto simp: published_def)
qed

lemma itoa_record:
  assumes "0 < pid" "pid < 2 ^ 63"
  shows "parsePIDRecord (itoa pid @ newline) = Some pid" "length (itoa pid @ newline) \<le> maxPIDRecordBytes"
proof -
  have digits: "list_all is_digit (itoa pid)" using assms nat_digits_digit by (auto simp: itoa_def list_all_iff)
  then have "trim_space (itoa pid @ newline) = itoa pid"
    by (intro trim_line) (auto simp: list_all_iff byte_defs)
  moreover have "itoa pid \<noteq> ''''" using assms by (simp add: itoa_def)
  ultimately show "parsePIDRecord (itoa pid @ newline) = Some pid"
    using assms digits atoi_itoa [of pid] by (simp add: parsePIDRecord_def)
  have "nat pid < 10 ^ 20" using assms by (simp add: nat_less_iff)
  then have "length (nat_digits (nat pid)) \<le> 20" by (rule nat_digits_length) simp
  then show "length (itoa pid @ newline) \<le> maxPIDRecordBytes" using assms by (simp add: itoa_def newline_def maxPIDRecordBytes_def)
qed

lemma release_quiet:
  assumes "names_pid d pidPath pid" "names_instance d instancePath instanceID" "pidPath \<noteq> instancePath" "dk_answers d = []"
  shows "fst (releaseRuntimeRecords True pidPath instancePath pid instanceID d) = Inr ()"
proof -
  obtain body body' where files: "dk_files d pidPath = Some body" "length body \<le> maxPIDRecordBytes" "parsePIDRecord body = Some pid"
    "dk_files d instancePath = Some body'" "length body' \<le> 1024" "trim_space body' = instanceID"
    using assms(1,2) by (auto simp: names_pid_def names_instance_def split: option.splits)
  have "removePIDRecordIfLocked pidPath pid d = (Inr (), d\<lparr>dk_files := (dk_files d)(pidPath := None)\<rparr>)"
    using files assms(4) by (simp add: removePIDRecordIfLocked_def ReadPIDRecord_def readSmallFile_def disk_bind_def read_file_def
        touch_def remove_if_there_def remove_file_def syscall_def next_answer_def)
  then show ?thesis using files assms(3,4)
    by (simp add: releaseRuntimeRecords_def disk_bind_def touch_def syscall_def next_answer_def
        removeInstanceRecordIfLocked_def readSmallFile_def read_file_def remove_if_there_def remove_file_def)
qed

text \<open>
  When publishing succeeds - on either system, whatever calls failed on the way - the records name this router: a
  reader finds its process and \<open>releaseRuntimeRecords\<close> recognises both as its own.
\<close>

theorem publishRuntimeRecords_names_router:
  assumes "0 < pid" "pid < 2 ^ 63" "length instanceID < 1024" "list_all (\<lambda>c. \<not> is_space c) instanceID"
  shows "let pidPath = dir @ ''/router.pid''; instancePath = dir @ ''/router.instance'' in
    case publishRuntimeRecords goos pidPath instancePath pid instanceID d of
      (Inr _, d') \<Rightarrow> names_pid d' pidPath pid \<and> names_instance d' instancePath instanceID \<and> instanceID \<noteq> ''''
        \<and> fst (ReadPIDRecord pidPath (d'\<lparr>dk_answers := []\<rparr>)) = PIDRecordPresent pid
        \<and> fst (releaseRuntimeRecords True pidPath instancePath pid instanceID (d'\<lparr>dk_answers := []\<rparr>)) = Inr ()
    | (Inl e, d') \<Rightarrow> True"
proof -
  let ?pid = "dir @ ''/router.pid''" and ?instance = "dir @ ''/router.instance''"
  obtain r d' where run: "publishRuntimeRecords goos ?pid ?instance pid instanceID d = (r, d')"
    by (cases "publishRuntimeRecords goos ?pid ?instance pid instanceID d")
  show ?thesis
  proof (cases r)
    case (Inl e)
    then show ?thesis using run by simp
  next
    case (Inr u)
    have apart: "?pid \<noteq> ?instance" "?pid \<noteq> tmp_of ?instance" "?pid \<noteq> backup_of ?instance"
      by (simp_all add: tmp_of_def backup_of_def)
    have ok: "publishRuntimeRecords goos ?pid ?instance pid instanceID d = (Inr (), d')" using run Inr by simp
    from publish_records [OF ok apart]
    have files: "dk_files d' ?pid = Some (itoa pid @ newline)" "dk_files d' ?instance = Some (instanceID @ newline)"
      "instanceID \<noteq> ''''" by auto
    have trimmed: "trim_space (instanceID @ newline) = instanceID" by (rule trim_line [OF assms(4)])
    have small: "length (instanceID @ newline) \<le> 1024" using assms(3) by (simp add: newline_def)
    note written = itoa_record [OF assms(1,2)]
    let ?d = "d'\<lparr>dk_answers := []\<rparr>"
    have names: "names_pid d' ?pid pid" "names_instance d' ?instance instanceID"
      using files written trimmed small by (simp_all add: names_pid_def names_instance_def)
    have read: "ReadPIDRecord ?pid ?d = (PIDRecordPresent pid, ?d)"
      using files written by (simp add: ReadPIDRecord_def readSmallFile_def disk_bind_def read_file_def touch_def
          syscall_def next_answer_def)
    moreover have "fst (releaseRuntimeRecords True ?pid ?instance pid instanceID ?d) = Inr ()"
      using names apart(1) by (intro release_quiet) (simp_all add: names_pid_def names_instance_def)
    ultimately show ?thesis using run Inr names files(3) by (simp add: Let_def)
  qed
qed

lemma itoa_7: "itoa 7 = ''7''"
proof -
  have "digit_char 7 = CHR ''7''" by code_simp
  then show ?thesis by (simp add: itoa_def nat_digits.simps [of 7])
qed

lemmas publish_steps = publishRuntimeRecords_def writePIDFile_def writeRouterInstance_def write_record_def with_cleanup_def
  write_tmp_def replaceFileForGOOS_def disk_bind_def write_file_def rename_file_def remove_file_def touch_def syscall_def
  next_answer_def ignoring_def itoa_7 tmp_of_def backup_of_def

theorem publishRuntimeRecords_names_router_witness:
  "let d = \<lparr>dk_files = Map.empty, dk_answers = []\<rparr>; pidPath = ''s'' @ ''/router.pid''; instancePath = ''s'' @ ''/router.instance'' in
   case publishRuntimeRecords ''windows'' pidPath instancePath 7 ''ab'' d of
     (Inr _, d') \<Rightarrow> names_pid d' pidPath 7 \<and> names_instance d' instancePath ''ab''
   | (Inl e, d') \<Rightarrow> False"
proof -
  let ?d = "\<lparr>dk_files = Map.empty, dk_answers = []\<rparr>"
  have "fst (publishRuntimeRecords ''windows'' (''s'' @ ''/router.pid'') (''s'' @ ''/router.instance'') 7 ''ab'' ?d) = Inr ()"
    by (simp add: publish_steps Let_def)
  moreover have "list_all (\<lambda>c. \<not> is_space c) ''ab''" by (simp add: byte_defs)
  ultimately show ?thesis
    using publishRuntimeRecords_names_router [where pid = 7 and instanceID = "''ab''" and dir = "''s''" and goos = "''windows''" and d = ?d]
    by (auto simp: Let_def split: prod.splits sum.splits)
qed

text \<open>
  The last change of mode comes after the replacement: when it fails, publishing is an error although \<open>router.pid\<close> now
  names the process, and the start that failed leaves it.
\<close>

lemma failed_publish_leaves_record:
  "case publishRuntimeRecords ''linux'' ''router.pid'' ''router.instance'' 7 ''ab''
       \<lparr>dk_files = Map.empty, dk_answers = [True, True, True, True, True, True, True, True, True, False]\<rparr> of
     (r, d') \<Rightarrow> r = Inl IoError \<and> dk_files d' ''router.pid'' = Some (''7'' @ newline)"
  by (simp add: publish_steps)

end
