(* ===== verification/Router_Stop.thy ===== *)
theory Router_Stop
  imports State_Files
begin

text \<open>
  Stopping the installed router: \<open>internal/app/router_stop.go\<close>, and which process the recorded PID names:
  \<open>internal/app/router_process.go\<close> with the inspections of \<open>router_process_unix.go\<close> and \<open>router_process_windows.go\<close>.

  The disk is that of the state files. What the inspections of the opened process find comes from a list, in order; when
  it runs out nothing can be found out. The context is the number of times it may still be asked before it is cancelled.
  Everything that can be seen from outside is logged.
\<close>

section \<open>The process that a PID names\<close>

datatype process_state = ProcessUnknown | ProcessMatched | ProcessMismatched | ProcessAbsent

text \<open>\<open>EvalSymlinks\<close>, \<open>Stat\<close> (the identity of the file, by which \<open>SameFile\<close> compares) and \<open>Lstat\<close>.\<close>

record exec_env =
  xe_eval :: "string \<Rightarrow> (file_error, string) result"
  xe_stat :: "string \<Rightarrow> nat option"

definition resolveExecutablePath :: "exec_env \<Rightarrow> string \<Rightarrow> string option" where
  "resolveExecutablePath E path =
     (case xe_eval E path of
        Inr resolved \<Rightarrow> Some resolved
      | Inl e \<Rightarrow>
          if e \<noteq> NotExist then None
          else (case xe_eval E (path_dir path) of Inl _ \<Rightarrow> None | Inr dir \<Rightarrow> Some (path_join dir (path_base path))))"

definition compareUnixExecutable :: "exec_env \<Rightarrow> string \<Rightarrow> string \<Rightarrow> process_state" where
  "compareUnixExecutable E exe stableBinary =
     (case resolveExecutablePath E exe of
        None \<Rightarrow> ProcessUnknown
      | Some resolvedExe \<Rightarrow>
          (case resolveExecutablePath E stableBinary of
             None \<Rightarrow> ProcessUnknown
           | Some resolvedStable \<Rightarrow>
               if resolvedExe = resolvedStable then ProcessMatched
               else (case xe_stat E resolvedExe of
                  None \<Rightarrow> ProcessUnknown
                | Some exeInfo \<Rightarrow>
                    (case xe_stat E resolvedStable of
                       None \<Rightarrow> ProcessUnknown
                     | Some stableInfo \<Rightarrow> if exeInfo = stableInfo then ProcessMatched else ProcessMismatched))))"

definition linuxExecutableLink :: "string \<Rightarrow> (string \<Rightarrow> bool) \<Rightarrow> string" where
  "linuxExecutableLink target lstat_ok =
     (case cut_suffix target '' (deleted)'' of
        None \<Rightarrow> target
      | Some trimmed \<Rightarrow> if lstat_ok target then target else trimmed)"

definition parseProcArgs2Path :: "string \<Rightarrow> string option" where
  "parseProcArgs2Path buf =
     (if length buf \<le> 4 then None
      else (case cut (CHR 0x00) (drop 4 buf) of
         None \<Rightarrow> None
       | Some (path, _) \<Rightarrow> if path = '''' then None else Some path))"

text \<open>What \<open>exists\<close> finds: an error, or whether the process is alive.\<close>

definition unixInspect :: "bool option \<Rightarrow> string option \<Rightarrow> bool option \<Rightarrow> exec_env \<Rightarrow> string \<Rightarrow> process_state" where
  "unixInspect alive exe alive' E stableBinary =
     (case alive of
        None \<Rightarrow> ProcessUnknown
      | Some False \<Rightarrow> ProcessAbsent
      | Some True \<Rightarrow>
          (let state = (case exe of None \<Rightarrow> ProcessUnknown | Some exe \<Rightarrow> compareUnixExecutable E exe stableBinary) in
           case alive' of None \<Rightarrow> ProcessUnknown | Some False \<Rightarrow> ProcessAbsent | Some True \<Rightarrow> state))"

definition is_separator :: "char \<Rightarrow> bool" where
  "is_separator c \<longleftrightarrow> c = CHR 0x5C \<or> c = CHR ''/''"

definition splitWindowsPath :: "string \<Rightarrow> string \<times> string" where
  "splitWindowsPath path =
     (rev (dropWhile (\<lambda>c. \<not> is_separator c) (rev path)), rev (takeWhile (\<lambda>c. \<not> is_separator c) (rev path)))"

definition windowsExecutableMatches :: "string \<Rightarrow> string \<Rightarrow> bool" where
  "windowsExecutableMatches exe stableBinary =
     (if equal_fold exe stableBinary then True
      else (let (exeDir, exeBase) = splitWindowsPath exe; (stableDir, stableBase) = splitWindowsPath stableBinary in
        if stableBase = '''' \<or> \<not> equal_fold exeDir stableDir then False
        else (let exeBase = to_lower exeBase; start = to_lower stableBase @ ''.'' in
          has_prefix exeBase start \<and> has_suffix exeBase ''.bak'' \<and> length exeBase > length start + length ''.bak'')))"

text \<open>\<open>opened\<close>: absent, not to be opened, or a handle; \<open>exited\<close> is asked again when the image cannot be queried.\<close>

datatype windows_handle = HandleAbsent | HandleFailed | Handle

definition windowsInspect :: "windows_handle \<Rightarrow> bool option \<Rightarrow> string option \<Rightarrow> bool option \<Rightarrow> string \<Rightarrow> process_state" where
  "windowsInspect handle exited queried exited' stableBinary =
     (case handle of
        HandleAbsent \<Rightarrow> ProcessAbsent
      | HandleFailed \<Rightarrow> ProcessUnknown
      | Handle \<Rightarrow>
          (case exited of
             None \<Rightarrow> ProcessUnknown
           | Some True \<Rightarrow> ProcessAbsent
           | Some False \<Rightarrow>
               (case queried of
                  None \<Rightarrow> if exited' = Some True then ProcessAbsent else ProcessUnknown
                | Some exe \<Rightarrow> if windowsExecutableMatches exe stableBinary then ProcessMatched else ProcessMismatched)))"

section \<open>Stopping\<close>

datatype stop_event =
    Inspected process_state | Signalled bool | ShutdownRequested bool | SystemdStop bool | HealthAsked bool | Slept

datatype stop_error =
    Cancelled | InvalidRecord | UnverifiedRouter | RecordNotRemoved bool file_error | ManagerFailed | ShutdownUnconfirmed
  | RouterResponding | NotVerified | SignalFailed | ExitTimeout

record stop_env =
  se_pid_path :: string
  se_token_path :: string
  se_shutdown :: bool
  se_healthy :: bool
  se_service :: bool
  se_systemd :: bool
  se_terminate :: bool
  se_boot :: "int option"
  se_mod_time :: "int option"

record stop_world =
  sw_disk :: disk
  sw_inspections :: "process_state list"
  sw_context :: "nat option"
  sw_events :: "stop_event list"

definition seen :: "stop_event \<Rightarrow> stop_world \<Rightarrow> stop_world" where
  "seen e w = w\<lparr>sw_events := sw_events w @ [e]\<rparr>"

definition ctx_err :: "stop_world \<Rightarrow> bool \<times> stop_world" where
  "ctx_err w = (case sw_context w of
     None \<Rightarrow> (False, w) | Some 0 \<Rightarrow> (True, w) | Some (Suc n) \<Rightarrow> (False, w\<lparr>sw_context := Some n\<rparr>))"

definition inspect :: "stop_world \<Rightarrow> process_state \<times> stop_world" where
  "inspect w = (case sw_inspections w of
     [] \<Rightarrow> (ProcessUnknown, seen (Inspected ProcessUnknown) w)
   | state # rest \<Rightarrow> (state, seen (Inspected state) (w\<lparr>sw_inspections := rest\<rparr>)))"

text \<open>A request that carries the context fails when that is cancelled.\<close>

definition asked :: "(bool \<Rightarrow> stop_event) \<Rightarrow> bool \<Rightarrow> stop_world \<Rightarrow> bool \<times> stop_world" where
  "asked ev ok w = (case ctx_err w of (cancelled, w) \<Rightarrow> (ok \<and> \<not> cancelled, seen (ev (ok \<and> \<not> cancelled)) w))"

definition adminHealth :: "stop_env \<Rightarrow> stop_world \<Rightarrow> bool \<times> stop_world" where
  "adminHealth E = asked HealthAsked (se_healthy E)"

definition shutdownInstalledService :: "stop_env \<Rightarrow> stop_world \<Rightarrow> bool \<times> stop_world" where
  "shutdownInstalledService E w =
     (case readTokenFile (se_token_path E) (sw_disk w) of
        (Inl _, d) \<Rightarrow> (False, w\<lparr>sw_disk := d\<rparr>)
      | (Inr token, d) \<Rightarrow> asked ShutdownRequested (se_shutdown E) (w\<lparr>sw_disk := d\<rparr>))"

definition terminate_process :: "stop_env \<Rightarrow> stop_world \<Rightarrow> bool \<times> stop_world" where
  "terminate_process E w = (se_terminate E, seen (Signalled (se_terminate E)) w)"

definition RemovePIDRecordIf_at :: "stop_env \<Rightarrow> int \<Rightarrow> stop_world \<Rightarrow> (file_error, unit) result \<times> stop_world" where
  "RemovePIDRecordIf_at E pid w = (case RemovePIDRecordIf (se_pid_path E) pid (sw_disk w) of (r, d) \<Rightarrow> (r, w\<lparr>sw_disk := d\<rparr>))"

definition routerGracefulStopWait :: nat where "routerGracefulStopWait = 4000"
definition routerSignalStopWait :: nat where "routerSignalStopWait = 5000"
definition routerStopPoll :: nat where "routerStopPoll = 100"

fun wait_rounds :: "nat \<Rightarrow> stop_world \<Rightarrow> (stop_error, bool) result \<times> stop_world" where
  "wait_rounds 0 w = (Inr False, w)"
| "wait_rounds (Suc n) w =
     (case ctx_err w of
        (True, w) \<Rightarrow> (Inl Cancelled, w)
      | (False, w) \<Rightarrow>
          (case inspect (seen Slept w) of
             (ProcessAbsent, w) \<Rightarrow> (Inr True, w)
           | (ProcessMismatched, w) \<Rightarrow> (Inr True, w)
           | (ProcessUnknown, w) \<Rightarrow> (Inl NotVerified, w)
           | (ProcessMatched, w) \<Rightarrow> wait_rounds n w))"

definition waitForRouterExit :: "nat \<Rightarrow> stop_world \<Rightarrow> (stop_error, bool) result \<times> stop_world" where
  "waitForRouterExit wait = wait_rounds (wait div routerStopPoll)"

definition terminateRouterProcess :: "stop_env \<Rightarrow> stop_world \<Rightarrow> (stop_error, bool) result \<times> stop_world" where
  "terminateRouterProcess E w =
     (case ctx_err w of
        (True, w) \<Rightarrow> (Inl Cancelled, w)
      | (False, w) \<Rightarrow>
          (case inspect w of
             (ProcessAbsent, w) \<Rightarrow> (Inr True, w)
           | (ProcessMismatched, w) \<Rightarrow> (Inr True, w)
           | (ProcessUnknown, w) \<Rightarrow> (Inl NotVerified, w)
           | (ProcessMatched, w) \<Rightarrow>
               (case terminate_process E w of
                  (False, w) \<Rightarrow>
                    (case inspect w of
                       (ProcessAbsent, w) \<Rightarrow> (Inr True, w)
                     | (ProcessMismatched, w) \<Rightarrow> (Inr True, w)
                     | (_, w) \<Rightarrow> (Inl SignalFailed, w))
                | (True, w) \<Rightarrow>
                    (case waitForRouterExit routerSignalStopWait w of
                       (Inl e, w) \<Rightarrow> (Inl e, w)
                     | (Inr False, w) \<Rightarrow> (Inl ExitTimeout, w)
                     | (Inr True, w) \<Rightarrow> (Inr True, w)))))"

definition withoutRouterProcess :: "stop_env \<Rightarrow> bool \<Rightarrow> bool \<Rightarrow> bool \<Rightarrow> stop_world \<Rightarrow> (stop_error, bool) result \<times> stop_world" where
  "withoutRouterProcess E admin_ok managerStopped manager_failed w =
     (if manager_failed then (Inl ManagerFailed, w)
      else if managerStopped then (Inr True, w)
      else if admin_ok then (Inl ShutdownUnconfirmed, w)
      else (case adminHealth E w of
         (True, w) \<Rightarrow> (Inl RouterResponding, w)
       | (False, w) \<Rightarrow> (case ctx_err w of (True, w) \<Rightarrow> (Inl Cancelled, w) | (False, w) \<Rightarrow> (Inr False, w))))"

text \<open>No modification time is that of a record whose file could not be looked at.\<close>

definition recordPredatesBoot :: "stop_env \<Rightarrow> bool" where
  "recordPredatesBoot E =
     (case se_mod_time E of
        None \<Rightarrow> False
      | Some mod_time \<Rightarrow> (case se_boot E of None \<Rightarrow> False | Some boot \<Rightarrow> mod_time < boot))"

text \<open>Whether systemd stopped the service, and whether it was asked and could not.\<close>

definition stop_manager :: "stop_env \<Rightarrow> stop_world \<Rightarrow> (stop_error, bool \<times> bool) result \<times> stop_world" where
  "stop_manager E w =
     (if \<not> se_service E then (Inr (False, False), w)
      else (case asked SystemdStop (se_systemd E) w of
         (ok, w) \<Rightarrow> (case ctx_err w of (True, w) \<Rightarrow> (Inl Cancelled, w) | (False, w) \<Rightarrow> (Inr (ok, \<not> ok), w))))"

text \<open>No process is the router's.\<close>

definition stop_unmatched ::
  "stop_env \<Rightarrow> int option \<Rightarrow> bool \<Rightarrow> bool \<Rightarrow> bool \<Rightarrow> bool \<Rightarrow> stop_world \<Rightarrow> (stop_error, bool) result \<times> stop_world" where
  "stop_unmatched E record staleSinceBoot admin_ok managerStopped manager_failed w =
     (case (if staleSinceBoot then if admin_ok then (True, w) else adminHealth E w else (False, w)) of
        (True, w) \<Rightarrow> (Inl UnverifiedRouter, w)
      | (False, w) \<Rightarrow>
          (case (case record of None \<Rightarrow> (Inr (), w) | Some pid \<Rightarrow> RemovePIDRecordIf_at E pid w) of
             (Inl e, w) \<Rightarrow> (Inl (RecordNotRemoved manager_failed e), w)
           | (Inr _, w) \<Rightarrow> withoutRouterProcess E admin_ok managerStopped manager_failed w))"

definition stop_matched ::
  "stop_env \<Rightarrow> int \<Rightarrow> bool \<Rightarrow> bool \<Rightarrow> bool \<Rightarrow> stop_world \<Rightarrow> (stop_error, bool) result \<times> stop_world" where
  "stop_matched E pid admin_ok managerStopped manager_failed w =
     (case (if admin_ok \<or> managerStopped then waitForRouterExit routerGracefulStopWait w else (Inr False, w)) of
        (Inl e, w) \<Rightarrow> (Inl e, w)
      | (Inr confirmed, w) \<Rightarrow>
          (case (if confirmed then (Inr True, w) else terminateRouterProcess E w) of
             (Inl e, w) \<Rightarrow> (Inl e, w)
           | (Inr _, w) \<Rightarrow>
               (case ctx_err w of
                  (True, w) \<Rightarrow> (Inl Cancelled, w)
                | (False, w) \<Rightarrow>
                    (case RemovePIDRecordIf_at E pid w of
                       (Inl e, w) \<Rightarrow> (Inl (RecordNotRemoved manager_failed e), w)
                     | (Inr _, w) \<Rightarrow> if manager_failed then (Inl ManagerFailed, w) else (Inr True, w)))))"

definition stop_inspected ::
  "stop_env \<Rightarrow> int option \<Rightarrow> process_state \<Rightarrow> bool \<Rightarrow> stop_world \<Rightarrow> (stop_error, bool) result \<times> stop_world" where
  "stop_inspected E record state staleSinceBoot w =
     (case shutdownInstalledService E w of
        (admin_ok, w) \<Rightarrow>
          (case ctx_err w of
             (True, w) \<Rightarrow> (Inl Cancelled, w)
           | (False, w) \<Rightarrow>
               (case stop_manager E w of
                  (Inl e, w) \<Rightarrow> (Inl e, w)
                | (Inr (managerStopped, manager_failed), w) \<Rightarrow>
                    (case record of
                       Some pid \<Rightarrow>
                         if state = ProcessMatched then stop_matched E pid admin_ok managerStopped manager_failed w
                         else stop_unmatched E record staleSinceBoot admin_ok managerStopped manager_failed w
                     | None \<Rightarrow> stop_unmatched E record staleSinceBoot admin_ok managerStopped manager_failed w))))"

definition stopInstalledRouter :: "stop_env \<Rightarrow> stop_world \<Rightarrow> (stop_error, bool) result \<times> stop_world" where
  "stopInstalledRouter E w =
     (case ctx_err w of
        (True, w) \<Rightarrow> (Inl Cancelled, w)
      | (False, w) \<Rightarrow>
          (case ReadPIDRecord (se_pid_path E) (sw_disk w) of
             (record, d) \<Rightarrow>
               (let w = w\<lparr>sw_disk := d\<rparr> in
                case record of
                  PIDRecordUnknown e \<Rightarrow> (Inl InvalidRecord, w)
                | PIDRecordMissing \<Rightarrow> stop_inspected E None ProcessAbsent False w
                | PIDRecordPresent pid \<Rightarrow>
                    (case inspect w of
                       (state, w) \<Rightarrow>
                         (let stale = (state = ProcessUnknown \<and> recordPredatesBoot E);
                              state = (if stale then ProcessMismatched else state) in
                          if state = ProcessUnknown then (Inl UnverifiedRouter, w)
                          else stop_inspected E (Some pid) state stale w)))))"

section \<open>What a stop leaves in the log\<close>

fun signals :: "stop_event \<Rightarrow> bool" where
  "signals (Signalled ok) \<longleftrightarrow> True"
| "signals e \<longleftrightarrow> False"

definition quiet :: "stop_event list \<Rightarrow> bool" where
  "quiet evs \<longleftrightarrow> list_all (\<lambda>e. \<not> signals e) evs"

text \<open>The last thing seen is that the process is no longer the router's.\<close>

definition gone :: "stop_event list \<Rightarrow> bool" where
  "gone evs \<longleftrightarrow> evs \<noteq> [] \<and> last evs \<in> {Inspected ProcessAbsent, Inspected ProcessMismatched}"

definition certain :: "stop_event list \<Rightarrow> bool" where
  "certain evs \<longleftrightarrow> Inspected ProcessUnknown \<notin> set evs"

definition logged :: "stop_world \<Rightarrow> stop_event list \<Rightarrow> stop_world \<Rightarrow> bool" where
  "logged w evs w' \<longleftrightarrow> sw_events w' = sw_events w @ evs \<and> dk_files (sw_disk w') = dk_files (sw_disk w)"

lemma quiet_simps [simp]:
  "quiet []" "quiet (e # evs) \<longleftrightarrow> \<not> signals e \<and> quiet evs" "quiet (a @ b) \<longleftrightarrow> quiet a \<and> quiet b"
  by (simp_all add: quiet_def)

lemma certain_simps [simp]:
  "certain []" "certain (e # evs) \<longleftrightarrow> e \<noteq> Inspected ProcessUnknown \<and> certain evs" "certain (a @ b) \<longleftrightarrow> certain a \<and> certain b"
  by (auto simp: certain_def)

lemma gone_append: "gone b \<Longrightarrow> gone (a @ b)"
  by (auto simp: gone_def)

lemma gone_cons: "gone evs \<Longrightarrow> gone (e # evs)"
  by (auto simp: gone_def)

lemma gone_single [simp]: "gone [Inspected ProcessAbsent]" "gone [Inspected ProcessMismatched]"
  by (simp_all add: gone_def)

lemma logged_refl [simp]: "logged w [] w"
  by (simp add: logged_def)

lemma logged_trans: "logged w a w' \<Longrightarrow> logged w' b w'' \<Longrightarrow> logged w (a @ b) w''"
  by (simp add: logged_def)

lemma logged_ctx: "ctx_err w = (c, w') \<Longrightarrow> logged w [] w'"
  by (auto simp: ctx_err_def logged_def split: option.splits nat.splits)

lemma logged_inspect: "inspect w = (s, w') \<Longrightarrow> logged w [Inspected s] w'"
  by (auto simp: inspect_def seen_def logged_def split: list.splits)

lemma logged_seen: "logged w [e] (seen e w)"
  by (simp add: seen_def logged_def)

lemma logged_asked: "asked ev ok w = (b, w') \<Longrightarrow> logged w [ev b] w'"
  by (auto simp: asked_def logged_def seen_def dest!: logged_ctx split: prod.splits)

lemma logged_terminate: "terminate_process E w = (b, w') \<Longrightarrow> logged w [Signalled b] w'"
  by (auto simp: terminate_process_def logged_seen)

lemma logged_shutdown:
  assumes "shutdownInstalledService E w = (b, w')"
  shows "logged w [] w' \<or> logged w [ShutdownRequested b] w'"
proof -
  obtain q d where rd: "readTokenFile (se_token_path E) (sw_disk w) = (q, d)" by (cases "readTokenFile (se_token_path E) (sw_disk w)")
  have files: "dk_files d = dk_files (sw_disk w)"
    using rd unfolding readTokenFile_def
    by (auto simp: Let_def disk_return_def elim!: bind_cases read_file_cases touch_cases split: if_splits)
  show ?thesis
    using assms files rd logged_asked [of ShutdownRequested "se_shutdown E" "w\<lparr>sw_disk := d\<rparr>" b w']
    by (auto simp: shutdownInstalledService_def logged_def split: sum.splits)
qed

lemma logged_manager:
  assumes "stop_manager E w = (r, w')"
  shows "\<exists>evs. logged w evs w' \<and> quiet evs \<and> certain evs \<and> (\<forall>s. Inspected s \<notin> set evs)
     \<and> (case r of Inr (True, f) \<Rightarrow> SystemdStop True \<in> set evs | _ \<Rightarrow> True)"
proof (cases "se_service E")
  case False
  then show ?thesis using assms by (intro exI [of _ "[]"]) (auto simp: stop_manager_def)
next
  case True
  obtain ok w1 where a: "asked SystemdStop (se_systemd E) w = (ok, w1)" by (cases "asked SystemdStop (se_systemd E) w")
  obtain c w2 where c: "ctx_err w1 = (c, w2)" by (cases "ctx_err w1")
  have "logged w [SystemdStop ok] w2" using logged_trans [OF logged_asked [OF a] logged_ctx [OF c]] by simp
  then show ?thesis using assms True a c
    by (intro exI [of _ "[SystemdStop ok]"]) (auto simp: stop_manager_def split: bool.splits sum.splits)
qed

lemma logged_wait:
  "wait_rounds n w = (r, w') \<Longrightarrow> \<exists>evs. logged w evs w' \<and> quiet evs
     \<and> (case r of Inl e \<Rightarrow> True | Inr b \<Rightarrow> certain evs \<and> (if b then gone evs else True))"
proof (induction n arbitrary: w)
  case 0
  then show ?case by (intro exI [of _ "[]"]) auto
next
  case (Suc n)
  obtain c w1 where c: "ctx_err w = (c, w1)" by (cases "ctx_err w")
  obtain s w2 where s: "inspect (seen Slept w1) = (s, w2)" by (cases "inspect (seen Slept w1)")
  have two: "logged w [Slept, Inspected s] w2"
    using logged_trans [OF logged_ctx [OF c] logged_trans [OF logged_seen logged_inspect [OF s]]] by simp
  show ?case
  proof (cases c)
    case True
    then show ?thesis using Suc.prems c logged_ctx [OF c] by (intro exI [of _ "[]"]) auto
  next
    case False
    show ?thesis
    proof (cases s)
      case ProcessMatched
      then have "wait_rounds n w2 = (r, w')" using Suc.prems c s False by simp
      from Suc.IH [OF this] obtain evs where evs: "logged w2 evs w'" "quiet evs"
        "case r of Inl e \<Rightarrow> True | Inr b \<Rightarrow> certain evs \<and> (if b then gone evs else True)" by blast
      have "logged w ([Slept, Inspected s] @ evs) w'" by (rule logged_trans [OF two evs(1)])
      then show ?thesis using evs ProcessMatched gone_append [of evs "[Slept, Inspected s]"]
        by (intro exI [of _ "[Slept, Inspected s] @ evs"]) (auto split: sum.splits if_splits)
    qed (use Suc.prems c s False two in \<open>intro exI [of _ "[Slept, Inspected s]"], auto simp: gone_def\<close>)+
  qed
qed

text \<open>A signal follows at once an inspection that finds the router.\<close>

definition one_signal :: "stop_event list \<Rightarrow> bool" where
  "one_signal evs \<longleftrightarrow> quiet evs
     \<or> (\<exists>pre ok post. evs = pre @ [Inspected ProcessMatched, Signalled ok] @ post \<and> quiet pre \<and> quiet post)"

lemma one_signal_quiet: "quiet evs \<Longrightarrow> one_signal evs"
  by (simp add: one_signal_def)

lemma one_signal_append: "quiet a \<Longrightarrow> one_signal b \<Longrightarrow> one_signal (a @ b)"
  unfolding one_signal_def by (metis append.assoc quiet_simps(3))

lemma logged_terminateRouterProcess:
  assumes "terminateRouterProcess E w = (r, w')"
  shows "\<exists>evs. logged w evs w' \<and> one_signal evs \<and> (case r of Inl e \<Rightarrow> True | Inr b \<Rightarrow> b \<and> certain evs \<and> gone evs)"
proof -
  obtain c w1 where c: "ctx_err w = (c, w1)" by (cases "ctx_err w")
  obtain s w2 where s: "inspect w1 = (s, w2)" by (cases "inspect w1")
  obtain ok w3 where t: "terminate_process E w2 = (ok, w3)" by (cases "terminate_process E w2")
  note here = assms [unfolded terminateRouterProcess_def c prod.case]
  have one: "logged w [Inspected s] w2" using logged_trans [OF logged_ctx [OF c] logged_inspect [OF s]] by simp
  have sent: "logged w [Inspected s, Signalled ok] w3" using logged_trans [OF one logged_terminate [OF t]] by simp
  show ?thesis
  proof (cases c)
    case True
    then show ?thesis using here logged_ctx [OF c] by (intro exI [of _ "[]"]) (auto simp: one_signal_def)
  next
    case False
    from False have nc: "c = False" by simp
    note there = here [unfolded nc bool.case s prod.case]
    show ?thesis
    proof (cases s)
      case ProcessMatched
      note matched = there [unfolded ProcessMatched process_state.case t prod.case]
      have pair: "one_signal ([Inspected s, Signalled ok] @ post)" if "quiet post" for post
        using ProcessMatched that unfolding one_signal_def
        by (intro disjI2 exI [of _ "[]"] exI [of _ ok] exI [of _ post]) simp
      show ?thesis
      proof (cases ok)
        case True
        obtain q w4 where wt: "waitForRouterExit routerSignalStopWait w3 = (q, w4)" by (cases "waitForRouterExit routerSignalStopWait w3")
        from logged_wait [OF wt [unfolded waitForRouterExit_def]] obtain post where
          post: "logged w3 post w4" "quiet post" "case q of Inl e \<Rightarrow> True | Inr b \<Rightarrow> certain post \<and> (if b then gone post else True)"
          by blast
        have w4: "w4 = w'" "case r of Inl e \<Rightarrow> True | Inr b \<Rightarrow> q = Inr True \<and> b"
          using matched wt True by (auto split: sum.splits bool.splits)
        show ?thesis using logged_trans [OF sent post(1)] pair [OF post(2)] post(3) w4 ProcessMatched
            gone_append [of post "[Inspected s, Signalled ok]"]
          by (intro exI [of _ "[Inspected s, Signalled ok] @ post"]) (auto split: sum.splits)
      next
        case False
        obtain s' w4 where i: "inspect w3 = (s', w4)" by (cases "inspect w3")
        show ?thesis
          using logged_trans [OF sent logged_inspect [OF i]] pair [of "[Inspected s']"] matched i False ProcessMatched
            gone_append [of "[Inspected s']" "[Inspected s, Signalled ok]"]
          by (intro exI [of _ "[Inspected s, Signalled ok] @ [Inspected s']"]) (cases s', auto)
      qed
    qed (use there one in \<open>intro exI [of _ "[Inspected s]"], auto simp: one_signal_def\<close>)+
  qed
qed

section \<open>The record\<close>

lemma RemovePIDRecordIf_at_files:
  assumes "RemovePIDRecordIf_at E pid w = (r, w')"
  shows "sw_events w' = sw_events w"
    "dk_files (sw_disk w') = dk_files (sw_disk w)
     \<or> (names_pid (sw_disk w) (se_pid_path E) pid \<and> dk_files (sw_disk w') = (dk_files (sw_disk w))(se_pid_path E := None))"
    "r = Inr () \<Longrightarrow> dk_files (sw_disk w') (se_pid_path E) = None"
proof -
  obtain q d where rm: "RemovePIDRecordIf (se_pid_path E) pid (sw_disk w) = (q, d)" by (cases "RemovePIDRecordIf (se_pid_path E) pid (sw_disk w)")
  have w': "r = q" "w' = w\<lparr>sw_disk := d\<rparr>" using assms rm by (simp_all add: RemovePIDRecordIf_at_def)
  show "sw_events w' = sw_events w" using w' by simp
  have "(dk_files d = dk_files (sw_disk w)
     \<or> (names_pid (sw_disk w) (se_pid_path E) pid \<and> dk_files d = (dk_files (sw_disk w))(se_pid_path E := None)))
     \<and> (q = Inr () \<longrightarrow> dk_files d (se_pid_path E) = None)"
    using rm unfolding RemovePIDRecordIf_def
  proof (cases rule: bind_cases)
    case (left e)
    then show ?thesis by (auto elim!: touch_cases)
  next
    case (right u d1)
    have "dk_files d1 = dk_files (sw_disk w)" using right(1) by (auto elim!: touch_cases)
    then show ?thesis using removePID_files [OF right(2)] by (auto simp: names_pid_def)
  qed
  then show "dk_files (sw_disk w') = dk_files (sw_disk w)
     \<or> (names_pid (sw_disk w) (se_pid_path E) pid \<and> dk_files (sw_disk w') = (dk_files (sw_disk w))(se_pid_path E := None))"
    "r = Inr () \<Longrightarrow> dk_files (sw_disk w') (se_pid_path E) = None" using w' by simp_all
qed

text \<open>The disk after a stop: as it was, or without the record that named the process, when \<open>ok\<close> allowed to remove it.\<close>

definition record_removed :: "stop_env \<Rightarrow> int option \<Rightarrow> stop_world \<Rightarrow> stop_world \<Rightarrow> bool \<Rightarrow> bool" where
  "record_removed E record w w' ok \<longleftrightarrow>
     dk_files (sw_disk w') = dk_files (sw_disk w)
     \<or> (ok \<and> (case record of None \<Rightarrow> False | Some pid \<Rightarrow> names_pid (sw_disk w) (se_pid_path E) pid)
         \<and> dk_files (sw_disk w') = (dk_files (sw_disk w))(se_pid_path E := None))"

lemma matched_outcome:
  assumes "stop_matched E pid admin_ok managerStopped manager_failed w = (r, w')"
  shows "\<exists>evs. sw_events w' = sw_events w @ evs \<and> one_signal evs \<and> record_removed E (Some pid) w w' (gone evs \<and> certain evs)
     \<and> (case r of Inl e \<Rightarrow> True | Inr b \<Rightarrow> b \<and> gone evs \<and> certain evs \<and> dk_files (sw_disk w') (se_pid_path E) = None)"
proof -
  obtain q1 w1 where a: "(if admin_ok \<or> managerStopped then waitForRouterExit routerGracefulStopWait w else (Inr False, w)) = (q1, w1)"
    by (cases "if admin_ok \<or> managerStopped then waitForRouterExit routerGracefulStopWait w else (Inr False, w)")
  have "\<exists>evs. logged w evs w1 \<and> quiet evs
     \<and> (case q1 of Inl e \<Rightarrow> True | Inr b \<Rightarrow> certain evs \<and> (if b then gone evs else True))"
  proof (cases "admin_ok \<or> managerStopped")
    case True
    then show ?thesis using a logged_wait unfolding waitForRouterExit_def by auto
  next
    case False
    then show ?thesis using a by (intro exI [of _ "[]"]) auto
  qed
  then obtain evs1 where evs1: "logged w evs1 w1" "quiet evs1"
    "case q1 of Inl e \<Rightarrow> True | Inr b \<Rightarrow> certain evs1 \<and> (if b then gone evs1 else True)" by blast
  note here = assms [unfolded stop_matched_def a prod.case]
  show ?thesis
  proof (cases q1)
    case (Inl e)
    then show ?thesis using here evs1 by (intro exI [of _ evs1]) (auto simp: record_removed_def logged_def one_signal_quiet)
  next
    case (Inr confirmed)
    obtain q2 w2 where b: "(if confirmed then (Inr True, w1) else terminateRouterProcess E w1) = (q2, w2)"
      by (cases "if confirmed then (Inr True, w1) else terminateRouterProcess E w1")
    have "\<exists>evs. logged w evs w2 \<and> one_signal evs \<and> (case q2 of Inl e \<Rightarrow> True | Inr b \<Rightarrow> certain evs \<and> gone evs)"
    proof (cases confirmed)
      case True
      then show ?thesis using b evs1 Inr by (intro exI [of _ evs1]) (auto simp: one_signal_quiet)
    next
      case False
      then have "terminateRouterProcess E w1 = (q2, w2)" using b by simp
      from logged_terminateRouterProcess [OF this] obtain evs2 where evs2: "logged w1 evs2 w2" "one_signal evs2"
        "case q2 of Inl e \<Rightarrow> True | Inr b \<Rightarrow> b \<and> certain evs2 \<and> gone evs2" by blast
      then show ?thesis using logged_trans [OF evs1(1) evs2(1)] one_signal_append [OF evs1(2) evs2(2)] evs1(3) Inr
          gone_append [of evs2 evs1]
        by (intro exI [of _ "evs1 @ evs2"]) (auto split: sum.splits)
    qed
    then obtain evs where evs: "logged w evs w2" "one_signal evs"
      "case q2 of Inl e \<Rightarrow> True | Inr b \<Rightarrow> certain evs \<and> gone evs" by blast
    note there = here [unfolded Inr sum.case b prod.case]
    show ?thesis
    proof (cases q2)
      case (Inl e)
      then show ?thesis using there evs by (intro exI [of _ evs]) (auto simp: record_removed_def logged_def)
    next
      case (Inr u)
      obtain c w3 where c: "ctx_err w2 = (c, w3)" by (cases "ctx_err w2")
      obtain q4 w4 where d: "RemovePIDRecordIf_at E pid w3 = (q4, w4)" by (cases "RemovePIDRecordIf_at E pid w3")
      have w3: "sw_events w3 = sw_events w @ evs" "dk_files (sw_disk w3) = dk_files (sw_disk w)"
        using evs(1) logged_ctx [OF c] by (simp_all add: logged_def)
      have w': "w' = (if c then w3 else w4)" "case r of Inl e \<Rightarrow> True | Inr b \<Rightarrow> b \<and> \<not> c \<and> q4 = Inr ()"
        using there Inr c d by (auto split: bool.splits sum.splits if_splits)
      show ?thesis using w' w3 evs Inr RemovePIDRecordIf_at_files [OF d]
        by (intro exI [of _ evs]) (auto simp: record_removed_def names_pid_def split: sum.splits if_splits)
    qed
  qed
qed

lemma unmatched_outcome:
  assumes "stop_unmatched E record stale admin_ok managerStopped manager_failed w = (r, w')"
  shows "\<exists>evs. sw_events w' = sw_events w @ evs \<and> quiet evs \<and> (\<forall>s. Inspected s \<notin> set evs)
     \<and> record_removed E record w w' True
     \<and> (case r of Inl e \<Rightarrow> True
        | Inr b \<Rightarrow> (if b then managerStopped else evs \<noteq> [] \<and> last evs = HealthAsked False \<and> \<not> admin_ok)
                   \<and> (if record = None then dk_files (sw_disk w') = dk_files (sw_disk w)
                      else dk_files (sw_disk w') (se_pid_path E) = None))"
proof -
  obtain q1 w1 where a: "(if stale then if admin_ok then (True, w) else adminHealth E w else (False, w)) = (q1, w1)"
    by (cases "if stale then if admin_ok then (True, w) else adminHealth E w else (False, w)")
  have "\<exists>evs. logged w evs w1 \<and> quiet evs \<and> (\<forall>s. Inspected s \<notin> set evs)"
    using a logged_asked [of HealthAsked "se_healthy E" w q1 w1] unfolding adminHealth_def
    by (cases stale; cases admin_ok) (auto intro: exI [of _ "[]"] exI [of _ "[HealthAsked q1]"])
  then obtain evs1 where evs1: "logged w evs1 w1" "quiet evs1" "\<forall>s. Inspected s \<notin> set evs1" by blast
  note here = assms [unfolded stop_unmatched_def a prod.case]
  show ?thesis
  proof (cases q1)
    case True
    then show ?thesis using here evs1 by (intro exI [of _ evs1]) (auto simp: record_removed_def logged_def)
  next
    case False
    then have nq: "q1 = False" by simp
    obtain q2 w2 where b: "(case record of None \<Rightarrow> (Inr (), w1) | Some pid \<Rightarrow> RemovePIDRecordIf_at E pid w1) = (q2, w2)"
      by (cases "case record of None \<Rightarrow> (Inr (), w1) | Some pid \<Rightarrow> RemovePIDRecordIf_at E pid w1")
    have w1: "sw_events w1 = sw_events w @ evs1" "dk_files (sw_disk w1) = dk_files (sw_disk w)"
      using evs1(1) by (simp_all add: logged_def)
    have w2: "sw_events w2 = sw_events w @ evs1 \<and> record_removed E record w w2 True
      \<and> (q2 = Inr () \<longrightarrow> (if record = None then dk_files (sw_disk w2) = dk_files (sw_disk w)
                      else dk_files (sw_disk w2) (se_pid_path E) = None))"
    proof (cases "record")
      case None
      then show ?thesis using b w1 by (simp add: record_removed_def)
    next
      case (Some pid)
      then have "RemovePIDRecordIf_at E pid w1 = (q2, w2)" using b by simp
      note facts = RemovePIDRecordIf_at_files [OF this]
      have "names_pid (sw_disk w1) (se_pid_path E) pid = names_pid (sw_disk w) (se_pid_path E) pid"
        by (simp add: names_pid_def w1)
      then show ?thesis using facts Some w1(1) unfolding w1(2) by (simp add: record_removed_def)
    qed
    note there = here [unfolded nq bool.case b prod.case]
    show ?thesis
    proof (cases q2)
      case (Inl e)
      then show ?thesis using there w2 evs1 by (intro exI [of _ evs1]) auto
    next
      case (Inr u)
      obtain h w3 where h: "adminHealth E w2 = (h, w3)" by (cases "adminHealth E w2")
      obtain c w4 where c: "ctx_err w3 = (c, w4)" by (cases "ctx_err w3")
      note rest = there [unfolded Inr sum.case withoutRouterProcess_def h prod.case c]
      have w3: "sw_events w3 = sw_events w @ (evs1 @ [HealthAsked h])" "dk_files (sw_disk w3) = dk_files (sw_disk w2)"
        using logged_asked [OF h [unfolded adminHealth_def]] w2 by (simp_all add: logged_def)
      have w4: "sw_events w4 = sw_events w3" "dk_files (sw_disk w4) = dk_files (sw_disk w3)"
        using logged_ctx [OF c] by (simp_all add: logged_def)
      have files: "if record = None then dk_files (sw_disk w2) = dk_files (sw_disk w)
                      else dk_files (sw_disk w2) (se_pid_path E) = None" using w2 Inr by simp
      show ?thesis
      proof (cases "manager_failed \<or> managerStopped \<or> admin_ok")
        case True
        then show ?thesis using rest w2 files evs1
          by (intro exI [of _ evs1]) (auto split: if_splits)
      next
        case False
        then show ?thesis using rest w2 w3 w4 files evs1
          by (intro exI [of _ "evs1 @ [HealthAsked h]"])
            (auto simp: record_removed_def split: if_splits bool.splits)
      qed
    qed
  qed
qed

section \<open>Properties\<close>

lemma one_signal_prepend: "quiet a \<Longrightarrow> quiet b \<Longrightarrow> one_signal c \<Longrightarrow> one_signal (a @ b @ c)"
  by (intro one_signal_append) auto

text \<open>What follows the first inspection, when it found the router and when it did not.\<close>

definition stop_facts :: "stop_env \<Rightarrow> int option \<Rightarrow> bool \<Rightarrow> stop_world \<Rightarrow> stop_world \<Rightarrow> (stop_error, bool) result \<Rightarrow> stop_event list \<Rightarrow> bool" where
  "stop_facts E record matched w w' r evs \<longleftrightarrow>
     sw_events w' = sw_events w @ evs \<and> one_signal evs
     \<and> record_removed E record w w' (if matched then gone evs \<and> certain evs else True)
     \<and> (matched \<or> (\<forall>s. Inspected s \<notin> set evs))
     \<and> (case r of Inl e \<Rightarrow> True
        | Inr b \<Rightarrow>
            (if matched then b \<and> gone evs \<and> certain evs
             else if b then SystemdStop True \<in> set evs else evs \<noteq> [] \<and> last evs = HealthAsked False)
            \<and> (if record = None then dk_files (sw_disk w') = dk_files (sw_disk w)
               else dk_files (sw_disk w') (se_pid_path E) = None))"

lemma record_removed_from:
  "record_removed E record w1 w' ok \<Longrightarrow> dk_files (sw_disk w1) = dk_files (sw_disk w) \<Longrightarrow> record_removed E record w w' ok"
  by (cases "record") (auto simp: record_removed_def names_pid_def)

lemma stop_facts_after:
  assumes before: "logged w a w1" "quiet a" "certain a" "\<forall>s. Inspected s \<notin> set a"
    and rest: "stop_facts E record matched w1 w' r evs"
  shows "stop_facts E record matched w w' r (a @ evs)"
proof -
  have files: "dk_files (sw_disk w1) = dk_files (sw_disk w)" using before(1) by (simp add: logged_def)
  have "record_removed E record w w' (if matched then gone (a @ evs) \<and> certain (a @ evs) else True)"
    using rest before(3) gone_append [of evs a] record_removed_from [OF _ files, of E "record" w']
    by (auto simp: stop_facts_def record_removed_def split: if_splits)
  then show ?thesis
    using rest before files one_signal_append [OF before(2), of evs] gone_append [of evs a]
    by (auto simp: stop_facts_def logged_def split: sum.splits if_splits)
qed

lemma inspected_outcome:
  assumes "stop_inspected E record state stale w = (r, w')"
  shows "\<exists>evs. stop_facts E record (record \<noteq> None \<and> state = ProcessMatched) w w' r evs"
proof -
  let ?matched = "record \<noteq> None \<and> state = ProcessMatched"
  obtain admin_ok w1 where a: "shutdownInstalledService E w = (admin_ok, w1)" by (cases "shutdownInstalledService E w")
  obtain c w2 where c: "ctx_err w1 = (c, w2)" by (cases "ctx_err w1")
  obtain q w3 where m: "stop_manager E w2 = (q, w3)" by (cases "stop_manager E w2")
  note here = assms [unfolded stop_inspected_def a prod.case c]
  obtain ev1 where ev1: "logged w ev1 w2" "quiet ev1" "certain ev1" "\<forall>s. Inspected s \<notin> set ev1"
    using logged_shutdown [OF a] logged_trans [OF _ logged_ctx [OF c]] by fastforce
  show ?thesis
  proof (cases c)
    case True
    then have "w' = w2" "\<exists>e. r = Inl e" using here by auto
    then show ?thesis using ev1 by (intro exI [of _ ev1]) (auto simp: stop_facts_def record_removed_def logged_def one_signal_quiet)
  next
    case False
    then have nc: "c = False" by simp
    note there = here [unfolded nc bool.case m prod.case]
    from logged_manager [OF m] obtain ev2 where ev2: "logged w2 ev2 w3" "quiet ev2" "certain ev2" "\<forall>s. Inspected s \<notin> set ev2"
      "case q of Inr (True, f) \<Rightarrow> SystemdStop True \<in> set ev2 | _ \<Rightarrow> True" by blast
    have both: "logged w (ev1 @ ev2) w3" "quiet (ev1 @ ev2)" "certain (ev1 @ ev2)" "\<forall>s. Inspected s \<notin> set (ev1 @ ev2)"
      using logged_trans [OF ev1(1) ev2(1)] ev1 ev2 by auto
    show ?thesis
    proof (cases q)
      case (Inl e)
      then have "w' = w3" "\<exists>e. r = Inl e" using there by auto
      then show ?thesis using both
        by (intro exI [of _ "ev1 @ ev2"]) (auto simp: stop_facts_def record_removed_def logged_def one_signal_quiet)
    next
      case (Inr p)
      obtain stopped failed where p: "p = (stopped, failed)" by (cases p)
      note final = there [unfolded Inr p sum.case prod.case]
      show ?thesis
      proof (cases ?matched)
        case True
        then obtain pid where pid: "record = Some pid" by auto
        then have "stop_matched E pid admin_ok stopped failed w3 = (r, w')" using final True by simp
        from matched_outcome [OF this] obtain evs where "sw_events w' = sw_events w3 @ evs" "one_signal evs"
          "record_removed E (Some pid) w3 w' (gone evs \<and> certain evs)"
          "case r of Inl e \<Rightarrow> True | Inr b \<Rightarrow> b \<and> gone evs \<and> certain evs \<and> dk_files (sw_disk w') (se_pid_path E) = None" by blast
        then have "stop_facts E record True w3 w' r evs" unfolding stop_facts_def pid by (cases r) simp_all
        from stop_facts_after [OF both this] have "\<exists>evs. stop_facts E record True w w' r evs" by (rule exI)
        moreover have "?matched = True" using True by blast
        ultimately show ?thesis by metis
      next
        case False
        then have "stop_unmatched E record stale admin_ok stopped failed w3 = (r, w')"
          using final by (cases "record") auto
        from unmatched_outcome [OF this] obtain evs where evs: "sw_events w' = sw_events w3 @ evs" "quiet evs"
          "\<forall>s. Inspected s \<notin> set evs" "record_removed E record w3 w' True"
          "case r of Inl e \<Rightarrow> True
           | Inr b \<Rightarrow> (if b then stopped else evs \<noteq> [] \<and> last evs = HealthAsked False \<and> \<not> admin_ok)
                   \<and> (if record = None then dk_files (sw_disk w') = dk_files (sw_disk w3)
                      else dk_files (sw_disk w') (se_pid_path E) = None)" by blast
        have files: "dk_files (sw_disk w3) = dk_files (sw_disk w)" using both(1) by (simp add: logged_def)
        have removed: "record_removed E record w w' True" by (rule record_removed_from [OF evs(4) files])
        have "stop_facts E record False w w' r ((ev1 @ ev2) @ evs)"
          using both evs(1,2,3,5) files removed ev2(5) Inr p
          by (auto simp: stop_facts_def logged_def one_signal_quiet split: sum.splits if_splits)
        then have "\<exists>evs. stop_facts E record False w w' r evs" by (rule exI)
        moreover have "?matched = False" using False by blast
        ultimately show ?thesis by metis
      qed
    qed
  qed
qed

lemma stop_outcome:
  assumes run: "stopInstalledRouter E w = (r, w')" and fresh: "sw_events w = []"
  shows "one_signal (sw_events w')
    \<and> (dk_files (sw_disk w') = dk_files (sw_disk w)
       \<or> (\<exists>pid. names_pid (sw_disk w) (se_pid_path E) pid) \<and> dk_files (sw_disk w') = (dk_files (sw_disk w))(se_pid_path E := None)
         \<and> (certain (sw_events w') \<or> recordPredatesBoot E) \<and> (Inspected ProcessMatched \<notin> set (sw_events w') \<or> gone (sw_events w')))
    \<and> (case r of Inl e \<Rightarrow> True
       | Inr b \<Rightarrow> dk_files (sw_disk w') (se_pid_path E) = None
           \<and> (if Inspected ProcessMatched \<in> set (sw_events w') then b \<and> gone (sw_events w')
              else if b then SystemdStop True \<in> set (sw_events w')
              else sw_events w' \<noteq> [] \<and> last (sw_events w') = HealthAsked False))"
proof -
  obtain c w1 where c: "ctx_err w = (c, w1)" by (cases "ctx_err w")
  have w1: "sw_events w1 = []" "dk_files (sw_disk w1) = dk_files (sw_disk w)"
    using logged_ctx [OF c] fresh by (simp_all add: logged_def)
  note here = run [unfolded stopInstalledRouter_def c prod.case]
  show ?thesis
  proof (cases c)
    case True
    then show ?thesis using here w1 by (auto simp: one_signal_def)
  next
    case False
    then have nc: "c = False" by simp
    obtain rc d where rd: "ReadPIDRecord (se_pid_path E) (sw_disk w1) = (rc, d)" by (cases "ReadPIDRecord (se_pid_path E) (sw_disk w1)")
    note read = ReadPIDRecord_files [OF rd]
    define w2 where "w2 = w1\<lparr>sw_disk := d\<rparr>"
    have w2: "sw_events w2 = []" "dk_files (sw_disk w2) = dk_files (sw_disk w)" using w1 read(1) by (simp_all add: w2_def)
    note there = here [unfolded nc bool.case rd prod.case Let_def, folded w2_def]
    show ?thesis
    proof (cases rc)
      case (PIDRecordUnknown e)
      then show ?thesis using there w2 by (auto simp: one_signal_def)
    next
      case PIDRecordMissing
      then have "stop_inspected E None ProcessAbsent False w2 = (r, w')" using there by simp
      from inspected_outcome [OF this] obtain evs where evs: "stop_facts E None False w2 w' r evs" by auto
      have "dk_files (sw_disk w) (se_pid_path E) = None" using read(2) [OF PIDRecordMissing] w1 by simp
      then show ?thesis using evs w2 by (auto simp: stop_facts_def record_removed_def split: sum.splits if_splits)
    next
      case (PIDRecordPresent pid)
      obtain s w3 where i: "inspect w2 = (s, w3)" by (cases "inspect w2")
      have w3: "sw_events w3 = [Inspected s]" "dk_files (sw_disk w3) = dk_files (sw_disk w)"
        using logged_inspect [OF i] w2 by (simp_all add: logged_def)
      have names: "names_pid (sw_disk w) (se_pid_path E) pid"
        using read(3) [OF PIDRecordPresent] w1(2) by (simp add: names_pid_def)
      define stale where "stale \<longleftrightarrow> s = ProcessUnknown \<and> recordPredatesBoot E"
      define state where "state = (if stale then ProcessMismatched else s)"
      have final: "(if state = ProcessUnknown then (Inl UnverifiedRouter, w3) else stop_inspected E (Some pid) state stale w3) = (r, w')"
        using there [unfolded PIDRecordPresent pid_state.case i prod.case, folded stale_def, folded state_def] .
      show ?thesis
      proof (cases "state = ProcessUnknown")
        case True
        then show ?thesis using final w3 by (auto simp: one_signal_def)
      next
        case False
        then have "stop_inspected E (Some pid) state stale w3 = (r, w')" using final by simp
        from inspected_outcome [OF this] obtain evs where evs: "stop_facts E (Some pid) (state = ProcessMatched) w3 w' r evs" by auto
        have events: "sw_events w' = [Inspected s] @ evs" using evs w3 by (simp add: stop_facts_def)
        have sig: "one_signal (sw_events w')" using one_signal_append [of "[Inspected s]" evs] evs unfolding events by (simp add: stop_facts_def)
        have removed: "record_removed E (Some pid) w w' (if state = ProcessMatched then gone evs \<and> certain evs else True)"
          using evs record_removed_from [OF _ w3(2)] by (simp add: stop_facts_def)
        show ?thesis
        proof (cases "state = ProcessMatched")
          case True
          then have s: "s = ProcessMatched" by (auto simp: state_def split: if_splits)
          show ?thesis using sig events removed evs True s names
            by (auto simp: stop_facts_def record_removed_def gone_cons split: sum.splits)
        next
          case nomatch: False
          have s: "s \<noteq> ProcessMatched" "s = ProcessUnknown \<Longrightarrow> recordPredatesBoot E"
            using nomatch False by (auto simp: state_def stale_def split: if_splits)
          have quiet_rest: "\<forall>s. Inspected s \<notin> set evs" using evs nomatch by (simp add: stop_facts_def)
          have cert: "certain (sw_events w') \<or> recordPredatesBoot E"
            using s events quiet_rest by (auto simp: certain_def)
          have nm: "Inspected ProcessMatched \<notin> set (sw_events w')" using s events quiet_rest by auto
          show ?thesis using sig events removed evs nomatch names cert nm
            by (auto simp: stop_facts_def record_removed_def split: sum.splits if_splits)
        qed
      qed
    qed
  qed
qed

text \<open>
  C17. Whatever the process, systemd, the running router and the disk answer, and whenever the context is cancelled,
  stopping the router signals at most once, and only right after an inspection that finds the process to be the router;
  of the files only \<open>router.pid\<close> changes, and it is removed only while it names the recorded process, when that was last
  seen gone or never seen as the router; if it could not be told, only when the record is older than the last boot.
\<close>

theorem stopInstalledRouter_safe:
  "case stopInstalledRouter E (w\<lparr>sw_events := []\<rparr>) of (r, w') \<Rightarrow>
     one_signal (sw_events w')
     \<and> (dk_files (sw_disk w') = dk_files (sw_disk w)
        \<or> (\<exists>pid. names_pid (sw_disk w) (se_pid_path E) pid)
          \<and> dk_files (sw_disk w') = (dk_files (sw_disk w))(se_pid_path E := None)
          \<and> (certain (sw_events w') \<or> recordPredatesBoot E)
          \<and> (if Inspected ProcessMatched \<in> set (sw_events w') then gone (sw_events w') else True))"
proof -
  obtain r w' where run: "stopInstalledRouter E (w\<lparr>sw_events := []\<rparr>) = (r, w')"
    by (cases "stopInstalledRouter E (w\<lparr>sw_events := []\<rparr>)")
  from stop_outcome [OF run] show ?thesis
    by (cases "Inspected ProcessMatched \<in> set (sw_events w')") (simp_all add: run)
qed

text \<open>
  C18. What \<open>gohere stop\<close> reports is so. "Stopped" means that no record is left and that the recorded router was seen gone
  last or, when no process was the router's, that systemd stopped the service; "not running" means that no record is left,
  no process was seen as the router's and the last request for its health failed.
\<close>

theorem stopInstalledRouter_reports:
  "case stopInstalledRouter E (w\<lparr>sw_events := []\<rparr>) of
     (Inl e, w') \<Rightarrow> True
   | (Inr stopped, w') \<Rightarrow>
       dk_files (sw_disk w') (se_pid_path E) = None
       \<and> (if Inspected ProcessMatched \<in> set (sw_events w') then stopped \<and> gone (sw_events w')
          else if stopped then SystemdStop True \<in> set (sw_events w')
          else sw_events w' \<noteq> [] \<and> last (sw_events w') = HealthAsked False)"
proof -
  obtain r w' where run: "stopInstalledRouter E (w\<lparr>sw_events := []\<rparr>) = (r, w')"
    by (cases "stopInstalledRouter E (w\<lparr>sw_events := []\<rparr>)")
  from stop_outcome [OF run] show ?thesis by (cases r) (simp_all add: run)
qed

text \<open>
  The comment says that on any error the record is left in place; when systemd cannot stop the service and the process
  is seen to end, the error comes after the record has been removed.
\<close>

definition stop_trial_env :: stop_env where
  "stop_trial_env = \<lparr>se_pid_path = ''router.pid'', se_token_path = ''token'', se_shutdown = True, se_healthy = False,
     se_service = True, se_systemd = False, se_terminate = True, se_boot = None, se_mod_time = None\<rparr>"

definition stop_trial :: stop_world where
  "stop_trial = \<lparr>sw_disk = \<lparr>dk_files = [''router.pid'' \<mapsto> ''7''], dk_answers = []\<rparr>,
     sw_inspections = [ProcessMatched, ProcessMatched, ProcessAbsent], sw_context = None, sw_events = []\<rparr>"

lemma failed_stop_removes_record:
  "case stopInstalledRouter stop_trial_env stop_trial of
     (r, w') \<Rightarrow> r = Inl ManagerFailed \<and> dk_files (sw_disk w') ''router.pid'' = None
       \<and> sw_events w' = [Inspected ProcessMatched, SystemdStop False, Inspected ProcessMatched, Signalled True, Slept, Inspected ProcessAbsent]"
  by code_simp

section \<open>Properties of the inspection\<close>

lemma split_windows: "path = fst (splitWindowsPath path) @ snd (splitWindowsPath path)"
  by (simp add: splitWindowsPath_def flip: rev_append)

lemma prefix_suffix_apart:
  assumes "has_prefix s a" "has_suffix s b" "length a + length b < length s"
  shows "\<exists>mid. s = a @ mid @ b \<and> mid \<noteq> []"
proof -
  from assms(1) obtain rest where rest: "s = a @ rest" by (auto simp: has_prefix_def prefix_def)
  from assms(2) obtain start where start: "s = start @ b" by (auto simp: has_suffix_def suffix_to_prefix [symmetric] suffix_def)
  have "length a < length start" using start assms(3) by simp
  then obtain mid where "start = a @ mid" "mid \<noteq> []" using rest start
    by (metis append_eq_append_conv_if append_take_drop_id drop_eq_Nil linorder_not_le order_less_imp_le)
  then show ?thesis using start by auto
qed

lemma windows_matches:
  assumes "windowsExecutableMatches exe stableBinary"
  shows "to_lower exe = to_lower stableBinary
    \<or> (\<exists>dir mid. to_lower exe = dir @ to_lower (snd (splitWindowsPath stableBinary)) @ ''.'' @ mid @ ''.bak''
         \<and> mid \<noteq> [] \<and> dir = to_lower (fst (splitWindowsPath stableBinary)))"
proof (cases "equal_fold exe stableBinary")
  case True then show ?thesis by (simp add: equal_fold_def)
next
  case False
  let ?base = "to_lower (snd (splitWindowsPath exe))" and ?start = "to_lower (snd (splitWindowsPath stableBinary)) @ ''.''"
  have facts: "to_lower (fst (splitWindowsPath exe)) = to_lower (fst (splitWindowsPath stableBinary))"
    "has_prefix ?base ?start" "has_suffix ?base ''.bak''" "length ?start + length ''.bak'' < length ?base"
    using assms False by (auto simp: windowsExecutableMatches_def equal_fold_def Let_def split: prod.splits if_splits)
  from prefix_suffix_apart [OF facts(2-4)] obtain mid where mid: "?base = ?start @ mid @ ''.bak''" "mid \<noteq> []" by blast
  have "to_lower exe = to_lower (fst (splitWindowsPath exe)) @ ?base"
    using split_windows [of exe] by (metis map_append to_lower_def)
  then show ?thesis using facts(1) mid by auto
qed

lemma compare_matched:
  assumes "compareUnixExecutable E exe stableBinary = ProcessMatched"
  shows "\<exists>a b. resolveExecutablePath E exe = Some a \<and> resolveExecutablePath E stableBinary = Some b
           \<and> (a = b \<or> (\<exists>inode. xe_stat E a = Some inode \<and> xe_stat E b = Some inode))"
  using assms by (auto simp: compareUnixExecutable_def split: option.splits if_splits)

text \<open>
  A process is taken for the router's only when its executable is the installed one: on Unix it is alive before and
  after the lookup and the two paths resolve to the same path or the same file; on Windows it has not exited and its image
  is the installed path, or a \<open>.bak\<close> name in the same directory, letter case aside.
\<close>

theorem inspections_match_installed:
  "(if unixInspect alive exe alive' E stableBinary = ProcessMatched
    then alive = Some True \<and> alive' = Some True
      \<and> (\<exists>path a b. exe = Some path \<and> resolveExecutablePath E path = Some a \<and> resolveExecutablePath E stableBinary = Some b
           \<and> (a = b \<or> (\<exists>inode. xe_stat E a = Some inode \<and> xe_stat E b = Some inode)))
    else True)
   \<and> (if windowsInspect handle exited queried exited' stableBinary = ProcessMatched
      then handle = Handle \<and> exited = Some False
        \<and> (\<exists>path. queried = Some path \<and>
             (to_lower path = to_lower stableBinary
              \<or> (\<exists>dir mid. to_lower path = dir @ to_lower (snd (splitWindowsPath stableBinary)) @ ''.'' @ mid @ ''.bak''
                   \<and> mid \<noteq> [] \<and> dir = to_lower (fst (splitWindowsPath stableBinary)))))
      else True)"
proof (intro conjI)
  show "if unixInspect alive exe alive' E stableBinary = ProcessMatched
    then alive = Some True \<and> alive' = Some True
      \<and> (\<exists>path a b. exe = Some path \<and> resolveExecutablePath E path = Some a \<and> resolveExecutablePath E stableBinary = Some b
           \<and> (a = b \<or> (\<exists>inode. xe_stat E a = Some inode \<and> xe_stat E b = Some inode)))
    else True"
    by (auto simp: unixInspect_def Let_def dest!: compare_matched split: option.splits bool.splits)
  show "if windowsInspect handle exited queried exited' stableBinary = ProcessMatched
      then handle = Handle \<and> exited = Some False
        \<and> (\<exists>path. queried = Some path \<and>
             (to_lower path = to_lower stableBinary
              \<or> (\<exists>dir mid. to_lower path = dir @ to_lower (snd (splitWindowsPath stableBinary)) @ ''.'' @ mid @ ''.bak''
                   \<and> mid \<noteq> [] \<and> dir = to_lower (fst (splitWindowsPath stableBinary)))))
      else True"
  proof (cases "windowsInspect handle exited queried exited' stableBinary = ProcessMatched")
    case True
    then obtain path where "handle = Handle" "exited = Some False" "queried = Some path" "windowsExecutableMatches path stableBinary"
      by (auto simp: windowsInspect_def split: windows_handle.splits option.splits bool.splits if_splits)
    then show ?thesis using windows_matches [of path stableBinary] True by simp
  next
    case False then show ?thesis by simp
  qed
qed

end
