(* ===== verification/Router_Start.thy ===== *)
theory Router_Start
  imports State_Files Routes
begin

text \<open>
  Starting and closing the router: \<open>internal/router/start.go\<close>, and its LAN ingress: \<open>internal/router/lan_start.go\<close>.

  The disk is that of the state files; beside it stands the list of what the process holds open, the log, the listeners
  and the goroutines that serve them. The listeners, the certificate store and the route table answer through a record.
\<close>

section \<open>Addresses\<close>

definition defaultHTTPAddrForGOOS :: "string \<Rightarrow> string" where
  "defaultHTTPAddrForGOOS goos = (if goos = ''darwin'' then ''[::]:80'' else ''127.0.0.1:80'')"

definition defaultHTTPSAddrForGOOS :: "string \<Rightarrow> string" where
  "defaultHTTPSAddrForGOOS goos = (if goos = ''darwin'' then ''[::]:443'' else ''127.0.0.1:443'')"

definition isLoopbackAddr :: "net_env \<Rightarrow> string \<Rightarrow> bool" where
  "isLoopbackAddr net addr =
     (case splitHostPort addr of
        None \<Rightarrow> False
      | Some (host, _) \<Rightarrow> (case net_parse_ip net host of None \<Rightarrow> False | Some ip \<Rightarrow> ip_is_loopback ip))"

section \<open>The listener that serves this machine only\<close>

text \<open>A connection has a TCP address as its remote end or another one; \<open>AcceptFails\<close> is an error of the listener.\<close>

datatype arrival = Arrives nat "ip option" | AcceptFails

datatype plain_or_restricted = PlainListener | LoopbackOnlyListener

text \<open>\<open>addr\<close> is the bound address when it is a TCP address.\<close>

fun ip_is_unspecified :: "ip \<Rightarrow> bool" where
  "ip_is_unspecified (IPv4 a b c d) \<longleftrightarrow> a = 0 \<and> b = 0 \<and> c = 0 \<and> d = 0"
| "ip_is_unspecified (IPv6 bs) \<longleftrightarrow> bs = replicate 16 0"

definition restrictHTTPListenerForGOOS :: "string \<Rightarrow> ip option \<Rightarrow> plain_or_restricted" where
  "restrictHTTPListenerForGOOS goos addr =
     (if goos \<noteq> ''darwin'' then PlainListener
      else (case addr of
         None \<Rightarrow> PlainListener
       | Some ip \<Rightarrow> if \<not> ip_is_unspecified ip then PlainListener else LoopbackOnlyListener))"

text \<open>\<open>Accept\<close>: the connection, if any, the connections that were closed, and the arrivals that are left.\<close>

fun accept_loopback :: "arrival list \<Rightarrow> nat option \<times> nat list \<times> arrival list" where
  "accept_loopback [] = (None, [], [])"
| "accept_loopback (AcceptFails # rest) = (None, [], rest)"
| "accept_loopback (Arrives conn remote # rest) =
     (if (case remote of None \<Rightarrow> False | Some ip \<Rightarrow> ip_is_loopback ip) then (Some conn, [], rest)
      else (case accept_loopback rest of (got, closed, rest) \<Rightarrow> (got, conn # closed, rest)))"

section \<open>Errors of a listener\<close>

datatype listen_failure = ListenFailure bool string

definition isAddressInUseError :: "listen_failure option \<Rightarrow> bool" where
  "isAddressInUseError err =
     (case err of
        None \<Rightarrow> False
      | Some (ListenFailure in_use msg) \<Rightarrow>
          if in_use then True
          else (let msg = to_lower msg in
            contains msg ''address already in use'' \<or> contains msg ''only one usage of each socket address''))"

fun first_line :: "string list \<Rightarrow> string" where
  "first_line [] = ''''"
| "first_line (line # rest) =
     (let line = trim_space line in
      if line = '''' \<or> has_prefix line ''COMMAND '' \<or> has_prefix line ''State '' then first_line rest else line)"

definition firstNonHeaderLine :: "string \<Rightarrow> string" where
  "firstNonHeaderLine out = first_line (split_on (CHR 0x0A) out)"

text \<open>
  No output is a program that is not installed or fails. \<open>findPortOwner\<close> asks \<open>lsof\<close>, then \<open>ss\<close>; an answer of \<open>lsof\<close>
  without a line is final.
\<close>

definition findPortOwner :: "(string \<Rightarrow> string option) \<Rightarrow> (string \<Rightarrow> string option) \<Rightarrow> string \<Rightarrow> string" where
  "findPortOwner lsof ss port =
     (if port = '''' then ''''
      else (case lsof port of
         Some out \<Rightarrow> firstNonHeaderLine out
       | None \<Rightarrow> (case ss port of Some out \<Rightarrow> firstNonHeaderLine out | None \<Rightarrow> '''')))"

datatype listen_report = PortInUse string | PortBusy | CannotListen

definition listenError :: "(string \<Rightarrow> string option) \<Rightarrow> (string \<Rightarrow> string option) \<Rightarrow> string \<Rightarrow> listen_failure \<Rightarrow> listen_report" where
  "listenError lsof ss addr err =
     (if isAddressInUseError (Some err) then
        (let port = (case splitHostPort addr of None \<Rightarrow> '''' | Some (_, port) \<Rightarrow> port);
             owner = findPortOwner lsof ss port in
         if owner \<noteq> '''' then PortInUse owner else PortBusy)
      else CannotListen)"

section \<open>Starting\<close>

datatype resource =
    LogFile | HTTPListener | HTTPSListener | AdminListener | HTTPServing | HTTPSServing | AdminServing | LANRecovery
  | ContextWatch | LANHTTPListener | LANHTTPSListener | LANHTTPServing | LANHTTPSServing

datatype start_error =
    AdminNotLoopback | LegacyCertificates | NoCertificateStore | NoAuthority | StateFile file_error | TableFailed
  | ListenFailed listen_report | AdminListenFailed | NoLANRouter | NoLANAddress | LANListenFailed

record start_config =
  sc_http :: string
  sc_https :: string
  sc_admin :: string
  sc_state_dir :: string
  sc_log :: string
  sc_tls :: bool
  sc_store :: bool

record start_env =
  st_goos :: string
  st_net :: net_env
  st_default_dir :: string
  st_prune :: bool
  st_authority :: bool
  st_table :: bool
  st_token_bytes :: "nat list option"
  st_instance_bytes :: "nat list option"
  st_listen :: "string \<Rightarrow> (listen_failure, string) result"
  st_lsof :: "string \<Rightarrow> string option"
  st_ss :: "string \<Rightarrow> string option"
  st_pid :: int

record boot =
  bo_disk :: disk
  bo_open :: "resource list"

record running =
  rn_http :: string
  rn_https :: string
  rn_admin :: string
  rn_state_dir :: string
  rn_pid :: int
  rn_instance :: string
  rn_tls :: bool
  rn_released :: bool

definition on_disk :: "'a disk_op \<Rightarrow> boot \<Rightarrow> (file_error, 'a) result \<times> boot" where
  "on_disk f b = (case f (bo_disk b) of (r, d) \<Rightarrow> (r, b\<lparr>bo_disk := d\<rparr>))"

definition opens :: "resource list \<Rightarrow> boot \<Rightarrow> boot" where
  "opens rs b = b\<lparr>bo_open := bo_open b @ rs\<rparr>"

definition closes :: "resource list \<Rightarrow> boot \<Rightarrow> boot" where
  "closes rs b = b\<lparr>bo_open := filter (\<lambda>r. r \<notin> set rs) (bo_open b)\<rparr>"

definition openRouterLog :: "string \<Rightarrow> unit disk_op" where
  "openRouterLog logPath =
     disk_bind touch (\<lambda>_. syscall (\<lambda>files. if files logPath = None then files(logPath := Some '''') else files))"

definition start_defaults :: "start_env \<Rightarrow> start_config \<Rightarrow> start_config" where
  "start_defaults E cfg =
     (let cfg = (if sc_http cfg = '''' then cfg\<lparr>sc_http := defaultHTTPAddrForGOOS (st_goos E)\<rparr> else cfg);
          cfg = (if sc_tls cfg \<and> sc_https cfg = '''' then cfg\<lparr>sc_https := defaultHTTPSAddrForGOOS (st_goos E)\<rparr> else cfg)
      in if sc_admin cfg = '''' then cfg\<lparr>sc_admin := ''127.0.0.1:39399''\<rparr> else cfg)"

definition state_dir :: "start_env \<Rightarrow> start_config \<Rightarrow> string" where
  "state_dir E cfg = (if sc_state_dir cfg = '''' then st_default_dir E else sc_state_dir cfg)"

definition log_path :: "start_env \<Rightarrow> start_config \<Rightarrow> string" where
  "log_path E cfg = (if sc_log cfg = '''' then path_join (path_join (state_dir E cfg) ''logs'') ''router.log'' else sc_log cfg)"

text \<open>The goroutines and the two servers; nothing can fail any more.\<close>

definition start_serving :: "start_env \<Rightarrow> start_config \<Rightarrow> string \<Rightarrow> string \<Rightarrow> string \<Rightarrow> string \<Rightarrow> boot \<Rightarrow> running \<times> boot" where
  "start_serving E cfg instanceID http https admin b =
     (\<lparr>rn_http = http, rn_https = https, rn_admin = admin, rn_state_dir = state_dir E cfg, rn_pid = st_pid E,
        rn_instance = instanceID, rn_tls = sc_tls cfg, rn_released = False\<rparr>,
      opens ([HTTPServing] @ (if sc_tls cfg then [HTTPSServing] else []) @ [AdminServing, LANRecovery, ContextWatch]) b)"

text \<open>\<open>newLocalTLSConfig\<close> fails only without a configuration, a server or a store, which \<open>Start\<close> has checked before.\<close>

definition start_listening :: "start_env \<Rightarrow> start_config \<Rightarrow> string \<Rightarrow> boot \<Rightarrow> (start_error, running) result \<times> boot" where
  "start_listening E cfg instanceID b =
     (case st_listen E (sc_http cfg) of
        Inl err \<Rightarrow> (Inl (ListenFailed (listenError (st_lsof E) (st_ss E) (sc_http cfg) err)), closes [LogFile] b)
      | Inr http \<Rightarrow>
          (let b = opens [HTTPListener] b in
           case (if sc_tls cfg then st_listen E (sc_https cfg) else Inr '''') of
             Inl err \<Rightarrow> (Inl (ListenFailed (listenError (st_lsof E) (st_ss E) (sc_https cfg) err)), closes [HTTPListener, LogFile] b)
           | Inr https \<Rightarrow>
               (let b = (if sc_tls cfg then opens [HTTPSListener] b else b);
                    https_ln = (if sc_tls cfg then [HTTPSListener] else []) in
                case st_listen E (sc_admin cfg) of
                  Inl err \<Rightarrow> (Inl AdminListenFailed, closes ([HTTPListener] @ https_ln @ [LogFile]) b)
                | Inr admin \<Rightarrow>
                    (let b = opens [AdminListener] b in
                     case on_disk (publishRuntimeRecords (st_goos E) (path_join (state_dir E cfg) ''router.pid'')
                                     (path_join (state_dir E cfg) ''router.instance'') (st_pid E) instanceID) b of
                       (Inl e, b) \<Rightarrow> (Inl (StateFile e), closes ([HTTPListener] @ https_ln @ [AdminListener, LogFile]) b)
                     | (Inr _, b) \<Rightarrow> (case start_serving E cfg instanceID http https admin b of (running, b) \<Rightarrow> (Inr running, b))))))"

definition start_logging :: "start_env \<Rightarrow> start_config \<Rightarrow> boot \<Rightarrow> (start_error, running) result \<times> boot" where
  "start_logging E cfg b =
     (case on_disk (RotateLog (log_path E cfg)) b of
        (Inl e, b) \<Rightarrow> (Inl (StateFile e), b)
      | (Inr _, b) \<Rightarrow>
          (case on_disk (openRouterLog (log_path E cfg)) b of
             (Inl e, b) \<Rightarrow> (Inl (StateFile e), b)
           | (Inr _, b) \<Rightarrow>
               (let b = opens [LogFile] b in
                case on_disk (EnsureToken (st_goos E) (st_token_bytes E) (path_join (state_dir E cfg) ''token'')) b of
                  (Inl e, b) \<Rightarrow> (Inl (StateFile e), closes [LogFile] b)
                | (Inr token, b) \<Rightarrow>
                    if \<not> st_table E then (Inl TableFailed, closes [LogFile] b)
                    else (case on_disk (generateToken (st_instance_bytes E)) b of
                       (Inl e, b) \<Rightarrow> (Inl (StateFile e), closes [LogFile] b)
                     | (Inr instanceID, b) \<Rightarrow> start_listening E cfg instanceID b))))"

definition Start :: "start_env \<Rightarrow> start_config \<Rightarrow> boot \<Rightarrow> (start_error, running) result \<times> boot" where
  "Start E cfg b =
     (let cfg = start_defaults E cfg in
      if \<not> isLoopbackAddr (st_net E) (sc_admin cfg) then (Inl AdminNotLoopback, b)
      else if \<not> st_prune E then (Inl LegacyCertificates, b)
      else if sc_tls cfg \<and> \<not> sc_store cfg then (Inl NoCertificateStore, b)
      else if sc_tls cfg \<and> \<not> st_authority E then (Inl NoAuthority, b)
      else start_logging E cfg b)"

section \<open>Closing\<close>

datatype close_error = RecoveryTimeout | ManagerClose | HTTPShutdown | HTTPSShutdown | AdminShutdown | LANShutdown bool

text \<open>Whether the recovery ends in time, the LAN manager closes, and each server shuts down.\<close>

record close_answers =
  ca_recovery :: bool
  ca_manager :: bool
  ca_http :: bool
  ca_https :: bool
  ca_admin :: bool
  ca_there :: bool

definition close_result :: "close_answers \<Rightarrow> bool \<Rightarrow> close_error option" where
  "close_result A tls =
     (let first = (if ca_recovery A then None else Some RecoveryTimeout);
          first = (if \<not> ca_manager A \<and> first = None then Some ManagerClose else first);
          first = (if \<not> ca_http A then Some HTTPShutdown else first);
          first = (if tls \<and> \<not> ca_https A \<and> first = None then Some HTTPSShutdown else first)
      in if \<not> ca_admin A \<and> first = None then Some AdminShutdown else first)"

text \<open>The recovery is cancelled with the manager; the log is closed last, after the records have been released once.\<close>

definition close_running :: "close_answers \<Rightarrow> running \<Rightarrow> boot \<Rightarrow> close_error option \<times> running \<times> boot" where
  "close_running A r b =
     (let b = closes ((if ca_recovery A then [LANRecovery] else []) @ [HTTPServing, HTTPSServing, AdminServing]) b;
          b = closes [HTTPListener, HTTPSListener, AdminListener] b;
          (r, b) = (if rn_state_dir r = '''' \<or> rn_released r then (r, b)
            else (r\<lparr>rn_released := True\<rparr>,
                  snd (on_disk (releaseRuntimeRecords (ca_there A) (path_join (rn_state_dir r) ''router.pid'')
                                  (path_join (rn_state_dir r) ''router.instance'') (rn_pid r) (rn_instance r)) b)))
      in (close_result A (rn_tls r), r, closes [LogFile] b))"

section \<open>The LAN ingress\<close>

definition StartLANIngress ::
  "(string \<Rightarrow> (listen_failure, string) result) \<Rightarrow> bool \<Rightarrow> string \<Rightarrow> string \<Rightarrow> resource list \<Rightarrow> (start_error, string \<times> string) result \<times> resource list" where
  "StartLANIngress listen has_server httpAddr httpsAddr held =
     (if \<not> has_server then (Inl NoLANRouter, held)
      else if httpAddr = '''' \<or> httpsAddr = '''' then (Inl NoLANAddress, held)
      else (case listen httpAddr of
         Inl _ \<Rightarrow> (Inl LANListenFailed, held)
       | Inr http \<Rightarrow>
           (let held = held @ [LANHTTPListener] in
            case listen httpsAddr of
              Inl _ \<Rightarrow> (Inl LANListenFailed, filter (\<lambda>r. r \<noteq> LANHTTPListener) held)
            | Inr https \<Rightarrow> (Inr (http, https), held @ [LANHTTPSListener, LANHTTPServing, LANHTTPSServing]))))"

text \<open>\<open>closed\<close>: the result of the first \<open>Close\<close>, which every later one returns.\<close>

definition close_ingress :: "bool \<Rightarrow> bool \<Rightarrow> close_error option option \<Rightarrow> resource list \<Rightarrow> close_error option option \<times> resource list" where
  "close_ingress http_ok https_ok closed held =
     (case closed of
        Some result \<Rightarrow> (Some result, held)
      | None \<Rightarrow>
          (Some (if \<not> http_ok then Some (LANShutdown False) else if \<not> https_ok then Some (LANShutdown True) else None),
           filter (\<lambda>r. r \<notin> set [LANHTTPListener, LANHTTPSListener, LANHTTPServing, LANHTTPSServing]) held))"

section \<open>What is open\<close>

lemma record_paths:
  "path_join dir ''router.pid'' \<noteq> path_join dir ''router.instance''"
  "path_join dir ''router.pid'' \<noteq> tmp_of (path_join dir ''router.instance'')"
  "path_join dir ''router.pid'' \<noteq> backup_of (path_join dir ''router.instance'')"
proof -
  obtain front where front: "\<And>x. plain_elem x \<Longrightarrow> path_join dir x = front @ x"
    using path_join_plain [of dir] by metis
  have "plain_elem ''router.pid''" "plain_elem ''router.instance''" by (simp_all add: plain_elem_def)
  then show "path_join dir ''router.pid'' \<noteq> path_join dir ''router.instance''"
    "path_join dir ''router.pid'' \<noteq> tmp_of (path_join dir ''router.instance'')"
    "path_join dir ''router.pid'' \<noteq> backup_of (path_join dir ''router.instance'')"
    by (simp_all add: front tmp_of_def backup_of_def)
qed

lemma on_disk_open: "on_disk f b = (r, b') \<Longrightarrow> bo_open b' = bo_open b"
  by (auto simp: on_disk_def split: prod.splits)

lemma opens_open [simp]: "bo_open (opens rs b) = bo_open b @ rs" "bo_disk (opens rs b) = bo_disk b"
  by (simp_all add: opens_def)

lemma closes_open [simp]: "bo_open (closes rs b) = filter (\<lambda>r. r \<notin> set rs) (bo_open b)" "bo_disk (closes rs b) = bo_disk b"
  by (simp_all add: closes_def)

text \<open>What a running router holds.\<close>

definition held_by :: "bool \<Rightarrow> resource list" where
  "held_by tls = [LogFile, HTTPListener] @ (if tls then [HTTPSListener] else []) @ [AdminListener, HTTPServing]
     @ (if tls then [HTTPSServing] else []) @ [AdminServing, LANRecovery, ContextWatch]"

lemma start_listening_open:
  assumes "start_listening E cfg instanceID b = (r, b')" "bo_open b = [LogFile]"
  shows "case r of Inl e \<Rightarrow> bo_open b' = [] | Inr rn \<Rightarrow> bo_open b' = held_by (sc_tls cfg)"
proof (cases "st_listen E (sc_http cfg)")
  case (Inl err)
  then show ?thesis using assms by (auto simp: start_listening_def)
next
  case http: (Inr http)
  show ?thesis
  proof (cases "if sc_tls cfg then st_listen E (sc_https cfg) else Inr ''''")
    case (Inl err)
    then show ?thesis using assms http by (auto simp: start_listening_def Let_def)
  next
    case https: (Inr https)
    let ?b = "opens ((if sc_tls cfg then [HTTPSListener] else []) @ [AdminListener]) (opens [HTTPListener] b)"
    obtain q b1 where p: "on_disk (publishRuntimeRecords (st_goos E) (path_join (state_dir E cfg) ''router.pid'')
      (path_join (state_dir E cfg) ''router.instance'') (st_pid E) instanceID) ?b = (q, b1)"
      by (cases "on_disk (publishRuntimeRecords (st_goos E) (path_join (state_dir E cfg) ''router.pid'')
      (path_join (state_dir E cfg) ''router.instance'') (st_pid E) instanceID) ?b")
    have open1: "bo_open b1 = [LogFile, HTTPListener] @ (if sc_tls cfg then [HTTPSListener] else []) @ [AdminListener]"
      using on_disk_open [OF p] assms(2) by simp
    have same: "opens [AdminListener] (if sc_tls cfg then opens [HTTPSListener] (opens [HTTPListener] b) else opens [HTTPListener] b) = ?b"
      by (simp add: opens_def)
    show ?thesis
    proof (cases "st_listen E (sc_admin cfg)")
      case (Inl err)
      then show ?thesis using assms http https by (auto simp: start_listening_def Let_def split: if_splits)
    next
      case (Inr admin)
      then show ?thesis using assms(1) http https p open1
        by (auto simp: start_listening_def Let_def same held_by_def start_serving_def split: sum.splits if_splits)
    qed
  qed
qed

lemma start_logging_open:
  assumes "start_logging E cfg b = (r, b')" "bo_open b = []"
  shows "case r of Inl e \<Rightarrow> bo_open b' = [] | Inr rn \<Rightarrow> bo_open b' = held_by (sc_tls cfg)"
proof -
  obtain q1 b1 where s1: "on_disk (RotateLog (log_path E cfg)) b = (q1, b1)" by (cases "on_disk (RotateLog (log_path E cfg)) b")
  obtain q2 b2 where s2: "on_disk (openRouterLog (log_path E cfg)) b1 = (q2, b2)" by (cases "on_disk (openRouterLog (log_path E cfg)) b1")
  let ?b = "opens [LogFile] b2"
  obtain q3 b3 where s3: "on_disk (EnsureToken (st_goos E) (st_token_bytes E) (path_join (state_dir E cfg) ''token'')) ?b = (q3, b3)"
    by (cases "on_disk (EnsureToken (st_goos E) (st_token_bytes E) (path_join (state_dir E cfg) ''token'')) ?b")
  obtain q4 b4 where s4: "on_disk (generateToken (st_instance_bytes E)) b3 = (q4, b4)" by (cases "on_disk (generateToken (st_instance_bytes E)) b3")
  have opened: "bo_open b1 = []" "bo_open b2 = []" "bo_open b3 = [LogFile]" "bo_open b4 = [LogFile]"
    using on_disk_open [OF s1] on_disk_open [OF s2] on_disk_open [OF s3] on_disk_open [OF s4] assms(2) by simp_all
  note here = assms(1) [unfolded start_logging_def s1 prod.case]
  show ?thesis
  proof (cases q1)
    case (Inl e) then show ?thesis using here opened by auto
  next
    case q1: (Inr u)
    note here2 = here [unfolded q1 sum.case s2 prod.case]
    show ?thesis
    proof (cases q2)
      case (Inl e) then show ?thesis using here2 opened by auto
    next
      case q2: (Inr u)
      note here3 = here2 [unfolded q2 sum.case Let_def s3 prod.case]
      show ?thesis
      proof (cases q3)
        case (Inl e) then show ?thesis using here3 opened by auto
      next
        case q3: (Inr token)
        note here4 = here3 [unfolded q3 sum.case s4 prod.case]
        show ?thesis
        proof (cases "st_table E")
          case False then show ?thesis using here4 opened by auto
        next
          case True
          show ?thesis
          proof (cases q4)
            case (Inl e) then show ?thesis using here4 opened True by auto
          next
            case (Inr instanceID)
            then have "start_listening E cfg instanceID b4 = (r, b')" using here4 True by simp
            from start_listening_open [OF this opened(4)] show ?thesis .
          qed
        qed
      qed
    qed
  qed
qed

lemma start_listening_running:
  assumes "start_listening E cfg instanceID b = (Inr rn, b')"
  obtains d where "publishRuntimeRecords (st_goos E) (path_join (state_dir E cfg) ''router.pid'')
      (path_join (state_dir E cfg) ''router.instance'') (st_pid E) instanceID d = (Inr (), bo_disk b')"
    "rn_state_dir rn = state_dir E cfg" "rn_pid rn = st_pid E" "rn_instance rn = instanceID" "rn_tls rn = sc_tls cfg"
    "\<not> rn_released rn" "st_listen E (sc_admin cfg) = Inr (rn_admin rn)"
  using assms
  by (auto simp: start_listening_def start_serving_def on_disk_def Let_def opens_def split: sum.splits prod.splits if_splits)

lemma start_logging_running:
  assumes "start_logging E cfg b = (Inr rn, b')"
  obtains instanceID b1 where "start_listening E cfg instanceID b1 = (Inr rn, b')"
    "\<exists>bytes. st_instance_bytes E = Some bytes \<and> instanceID = hex_encode bytes"
  using assms
  by (auto simp: start_logging_def on_disk_def generateToken_def Let_def split: sum.splits prod.splits if_splits option.splits)

lemma Start_running:
  assumes "Start E cfg b = (Inr rn, b')"
  shows "start_logging E (start_defaults E cfg) b = (Inr rn, b')" "isLoopbackAddr (st_net E) (sc_admin (start_defaults E cfg))"
    "sc_tls cfg \<Longrightarrow> sc_store cfg \<and> st_authority E" "sc_tls (start_defaults E cfg) = sc_tls cfg"
proof -
  show tls: "sc_tls (start_defaults E cfg) = sc_tls cfg" by (simp add: start_defaults_def Let_def)
  have store: "sc_store (start_defaults E cfg) = sc_store cfg" by (simp add: start_defaults_def Let_def)
  show "start_logging E (start_defaults E cfg) b = (Inr rn, b')" "isLoopbackAddr (st_net E) (sc_admin (start_defaults E cfg))"
    "sc_tls cfg \<Longrightarrow> sc_store cfg \<and> st_authority E"
    using assms tls store by (auto simp: Start_def Let_def split: if_splits)
qed

text \<open>
  C19. Starting the router is all or nothing, whichever step fails: after an error the process holds nothing open, neither
  the log nor a listener; a running router holds the log, every listener and the goroutines that serve them, its
  administration listens on a loopback address only, and HTTPS only with a certificate store that has an authority.
\<close>

theorem Start_all_or_nothing:
  "case Start E cfg (b\<lparr>bo_open := []\<rparr>) of
     (Inl e, b') \<Rightarrow> bo_open b' = []
   | (Inr rn, b') \<Rightarrow> bo_open b' = held_by (rn_tls rn)
       \<and> (\<exists>addr. isLoopbackAddr (st_net E) addr \<and> st_listen E addr = Inr (rn_admin rn))
       \<and> (if rn_tls rn then sc_tls cfg \<and> sc_store cfg \<and> st_authority E else \<not> sc_tls cfg)"
proof -
  obtain r b' where run: "Start E cfg (b\<lparr>bo_open := []\<rparr>) = (r, b')" by (cases "Start E cfg (b\<lparr>bo_open := []\<rparr>)")
  show ?thesis
  proof (cases r)
    case (Inl e)
    then show ?thesis using run start_logging_open [of E "start_defaults E cfg" "b\<lparr>bo_open := []\<rparr>" r b']
      by (auto simp: Start_def Let_def split: if_splits)
  next
    case (Inr rn)
    note facts = Start_running [OF run [unfolded Inr]]
    from start_logging_running [OF facts(1)] obtain instanceID b1 where
      listening: "start_listening E (start_defaults E cfg) instanceID b1 = (Inr rn, b')" by blast
    obtain tls: "rn_tls rn = sc_tls cfg" and admin: "st_listen E (sc_admin (start_defaults E cfg)) = Inr (rn_admin rn)"
      using start_listening_running [OF listening] facts(4) by metis
    show ?thesis using start_logging_open [OF facts(1)] run Inr facts(2,3,4) tls admin by auto
  qed
qed

section \<open>Closing\<close>

lemma names_self:
  assumes published: "publishRuntimeRecords goos pidPath instancePath pid (hex_encode bytes) d = (Inr (), d')"
    and apart: "pidPath \<noteq> instancePath" "pidPath \<noteq> tmp_of instancePath" "pidPath \<noteq> backup_of instancePath"
    and pid: "0 < pid" "pid < 2 ^ 63" and bytes: "length bytes = 32" "list_all (\<lambda>b. b < 256) bytes"
  shows "names_pid d' pidPath pid" "names_instance d' instancePath (hex_encode bytes)"
proof -
  note files = publish_records [OF published apart] and written = itoa_record [OF pid]
  have "list_all is_hex (hex_encode bytes)" using token_ok [OF bytes] by (simp add: validToken_def)
  then have "trim_space (hex_encode bytes @ newline) = hex_encode bytes" by (rule trim_token)
  then show "names_pid d' pidPath pid" "names_instance d' instancePath (hex_encode bytes)"
    using files written bytes by (simp_all add: names_pid_def names_instance_def newline_def)
qed

lemma close_running_files:
  assumes "close_running A rn b = (e, rn', b')"
  shows "rn' = (if rn_state_dir rn = '''' then rn else rn\<lparr>rn_released := True\<rparr>)"
    "bo_open b' = filter (\<lambda>r. r \<notin> set ((if ca_recovery A then [LANRecovery] else []) @
       [HTTPServing, HTTPSServing, AdminServing, HTTPListener, HTTPSListener, AdminListener, LogFile])) (bo_open b)"
    "bo_disk b' = (if rn_state_dir rn = '''' \<or> rn_released rn then bo_disk b
       else snd (releaseRuntimeRecords (ca_there A) (path_join (rn_state_dir rn) ''router.pid'')
              (path_join (rn_state_dir rn) ''router.instance'') (rn_pid rn) (rn_instance rn) (bo_disk b)))"
  using assms by (auto simp: close_running_def on_disk_def Let_def split: if_splits prod.splits intro!: filter_cong)

text \<open>
  C20. Closing takes back what starting did. When a router has started, its records name it; closing it, whatever the
  servers and the LAN manager answer, leaves open only what waits for the context and a recovery that did not end in time,
  removes both records when the disk answers, and a second closing does not touch the disk, whoever's records are there.
\<close>

theorem Close_takes_back_Start:
  assumes "0 < st_pid E" "st_pid E < 2 ^ 63" "st_instance_bytes E = Some bytes" "length bytes = 32"
    "list_all (\<lambda>b. b < 256) bytes" "st_default_dir E \<noteq> ''''"
  shows "case Start E cfg (b\<lparr>bo_open := []\<rparr>) of
      (Inl e, b') \<Rightarrow> True
    | (Inr rn, b') \<Rightarrow>
        (let pidPath = path_join (rn_state_dir rn) ''router.pid''; instancePath = path_join (rn_state_dir rn) ''router.instance'' in
         names_pid (bo_disk b') pidPath (rn_pid rn) \<and> names_instance (bo_disk b') instancePath (rn_instance rn)
         \<and> (case close_running (A\<lparr>ca_there := True\<rparr>) rn (b'\<lparr>bo_disk := bo_disk b'\<lparr>dk_answers := []\<rparr>\<rparr>) of (e, rn', b'') \<Rightarrow>
              bo_open b'' = (if ca_recovery A then [] else [LANRecovery]) @ [ContextWatch]
              \<and> dk_files (bo_disk b'') pidPath = None \<and> dk_files (bo_disk b'') instancePath = None
              \<and> (\<forall>A' b3. bo_disk (snd (snd (close_running A' rn' b3))) = bo_disk b3)))"
proof -
  obtain r b' where run: "Start E cfg (b\<lparr>bo_open := []\<rparr>) = (r, b')" by (cases "Start E cfg (b\<lparr>bo_open := []\<rparr>)")
  show ?thesis
  proof (cases r)
    case (Inl e) then show ?thesis using run by simp
  next
    case (Inr rn)
    let ?cfg = "start_defaults E cfg" and ?A = "A\<lparr>ca_there := True\<rparr>"
    note facts = Start_running [OF run [unfolded Inr]]
    from start_logging_running [OF facts(1)] assms(3) obtain b1 where
      listening: "start_listening E ?cfg (hex_encode bytes) b1 = (Inr rn, b')" by auto
    let ?pid = "path_join (state_dir E ?cfg) ''router.pid''" and ?instance = "path_join (state_dir E ?cfg) ''router.instance''"
    obtain d where pub: "publishRuntimeRecords (st_goos E) ?pid ?instance (st_pid E) (hex_encode bytes) d = (Inr (), bo_disk b')"
      and rn: "rn_state_dir rn = state_dir E ?cfg" "rn_pid rn = st_pid E" "rn_instance rn = hex_encode bytes"
        "rn_tls rn = sc_tls ?cfg" "\<not> rn_released rn"
      by (rule start_listening_running [OF listening]) blast
    note names = names_self [OF pub record_paths assms(1,2,4,5)]
    have opened: "bo_open b' = held_by (sc_tls ?cfg)" using start_logging_open [OF facts(1)] by simp
    have dir: "state_dir E ?cfg \<noteq> ''''" using assms(6) by (simp add: state_dir_def)
    let ?d = "bo_disk b'\<lparr>dk_answers := []\<rparr>"
    let ?b = "b'\<lparr>bo_disk := ?d\<rparr>"
    obtain e rn' b'' where close: "close_running ?A rn ?b = (e, rn', b'')" by (cases "close_running ?A rn ?b")
    note after = close_running_files [OF close]
    have rn': "rn' = rn\<lparr>rn_released := True\<rparr>" using after(1) rn dir by simp
    have "names_pid ?d ?pid (st_pid E)" "names_instance ?d ?instance (hex_encode bytes)"
      using names by (simp_all add: names_pid_def names_instance_def)
    from release_quiet [OF this record_paths(1)] have
      "fst (releaseRuntimeRecords True ?pid ?instance (st_pid E) (hex_encode bytes) ?d) = Inr ()" by simp
    then obtain d' where rel: "releaseRuntimeRecords True ?pid ?instance (st_pid E) (hex_encode bytes) ?d = (Inr (), d')"
      by (metis prod.collapse)
    then have gone: "dk_files d' ?pid = None" "dk_files d' ?instance = None" using release_files(4) [OF rel] by simp_all
    have disk: "bo_disk b'' = d'" using after(3) rel rn dir by simp
    have left: "bo_open b'' = (if ca_recovery A then [] else [LANRecovery]) @ [ContextWatch]"
      using after(2) opened by (simp add: held_by_def)
    have again: "bo_disk (snd (snd (close_running A' rn' b3))) = bo_disk b3" for A' b3
    proof -
      obtain e2 rn2 b4 where close2: "close_running A' rn' b3 = (e2, rn2, b4)" by (cases "close_running A' rn' b3")
      have "bo_disk b4 = bo_disk b3" using close_running_files(3) [OF close2] rn' by simp
      then show ?thesis by (simp add: close2)
    qed
    show ?thesis using run Inr names rn close disk gone left again by (simp add: Let_def)
  qed
qed

text \<open>The first error of a \<open>Close\<close> is lost when the HTTP server does not shut down in time.\<close>

lemma Close_hides_first_error:
  "close_result \<lparr>ca_recovery = True, ca_manager = False, ca_http = False, ca_https = True, ca_admin = True, ca_there = True\<rparr> tls
   = Some HTTPShutdown"
  by (simp add: close_result_def)

section \<open>The loopback listener and the LAN ingress\<close>

definition refused :: "arrival list \<Rightarrow> nat list \<Rightarrow> bool" where
  "refused pre closed \<longleftrightarrow>
     map (\<lambda>a. case a of Arrives conn _ \<Rightarrow> Some conn | AcceptFails \<Rightarrow> None) pre = map Some closed
     \<and> list_all (\<lambda>a. case a of Arrives _ (Some ip) \<Rightarrow> \<not> ip_is_loopback ip | Arrives _ None \<Rightarrow> True | AcceptFails \<Rightarrow> False) pre"

lemma accept_loopback_ok:
  "accept_loopback arrivals = (got, closed, rest) \<Longrightarrow>
   \<exists>pre. refused pre closed
     \<and> (case got of
          Some conn \<Rightarrow> (\<exists>ip. ip_is_loopback ip \<and> arrivals = pre @ [Arrives conn (Some ip)] @ rest)
        | None \<Rightarrow> arrivals = pre @ [AcceptFails] @ rest \<or> (arrivals = pre \<and> rest = []))"
proof (induction arrivals arbitrary: got closed rest rule: accept_loopback.induct)
  case 1
  then show ?case by (intro exI [of _ "[]"]) (auto simp: refused_def)
next
  case (2 more)
  then show ?case by (intro exI [of _ "[]"]) (auto simp: refused_def)
next
  case (3 conn remote more)
  show ?case
  proof (cases "case remote of None \<Rightarrow> False | Some ip \<Rightarrow> ip_is_loopback ip")
    case True
    then show ?thesis using "3.prems" by (intro exI [of _ "[]"]) (auto simp: refused_def split: option.splits)
  next
    case False
    obtain got' closed' rest' where m: "accept_loopback more = (got', closed', rest')" by (cases "accept_loopback more")
    have eqs: "got = got'" "closed = conn # closed'" "rest = rest'" using "3.prems" m False by simp_all
    from "3.IH" [OF False m] obtain pre where pre: "refused pre closed'"
      "case got' of
          Some conn \<Rightarrow> (\<exists>ip. ip_is_loopback ip \<and> more = pre @ [Arrives conn (Some ip)] @ rest')
        | None \<Rightarrow> more = pre @ [AcceptFails] @ rest' \<or> (more = pre \<and> rest' = [])" by blast
    then show ?thesis using False unfolding eqs
      by (intro exI [of _ "Arrives conn remote # pre"]) (auto simp: refused_def split: option.splits)
  qed
qed

text \<open>
  The listener on every address, which macOS needs for port 80, serves this machine only: whatever connects, in whatever
  order, \<open>Accept\<close> hands over the first connection from a loopback address, has closed every one before it, and a
  LAN ingress that cannot listen on both of its addresses listens on neither.
\<close>

theorem only_loopback_accepted:
  "(case accept_loopback arrivals of (got, closed, rest) \<Rightarrow>
      (\<exists>pre. refused pre closed
         \<and> (case got of
              Some conn \<Rightarrow> (\<exists>ip. ip_is_loopback ip \<and> arrivals = pre @ [Arrives conn (Some ip)] @ rest)
            | None \<Rightarrow> arrivals = pre @ [AcceptFails] @ rest \<or> (arrivals = pre \<and> rest = []))))
   \<and> (case StartLANIngress listen has_server httpAddr httpsAddr [] of
        (Inl e, held) \<Rightarrow> held = []
      | (Inr addrs, held) \<Rightarrow> snd (close_ingress ok ok' None held) = [])"
proof
  show "case accept_loopback arrivals of (got, closed, rest) \<Rightarrow>
      (\<exists>pre. refused pre closed
         \<and> (case got of
              Some conn \<Rightarrow> (\<exists>ip. ip_is_loopback ip \<and> arrivals = pre @ [Arrives conn (Some ip)] @ rest)
            | None \<Rightarrow> arrivals = pre @ [AcceptFails] @ rest \<or> (arrivals = pre \<and> rest = [])))"
    by (cases "accept_loopback arrivals") (simp only: prod.case accept_loopback_ok)
  show "case StartLANIngress listen has_server httpAddr httpsAddr [] of
        (Inl e, held) \<Rightarrow> held = []
      | (Inr addrs, held) \<Rightarrow> snd (close_ingress ok ok' None held) = []"
    by (auto simp: StartLANIngress_def close_ingress_def Let_def split: sum.splits if_splits)
qed

section \<open>A start on a disk that answers\<close>

lemma quiet_syscall: "dk_answers d = [] \<Longrightarrow> syscall f d = (Inr (), d\<lparr>dk_files := f (dk_files d)\<rparr>)"
  by (simp add: syscall_def next_answer_def)

lemmas quiet_steps = quiet_syscall touch_def write_file_def rename_file_def read_file_def disk_bind_def disk_return_def

lemma quiet_record:
  assumes "dk_answers d = []"
  shows "\<exists>d'. write_record ''linux'' path content d = (Inr (), d') \<and> dk_answers d' = []"
  using assms by (simp add: write_record_def with_cleanup_def write_tmp_def replaceFileForGOOS_def quiet_steps)

lemma quiet_publish:
  assumes "dk_answers d = []" "instanceID \<noteq> ''''"
  shows "\<exists>d'. publishRuntimeRecords ''linux'' pidPath instancePath pid instanceID d = (Inr (), d') \<and> dk_answers d' = []"
proof -
  obtain d1 where one: "write_record ''linux'' pidPath (itoa pid) d = (Inr (), d1)" "dk_answers d1 = []"
    using quiet_record [OF assms(1)] by blast
  obtain d2 where two: "write_record ''linux'' instancePath instanceID d1 = (Inr (), d2)" "dk_answers d2 = []"
    using quiet_record [OF one(2)] by blast
  have "touch d = (Inr (), d)" using assms(1) by (simp add: touch_def quiet_syscall)
  then show ?thesis using one two assms(2)
    by (simp add: publishRuntimeRecords_def writePIDFile_def writeRouterInstance_def disk_bind_def)
qed

lemma quiet_token:
  assumes "dk_answers d = []"
  shows "\<exists>token d'. EnsureToken ''linux'' (Some bytes) path d = (Inr token, d') \<and> dk_answers d' = []"
proof -
  have written: "\<exists>d'. writeToken ''linux'' (Some bytes) path e = (Inr (hex_encode bytes), d') \<and> dk_answers d' = []"
    if "dk_answers e = []" for e
    using that by (simp add: writeToken_def generateToken_def with_cleanup_def write_tmp_def replaceFileForGOOS_def quiet_steps)
  show ?thesis using assms written [of d]
    by (cases "dk_files d path") (auto simp: EnsureToken_def quiet_steps Let_def)
qed

lemma quiet_rotate:
  assumes "dk_answers d = []"
  shows "\<exists>d'. RotateLog path d = (Inr (), d') \<and> dk_answers d' = []"
  using assms by (cases "dk_files d path") (auto simp: RotateLog_def quiet_steps ignoring_def remove_file_def Let_def)

lemma quiet_open: "dk_answers d = [] \<Longrightarrow> \<exists>d'. openRouterLog path d = (Inr (), d') \<and> dk_answers d' = []"
  by (simp add: openRouterLog_def quiet_steps)

definition start_ready :: "start_env \<Rightarrow> start_config \<Rightarrow> bool" where
  "start_ready E cfg \<longleftrightarrow> st_goos E = ''linux'' \<and> isLoopbackAddr (st_net E) (sc_admin (start_defaults E cfg)) \<and> st_prune E \<and> st_table E
     \<and> (sc_tls cfg \<longrightarrow> sc_store cfg \<and> st_authority E)
     \<and> (\<exists>bytes. st_token_bytes E = Some bytes) \<and> (\<exists>bytes. bytes \<noteq> [] \<and> st_instance_bytes E = Some bytes)
     \<and> (\<forall>addr. \<exists>bound. st_listen E addr = Inr bound)"

lemma hex_ne: "bytes \<noteq> [] \<Longrightarrow> hex_encode bytes \<noteq> []"
  by (cases bytes) (simp_all add: hex_encode_def hex_byte_def)

lemma listening_ready:
  assumes "start_ready E cfg" "cfg' = start_defaults E cfg" "dk_answers (bo_disk b) = []" "instanceID \<noteq> ''''"
  shows "\<exists>rn b'. start_listening E cfg' instanceID b = (Inr rn, b')"
proof -
  obtain http https admin where listen: "st_listen E (sc_http cfg') = Inr http" "st_listen E (sc_https cfg') = Inr https"
    "st_listen E (sc_admin cfg') = Inr admin" using assms(1) unfolding start_ready_def by metis
  have goos: "st_goos E = ''linux''" using assms(1) by (simp add: start_ready_def)
  let ?b = "opens [AdminListener] (if sc_tls cfg' then opens [HTTPSListener] (opens [HTTPListener] b) else opens [HTTPListener] b)"
  have "dk_answers (bo_disk ?b) = []" using assms(3) by simp
  from quiet_publish [OF this assms(4)] obtain d where
    "publishRuntimeRecords ''linux'' (path_join (state_dir E cfg') ''router.pid'')
       (path_join (state_dir E cfg') ''router.instance'') (st_pid E) instanceID (bo_disk ?b) = (Inr (), d)" "dk_answers d = []" by blast
  then obtain b' where
    "on_disk (publishRuntimeRecords (st_goos E) (path_join (state_dir E cfg') ''router.pid'')
       (path_join (state_dir E cfg') ''router.instance'') (st_pid E) instanceID) ?b = (Inr (), b')"
    by (simp add: goos on_disk_def)
  then show ?thesis using listen by (cases "sc_tls cfg'") (simp_all add: start_listening_def start_serving_def Let_def)
qed

lemma Start_ready:
  assumes "start_ready E cfg" "dk_answers (bo_disk b) = []"
  shows "\<exists>rn b'. Start E cfg b = (Inr rn, b')"
proof -
  let ?cfg = "start_defaults E cfg"
  obtain bytes bytes' where bytes: "st_token_bytes E = Some bytes" "st_instance_bytes E = Some bytes'" "bytes' \<noteq> []"
    and goos: "st_goos E = ''linux''" and table: "st_table E" using assms(1) by (auto simp: start_ready_def)
  obtain d1 where d1: "RotateLog (log_path E ?cfg) (bo_disk b) = (Inr (), d1)" "dk_answers d1 = []"
    using quiet_rotate [OF assms(2)] by blast
  obtain b1 where s1: "on_disk (RotateLog (log_path E ?cfg)) b = (Inr (), b1)" "dk_answers (bo_disk b1) = []"
    using d1 by (simp add: on_disk_def)
  obtain d2 where d2: "openRouterLog (log_path E ?cfg) (bo_disk b1) = (Inr (), d2)" "dk_answers d2 = []"
    using quiet_open [OF s1(2)] by blast
  obtain b2 where s2: "on_disk (openRouterLog (log_path E ?cfg)) b1 = (Inr (), b2)" "dk_answers (bo_disk b2) = []"
    using d2 by (simp add: on_disk_def)
  let ?b = "opens [LogFile] b2" and ?token = "EnsureToken ''linux'' (Some bytes) (path_join (state_dir E ?cfg) ''token'')"
  have "dk_answers (bo_disk ?b) = []" using s2(2) by simp
  from quiet_token [OF this] obtain a3 d3 where d3: "?token (bo_disk ?b) = (Inr a3, d3)" "dk_answers d3 = []" by blast
  obtain b3 where s3: "on_disk ?token ?b = (Inr a3, b3)" "dk_answers (bo_disk b3) = []"
    using d3 by (simp add: on_disk_def)
  have s4: "on_disk (generateToken (Some bytes')) b3 = (Inr (hex_encode bytes'), b3)"
    by (simp add: on_disk_def generateToken_def)
  obtain rn b' where "start_listening E ?cfg (hex_encode bytes') b3 = (Inr rn, b')"
    using listening_ready [OF assms(1) refl s3(2) hex_ne [OF bytes(3)]] by blast
  then have "start_logging E ?cfg b = (Inr rn, b')"
    using s1(1) s2(1) s3(1) s4 bytes table goos by (simp add: start_logging_def Let_def)
  moreover have "Start E cfg b = start_logging E ?cfg b"
    using assms(1) by (auto simp: Start_def start_ready_def start_defaults_def Let_def)
  ultimately show ?thesis by simp
qed

definition trial_start :: start_env where
  "trial_start = \<lparr>st_goos = ''linux'', st_net = \<lparr>net_parse_url = Map.empty, net_parse_ip = (\<lambda>h. if h = ''127.0.0.1'' then Some (IPv4 127 0 0 1) else None)\<rparr>,
     st_default_dir = ''/s'', st_prune = True, st_authority = True, st_table = True, st_token_bytes = Some (replicate 32 171),
     st_instance_bytes = Some (replicate 32 205), st_listen = Inr, st_lsof = Map.empty, st_ss = Map.empty, st_pid = 7\<rparr>"

definition trial_config :: start_config where
  "trial_config = \<lparr>sc_http = '''', sc_https = '''', sc_admin = '''', sc_state_dir = '''', sc_log = '''', sc_tls = True, sc_store = True\<rparr>"

definition trial_boot :: boot where
  "trial_boot = \<lparr>bo_disk = \<lparr>dk_files = Map.empty, dk_answers = []\<rparr>, bo_open = []\<rparr>"

lemma start_trial_ready: "start_ready trial_start trial_config"
proof -
  have "isLoopbackAddr (st_net trial_start) (sc_admin (start_defaults trial_start trial_config))" by code_simp
  then show ?thesis by (simp add: start_ready_def trial_start_def trial_config_def)
qed

theorem Close_takes_back_Start_witness:
  "case Start trial_start trial_config (trial_boot\<lparr>bo_open := []\<rparr>) of
     (Inl e, b') \<Rightarrow> False
   | (Inr rn, b') \<Rightarrow>
       names_pid (bo_disk b') (path_join (rn_state_dir rn) ''router.pid'') (rn_pid rn)
       \<and> (case close_running (\<lparr>ca_recovery = False, ca_manager = True, ca_http = True, ca_https = False, ca_admin = True, ca_there = False\<rparr>
                        \<lparr>ca_there := True\<rparr>) rn (b'\<lparr>bo_disk := bo_disk b'\<lparr>dk_answers := []\<rparr>\<rparr>) of
            (e, rn', b'') \<Rightarrow> bo_open b'' = [LANRecovery, ContextWatch])"
proof -
  obtain rn b' where run: "Start trial_start trial_config (trial_boot\<lparr>bo_open := []\<rparr>) = (Inr rn, b')"
    using Start_ready [OF start_trial_ready, of "trial_boot\<lparr>bo_open := []\<rparr>"] by (auto simp: trial_boot_def)
  let ?A = "\<lparr>ca_recovery = False, ca_manager = True, ca_http = True, ca_https = False, ca_admin = True, ca_there = False\<rparr>"
  have "0 < st_pid trial_start" "st_pid trial_start < 2 ^ 63" "st_instance_bytes trial_start = Some (replicate 32 205)"
    "length (replicate 32 (205 :: nat)) = 32" "list_all (\<lambda>b. b < 256) (replicate 32 (205 :: nat))" "st_default_dir trial_start \<noteq> ''''"
    by (simp_all add: trial_start_def list_all_iff)
  from Close_takes_back_Start [where E = trial_start and A = ?A and cfg = trial_config and b = trial_boot, OF this] run
  show ?thesis by (auto simp: Let_def split: prod.splits)
qed

end
