(* ===== verification/Cert_Store.thy ===== *)
theory Cert_Store
  imports State_Files Local_Tls
begin

text \<open>
  The certificate authority and the certificates it issues: \<open>internal/cert/cert.go\<close>.

  The files lie on the disk of the state files. Certificates, keys, PEM, SHA-256 and the creation of a certificate are
  the Go library's: a record answers for them. Times are seconds.
\<close>

section \<open>The library\<close>

record x509 =
  xc_raw :: string
  xc_subject :: string
  xc_issuer :: string
  xc_not_before :: int
  xc_not_after :: int
  xc_is_ca :: bool
  xc_basic_constraints :: bool
  xc_cert_sign :: bool
  xc_public_key :: "nat option"

text \<open>What \<open>CreateCertificate\<close> is given; \<open>None\<close> of a public key above is one that is not RSA.\<close>

record template =
  tp_common_name :: string
  tp_not_before :: int
  tp_not_after :: int
  tp_cert_sign :: bool
  tp_digital_signature :: bool
  tp_server_auth :: bool
  tp_is_ca :: bool
  tp_dns_names :: "string list"

record cert_lib =
  cl_parse :: "string \<Rightarrow> x509 option"
  cl_parse_key :: "string \<Rightarrow> nat option"
  cl_marshal_key :: "nat \<Rightarrow> string"
  cl_public :: "nat \<Rightarrow> nat"
  cl_decode :: "string \<Rightarrow> (string \<times> string \<times> string) option"
  cl_encode :: "string \<Rightarrow> string \<Rightarrow> string"
  cl_sha256 :: "string \<Rightarrow> nat list"
  cl_self_signed :: "x509 \<Rightarrow> bool"
  cl_create :: "template \<Rightarrow> x509 option \<Rightarrow> nat \<Rightarrow> nat \<Rightarrow> string option"

datatype cert_error =
    NoStateDir | CertFile file_error | BadPEM | BadCertificate | BadKey | BadConstraints | NotValidNow | KeyMismatch
  | NotSelfIssued | NotSelfSigned | FingerprintMismatch | NoRandom | NotCreated | IncompleteAuthority | TooShort | BadHost

type_synonym 'a cert_op = "disk \<Rightarrow> (cert_error, 'a) result \<times> disk"

definition on_files :: "'a disk_op \<Rightarrow> ('a \<Rightarrow> 'b cert_op) \<Rightarrow> 'b cert_op" where
  "on_files f g d = (case f d of (Inl e, d) \<Rightarrow> (Inl (CertFile e), d) | (Inr a, d) \<Rightarrow> g a d)"

definition cert_bind :: "'a cert_op \<Rightarrow> ('a \<Rightarrow> 'b cert_op) \<Rightarrow> 'b cert_op" where
  "cert_bind f g d = (case f d of (Inl e, d) \<Rightarrow> (Inl e, d) | (Inr a, d) \<Rightarrow> g a d)"

record authority =
  au_cert :: x509
  au_key :: nat
  au_fingerprint :: string

section \<open>Files\<close>

definition writeRawFile :: "string \<Rightarrow> string \<Rightarrow> unit disk_op" where
  "writeRawFile path data =
     disk_bind touch (\<lambda>_.
     disk_bind (write_file (tmp_of path) '''') (\<lambda>_.
     with_cleanup (tmp_of path)
       (disk_bind (write_tmp (tmp_of path) data) (\<lambda>_.
        disk_bind (rename_file (tmp_of path) path) (\<lambda>_. touch)))))"

definition writeFileIfChanged :: "string \<Rightarrow> string \<Rightarrow> unit disk_op" where
  "writeFileIfChanged path data d =
     (case read_file path d of
        (Inr existing, d) \<Rightarrow> if existing = data then touch d else writeRawFile path data d
      | (Inl _, d) \<Rightarrow> writeRawFile path data d)"

definition writePEMFile :: "cert_lib \<Rightarrow> string \<Rightarrow> string \<Rightarrow> string \<Rightarrow> unit disk_op" where
  "writePEMFile L path blockType der = writeRawFile path (cl_encode L blockType der)"

definition readSinglePEMBlock :: "cert_lib \<Rightarrow> string \<Rightarrow> string \<Rightarrow> string cert_op" where
  "readSinglePEMBlock L path blockType =
     on_files (read_file path) (\<lambda>data d.
       case cl_decode L data of
         None \<Rightarrow> (Inl BadPEM, d)
       | Some (found, bytes, rest) \<Rightarrow>
           if found \<noteq> blockType then (Inl BadPEM, d)
           else if trim_space rest \<noteq> '''' then (Inl BadPEM, d)
           else (Inr bytes, d))"

definition ca_base :: "string \<Rightarrow> string" where "ca_base dir = path_join dir ''ca''"
definition ca_cert_path :: "string \<Rightarrow> string" where "ca_cert_path dir = path_join (ca_base dir) ''ca.pem''"
definition ca_key_path :: "string \<Rightarrow> string" where "ca_key_path dir = path_join (ca_base dir) ''ca.key''"
definition fingerprint_path :: "string \<Rightarrow> string" where "fingerprint_path dir = path_join (ca_base dir) ''fingerprint''"

text \<open>The lock: the directory, the lock itself and its mode.\<close>

definition store_lock :: "string \<Rightarrow> unit cert_op" where
  "store_lock dir d =
     (if trim_space dir = '''' then (Inl NoStateDir, d)
      else on_files touch (\<lambda>_. on_files touch (\<lambda>_. on_files touch (\<lambda>_ d. (Inr (), d)))) d)"

section \<open>The authority\<close>

definition cert_fingerprint :: "cert_lib \<Rightarrow> string \<Rightarrow> string" where
  "cert_fingerprint L der = hex_encode (cl_sha256 L der)"

definition validateCA :: "cert_lib \<Rightarrow> string \<Rightarrow> string \<Rightarrow> int \<Rightarrow> (cert_error, authority) result" where
  "validateCA L certDER keyDER now =
     (case cl_parse L certDER of
        None \<Rightarrow> Inl BadCertificate
      | Some cert \<Rightarrow>
          (case cl_parse_key L keyDER of
             None \<Rightarrow> Inl BadKey
           | Some key \<Rightarrow>
               if \<not> xc_is_ca cert \<or> \<not> xc_basic_constraints cert \<or> \<not> xc_cert_sign cert then Inl BadConstraints
               else if now < xc_not_before cert \<or> \<not> now < xc_not_after cert then Inl NotValidNow
               else if xc_public_key cert \<noteq> Some (cl_public L key) then Inl KeyMismatch
               else if xc_issuer cert \<noteq> xc_subject cert then Inl NotSelfIssued
               else if \<not> cl_self_signed L cert then Inl NotSelfSigned
               else Inr \<lparr>au_cert = cert, au_key = key, au_fingerprint = cert_fingerprint L (xc_raw cert)\<rparr>))"

definition loadValidatedCA :: "cert_lib \<Rightarrow> string \<Rightarrow> int \<Rightarrow> authority cert_op" where
  "loadValidatedCA L dir now =
     cert_bind (readSinglePEMBlock L (ca_cert_path dir) ''CERTIFICATE'') (\<lambda>certDER.
     cert_bind (readSinglePEMBlock L (ca_key_path dir) ''RSA PRIVATE KEY'') (\<lambda>keyDER d.
       (validateCA L certDER keyDER now, d)))"

definition loadCALocked :: "cert_lib \<Rightarrow> string \<Rightarrow> int \<Rightarrow> authority cert_op" where
  "loadCALocked L dir now =
     cert_bind (loadValidatedCA L dir now) (\<lambda>ca.
     on_files (read_file (fingerprint_path dir)) (\<lambda>stored d.
       if trim_space stored \<noteq> au_fingerprint ca then (Inl FingerprintMismatch, d) else (Inr ca, d)))"

definition LoadCA :: "cert_lib \<Rightarrow> string \<Rightarrow> int \<Rightarrow> authority cert_op" where
  "LoadCA L dir now = cert_bind (store_lock dir) (\<lambda>_. loadCALocked L dir now)"

definition renewBefore :: int where "renewBefore = 30 * 24 * 3600"
definition caCertValidity :: int where "caCertValidity = 10 * 365 * 24 * 3600"
definition ephemeralHostCertValidity :: int where "ephemeralHostCertValidity = 24 * 3600"

definition ca_template :: "int \<Rightarrow> template" where
  "ca_template now = \<lparr>tp_common_name = ''gohere local development CA'', tp_not_before = now - 60,
     tp_not_after = now - 60 + caCertValidity, tp_cert_sign = True, tp_digital_signature = False, tp_server_auth = False,
     tp_is_ca = True, tp_dns_names = []\<rparr>"

text \<open>\<open>random\<close> is the key that is generated, if the random source answers.\<close>

definition generate_ca :: "cert_lib \<Rightarrow> nat option \<Rightarrow> string \<Rightarrow> int \<Rightarrow> authority cert_op" where
  "generate_ca L random dir now d =
     (case random of
        None \<Rightarrow> (Inl NoRandom, d)
      | Some key \<Rightarrow>
          (case cl_create L (ca_template now) None (cl_public L key) key of
             None \<Rightarrow> (Inl NotCreated, d)
           | Some der \<Rightarrow>
               (case cl_parse L der of
                  None \<Rightarrow> (Inl BadCertificate, d)
                | Some parsed \<Rightarrow>
                    on_files touch (\<lambda>_.
                    on_files (writePEMFile L (ca_cert_path dir) ''CERTIFICATE'' der) (\<lambda>_.
                    on_files (writePEMFile L (ca_key_path dir) ''RSA PRIVATE KEY'' (cl_marshal_key L key)) (\<lambda>_.
                    on_files (writeFileIfChanged (fingerprint_path dir) (cert_fingerprint L der @ newline)) (\<lambda>_ d.
                      (Inr \<lparr>au_cert = parsed, au_key = key, au_fingerprint = cert_fingerprint L der\<rparr>, d))))) d)))"

definition EnsureCA :: "cert_lib \<Rightarrow> nat option \<Rightarrow> string \<Rightarrow> int \<Rightarrow> authority cert_op" where
  "EnsureCA L random dir now =
     cert_bind (store_lock dir) (\<lambda>_ d.
       case loadValidatedCA L dir now d of
         (Inr ca, d) \<Rightarrow>
           if xc_not_after (au_cert ca) - now > renewBefore then
             (let fp = cert_fingerprint L (xc_raw (au_cert ca)) in
              on_files (writeFileIfChanged (fingerprint_path dir) (fp @ newline)) (\<lambda>_ d. (Inr (ca\<lparr>au_fingerprint := fp\<rparr>), d)) d)
           else generate_ca L random dir now d
       | (Inl _, d) \<Rightarrow> generate_ca L random dir now d)"

definition CA_Fingerprint :: "cert_lib \<Rightarrow> string \<Rightarrow> int \<Rightarrow> string cert_op" where
  "CA_Fingerprint L dir now = cert_bind (LoadCA L dir now) (\<lambda>ca d. (Inr (au_fingerprint ca), d))"

section \<open>Certificates for hosts\<close>

definition validLocalhostName :: "string \<Rightarrow> bool" where
  "validLocalhostName host \<longleftrightarrow> length host \<le> 253
     \<and> list_all (\<lambda>label. label \<noteq> '''' \<and> length label \<le> 63 \<and> \<not> has_prefix label ''-'' \<and> \<not> has_suffix label ''-''
                      \<and> list_all lan_label_char label) (split_on CHR ''.'' host)"

definition canonicalLocalhostHost :: "net_env \<Rightarrow> string \<Rightarrow> string option" where
  "canonicalLocalhostHost net raw =
     (let host = trim_suffix (to_lower (trim_space raw)) ''.'' in
      if host = '''' \<or> contains host '':'' \<or> net_parse_ip net host \<noteq> None then None
      else if host \<noteq> ''localhost'' \<and> \<not> has_suffix host ''.localhost'' then None
      else if \<not> validLocalhostName host then None
      else Some host)"

definition canonicalLANHost :: "string \<Rightarrow> string option" where
  "canonicalLANHost raw =
     (case cut_suffix (trim_suffix (to_lower (trim_space raw)) ''.'') ''.local'' of
        None \<Rightarrow> None
      | Some label \<Rightarrow>
          if label = '''' \<or> length label > 63 \<or> contains label ''.'' \<or> hd label = CHR ''-'' \<or> last label = CHR ''-'' then None
          else if \<not> list_all lan_label_char label then None
          else Some (label @ ''.local''))"

text \<open>An issued certificate: its template, its DER and the chain that is sent.\<close>

record issued =
  is_template :: template
  is_der :: string
  is_chain :: "string list"

definition issueEphemeralHostCert :: "cert_lib \<Rightarrow> nat option \<Rightarrow> authority \<Rightarrow> string \<Rightarrow> int \<Rightarrow> (cert_error, issued) result" where
  "issueEphemeralHostCert L random ca canonical now =
     (if now < xc_not_before (au_cert ca) \<or> \<not> now < xc_not_after (au_cert ca) then Inl NotValidNow
      else (case random of
         None \<Rightarrow> Inl NoRandom
       | Some key \<Rightarrow>
           (let notBefore = now - 60;
                notBefore = (if xc_not_before (au_cert ca) > notBefore then xc_not_before (au_cert ca) else notBefore);
                notAfter = notBefore + ephemeralHostCertValidity;
                notAfter = (if xc_not_after (au_cert ca) < notAfter then xc_not_after (au_cert ca) else notAfter);
                tmpl = \<lparr>tp_common_name = canonical, tp_not_before = notBefore, tp_not_after = notAfter, tp_cert_sign = False,
                         tp_digital_signature = True, tp_server_auth = True, tp_is_ca = False, tp_dns_names = [canonical]\<rparr> in
            if \<not> notAfter > notBefore then Inl TooShort
            else (case cl_create L tmpl (Some (au_cert ca)) (cl_public L key) (au_key ca) of
               None \<Rightarrow> Inl NotCreated
             | Some der \<Rightarrow>
                 (case cl_parse L der of
                    None \<Rightarrow> Inl BadCertificate
                  | Some _ \<Rightarrow> Inr \<lparr>is_template = tmpl, is_der = der, is_chain = [der, xc_raw (au_cert ca)]\<rparr>)))))"

definition IssueLocalhostCert :: "cert_lib \<Rightarrow> net_env \<Rightarrow> nat option \<Rightarrow> authority \<Rightarrow> string \<Rightarrow> int \<Rightarrow> (cert_error, issued) result" where
  "IssueLocalhostCert L net random ca host now =
     (case canonicalLocalhostHost net host of None \<Rightarrow> Inl BadHost | Some canonical \<Rightarrow> issueEphemeralHostCert L random ca canonical now)"

definition IssueLANHostCert :: "cert_lib \<Rightarrow> nat option \<Rightarrow> authority \<Rightarrow> string \<Rightarrow> int \<Rightarrow> (cert_error, issued) result" where
  "IssueLANHostCert L random ca host now =
     (case canonicalLANHost host of None \<Rightarrow> Inl BadHost | Some canonical \<Rightarrow> issueEphemeralHostCert L random ca canonical now)"

definition IssueEphemeralLANHostCert :: "cert_lib \<Rightarrow> nat option \<Rightarrow> string \<Rightarrow> string \<Rightarrow> int \<Rightarrow> int \<Rightarrow> issued cert_op" where
  "IssueEphemeralLANHostCert L random dir host clock now =
     cert_bind (LoadCA L dir clock) (\<lambda>ca d. (IssueLANHostCert L random ca host now, d))"

section \<open>What the operations leave on the disk\<close>

lemma writeRawFile_files:
  assumes "writeRawFile path data d = (r, d')"
  shows "published ''linux'' path data d d' (r = Inr ())"
proof -
  have "writeRawFile path data = disk_bind touch (\<lambda>_. disk_bind (write_file (tmp_of path) '''') (\<lambda>_.
     with_cleanup (tmp_of path)
       (disk_bind (write_tmp (tmp_of path) data) (\<lambda>_.
        disk_bind (replaceFileForGOOS ''linux'' (tmp_of path) path) (\<lambda>_. touch)))))"
    by (simp add: writeRawFile_def replaceFileForGOOS_def)
  from assms [unfolded this] show ?thesis
  proof (cases rule: bind_cases)
    case (left e)
    then show ?thesis by (auto simp: published_def elim!: touch_cases)
  next
    case (right u d1)
    have "dk_files d1 = dk_files d" using right(1) by (auto elim!: touch_cases)
    then show ?thesis using publish_file [OF right(2) touch_finish]
      by (cases r) (simp_all add: published_def)
  qed
qed

lemma writeFileIfChanged_files:
  assumes "writeFileIfChanged path data d = (r, d')"
  shows "published ''linux'' path data d d' (r = Inr ())"
proof -
  obtain q d1 where rd: "read_file path d = (q, d1)" by (cases "read_file path d")
  note step = assms [unfolded writeFileIfChanged_def rd prod.case]
  have raw: "published ''linux'' path data d d' (r = Inr ())" if "writeRawFile path data d1 = (r, d')" "dk_files d1 = dk_files d"
    using writeRawFile_files [OF that(1)] that(2) by (auto simp: published_def split: if_splits)
  from rd show ?thesis
  proof (cases rule: read_file_cases)
    case missing then show ?thesis using step raw by simp
  next
    case refused then show ?thesis using step raw by simp
  next
    case (ok body)
    show ?thesis
    proof (cases "body = data")
      case True
      then have "touch d1 = (r, d')" using step ok by simp
      then show ?thesis using ok True by (auto simp: published_def elim!: touch_cases)
    next
      case False then show ?thesis using step ok raw by simp
    qed
  qed
qed

lemma on_files_cases:
  assumes "on_files f g d = (r, d')"
  obtains (left) e where "f d = (Inl e, d')" "r = Inl (CertFile e)" | (right) a d1 where "f d = (Inr a, d1)" "g a d1 = (r, d')"
  using assms by (auto simp: on_files_def split: prod.splits sum.splits)

lemma cert_bind_cases:
  assumes "cert_bind f g d = (r, d')"
  obtains (left) e where "f d = (Inl e, d')" "r = Inl e" | (right) a d1 where "f d = (Inr a, d1)" "g a d1 = (r, d')"
  using assms by (auto simp: cert_bind_def split: prod.splits sum.splits)

lemma store_lock_files: "store_lock dir d = (r, d') \<Longrightarrow> dk_files d' = dk_files d"
  by (auto simp: store_lock_def elim!: on_files_cases touch_cases split: if_splits)

text \<open>What a block on the disk is.\<close>

definition has_block :: "cert_lib \<Rightarrow> disk \<Rightarrow> string \<Rightarrow> string \<Rightarrow> string \<Rightarrow> bool" where
  "has_block L d path kind bytes \<longleftrightarrow>
     (\<exists>body rest. dk_files d path = Some body \<and> cl_decode L body = Some (kind, bytes, rest) \<and> trim_space rest = '''')"

lemma readSinglePEMBlock_files:
  assumes "readSinglePEMBlock L path kind d = (r, d')"
  shows "dk_files d' = dk_files d" "r = Inr bytes \<Longrightarrow> has_block L d path kind bytes"
  using assms unfolding readSinglePEMBlock_def has_block_def
  by (auto elim!: on_files_cases read_file_cases split: option.splits if_splits)

definition stored_pair :: "cert_lib \<Rightarrow> disk \<Rightarrow> string \<Rightarrow> string \<Rightarrow> string \<Rightarrow> bool" where
  "stored_pair L d dir certDER keyDER \<longleftrightarrow>
     has_block L d (ca_cert_path dir) ''CERTIFICATE'' certDER \<and> has_block L d (ca_key_path dir) ''RSA PRIVATE KEY'' keyDER"

lemma loadValidatedCA_files:
  assumes "loadValidatedCA L dir now d = (r, d')"
  shows "dk_files d' = dk_files d"
    "r = Inr ca \<Longrightarrow> \<exists>certDER keyDER. stored_pair L d dir certDER keyDER \<and> validateCA L certDER keyDER now = Inr ca"
proof -
  from assms have both: "dk_files d' = dk_files d
     \<and> (case r of Inl e \<Rightarrow> True | Inr ca \<Rightarrow>
          (\<exists>certDER keyDER. stored_pair L d dir certDER keyDER \<and> validateCA L certDER keyDER now = Inr ca))"
    unfolding loadValidatedCA_def
  proof (cases rule: cert_bind_cases)
    case (left e)
    then show ?thesis using readSinglePEMBlock_files(1) [OF left(1)] by simp
  next
    case (right certDER d1)
    note one = readSinglePEMBlock_files [OF right(1)]
    from right(2) show ?thesis
    proof (cases rule: cert_bind_cases)
      case (left e)
      then show ?thesis using readSinglePEMBlock_files(1) [OF left(1)] one(1) by simp
    next
      case (right keyDER d2)
      note two = readSinglePEMBlock_files [OF right(1)]
      have "stored_pair L d dir certDER keyDER"
        using one two(2) by (simp add: stored_pair_def has_block_def)
      then show ?thesis using right(2) two(1) one(1) by (auto split: sum.splits)
    qed
  qed
  then show "dk_files d' = dk_files d"
    "r = Inr ca \<Longrightarrow> \<exists>certDER keyDER. stored_pair L d dir certDER keyDER \<and> validateCA L certDER keyDER now = Inr ca" by auto
qed

text \<open>An authority that may issue certificates.\<close>

definition good_ca :: "cert_lib \<Rightarrow> authority \<Rightarrow> int \<Rightarrow> bool" where
  "good_ca L ca now \<longleftrightarrow>
     xc_is_ca (au_cert ca) \<and> xc_basic_constraints (au_cert ca) \<and> xc_cert_sign (au_cert ca)
     \<and> xc_not_before (au_cert ca) \<le> now \<and> now < xc_not_after (au_cert ca)
     \<and> xc_public_key (au_cert ca) = Some (cl_public L (au_key ca))
     \<and> xc_issuer (au_cert ca) = xc_subject (au_cert ca) \<and> cl_self_signed L (au_cert ca)
     \<and> au_fingerprint ca = cert_fingerprint L (xc_raw (au_cert ca))"

lemma validateCA_good: "validateCA L certDER keyDER now = Inr ca \<Longrightarrow> good_ca L ca now"
  by (auto simp: validateCA_def good_ca_def split: option.splits if_splits)

lemma validateCA_later:
  assumes "validateCA L certDER keyDER now = Inr ca" "now \<le> now'" "now' < xc_not_after (au_cert ca)"
  shows "validateCA L certDER keyDER now' = Inr ca"
  using assms by (auto simp: validateCA_def split: option.splits if_splits)

lemma LoadCA_files:
  assumes "LoadCA L dir now d = (r, d')"
  shows "dk_files d' = dk_files d
    \<and> (case r of Inl e \<Rightarrow> True
       | Inr ca \<Rightarrow> good_ca L ca now
           \<and> (\<exists>certDER keyDER. stored_pair L d dir certDER keyDER \<and> validateCA L certDER keyDER now = Inr ca)
           \<and> (\<exists>body. dk_files d (fingerprint_path dir) = Some body \<and> trim_space body = au_fingerprint ca))"
  using assms unfolding LoadCA_def
proof (cases rule: cert_bind_cases)
  case (left e)
  then show ?thesis using store_lock_files by simp
next
  case (right u d1)
  have d1: "dk_files d1 = dk_files d" using right(1) by (rule store_lock_files)
  from right(2) show ?thesis unfolding loadCALocked_def
  proof (cases rule: cert_bind_cases)
    case (left e)
    then show ?thesis using loadValidatedCA_files(1) d1 by simp
  next
    case (right ca d2)
    note loaded = loadValidatedCA_files [OF right(1)]
    from loaded(2) [OF refl] obtain certDER keyDER where pair: "stored_pair L d1 dir certDER keyDER"
      "validateCA L certDER keyDER now = Inr ca" by blast
    have pair': "stored_pair L d dir certDER keyDER" using pair(1) d1 by (simp add: stored_pair_def has_block_def)
    from right(2) show ?thesis
    proof (cases rule: on_files_cases)
      case (left e)
      then show ?thesis using loaded(1) d1 by (auto elim!: read_file_cases)
    next
      case (right stored d3)
      have "dk_files d3 = dk_files d" "dk_files d (fingerprint_path dir) = Some stored"
        using right(1) loaded(1) d1 by (auto elim!: read_file_cases)
      moreover have "d3 = d'" "(\<exists>e. r = Inl e) \<or> (r = Inr ca \<and> trim_space stored = au_fingerprint ca)"
        using right(2) by (auto split: if_splits)
      ultimately show ?thesis using pair' pair(2) validateCA_good [OF pair(2)] by (elim disjE conjE exE) (simp, simp, blast)
    qed
  qed
qed

lemma ca_paths:
  "ca_cert_path dir \<noteq> ca_key_path dir" "ca_cert_path dir \<noteq> fingerprint_path dir" "ca_key_path dir \<noteq> fingerprint_path dir"
  "ca_cert_path dir \<noteq> tmp_of (ca_key_path dir)" "ca_cert_path dir \<noteq> backup_of (ca_key_path dir)"
  "ca_cert_path dir \<noteq> tmp_of (fingerprint_path dir)" "ca_cert_path dir \<noteq> backup_of (fingerprint_path dir)"
  "ca_key_path dir \<noteq> tmp_of (fingerprint_path dir)" "ca_key_path dir \<noteq> backup_of (fingerprint_path dir)"
proof -
  obtain front where front: "\<And>x. plain_elem x \<Longrightarrow> path_join (ca_base dir) x = front @ x"
    using path_join_plain [of "ca_base dir"] by metis
  have "plain_elem ''ca.pem''" "plain_elem ''ca.key''" "plain_elem ''fingerprint''" by (simp_all add: plain_elem_def)
  then show "ca_cert_path dir \<noteq> ca_key_path dir" "ca_cert_path dir \<noteq> fingerprint_path dir" "ca_key_path dir \<noteq> fingerprint_path dir"
    "ca_cert_path dir \<noteq> tmp_of (ca_key_path dir)" "ca_cert_path dir \<noteq> backup_of (ca_key_path dir)"
    "ca_cert_path dir \<noteq> tmp_of (fingerprint_path dir)" "ca_cert_path dir \<noteq> backup_of (fingerprint_path dir)"
    "ca_key_path dir \<noteq> tmp_of (fingerprint_path dir)" "ca_key_path dir \<noteq> backup_of (fingerprint_path dir)"
    by (simp_all add: front ca_cert_path_def ca_key_path_def fingerprint_path_def tmp_of_def backup_of_def)
qed

text \<open>The disk holds the authority and its fingerprint; from then on it loads while it is valid.\<close>

definition ca_stored :: "cert_lib \<Rightarrow> disk \<Rightarrow> string \<Rightarrow> int \<Rightarrow> authority \<Rightarrow> bool" where
  "ca_stored L d dir now ca \<longleftrightarrow>
     (\<exists>certDER keyDER. stored_pair L d dir certDER keyDER \<and> validateCA L certDER keyDER now = Inr ca)
     \<and> (\<exists>body. dk_files d (fingerprint_path dir) = Some body \<and> trim_space body = au_fingerprint ca)"

lemma ca_stored_loads:
  assumes "ca_stored L d dir now ca" "now \<le> now'" "now' < xc_not_after (au_cert ca)" "trim_space dir \<noteq> ''''" "dk_answers d = []"
  shows "LoadCA L dir now' d = (Inr ca, d)"
proof -
  from assms(1) obtain certDER keyDER body where pair: "stored_pair L d dir certDER keyDER" "validateCA L certDER keyDER now = Inr ca"
    "dk_files d (fingerprint_path dir) = Some body" "trim_space body = au_fingerprint ca" by (auto simp: ca_stored_def)
  have "validateCA L certDER keyDER now' = Inr ca" by (rule validateCA_later [OF pair(2) assms(2,3)])
  then show ?thesis using pair assms(4,5)
    by (auto simp: LoadCA_def loadCALocked_def loadValidatedCA_def readSinglePEMBlock_def cert_bind_def on_files_def store_lock_def
        stored_pair_def has_block_def read_file_def touch_def syscall_def next_answer_def)
qed

text \<open>What \<open>crypto/x509\<close>, \<open>encoding/pem\<close> and SHA-256 document.\<close>

definition cert_laws :: "cert_lib \<Rightarrow> int \<Rightarrow> bool" where
  "cert_laws L now \<longleftrightarrow>
     (\<forall>kind bytes. kind = ''CERTIFICATE'' \<or> kind = ''RSA PRIVATE KEY'' \<longrightarrow> cl_decode L (cl_encode L kind bytes) = Some (kind, bytes, ''''))
     \<and> (\<forall>key. cl_parse_key L (cl_marshal_key L key) = Some key)
     \<and> (\<forall>der. list_all (\<lambda>b. b < 256) (cl_sha256 L der))
     \<and> (\<forall>der cert. cl_parse L der = Some cert \<longrightarrow> xc_raw cert = der)
     \<and> (\<forall>key der cert. cl_create L (ca_template now) None (cl_public L key) key = Some der \<longrightarrow> cl_parse L der = Some cert \<longrightarrow>
          xc_is_ca cert \<and> xc_basic_constraints cert \<and> xc_cert_sign cert \<and> xc_not_before cert = tp_not_before (ca_template now)
          \<and> xc_not_after cert = tp_not_after (ca_template now) \<and> xc_public_key cert = Some (cl_public L key)
          \<and> xc_issuer cert = xc_subject cert \<and> cl_self_signed L cert)"

lemma trim_fingerprint:
  assumes "cert_laws L now"
  shows "trim_space (cert_fingerprint L der @ newline) = cert_fingerprint L der"
proof -
  have "list_all (\<lambda>b. b < 256) (cl_sha256 L der)" using assms by (simp add: cert_laws_def)
  then have "list_all is_hex (cert_fingerprint L der)"
    unfolding cert_fingerprint_def by (auto simp: list_all_iff intro: hex_encode_is_hex)
  then show ?thesis by (rule trim_token)
qed

lemma generate_ca_stored:
  assumes run: "generate_ca L random dir now d = (Inr ca, d')" and laws: "cert_laws L now"
  shows "ca_stored L d' dir now ca" "xc_not_after (au_cert ca) = now - 60 + caCertValidity"
proof -
  from run obtain key der parsed where random: "random = Some key"
    and der: "cl_create L (ca_template now) None (cl_public L key) key = Some der" "cl_parse L der = Some parsed"
    and written: "on_files touch (\<lambda>_.
                    on_files (writePEMFile L (ca_cert_path dir) ''CERTIFICATE'' der) (\<lambda>_.
                    on_files (writePEMFile L (ca_key_path dir) ''RSA PRIVATE KEY'' (cl_marshal_key L key)) (\<lambda>_.
                    on_files (writeFileIfChanged (fingerprint_path dir) (cert_fingerprint L der @ newline)) (\<lambda>_ d.
                      (Inr \<lparr>au_cert = parsed, au_key = key, au_fingerprint = cert_fingerprint L der\<rparr>, d))))) d = (Inr ca, d')"
    by (auto simp: generate_ca_def split: option.splits)
  from written obtain d1 d2 d3 where
    one: "writePEMFile L (ca_cert_path dir) ''CERTIFICATE'' der d1 = (Inr (), d2)"
    and two: "writePEMFile L (ca_key_path dir) ''RSA PRIVATE KEY'' (cl_marshal_key L key) d2 = (Inr (), d3)"
    and three: "writeFileIfChanged (fingerprint_path dir) (cert_fingerprint L der @ newline) d3 = (Inr (), d')"
    and ca: "ca = \<lparr>au_cert = parsed, au_key = key, au_fingerprint = cert_fingerprint L der\<rparr>"
    by (auto elim!: on_files_cases)
  note files = writeRawFile_files [OF one [unfolded writePEMFile_def]] writeRawFile_files [OF two [unfolded writePEMFile_def]]
    writeFileIfChanged_files [OF three]
  have at: "dk_files d' (ca_cert_path dir) = Some (cl_encode L ''CERTIFICATE'' der)"
    "dk_files d' (ca_key_path dir) = Some (cl_encode L ''RSA PRIVATE KEY'' (cl_marshal_key L key))"
    "dk_files d' (fingerprint_path dir) = Some (cert_fingerprint L der @ newline)"
    using files ca_paths [of dir] by (auto simp: published_def)
  have facts: "xc_raw parsed = der" "xc_is_ca parsed" "xc_basic_constraints parsed" "xc_cert_sign parsed" "xc_not_before parsed = now - 60"
    "xc_not_after parsed = now - 60 + caCertValidity" "xc_public_key parsed = Some (cl_public L key)"
    "xc_issuer parsed = xc_subject parsed" "cl_self_signed L parsed"
    using laws der by (auto simp: cert_laws_def ca_template_def)
  have valid: "validateCA L der (cl_marshal_key L key) now = Inr ca"
    using laws facts der ca by (simp add: validateCA_def cert_laws_def caCertValidity_def)
  have "stored_pair L d' dir der (cl_marshal_key L key)"
    using at laws by (simp add: stored_pair_def has_block_def cert_laws_def str_defs)
  then show "ca_stored L d' dir now ca" unfolding ca_stored_def using valid at(3) trim_fingerprint [OF laws] ca by auto
  show "xc_not_after (au_cert ca) = now - 60 + caCertValidity" using facts ca by simp
qed

lemma EnsureCA_stored:
  assumes run: "EnsureCA L random dir now d = (Inr ca, d')" and laws: "cert_laws L now"
  shows "ca_stored L d' dir now ca \<and> xc_not_after (au_cert ca) - now > renewBefore \<and> trim_space dir \<noteq> ''''"
proof -
  from run obtain d1 where lock: "store_lock dir d = (Inr (), d1)"
    and step: "(case loadValidatedCA L dir now d1 of
         (Inr ca, d) \<Rightarrow>
           if xc_not_after (au_cert ca) - now > renewBefore then
             (let fp = cert_fingerprint L (xc_raw (au_cert ca)) in
              on_files (writeFileIfChanged (fingerprint_path dir) (fp @ newline)) (\<lambda>_ d. (Inr (ca\<lparr>au_fingerprint := fp\<rparr>), d)) d)
           else generate_ca L random dir now d
       | (Inl _, d) \<Rightarrow> generate_ca L random dir now d) = (Inr ca, d')"
    unfolding EnsureCA_def by (auto elim!: cert_bind_cases)
  have dir: "trim_space dir \<noteq> ''''" using lock by (auto simp: store_lock_def split: if_splits)
  have new: ?thesis if "generate_ca L random dir now d2 = (Inr ca, d')" for d2
    using generate_ca_stored [OF that laws] dir by (simp add: renewBefore_def caCertValidity_def)
  obtain q d2 where load: "loadValidatedCA L dir now d1 = (q, d2)" by (cases "loadValidatedCA L dir now d1")
  note here = step [unfolded load prod.case]
  show ?thesis
  proof (cases q)
    case (Inl e) then show ?thesis using here new by simp
  next
    case (Inr old)
    note loaded = loadValidatedCA_files [OF load]
    from loaded(2) [OF Inr] obtain certDER keyDER where pair: "stored_pair L d1 dir certDER keyDER"
      "validateCA L certDER keyDER now = Inr old" by blast
    show ?thesis
    proof (cases "xc_not_after (au_cert old) - now > renewBefore")
      case False then show ?thesis using here Inr new by simp
    next
      case True
      let ?fp = "cert_fingerprint L (xc_raw (au_cert old))"
      have "on_files (writeFileIfChanged (fingerprint_path dir) (?fp @ newline)) (\<lambda>_ d. (Inr (old\<lparr>au_fingerprint := ?fp\<rparr>), d)) d2 = (Inr ca, d')"
        using here Inr True by (simp add: Let_def)
      then obtain d3 where wr: "writeFileIfChanged (fingerprint_path dir) (?fp @ newline) d2 = (Inr (), d3)"
        and ca: "ca = old\<lparr>au_fingerprint := ?fp\<rparr>" "d' = d3"
        by (auto elim!: on_files_cases)
      have fp: "au_fingerprint old = ?fp" using validateCA_good [OF pair(2)] by (simp add: good_ca_def)
      then have same: "ca = old" using ca by simp
      have files: "dk_files d' (ca_cert_path dir) = dk_files d1 (ca_cert_path dir)"
        "dk_files d' (ca_key_path dir) = dk_files d1 (ca_key_path dir)" "dk_files d' (fingerprint_path dir) = Some (?fp @ newline)"
        using writeFileIfChanged_files [OF wr] ca(2) loaded(1) ca_paths [of dir] by (auto simp: published_def)
      then have "stored_pair L d' dir certDER keyDER" using pair(1) by (simp add: stored_pair_def has_block_def)
      then show ?thesis
        using pair(2) files(3) trim_fingerprint [OF laws] True dir fp unfolding same ca_stored_def by auto
    qed
  qed
qed

section \<open>Properties\<close>

text \<open>
  \<open>LoadCA\<close> reads only, and what it returns may sign: whatever is on the disk and whichever calls fail, the authority is
  a self-issued and self-signed CA certificate that is valid now, its key is the stored key's, and the stored fingerprint
  is the SHA-256 of the certificate.
\<close>

theorem LoadCA_good:
  "case LoadCA L dir now d of (r, d') \<Rightarrow>
     dk_files d' = dk_files d
     \<and> (case r of Inl e \<Rightarrow> True
        | Inr ca \<Rightarrow> good_ca L ca now
            \<and> (\<exists>body. dk_files d (fingerprint_path dir) = Some body
                 \<and> trim_space body = hex_encode (cl_sha256 L (xc_raw (au_cert ca)))))"
proof -
  obtain r d' where run: "LoadCA L dir now d = (r, d')" by (cases "LoadCA L dir now d")
  from LoadCA_files [OF run] show ?thesis
    by (cases r) (auto simp: run good_ca_def cert_fingerprint_def)
qed

text \<open>
  C23. What \<open>EnsureCA\<close> returns is what every later \<open>LoadCA\<close> returns, until it expires, and that is more than thirty days
  away, whether it kept the stored authority or wrote a new one, and whichever calls failed on the way.
\<close>

theorem EnsureCA_LoadCA:
  assumes "cert_laws L now" "now \<le> now'"
  shows "case EnsureCA L random dir now d of
      (Inl e, d') \<Rightarrow> True
    | (Inr ca, d') \<Rightarrow> xc_not_after (au_cert ca) - now > renewBefore \<and> good_ca L ca now
        \<and> (if now' < xc_not_after (au_cert ca)
           then LoadCA L dir now' (d'\<lparr>dk_answers := []\<rparr>) = (Inr ca, d'\<lparr>dk_answers := []\<rparr>) else True)"
proof -
  obtain r d' where run: "EnsureCA L random dir now d = (r, d')" by (cases "EnsureCA L random dir now d")
  show ?thesis
  proof (cases r)
    case (Inl e) then show ?thesis using run by simp
  next
    case (Inr ca)
    from EnsureCA_stored [OF run [unfolded Inr] assms(1)] have
      stored: "ca_stored L d' dir now ca" "xc_not_after (au_cert ca) - now > renewBefore" "trim_space dir \<noteq> ''''" by auto
    have "ca_stored L (d'\<lparr>dk_answers := []\<rparr>) dir now ca"
      using stored(1) by (simp add: ca_stored_def stored_pair_def has_block_def)
    from ca_stored_loads [OF this assms(2) _ stored(3)] have
      "now' < xc_not_after (au_cert ca) \<Longrightarrow> LoadCA L dir now' (d'\<lparr>dk_answers := []\<rparr>) = (Inr ca, d'\<lparr>dk_answers := []\<rparr>)" by simp
    moreover have "good_ca L ca now" using stored(1) by (auto simp: ca_stored_def dest: validateCA_good)
    ultimately show ?thesis using run Inr stored(2) by simp
  qed
qed

definition sample_lib :: cert_lib where
  "sample_lib = \<lparr>
     cl_parse = (\<lambda>der. if der = ''c'' then Some \<lparr>xc_raw = ''c'', xc_subject = ''ca'', xc_issuer = ''ca'', xc_not_before = - 60,
        xc_not_after = caCertValidity - 60, xc_is_ca = True, xc_basic_constraints = True, xc_cert_sign = True, xc_public_key = Some 5\<rparr> else None),
     cl_parse_key = (\<lambda>s. Some (length s)), cl_marshal_key = (\<lambda>k. replicate k (CHR ''x'')), cl_public = (\<lambda>k. 5),
     cl_decode = (\<lambda>s. case cut (CHR ''#'') s of None \<Rightarrow> None | Some (kind, bytes) \<Rightarrow> Some (kind, bytes, '''')),
     cl_encode = (\<lambda>kind bytes. kind @ ''#'' @ bytes), cl_sha256 = (\<lambda>der. [18, 52]), cl_self_signed = (\<lambda>c. True),
     cl_create = (\<lambda>t parent pub key. Some ''c'')\<rparr>"

lemma sample_lib_laws: "cert_laws sample_lib 0"
  by (auto simp: cert_laws_def sample_lib_def ca_template_def cut_def split: if_splits)

theorem EnsureCA_LoadCA_witness:
  "case EnsureCA sample_lib (Some 3) ''s'' 0 \<lparr>dk_files = Map.empty, dk_answers = []\<rparr> of
     (Inl e, d') \<Rightarrow> False
   | (Inr ca, d') \<Rightarrow> au_fingerprint ca = ''1234'' \<and> LoadCA sample_lib ''s'' 86400 (d'\<lparr>dk_answers := []\<rparr>) = (Inr ca, d'\<lparr>dk_answers := []\<rparr>)"
proof -
  let ?run = "EnsureCA sample_lib (Some 3) ''s'' 0 \<lparr>dk_files = Map.empty, dk_answers = []\<rparr>"
  have "case ?run of (Inl e, d') \<Rightarrow> False | (Inr ca, d') \<Rightarrow> au_fingerprint ca = ''1234'' \<and> xc_not_after (au_cert ca) = caCertValidity - 60"
    by code_simp
  moreover have "case ?run of
      (Inl e, d') \<Rightarrow> True
    | (Inr ca, d') \<Rightarrow> xc_not_after (au_cert ca) - 0 > renewBefore \<and> good_ca sample_lib ca 0
        \<and> (if 86400 < xc_not_after (au_cert ca)
           then LoadCA sample_lib ''s'' 86400 (d'\<lparr>dk_answers := []\<rparr>) = (Inr ca, d'\<lparr>dk_answers := []\<rparr>) else True)"
    by (rule EnsureCA_LoadCA [OF sample_lib_laws]) simp
  ultimately show ?thesis by (auto simp: caCertValidity_def split: prod.splits sum.splits)
qed

text \<open>
  C24. A host certificate is narrow: it names exactly one host, a canonical \<open>localhost\<close> name or a single label below
  \<open>.local\<close> and never an address, serves TLS servers only and may not sign, is valid now, at most one day and never
  outside the validity of its authority, and is sent with that authority.
\<close>

theorem issued_certificates_narrow:
  "case (if lan then IssueLANHostCert L random ca host now else IssueLocalhostCert L net random ca host now) of
     Inl e \<Rightarrow> True
   | Inr cert \<Rightarrow> (case is_template cert of t \<Rightarrow>
       (\<exists>name. tp_dns_names t = [name] \<and> tp_common_name t = name
          \<and> (if lan then \<exists>label. lan_label label \<and> name = label @ ''.local''
             else net_parse_ip net name = None \<and> (name = ''localhost'' \<or> has_suffix name ''.localhost'') \<and> validLocalhostName name))
       \<and> tp_server_auth t \<and> tp_digital_signature t \<and> \<not> tp_cert_sign t \<and> \<not> tp_is_ca t
       \<and> xc_not_before (au_cert ca) \<le> tp_not_before t \<and> tp_not_after t \<le> xc_not_after (au_cert ca)
       \<and> tp_not_before t \<le> now \<and> now < tp_not_after t \<and> tp_not_after t - tp_not_before t \<le> 86400
       \<and> is_chain cert = [is_der cert, xc_raw (au_cert ca)])"
proof -
  have issued: "tp_dns_names (is_template cert) = [canonical] \<and> tp_common_name (is_template cert) = canonical
       \<and> tp_server_auth (is_template cert) \<and> tp_digital_signature (is_template cert) \<and> \<not> tp_cert_sign (is_template cert)
       \<and> \<not> tp_is_ca (is_template cert) \<and> xc_not_before (au_cert ca) \<le> tp_not_before (is_template cert)
       \<and> tp_not_after (is_template cert) \<le> xc_not_after (au_cert ca) \<and> tp_not_before (is_template cert) \<le> now
       \<and> now < tp_not_after (is_template cert) \<and> tp_not_after (is_template cert) - tp_not_before (is_template cert) \<le> 86400
       \<and> is_chain cert = [is_der cert, xc_raw (au_cert ca)]"
    if "issueEphemeralHostCert L random ca canonical now = Inr cert" for canonical cert
    using that by (auto simp: issueEphemeralHostCert_def Let_def ephemeralHostCertValidity_def split: option.splits if_splits)
  have lan_name: "\<exists>label. lan_label label \<and> name = label @ ''.local''" if "canonicalLANHost host = Some name" for name
    using that by (auto simp: canonicalLANHost_def lan_label_def split: option.splits if_splits)
  have local_name: "net_parse_ip net name = None \<and> (name = ''localhost'' \<or> has_suffix name ''.localhost'') \<and> validLocalhostName name"
    if "canonicalLocalhostHost net host = Some name" for name
    using that by (auto simp: canonicalLocalhostHost_def Let_def split: if_splits)
  show ?thesis
  proof (cases lan)
    case True
    then show ?thesis using issued lan_name
      by (auto simp: IssueLANHostCert_def split: sum.splits option.splits)
  next
    case False
    then show ?thesis using issued local_name
      by (auto simp: IssueLocalhostCert_def split: sum.splits option.splits)
  qed
qed

text \<open>
  C25. The policy and the issuer agree on names: the server names that \<open>normalizeLocalSNI\<close> accepts are exactly those
  for which the store issues, with the same canonical form, and every host name of a LAN share is one the store issues for.
\<close>

theorem policy_and_issuer_agree:
  "(case normalizeLocalSNI net raw of Inl e \<Rightarrow> canonicalLocalhostHost net raw = None | Inr host \<Rightarrow> canonicalLocalhostHost net raw = Some host)
   \<and> (case normalizeLANHostname raw of
        Inl e \<Rightarrow> True
      | Inr host \<Rightarrow> (\<exists>label. lan_label label \<and> host = label @ ''.local.'' \<and> canonicalLANHost host = Some (label @ ''.local'')))"
proof
  have label: "(label \<noteq> '''' \<and> length label \<le> 63 \<and> \<not> has_prefix label ''-'' \<and> \<not> has_suffix label ''-'' \<and> list_all lan_label_char label)
      = sni_label_ok label" for label
  proof -
    have "has_prefix label ''-'' = (label \<noteq> '''' \<and> hd label = CHR ''-'')" by (cases label) (auto simp: has_prefix_def)
    moreover have "has_suffix label ''-'' = (label \<noteq> '''' \<and> last label = CHR ''-'')"
      by (cases label rule: rev_cases) (auto simp: has_suffix_def)
    ultimately show ?thesis by (auto simp: sni_label_ok_def)
  qed
  have "validLocalhostName host \<longleftrightarrow> length host \<le> 253 \<and> list_all sni_label_ok (split_on CHR ''.'' host)" for host
    unfolding validLocalhostName_def label ..
  then show "case normalizeLocalSNI net raw of Inl e \<Rightarrow> canonicalLocalhostHost net raw = None
    | Inr host \<Rightarrow> canonicalLocalhostHost net raw = Some host"
    by (auto simp: normalizeLocalSNI_def canonicalLocalhostHost_def Let_def)
  have lan: "canonicalLANHost (label @ ''.local.'') = Some (label @ ''.local'')" if l: "lan_label label" for label
  proof -
    let ?h = "label @ ''.local.''"
    have c: "lan_label_char c" if "c \<in> set label" for c using l that by (auto simp: lan_label_def list_all_iff)
    have up: "\<forall>c \<in> set ?h. \<not> is_upper c" using lan_label_char_facts(1) [OF c] by (auto simp: byte_defs)
    have "\<not> is_space (hd ?h)" using c [of "hd label"] l lan_label_char_facts(2) by (auto simp: lan_label_def)
    moreover have "\<not> is_space (last ?h)" by (simp add: byte_defs)
    ultimately have t: "trim_space ?h = ?h" unfolding trim_space_def by (intro trim_id) simp
    have ts: "trim_suffix ?h ''.'' = label @ ''.local''" using trim_suffix_append [of "label @ ''.local''" "''.''"] by simp
    have dots: "\<not> contains label ''.''" using lan_label_char_facts(4) [OF c] by (auto simp: contains_single)
    show ?thesis
      unfolding canonicalLANHost_def t to_lower_id [OF up] ts using l dots by (simp add: cut_suffix_Some lan_label_def)
  qed
  show "case normalizeLANHostname raw of
        Inl e \<Rightarrow> True
      | Inr host \<Rightarrow> (\<exists>label. lan_label label \<and> host = label @ ''.local.'' \<and> canonicalLANHost host = Some (label @ ''.local''))"
    using normalizeLANHostname_ok [of raw] lan by (cases "normalizeLANHostname raw") fastforce+
qed

text \<open>A valid authority whose certificate cannot be read once is replaced: the trusted key is gone.\<close>

lemma failed_read_replaces_ca:
  "case EnsureCA sample_lib (Some 3) ''s'' 0 \<lparr>dk_files = Map.empty, dk_answers = []\<rparr> of
     (Inl e, d) \<Rightarrow> False
   | (Inr ca, d) \<Rightarrow>
       (case EnsureCA sample_lib (Some 4) ''s'' 0 (d\<lparr>dk_answers := [True, True, True, False]\<rparr>) of
          (Inl e, d') \<Rightarrow> False
        | (Inr ca', d') \<Rightarrow> dk_files d (ca_key_path ''s'') = Some ''RSA PRIVATE KEY#xxx''
            \<and> dk_files d' (ca_key_path ''s'') = Some ''RSA PRIVATE KEY#xxxx'')"
  by code_simp

end
