(* ===== verification/Install.thy ===== *)
theory Install
  imports Router_Stop Cert_Store
begin

text \<open>
  Installing the service and removing it: \<open>internal/setup/setup.go\<close>, \<open>internal/app/uninstall.go\<close>, with the trust store
  (\<open>internal/certtrust/certtrust.go\<close>) and the configuration file (\<open>internal/config/config.go\<close>).

  The state is the disk of the state files and the log of what is done outside it: commands, processes, the user's path,
  the firewall. Commands and processes answer through a record.
\<close>

section \<open>Steps\<close>

datatype install_event =
    Ran "string list" bool | Detached int | DetachFailed | Killed int | PathChanged bool | FirewallCleared bool
  | Copied string | TokenReady | AuthorityReady string | ConfigSaved bool

datatype install_error =
    FileFailed file_error | CertFailed cert_error | CommandFailed "string list" | NoFingerprint | UnsupportedOS
  | NotDetached | NoBinary | PathFailed | StopFailed stop_error | InstallCancelled | BadConfig | Moved

record install =
  in_disk :: disk
  in_context :: "nat option"
  in_events :: "install_event list"

type_synonym 'a step = "install \<Rightarrow> (install_error, 'a) result \<times> install"

definition step_return :: "'a \<Rightarrow> 'a step" where
  "step_return a w = (Inr a, w)"

definition step_bind :: "'a step \<Rightarrow> ('a \<Rightarrow> 'b step) \<Rightarrow> 'b step" where
  "step_bind f g w = (case f w of (Inl e, w) \<Rightarrow> (Inl e, w) | (Inr a, w) \<Rightarrow> g a w)"

definition files :: "'a disk_op \<Rightarrow> 'a step" where
  "files f w = (case f (in_disk w) of (Inl e, d) \<Rightarrow> (Inl (FileFailed e), w\<lparr>in_disk := d\<rparr>) | (Inr a, d) \<Rightarrow> (Inr a, w\<lparr>in_disk := d\<rparr>))"

definition note_event :: "install_event \<Rightarrow> unit step" where
  "note_event e w = (Inr (), w\<lparr>in_events := in_events w @ [e]\<rparr>)"

text \<open>The commands that succeed, the process that a detached start gives, and the rest of the system.\<close>

record install_env =
  ie_goos :: string
  ie_health :: bool
  ie_state_dir :: string
  ie_config_dir :: string
  ie_binary :: string
  ie_command :: "string list \<Rightarrow> bool"
  ie_detached :: "int option"
  ie_systemd :: bool
  ie_https :: bool
  ie_user_path :: bool
  ie_firewall :: bool
  ie_lib :: cert_lib
  ie_key :: "nat option"
  ie_now :: int
  ie_token :: "nat list option"
  ie_quote :: "string \<Rightarrow> string"
  ie_https_of :: "string \<Rightarrow> bool option"
  ie_sha1 :: "string \<Rightarrow> nat list"

definition run_command :: "install_env \<Rightarrow> string list \<Rightarrow> unit step" where
  "run_command E args =
     step_bind (note_event (Ran args (ie_command E args)))
       (\<lambda>_ w. if ie_command E args then (Inr (), w) else (Inl (CommandFailed args), w))"

section \<open>The trust store\<close>

definition trusted_file :: string where "trusted_file = ''/usr/local/share/ca-certificates/gohere-local-ca.crt''"
definition keychain :: string where "keychain = ''/Library/Keychains/System.keychain''"

definition TrustCA :: "install_env \<Rightarrow> string \<Rightarrow> unit step" where
  "TrustCA E caPath =
     (if ie_goos E = ''linux'' then
        step_bind (run_command E [''sudo'', ''mkdir'', ''-p'', ''/usr/local/share/ca-certificates'']) (\<lambda>_.
        step_bind (run_command E [''sudo'', ''cp'', caPath, trusted_file]) (\<lambda>_.
        run_command E [''sudo'', ''update-ca-certificates'']))
      else if ie_goos E = ''darwin'' then
        run_command E [''sudo'', ''security'', ''add-trusted-cert'', ''-d'', ''-r'', ''trustRoot'', ''-k'', keychain, caPath]
      else if ie_goos E = ''windows'' then run_command E [''certutil'', ''-f'', ''-user'', ''-addstore'', ''Root'', caPath]
      else (\<lambda>w. (Inl UnsupportedOS, w)))"

definition UntrustCA :: "install_env \<Rightarrow> string \<Rightarrow> unit step" where
  "UntrustCA E raw =
     (let print = trim_space raw in
      if ie_goos E = ''linux'' then
        step_bind (run_command E [''sudo'', ''rm'', ''-f'', trusted_file]) (\<lambda>_. run_command E [''sudo'', ''update-ca-certificates''])
      else if ie_goos E = ''darwin'' then
        (if print = '''' then (\<lambda>w. (Inl NoFingerprint, w))
         else run_command E [''sudo'', ''security'', ''delete-certificate'', ''-Z'', print, keychain])
      else if ie_goos E = ''windows'' then
        (if print = '''' then (\<lambda>w. (Inl NoFingerprint, w))
         else run_command E [''certutil'', ''-f'', ''-user'', ''-delstore'', ''Root'', print])
      else (\<lambda>w. (Inl UnsupportedOS, w)))"

section \<open>The configuration file\<close>

definition config_path :: "string \<Rightarrow> string" where "config_path dir = path_join dir ''config.json''"

definition config_text :: "bool \<Rightarrow> string" where
  "config_text https =
     ''{'' @ newline @ ''  '' @ [CHR 0x22] @ ''https'' @ [CHR 0x22] @ '': '' @ (if https then ''true'' else ''false'') @ newline @ ''}'' @ newline"

definition load_config :: "install_env \<Rightarrow> bool step" where
  "load_config E w =
     (case read_file (config_path (ie_state_dir E)) (in_disk w) of
        (Inl e, d) \<Rightarrow> (if e = NotExist then Inr False else Inl (FileFailed e), w\<lparr>in_disk := d\<rparr>)
      | (Inr text, d) \<Rightarrow> (case ie_https_of E text of None \<Rightarrow> Inl BadConfig | Some https \<Rightarrow> Inr https, w\<lparr>in_disk := d\<rparr>))"

text \<open>\<open>Save\<close> removes the temporary file whatever happens.\<close>

definition save_config :: "string \<Rightarrow> bool \<Rightarrow> unit disk_op" where
  "save_config dir https =
     disk_bind touch (\<lambda>_.
     disk_bind (write_file (tmp_of (config_path dir)) '''') (\<lambda>_ d.
       case disk_bind (write_file (tmp_of (config_path dir)) (config_text https)) (\<lambda>_.
            disk_bind touch (\<lambda>_. disk_bind touch (\<lambda>_. rename_file (tmp_of (config_path dir)) (config_path dir)))) d of
         (r, d) \<Rightarrow> (r, ignoring (remove_file (tmp_of (config_path dir))) d)))"

section \<open>Setting up\<close>

definition ensure_authority :: "install_env \<Rightarrow> authority step" where
  "ensure_authority E w =
     (case EnsureCA (ie_lib E) (ie_key E) (ie_state_dir E) (ie_now E) (in_disk w) of
        (Inl e, d) \<Rightarrow> (Inl (CertFailed e), w\<lparr>in_disk := d\<rparr>)
      | (Inr ca, d) \<Rightarrow> (Inr ca, w\<lparr>in_disk := d, in_events := in_events w @ [AuthorityReady (au_fingerprint ca)]\<rparr>))"

definition enableHTTPSIfRequested :: "install_env \<Rightarrow> unit step" where
  "enableHTTPSIfRequested E =
     (if \<not> ie_https E then step_return ()
      else
        step_bind (ensure_authority E) (\<lambda>_.
        step_bind (TrustCA E (ca_cert_path (ie_state_dir E))) (\<lambda>_.
        step_bind (files (save_config (ie_state_dir E) True)) (\<lambda>_. note_event (ConfigSaved True)))))"

definition replaceInstalledFileForGOOS :: "string \<Rightarrow> string \<Rightarrow> string \<Rightarrow> unit disk_op" where
  "replaceInstalledFileForGOOS = replaceFileForGOOS"

definition copyFile :: "string \<Rightarrow> string \<Rightarrow> string \<Rightarrow> unit disk_op" where
  "copyFile goos src dst =
     disk_bind (read_file src) (\<lambda>body.
     disk_bind (write_file (tmp_of dst) '''') (\<lambda>_.
     disk_bind (with_cleanup (tmp_of dst)
       (disk_bind (write_tmp (tmp_of dst) body) (\<lambda>_. replaceInstalledFileForGOOS goos (tmp_of dst) dst)))
     (\<lambda>_. touch)))"

definition bin_dir :: "install_env \<Rightarrow> string" where "bin_dir E = path_join (ie_state_dir E) ''bin''"
definition pid_path :: "install_env \<Rightarrow> string" where "pid_path E = path_join (ie_state_dir E) ''router.pid''"
definition token_path :: "install_env \<Rightarrow> string" where "token_path E = path_join (ie_state_dir E) ''token''"

definition service_path :: "install_env \<Rightarrow> string" where
  "service_path E = path_join (path_join (path_join (ie_config_dir E) ''systemd'') ''user'') ''gohere-router.service''"

definition install_binary :: "install_env \<Rightarrow> string \<Rightarrow> unit step" where
  "install_binary E name =
     step_bind (files touch) (\<lambda>_.
     step_bind (files (copyFile (ie_goos E) (ie_binary E) (path_join (bin_dir E) name))) (\<lambda>_.
     note_event (Copied (path_join (bin_dir E) name))))"

definition ensure_token :: "install_env \<Rightarrow> unit step" where
  "ensure_token E = step_bind (files (EnsureToken (ie_goos E) (ie_token E) (token_path E))) (\<lambda>_. note_event TokenReady)"

text \<open>\<open>strconv.Quote\<close> is a parameter.\<close>

definition service_text :: "install_env \<Rightarrow> string \<Rightarrow> string" where
  "service_text E binary =
     ''[Unit]'' @ newline @ ''Description=gohere local hostname service'' @ newline @ newline @ ''[Service]'' @ newline
     @ ''ExecStart='' @ ie_quote E binary @ '' service run'' @ newline @ ''Restart=on-failure'' @ newline @ newline
     @ ''[Install]'' @ newline @ ''WantedBy=default.target'' @ newline"

definition writeSystemdService :: "install_env \<Rightarrow> string \<Rightarrow> unit disk_op" where
  "writeSystemdService E binary = disk_bind touch (\<lambda>_. write_file (service_path E) (service_text E binary))"

definition startDetached :: "install_env \<Rightarrow> int step" where
  "startDetached E =
     (case ie_detached E of
        None \<Rightarrow> step_bind (note_event DetachFailed) (\<lambda>_ w. (Inl NotDetached, w))
      | Some pid \<Rightarrow> step_bind (note_event (Detached pid)) (\<lambda>_. step_return pid))"

definition writeDetachedRouterPID :: "install_env \<Rightarrow> int \<Rightarrow> unit step" where
  "writeDetachedRouterPID E pid w =
     (if pid \<le> 0 then (Inr (), w)
      else (case files (WritePIDRecord (ie_goos E) (pid_path E) pid) w of
         (Inl e, w) \<Rightarrow> (Inl e, snd (note_event (Killed pid) w))
       | (Inr _, w) \<Rightarrow> (Inr (), w)))"

definition start_service :: "install_env \<Rightarrow> unit step" where
  "start_service E = step_bind (startDetached E) (writeDetachedRouterPID E)"

definition SetupLinux :: "install_env \<Rightarrow> unit step" where
  "SetupLinux E =
     (if ie_health E then step_return ()
      else
        step_bind (enableHTTPSIfRequested E) (\<lambda>_.
        step_bind (install_binary E ''gohere'') (\<lambda>_.
        step_bind (ensure_token E) (\<lambda>_.
        step_bind (run_command E [''sudo'', ''setcap'', ''cap_net_bind_service=+ep'', path_join (bin_dir E) ''gohere'']) (\<lambda>_.
        if ie_systemd E then
          step_bind (files (writeSystemdService E (path_join (bin_dir E) ''gohere''))) (\<lambda>_ w.
            case run_command E [''systemctl'', ''--user'', ''enable'', ''--now'', ''gohere-router''] w of
              (Inr _, w) \<Rightarrow> (Inr (), w)
            | (Inl _, w) \<Rightarrow> start_service E w)
        else start_service E)))))"

definition ensure_user_path :: "install_env \<Rightarrow> unit step" where
  "ensure_user_path E =
     step_bind (note_event (PathChanged (ie_user_path E))) (\<lambda>_ w. if ie_user_path E then (Inr (), w) else (Inl PathFailed, w))"

definition SetupWindows :: "install_env \<Rightarrow> unit step" where
  "SetupWindows E =
     (if ie_health E then step_return ()
      else
        step_bind (enableHTTPSIfRequested E) (\<lambda>_.
        step_bind (install_binary E ''gohere.exe'') (\<lambda>_.
        step_bind (ensure_user_path E) (\<lambda>_.
        step_bind (ensure_token E) (\<lambda>_.
        start_service E)))))"

definition SetupDarwin :: "install_env \<Rightarrow> unit step" where
  "SetupDarwin E =
     (if ie_health E then step_return ()
      else
        step_bind (enableHTTPSIfRequested E) (\<lambda>_.
        step_bind (install_binary E ''gohere'') (\<lambda>_.
        step_bind (ensure_token E) (\<lambda>_.
        start_service E))))"

text \<open>Starting what is installed.\<close>

definition exists_file :: "string \<Rightarrow> unit disk_op" where
  "exists_file path = disk_bind (read_file path) (\<lambda>_. disk_return ())"

definition StartInstalledRouter :: "install_env \<Rightarrow> string \<Rightarrow> unit step" where
  "StartInstalledRouter E binaryName =
     step_bind (files (exists_file (path_join (bin_dir E) binaryName))) (\<lambda>_.
     step_bind (files (exists_file (token_path E))) (\<lambda>_.
     start_service E))"

section \<open>What a step adds to the log\<close>

definition emits :: "'a step \<Rightarrow> ((install_error, 'a) result \<Rightarrow> install_event list \<Rightarrow> disk \<Rightarrow> bool) \<Rightarrow> bool" where
  "emits f P \<longleftrightarrow> (\<forall>w r w'. f w = (r, w') \<longrightarrow> (\<exists>evs. in_events w' = in_events w @ evs \<and> P r evs (in_disk w')))"

lemma emitsI: "(\<And>w r w'. f w = (r, w') \<Longrightarrow> \<exists>evs. in_events w' = in_events w @ evs \<and> P r evs (in_disk w')) \<Longrightarrow> emits f P"
  by (simp add: emits_def)

lemma emits_weaken: "emits f P \<Longrightarrow> (\<And>r evs d. P r evs d \<Longrightarrow> Q r evs d) \<Longrightarrow> emits f Q"
  unfolding emits_def by blast

lemma emits_bind:
  assumes "emits f P" "\<And>a. emits (g a) (Q a)"
    and "\<And>e evs d. P (Inl e) evs d \<Longrightarrow> R (Inl e) evs d"
    and "\<And>a evs1 d1 r evs2 d. P (Inr a) evs1 d1 \<Longrightarrow> Q a r evs2 d \<Longrightarrow> R r (evs1 @ evs2) d"
  shows "emits (step_bind f g) R"
proof (rule emitsI)
  fix w r w'
  assume run: "step_bind f g w = (r, w')"
  obtain q w1 where f: "f w = (q, w1)" by (cases "f w")
  from assms(1) f obtain evs1 where one: "in_events w1 = in_events w @ evs1" "P q evs1 (in_disk w1)" unfolding emits_def by blast
  show "\<exists>evs. in_events w' = in_events w @ evs \<and> R r evs (in_disk w')"
  proof (cases q)
    case (Inl e)
    then show ?thesis using run f one assms(3) by (auto simp: step_bind_def)
  next
    case (Inr a)
    then have "g a w1 = (r, w')" using run f by (simp add: step_bind_def)
    with assms(2) [of a] obtain evs2 where two: "in_events w' = in_events w1 @ evs2" "Q a r evs2 (in_disk w')"
      unfolding emits_def by blast
    then show ?thesis using one Inr assms(4) by auto
  qed
qed

lemma emits_return: "emits (step_return a) (\<lambda>r evs d. r = Inr a \<and> evs = [])"
  by (auto simp: emits_def step_return_def)

lemma emits_note: "emits (note_event e) (\<lambda>r evs d. r = Inr () \<and> evs = [e])"
  by (auto simp: emits_def note_event_def)

lemma emits_files: "emits (files f) (\<lambda>r evs d. evs = [])"
  by (auto simp: emits_def files_def split: prod.splits sum.splits)

lemma emits_fail: "emits (\<lambda>w. (Inl e, w)) (\<lambda>r evs d. r = Inl e \<and> evs = [])"
  by (auto simp: emits_def)

lemma emits_run: "emits (run_command E args) (\<lambda>r evs d. evs = [Ran args (ie_command E args)] \<and> (r = Inr () \<longleftrightarrow> ie_command E args))"
  unfolding run_command_def
  by (rule emits_bind [OF emits_note, where Q = "\<lambda>a r evs d. evs = [] \<and> (r = Inr () \<longleftrightarrow> ie_command E args)"])
    (auto simp: emits_def)

text \<open>Nothing is started, and nothing is saved.\<close>

fun calm_event :: "install_event \<Rightarrow> bool" where
  "calm_event (Detached pid) \<longleftrightarrow> False"
| "calm_event (Killed pid) \<longleftrightarrow> False"
| "calm_event (ConfigSaved https) \<longleftrightarrow> False"
| "calm_event e \<longleftrightarrow> True"

definition calm :: "install_event list \<Rightarrow> bool" where
  "calm evs \<longleftrightarrow> list_all calm_event evs"

lemma calm_simps [simp]: "calm []" "calm (e # evs) \<longleftrightarrow> calm_event e \<and> calm evs" "calm (a @ b) \<longleftrightarrow> calm a \<and> calm b"
  by (simp_all add: calm_def)

lemma calm_not: "calm evs \<Longrightarrow> Detached pid \<notin> set evs \<and> Killed pid \<notin> set evs \<and> ConfigSaved b \<notin> set evs"
  by (auto simp: calm_def list_all_iff)

text \<open>The commands by which the authority becomes trusted.\<close>

definition trust_commands :: "install_env \<Rightarrow> string list list" where
  "trust_commands E = (let caPath = ca_cert_path (ie_state_dir E) in
     if ie_goos E = ''linux'' then
       [[''sudo'', ''mkdir'', ''-p'', ''/usr/local/share/ca-certificates''], [''sudo'', ''cp'', caPath, trusted_file],
        [''sudo'', ''update-ca-certificates'']]
     else if ie_goos E = ''darwin'' then
       [[''sudo'', ''security'', ''add-trusted-cert'', ''-d'', ''-r'', ''trustRoot'', ''-k'', keychain, caPath]]
     else [[''certutil'', ''-f'', ''-user'', ''-addstore'', ''Root'', caPath]])"

definition trusted :: "install_env \<Rightarrow> install_event list \<Rightarrow> bool" where
  "trusted E evs \<longleftrightarrow> list_all (\<lambda>args. Ran args True \<in> set evs) (trust_commands E)"

lemma trusted_append: "trusted E a \<or> trusted E b \<Longrightarrow> trusted E (a @ b)"
  by (auto simp: trusted_def list_all_iff)

lemma emits_TrustCA:
  "emits (TrustCA E (ca_cert_path (ie_state_dir E))) (\<lambda>r evs d. calm evs \<and> (r = Inr () \<longrightarrow> trusted E evs))"
proof -
  let ?mk = "[''sudo'', ''mkdir'', ''-p'', ''/usr/local/share/ca-certificates'']"
    and ?cp = "[''sudo'', ''cp'', ca_cert_path (ie_state_dir E), trusted_file]" and ?up = "[''sudo'', ''update-ca-certificates'']"
  have two: "emits (step_bind (run_command E ?cp) (\<lambda>_. run_command E ?up))
      (\<lambda>r evs d. calm evs \<and> (r = Inr () \<longrightarrow> Ran ?cp True \<in> set evs \<and> Ran ?up True \<in> set evs))"
    by (rule emits_bind [OF emits_run emits_run]) auto
  have three: "emits (step_bind (run_command E ?mk) (\<lambda>_. step_bind (run_command E ?cp) (\<lambda>_. run_command E ?up)))
      (\<lambda>r evs d. calm evs \<and> (r = Inr () \<longrightarrow> Ran ?mk True \<in> set evs \<and> Ran ?cp True \<in> set evs \<and> Ran ?up True \<in> set evs))"
    by (rule emits_bind [OF emits_run two]) auto
  consider "ie_goos E = ''linux''" | "ie_goos E = ''darwin''" | "ie_goos E = ''windows''"
    | "ie_goos E \<notin> {''linux'', ''darwin'', ''windows''}" by auto
  then show ?thesis
  proof cases
    case 1
    then show ?thesis using three by (simp add: TrustCA_def trusted_def trust_commands_def Let_def)
  next
    case 2
    show ?thesis unfolding TrustCA_def using 2
      by (auto simp: trusted_def trust_commands_def Let_def intro: emits_weaken [OF emits_run])
  next
    case 3
    show ?thesis unfolding TrustCA_def using 3
      by (auto simp: trusted_def trust_commands_def Let_def intro: emits_weaken [OF emits_run])
  next
    case 4
    then show ?thesis by (auto simp: TrustCA_def intro: emits_weaken [OF emits_fail])
  qed
qed

lemma emits_authority: "emits (ensure_authority E) (\<lambda>r evs d. calm evs)"
  by (rule emitsI) (auto simp: ensure_authority_def split: prod.splits sum.splits)

text \<open>Before the service is started: nothing has been, and HTTPS is switched on only when its authority is trusted.\<close>

definition prepared :: "install_env \<Rightarrow> install_event list \<Rightarrow> bool" where
  "prepared E evs \<longleftrightarrow> (\<forall>pid. Detached pid \<notin> set evs \<and> Killed pid \<notin> set evs) \<and> (ConfigSaved True \<in> set evs \<longrightarrow> trusted E evs)"

lemma prepared_calm: "calm evs \<Longrightarrow> prepared E evs"
  by (auto simp: prepared_def dest: calm_not)

lemma prepared_append: "prepared E a \<Longrightarrow> prepared E b \<Longrightarrow> prepared E (a @ b)"
  by (auto simp: prepared_def intro: trusted_append)

lemma emits_https: "emits (enableHTTPSIfRequested E) (\<lambda>r evs d. prepared E evs)"
proof -
  have saved: "emits (step_bind (files (save_config (ie_state_dir E) True)) (\<lambda>_. note_event (ConfigSaved True)))
      (\<lambda>r evs d. evs = [] \<or> evs = [ConfigSaved True])"
    by (rule emits_bind [OF emits_files emits_note]) auto
  have trust: "emits (step_bind (TrustCA E (ca_cert_path (ie_state_dir E)))
        (\<lambda>_. step_bind (files (save_config (ie_state_dir E) True)) (\<lambda>_. note_event (ConfigSaved True)))) (\<lambda>r evs d. prepared E evs)"
    by (rule emits_bind [OF emits_TrustCA saved])
      (auto simp: prepared_def dest: calm_not intro: trusted_append)
  have "emits (step_bind (ensure_authority E) (\<lambda>_. step_bind (TrustCA E (ca_cert_path (ie_state_dir E)))
        (\<lambda>_. step_bind (files (save_config (ie_state_dir E) True)) (\<lambda>_. note_event (ConfigSaved True))))) (\<lambda>r evs d. prepared E evs)"
    by (rule emits_bind [OF emits_authority trust]) (auto intro: prepared_append prepared_calm)
  then show ?thesis unfolding enableHTTPSIfRequested_def
    by (auto simp: prepared_def intro: emits_weaken [OF emits_return])
qed

lemma emits_binary:
  "emits (install_binary E name) (\<lambda>r evs d. calm evs \<and> (r = Inr () \<longrightarrow> Copied (path_join (bin_dir E) name) \<in> set evs))"
proof -
  have "emits (step_bind (files (copyFile (ie_goos E) (ie_binary E) (path_join (bin_dir E) name)))
      (\<lambda>_. note_event (Copied (path_join (bin_dir E) name))))
      (\<lambda>r evs d. calm evs \<and> (r = Inr () \<longrightarrow> Copied (path_join (bin_dir E) name) \<in> set evs))"
    by (rule emits_bind [OF emits_files emits_note]) auto
  then show ?thesis unfolding install_binary_def by (rule emits_bind [OF emits_files]) auto
qed

lemma emits_token: "emits (ensure_token E) (\<lambda>r evs d. calm evs \<and> (r = Inr () \<longrightarrow> TokenReady \<in> set evs))"
  unfolding ensure_token_def by (rule emits_bind [OF emits_files emits_note]) auto

text \<open>A process that was started is named by the record, or has been killed.\<close>

definition accounted :: "install_env \<Rightarrow> install_event list \<Rightarrow> disk \<Rightarrow> bool" where
  "accounted E evs d \<longleftrightarrow>
     (\<forall>pid. Detached pid \<in> set evs \<longrightarrow> 0 < pid \<longrightarrow> pid < 2 ^ 63 \<longrightarrow> Killed pid \<in> set evs \<or> names_pid d (pid_path E) pid)"

lemma WritePIDRecord_names:
  assumes "WritePIDRecord goos path pid d = (Inr (), d')" "0 < pid" "pid < 2 ^ 63"
  shows "names_pid d' path pid"
proof -
  from assms(1) obtain d1 where "write_record goos path (itoa pid) d1 = (Inr (), d')"
    unfolding WritePIDRecord_def writePIDFile_def by (auto elim!: bind_cases)
  from write_record_files [OF this] show ?thesis
    using itoa_record [OF assms(2,3)] by (simp add: published_def names_pid_def)
qed

lemma emits_pid:
  "emits (writeDetachedRouterPID E pid) (\<lambda>r evs d. (evs = [] \<or> evs = [Killed pid])
     \<and> (0 < pid \<and> pid < 2 ^ 63 \<longrightarrow> Killed pid \<in> set evs \<or> names_pid d (pid_path E) pid))"
proof (rule emitsI)
  fix w r w'
  assume run: "writeDetachedRouterPID E pid w = (r, w')"
  obtain q w1 where f: "files (WritePIDRecord (ie_goos E) (pid_path E) pid) w = (q, w1)"
    by (cases "files (WritePIDRecord (ie_goos E) (pid_path E) pid) w")
  obtain q' d1 where d: "WritePIDRecord (ie_goos E) (pid_path E) pid (in_disk w) = (q', d1)"
    by (cases "WritePIDRecord (ie_goos E) (pid_path E) pid (in_disk w)")
  have w1: "in_events w1 = in_events w" "q = Inr () \<Longrightarrow> q' = Inr () \<and> in_disk w1 = d1"
    using f d by (auto simp: files_def split: sum.splits)
  show "\<exists>evs. in_events w' = in_events w @ evs \<and> (evs = [] \<or> evs = [Killed pid])
     \<and> (0 < pid \<and> pid < 2 ^ 63 \<longrightarrow> Killed pid \<in> set evs \<or> names_pid (in_disk w') (pid_path E) pid)"
  proof (cases "pid \<le> 0")
    case True
    then show ?thesis using run by (simp add: writeDetachedRouterPID_def)
  next
    case False
    show ?thesis
    proof (cases q)
      case (Inl e)
      then show ?thesis using run False f w1 by (auto simp: writeDetachedRouterPID_def note_event_def)
    next
      case (Inr u)
      then have "w' = w1" using run False f by (auto simp: writeDetachedRouterPID_def)
      then show ?thesis using w1 Inr d WritePIDRecord_names [of "ie_goos E" "pid_path E" pid "in_disk w" d1] by auto
    qed
  qed
qed

lemma emits_start: "emits (start_service E) (\<lambda>r evs d. accounted E evs d \<and> (\<forall>https. ConfigSaved https \<notin> set evs))"
proof -
  have detached: "emits (startDetached E)
      (\<lambda>r evs d. case r of Inl e \<Rightarrow> evs = [DetachFailed] | Inr pid \<Rightarrow> evs = [Detached pid])"
  proof (cases "ie_detached E")
    case None
    have "emits (step_bind (note_event DetachFailed) (\<lambda>_ w. (Inl NotDetached, w)))
      (\<lambda>r evs d. case r of Inl e \<Rightarrow> evs = [DetachFailed] | Inr pid \<Rightarrow> evs = [Detached pid])"
      by (rule emits_bind [OF emits_note emits_fail]) auto
    then show ?thesis using None by (simp add: startDetached_def)
  next
    case (Some pid)
    have "emits (step_bind (note_event (Detached pid)) (\<lambda>_. step_return pid))
      (\<lambda>r evs d. case r of Inl e \<Rightarrow> evs = [DetachFailed] | Inr pid \<Rightarrow> evs = [Detached pid])"
      by (rule emits_bind [OF emits_note emits_return]) auto
    then show ?thesis using Some by (simp add: startDetached_def)
  qed
  show ?thesis unfolding start_service_def
    by (rule emits_bind [OF detached emits_pid]) (auto simp: accounted_def)
qed

text \<open>A whole setup with the binary \<open>name\<close>.\<close>

definition setup_sound :: "install_env \<Rightarrow> string \<Rightarrow> install_event list \<Rightarrow> disk \<Rightarrow> bool" where
  "setup_sound E name evs d \<longleftrightarrow>
     accounted E evs d \<and> (ConfigSaved True \<in> set evs \<longrightarrow> trusted E evs)
     \<and> (\<forall>pid. Detached pid \<in> set evs \<longrightarrow> Copied (path_join (bin_dir E) name) \<in> set evs \<and> TokenReady \<in> set evs)"

lemma sound_prepared: "prepared E evs \<Longrightarrow> setup_sound E name evs d"
  by (auto simp: setup_sound_def prepared_def accounted_def)

lemma sound_calm: "calm evs \<Longrightarrow> setup_sound E name evs d"
  by (rule sound_prepared [OF prepared_calm])

lemma sound_after:
  assumes "prepared E a" "setup_sound E name b d"
  shows "setup_sound E name (a @ b) d"
  using assms by (auto simp: setup_sound_def prepared_def accounted_def intro: trusted_append)

text \<open>The part after the binary and the token.\<close>

definition start_sound :: "install_env \<Rightarrow> install_event list \<Rightarrow> disk \<Rightarrow> bool" where
  "start_sound E evs d \<longleftrightarrow> accounted E evs d \<and> (\<forall>https. ConfigSaved https \<notin> set evs)"

lemma start_sound_calm: "calm evs \<Longrightarrow> start_sound E evs d"
  by (auto simp: start_sound_def accounted_def dest: calm_not)

lemma start_sound_after: "calm a \<Longrightarrow> start_sound E b d \<Longrightarrow> start_sound E (a @ b) d"
  by (auto simp: start_sound_def accounted_def dest: calm_not)

lemma start_sound_cons: "calm_event e \<Longrightarrow> start_sound E b d \<Longrightarrow> start_sound E (e # b) d"
  using start_sound_after [of "[e]" E b d] by simp

lemma emits_start_sound: "emits (start_service E) (\<lambda>r evs d. start_sound E evs d)"
  by (rule emits_weaken [OF emits_start]) (simp add: start_sound_def)

lemma emits_linux_end:
  "emits (step_bind (run_command E args) (\<lambda>_.
        if ie_systemd E then
          step_bind (files (writeSystemdService E binary)) (\<lambda>_ w.
            case run_command E enable w of
              (Inr _, w) \<Rightarrow> (Inr (), w)
            | (Inl _, w) \<Rightarrow> start_service E w)
        else start_service E)) (\<lambda>r evs d. start_sound E evs d)"
proof -
  have fall_back: "emits (\<lambda>w. case run_command E enable w of (Inr _, w) \<Rightarrow> (Inr (), w) | (Inl _, w) \<Rightarrow> start_service E w)
      (\<lambda>r evs d. start_sound E evs d)"
  proof (rule emitsI)
    fix w r w'
    assume run: "(case run_command E enable w of (Inr _, w) \<Rightarrow> (Inr (), w) | (Inl _, w) \<Rightarrow> start_service E w) = (r, w')"
    obtain q w1 where c: "run_command E enable w = (q, w1)" by (cases "run_command E enable w")
    from emits_run [of E enable] c obtain e1 where one: "in_events w1 = in_events w @ e1" "calm e1"
      unfolding emits_def by fastforce
    show "\<exists>evs. in_events w' = in_events w @ evs \<and> start_sound E evs (in_disk w')"
    proof (cases q)
      case (Inr u)
      then show ?thesis using run c one start_sound_calm by auto
    next
      case (Inl e)
      then have "start_service E w1 = (r, w')" using run c by simp
      with emits_start_sound [of E] obtain e2 where "in_events w' = in_events w1 @ e2" "start_sound E e2 (in_disk w')"
        unfolding emits_def by blast
      then show ?thesis using one start_sound_after by auto
    qed
  qed
  have systemd: "emits (step_bind (files (writeSystemdService E binary))
      (\<lambda>_ w. case run_command E enable w of (Inr _, w) \<Rightarrow> (Inr (), w) | (Inl _, w) \<Rightarrow> start_service E w))
      (\<lambda>r evs d. start_sound E evs d)"
    by (rule emits_bind [OF emits_files fall_back]) (auto intro: start_sound_calm)
  have "emits (if ie_systemd E then step_bind (files (writeSystemdService E binary))
      (\<lambda>_ w. case run_command E enable w of (Inr _, w) \<Rightarrow> (Inr (), w) | (Inl _, w) \<Rightarrow> start_service E w)
      else start_service E) (\<lambda>r evs d. start_sound E evs d)"
    using systemd emits_start_sound by simp
  then show ?thesis by (rule emits_bind [OF emits_run]) (auto intro: start_sound_calm start_sound_cons)
qed

definition token_first :: "install_env \<Rightarrow> install_event list \<Rightarrow> disk \<Rightarrow> bool" where
  "token_first E evs d \<longleftrightarrow> start_sound E evs d \<and> ((\<forall>pid. Detached pid \<notin> set evs) \<or> TokenReady \<in> set evs)"

lemma emits_token_first:
  assumes "emits finish (\<lambda>r evs d. start_sound E evs d)"
  shows "emits (step_bind (ensure_token E) (\<lambda>_. finish)) (\<lambda>r evs d. token_first E evs d)"
  by (rule emits_bind [OF emits_token assms])
    (auto simp: token_first_def intro: start_sound_calm start_sound_after dest: calm_not)

lemma emits_setup:
  assumes "emits rest (\<lambda>r evs d. token_first E evs d)"
  shows "emits (step_bind (enableHTTPSIfRequested E) (\<lambda>_. step_bind (install_binary E name) (\<lambda>_. rest)))
    (\<lambda>r evs d. setup_sound E name evs d)"
proof -
  have binary: "emits (step_bind (install_binary E name) (\<lambda>_. rest)) (\<lambda>r evs d. setup_sound E name evs d)"
    by (rule emits_bind [OF emits_binary assms])
      (auto simp: setup_sound_def token_first_def start_sound_def accounted_def dest: calm_not)
  show ?thesis
    by (rule emits_bind [OF emits_https binary]) (auto intro: sound_prepared sound_after)
qed

lemma emits_user_path: "emits (ensure_user_path E) (\<lambda>r evs d. calm evs)"
  unfolding ensure_user_path_def
  by (rule emits_bind [OF emits_note, where Q = "\<lambda>a r evs d. evs = []"]) (auto simp: emits_def)

lemma emits_windows_end:
  "emits (step_bind (ensure_user_path E) (\<lambda>_. step_bind (ensure_token E) (\<lambda>_. start_service E))) (\<lambda>r evs d. token_first E evs d)"
  by (rule emits_bind [OF emits_user_path emits_token_first [OF emits_start_sound]])
    (auto simp: token_first_def intro: start_sound_calm start_sound_after dest: calm_not)

lemma emits_return_sound: "emits (step_return a) (\<lambda>r evs d. setup_sound E name evs d)"
  by (rule emits_weaken [OF emits_return]) (auto intro: sound_calm)

lemma emits_all:
  "emits (SetupLinux E) (\<lambda>r evs d. setup_sound E ''gohere'' evs d)"
  "emits (SetupWindows E) (\<lambda>r evs d. setup_sound E ''gohere.exe'' evs d)"
  "emits (SetupDarwin E) (\<lambda>r evs d. setup_sound E ''gohere'' evs d)"
  unfolding SetupLinux_def SetupWindows_def SetupDarwin_def
  using emits_setup [OF emits_token_first [OF emits_linux_end]] emits_setup [OF emits_windows_end]
    emits_setup [OF emits_token_first [OF emits_start_sound]]
  by (simp_all add: emits_return_sound)


section \<open>Removing\<close>

text \<open>
  What the removal asks: the stop of the router with the inspections of its process, the running executable, whether two
  paths are the same file, the answer of the user. \<open>re_partial\<close> are the files that a \<open>RemoveAll\<close> that fails has removed.
  The directory of temporary files, where Windows moves the running executable, is not part of the disk.
\<close>

record remove_env =
  re_stop :: stop_env
  re_inspections :: "process_state list"
  re_same_file :: "string \<Rightarrow> bool"
  re_moved :: bool
  re_remove_state :: "bool option"
  re_answer :: string
  re_partial :: "string \<Rightarrow> bool"

definition check_context :: "unit step" where
  "check_context w =
     (case in_context w of
        None \<Rightarrow> (Inr (), w) | Some 0 \<Rightarrow> (Inl InstallCancelled, w) | Some (Suc n) \<Rightarrow> (Inr (), w\<lparr>in_context := Some n\<rparr>))"

definition shouldRemoveStateFromAnswer :: "string \<Rightarrow> bool" where
  "shouldRemoveStateFromAnswer raw = (let answer = trim_space (to_lower raw) in answer = ''y'' \<or> answer = ''yes'')"

fun removePathWithRetry :: "nat \<Rightarrow> string \<Rightarrow> unit disk_op" where
  "removePathWithRetry attempts path d =
     (case remove_file path d of
        (Inr _, d) \<Rightarrow> (Inr (), d)
      | (Inl e, d) \<Rightarrow>
          if e = NotExist then (Inr (), d)
          else if attempts \<le> 1 then (Inl e, d) else removePathWithRetry (attempts - 1) path d)"

text \<open>Whether the running executable was moved aside.\<close>

definition moveAsideRunningExecutable :: "install_env \<Rightarrow> remove_env \<Rightarrow> string \<Rightarrow> bool step" where
  "moveAsideRunningExecutable E R path w =
     (if ie_goos E \<noteq> ''windows'' \<or> ie_binary E = '''' then (Inr False, w)
      else if dk_files (in_disk w) path = None \<or> \<not> re_same_file R path then (Inr False, w)
      else if re_moved R then (Inr True, w\<lparr>in_disk := (in_disk w)\<lparr>dk_files := (dk_files (in_disk w))(path := None)\<rparr>\<rparr>)
      else (Inl Moved, w))"

definition removeInstalledFile :: "install_env \<Rightarrow> remove_env \<Rightarrow> string \<Rightarrow> unit step" where
  "removeInstalledFile E R path =
     step_bind (moveAsideRunningExecutable E R path)
       (\<lambda>moved. if moved then step_return () else files (removePathWithRetry 30 path))"

definition stop_first :: "install_env \<Rightarrow> remove_env \<Rightarrow> unit step" where
  "stop_first E R w =
     (case stopInstalledRouter
             ((re_stop R)\<lparr>se_pid_path := pid_path E, se_token_path := token_path E,
                se_service := dk_files (in_disk w) (service_path E) \<noteq> None\<rparr>)
             \<lparr>sw_disk = in_disk w, sw_inspections = re_inspections R, sw_context = in_context w, sw_events = []\<rparr> of
        (r, sw) \<Rightarrow>
          (case r of Inl e \<Rightarrow> Inl (StopFailed e) | Inr _ \<Rightarrow> Inr (), w\<lparr>in_disk := sw_disk sw, in_context := sw_context sw\<rparr>))"

definition remove_service :: "install_env \<Rightarrow> unit step" where
  "remove_service E w =
     (if dk_files (in_disk w) (service_path E) = None then (Inr (), w)
      else step_bind check_context (\<lambda>_ w.
        files (remove_if_there (service_path E))
          (snd (run_command E [''systemctl'', ''--user'', ''disable'', ''gohere-router''] w))) w)"

definition remove_user_path :: "install_env \<Rightarrow> unit step" where
  "remove_user_path E = (if ie_goos E \<noteq> ''windows'' then step_return () else ensure_user_path E)"

text \<open>A failure is shown, unless the context ended.\<close>

definition remove_firewall :: "install_env \<Rightarrow> unit step" where
  "remove_firewall E =
     step_bind (note_event (FirewallCleared (ie_firewall E))) (\<lambda>_. if ie_firewall E then step_return () else check_context)"

definition to_upper :: "string \<Rightarrow> string" where
  "to_upper = map (\<lambda>c. if is_lower c then char_of (code c - 32) else c)"

definition TrustFingerprint :: "install_env \<Rightarrow> string cert_op" where
  "TrustFingerprint E =
     cert_bind (LoadCA (ie_lib E) (ie_state_dir E) (ie_now E)) (\<lambda>ca d. (Inr (to_upper (hex_encode (ie_sha1 E (xc_raw (au_cert ca))))), d))"

definition caUntrustFingerprint :: "install_env \<Rightarrow> string step" where
  "caUntrustFingerprint E w =
     (case (if ie_goos E = ''linux'' then CA_Fingerprint (ie_lib E) (ie_state_dir E) (ie_now E) else TrustFingerprint E) (in_disk w) of
        (Inl e, d) \<Rightarrow> (Inl (CertFailed e), w\<lparr>in_disk := d\<rparr>)
      | (Inr s, d) \<Rightarrow> (Inr s, w\<lparr>in_disk := d\<rparr>))"

definition untrustHTTPSCAIfEnabled :: "install_env \<Rightarrow> unit step" where
  "untrustHTTPSCAIfEnabled E =
     step_bind (load_config E) (\<lambda>https.
       if \<not> https then step_return () else step_bind (caUntrustFingerprint E) (\<lambda>s. UntrustCA E s))"

definition below_dir :: "string \<Rightarrow> string \<Rightarrow> bool" where
  "below_dir dir p \<longleftrightarrow> p = dir \<or> has_prefix p (dir @ ''/'')"

definition remove_all :: "remove_env \<Rightarrow> string \<Rightarrow> unit disk_op" where
  "remove_all R dir d =
     (case next_answer d of
        (True, d) \<Rightarrow> (Inr (), d\<lparr>dk_files := (\<lambda>p. if below_dir dir p then None else dk_files d p)\<rparr>)
      | (False, d) \<Rightarrow> (Inl IoError, d\<lparr>dk_files := (\<lambda>p. if below_dir dir p \<and> re_partial R p then None else dk_files d p)\<rparr>))"

definition wants_state_removed :: "remove_env \<Rightarrow> bool" where
  "wants_state_removed R =
     (case re_remove_state R of Some b \<Rightarrow> b | None \<Rightarrow> shouldRemoveStateFromAnswer (re_answer R))"

text \<open>The result is whether the state has been removed.\<close>

definition UninstallWithConfig :: "install_env \<Rightarrow> remove_env \<Rightarrow> bool step" where
  "UninstallWithConfig E R =
     step_bind (stop_first E R) (\<lambda>_.
     step_bind (remove_service E) (\<lambda>_.
     step_bind check_context (\<lambda>_.
     step_bind (remove_user_path E) (\<lambda>_.
     step_bind (remove_firewall E) (\<lambda>_.
     step_bind (removeInstalledFile E R (path_join (bin_dir E) ''gohere'')) (\<lambda>_.
     step_bind (removeInstalledFile E R (path_join (bin_dir E) ''gohere.exe'')) (\<lambda>_.
     step_bind check_context (\<lambda>_.
     step_bind (untrustHTTPSCAIfEnabled E) (\<lambda>_.
     if wants_state_removed R then
       step_bind check_context (\<lambda>_. step_bind (files (remove_all R (ie_state_dir E))) (\<lambda>_. step_return True))
     else step_return False)))))))))"

section \<open>What a removal leaves\<close>

lemma retry_files:
  assumes "removePathWithRetry n path d = (r, d')"
  shows "(dk_files d' = dk_files d \<or> dk_files d' = (dk_files d)(path := None)) \<and> (r = Inr () \<longrightarrow> dk_files d' path = None)"
  using assms
proof (induction n path d arbitrary: r d' rule: removePathWithRetry.induct)
  case (1 n path d)
  obtain q d1 where rm: "remove_file path d = (q, d1)" by (cases "remove_file path d")
  note step = "1.prems" [unfolded removePathWithRetry.simps [of n] rm prod.case]
  from rm show ?case
  proof (cases rule: remove_file_cases)
    case missing then show ?thesis using step by auto
  next
    case ok then show ?thesis using step by auto
  next
    case refused
    show ?thesis
    proof (cases "n \<le> 1")
      case True then show ?thesis using step refused by auto
    next
      case False
      then have "removePathWithRetry (n - 1) path d1 = (r, d')" using step refused by auto
      from "1.IH" [OF rm [symmetric] _ _ _ this] show ?thesis using refused False by auto
    qed
  qed
qed

declare removePathWithRetry.simps [simp del]

text \<open>A step that only removes files of a set, and adds none.\<close>

definition shrinks :: "string set \<Rightarrow> disk \<Rightarrow> disk \<Rightarrow> bool" where
  "shrinks P d d' \<longleftrightarrow> (\<forall>p. dk_files d' p = dk_files d p \<or> (p \<in> P \<and> dk_files d' p = None))"

lemma shrinks_trans: "shrinks P a b \<Longrightarrow> shrinks P b c \<Longrightarrow> shrinks P a c"
  unfolding shrinks_def by metis

lemma shrinks_same: "dk_files d' = dk_files d \<Longrightarrow> shrinks P d d'"
  by (simp add: shrinks_def)

lemma shrinks_None: "shrinks P d d' \<Longrightarrow> dk_files d p = None \<Longrightarrow> dk_files d' p = None"
  unfolding shrinks_def by metis

definition only_removes :: "string set \<Rightarrow> 'a step \<Rightarrow> bool" where
  "only_removes P f \<longleftrightarrow> (\<forall>w. shrinks P (in_disk w) (in_disk (snd (f w))))"

lemma only_removesI: "(\<And>w r w'. f w = (r, w') \<Longrightarrow> shrinks P (in_disk w) (in_disk w')) \<Longrightarrow> only_removes P f"
  unfolding only_removes_def by (metis prod.collapse)

lemma only_removesD: "only_removes P f \<Longrightarrow> f w = (r, w') \<Longrightarrow> shrinks P (in_disk w) (in_disk w')"
  unfolding only_removes_def by (metis snd_conv)

lemma step_bind_cases:
  assumes "step_bind f g w = (r, w')"
  obtains (left) e where "f w = (Inl e, w')" "r = Inl e" | (right) a w1 where "f w = (Inr a, w1)" "g a w1 = (r, w')"
  using assms by (auto simp: step_bind_def split: prod.splits sum.splits)

lemma only_removes_bind:
  assumes "only_removes P f" "\<And>a. only_removes P (g a)"
  shows "only_removes P (step_bind f g)"
proof (rule only_removesI)
  fix w r w'
  assume "step_bind f g w = (r, w')"
  then show "shrinks P (in_disk w) (in_disk w')"
  proof (cases rule: step_bind_cases)
    case (left e) then show ?thesis using only_removesD [OF assms(1)] by blast
  next
    case (right a w1)
    then show ?thesis using only_removesD [OF assms(1)] only_removesD [OF assms(2)] shrinks_trans by blast
  qed
qed

lemma keeps_command: "in_disk (snd (run_command E args w)) = in_disk w"
  by (simp add: run_command_def step_bind_def note_event_def)

lemma keeps_context: "in_disk (snd (check_context w)) = in_disk w"
  by (simp add: check_context_def split: option.splits nat.splits)

lemma only_removes_simple:
  "only_removes P (step_return a)" "only_removes P (note_event ev)" "only_removes P check_context" "only_removes P (run_command E args)"
  "only_removes P (Pair (Inl e))"
  by (simp_all add: only_removes_def shrinks_def step_return_def note_event_def keeps_command keeps_context)

lemma only_removes_files:
  assumes "\<And>d r d'. f d = (r, d') \<Longrightarrow> shrinks P d d'"
  shows "only_removes P (files f)"
proof (rule only_removesI)
  fix w r w'
  assume run: "files f w = (r, w')"
  obtain q d where f: "f (in_disk w) = (q, d)" by (cases "f (in_disk w)")
  then have "in_disk w' = d" using run by (cases q) (auto simp: files_def)
  then show "shrinks P (in_disk w) (in_disk w')" using assms [OF f] by simp
qed

lemma only_removes_retry: "only_removes {path} (files (removePathWithRetry n path))"
proof (rule only_removes_files)
  fix d r d'
  assume "removePathWithRetry n path d = (r, d')"
  from retry_files [OF this] show "shrinks {path} d d'" by (auto simp: shrinks_def split: if_splits)
qed

lemma only_removes_installed: "only_removes {path} (removeInstalledFile E R path)"
proof -
  have "only_removes {path} (moveAsideRunningExecutable E R path)"
    by (simp add: only_removes_def shrinks_def moveAsideRunningExecutable_def)
  then show ?thesis unfolding removeInstalledFile_def
    by (rule only_removes_bind) (simp add: only_removes_simple only_removes_retry)
qed

lemma removed_installed:
  assumes "removeInstalledFile E R path w = (Inr u, w')"
  shows "dk_files (in_disk w') path = None"
proof -
  obtain q w1 where mv: "moveAsideRunningExecutable E R path w = (q, w1)" by (cases "moveAsideRunningExecutable E R path w")
  show ?thesis
  proof (cases q)
    case (Inl e) then show ?thesis using assms mv by (simp add: removeInstalledFile_def step_bind_def)
  next
    case (Inr moved)
    show ?thesis
    proof (cases moved)
      case True
      then have "dk_files (in_disk w1) path = None" using mv Inr by (auto simp: moveAsideRunningExecutable_def split: if_splits)
      then show ?thesis using assms mv Inr True by (simp add: removeInstalledFile_def step_bind_def step_return_def)
    next
      case False
      then have "files (removePathWithRetry 30 path) w1 = (Inr u, w')"
        using assms mv Inr by (simp add: removeInstalledFile_def step_bind_def)
      then obtain d' where "removePathWithRetry 30 path (in_disk w1) = (Inr u, d')" "in_disk w' = d'"
        by (auto simp: files_def split: prod.splits sum.splits)
      then show ?thesis using retry_files [of 30 path "in_disk w1" "Inr u" d'] by simp
    qed
  qed
qed

lemma caUntrust_keeps:
  assumes "caUntrustFingerprint E w = (r, w')"
  shows "dk_files (in_disk w') = dk_files (in_disk w)"
proof -
  obtain q d where ca: "LoadCA (ie_lib E) (ie_state_dir E) (ie_now E) (in_disk w) = (q, d)"
    by (cases "LoadCA (ie_lib E) (ie_state_dir E) (ie_now E) (in_disk w)")
  have "dk_files d = dk_files (in_disk w)" using LoadCA_files [OF ca] by simp
  then show ?thesis
    using assms ca by (cases q) (auto simp: caUntrustFingerprint_def CA_Fingerprint_def TrustFingerprint_def cert_bind_def split: if_splits)
qed

lemma load_config_files:
  assumes "load_config E w = (r, w')"
  shows "dk_files (in_disk w') = dk_files (in_disk w)"
    "r = Inr https \<Longrightarrow> (case dk_files (in_disk w) (config_path (ie_state_dir E)) of
       None \<Rightarrow> \<not> https | Some body \<Rightarrow> ie_https_of E body = Some https)"
proof -
  obtain q d where rd: "read_file (config_path (ie_state_dir E)) (in_disk w) = (q, d)"
    by (cases "read_file (config_path (ie_state_dir E)) (in_disk w)")
  note step = assms [unfolded load_config_def rd prod.case]
  from rd have both: "dk_files (in_disk w') = dk_files (in_disk w)
    \<and> (r = Inr https \<longrightarrow> (case dk_files (in_disk w) (config_path (ie_state_dir E)) of
       None \<Rightarrow> \<not> https | Some body \<Rightarrow> ie_https_of E body = Some https))"
  proof (cases rule: read_file_cases)
    case missing then show ?thesis using step by auto
  next
    case refused then show ?thesis using step by auto
  next
    case (ok body) then show ?thesis using step by (auto split: option.splits)
  qed
  then show "dk_files (in_disk w') = dk_files (in_disk w)" by blast
  from both show "r = Inr https \<Longrightarrow> (case dk_files (in_disk w) (config_path (ie_state_dir E)) of
       None \<Rightarrow> \<not> https | Some body \<Rightarrow> ie_https_of E body = Some https)" by blast
qed

lemma only_removes_untrust: "only_removes {} (untrustHTTPSCAIfEnabled E)"
proof -
  have config: "only_removes {} (load_config E)"
    by (rule only_removesI) (rule shrinks_same, rule load_config_files(1))
  have print: "only_removes {} (caUntrustFingerprint E)"
    by (rule only_removesI) (rule shrinks_same, rule caUntrust_keeps)
  have untrust: "only_removes {} (UntrustCA E s)" for s
    by (simp add: UntrustCA_def Let_def only_removes_bind only_removes_simple)
  show ?thesis unfolding untrustHTTPSCAIfEnabled_def
    by (intro only_removes_bind config) (simp add: only_removes_bind only_removes_simple print untrust)
qed

lemma stop_first_files:
  assumes "stop_first E R w = (r, w')"
  shows "shrinks {pid_path E} (in_disk w) (in_disk w')" "in_events w' = in_events w"
    "r = Inr u \<Longrightarrow> True" "r = Inl e \<Longrightarrow> \<exists>stopped. e = StopFailed stopped"
proof -
  let ?S = "(re_stop R)\<lparr>se_pid_path := pid_path E, se_token_path := token_path E,
      se_service := dk_files (in_disk w) (service_path E) \<noteq> None\<rparr>"
  let ?w = "\<lparr>sw_disk = in_disk w, sw_inspections = re_inspections R, sw_context = in_context w, sw_events = []\<rparr>"
  obtain q sw where run: "stopInstalledRouter ?S ?w = (q, sw)" by (cases "stopInstalledRouter ?S ?w")
  have w': "in_disk w' = sw_disk sw" "in_events w' = in_events w" "r = Inl e \<Longrightarrow> \<exists>stopped. e = StopFailed stopped"
    using assms run by (auto simp: stop_first_def split: sum.splits)
  have "dk_files (sw_disk sw) = dk_files (in_disk w) \<or> dk_files (sw_disk sw) = (dk_files (in_disk w))(pid_path E := None)"
    using stop_outcome [OF run] by auto
  then show "shrinks {pid_path E} (in_disk w) (in_disk w')" using w'(1) by (auto simp: shrinks_def split: if_splits)
  show "in_events w' = in_events w" "r = Inr u \<Longrightarrow> True" "r = Inl e \<Longrightarrow> \<exists>stopped. e = StopFailed stopped"
    using w' by auto
qed

lemma remove_if_there_shrinks: "remove_if_there path d = (r, d') \<Longrightarrow> shrinks {path} d d'"
  using remove_if_there_files(1) [of path d r d'] by (auto simp: shrinks_def split: if_splits)

lemma service_removed:
  shows "only_removes {service_path E} (remove_service E)"
    "remove_service E w = (Inr u, w') \<Longrightarrow> dk_files (in_disk w') (service_path E) = None"
    "emits (remove_service E) (\<lambda>r evs d. True)"
proof -
  let ?disable = "run_command E [''systemctl'', ''--user'', ''disable'', ''gohere-router'']"
  let ?rest = "\<lambda>w. files (remove_if_there (service_path E)) (snd (?disable w))"
  have rest: "only_removes {service_path E} ?rest"
  proof (rule only_removesI)
    fix w r w'
    assume "?rest w = (r, w')"
    from only_removesD [OF only_removes_files this] show "shrinks {service_path E} (in_disk w) (in_disk w')"
      using remove_if_there_shrinks keeps_command by metis
  qed
  then have "only_removes {service_path E} (step_bind check_context (\<lambda>_. ?rest))"
    by (intro only_removes_bind only_removes_simple) simp
  then show "only_removes {service_path E} (remove_service E)"
    by (simp add: only_removes_def remove_service_def shrinks_def)
  show "dk_files (in_disk w') (service_path E) = None" if "remove_service E w = (Inr u, w')"
  proof (cases "dk_files (in_disk w) (service_path E) = None")
    case True then show ?thesis using that by (simp add: remove_service_def)
  next
    case False
    then have "step_bind check_context (\<lambda>_. ?rest) w = (Inr u, w')" using that unfolding remove_service_def by (auto split: if_splits)
    then show ?thesis
    proof (cases rule: step_bind_cases)
      case (right a w1)
      then obtain d where "remove_if_there (service_path E) (in_disk (snd (?disable w1))) = (Inr u, d)" "in_disk w' = d"
        by (auto simp: files_def split: prod.splits sum.splits)
      then show ?thesis using remove_if_there_files(2) by fastforce
    qed simp
  qed
  have "emits ?rest (\<lambda>r evs d. True)"
  proof (rule emitsI)
    fix w r w'
    assume run: "?rest w = (r, w')"
    obtain q w1 where c: "?disable w = (q, w1)" by (cases "?disable w")
    from emits_run c obtain e1 where "in_events w1 = in_events w @ e1" unfolding emits_def by blast
    moreover have "in_events w' = in_events w1" using run c by (auto simp: files_def split: prod.splits sum.splits)
    ultimately show "\<exists>evs. in_events w' = in_events w @ evs \<and> True" by simp
  qed
  moreover have "emits check_context (\<lambda>r evs d. True)"
    by (rule emitsI) (auto simp: check_context_def split: option.splits nat.splits)
  ultimately have "emits (step_bind check_context (\<lambda>_. ?rest)) (\<lambda>r evs d. True)"
    by (auto intro: emits_bind)
  then show "emits (remove_service E) (\<lambda>r evs d. True)"
    unfolding emits_def remove_service_def by auto
qed

text \<open>The commands by which the authority is no longer trusted.\<close>

definition untrusted :: "install_env \<Rightarrow> install_event list \<Rightarrow> bool" where
  "untrusted E evs \<longleftrightarrow>
     (if ie_goos E = ''linux'' then Ran [''sudo'', ''rm'', ''-f'', trusted_file] True \<in> set evs
        \<and> Ran [''sudo'', ''update-ca-certificates''] True \<in> set evs
      else \<exists>print. print \<noteq> '''' \<and>
        (if ie_goos E = ''darwin'' then Ran [''sudo'', ''security'', ''delete-certificate'', ''-Z'', print, keychain] True \<in> set evs
         else Ran [''certutil'', ''-f'', ''-user'', ''-delstore'', ''Root'', print] True \<in> set evs))"

lemma emits_UntrustCA: "emits (UntrustCA E s) (\<lambda>r evs d. r = Inr () \<longrightarrow> untrusted E evs)"
proof -
  have two: "emits (step_bind (run_command E [''sudo'', ''rm'', ''-f'', trusted_file]) (\<lambda>_. run_command E [''sudo'', ''update-ca-certificates'']))
    (\<lambda>r evs d. r = Inr () \<longrightarrow> Ran [''sudo'', ''rm'', ''-f'', trusted_file] True \<in> set evs \<and> Ran [''sudo'', ''update-ca-certificates''] True \<in> set evs)"
    by (rule emits_bind [OF emits_run emits_run]) auto
  have fail: "emits (Pair (Inl e)) (\<lambda>r evs d. r = Inr () \<longrightarrow> untrusted E evs)" for e
    by (auto simp: emits_def)
  consider "ie_goos E = ''linux''" | "ie_goos E = ''darwin''" | "ie_goos E = ''windows''"
    | "ie_goos E \<notin> {''linux'', ''darwin'', ''windows''}" by auto
  then show ?thesis
  proof cases
    case 1
    then show ?thesis using two by (simp add: UntrustCA_def untrusted_def Let_def)
  next
    case 2
    then show ?thesis using fail
      by (auto simp: UntrustCA_def Let_def untrusted_def intro!: emits_weaken [OF emits_run])
  next
    case 3
    then show ?thesis using fail
      by (auto simp: UntrustCA_def Let_def untrusted_def intro!: emits_weaken [OF emits_run])
  next
    case 4
    then show ?thesis using fail by (simp add: UntrustCA_def Let_def)
  qed
qed

lemma untrust_files:
  assumes "untrustHTTPSCAIfEnabled E w = (Inr u, w')"
  shows "\<exists>evs. in_events w' = in_events w @ evs
     \<and> (case dk_files (in_disk w) (config_path (ie_state_dir E)) of
          None \<Rightarrow> True | Some body \<Rightarrow> if ie_https_of E body = Some True then untrusted E evs else True)"
proof -
  from assms obtain https w1 where cfg: "load_config E w = (Inr https, w1)"
    and rest: "(if \<not> https then step_return () else step_bind (caUntrustFingerprint E) (\<lambda>s. UntrustCA E s)) w1 = (Inr u, w')"
    unfolding untrustHTTPSCAIfEnabled_def by (auto elim!: step_bind_cases)
  note loaded = load_config_files(2) [OF cfg refl]
  have e1: "in_events w1 = in_events w" using cfg by (auto simp: load_config_def split: prod.splits sum.splits if_splits option.splits)
  show ?thesis
  proof (cases https)
    case False
    then show ?thesis using rest e1 loaded by (auto simp: step_return_def split: option.splits)
  next
    case True
    then have "step_bind (caUntrustFingerprint E) (\<lambda>s. UntrustCA E s) w1 = (Inr u, w')" using rest by simp
    then obtain s w2 where fp: "caUntrustFingerprint E w1 = (Inr s, w2)" and un: "UntrustCA E s w2 = (Inr u, w')"
      by (auto elim!: step_bind_cases)
    have e2: "in_events w2 = in_events w1" using fp by (auto simp: caUntrustFingerprint_def split: prod.splits sum.splits if_splits)
    from emits_UntrustCA [of E s] un obtain evs where "in_events w' = in_events w2 @ evs" "untrusted E evs"
      unfolding emits_def by fastforce
    then show ?thesis using e1 e2 loaded by (auto split: option.splits)
  qed
qed

lemma config_apart:
  "config_path (ie_state_dir E) \<noteq> pid_path E" "config_path (ie_state_dir E) \<noteq> service_path E"
  "config_path (ie_state_dir E) \<noteq> path_join (bin_dir E) ''gohere''" "config_path (ie_state_dir E) \<noteq> path_join (bin_dir E) ''gohere.exe''"
proof -
  obtain front where front: "\<And>x. plain_elem x \<Longrightarrow> path_join (ie_state_dir E) x = front @ x"
    using path_join_plain [of "ie_state_dir E"] by metis
  obtain front2 where front2: "\<And>x. plain_elem x \<Longrightarrow> path_join (bin_dir E) x = front2 @ x"
    using path_join_plain [of "bin_dir E"] by metis
  obtain front3 where front3: "\<And>x. plain_elem x \<Longrightarrow>
      path_join (path_join (path_join (ie_config_dir E) ''systemd'') ''user'') x = front3 @ x"
    using path_join_plain [of "path_join (path_join (ie_config_dir E) ''systemd'') ''user''"] by metis
  have plain: "plain_elem ''config.json''" "plain_elem ''router.pid''" "plain_elem ''gohere''" "plain_elem ''gohere.exe''"
    "plain_elem ''gohere-router.service''" by (simp_all add: plain_elem_def)
  have last_n: "last (config_path (ie_state_dir E)) = CHR ''n''" using front plain by (simp add: config_path_def)
  have "last (pid_path E) = CHR ''d''" "last (service_path E) = CHR ''e''" "last (path_join (bin_dir E) ''gohere'') = CHR ''e''"
    "last (path_join (bin_dir E) ''gohere.exe'') = CHR ''e''"
    using front front2 front3 plain by (simp_all add: pid_path_def service_path_def)
  with last_n show "config_path (ie_state_dir E) \<noteq> pid_path E" "config_path (ie_state_dir E) \<noteq> service_path E"
    "config_path (ie_state_dir E) \<noteq> path_join (bin_dir E) ''gohere''" "config_path (ie_state_dir E) \<noteq> path_join (bin_dir E) ''gohere.exe''"
    by force+
qed

lemma shrinks_kept: "shrinks P d d' \<Longrightarrow> p \<notin> P \<Longrightarrow> dk_files d' p = dk_files d p"
  unfolding shrinks_def by blast

lemma emits_events: "emits f P \<Longrightarrow> f w = (r, w') \<Longrightarrow> \<exists>evs. in_events w' = in_events w @ evs"
  unfolding emits_def by blast

lemma emits_context: "emits check_context (\<lambda>r evs d. True)"
  by (rule emitsI) (auto simp: check_context_def split: option.splits nat.splits)

lemma emits_any: "emits (step_return a) (\<lambda>r evs d. True)" "emits (files f) (\<lambda>r evs d. True)" "emits (ensure_user_path E) (\<lambda>r evs d. True)"
  by (rule emits_weaken [OF emits_return], simp, rule emits_weaken [OF emits_files], simp,
      rule emits_weaken [OF emits_user_path], simp)

lemma emits_remove_path: "emits (remove_user_path E) (\<lambda>r evs d. True)"
  by (simp add: remove_user_path_def emits_any)

lemma emits_firewall: "emits (remove_firewall E) (\<lambda>r evs d. True)"
  unfolding remove_firewall_def
  by (rule emits_bind [OF emits_note, where Q = "\<lambda>a r evs d. True"])
    (simp_all add: emits_context emits_any)

lemma emits_installed: "emits (removeInstalledFile E R path) (\<lambda>r evs d. True)"
  unfolding removeInstalledFile_def
proof (rule emits_bind [where P = "\<lambda>r evs d. True" and Q = "\<lambda>a r evs d. True"])
  show "emits (moveAsideRunningExecutable E R path) (\<lambda>r evs d. True)"
    by (rule emitsI) (auto simp: moveAsideRunningExecutable_def split: if_splits)
  show "emits (if moved then step_return () else files (removePathWithRetry 30 path)) (\<lambda>r evs d. True)" for moved
    by (simp add: emits_any)
qed simp_all

lemma keeps_path_firewall:
  "only_removes {} (remove_user_path E)" "only_removes {} (remove_firewall E)"
proof -
  have "only_removes {} (ensure_user_path E)" unfolding ensure_user_path_def
    by (intro only_removes_bind only_removes_simple) (simp add: only_removes_def shrinks_def)
  then show "only_removes {} (remove_user_path E)" by (simp add: remove_user_path_def only_removes_simple)
  show "only_removes {} (remove_firewall E)" unfolding remove_firewall_def
    by (intro only_removes_bind only_removes_simple) (simp add: only_removes_simple)
qed

text \<open>Up to the trust store: the service and the binaries are gone, the configuration is as it was.\<close>

definition binaries_gone :: "install_env \<Rightarrow> disk \<Rightarrow> bool" where
  "binaries_gone E d \<longleftrightarrow> dk_files d (service_path E) = None \<and> dk_files d (path_join (bin_dir E) ''gohere'') = None
     \<and> dk_files d (path_join (bin_dir E) ''gohere.exe'') = None"

lemma binaries_stay_gone: "shrinks P d d' \<Longrightarrow> binaries_gone E d \<Longrightarrow> binaries_gone E d'"
  by (auto simp: binaries_gone_def dest: shrinks_None)

lemma removed_before_trust:
  assumes "stop_first E R w = (Inr u1, w1)" "remove_service E w1 = (Inr u2, w2)" "check_context w2 = (Inr u3, w3)"
    "remove_user_path E w3 = (Inr u4, w4)" "remove_firewall E w4 = (Inr u5, w5)"
    "removeInstalledFile E R (path_join (bin_dir E) ''gohere'') w5 = (Inr u6, w6)"
    "removeInstalledFile E R (path_join (bin_dir E) ''gohere.exe'') w6 = (Inr u7, w7)" "check_context w7 = (Inr u8, w8)"
  shows "binaries_gone E (in_disk w8)"
    "dk_files (in_disk w8) (config_path (ie_state_dir E)) = dk_files (in_disk w) (config_path (ie_state_dir E))"
    "\<exists>evs. in_events w8 = in_events w @ evs"
proof -
  have s1: "shrinks {pid_path E} (in_disk w) (in_disk w1)" by (rule stop_first_files(1) [OF assms(1)])
  have s2: "shrinks {service_path E} (in_disk w1) (in_disk w2)" by (rule only_removesD [OF service_removed(1) assms(2)])
  have s3: "shrinks {} (in_disk w2) (in_disk w3)" by (rule only_removesD [OF only_removes_simple(3) assms(3)])
  have s4: "shrinks {} (in_disk w3) (in_disk w4)" by (rule only_removesD [OF keeps_path_firewall(1) assms(4)])
  have s5: "shrinks {} (in_disk w4) (in_disk w5)" by (rule only_removesD [OF keeps_path_firewall(2) assms(5)])
  have s6: "shrinks {path_join (bin_dir E) ''gohere''} (in_disk w5) (in_disk w6)" by (rule only_removesD [OF only_removes_installed assms(6)])
  have s7: "shrinks {path_join (bin_dir E) ''gohere.exe''} (in_disk w6) (in_disk w7)" by (rule only_removesD [OF only_removes_installed assms(7)])
  have s8: "shrinks {} (in_disk w7) (in_disk w8)" by (rule only_removesD [OF only_removes_simple(3) assms(8)])
  have "dk_files (in_disk w2) (service_path E) = None" by (rule service_removed(2) [OF assms(2)])
  then have "dk_files (in_disk w8) (service_path E) = None"
    using shrinks_None [OF s3] shrinks_None [OF s4] shrinks_None [OF s5] shrinks_None [OF s6] shrinks_None [OF s7] shrinks_None [OF s8]
    by blast
  moreover have "dk_files (in_disk w8) (path_join (bin_dir E) ''gohere'') = None"
    using removed_installed [OF assms(6)] shrinks_None [OF s7] shrinks_None [OF s8] by blast
  moreover have "dk_files (in_disk w8) (path_join (bin_dir E) ''gohere.exe'') = None"
    using removed_installed [OF assms(7)] shrinks_None [OF s8] by blast
  ultimately show "binaries_gone E (in_disk w8)" by (simp add: binaries_gone_def)
  note apart = config_apart [of E]
  show "dk_files (in_disk w8) (config_path (ie_state_dir E)) = dk_files (in_disk w) (config_path (ie_state_dir E))"
    using shrinks_kept [OF s1] shrinks_kept [OF s2] shrinks_kept [OF s3] shrinks_kept [OF s4] shrinks_kept [OF s5]
      shrinks_kept [OF s6] shrinks_kept [OF s7] shrinks_kept [OF s8] apart by simp
  obtain e2 e3 e4 e5 e6 e7 e8 where "in_events w2 = in_events w1 @ e2" "in_events w3 = in_events w2 @ e3" "in_events w4 = in_events w3 @ e4"
    "in_events w5 = in_events w4 @ e5" "in_events w6 = in_events w5 @ e6" "in_events w7 = in_events w6 @ e7" "in_events w8 = in_events w7 @ e8"
    using emits_events [OF service_removed(3) assms(2)] emits_events [OF emits_context assms(3)] emits_events [OF emits_remove_path assms(4)]
      emits_events [OF emits_firewall assms(5)] emits_events [OF emits_installed assms(6)] emits_events [OF emits_installed assms(7)]
      emits_events [OF emits_context assms(8)] by blast
  then show "\<exists>evs. in_events w8 = in_events w @ evs" using stop_first_files(2) [OF assms(1)] by auto
qed

lemma state_removed:
  assumes "(if wants_state_removed R then
       step_bind check_context (\<lambda>_. step_bind (files (remove_all R (ie_state_dir E))) (\<lambda>_. step_return True))
     else step_return False) w = (r, w')"
  shows "shrinks UNIV (in_disk w) (in_disk w')" "\<exists>evs. in_events w' = in_events w @ evs"
    "case r of Inl e \<Rightarrow> (\<nexists>stopped. e = StopFailed stopped)
     | Inr removed \<Rightarrow> removed = wants_state_removed R
         \<and> (removed \<longrightarrow> (\<forall>p. below_dir (ie_state_dir E) p \<longrightarrow> dk_files (in_disk w') p = None))"
proof -
  have all: "shrinks UNIV (in_disk w) (in_disk w') \<and> (\<exists>evs. in_events w' = in_events w @ evs)
    \<and> (case r of Inl e \<Rightarrow> (\<nexists>stopped. e = StopFailed stopped)
     | Inr removed \<Rightarrow> removed = wants_state_removed R
         \<and> (removed \<longrightarrow> (\<forall>p. below_dir (ie_state_dir E) p \<longrightarrow> dk_files (in_disk w') p = None)))"
  proof (cases "wants_state_removed R")
    case False
    then show ?thesis using assms by (auto simp: step_return_def shrinks_def)
  next
    case True
    then have "step_bind check_context (\<lambda>_. step_bind (files (remove_all R (ie_state_dir E))) (\<lambda>_. step_return True)) w = (r, w')"
      using assms by simp
    then show ?thesis
    proof (cases rule: step_bind_cases)
      case (left e)
      then show ?thesis by (auto simp: check_context_def shrinks_def split: option.splits nat.splits)
    next
      case (right a w1)
      have w1: "in_disk w1 = in_disk w" "in_events w1 = in_events w"
        using right(1) by (auto simp: check_context_def split: option.splits nat.splits)
      have kept: "dk_files (snd (next_answer d)) = dk_files d" for d by (simp add: next_answer_def split: list.splits)
      obtain ok d where answer: "next_answer (in_disk w1) = (ok, d)" by (cases "next_answer (in_disk w1)")
      have d: "dk_files d = dk_files (in_disk w)" using kept [of "in_disk w1"] answer w1 by simp
      from right(2) show ?thesis
        by (cases ok) (auto simp: step_bind_def step_return_def files_def remove_all_def answer [unfolded w1(1)] d w1 shrinks_def True split: if_splits)
    qed
  qed
  then show "shrinks UNIV (in_disk w) (in_disk w')" "\<exists>evs. in_events w' = in_events w @ evs" by blast+
  from all show "case r of Inl e \<Rightarrow> (\<nexists>stopped. e = StopFailed stopped)
     | Inr removed \<Rightarrow> removed = wants_state_removed R
         \<and> (removed \<longrightarrow> (\<forall>p. below_dir (ie_state_dir E) p \<longrightarrow> dk_files (in_disk w') p = None))" by blast
qed

text \<open>Only the stop fails with an error of the stop.\<close>

definition no_stop :: "'a step \<Rightarrow> bool" where
  "no_stop f \<longleftrightarrow> (\<forall>w e w'. f w = (Inl e, w') \<longrightarrow> (\<nexists>stopped. e = StopFailed stopped))"

lemma no_stop_bind: "no_stop f \<Longrightarrow> (\<And>a. no_stop (g a)) \<Longrightarrow> no_stop (step_bind f g)"
proof (unfold no_stop_def, intro allI impI)
  fix w e w'
  assume f: "\<forall>w e w'. f w = (Inl e, w') \<longrightarrow> (\<nexists>stopped. e = StopFailed stopped)"
    and g: "\<And>a. \<forall>w e w'. g a w = (Inl e, w') \<longrightarrow> (\<nexists>stopped. e = StopFailed stopped)"
    and run: "step_bind f g w = (Inl e, w')"
  show "\<nexists>stopped. e = StopFailed stopped"
    using run by (cases rule: step_bind_cases) (use f g in blast)+
qed

lemma no_stop_simple:
  "no_stop (step_return a)" "no_stop (note_event ev)" "no_stop check_context" "no_stop (run_command E args)" "no_stop (files f)"
  "no_stop (ensure_user_path E)" "no_stop (load_config E)" "no_stop (caUntrustFingerprint E)" "no_stop (moveAsideRunningExecutable E R path)"
  by (auto simp: no_stop_def step_return_def note_event_def check_context_def run_command_def step_bind_def files_def
      ensure_user_path_def load_config_def caUntrustFingerprint_def moveAsideRunningExecutable_def
      split: option.splits nat.splits prod.splits sum.splits if_splits)

lemma no_stop_rest:
  "no_stop (remove_service E)" "no_stop (remove_user_path E)" "no_stop (remove_firewall E)" "no_stop (removeInstalledFile E R path)"
  "no_stop (untrustHTTPSCAIfEnabled E)"
proof -
  have "no_stop (\<lambda>w. files (remove_if_there (service_path E)) (snd (run_command E args w)))" for args
    using no_stop_simple(5) unfolding no_stop_def by blast
  then have "no_stop (step_bind check_context (\<lambda>_ w. files (remove_if_there (service_path E)) (snd (run_command E args w))))" for args
    by (intro no_stop_bind no_stop_simple) simp
  then show "no_stop (remove_service E)" unfolding no_stop_def remove_service_def by auto
  show "no_stop (remove_user_path E)" by (simp add: remove_user_path_def no_stop_simple)
  show "no_stop (remove_firewall E)" unfolding remove_firewall_def by (intro no_stop_bind no_stop_simple) (simp add: no_stop_simple)
  show "no_stop (removeInstalledFile E R path)" unfolding removeInstalledFile_def
    by (intro no_stop_bind no_stop_simple) (simp add: no_stop_simple)
  have "no_stop (UntrustCA E s)" for s
    by (auto simp: UntrustCA_def Let_def no_stop_simple no_stop_bind) (simp_all add: no_stop_def)
  then show "no_stop (untrustHTTPSCAIfEnabled E)" unfolding untrustHTTPSCAIfEnabled_def
    by (intro no_stop_bind no_stop_simple) (simp add: no_stop_simple no_stop_bind)
qed


text \<open>An authority that cannot be loaded (expired, lost, damaged) stops the removal here, when the binaries are already gone.\<close>

lemma lost_authority_blocks_removal:
  assumes "load_config E w = (Inr True, w1)" "LoadCA (ie_lib E) (ie_state_dir E) (ie_now E) (in_disk w1) = (Inl e, d)"
  shows "untrustHTTPSCAIfEnabled E w = (Inl (CertFailed e), w1\<lparr>in_disk := d\<rparr>)"
  using assms
  by (simp add: untrustHTTPSCAIfEnabled_def step_bind_def caUntrustFingerprint_def CA_Fingerprint_def TrustFingerprint_def cert_bind_def)

end
