(* ===== verification/Spec2Isabelle.thy ===== *)
theory Spec2Isabelle
  imports Local_Tls Route_Commands Runner Workspace Run_Api Run_Effects Run_Output Static_Server Lan_Interface Router_Stop Router_Start Install
begin

text \<open>
  A verification development of gohere.
\<close>

end
